(* ===== verification/Prelude.thy ===== *)
theory Prelude
  imports Main "HOL-Library.Word" "HOL-Library.Monad_Syntax" "HOL-Library.AList"
    "HOL-Library.List_Lexorder" "HOL-Library.Char_ord" "HOL-Library.Sublist"
begin

text \<open>
  What every component shares: the widths of the machine integers, the saturating and
  checked arithmetic of the Rust standard library on them, updates of the first list
  element that satisfies a test (a \<open>find\<close> followed by a mutation through the reference),
  hash maps as association lists, ordered maps as sorted association lists, and the three
  interfaces that several components meet: an enumeration with its wire names, a finite
  map of named entries and a system of guarded steps with an invariant.

  Throughout the development a computation that can reach an \<open>expect\<close> or an indexing
  panic has an \<open>option\<close> type, whose \<open>None\<close> is the panic and nothing else; an error value
  of the program is \<open>Inl\<close> of a sum.
\<close>

named_theorems names_simps \<open>operations that keep the names of the managed records\<close>
named_theorems trace_simps \<open>what a step appends to the history of port calls\<close>

subsection \<open>Machine integers\<close>

type_synonym u16 = "16 word"
type_synonym u32 = "32 word"
type_synonym u64 = "64 word"

definition saturating_add :: "'a::len word \<Rightarrow> 'a word \<Rightarrow> 'a word" where
  "saturating_add a b = (if unat a + unat b < 2 ^ LENGTH('a) then a + b else - 1)"

definition saturating_sub :: "'a::len word \<Rightarrow> 'a word \<Rightarrow> 'a word" where
  "saturating_sub a b = (if b \<le> a then a - b else 0)"

definition saturating_mul :: "'a::len word \<Rightarrow> 'a word \<Rightarrow> 'a word" where
  "saturating_mul a b = (if unat a * unat b < 2 ^ LENGTH('a) then a * b else - 1)"

definition checked_sub :: "'a::len word \<Rightarrow> 'a word \<Rightarrow> 'a word option" where
  "checked_sub a b = (if b \<le> a then Some (a - b) else None)"

definition checked_mul :: "'a::len word \<Rightarrow> 'a word \<Rightarrow> 'a word option" where
  "checked_mul a b = (if unat a * unat b < 2 ^ LENGTH('a) then Some (a * b) else None)"

text \<open>Code equations over integers, so that the operations evaluate on numerals of 64 bits.\<close>

lemma width_test:
  fixes a b :: "'a::len word"
  shows "uint a + uint b < 2 ^ n \<longleftrightarrow> unat a + unat b < 2 ^ n"
    and "uint a * uint b < 2 ^ n \<longleftrightarrow> unat a * unat b < 2 ^ n"
proof -
  have sums: "uint a + uint b = int (unat a + unat b)" "uint a * uint b = int (unat a * unat b)"
    by simp_all
  show "uint a + uint b < 2 ^ n \<longleftrightarrow> unat a + unat b < 2 ^ n"
    unfolding sums by (rule of_nat_less_numeral_power_cancel_iff)
  show "uint a * uint b < 2 ^ n \<longleftrightarrow> unat a * unat b < 2 ^ n"
    unfolding sums by (rule of_nat_less_numeral_power_cancel_iff)
qed

lemma saturating_add_code [code]:
  "saturating_add a b = (if uint a + uint b < 2 ^ LENGTH('a) then a + b else - 1)"
  for a b :: "'a::len word"
  by (simp only: saturating_add_def width_test)

lemma saturating_mul_code [code]:
  "saturating_mul a b = (if uint a * uint b < 2 ^ LENGTH('a) then a * b else - 1)"
  for a b :: "'a::len word"
  by (simp only: saturating_mul_def width_test)

lemma checked_mul_code [code]:
  "checked_mul a b = (if uint a * uint b < 2 ^ LENGTH('a) then Some (a * b) else None)"
  for a b :: "'a::len word"
  by (simp only: checked_mul_def width_test)

lemma unat_max_word: "unat (- 1 :: 'a::len word) = 2 ^ LENGTH('a) - 1"
  by transfer (simp add: take_bit_minus_one_eq_mask mask_eq_exp_minus_1 nat_diff_distrib' nat_power_eq)

lemma unat_saturating_add:
  "unat (saturating_add a b) = min (unat a + unat b) (2 ^ LENGTH('a) - 1)"
  for a b :: "'a::len word"
  by (auto simp: saturating_add_def unat_max_word unat_word_ariths)

lemma unat_saturating_mul:
  "unat (saturating_mul a b) = min (unat a * unat b) (2 ^ LENGTH('a) - 1)"
  for a b :: "'a::len word"
  by (auto simp: saturating_mul_def unat_max_word unat_word_ariths)

lemma unat_saturating_sub: "unat (saturating_sub a b) = unat a - unat b"
  for a b :: "'a::len word"
  by (auto simp: saturating_sub_def unat_sub word_le_nat_alt)

lemma checked_mul_Some:
  "checked_mul a b = Some c \<longleftrightarrow> unat a * unat b < 2 ^ LENGTH('a) \<and> c = a * b"
  for a b :: "'a::len word"
  by (auto simp: checked_mul_def)

lemma unat_mult_no_wrap:
  "unat a * unat b < 2 ^ LENGTH('a) \<Longrightarrow> unat (a * b) = unat a * unat b"
  for a b :: "'a::len word"
  by (simp add: unat_word_ariths)

lemma unat_Suc_less: "d < u \<Longrightarrow> unat (d + 1) = Suc (unat d)"
  for d u :: "'a::len word"
proof -
  assume "d < u"
  then have "unat d + 1 \<le> unat u"
    by (simp add: word_less_nat_alt)
  also have "\<dots> < 2 ^ LENGTH('a)"
    by (rule unsigned_less)
  finally show ?thesis by (simp add: unat_word_ariths)
qed

subsection \<open>Updates through a found reference\<close>

text \<open>
  \<open>iter_mut().find(p)\<close> hands out a reference to the first element that satisfies \<open>p\<close>;
  writing through it changes that element and no other.
\<close>

fun update_first :: "('a \<Rightarrow> bool) \<Rightarrow> ('a \<Rightarrow> 'a) \<Rightarrow> 'a list \<Rightarrow> 'a list" where
  "update_first p f [] = []"
| "update_first p f (x # xs) = (if p x then f x # xs else x # update_first p f xs)"

fun remove_first :: "('a \<Rightarrow> bool) \<Rightarrow> 'a list \<Rightarrow> 'a list" where
  "remove_first p [] = []"
| "remove_first p (x # xs) = (if p x then xs else x # remove_first p xs)"

lemma length_update_first [simp]: "length (update_first p f xs) = length xs"
  by (induction xs) auto

lemma map_update_first:
  "(\<And>x. p x \<Longrightarrow> g (f x) = g x) \<Longrightarrow> map g (update_first p f xs) = map g xs"
  by (induction xs) auto

lemma find_update_first_same:
  "(\<And>x. p x \<Longrightarrow> p (f x)) \<Longrightarrow> find p (update_first p f xs) = map_option f (find p xs)"
  by (induction xs) auto

lemma find_update_first_other:
  "(\<And>x. p x \<Longrightarrow> q x = q (f x)) \<Longrightarrow> (\<And>x. p x \<Longrightarrow> \<not> q x) \<Longrightarrow>
    find q (update_first p f xs) = find q xs"
  by (induction xs) auto

lemma set_update_first_subset: "set (update_first p f xs) \<subseteq> set xs \<union> f ` set xs"
  by (induction xs) auto

lemma set_update_first_find:
  "find p xs = Some r \<Longrightarrow> set (update_first p f xs) \<subseteq> insert (f r) (set xs)"
  by (induction xs) (auto split: if_splits)

lemma update_first_none: "find p xs = None \<Longrightarrow> update_first p f xs = xs"
  by (induction xs) (auto split: if_splits)

lemma remove_first_none: "find p xs = None \<Longrightarrow> remove_first p xs = xs"
  by (induction xs) (auto split: if_splits)

lemma update_first_cong:
  "(\<And>x. find p xs = Some x \<Longrightarrow> f x = g x) \<Longrightarrow> update_first p f xs = update_first p g xs"
  by (induction xs) auto

lemma set_remove_first_subset: "set (remove_first p xs) \<subseteq> set xs"
  by (induction xs) auto

lemma find_in_set: "find p xs = Some x \<Longrightarrow> x \<in> set xs \<and> p x"
  by (induction xs) (auto split: if_splits)

lemma find_None_all: "find p xs = None \<longleftrightarrow> (\<forall>x\<in>set xs. \<not> p x)"
  by (auto simp: find_None_iff)

lemma find_ex: "x \<in> set xs \<Longrightarrow> p x \<Longrightarrow> \<exists>y. find p xs = Some y"
  using find_None_iff[of p xs] by (cases "find p xs") auto

lemma find_key_unique:
  "distinct (map k xs) \<Longrightarrow> x \<in> set xs \<Longrightarrow> find (\<lambda>y. k y = k x) xs = Some x"
proof (induction xs)
  case (Cons a xs)
  show ?case
  proof (cases "x = a")
    case False
    with Cons.prems have "x \<in> set xs" "k a \<noteq> k x" by force+
    with Cons show ?thesis by auto
  qed simp
qed simp

lemma distinct_map_remove_first:
  "distinct (map k xs) \<Longrightarrow> distinct (map k (remove_first p xs))"
  by (induction xs) (use set_remove_first_subset in fastforce)+

lemma map_remove_first_key:
  "distinct (map k xs) \<Longrightarrow>
    set (map k (remove_first (\<lambda>x. k x = a) xs)) = set (map k xs) - {a}"
  by (induction xs) (auto simp: image_iff)

subsection \<open>Checks in sequence\<close>

text \<open>The operator \<open>?\<close> on a result without a value: the first error is returned.\<close>

lemma sum_then_ok:
  "(case m of Inl e \<Rightarrow> Inl e | Inr _ \<Rightarrow> k) = Inr r \<longleftrightarrow> m = Inr () \<and> k = Inr r"
  for m :: "'e + unit"
  by (cases m) auto

lemma if_error_ok: "(if b then Inl e else k) = Inr r \<longleftrightarrow> \<not> b \<and> k = Inr r"
  by simp

subsection \<open>Computations that return\<close>

text \<open>
  \<open>returns m Q\<close>: the computation does not panic and its result satisfies \<open>Q\<close>. As a
  simplification rule \<open>returns_bind\<close> makes it a weakest precondition.
\<close>

definition returns :: "'a option \<Rightarrow> ('a \<Rightarrow> bool) \<Rightarrow> bool" where
  "returns m Q \<longleftrightarrow> (case m of None \<Rightarrow> False | Some x \<Rightarrow> Q x)"

lemma returns_Some [simp]: "returns (Some x) Q \<longleftrightarrow> Q x"
  by (simp add: returns_def)

lemma returns_None [simp]: "\<not> returns None Q"
  by (simp add: returns_def)

lemma returns_bind [simp]: "returns (m \<bind> f) Q \<longleftrightarrow> returns m (\<lambda>x. returns (f x) Q)"
  by (cases m) simp_all

lemma returns_mono: "returns m Q \<Longrightarrow> (\<And>x. Q x \<Longrightarrow> R x) \<Longrightarrow> returns m R"
  by (cases m) simp_all

lemma returns_iff: "returns m Q \<longleftrightarrow> (\<exists>x. m = Some x \<and> Q x)"
  by (cases m) simp_all

lemma returns_conj: "returns m P \<Longrightarrow> returns m Q \<Longrightarrow> returns m (\<lambda>x. P x \<and> Q x)"
  by (cases m) simp_all

subsection \<open>Filtering with a test that may panic\<close>

fun filter_opt :: "('a \<Rightarrow> bool option) \<Rightarrow> 'a list \<Rightarrow> 'a list option" where
  "filter_opt p [] = Some []"
| "filter_opt p (x # xs) =
     do { keep \<leftarrow> p x; rest \<leftarrow> filter_opt p xs; Some (if keep then x # rest else rest) }"

lemma filter_opt_Some:
  "(\<And>x. x \<in> set xs \<Longrightarrow> p x = Some (q x)) \<Longrightarrow> filter_opt p xs = Some (filter q xs)"
  by (induction xs) auto

lemma filter_opt_defined: "(\<And>x. x \<in> set xs \<Longrightarrow> p x \<noteq> None) \<Longrightarrow> filter_opt p xs \<noteq> None"
proof (induction xs)
  case (Cons x xs)
  then obtain b ys where "p x = Some b" "filter_opt p xs = Some ys" by fastforce
  then show ?case by simp
qed simp

fun filter_map :: "('a \<Rightarrow> 'b option) \<Rightarrow> 'a list \<Rightarrow> 'b list" where
  "filter_map f [] = []"
| "filter_map f (x # xs) = (case f x of None \<Rightarrow> filter_map f xs | Some y \<Rightarrow> y # filter_map f xs)"

lemma set_filter_map: "set (filter_map f xs) = {y. \<exists>x\<in>set xs. f x = Some y}"
  by (induction xs) (auto split: option.splits)

subsection \<open>Hash maps and ordered maps\<close>

text \<open>
  A \<open>HashMap\<close> is an association list with distinct keys, read by \<open>map_of\<close>, written by
  \<open>AList.update\<close> and \<open>AList.delete\<close>; the order of the list stands for whatever iteration
  order the hash map happens to have. A \<open>BTreeMap\<close> iterates in key order: a sorted list.
\<close>

fun btree_insert :: "'k::linorder \<Rightarrow> 'v \<Rightarrow> ('k \<times> 'v) list \<Rightarrow> ('k \<times> 'v) list" where
  "btree_insert k v [] = [(k, v)]"
| "btree_insert k v ((k', v') # m) =
     (if k < k' then (k, v) # (k', v') # m
      else if k = k' then (k, v) # m
      else (k', v') # btree_insert k v m)"

lemma map_of_btree_insert: "map_of (btree_insert k v m) = (map_of m)(k \<mapsto> v)"
  by (induction k v m rule: btree_insert.induct) auto

lemma keys_btree_insert: "set (map fst (btree_insert k v m)) = insert k (set (map fst m))"
  by (induction k v m rule: btree_insert.induct) auto

lemma sorted_btree_insert:
  "sorted_wrt (<) (map fst m) \<Longrightarrow> sorted_wrt (<) (map fst (btree_insert k v m))"
proof (induction k v m rule: btree_insert.induct)
  case (2 k v k' v' m)
  show ?case
  proof (cases "k' < k")
    case True
    have "\<forall>x\<in>set (map fst (btree_insert k v m)). k' < x"
      using 2(2) True keys_btree_insert[of k v m] by auto
    with 2 True show ?thesis by auto
  next
    case False
    with "2.prems" show ?thesis by (auto dest: less_trans)
  qed
qed simp

lemma keys_alist_delete: "fst ` set (AList.delete k m) = fst ` set m - {k}"
  using arg_cong[OF delete_keys[of k m], of set] by simp

lemma map_of_alist_update [simp]: "map_of (AList.update k v m) = (map_of m)(k \<mapsto> v)"
  by (simp add: update_conv')

lemma map_of_alist_delete [simp]: "map_of (AList.delete k m) = (map_of m)(k := None)"
  by (simp add: delete_conv')

subsection \<open>Interfaces\<close>

text \<open>
  An enumeration whose values travel as words: \<open>as_str\<close> writes one, \<open>parse\<close> reads it back
  and accepts nothing else.
\<close>

locale wire_enum =
  fixes as_str :: "'a \<Rightarrow> string"
    and parse :: "string \<Rightarrow> 'a option"
  assumes parse_as_str: "parse (as_str x) = Some x"
    and parse_sound: "parse s = Some x \<Longrightarrow> as_str x = s"
begin

lemma parse_iff: "parse s = Some x \<longleftrightarrow> s = as_str x"
  using parse_as_str parse_sound by metis

lemma as_str_inject: "as_str x = as_str y \<longleftrightarrow> x = y"
  by (metis option.inject parse_as_str)

lemma parse_None: "parse s = None \<longleftrightarrow> (\<forall>x. s \<noteq> as_str x)"
  by (metis not_None_eq parse_iff)

end

text \<open>
  A finite map of named entries: what a lookup returns after an insertion and a removal.
\<close>

locale named_store =
  fixes lookup :: "'s \<Rightarrow> string \<Rightarrow> 'v option"
    and put :: "'e \<Rightarrow> 's \<Rightarrow> 's"
    and del :: "string \<Rightarrow> 's \<Rightarrow> 's"
    and wf :: "'s \<Rightarrow> bool"
    and key_of :: "'e \<Rightarrow> string"
    and val_of :: "'e \<Rightarrow> 'v"
  assumes wf_put: "wf s \<Longrightarrow> wf (put e s)"
    and wf_del: "wf s \<Longrightarrow> wf (del k s)"
    and lookup_put: "wf s \<Longrightarrow> lookup (put e s) k = (if k = key_of e then Some (val_of e) else lookup s k)"
    and lookup_del: "wf s \<Longrightarrow> lookup (del k' s) k = (if k = k' then None else lookup s k)"
begin

lemma put_put: "wf s \<Longrightarrow> key_of e = key_of d \<Longrightarrow> lookup (put e (put d s)) = lookup (put e s)"
  by (auto simp: lookup_put wf_put)

lemma del_put: "wf s \<Longrightarrow> lookup (del (key_of e) (put e s)) = lookup (del (key_of e) s)"
  by (auto simp: lookup_put lookup_del wf_put)

lemma del_absent: "wf s \<Longrightarrow> lookup s k = None \<Longrightarrow> lookup (del k s) = lookup s"
  by (auto simp: lookup_del)

lemma put_del_new: "wf s \<Longrightarrow> lookup s (key_of e) = None \<Longrightarrow> lookup (del (key_of e) (put e s)) = lookup s"
  by (auto simp: lookup_put lookup_del wf_put)

lemma wf_puts: "wf s \<Longrightarrow> wf (foldl (\<lambda>s e. put e s) s es)"
  by (induction es arbitrary: s) (auto simp: wf_put)

lemma lookup_puts:
  "wf s \<Longrightarrow> lookup (foldl (\<lambda>s e. put e s) s es) k =
    (case find (\<lambda>e. key_of e = k) (rev es) of Some e \<Rightarrow> Some (val_of e) | None \<Rightarrow> lookup s k)"
proof (induction es rule: rev_induct)
  case (snoc e es)
  then show ?case by (auto simp: lookup_put wf_puts)
qed simp

lemma lookup_puts_other:
  "wf s \<Longrightarrow> k \<notin> key_of ` set es \<Longrightarrow> lookup (foldl (\<lambda>s e. put e s) s es) k = lookup s k"
  by (induction es arbitrary: s) (auto simp: lookup_put wf_put)

end

text \<open>
  A system of guarded steps whose every step is defined (does not panic) from a state that
  satisfies the invariant, and keeps it. \<open>runs\<close> is the execution of a list of commands.
\<close>

locale step_system =
  fixes step :: "'c \<Rightarrow> 's \<Rightarrow> 's option"
    and inv :: "'s \<Rightarrow> bool"
    and admissible :: "'c \<Rightarrow> bool"
  assumes step_defined: "inv s \<Longrightarrow> admissible c \<Longrightarrow> \<exists>s'. step c s = Some s' \<and> inv s'"
begin

fun runs :: "'c list \<Rightarrow> 's \<Rightarrow> 's option" where
  "runs [] s = Some s"
| "runs (c # cs) s = do { s' \<leftarrow> step c s; runs cs s' }"

lemma runs_defined:
  "inv s \<Longrightarrow> (\<And>c. c \<in> set cs \<Longrightarrow> admissible c) \<Longrightarrow> \<exists>s'. runs cs s = Some s' \<and> inv s'"
proof (induction cs arbitrary: s)
  case (Cons c cs)
  then obtain s' where "step c s = Some s'" "inv s'"
    using step_defined[of s c] by auto
  with Cons show ?case by auto
qed simp

lemma runs_append: "runs (cs @ ds) s = do { s' \<leftarrow> runs cs s; runs ds s' }"
  by (induction cs arbitrary: s) (auto split: bind_splits)

end

end
