(* ===== verification/Sandbox_Policy.thy ===== *)
theory Sandbox_Policy
  imports Text
begin

text \<open>
  \<^verbatim>\<open>entities/src/sandbox/\<close>: the directories a service may write and read (\<^verbatim>\<open>roots.rs\<close>) and the
  policy that is checked before a service is accepted (\<^verbatim>\<open>policy.rs\<close>). \<open>is_absolute_path\<close> is
  the variant compiled outside Windows. The lemmas show that \<open>covers_path\<close> compares whole
  path components, that it is a preorder, and that an accepted policy grants no write access
  to a directory above a hidden one.
\<close>

subsection \<open>Roots\<close>

definition normalize_root :: "string \<Rightarrow> string" where
  "normalize_root root =
     (let trimmed = trim_end_matches CHR ''/'' root in if trimmed = [] then ''/'' else trimmed)"

definition is_absolute_path :: "string \<Rightarrow> bool" where
  "is_absolute_path path \<longleftrightarrow> starts_with ''/'' path"

definition ends_at_boundary :: "string \<Rightarrow> bool" where
  "ends_at_boundary rest \<longleftrightarrow> (if rest = [] then True else starts_with ''/'' rest)"

definition covers_path :: "string \<Rightarrow> string \<Rightarrow> bool" where
  "covers_path parent child \<longleftrightarrow>
     (let parent = normalize_root parent in
      if parent = ''/'' then True
      else case strip_prefix parent (normalize_root child) of
             None \<Rightarrow> False
           | Some rest \<Rightarrow> ends_at_boundary rest)"

subsection \<open>Path components\<close>

fun split_on :: "char \<Rightarrow> string \<Rightarrow> string list" where
  "split_on c [] = [[]]"
| "split_on c (x # xs) =
     (if x = c then [] # split_on c xs
      else case split_on c xs of [] \<Rightarrow> [[x]] | w # ws \<Rightarrow> (x # w) # ws)"

abbreviation components :: "string \<Rightarrow> string list" where
  "components \<equiv> split_on CHR ''/''"

lemma split_on_nonempty [simp]: "split_on c s \<noteq> []"
  by (induction s) (auto split: list.splits)

lemma split_on_append: "split_on c (p @ c # r) = split_on c p @ split_on c r"
proof (induction p)
  case (Cons x p)
  then show ?case by (cases "split_on c p") auto
qed simp

lemma join_split_on: "join [c] (split_on c s) = s"
proof (induction s)
  case (Cons x s)
  then show ?case
    by (cases "split_on c s"; cases "tl (split_on c s)") (auto split: list.splits)
qed simp

lemma join_append:
  "xs \<noteq> [] \<Longrightarrow> ys \<noteq> [] \<Longrightarrow> join sep (xs @ ys) = join sep xs @ sep @ join sep ys"
proof (induction sep xs rule: join.induct)
  case (2 sep x)
  then show ?case by (cases ys) auto
qed auto

lemma prefix_components:
  "prefix (split_on c p) (split_on c s) \<longleftrightarrow> s = p \<or> (\<exists>r. s = p @ c # r)"
proof
  assume "prefix (split_on c p) (split_on c s)"
  then obtain ws where ws: "split_on c s = split_on c p @ ws" by (auto simp: prefix_def)
  have s: "s = join [c] (split_on c p @ ws)" using join_split_on[of c s] ws by simp
  show "s = p \<or> (\<exists>r. s = p @ c # r)"
  proof (cases "ws = []")
    case True
    then show ?thesis using s by (simp add: join_split_on)
  next
    case False
    then show ?thesis using s by (simp add: join_append join_split_on)
  qed
next
  assume "s = p \<or> (\<exists>r. s = p @ c # r)"
  then show "prefix (split_on c p) (split_on c s)" by (auto simp: split_on_append)
qed

lemma trim_end_matches_last:
  "trim_end_matches c s \<noteq> [] \<Longrightarrow> last (trim_end_matches c s) \<noteq> c"
  using hd_dropWhile[of "\<lambda>x. x = c" "rev s"] by (simp add: trim_end_matches_def last_rev)

lemma trim_end_matches_id: "s \<noteq> [] \<Longrightarrow> last s \<noteq> c \<Longrightarrow> trim_end_matches c s = s"
  by (cases s rule: rev_cases) (auto simp: trim_end_matches_def)

lemma normalize_root_idem [simp]: "normalize_root (normalize_root r) = normalize_root r"
proof (cases "trim_end_matches CHR ''/'' r = []")
  case True
  then show ?thesis by (simp add: normalize_root_def Let_def trim_end_matches_def)
next
  case False
  then have "trim_end_matches CHR ''/'' (trim_end_matches CHR ''/'' r) = trim_end_matches CHR ''/'' r"
    by (intro trim_end_matches_id trim_end_matches_last)
  with False show ?thesis by (simp add: normalize_root_def Let_def)
qed

lemma covers_path_components:
  "covers_path p c \<longleftrightarrow> normalize_root p = ''/'' \<or>
     prefix (components (normalize_root p)) (components (normalize_root c))"
proof -
  have "starts_with ''/'' rest \<longleftrightarrow> (\<exists>r. rest = CHR ''/'' # r)" for rest
    by (simp add: starts_with_iff)
  then have boundary: "ends_at_boundary rest \<longleftrightarrow> rest = [] \<or> (\<exists>r. rest = CHR ''/'' # r)" for rest
    by (auto simp: ends_at_boundary_def)
  have "(case strip_prefix q s of None \<Rightarrow> False | Some rest \<Rightarrow> ends_at_boundary rest)
      \<longleftrightarrow> s = q \<or> (\<exists>r. s = q @ CHR ''/'' # r)" for q s
    unfolding strip_prefix_def boundary starts_with_iff by auto
  then show ?thesis by (simp add: covers_path_def Let_def prefix_components)
qed

lemma covers_path_refl: "covers_path p p"
  by (simp add: covers_path_components)

lemma covers_path_trans:
  assumes "covers_path a b" and "covers_path b c"
  shows "covers_path a c"
proof (cases "normalize_root a = ''/''")
  case False
  then have ab: "prefix (components (normalize_root a)) (components (normalize_root b))"
    using assms(1) by (simp add: covers_path_components)
  have "normalize_root b \<noteq> ''/''"
  proof
    assume "normalize_root b = ''/''"
    then have "''/'' = normalize_root a \<or> (\<exists>r. ''/'' = normalize_root a @ CHR ''/'' # r)"
      using ab unfolding prefix_components by simp
    then have "normalize_root a = []" using False by (auto simp: Cons_eq_append_conv)
    then show False by (auto simp: normalize_root_def Let_def split: if_splits)
  qed
  with ab assms(2) show ?thesis
    by (auto simp: covers_path_components intro: prefix_order.trans)
qed (simp add: covers_path_components)

subsection \<open>The policy\<close>

datatype sandbox_mode = ReadOnly | WorkspaceWrite | DangerFullAccess

datatype read_scope = Full | Minimal

record sandbox_policy =
  sb_mode :: sandbox_mode
  sb_read :: read_scope
  sb_network :: bool
  writable_roots :: "string list"
  readable_roots :: "string list"
  derived_readable_roots :: "string list"
  derived_roots :: "string list"
  unreadable_roots :: "string list"

datatype policy_error =
    EmptyWritableRoot
  | RelativeWritableRoot string
  | EmptyDerivedRoot
  | RelativeDerivedRoot string
  | EmptyReadableRoot
  | RelativeReadableRoot string
  | WritableRootsWithoutWriteAccess
  | WritableRootCoversHiddenRoot string string
  | ForbiddenWritableRoot string

text \<open>The constant \<open>ALL\<close> of each enumeration is its \<open>enum\<close>.\<close>

instantiation sandbox_mode :: enum
begin

definition enum_sandbox_mode :: "sandbox_mode list" where
  "enum_sandbox_mode = [ReadOnly, WorkspaceWrite, DangerFullAccess]"

definition enum_all_sandbox_mode :: "(sandbox_mode \<Rightarrow> bool) \<Rightarrow> bool" where
  "enum_all_sandbox_mode P \<longleftrightarrow> P ReadOnly \<and> P WorkspaceWrite \<and> P DangerFullAccess"

definition enum_ex_sandbox_mode :: "(sandbox_mode \<Rightarrow> bool) \<Rightarrow> bool" where
  "enum_ex_sandbox_mode P \<longleftrightarrow> P ReadOnly \<or> P WorkspaceWrite \<or> P DangerFullAccess"

instance
proof
  show univ: "UNIV = set (enum_class.enum :: sandbox_mode list)"
    using sandbox_mode.exhaust by (auto simp: enum_sandbox_mode_def)
  show "distinct (enum_class.enum :: sandbox_mode list)" by (simp add: enum_sandbox_mode_def)
  fix P :: "sandbox_mode \<Rightarrow> bool"
  show "enum_class.enum_all P \<longleftrightarrow> Ball UNIV P"
    unfolding enum_all_sandbox_mode_def by (metis UNIV_I sandbox_mode.exhaust)
  show "enum_class.enum_ex P \<longleftrightarrow> Bex UNIV P"
    unfolding enum_ex_sandbox_mode_def by (metis UNIV_I sandbox_mode.exhaust)
qed

end

instantiation read_scope :: enum
begin

definition enum_read_scope :: "read_scope list" where
  "enum_read_scope = [Full, Minimal]"

definition enum_all_read_scope :: "(read_scope \<Rightarrow> bool) \<Rightarrow> bool" where
  "enum_all_read_scope P \<longleftrightarrow> P Full \<and> P Minimal"

definition enum_ex_read_scope :: "(read_scope \<Rightarrow> bool) \<Rightarrow> bool" where
  "enum_ex_read_scope P \<longleftrightarrow> P Full \<or> P Minimal"

instance
proof
  show univ: "UNIV = set (enum_class.enum :: read_scope list)"
    using read_scope.exhaust by (auto simp: enum_read_scope_def)
  show "distinct (enum_class.enum :: read_scope list)" by (simp add: enum_read_scope_def)
  fix P :: "read_scope \<Rightarrow> bool"
  show "enum_class.enum_all P \<longleftrightarrow> Ball UNIV P"
    unfolding enum_all_read_scope_def by (metis UNIV_I read_scope.exhaust)
  show "enum_class.enum_ex P \<longleftrightarrow> Bex UNIV P"
    unfolding enum_ex_read_scope_def by (metis UNIV_I read_scope.exhaust)
qed

end

primrec sandbox_mode_as_str :: "sandbox_mode \<Rightarrow> string" where
  "sandbox_mode_as_str ReadOnly = ''read-only''"
| "sandbox_mode_as_str WorkspaceWrite = ''workspace-write''"
| "sandbox_mode_as_str DangerFullAccess = ''danger-full-access''"

definition sandbox_mode_parse :: "string \<Rightarrow> sandbox_mode option" where
  "sandbox_mode_parse raw =
     (if raw = ''read-only'' then Some ReadOnly
      else if raw = ''workspace-write'' then Some WorkspaceWrite
      else if raw = ''danger-full-access'' then Some DangerFullAccess
      else None)"

primrec allows_writes :: "sandbox_mode \<Rightarrow> bool" where
  "allows_writes ReadOnly = False"
| "allows_writes WorkspaceWrite = True"
| "allows_writes DangerFullAccess = True"

primrec is_unconfined :: "sandbox_mode \<Rightarrow> bool" where
  "is_unconfined ReadOnly = False"
| "is_unconfined WorkspaceWrite = False"
| "is_unconfined DangerFullAccess = True"

primrec read_scope_as_str :: "read_scope \<Rightarrow> string" where
  "read_scope_as_str Full = ''full''"
| "read_scope_as_str Minimal = ''minimal''"

definition read_scope_parse :: "string \<Rightarrow> read_scope option" where
  "read_scope_parse raw =
     (if raw = ''full'' then Some Full else if raw = ''minimal'' then Some Minimal else None)"

primrec confines_reads :: "read_scope \<Rightarrow> bool" where
  "confines_reads Full = False"
| "confines_reads Minimal = True"

interpretation mode_words: wire_enum sandbox_mode_as_str sandbox_mode_parse
proof
  show "sandbox_mode_parse (sandbox_mode_as_str x) = Some x" for x
    by (cases x) (simp_all add: sandbox_mode_parse_def)
  show "sandbox_mode_parse s = Some x \<Longrightarrow> sandbox_mode_as_str x = s" for s x
    by (auto simp: sandbox_mode_parse_def split: if_splits)
qed

interpretation scope_words: wire_enum read_scope_as_str read_scope_parse
proof
  show "read_scope_parse (read_scope_as_str x) = Some x" for x
    by (cases x) (simp_all add: read_scope_parse_def)
  show "read_scope_parse s = Some x \<Longrightarrow> read_scope_as_str x = s" for s x
    by (auto simp: read_scope_parse_def split: if_splits)
qed

definition granted_roots :: "sandbox_policy \<Rightarrow> string list" where
  "granted_roots policy = writable_roots policy @ derived_roots policy"

definition readable_grants :: "sandbox_policy \<Rightarrow> string list" where
  "readable_grants policy = readable_roots policy @ derived_readable_roots policy"

definition hidden_paths :: "sandbox_policy \<Rightarrow> string list" where
  "hidden_paths policy = unreadable_roots policy"

fun validate_roots :: "string list \<Rightarrow> policy_error \<Rightarrow> (string \<Rightarrow> policy_error) \<Rightarrow> policy_error + unit"
where
  "validate_roots [] blank relative = Inr ()"
| "validate_roots (root # roots) blank relative =
     (if root = [] then Inl blank
      else if \<not> is_absolute_path root then Inl (relative root)
      else validate_roots roots blank relative)"

fun validate_hidden_roots_of :: "string list \<Rightarrow> string list \<Rightarrow> policy_error + unit" where
  "validate_hidden_roots_of hidden [] = Inr ()"
| "validate_hidden_roots_of hidden (root # roots) =
     (case find (covers_path root) hidden of
        Some h \<Rightarrow> Inl (WritableRootCoversHiddenRoot root h)
      | None \<Rightarrow> validate_hidden_roots_of hidden roots)"

definition validate_hidden_roots_stay_hidden :: "sandbox_policy \<Rightarrow> policy_error + unit" where
  "validate_hidden_roots_stay_hidden policy =
     validate_hidden_roots_of (unreadable_roots policy) (granted_roots policy)"

definition validate_policy :: "sandbox_policy \<Rightarrow> policy_error + unit" where
  "validate_policy policy =
     (if \<not> allows_writes (sb_mode policy) \<and> granted_roots policy \<noteq> []
      then Inl WritableRootsWithoutWriteAccess
      else case validate_roots (writable_roots policy) EmptyWritableRoot RelativeWritableRoot of
        Inl e \<Rightarrow> Inl e
      | Inr _ \<Rightarrow>
      (case validate_roots (derived_roots policy) EmptyDerivedRoot RelativeDerivedRoot of
        Inl e \<Rightarrow> Inl e
      | Inr _ \<Rightarrow>
      (case validate_roots (readable_roots policy) EmptyReadableRoot RelativeReadableRoot of
        Inl e \<Rightarrow> Inl e
      | Inr _ \<Rightarrow> validate_hidden_roots_stay_hidden policy)))"

definition root_is_forbidden :: "string list \<Rightarrow> string \<Rightarrow> bool" where
  "root_is_forbidden forbidden root \<longleftrightarrow>
     list_ex (\<lambda>denied. normalize_root denied = normalize_root root) forbidden"

definition validate_forbidden_roots :: "sandbox_policy \<Rightarrow> string list \<Rightarrow> policy_error + unit" where
  "validate_forbidden_roots policy forbidden =
     (case find (root_is_forbidden forbidden) (writable_roots policy) of
        None \<Rightarrow> Inr ()
      | Some root \<Rightarrow> Inl (ForbiddenWritableRoot root))"

lemma absolute_nonempty: "is_absolute_path r \<Longrightarrow> r \<noteq> []"
  by (auto simp: is_absolute_path_def starts_with_def)

lemma validate_roots_ok: "validate_roots rs e r = Inr u \<longleftrightarrow> list_all is_absolute_path rs"
  by (induction rs) (auto dest: absolute_nonempty)

lemma validate_hidden_ok:
  "validate_hidden_roots_of hidden rs = Inr u \<longleftrightarrow>
    (\<forall>root\<in>set rs. \<forall>h\<in>set hidden. \<not> covers_path root h)"
proof (induction rs)
  case (Cons root rs)
  then show ?case
    using find_None_all[of "covers_path root" hidden] find_in_set[of "covers_path root" hidden]
    by (cases "find (covers_path root) hidden") auto
qed simp

lemma validate_policy_iff:
  "validate_policy p = Inr () \<longleftrightarrow>
     (allows_writes (sb_mode p) \<or> granted_roots p = []) \<and>
     list_all is_absolute_path (granted_roots p @ readable_roots p) \<and>
     (\<forall>root\<in>set (granted_roots p). \<forall>h\<in>set (unreadable_roots p). \<not> covers_path root h)"
  by (auto simp: validate_policy_def validate_hidden_roots_stay_hidden_def sum_then_ok
      if_error_ok validate_roots_ok validate_hidden_ok granted_roots_def)

lemma validate_forbidden_iff:
  "validate_forbidden_roots p forbidden = Inr () \<longleftrightarrow>
    (\<forall>root\<in>set (writable_roots p). \<forall>f\<in>set forbidden. normalize_root f \<noteq> normalize_root root)"
proof (cases "find (root_is_forbidden forbidden) (writable_roots p)")
  case None
  then show ?thesis
    using find_None_all[of "root_is_forbidden forbidden" "writable_roots p"]
    by (auto simp: validate_forbidden_roots_def root_is_forbidden_def list_ex_iff)
next
  case (Some r)
  then show ?thesis
    using find_in_set[OF Some]
    by (auto simp: validate_forbidden_roots_def root_is_forbidden_def list_ex_iff)
qed

end
