(* ===== verification/Depgraph.thy ===== *)
theory Depgraph
  imports Text
begin

text \<open>
  \<^verbatim>\<open>entities/src/process/depgraph.rs\<close>: the start order of services that depend on each other.
  \<open>topo_sort\<close> repeatedly takes every service whose dependencies are already in the order; when
  none is left to take it reports exactly the services that depend on themselves.
  The lemmas show that the work list search is reachability, that an order lists every
  service once and after its dependencies, and that the cycle error is raised exactly for a
  cyclic graph and names exactly the services on a cycle.
\<close>

subsection \<open>Data\<close>

record dependency_node =
  dn_name :: string
  dn_depends_on :: "string list"

datatype dependency_error =
    UnknownDependency string string
  | Cycle "string list"

definition contains_name :: "string list \<Rightarrow> string \<Rightarrow> bool" where
  "contains_name names candidate \<longleftrightarrow> list_ex (\<lambda>name. name = candidate) names"

lemma contains_name_iff [simp]: "contains_name names x \<longleftrightarrow> x \<in> set names"
  by (auto simp: contains_name_def list_ex_iff)

subsection \<open>Operations\<close>

fun check_dependencies :: "dependency_node list \<Rightarrow> string \<Rightarrow> string list \<Rightarrow> dependency_error + unit"
where
  "check_dependencies nodes app [] = Inr ()"
| "check_dependencies nodes app (dependency # rest) =
     (if \<not> list_ex (\<lambda>other. dn_name other = dependency) nodes
      then Inl (UnknownDependency app dependency)
      else check_dependencies nodes app rest)"

fun check_nodes :: "dependency_node list \<Rightarrow> dependency_node list \<Rightarrow> dependency_error + unit" where
  "check_nodes nodes [] = Inr ()"
| "check_nodes nodes (node # rest) =
     (case check_dependencies nodes (dn_name node) (dn_depends_on node) of
        Inl e \<Rightarrow> Inl e
      | Inr _ \<Rightarrow> check_nodes nodes rest)"

definition ensure_dependencies_known :: "dependency_node list \<Rightarrow> dependency_error + unit" where
  "ensure_dependencies_known nodes = check_nodes nodes nodes"

definition next_ready_names :: "dependency_node list \<Rightarrow> string list \<Rightarrow> string list" where
  "next_ready_names nodes order =
     map dn_name
       (filter (\<lambda>node. list_all (contains_name order) (dn_depends_on node))
         (filter (\<lambda>node. \<not> contains_name order (dn_name node)) nodes))"

text \<open>
  The work list of \<open>reaches_itself\<close>: \<open>pending\<close> is the vector read from its end, so its head is
  what \<open>pop\<close> returns and \<open>extend\<close> puts the last element in front. The lookup of a name that no
  node has is the \<open>expect\<close> of the source.
\<close>

function reach_loop ::
  "dependency_node list \<Rightarrow> string \<Rightarrow> string list \<Rightarrow> string list \<Rightarrow> bool option" where
  "reach_loop nodes origin visited [] = Some False"
| "reach_loop nodes origin visited (name # pending) =
     (if name = origin then Some True
      else if name \<in> set visited then reach_loop nodes origin visited pending
      else case find (\<lambda>candidate. dn_name candidate = name) nodes of
             None \<Rightarrow> None
           | Some node \<Rightarrow>
               reach_loop nodes origin (name # visited) (rev (dn_depends_on node) @ pending))"
  by pat_completeness auto
termination
proof (relation "inv_image (less_than <*lex*> less_than)
         (\<lambda>(nodes, origin, visited, pending).
            (card (dn_name ` set nodes - set visited), length pending))", goal_cases)
  case (3 nodes origin visited name pending node)
  then have "name \<in> dn_name ` set nodes - set visited"
    using find_in_set by fastforce
  then have "card (dn_name ` set nodes - set (name # visited)) < card (dn_name ` set nodes - set visited)"
    by (intro psubset_card_mono) auto
  then show ?case by simp
qed auto

definition reaches_itself :: "dependency_node \<Rightarrow> dependency_node list \<Rightarrow> bool option" where
  "reaches_itself origin nodes =
     reach_loop nodes (dn_name origin) [] (rev (dn_depends_on origin))"

definition cycle_members :: "dependency_node list \<Rightarrow> string list \<Rightarrow> string list option" where
  "cycle_members nodes order =
     map_option (map dn_name)
       (filter_opt (\<lambda>node. reaches_itself node nodes)
         (filter (\<lambda>node. \<not> contains_name order (dn_name node)) nodes))"

function topo_loop ::
  "dependency_node list \<Rightarrow> string list \<Rightarrow> (dependency_error + string list) option" where
  "topo_loop nodes order =
     (if length order < length nodes then
        let ready = next_ready_names nodes order in
        if ready = [] then map_option (\<lambda>involved. Inl (Cycle involved)) (cycle_members nodes order)
        else topo_loop nodes (order @ ready)
      else Some (Inr order))"
  by pat_completeness auto
termination
  by (relation "measure (\<lambda>(nodes, order). length nodes - length order)")
    (auto simp: neq_Nil_conv)

declare topo_loop.simps [simp del]

definition topo_sort :: "dependency_node list \<Rightarrow> (dependency_error + string list) option" where
  "topo_sort nodes =
     (case ensure_dependencies_known nodes of
        Inl e \<Rightarrow> Some (Inl e)
      | Inr _ \<Rightarrow> topo_loop nodes [])"

subsection \<open>The dependency graph\<close>

definition depends :: "dependency_node list \<Rightarrow> (string \<times> string) set" where
  "depends nodes = {(dn_name n, d) |n d. n \<in> set nodes \<and> d \<in> set (dn_depends_on n)}"

abbreviation node_names :: "dependency_node list \<Rightarrow> string set" where
  "node_names nodes \<equiv> dn_name ` set nodes"

definition dependencies_known :: "dependency_node list \<Rightarrow> bool" where
  "dependencies_known nodes \<longleftrightarrow> (\<forall>n\<in>set nodes. set (dn_depends_on n) \<subseteq> node_names nodes)"

lemma check_dependencies_ok:
  "check_dependencies nodes app ds = Inr u \<longleftrightarrow> set ds \<subseteq> node_names nodes"
  by (induction ds) (auto simp: list_ex_iff image_iff)

lemma check_dependencies_error:
  "check_dependencies nodes app ds = Inl e \<Longrightarrow>
    \<exists>d\<in>set ds. e = UnknownDependency app d \<and> d \<notin> node_names nodes"
  by (induction ds) (auto simp: list_ex_iff split: if_splits)

lemma check_nodes_ok:
  "check_nodes nodes ns = Inr u \<longleftrightarrow> (\<forall>n\<in>set ns. set (dn_depends_on n) \<subseteq> node_names nodes)"
proof (induction ns)
  case (Cons n ns)
  show ?case
  proof (cases "check_dependencies nodes (dn_name n) (dn_depends_on n)")
    case (Inl e)
    then show ?thesis
      using check_dependencies_ok[of nodes "dn_name n" "dn_depends_on n" "()"] by simp
  next
    case (Inr v)
    then show ?thesis
      using Cons check_dependencies_ok[of nodes "dn_name n" "dn_depends_on n" v] by simp
  qed
qed simp

lemma check_nodes_error:
  "check_nodes nodes ns = Inl e \<Longrightarrow>
    \<exists>n\<in>set ns. \<exists>d\<in>set (dn_depends_on n). e = UnknownDependency (dn_name n) d \<and> d \<notin> node_names nodes"
  by (induction ns) (auto split: sum.splits dest: check_dependencies_error)

lemma ensure_known_iff: "ensure_dependencies_known nodes = Inr u \<longleftrightarrow> dependencies_known nodes"
  by (simp add: ensure_dependencies_known_def check_nodes_ok dependencies_known_def)

lemma depends_step:
  "find (\<lambda>m. dn_name m = a) nodes = Some n \<Longrightarrow> d \<in> set (dn_depends_on n) \<Longrightarrow> (a, d) \<in> depends nodes"
  using find_in_set by (fastforce simp: depends_def)

lemma depends_find:
  assumes "distinct (map dn_name nodes)" and "(a, d) \<in> depends nodes"
    and "find (\<lambda>m. dn_name m = a) nodes = Some n"
  shows "d \<in> set (dn_depends_on n)"
proof -
  obtain m where m: "m \<in> set nodes" "dn_name m = a" "d \<in> set (dn_depends_on m)"
    using assms(2) by (auto simp: depends_def)
  have "find (\<lambda>m. dn_name m = a) nodes = Some m"
    using find_key_unique[OF assms(1) m(1)] m(2) by simp
  with assms(3) m(3) show ?thesis by simp
qed

lemma finite_depends: "finite (depends nodes)"
proof -
  have "depends nodes \<subseteq> (\<Union>n\<in>set nodes. Pair (dn_name n) ` set (dn_depends_on n))"
    by (auto simp: depends_def)
  then show ?thesis by (rule finite_subset) auto
qed

subsection \<open>The work list search is reachability\<close>

lemma reach_loop_True:
  "reach_loop nodes x visited pending = Some True \<Longrightarrow> x \<in> (depends nodes)\<^sup>* `` set pending"
proof (induction nodes x visited pending rule: reach_loop.induct)
  case (2 nodes x visited name pending)
  show ?case
  proof (cases "name = x \<or> name \<in> set visited")
    case True
    then show ?thesis using 2 by (auto split: if_splits)
  next
    case False
    then obtain n where n: "find (\<lambda>c. dn_name c = name) nodes = Some n"
      and step: "x \<in> (depends nodes)\<^sup>* `` (set (dn_depends_on n) \<union> set pending)"
      using 2 by (auto split: if_splits option.splits)
    then show ?thesis
      using depends_step[OF n] by (auto intro: converse_rtrancl_into_rtrancl)
  qed
qed simp

lemma reach_loop_False:
  assumes "distinct (map dn_name nodes)"
  shows "reach_loop nodes x visited pending = Some False \<Longrightarrow>
    x \<notin> set visited \<Longrightarrow> depends nodes `` set visited \<subseteq> set visited \<union> set pending \<Longrightarrow>
    \<exists>V. set visited \<union> set pending \<subseteq> V \<and> x \<notin> V \<and> depends nodes `` V \<subseteq> V"
  using assms
proof (induction nodes x visited pending rule: reach_loop.induct)
  case (1 nodes x visited)
  then show ?case by (intro exI[of _ "set visited"]) auto
next
  case (2 nodes x visited name pending)
  show ?case
  proof (cases "name \<in> set visited")
    case True
    with "2.prems"(1,2) have ne: "name \<noteq> x"
      and rec: "reach_loop nodes x visited pending = Some False"
      by (auto split: if_splits)
    have "depends nodes `` set visited \<subseteq> set visited \<union> set pending"
      using "2.prems"(3) True by auto
    note IH = "2.IH"(1)[OF ne True rec "2.prems"(2) this "2.prems"(4)]
    have "set visited \<union> set (name # pending) = set visited \<union> set pending"
      using True by auto
    then show ?thesis using IH by (simp only:)
  next
    case False
    then obtain n where n: "find (\<lambda>c. dn_name c = name) nodes = Some n" and "name \<noteq> x"
      and rec: "reach_loop nodes x (name # visited) (rev (dn_depends_on n) @ pending) = Some False"
      using "2.prems"(1) by (auto split: if_splits option.splits)
    have "depends nodes `` set (name # visited)
        \<subseteq> set (name # visited) \<union> set (rev (dn_depends_on n) @ pending)"
      using "2.prems"(3,4) depends_find[OF _ _ n] by auto
    then obtain V where "set (name # visited) \<union> set (rev (dn_depends_on n) @ pending) \<subseteq> V"
        "x \<notin> V" "depends nodes `` V \<subseteq> V"
      using "2.IH"(2)[OF \<open>name \<noteq> x\<close> False n rec] "2.prems" \<open>name \<noteq> x\<close> by auto
    then show ?thesis by auto
  qed
qed

lemma reach_loop_defined:
  "dependencies_known nodes \<Longrightarrow> set pending \<subseteq> node_names nodes \<Longrightarrow>
    reach_loop nodes x visited pending \<noteq> None"
proof (induction nodes x visited pending rule: reach_loop.induct)
  case (2 nodes x visited name pending)
  then obtain n where n: "find (\<lambda>c. dn_name c = name) nodes = Some n"
    using find_ex[of _ nodes "\<lambda>c. dn_name c = name"] by fastforce
  then have "set (dn_depends_on n) \<subseteq> node_names nodes"
    using "2.prems"(1) find_in_set by (fastforce simp: dependencies_known_def)
  with 2 n show ?case by auto
qed simp

lemma Image_rtrancl_closed: "r `` V \<subseteq> V \<Longrightarrow> r\<^sup>* `` V \<subseteq> V"
  by (simp add: Image_closed_trancl)

lemma reaches_itself_correct:
  assumes dist: "distinct (map dn_name nodes)" and known: "dependencies_known nodes"
    and n: "n \<in> set nodes"
  shows "reaches_itself n nodes = Some ((dn_name n, dn_name n) \<in> (depends nodes)\<^sup>+)"
proof -
  let ?E = "depends nodes"
  have "set (rev (dn_depends_on n)) \<subseteq> node_names nodes"
    using known n by (auto simp: dependencies_known_def)
  then obtain b where b: "reaches_itself n nodes = Some b"
    using reach_loop_defined[OF known] by (fastforce simp: reaches_itself_def)
  have succ: "?E `` {dn_name n} = set (dn_depends_on n)"
    using depends_find[OF dist] find_key_unique[OF dist n] n by (auto simp: depends_def)
  have "b \<longleftrightarrow> dn_name n \<in> ?E\<^sup>* `` set (dn_depends_on n)"
  proof (cases b)
    case True
    then show ?thesis using b reach_loop_True by (fastforce simp: reaches_itself_def)
  next
    case False
    then obtain V where V: "set (dn_depends_on n) \<subseteq> V" "dn_name n \<notin> V" "?E `` V \<subseteq> V"
      using b reach_loop_False[OF dist, of "dn_name n" "[]" "rev (dn_depends_on n)"]
      by (auto simp: reaches_itself_def)
    then have "?E\<^sup>* `` set (dn_depends_on n) \<subseteq> V"
      using Image_rtrancl_closed[OF V(3)] by (meson Image_mono order_refl subset_trans)
    with False V(2) show ?thesis by auto
  qed
  also have "\<dots> \<longleftrightarrow> (dn_name n, dn_name n) \<in> ?E\<^sup>+"
    using succ by (auto simp: trancl_unfold_left relcomp_unfold)
  finally show ?thesis using b by simp
qed

subsection \<open>The order\<close>

definition deps_first :: "dependency_node list \<Rightarrow> string list \<Rightarrow> bool" where
  "deps_first nodes order \<longleftrightarrow>
     (\<forall>i<length order. \<forall>n\<in>set nodes. dn_name n = order ! i \<longrightarrow>
        set (dn_depends_on n) \<subseteq> set (take i order))"

definition partial_order_ok :: "dependency_node list \<Rightarrow> string list \<Rightarrow> bool" where
  "partial_order_ok nodes order \<longleftrightarrow>
     distinct order \<and> set order \<subseteq> node_names nodes \<and> deps_first nodes order"

lemma deps_first_append:
  assumes "deps_first nodes order"
    and "\<And>n. n \<in> set nodes \<Longrightarrow> dn_name n \<in> set ready \<Longrightarrow> set (dn_depends_on n) \<subseteq> set order"
  shows "deps_first nodes (order @ ready)"
  unfolding deps_first_def
proof (intro allI ballI impI)
  fix i n
  assume i: "i < length (order @ ready)" and n: "n \<in> set nodes" "dn_name n = (order @ ready) ! i"
  show "set (dn_depends_on n) \<subseteq> set (take i (order @ ready))"
  proof (cases "i < length order")
    case True
    then show ?thesis using assms(1) n by (auto simp: deps_first_def nth_append)
  next
    case False
    then have "dn_name n \<in> set ready" using i n(2) by (auto simp: nth_append)
    with False assms(2)[OF n(1)] show ?thesis by auto
  qed
qed

lemma partial_order_step:
  assumes dist: "distinct (map dn_name nodes)" and ok: "partial_order_ok nodes order"
  shows "partial_order_ok nodes (order @ next_ready_names nodes order)"
proof -
  let ?ready = "next_ready_names nodes order"
  have deps: "set (dn_depends_on n) \<subseteq> set order"
    if n: "n \<in> set nodes" and r: "dn_name n \<in> set ?ready" for n
  proof -
    from r have "\<exists>m\<in>set nodes. dn_name m = dn_name n \<and> set (dn_depends_on m) \<subseteq> set order"
      by (auto simp: next_ready_names_def list_all_iff)
    then obtain m where m: "m \<in> set nodes" "dn_name m = dn_name n" "set (dn_depends_on m) \<subseteq> set order"
      by blast
    have "m = n" using dist m(1,2) n by (auto simp: distinct_map dest: inj_onD)
    with m(3) show ?thesis by simp
  qed
  have "distinct ?ready"
    using dist by (auto simp: next_ready_names_def distinct_map intro: inj_on_subset)
  moreover have "set ?ready \<inter> set order = {}" "set ?ready \<subseteq> node_names nodes"
    by (auto simp: next_ready_names_def)
  moreover have "deps_first nodes (order @ ?ready)"
    using ok deps by (intro deps_first_append) (auto simp: partial_order_ok_def)
  ultimately show ?thesis using ok by (auto simp: partial_order_ok_def)
qed

lemma deps_first_edge:
  assumes "deps_first nodes order" and "(a, b) \<in> depends nodes"
    and "i < length order" and "order ! i = a"
  shows "\<exists>j<i. order ! j = b"
proof -
  obtain n where "n \<in> set nodes" "dn_name n = order ! i" "b \<in> set (dn_depends_on n)"
    using assms(2,4) by (auto simp: depends_def)
  then have "b \<in> set (take i order)"
    using assms(1,3) unfolding deps_first_def by blast
  then show ?thesis by (auto simp: in_set_conv_nth)
qed

lemma deps_first_trancl:
  assumes resp: "deps_first nodes order" and "(a, b) \<in> (depends nodes)\<^sup>+"
  shows "i < length order \<Longrightarrow> order ! i = a \<Longrightarrow> \<exists>j<i. order ! j = b"
  using assms(2)
proof (induction arbitrary: i rule: converse_trancl_induct)
  case (base a)
  then show ?case using deps_first_edge[OF resp] by blast
next
  case (step a c)
  then obtain j where "j < i" "order ! j = c" using deps_first_edge[OF resp] by blast
  moreover from this obtain k where "k < j" "order ! k = b"
    using step.IH[of j] step.prems by auto
  ultimately show ?case using less_trans by blast
qed

lemma ordered_not_cyclic:
  assumes "partial_order_ok nodes order" and "x \<in> set order"
  shows "(x, x) \<notin> (depends nodes)\<^sup>+"
proof
  assume cyc: "(x, x) \<in> (depends nodes)\<^sup>+"
  obtain i where i: "i < length order" "order ! i = x"
    using assms(2) by (auto simp: in_set_conv_nth)
  then obtain j where "j < i" "order ! j = x"
    using deps_first_trancl[OF _ cyc i] assms(1) by (auto simp: partial_order_ok_def)
  with i assms(1) show False
    by (auto simp: partial_order_ok_def nth_eq_iff_index_eq)
qed

lemma successor_in_cycle:
  assumes fin: "finite R" and ne: "R \<noteq> {}" and succ: "\<forall>x\<in>R. \<exists>y\<in>R. (x, y) \<in> E"
  shows "\<exists>x\<in>R. (x, x) \<in> E\<^sup>+"
proof (rule ccontr)
  assume no: "\<not> ?thesis"
  let ?E = "E \<inter> R \<times> R"
  have "acyclic ?E"
  proof (rule acyclicI, rule allI)
    fix x show "(x, x) \<notin> ?E\<^sup>+"
    proof
      assume "(x, x) \<in> ?E\<^sup>+"
      moreover from this have "x \<in> R" by (meson Int_iff mem_Sigma_iff tranclD)
      ultimately show False using no trancl_mono[of _ ?E E] by blast
    qed
  qed
  moreover have "finite ?E" using fin by (simp add: finite_subset[OF Int_lower2])
  ultimately have wf: "wf (?E\<inverse>)" by (simp add: finite_acyclic_wf_converse)
  from ne obtain r where "r \<in> R" by blast
  then obtain z where z: "z \<in> R" "\<And>y. (y, z) \<in> ?E\<inverse> \<Longrightarrow> y \<notin> R"
    using wfE_min[OF wf] by metis
  then obtain y where "y \<in> R" "(z, y) \<in> E" using succ by blast
  with z show False by blast
qed

lemma stuck_is_cyclic:
  assumes dist: "distinct (map dn_name nodes)" and known: "dependencies_known nodes"
    and ok: "partial_order_ok nodes order" and less: "length order < length nodes"
    and stuck: "next_ready_names nodes order = []"
  shows "\<exists>x \<in> node_names nodes - set order. (x, x) \<in> (depends nodes)\<^sup>+"
proof (rule successor_in_cycle)
  let ?R = "node_names nodes - set order"
  show "finite ?R" by simp
  have "card (set order) < card (node_names nodes)"
    using less ok distinct_card[OF dist] by (simp add: partial_order_ok_def distinct_card)
  then show "?R \<noteq> {}"
    by (metis Diff_eq_empty_iff List.finite_set card_mono linorder_not_less)
  show "\<forall>x\<in>?R. \<exists>y\<in>?R. (x, y) \<in> depends nodes"
  proof
    fix x assume "x \<in> ?R"
    then obtain n where n: "n \<in> set nodes" "dn_name n = x" "x \<notin> set order" by auto
    then obtain d where "d \<in> set (dn_depends_on n)" "d \<notin> set order"
      using stuck by (auto simp: next_ready_names_def list_all_iff filter_empty_conv)
    then show "\<exists>y\<in>?R. (x, y) \<in> depends nodes"
      using n known by (intro bexI[of _ d]) (auto simp: depends_def dependencies_known_def)
  qed
qed

lemma cycle_members_eq:
  assumes "distinct (map dn_name nodes)" and "dependencies_known nodes"
    and "partial_order_ok nodes order"
  shows "cycle_members nodes order =
    Some (map dn_name (filter (\<lambda>n. (dn_name n, dn_name n) \<in> (depends nodes)\<^sup>+) nodes))"
proof -
  let ?cyc = "\<lambda>n. (dn_name n, dn_name n) \<in> (depends nodes)\<^sup>+"
  have "filter_opt (\<lambda>n. reaches_itself n nodes)
      (filter (\<lambda>n. \<not> contains_name order (dn_name n)) nodes)
    = Some (filter ?cyc (filter (\<lambda>n. \<not> contains_name order (dn_name n)) nodes))"
    using assms(1,2) by (intro filter_opt_Some) (auto simp: reaches_itself_correct)
  also have "filter ?cyc (filter (\<lambda>n. \<not> contains_name order (dn_name n)) nodes) = filter ?cyc nodes"
    using ordered_not_cyclic[OF assms(3)] by (auto intro: filter_cong)
  finally show ?thesis by (simp add: cycle_members_def)
qed

lemma topo_loop_result:
  assumes "distinct (map dn_name nodes)" and "dependencies_known nodes"
  shows "partial_order_ok nodes order \<Longrightarrow>
    (\<exists>ord. topo_loop nodes order = Some (Inr ord) \<and> partial_order_ok nodes ord \<and>
       length nodes \<le> length ord) \<or>
    (topo_loop nodes order =
       Some (Inl (Cycle (map dn_name
         (filter (\<lambda>n. (dn_name n, dn_name n) \<in> (depends nodes)\<^sup>+) nodes)))) \<and>
     (\<exists>x \<in> node_names nodes. (x, x) \<in> (depends nodes)\<^sup>+))"
  using assms
proof (induction nodes order rule: topo_loop.induct)
  case (1 nodes order)
  consider "\<not> length order < length nodes"
    | "length order < length nodes" "next_ready_names nodes order = []"
    | "length order < length nodes" "next_ready_names nodes order \<noteq> []" by blast
  then show ?case
  proof cases
    case 1
    with "1.prems" show ?thesis by (auto simp: topo_loop.simps[of nodes order])
  next
    case 2
    with "1.prems" show ?thesis
      using stuck_is_cyclic[of nodes order]
      by (auto simp: topo_loop.simps[of nodes order] cycle_members_eq)
  next
    case 3
    then have "topo_loop nodes order = topo_loop nodes (order @ next_ready_names nodes order)"
      by (simp add: topo_loop.simps[of nodes order])
    with "1.IH"[OF 3(1) refl 3(2) partial_order_step[OF "1.prems"(2,1)] "1.prems"(2,3)]
    show ?thesis by simp
  qed
qed

lemma partial_order_Nil: "partial_order_ok nodes []"
  by (simp add: partial_order_ok_def deps_first_def)

lemma complete_order:
  assumes "distinct (map dn_name nodes)" and "partial_order_ok nodes ord"
    and "length nodes \<le> length ord"
  shows "set ord = node_names nodes"
proof (rule card_subset_eq)
  show "finite (node_names nodes)" by simp
  show sub: "set ord \<subseteq> node_names nodes" using assms(2) by (simp add: partial_order_ok_def)
  have "length ord = card (set ord)" "length nodes = card (node_names nodes)"
    using assms(1,2) distinct_card[of ord] distinct_card[of "map dn_name nodes"]
    by (simp_all add: partial_order_ok_def)
  then show "card (set ord) = card (node_names nodes)"
    using assms(3) card_mono[OF _ sub] by simp
qed

subsection \<open>What the sort returns\<close>

lemma topo_sort_cases:
  assumes dist: "distinct (map dn_name nodes)"
  obtains
    (unknown) a d where "topo_sort nodes = Some (Inl (UnknownDependency a d))"
      "\<not> dependencies_known nodes" "(a, d) \<in> depends nodes" "d \<notin> node_names nodes"
  | (cyclic) involved where "topo_sort nodes = Some (Inl (Cycle involved))"
      "dependencies_known nodes" "involved \<noteq> []"
      "set involved = {x. (x, x) \<in> (depends nodes)\<^sup>+}"
  | (sorted) ord where "topo_sort nodes = Some (Inr ord)" "dependencies_known nodes"
      "distinct ord" "set ord = node_names nodes" "deps_first nodes ord" "acyclic (depends nodes)"
proof (cases "dependencies_known nodes")
  case False
  then obtain e where e: "ensure_dependencies_known nodes = Inl e"
    using ensure_known_iff[of nodes "()"] by (cases "ensure_dependencies_known nodes") auto
  then obtain n d where "n \<in> set nodes" "d \<in> set (dn_depends_on n)"
      "e = UnknownDependency (dn_name n) d" "d \<notin> node_names nodes"
    using check_nodes_error[of nodes nodes e] by (auto simp: ensure_dependencies_known_def)
  with e False show thesis
    using unknown[of "dn_name n" d] by (auto simp: topo_sort_def depends_def)
next
  case known: True
  then have eq: "topo_sort nodes = topo_loop nodes []"
    using ensure_known_iff[of nodes "()"] by (simp add: topo_sort_def)
  have dom: "x \<in> node_names nodes" if "(x, x) \<in> (depends nodes)\<^sup>+" for x
    using that by (auto dest!: tranclD simp: depends_def)
  from topo_loop_result[OF dist known partial_order_Nil] show thesis
  proof (elim disjE exE conjE bexE)
    fix ord
    assume r: "topo_loop nodes [] = Some (Inr ord)" "partial_order_ok nodes ord"
      "length nodes \<le> length ord"
    have "set ord = node_names nodes" by (rule complete_order[OF dist r(2,3)])
    moreover from this have "acyclic (depends nodes)"
      using ordered_not_cyclic[OF r(2)] dom unfolding acyclic_def by blast
    ultimately show thesis
      using sorted r known eq by (auto simp: partial_order_ok_def)
  next
    fix x
    assume r: "topo_loop nodes [] = Some (Inl (Cycle (map dn_name
        (filter (\<lambda>n. (dn_name n, dn_name n) \<in> (depends nodes)\<^sup>+) nodes))))"
      and x: "x \<in> node_names nodes" "(x, x) \<in> (depends nodes)\<^sup>+"
    let ?involved = "map dn_name (filter (\<lambda>n. (dn_name n, dn_name n) \<in> (depends nodes)\<^sup>+) nodes)"
    have all: "set ?involved = {x. (x, x) \<in> (depends nodes)\<^sup>+}"
    proof
      show "{x. (x, x) \<in> (depends nodes)\<^sup>+} \<subseteq> set ?involved"
      proof
        fix y assume "y \<in> {x. (x, x) \<in> (depends nodes)\<^sup>+}"
        then show "y \<in> set ?involved" using dom[of y] by auto
      qed
    qed auto
    have "x \<in> set ?involved" using x all by simp
    then have "?involved \<noteq> []" by (metis empty_iff empty_set)
    then show thesis using cyclic[OF _ known _ all] r eq by simp
  qed
qed

text \<open>
  A name that occurs twice, which a batch may contain, can make the sort report a cycle but
  neither makes it panic nor puts a name into the order that no node has.
\<close>

lemma topo_loop_defined:
  "dependencies_known nodes \<Longrightarrow> set order \<subseteq> node_names nodes \<Longrightarrow>
    \<exists>res. topo_loop nodes order = Some res \<and> (\<forall>ord. res = Inr ord \<longrightarrow> set ord \<subseteq> node_names nodes)"
proof (induction nodes order rule: topo_loop.induct)
  case (1 nodes order)
  have "reaches_itself n nodes \<noteq> None" if "n \<in> set nodes" for n
    unfolding reaches_itself_def
    using "1.prems"(1) that by (intro reach_loop_defined) (auto simp: dependencies_known_def)
  then obtain involved where involved: "cycle_members nodes order = Some involved"
    using filter_opt_defined[of "filter (\<lambda>n. \<not> contains_name order (dn_name n)) nodes"
        "\<lambda>n. reaches_itself n nodes"]
    by (fastforce simp: cycle_members_def)
  have "set (order @ next_ready_names nodes order) \<subseteq> node_names nodes"
    using "1.prems"(2) by (auto simp: next_ready_names_def)
  then show ?case
    using "1.IH" "1.prems" involved by (subst topo_loop.simps) (auto simp: Let_def)
qed

lemma topo_sort_total:
  "\<exists>res. topo_sort nodes = Some res \<and> (\<forall>ord. res = Inr ord \<longrightarrow> set ord \<subseteq> node_names nodes)"
proof (cases "ensure_dependencies_known nodes")
  case (Inr u)
  then show ?thesis
    using topo_loop_defined[of nodes "[]"] ensure_known_iff[of nodes u] by (simp add: topo_sort_def)
qed (simp add: topo_sort_def)

lemma topo_sort_defined: "topo_sort nodes \<noteq> None"
  using topo_sort_total[of nodes] by auto

lemma topo_sort_order:
  assumes "distinct (map dn_name nodes)" and "topo_sort nodes = Some (Inr ord)"
  shows "distinct ord \<and> set ord = node_names nodes \<and> deps_first nodes ord"
  by (rule topo_sort_cases[OF assms(1)]) (use assms(2) in auto)

end
