(* ===== verification/Limits.thy ===== *)
theory Limits
  imports Text
begin

text \<open>
  \<^verbatim>\<open>entities/src/process/limits.rs\<close> (memory limits such as \<open>300M\<close>, read into KiB with every
  overflow refused) and \<^verbatim>\<open>entities/src/process/restart.rs\<close> (the circuit breaker: whether an
  exited service is started again, and after which delay). The lemmas give the value a
  printed limit is read back as, the closed form of the exponential backoff, and the result
  of \<open>decide_restart\<close> on every branch.
\<close>

subsection \<open>Memory limits\<close>

definition KIB :: u64 where "KIB = 1024"
definition MIB :: u64 where "MIB = 1024 * KIB"
definition GIB :: u64 where "GIB = 1024 * MIB"

definition is_amount_letter :: "string \<Rightarrow> bool" where
  "is_amount_letter letter \<longleftrightarrow>
     (case letter of [c] \<Rightarrow> is_digit c | _ \<Rightarrow> False) \<or> is_whitespace letter"

definition split_unit :: "string \<Rightarrow> string \<times> string" where
  "split_unit raw =
     (concat (takeWhile is_amount_letter (chars raw)),
      concat (dropWhile is_amount_letter (chars raw)))"

definition unit_size :: "string \<Rightarrow> u64 option" where
  "unit_size raw =
     (let u = to_ascii_uppercase (trim raw) in
      if u = [] \<or> u = ''B'' then Some 1
      else if u = ''K'' \<or> u = ''KB'' \<or> u = ''KIB'' then Some KIB
      else if u = ''M'' \<or> u = ''MB'' \<or> u = ''MIB'' then Some MIB
      else if u = ''G'' \<or> u = ''GB'' \<or> u = ''GIB'' then Some GIB
      else None)"

definition parse_memory_limit :: "string \<Rightarrow> u64 option" where
  "parse_memory_limit raw =
     (case split_unit (trim raw) of (digits, u) \<Rightarrow>
        do { amount \<leftarrow> parse_u64 (trim digits);
             scale \<leftarrow> unit_size u;
             bytes \<leftarrow> checked_mul amount scale;
             let kib = bytes div KIB;
             if 0 < kib then Some kib else None })"

definition breaches_memory_limit :: "u64 \<Rightarrow> u64 \<Rightarrow> bool" where
  "breaches_memory_limit limit_kib rss_kib \<longleftrightarrow> limit_kib < rss_kib"

lemma unat_units: "unat KIB = 2 ^ 10" "unat MIB = 2 ^ 20" "unat GIB = 2 ^ 30"
  by (simp_all add: KIB_def MIB_def GIB_def)

text \<open>A limit that is accepted is at least one KiB and never the result of an overflow.\<close>

lemma parse_memory_limit_bounds:
  assumes "parse_memory_limit raw = Some kib"
  shows "0 < unat kib \<and> unat kib * 1024 < 2 ^ 64"
proof -
  obtain bytes :: u64 where b: "kib = bytes div KIB" "0 < kib"
    using assms by (auto simp: parse_memory_limit_def Let_def bind_eq_Some_conv split: prod.splits if_splits)
  then have "unat kib = unat bytes div 1024" by (simp add: unat_div KIB_def)
  moreover have "unat bytes < 2 ^ 64" using unsigned_less[of bytes, where ?'a = nat] by simp
  moreover have "0 < unat kib" using b(2) by (simp add: word_less_nat_alt)
  ultimately show ?thesis by (simp add: less_eq_div_iff_mult_less_eq flip: less_eq_Suc_le)
qed

text \<open>The written form of a limit: a decimal amount directly followed by its unit.\<close>

definition unit_word :: "string \<Rightarrow> bool" where
  "unit_word w \<longleftrightarrow> list_all is_graphic w \<and> (case w of [] \<Rightarrow> True | c # _ \<Rightarrow> \<not> is_digit c)"

lemma amount_letter_graphic:
  "is_graphic c \<Longrightarrow> is_amount_letter [c] \<longleftrightarrow> is_digit c"
  using graphic_not_whitespace by (auto simp: is_amount_letter_def)

lemma split_unit_written:
  assumes "unit_word w"
  shows "split_unit (show_nat n @ w) = (show_nat n, w)"
proof -
  have w: "list_all is_graphic w" using assms by (simp add: unit_word_def)
  then have ascii: "list_all is_ascii (show_nat n @ w)"
    using show_nat_graphic graphic_ascii by simp
  have digits: "is_amount_letter l" if "l \<in> set (map (\<lambda>c. [c]) (show_nat n))" for l
    using that show_nat_digits[of n] show_nat_graphic[of n]
    by (auto simp: list_all_iff amount_letter_graphic)
  have rest: "takeWhile is_amount_letter (map (\<lambda>c. [c]) w) = []"
      "dropWhile is_amount_letter (map (\<lambda>c. [c]) w) = map (\<lambda>c. [c]) w"
    using assms w by (auto simp: unit_word_def amount_letter_graphic split: list.splits)
  show ?thesis
    unfolding split_unit_def chars_ascii[OF ascii] map_append
    by (simp only: takeWhile_append2[OF digits] dropWhile_append2[OF digits] rest)
      simp
qed

lemma parse_memory_limit_written:
  assumes "unit_word w" and "unit_size w = Some scale"
  shows "parse_memory_limit (show_nat n @ w) =
    (if n * unat scale < 2 ^ 64 \<and> 1024 \<le> n * unat scale
     then Some (of_nat (n * unat scale div 1024)) else None)"
proof -
  have w: "list_all is_graphic w" using assms(1) by (simp add: unit_word_def)
  have t: "trim (show_nat n @ w) = show_nat n @ w" "trim (show_nat n) = show_nat n"
    using show_nat_graphic[of n] w by (simp_all add: trim_graphic)
  have pos: "0 < unat scale"
    using assms(2) unat_units by (auto simp: unit_size_def Let_def split: if_splits)
  show ?thesis
  proof (cases "n * unat scale < 2 ^ 64")
    case True
    have "n \<le> n * unat scale" using pos by simp
    with True have n: "n < 2 ^ 64" by (rule le_less_trans[rotated])
    have un: "unat (of_nat n :: u64) = n" using n by (simp add: take_bit_nat_eq_self unsigned_of_nat)
    have prod: "unat (of_nat n * scale) = n * unat scale"
      using True un by (simp add: unat_mult_no_wrap)
    have quot: "unat (of_nat n * scale div KIB) = n * unat scale div 1024"
      by (simp add: unat_div prod unat_units(1))
    have "of_nat n * scale div KIB = (of_nat (n * unat scale div 1024) :: u64)"
      using arg_cong[OF quot, of "of_nat :: nat \<Rightarrow> u64"] by simp
    moreover have "0 < of_nat n * scale div KIB \<longleftrightarrow> 1024 \<le> n * unat scale"
      by (simp add: word_less_nat_alt quot div_greater_zero_iff)
    ultimately show ?thesis
      using True n un t assms split_unit_written[OF assms(1), of n]
      by (simp add: parse_memory_limit_def parse_u64_def parse_uint_show_nat checked_mul_def Let_def)
  next
    case False
    then show ?thesis
      using t assms split_unit_written[OF assms(1), of n]
      by (auto simp: parse_memory_limit_def parse_u64_def parse_uint_show_nat checked_mul_def
          Let_def take_bit_nat_eq_self unsigned_of_nat)
  qed
qed

subsection \<open>The circuit breaker\<close>

record restart_policy =
  rp_autorestart :: bool
  rp_min_uptime_ms :: u64
  rp_max_restarts :: u32
  rp_restart_delay_ms :: u64
  rp_max_restart_delay_ms :: u64

datatype restart_decision =
    Restart u64 u32   \<comment> \<open>\<open>delay_ms\<close>, \<open>unstable_restarts\<close>\<close>
  | GiveUp u32        \<comment> \<open>\<open>unstable_restarts\<close>\<close>

function backoff_loop :: "u64 \<Rightarrow> u64 \<Rightarrow> u32 \<Rightarrow> u32 \<Rightarrow> u64" where
  "backoff_loop cap delay doublings unstable_restarts =
     (if doublings < unstable_restarts then
        let delay = saturating_mul delay 2 in
        if cap \<le> delay then cap else backoff_loop cap delay (doublings + 1) unstable_restarts
      else if cap < delay then cap else delay)"
  by pat_completeness auto
termination
proof (relation "measure (\<lambda>(cap, delay, d, u). unat u - unat d)", goal_cases)
  case (2 cap delay d u x)
  then show ?case by (simp add: unat_Suc_less[of d u] word_less_nat_alt)
qed simp

declare backoff_loop.simps [simp del]

definition backoff_delay :: "u64 \<Rightarrow> u64 \<Rightarrow> u32 \<Rightarrow> u64" where
  "backoff_delay base cap unstable_restarts = backoff_loop cap base 1 unstable_restarts"

definition decide_restart :: "restart_policy \<Rightarrow> u64 option \<Rightarrow> u32 \<Rightarrow> restart_decision" where
  "decide_restart policy last_uptime_ms previous_unstable_restarts =
     (if \<not> rp_autorestart policy then GiveUp previous_unstable_restarts
      else
        let unstable_restarts =
          (case last_uptime_ms of
             Some uptime_ms \<Rightarrow>
               (if uptime_ms < rp_min_uptime_ms policy
                then saturating_add previous_unstable_restarts 1 else 0)
           | None \<Rightarrow> 0)
        in if 0 < rp_max_restarts policy \<and> rp_max_restarts policy \<le> unstable_restarts
           then GiveUp unstable_restarts
           else Restart
             (backoff_delay (rp_restart_delay_ms policy) (rp_max_restart_delay_ms policy)
               unstable_restarts)
             unstable_restarts)"

lemma backoff_loop_closed:
  "unat (backoff_loop cap delay d u) = min (unat cap) (unat delay * 2 ^ (unat u - unat d))"
proof (induction cap delay d u rule: backoff_loop.induct)
  case (1 cap delay d u)
  show ?case
  proof (cases "d < u")
    case False
    then have "unat u - unat d = 0" by (simp add: word_less_nat_alt)
    with False show ?thesis
      by (auto simp: backoff_loop.simps[of cap delay d u] min_def word_less_nat_alt)
  next
    case True
    let ?delay = "saturating_mul delay 2"
    have steps: "unat u - unat d = Suc (unat u - unat (d + 1))"
      using True by (simp add: unat_Suc_less[OF True] word_less_nat_alt Suc_diff_Suc)
    have cap: "unat cap \<le> 2 ^ 64 - 1"
      using unsigned_less[of cap, where ?'a = nat] by simp
    have doubled: "unat ?delay = min (unat delay * 2) (2 ^ 64 - 1)"
      by (simp add: unat_saturating_mul)
    show ?thesis
    proof (cases "cap \<le> ?delay")
      case capped: True
      then have "unat cap \<le> unat delay * 2"
        using doubled by (simp add: word_le_nat_alt)
      also have "\<dots> \<le> unat delay * 2 ^ (unat u - unat d)"
        by (simp add: steps)
      finally show ?thesis
        using True capped by (simp add: backoff_loop.simps[of cap delay d u] min_absorb1)
    next
      case uncapped: False
      then have "unat ?delay < unat cap" by (simp add: word_le_nat_alt)
      then have exact: "unat ?delay = unat delay * 2" using doubled cap by linarith
      have "backoff_loop cap delay d u = backoff_loop cap ?delay (d + 1) u"
        using True uncapped by (simp add: backoff_loop.simps[of cap delay d u])
      then show ?thesis
        using "1.IH"[OF True refl uncapped] exact by (simp add: steps mult.assoc)
    qed
  qed
qed

lemma backoff_delay_closed:
  "unat (backoff_delay base cap n) = min (unat cap) (unat base * 2 ^ (unat n - 1))"
  by (simp add: backoff_delay_def backoff_loop_closed)

lemma backoff_delay_le_cap: "backoff_delay base cap n \<le> cap"
  by (simp add: word_le_nat_alt backoff_delay_closed)

lemma backoff_delay_mono:
  assumes "m \<le> n" shows "backoff_delay base cap m \<le> backoff_delay base cap n"
proof -
  have "(2::nat) ^ (unat m - 1) \<le> 2 ^ (unat n - 1)"
    using assms by (simp add: word_le_nat_alt diff_le_mono)
  then show ?thesis
    by (simp add: word_le_nat_alt backoff_delay_closed min.coboundedI2)
qed

text \<open>The verdict on an exit before and after the service counts as stable.\<close>

lemma decide_unstable:
  assumes "rp_autorestart p" and "up < rp_min_uptime_ms p" and "previous < rp_max_restarts p"
  shows "decide_restart p (Some up) previous =
    (if previous + 1 = rp_max_restarts p then GiveUp (rp_max_restarts p)
     else Restart (backoff_delay (rp_restart_delay_ms p) (rp_max_restart_delay_ms p) (previous + 1))
       (previous + 1))"
proof -
  have succ: "unat (previous + 1) = Suc (unat previous)" by (rule unat_Suc_less[OF assms(3)])
  have "unat previous + 1 < 2 ^ 32"
    using assms(3) unsigned_less[of "rp_max_restarts p", where ?'a = nat]
    by (simp add: word_less_nat_alt)
  then have sat: "saturating_add previous 1 = previous + 1" by (simp add: saturating_add_def)
  have "0 < rp_max_restarts p" using assms(3) by (metis le_less_trans word_zero_le)
  moreover have "rp_max_restarts p \<le> previous + 1 \<longleftrightarrow> previous + 1 = rp_max_restarts p"
    using assms(3) succ by (auto simp: word_le_nat_alt word_less_nat_alt word_unat_eq_iff)
  ultimately show ?thesis
    using assms(1,2) by (auto simp: decide_restart_def sat Let_def)
qed

lemma decide_stable:
  assumes "rp_autorestart p" and "rp_min_uptime_ms p \<le> up"
  shows "decide_restart p (Some up) previous =
    Restart (backoff_delay (rp_restart_delay_ms p) (rp_max_restart_delay_ms p) 0) 0"
  using assms by (auto simp: decide_restart_def Let_def)

lemma decide_keeps_below_max:
  "decide_restart p up previous = Restart delay n \<Longrightarrow> 0 < rp_max_restarts p \<Longrightarrow>
    n < rp_max_restarts p"
  by (auto simp: decide_restart_def Let_def split: if_splits option.splits)

end
