(* ===== verification/App_Spec.thy ===== *)
theory App_Spec
  imports Sandbox_Policy Depgraph Limits
begin

text \<open>
  What the operator declares about a service: \<^verbatim>\<open>entities/src/process/\<close> \<^verbatim>\<open>env.rs\<close>,
  \<^verbatim>\<open>priority.rs\<close>, \<^verbatim>\<open>ready.rs\<close>, \<^verbatim>\<open>secret.rs\<close>, \<^verbatim>\<open>signal.rs\<close> and \<^verbatim>\<open>spec.rs\<close>.
  The lemmas show which layer an environment value comes from, what the masked form of a
  secret depends on, which signal names are accepted, that an accepted service name is a
  safe file name, and everything that an accepted declaration satisfies.
\<close>

subsection \<open>Environment values\<close>

datatype env_scope = Injected | Global | App

primrec env_scope_as_str :: "env_scope \<Rightarrow> string" where
  "env_scope_as_str Injected = ''pm3''"
| "env_scope_as_str Global = ''global''"
| "env_scope_as_str App = ''app''"

record env_value =
  ev_key :: string
  ev_value :: string
  ev_scope :: env_scope

definition env_value_new :: "string \<Rightarrow> string \<Rightarrow> env_scope \<Rightarrow> env_value" where
  "env_value_new k v scope = \<lparr>ev_key = k, ev_value = v, ev_scope = scope\<rparr>"

definition env_pair :: "env_value \<Rightarrow> string \<times> string" where
  "env_pair entry = (ev_key entry, ev_value entry)"

definition env_injected :: "string \<Rightarrow> string \<Rightarrow> env_value" where
  "env_injected k v = env_value_new k v Injected"

definition merge_environment :: "env_value list list \<Rightarrow> env_value list" where
  "merge_environment layers =
     map snd
       (foldl (\<lambda>merged layer.
          foldl (\<lambda>merged entry. btree_insert (ev_key entry) entry merged) merged layer) [] layers)"

definition by_key :: "env_value list \<Rightarrow> string \<Rightarrow> env_value option" where
  "by_key entries = map_of (map (\<lambda>e. (ev_key e, e)) entries)"

lemma merge_layer:
  assumes "sorted_wrt (<) (map fst m)" and "\<forall>(k, e)\<in>set m. k = ev_key e"
  shows "let m' = foldl (\<lambda>m e. btree_insert (ev_key e) e m) m layer in
    sorted_wrt (<) (map fst m') \<and> (\<forall>(k, e)\<in>set m'. k = ev_key e) \<and>
    map_of m' = map_of m ++ by_key (rev layer)"
  using assms
proof (induction layer arbitrary: m)
  case Nil
  then show ?case by (simp add: by_key_def)
next
  case (Cons e layer)
  have set: "set (btree_insert k v m) \<subseteq> insert (k, v) (set m)" for k and v :: env_value and m
    by (induction k v m rule: btree_insert.induct) auto
  from Cons.prems have "sorted_wrt (<) (map fst (btree_insert (ev_key e) e m))"
      "\<forall>(k, e)\<in>set (btree_insert (ev_key e) e m). k = ev_key e"
    using set[of "ev_key e" e m] by (auto simp: sorted_btree_insert)
  from Cons.IH[OF this] show ?case
    by (auto simp: Let_def map_of_btree_insert by_key_def map_add_def fun_eq_iff split: option.splits)
qed

lemma merge_layers:
  assumes "sorted_wrt (<) (map fst m)" and "\<forall>(k, e)\<in>set m. k = ev_key e"
  shows "let m' = foldl (foldl (\<lambda>m e. btree_insert (ev_key e) e m)) m layers in
    sorted_wrt (<) (map fst m') \<and> (\<forall>(k, e)\<in>set m'. k = ev_key e) \<and>
    map_of m' = map_of m ++ by_key (rev (concat layers))"
  using assms
proof (induction layers arbitrary: m)
  case Nil
  then show ?case by (simp add: by_key_def)
next
  case (Cons layer layers)
  from Cons.IH merge_layer[OF Cons.prems, of layer] show ?case
    by (auto simp: Let_def by_key_def map_add_assoc)
qed

lemma merge_environment_spec:
  "sorted_wrt (<) (map ev_key (merge_environment layers)) \<and>
   by_key (merge_environment layers) = by_key (rev (concat layers))"
proof -
  let ?m = "foldl (foldl (\<lambda>m e. btree_insert (ev_key e) e m)) [] layers"
  from merge_layers[of "[]" layers] have m: "sorted_wrt (<) (map fst ?m)"
      "\<forall>(k, e)\<in>set ?m. k = ev_key e" "map_of ?m = by_key (rev (concat layers))"
    by (simp_all add: Let_def)
  have keys: "map (\<lambda>e. ev_key (snd e)) ?m = map fst ?m"
      and entries: "map (\<lambda>e. (ev_key (snd e), snd e)) ?m = ?m"
    using m(2) by (auto intro!: map_idI)
  have "sorted_wrt (<) (map ev_key (map snd ?m)) \<and>
      by_key (map snd ?m) = by_key (rev (concat layers))"
    unfolding by_key_def[of "map snd ?m"] map_map comp_def keys entries using m(1,3) by blast
  then show ?thesis unfolding merge_environment_def .
qed

subsection \<open>Scheduling priority and readiness probes\<close>

datatype priority = Background | Standard | Interactive

definition priority_parse :: "string \<Rightarrow> priority option" where
  "priority_parse raw =
     (if raw = ''background'' then Some Background
      else if raw = ''standard'' then Some Standard
      else if raw = ''interactive'' then Some Interactive
      else None)"

datatype ready_probe =
    ProbeExec "string list"
  | ProbeTcp string u16

subsection \<open>The declaration of a service\<close>

datatype env_origin = Plain | Encrypted | Sealed

primrec env_origin_as_str :: "env_origin \<Rightarrow> string" where
  "env_origin_as_str Plain = ''plain''"
| "env_origin_as_str Encrypted = ''encrypted''"
| "env_origin_as_str Sealed = ''sealed''"

record app_spec =
  app_name :: string
  script :: string
  args :: "string list"
  cwd :: string
  env :: "env_value list"
  env_origin :: env_origin
  autorestart :: bool
  min_uptime_ms :: u64
  max_restarts :: u32
  restart_delay_ms :: u64
  max_restart_delay_ms :: u64
  schedule :: "string option"
  depends_on :: "string list"
  max_memory_kib :: "u64 option"
  ready_probe :: "ready_probe option"
  liveness_probe :: "ready_probe option"
  listen_timeout_ms :: "u64 option"
  stop_exit_codes :: "int list"
  self_responsible :: bool
  app_priority :: priority
  sandbox :: sandbox_policy

datatype spec_error =
    ExecLivenessProbe string
  | EmptyName
  | NumericName string
  | DottedName string
  | ReservedName string
  | EncryptedName string
  | ReservedFileName string
  | UnsafeName string string
  | EmptyScript string
  | RelativeCwd string string
  | SelfDependency string
  | InvalidMinUptime string
  | InvalidMaxRestartDelay string
  | EmptyReadyProbe string
  | InvalidReadyEndpoint string string
  | InvalidListenTimeout string
  | EmptyEnvKey string
  | EmptySchedule string
  | InvalidStopExitCode string int
  | ConfinedSelfResponsible string
  | SandboxRefused string policy_error

definition RESERVED_ALL_SELECTOR :: string where
  "RESERVED_ALL_SELECTOR = ''all''"

definition RESERVED_ENCRYPTED_SUFFIX :: string where
  "RESERVED_ENCRYPTED_SUFFIX = ''.enc''"

definition RESERVED_FILE_NAMES :: "string list" where
  "RESERVED_FILE_NAMES = [''config'', ''pm3'']"

definition restart_policy_of :: "app_spec \<Rightarrow> restart_policy" where
  "restart_policy_of spec =
     \<lparr>rp_autorestart = autorestart spec, rp_min_uptime_ms = min_uptime_ms spec,
      rp_max_restarts = max_restarts spec, rp_restart_delay_ms = restart_delay_ms spec,
      rp_max_restart_delay_ms = max_restart_delay_ms spec\<rparr>"

definition is_scheduled_task :: "app_spec \<Rightarrow> bool" where
  "is_scheduled_task spec \<longleftrightarrow> (if autorestart spec then False else schedule spec \<noteq> None)"

definition declared_env_count :: "app_spec \<Rightarrow> nat" where
  "declared_env_count spec = length (filter (\<lambda>entry. ev_scope entry \<noteq> Injected) (env spec))"

definition stops_on :: "app_spec \<Rightarrow> int \<Rightarrow> bool" where
  "stops_on spec code \<longleftrightarrow> List.member (stop_exit_codes spec) code"

definition dependency_node_of :: "app_spec \<Rightarrow> dependency_node" where
  "dependency_node_of spec = \<lparr>dn_name = app_name spec, dn_depends_on = depends_on spec\<rparr>"

subsection \<open>Validation\<close>

definition is_ascii_alphanumeric :: "char \<Rightarrow> bool" where
  "is_ascii_alphanumeric c \<longleftrightarrow>
     (let b = of_char c :: nat in
      (48 \<le> b \<and> b \<le> 57) \<or> (65 \<le> b \<and> b \<le> 90) \<or> (97 \<le> b \<and> b \<le> 122))"

definition is_name_letter :: "string \<Rightarrow> bool" where
  "is_name_letter letter \<longleftrightarrow>
     (case letter of
        [c] \<Rightarrow> (if is_ascii_alphanumeric c then True
                else c = CHR ''-'' \<or> c = CHR ''_'' \<or> c = CHR ''.'')
      | _ \<Rightarrow> False)"

definition validate_app_name :: "string \<Rightarrow> spec_error + unit" where
  "validate_app_name name =
     (if is_blank name then Inl EmptyName
      else if parse_u32 name \<noteq> None then Inl (NumericName name)
      else if starts_with ''.'' name then Inl (DottedName name)
      else if name = RESERVED_ALL_SELECTOR then Inl (ReservedName name)
      else if List.member RESERVED_FILE_NAMES name then Inl (ReservedFileName name)
      else if ends_with RESERVED_ENCRYPTED_SUFFIX name then Inl (EncryptedName name)
      else case find (\<lambda>letter. \<not> is_name_letter letter) (chars name) of
             None \<Rightarrow> Inr ()
           | Some letter \<Rightarrow> Inl (UnsafeName name letter))"

fun validate_probe :: "string \<Rightarrow> ready_probe \<Rightarrow> spec_error + unit" where
  "validate_probe app (ProbeExec command) =
     (if (case command of [] \<Rightarrow> True | program # _ \<Rightarrow> is_blank program)
      then Inl (EmptyReadyProbe app) else Inr ())"
| "validate_probe app (ProbeTcp host port) =
     (if is_blank host \<or> port = 0
      then Inl (InvalidReadyEndpoint app (host @ '':'' @ show_word port)) else Inr ())"

fun validate_liveness_probe :: "string \<Rightarrow> ready_probe \<Rightarrow> spec_error + unit" where
  "validate_liveness_probe app (ProbeExec command) = Inl (ExecLivenessProbe app)"
| "validate_liveness_probe app (ProbeTcp host port) = validate_probe app (ProbeTcp host port)"

definition validate_spec :: "app_spec \<Rightarrow> spec_error + unit" where
  "validate_spec spec =
     (case validate_app_name (app_name spec) of Inl e \<Rightarrow> Inl e | Inr _ \<Rightarrow>
      if is_blank (script spec) then Inl (EmptyScript (app_name spec))
      else if \<not> is_absolute_path (cwd spec) then Inl (RelativeCwd (app_name spec) (cwd spec))
      else if list_ex (\<lambda>dep. dep = app_name spec) (depends_on spec)
        then Inl (SelfDependency (app_name spec))
      else if min_uptime_ms spec < 1 then Inl (InvalidMinUptime (app_name spec))
      else if max_restart_delay_ms spec < 1 then Inl (InvalidMaxRestartDelay (app_name spec))
      else
       (case (case ready_probe spec of None \<Rightarrow> Inr ()
              | Some probe \<Rightarrow> validate_probe (app_name spec) probe) of Inl e \<Rightarrow> Inl e | Inr _ \<Rightarrow>
       (case (case liveness_probe spec of None \<Rightarrow> Inr ()
              | Some probe \<Rightarrow> validate_liveness_probe (app_name spec) probe) of
          Inl e \<Rightarrow> Inl e | Inr _ \<Rightarrow>
        if listen_timeout_ms spec = Some 0 then Inl (InvalidListenTimeout (app_name spec))
        else if list_ex (\<lambda>entry. is_blank (ev_key entry)) (env spec)
          then Inl (EmptyEnvKey (app_name spec))
        else if (case schedule spec of None \<Rightarrow> False | Some cron \<Rightarrow> is_blank cron)
          then Inl (EmptySchedule (app_name spec))
        else
         (case find (\<lambda>code. \<not> (0 \<le> code \<and> code \<le> 255)) (stop_exit_codes spec) of
            Some code \<Rightarrow> Inl (InvalidStopExitCode (app_name spec) code)
          | None \<Rightarrow>
            if self_responsible spec \<and> \<not> is_unconfined (sb_mode (sandbox spec))
              then Inl (ConfinedSelfResponsible (app_name spec))
            else
             (case validate_policy (sandbox spec) of
                Inl source \<Rightarrow> Inl (SandboxRefused (app_name spec) source)
              | Inr _ \<Rightarrow> Inr ())))))"

text \<open>A name that can be a file of the service directory: no separator, no parent directory.\<close>

definition safe_file_name :: "string \<Rightarrow> bool" where
  "safe_file_name name \<longleftrightarrow> name \<noteq> [] \<and> hd name \<noteq> CHR ''.'' \<and> CHR ''/'' \<notin> set name \<and>
     CHR 0x00 \<notin> set name \<and> list_all is_ascii name"

lemma alphanumeric_ascii: "is_ascii_alphanumeric c \<Longrightarrow> is_ascii c \<and> c \<noteq> CHR ''/'' \<and> c \<noteq> CHR 0x00"
  by (auto simp: is_ascii_alphanumeric_def is_ascii_def Let_def)

lemma name_letter_char:
  "is_name_letter letter \<Longrightarrow> \<exists>c. letter = [c] \<and> is_ascii c \<and> c \<noteq> CHR ''/'' \<and> c \<noteq> CHR 0x00"
  using alphanumeric_ascii
  by (auto simp: is_name_letter_def is_ascii_def split: list.splits if_splits)

lemma no_unsafe_letter:
  "(case find (\<lambda>l. \<not> p l) ls of None \<Rightarrow> Inr () | Some l \<Rightarrow> Inl (e l)) = (Inr () :: 'e + unit) \<longleftrightarrow>
    list_all p ls"
proof (cases "find (\<lambda>l. \<not> p l) ls")
  case None
  moreover have "list_all p ls" using None by (auto simp: find_None_all list_all_iff)
  ultimately show ?thesis by simp
next
  case (Some l)
  then show ?thesis using find_in_set[OF Some] by (auto simp: list_all_iff)
qed

lemma validate_app_name_ok:
  "validate_app_name name = Inr () \<longleftrightarrow>
     \<not> is_blank name \<and> parse_u32 name = None \<and> \<not> starts_with ''.'' name \<and>
     name \<noteq> ''all'' \<and> name \<noteq> ''config'' \<and> name \<noteq> ''pm3'' \<and> \<not> ends_with ''.enc'' name \<and>
     list_all is_name_letter (chars name)"
  unfolding validate_app_name_def if_error_ok no_unsafe_letter RESERVED_ALL_SELECTOR_def
    RESERVED_FILE_NAMES_def RESERVED_ENCRYPTED_SUFFIX_def
  by auto

lemma validated_name_safe:
  assumes "validate_app_name name = Inr ()"
  shows "safe_file_name name"
proof -
  have letters: "\<forall>l\<in>set (chars name). \<exists>c. l = [c] \<and> is_ascii c \<and> c \<noteq> CHR ''/'' \<and> c \<noteq> CHR 0x00"
    using assms name_letter_char by (auto simp: validate_app_name_ok list_all_iff)
  have "set (concat (chars name)) \<subseteq> {c. is_ascii c \<and> c \<noteq> CHR ''/'' \<and> c \<noteq> CHR 0x00}"
    unfolding set_concat using letters by force
  then have "\<forall>c\<in>set name. is_ascii c \<and> c \<noteq> CHR ''/'' \<and> c \<noteq> CHR 0x00" by auto
  moreover have "name \<noteq> []" using assms by (auto simp: validate_app_name_ok)
  moreover from this have "hd name \<noteq> CHR ''.''"
    using assms by (cases name) (auto simp: validate_app_name_ok starts_with_def)
  ultimately show ?thesis by (auto simp: safe_file_name_def list_all_iff)
qed

lemma optional_check_ok:
  "(case x of None \<Rightarrow> Inr () | Some y \<Rightarrow> check y) = Inr () \<longleftrightarrow> (\<forall>y. x = Some y \<longrightarrow> check y = Inr ())"
  by (cases x) auto

lemma no_bad_code:
  "(case find (\<lambda>c. \<not> p c) cs of Some c \<Rightarrow> Inl (e c) | None \<Rightarrow> k) = Inr r \<longleftrightarrow> list_all p cs \<and> k = Inr r"
proof (cases "find (\<lambda>c. \<not> p c) cs")
  case None
  moreover have "list_all p cs" using None by (auto simp: find_None_all list_all_iff)
  ultimately show ?thesis by simp
next
  case (Some c)
  then show ?thesis using find_in_set[OF Some] by (auto simp: list_all_iff)
qed

lemma map_err_ok:
  "(case m of Inl e \<Rightarrow> Inl (f e) | Inr _ \<Rightarrow> Inr ()) = Inr () \<longleftrightarrow> m = Inr ()" for m :: "'e + unit"
  by (cases m) auto

lemma word_less_1: "w < 1 \<longleftrightarrow> w = 0" for w :: "'a::len word"
  by (simp add: word_less_nat_alt unat_eq_0)

lemma validate_liveness_ok:
  "validate_liveness_probe app probe = Inr () \<longleftrightarrow>
    (\<exists>host port. probe = ProbeTcp host port \<and> \<not> is_blank host \<and> port \<noteq> 0)"
  by (cases probe) auto

lemma unconfined_iff: "is_unconfined m \<longleftrightarrow> m = DangerFullAccess"
  by (cases m) auto

lemma validate_spec_ok:
  "validate_spec spec = Inr () \<longleftrightarrow>
    validate_app_name (app_name spec) = Inr () \<and> \<not> is_blank (script spec) \<and>
    is_absolute_path (cwd spec) \<and> app_name spec \<notin> set (depends_on spec) \<and>
    min_uptime_ms spec \<noteq> 0 \<and> max_restart_delay_ms spec \<noteq> 0 \<and>
    (\<forall>probe. ready_probe spec = Some probe \<longrightarrow> validate_probe (app_name spec) probe = Inr ()) \<and>
    (\<forall>probe. liveness_probe spec = Some probe \<longrightarrow>
       (\<exists>host port. probe = ProbeTcp host port \<and> \<not> is_blank host \<and> port \<noteq> 0)) \<and>
    listen_timeout_ms spec \<noteq> Some 0 \<and>
    (\<forall>entry\<in>set (env spec). \<not> is_blank (ev_key entry)) \<and>
    (\<forall>cron. schedule spec = Some cron \<longrightarrow> \<not> is_blank cron) \<and>
    (\<forall>code\<in>set (stop_exit_codes spec). 0 \<le> code \<and> code \<le> 255) \<and>
    (self_responsible spec \<longrightarrow> sb_mode (sandbox spec) = DangerFullAccess) \<and>
    validate_policy (sandbox spec) = Inr ()"
proof -
  have cron: "(case c of None \<Rightarrow> False | Some cron \<Rightarrow> is_blank cron) \<longleftrightarrow>
      \<not> (\<forall>cron. c = Some cron \<longrightarrow> \<not> is_blank cron)" for c
    by (cases c) auto
  have deps: "list_ex (\<lambda>dep. dep = n) ds \<longleftrightarrow> n \<in> set ds" for n :: string and ds
    by (auto simp: list_ex_iff)
  show ?thesis
    unfolding validate_spec_def sum_then_ok if_error_ok optional_check_ok no_bad_code map_err_ok
      word_less_1 validate_liveness_ok unconfined_iff cron deps list_ex_iff list_all_iff
    by (intro iffI; elim conjE; intro conjI; blast)
qed

subsection \<open>Secrets\<close>

definition ELIDED :: string where "ELIDED = ''..''"
definition MIN_MASKABLE_CHARS :: nat where "MIN_MASKABLE_CHARS = 12"
definition VISIBLE_CHARS :: nat where "VISIBLE_CHARS = 4"

definition mask_secret :: "string \<Rightarrow> string" where
  "mask_secret secret =
     (let count = char_count secret in
      if count < MIN_MASKABLE_CHARS then ELIDED @ '' '' @ show_nat count
      else
        let head = concat (take VISIBLE_CHARS (chars secret));
            tail = concat (drop (count - VISIBLE_CHARS) (chars secret))
        in head @ ELIDED @ tail @ '' '' @ show_nat count)"

subsection \<open>Signals\<close>

definition VALID_SIGNALS :: "string list" where
  "VALID_SIGNALS = [''TERM'', ''INT'', ''QUIT'', ''HUP'', ''USR1'', ''USR2'']"

datatype signal_name_error = SignalNameError string

definition parse_signal_name :: "string \<Rightarrow> signal_name_error + string" where
  "parse_signal_name raw =
     (let upper = to_uppercase raw in
      if List.member VALID_SIGNALS upper then Inr upper else Inl (SignalNameError raw))"

lemma parse_signal_name_sound:
  "parse_signal_name raw = Inr signal \<Longrightarrow> signal \<in> set VALID_SIGNALS"
  by (auto simp: parse_signal_name_def Let_def split: if_splits)

lemma parse_signal_name_valid:
  assumes "signal \<in> set VALID_SIGNALS"
  shows "parse_signal_name signal = Inr signal"
proof -
  have "list_all (\<lambda>signal. parse_signal_name signal = Inr signal) VALID_SIGNALS" by code_simp
  with assms show ?thesis by (simp add: list_all_iff)
qed

end
