(* ===== verification/Process_Runtime.thy ===== *)
theory Process_Runtime
  imports App_Spec
begin

text \<open>
  \<^verbatim>\<open>entities/src/process/status.rs\<close> and \<^verbatim>\<open>runtime.rs\<close>: the status of a managed process and
  the part of its record that the supervisor itself writes. The methods that take
  \<open>&mut self\<close> are functions from the record to the updated record. The lemmas give the words
  of the statuses, the meaning of the three status tests, and the times a record reports.
\<close>

subsection \<open>Status\<close>

datatype process_status = Launching | Online | Stopping | Stopped | Errored

primrec status_as_str :: "process_status \<Rightarrow> string" where
  "status_as_str Launching = ''launching''"
| "status_as_str Online = ''online''"
| "status_as_str Stopping = ''stopping''"
| "status_as_str Stopped = ''stopped''"
| "status_as_str Errored = ''errored''"

definition status_parse :: "string \<Rightarrow> process_status option" where
  "status_parse raw =
     (if raw = ''launching'' then Some Launching
      else if raw = ''online'' then Some Online
      else if raw = ''stopping'' then Some Stopping
      else if raw = ''stopped'' then Some Stopped
      else if raw = ''errored'' then Some Errored
      else None)"

definition is_running :: "process_status \<Rightarrow> bool" where
  "is_running status \<longleftrightarrow> (case status of Launching \<Rightarrow> True | Online \<Rightarrow> True | _ \<Rightarrow> False)"

definition is_shutting_down :: "process_status \<Rightarrow> bool" where
  "is_shutting_down status \<longleftrightarrow> (case status of Stopping \<Rightarrow> True | _ \<Rightarrow> False)"

definition is_settled :: "process_status \<Rightarrow> bool" where
  "is_settled status \<longleftrightarrow> (case status of Stopped \<Rightarrow> True | Errored \<Rightarrow> True | _ \<Rightarrow> False)"

interpretation status_words: wire_enum status_as_str status_parse
proof
  show "status_parse (status_as_str x) = Some x" for x
    by (cases x) (simp_all add: status_parse_def)
  show "status_parse s = Some x \<Longrightarrow> status_as_str x = s" for s x
    by (auto simp: status_parse_def split: if_splits)
qed

lemma status_tests [simp]:
  "is_running Launching" "is_running Online" "\<not> is_running Stopping"
  "\<not> is_running Stopped" "\<not> is_running Errored"
  "is_shutting_down Stopping" "\<not> is_shutting_down Launching" "\<not> is_shutting_down Online"
  "\<not> is_shutting_down Stopped" "\<not> is_shutting_down Errored"
  "is_settled Stopped" "is_settled Errored" "\<not> is_settled Launching"
  "\<not> is_settled Online" "\<not> is_settled Stopping"
  by (simp_all add: is_running_def is_shutting_down_def is_settled_def)

lemma is_running_iff: "is_running s \<longleftrightarrow> s = Launching \<or> s = Online"
  by (cases s) simp_all

lemma is_shutting_down_iff: "is_shutting_down s \<longleftrightarrow> s = Stopping"
  by (cases s) simp_all

lemma is_settled_iff: "is_settled s \<longleftrightarrow> s = Stopped \<or> s = Errored"
  by (cases s) simp_all

lemma status_partition:
  "is_settled s \<longleftrightarrow> \<not> is_running s \<and> \<not> is_shutting_down s"
  "is_shutting_down s \<Longrightarrow> \<not> is_running s"
  by (cases s; simp)+

subsection \<open>The runtime record\<close>

datatype runtime_error = RunningWithoutPid string string

record process_identity =
  token :: string
  launch_digest :: string
  binary_digest :: string

record process_runtime =
  rt_pm_id :: u32
  rt_name :: string
  rt_pid :: "u32 option"
  rt_status :: process_status
  restart_time :: u32
  unstable_restarts :: u32
  created_at_ms :: u64
  started_at_ms :: "u64 option"
  rt_identity :: "process_identity option"
  pending_restart :: bool
  supervised_restart :: bool
  liveness_failures :: u32
  schedule_armed :: bool

definition runtime_new :: "u32 \<Rightarrow> string \<Rightarrow> u64 \<Rightarrow> process_runtime" where
  "runtime_new pm_id name created =
     \<lparr>rt_pm_id = pm_id, rt_name = name, rt_pid = None, rt_status = Stopped, restart_time = 0,
      unstable_restarts = 0, created_at_ms = created, started_at_ms = None, rt_identity = None,
      pending_restart = False, supervised_restart = False, liveness_failures = 0,
      schedule_armed = False\<rparr>"

definition identity_token :: "process_runtime \<Rightarrow> string option" where
  "identity_token rt = map_option token (rt_identity rt)"

definition live_pid :: "process_runtime \<Rightarrow> u32 option" where
  "live_pid rt = (if is_settled (rt_status rt) then None else rt_pid rt)"

definition since_start :: "process_runtime \<Rightarrow> u64 \<Rightarrow> u64 option" where
  "since_start rt now = Option.bind (started_at_ms rt) (\<lambda>started. checked_sub now started)"

definition uptime_ms :: "process_runtime \<Rightarrow> u64 \<Rightarrow> u64 option" where
  "uptime_ms rt now = (if \<not> is_running (rt_status rt) then None else since_start rt now)"

definition elapsed_since_launch_ms :: "process_runtime \<Rightarrow> u64 \<Rightarrow> u64 option" where
  "elapsed_since_launch_ms rt now =
     (if is_settled (rt_status rt) then None else since_start rt now)"

definition validate_consistency :: "process_runtime \<Rightarrow> runtime_error + unit" where
  "validate_consistency rt =
     (if is_running (rt_status rt) \<and> rt_pid rt = None
      then Inl (RunningWithoutPid (rt_name rt) (status_as_str (rt_status rt)))
      else Inr ())"

definition mark_launched :: "u32 \<Rightarrow> u64 \<Rightarrow> process_runtime \<Rightarrow> process_runtime" where
  "mark_launched pid now rt =
     rt\<lparr>rt_status := Launching, rt_pid := Some pid, started_at_ms := Some now,
        rt_identity := None, liveness_failures := 0\<rparr>"

definition pass_liveness :: "process_runtime \<Rightarrow> process_runtime" where
  "pass_liveness rt = rt\<lparr>liveness_failures := 0\<rparr>"

definition fail_liveness :: "u32 \<Rightarrow> process_runtime \<Rightarrow> bool \<times> process_runtime" where
  "fail_liveness threshold rt =
     (let rt' = rt\<lparr>liveness_failures := saturating_add (liveness_failures rt) 1\<rparr>
      in (threshold \<le> liveness_failures rt', rt'))"

definition record_identity :: "process_identity option \<Rightarrow> process_runtime \<Rightarrow> process_runtime" where
  "record_identity identity rt = rt\<lparr>rt_identity := identity\<rparr>"

definition mark_online :: "process_runtime \<Rightarrow> process_runtime" where
  "mark_online rt = rt\<lparr>rt_status := Online\<rparr>"

definition mark_stopping :: "process_runtime \<Rightarrow> process_runtime" where
  "mark_stopping rt = rt\<lparr>rt_status := Stopping\<rparr>"

definition mark_exited :: "process_status \<Rightarrow> process_runtime \<Rightarrow> process_runtime" where
  "mark_exited status rt =
     rt\<lparr>rt_status := status, rt_pid := None, started_at_ms := None, rt_identity := None\<rparr>"

definition count_restart :: "u32 \<Rightarrow> process_runtime \<Rightarrow> process_runtime" where
  "count_restart unstable rt =
     rt\<lparr>restart_time := saturating_add (restart_time rt) 1, unstable_restarts := unstable\<rparr>"

definition reset_restarts :: "process_runtime \<Rightarrow> process_runtime" where
  "reset_restarts rt =
     (let rt = rt\<lparr>restart_time := 0, unstable_restarts := 0\<rparr> in
      if rt_status rt = Errored then rt\<lparr>rt_status := Stopped\<rparr> else rt)"

definition settle_stability :: "process_runtime \<Rightarrow> process_runtime" where
  "settle_stability rt = rt\<lparr>unstable_restarts := 0\<rparr>"

definition request_restart :: "process_runtime \<Rightarrow> process_runtime" where
  "request_restart rt = rt\<lparr>pending_restart := True\<rparr>"

definition request_supervised_restart :: "process_runtime \<Rightarrow> process_runtime" where
  "request_supervised_restart rt = rt\<lparr>pending_restart := True, supervised_restart := True\<rparr>"

definition cancel_restart :: "process_runtime \<Rightarrow> process_runtime" where
  "cancel_restart rt = rt\<lparr>pending_restart := False, supervised_restart := False\<rparr>"

definition arm_schedule :: "process_runtime \<Rightarrow> process_runtime" where
  "arm_schedule rt = rt\<lparr>schedule_armed := True\<rparr>"

definition disarm_schedule :: "process_runtime \<Rightarrow> process_runtime" where
  "disarm_schedule rt = rt\<lparr>schedule_armed := False\<rparr>"

definition take_restart_request :: "process_runtime \<Rightarrow> bool \<times> process_runtime" where
  "take_restart_request rt = (pending_restart rt, cancel_restart rt)"

definition takes_the_breaker :: "process_runtime \<Rightarrow> bool" where
  "takes_the_breaker rt \<longleftrightarrow> (if pending_restart rt then supervised_restart rt else False)"

subsection \<open>What an operation may change\<close>

text \<open>
  A process that is not settled has a pid: the supervisor signals it by that pid. The
  operations that write the runtime keep this, and none of them renames the record.
\<close>

definition runtime_ok :: "process_runtime \<Rightarrow> bool" where
  "runtime_ok rt \<longleftrightarrow> (is_settled (rt_status rt) \<or> rt_pid rt \<noteq> None)"

lemmas runtime_ops = mark_launched_def pass_liveness_def fail_liveness_def record_identity_def
  mark_online_def mark_stopping_def mark_exited_def count_restart_def reset_restarts_def
  settle_stability_def request_restart_def request_supervised_restart_def cancel_restart_def
  arm_schedule_def disarm_schedule_def take_restart_request_def Let_def

lemma runtime_names [simp, names_simps]:
  "rt_name (mark_launched p n rt) = rt_name rt" "rt_name (pass_liveness rt) = rt_name rt"
  "rt_name (snd (fail_liveness u rt)) = rt_name rt" "rt_name (record_identity i rt) = rt_name rt"
  "rt_name (mark_online rt) = rt_name rt" "rt_name (mark_stopping rt) = rt_name rt"
  "rt_name (mark_exited s rt) = rt_name rt" "rt_name (count_restart v rt) = rt_name rt"
  "rt_name (reset_restarts rt) = rt_name rt" "rt_name (settle_stability rt) = rt_name rt"
  "rt_name (request_restart rt) = rt_name rt"
  "rt_name (request_supervised_restart rt) = rt_name rt"
  "rt_name (cancel_restart rt) = rt_name rt" "rt_name (arm_schedule rt) = rt_name rt"
  "rt_name (disarm_schedule rt) = rt_name rt"
  by (simp_all add: runtime_ops)

lemma runtime_ok_ops [simp]:
  "runtime_ok (mark_launched p n rt)" "runtime_ok (pass_liveness rt) = runtime_ok rt"
  "runtime_ok (snd (fail_liveness u rt)) = runtime_ok rt"
  "runtime_ok (record_identity i rt) = runtime_ok rt"
  "runtime_ok (count_restart v rt) = runtime_ok rt"
  "runtime_ok (settle_stability rt) = runtime_ok rt"
  "runtime_ok (request_restart rt) = runtime_ok rt"
  "runtime_ok (request_supervised_restart rt) = runtime_ok rt"
  "runtime_ok (cancel_restart rt) = runtime_ok rt"
  "runtime_ok (arm_schedule rt) = runtime_ok rt"
  "runtime_ok (disarm_schedule rt) = runtime_ok rt"
  by (simp_all add: runtime_ok_def runtime_ops)

lemma runtime_ok_reset: "runtime_ok rt \<Longrightarrow> runtime_ok (reset_restarts rt)"
  by (auto simp: runtime_ok_def runtime_ops)

lemma runtime_ok_exited: "is_settled s \<Longrightarrow> runtime_ok (mark_exited s rt)"
  by (simp add: runtime_ok_def mark_exited_def)

lemma runtime_ok_pid: "rt_pid rt \<noteq> None \<Longrightarrow> runtime_ok (mark_online rt) \<and> runtime_ok (mark_stopping rt)"
  by (simp add: runtime_ok_def mark_online_def mark_stopping_def)

lemma runtime_ok_new: "runtime_ok (runtime_new i n t)"
  by (simp add: runtime_ok_def runtime_new_def)

lemma live_pid_iff: "runtime_ok rt \<Longrightarrow> live_pid rt = None \<longleftrightarrow> is_settled (rt_status rt)"
  by (auto simp: live_pid_def runtime_ok_def)

lemma uptime_le_elapsed: "uptime_ms rt now = Some t \<Longrightarrow> elapsed_since_launch_ms rt now = Some t"
  by (auto simp: uptime_ms_def elapsed_since_launch_ms_def status_partition split: if_splits)

lemma elapsed_after_launch:
  "elapsed_since_launch_ms (mark_launched p started rt) now =
     (if started \<le> now then Some (now - started) else None)"
  by (simp add: elapsed_since_launch_ms_def since_start_def mark_launched_def checked_sub_def)

end
