(* ===== verification/Port_Types.thy ===== *)
theory Port_Types
  imports Process_Runtime
begin

text \<open>
  The data that crosses the ports of the use cases: \<^verbatim>\<open>usecases/src/ports/\<close> \<^verbatim>\<open>launcher.rs\<close>,
  \<^verbatim>\<open>signaler.rs\<close>, \<^verbatim>\<open>probe.rs\<close>, \<^verbatim>\<open>ready.rs\<close>, \<^verbatim>\<open>wrapper.rs\<close>, \<^verbatim>\<open>fingerprint.rs\<close>,
  \<^verbatim>\<open>log_rotate.rs\<close>, \<^verbatim>\<open>dump_store.rs\<close> (its error) and \<^verbatim>\<open>specs.rs\<close>, and the error of a use
  case, \<open>UsecaseError\<close> of \<^verbatim>\<open>usecases/src/lib.rs\<close>, with the text every error is displayed as
  (the \<open>thiserror\<close> formats), because two replies carry that text.
\<close>

subsection \<open>Data of the ports\<close>

record launch_spec =
  ls_name :: string
  ls_program :: string
  ls_args :: "string list"
  ls_cwd :: string
  ls_env :: "(string \<times> string) list"
  stdout_path :: string
  stderr_path :: string
  ls_self_responsible :: bool
  ls_priority :: priority

record launched_process =
  lp_pid :: u32

datatype exit_outcome = Code int | Signalled | Unobserved

definition exit_failed :: "exit_outcome \<Rightarrow> bool" where
  "exit_failed outcome =
     (case outcome of Code code \<Rightarrow> code \<noteq> 0 | Signalled \<Rightarrow> True | Unobserved \<Rightarrow> False)"

definition exit_as_str :: "exit_outcome \<Rightarrow> string" where
  "exit_as_str outcome =
     (case outcome of Code code \<Rightarrow> ''code'' | Signalled \<Rightarrow> ''signalled'' | Unobserved \<Rightarrow> ''unobserved'')"

definition exit_code :: "exit_outcome \<Rightarrow> int option" where
  "exit_code outcome =
     (case outcome of Code code \<Rightarrow> Some code | Signalled \<Rightarrow> None | Unobserved \<Rightarrow> None)"

datatype signal_scope = ProcessGroup | SinglePid

definition reaches_the_group :: "signal_scope \<Rightarrow> bool" where
  "reaches_the_group scope \<longleftrightarrow> (case scope of ProcessGroup \<Rightarrow> True | SinglePid \<Rightarrow> False)"

datatype liveness = Alive string | Gone | Unreadable

definition into_token :: "liveness \<Rightarrow> string option" where
  "into_token l = (case l of Alive t \<Rightarrow> Some t | Gone \<Rightarrow> None | Unreadable \<Rightarrow> None)"

datatype readiness = Ready | Pending | Failed string

record resource_sample =
  rss_kib :: u64
  cpu_tenths :: u32

record wrapped_command =
  wc_program :: string
  wc_args :: "string list"

record rotated_log =
  rl_path :: string
  rl_bytes :: u64

subsection \<open>Errors\<close>

datatype launch_error = Spawn string string | LogFile string string string
datatype signal_error = Delivery u32 string
datatype dump_error = ReadState string string | WriteState string string | UnreadableState string string
datatype fingerprint_error = ReadProgram string string
datatype sandbox_error = NoBackend string
datatype log_rotate_error = Scan string string
datatype spec_resolve_error = Missing string string | Unusable string string

datatype usecase_error =
    SpecErr spec_error
  | DependencyErr dependency_error
  | PolicyErr policy_error
  | LaunchErr launch_error
  | SignalErr signal_error
  | InvalidSignal signal_name_error
  | SandboxErr sandbox_error
  | DumpErr dump_error
  | FingerprintErr fingerprint_error
  | NotFound string
  | NotRunning string
  | StillDependedOn string "string list"

definition blocks_takeover :: "usecase_error \<Rightarrow> bool" where
  "blocks_takeover error =
     (case error of
        DumpErr dump \<Rightarrow> (case dump of UnreadableState path reason \<Rightarrow> True | _ \<Rightarrow> False)
      | _ \<Rightarrow> False)"

definition quoted :: "string \<Rightarrow> string" where
  "quoted s = [CHR 0x27] @ s @ [CHR 0x27]"

subsection \<open>The texts of the errors\<close>

definition show_int :: "int \<Rightarrow> string" where
  "show_int i = (if i < 0 then ''-'' @ show_nat (nat (- i)) else show_nat (nat i))"

primrec policy_error_text :: "policy_error \<Rightarrow> string" where
  "policy_error_text EmptyWritableRoot =
     ''cannot accept empty sandbox writable root''"
| "policy_error_text (RelativeWritableRoot root) =
     ''cannot accept relative sandbox writable root '' @ quoted root @
     '': must be an absolute path''"
| "policy_error_text EmptyDerivedRoot =
     ''cannot accept empty derived sandbox root (from cwd, logs_dir or tmp dir)''"
| "policy_error_text (RelativeDerivedRoot root) =
     ''cannot accept relative derived sandbox root '' @ quoted root @
     '' (from cwd, logs_dir or tmp dir): must be an absolute path''"
| "policy_error_text EmptyReadableRoot =
     ''cannot accept empty sandbox readable root''"
| "policy_error_text (RelativeReadableRoot root) =
     ''cannot accept relative sandbox readable root '' @ quoted root @
     '': must be an absolute path''"
| "policy_error_text WritableRootsWithoutWriteAccess =
     ''cannot accept sandbox writable roots under a mode that denies writes''"
| "policy_error_text (WritableRootCoversHiddenRoot root hidden) =
     ''cannot accept sandbox writable root '' @ quoted root @
     '': it would hand the service '' @ quoted hidden @
     '', which pm3 keeps out of every sandbox''"
| "policy_error_text (ForbiddenWritableRoot root) =
     ''cannot accept sandbox writable root '' @ quoted root @
     '': pm3.sandbox.forbidden_writable_roots refuses it because granting it would leave the sandbox with nothing to enforce''"

primrec spec_error_text :: "spec_error \<Rightarrow> string" where
  "spec_error_text (ExecLivenessProbe app) =
     ''cannot accept an exec liveness probe for app '' @ quoted app @
     '': a repeating probe must not fork, declare a tcp endpoint''"
| "spec_error_text EmptyName =
     ''cannot accept blank app name''"
| "spec_error_text (NumericName app) =
     ''cannot accept all-digit app name '' @ quoted app @
     '': a selector would read it as a process id''"
| "spec_error_text (DottedName app) =
     ''cannot accept app name '' @ quoted app @
     '' starting with a dot: it would escape the service directory''"
| "spec_error_text (ReservedName app) =
     ''cannot accept app name '' @ quoted app @ '': it is reserved as the every-app selector''"
| "spec_error_text (EncryptedName app) =
     ''cannot accept app name '' @ quoted app @ '' ending in '' @ quoted ''.enc'' @
     '': its service file would be the encrypted environment of another app''"
| "spec_error_text (ReservedFileName app) =
     ''cannot accept app name '' @ quoted app @
     '': pm3 keeps that file name for its own configuration in the same directory''"
| "spec_error_text (UnsafeName app character) =
     ''cannot accept app name '' @ quoted app @ '': '' @ quoted character @
     '' is not allowed, use letters, digits, '' @ quoted ''-'' @ '', '' @ quoted ''_'' @
     '' or '' @ quoted ''.''"
| "spec_error_text (EmptyScript app) =
     ''cannot accept blank script for app '' @ quoted app"
| "spec_error_text (RelativeCwd app dir) =
     ''cannot accept relative cwd '' @ quoted dir @ '' for app '' @ quoted app @
     '': must be an absolute path''"
| "spec_error_text (SelfDependency app) =
     ''cannot accept app '' @ quoted app @ '' depending on itself''"
| "spec_error_text (InvalidMinUptime app) =
     ''cannot accept min_uptime_ms 0 for app '' @ quoted app @ '': must be >= 1''"
| "spec_error_text (InvalidMaxRestartDelay app) =
     ''cannot accept max_restart_delay_ms 0 for app '' @ quoted app @ '': must be >= 1''"
| "spec_error_text (EmptyReadyProbe app) =
     ''cannot accept a ready probe with a blank command for app '' @ quoted app"
| "spec_error_text (InvalidReadyEndpoint app endpoint) =
     ''cannot accept ready probe endpoint '' @ quoted endpoint @ '' for app '' @ quoted app @
     '': use host:port with a port of 1-65535''"
| "spec_error_text (InvalidListenTimeout app) =
     ''cannot accept listen_timeout_ms 0 for app '' @ quoted app @ '': must be >= 1''"
| "spec_error_text (EmptyEnvKey app) =
     ''cannot accept blank environment variable name for app '' @ quoted app"
| "spec_error_text (EmptySchedule app) =
     ''cannot accept blank schedule for app '' @ quoted app"
| "spec_error_text (InvalidStopExitCode app code) =
     ''cannot accept stop_exit_code '' @ show_int code @ '' for app '' @ quoted app @
     '': use a code of 0-255''"
| "spec_error_text (ConfinedSelfResponsible app) =
     ''cannot make app '' @ quoted app @
     '' self-responsible: only a danger-full-access app is launched directly, set sandbox mode to danger-full-access''"
| "spec_error_text (SandboxRefused app source) =
     ''cannot accept sandbox policy for app '' @ quoted app @ '': '' @
     policy_error_text source"

primrec dependency_error_text :: "dependency_error \<Rightarrow> string" where
  "dependency_error_text (UnknownDependency app dependency) =
     ''cannot resolve dependency '' @ quoted dependency @ '' declared by app '' @ quoted app @
     '': no such app''"
| "dependency_error_text (Cycle involved) =
     ''cannot order apps: dependency cycle involves '' @ join '', '' involved"

primrec signal_name_error_text :: "signal_name_error \<Rightarrow> string" where
  "signal_name_error_text (SignalNameError raw) =
     ''unknown signal '' @ quoted raw @ ''; valid signals: TERM, INT, QUIT, HUP, USR1, USR2''"

primrec launch_error_text :: "launch_error \<Rightarrow> string" where
  "launch_error_text (Spawn app reason) =
     ''cannot spawn app '' @ quoted app @ '': '' @ reason"
| "launch_error_text (LogFile app path reason) =
     ''cannot open log file '' @ quoted path @ '' for app '' @ quoted app @ '': '' @ reason"

primrec signal_error_text :: "signal_error \<Rightarrow> string" where
  "signal_error_text (Delivery pid reason) =
     ''cannot signal pid '' @ show_word pid @ '': '' @ reason"

primrec dump_error_text :: "dump_error \<Rightarrow> string" where
  "dump_error_text (ReadState path reason) =
     ''cannot read state file '' @ quoted path @ '': '' @ reason"
| "dump_error_text (WriteState path reason) =
     ''cannot write state file '' @ quoted path @ '': '' @ reason"
| "dump_error_text (UnreadableState path reason) =
     ''cannot rebuild the apps saved in '' @ quoted path @ '': '' @ reason"

primrec fingerprint_error_text :: "fingerprint_error \<Rightarrow> string" where
  "fingerprint_error_text (ReadProgram path reason) =
     ''cannot digest '' @ quoted path @ '': '' @ reason"

primrec sandbox_error_text :: "sandbox_error \<Rightarrow> string" where
  "sandbox_error_text (NoBackend app) =
     ''cannot confine app '' @ quoted app @
     '': no usable sandbox backend on this platform, install bubblewrap or set sandbox mode to danger-full-access''"

primrec spec_resolve_error_text :: "spec_resolve_error \<Rightarrow> string" where
  "spec_resolve_error_text (Missing name reason) =
     reason"
| "spec_resolve_error_text (Unusable name reason) =
     reason"

primrec usecase_error_text :: "usecase_error \<Rightarrow> string" where
  "usecase_error_text (SpecErr e) =
     spec_error_text e"
| "usecase_error_text (DependencyErr e) =
     dependency_error_text e"
| "usecase_error_text (PolicyErr e) =
     policy_error_text e"
| "usecase_error_text (LaunchErr e) =
     launch_error_text e"
| "usecase_error_text (SignalErr e) =
     signal_error_text e"
| "usecase_error_text (InvalidSignal e) =
     signal_name_error_text e"
| "usecase_error_text (SandboxErr e) =
     sandbox_error_text e"
| "usecase_error_text (DumpErr e) =
     dump_error_text e"
| "usecase_error_text (FingerprintErr e) =
     fingerprint_error_text e"
| "usecase_error_text (NotFound selector) =
     ''cannot find app '' @ quoted selector"
| "usecase_error_text (NotRunning app) =
     ''cannot signal '' @ quoted app @ '': it is not running''"
| "usecase_error_text (StillDependedOn app dependents) =
     ''cannot delete app '' @ quoted app @ '': '' @ join '', '' dependents @
     '' still depends on it''"

end
