(* ===== verification/Process_Table.thy ===== *)
theory Process_Table
  imports Port_Types
begin

text \<open>
  \<^verbatim>\<open>usecases/src/\<close> \<^verbatim>\<open>record.rs\<close>, \<^verbatim>\<open>selector.rs\<close> and \<^verbatim>\<open>table.rs\<close>: the records of the
  managed services, how an operator's word selects one, and the table that holds them. The
  lemmas give the store contract of the table, its invariant, the smallest free process id,
  and that the order in which the table is started or stopped is total.
\<close>

subsection \<open>Records and their views\<close>

record process_record =
  pr_spec :: app_spec
  pr_runtime :: process_runtime

record env_display =
  ed_key :: string
  ed_value :: string
  ed_scope :: env_scope

record process_view =
  pv_pm_id :: u32
  pv_name :: string
  pv_pid :: "u32 option"
  pv_status :: process_status
  pv_restart_time :: u32
  pv_unstable_restarts :: u32
  pv_max_restarts :: u32
  pv_autorestart :: bool
  pv_uptime_ms :: "u64 option"
  pv_next_fire_ms :: "u64 option"
  pv_schedule :: "string option"
  pv_sandbox_mode :: string
  pv_sandbox_read :: string
  pv_sandbox_network :: bool
  pv_env_origin :: env_origin
  pv_env_declared :: nat
  pv_env :: "env_display list"
  pv_script :: string
  pv_args :: "string list"
  pv_cwd :: string
  pv_depends_on :: "string list"
  pv_writable_roots :: "string list"
  pv_rss_kib :: "u64 option"
  pv_cpu_tenths :: "u32 option"

definition with_sample :: "(u32 \<times> resource_sample) list \<Rightarrow> process_view \<Rightarrow> process_view" where
  "with_sample samples view =
     (case Option.bind (pv_pid view) (map_of samples) of
        Some sample \<Rightarrow>
          view\<lparr>pv_rss_kib := Some (rss_kib sample), pv_cpu_tenths := Some (cpu_tenths sample)\<rparr>
      | None \<Rightarrow> view)"

definition record_awaits_ready :: "process_record \<Rightarrow> bool" where
  "record_awaits_ready r \<longleftrightarrow>
     ready_probe (pr_spec r) \<noteq> None \<and> rt_status (pr_runtime r) = Launching"

definition masked_entry :: "env_value \<Rightarrow> env_display" where
  "masked_entry entry =
     \<lparr>ed_key = ev_key entry, ed_value = mask_secret (ev_value entry), ed_scope = ev_scope entry\<rparr>"

definition masked_environment :: "env_value list \<Rightarrow> env_display list" where
  "masked_environment entries = map masked_entry entries"

definition view :: "process_record \<Rightarrow> u64 \<Rightarrow> process_view" where
  "view r now =
     \<lparr>pv_pm_id = rt_pm_id (pr_runtime r), pv_name = rt_name (pr_runtime r),
      pv_pid = rt_pid (pr_runtime r), pv_status = rt_status (pr_runtime r),
      pv_restart_time = restart_time (pr_runtime r),
      pv_unstable_restarts = unstable_restarts (pr_runtime r),
      pv_max_restarts = max_restarts (pr_spec r), pv_autorestart = autorestart (pr_spec r),
      pv_uptime_ms = uptime_ms (pr_runtime r) now, pv_next_fire_ms = None,
      pv_schedule = schedule (pr_spec r),
      pv_sandbox_mode = sandbox_mode_as_str (sb_mode (sandbox (pr_spec r))),
      pv_sandbox_read = read_scope_as_str (sb_read (sandbox (pr_spec r))),
      pv_sandbox_network = sb_network (sandbox (pr_spec r)),
      pv_env_origin = env_origin (pr_spec r), pv_env_declared = declared_env_count (pr_spec r),
      pv_env = masked_environment (env (pr_spec r)), pv_script = script (pr_spec r),
      pv_args = args (pr_spec r), pv_cwd = cwd (pr_spec r),
      pv_depends_on = depends_on (pr_spec r),
      pv_writable_roots = granted_roots (sandbox (pr_spec r)),
      pv_rss_kib = None, pv_cpu_tenths = None\<rparr>"

subsection \<open>Selectors\<close>

datatype app_selector = All | Id u32 | Name string

definition selector_parse :: "string \<Rightarrow> app_selector" where
  "selector_parse raw =
     (if raw = RESERVED_ALL_SELECTOR then All
      else case parse_u32 raw of None \<Rightarrow> Name raw | Some i \<Rightarrow> Id i)"

definition matches :: "app_selector \<Rightarrow> u32 \<Rightarrow> string \<Rightarrow> bool" where
  "matches selector i name =
     (case selector of All \<Rightarrow> False | Id j \<Rightarrow> j = i | Name candidate \<Rightarrow> candidate = name)"

definition selector_to_string :: "app_selector \<Rightarrow> string" where
  "selector_to_string selector =
     (case selector of All \<Rightarrow> RESERVED_ALL_SELECTOR | Id i \<Rightarrow> show_word i | Name name \<Rightarrow> name)"

lemma parse_selector_name:
  "validate_app_name name = Inr () \<Longrightarrow> selector_parse name = Name name"
  by (simp add: selector_parse_def validate_app_name_ok RESERVED_ALL_SELECTOR_def)

lemma show_word_not_all: "show_word (i :: u32) \<noteq> ''all''"
proof
  assume "show_word i = ''all''"
  then have "parse_u32 ''all'' = Some i" using parse_u32_show_word[of i] by simp
  then show False by (simp add: parse_u32_def parse_uint_def digits_value_def is_digit_def)
qed

lemma parse_selector_to_string:
  "selector = All \<or> (\<exists>i. selector = Id i) \<or>
   (\<exists>name. selector = Name name \<and> validate_app_name name = Inr ()) \<Longrightarrow>
   selector_parse (selector_to_string selector) = selector"
  using show_word_not_all
  by (auto simp: selector_to_string_def parse_selector_name)
     (auto simp: selector_parse_def RESERVED_ALL_SELECTOR_def parse_u32_show_word)

subsection \<open>The table\<close>

record process_table =
  pt_records :: "process_record list"
  pt_boot :: "string option"

definition LOWEST_PM_ID :: u32 where "LOWEST_PM_ID = 1"

definition table_new :: process_table where
  "table_new = \<lparr>pt_records = [], pt_boot = None\<rparr>"

definition from_records :: "process_record list \<Rightarrow> process_table" where
  "from_records rs = \<lparr>pt_records = rs, pt_boot = None\<rparr>"

definition remember_boot :: "string option \<Rightarrow> process_table \<Rightarrow> process_table" where
  "remember_boot boot table = table\<lparr>pt_boot := boot\<rparr>"

definition selects :: "app_selector \<Rightarrow> process_record \<Rightarrow> bool" where
  "selects selector r \<longleftrightarrow> matches selector (rt_pm_id (pr_runtime r)) (rt_name (pr_runtime r))"

definition find_record :: "process_table \<Rightarrow> app_selector \<Rightarrow> process_record option" where
  "find_record table selector = find (selects selector) (pt_records table)"

definition find_by_name :: "process_table \<Rightarrow> string \<Rightarrow> process_record option" where
  "find_by_name table name = find (\<lambda>r. rt_name (pr_runtime r) = name) (pt_records table)"

definition require :: "process_table \<Rightarrow> app_selector \<Rightarrow> usecase_error + process_record" where
  "require table selector =
     (case find_record table selector of
        Some r \<Rightarrow> Inr r
      | None \<Rightarrow> Inl (NotFound (selector_to_string selector)))"

text \<open>Writing through the reference that \<open>find_mut\<close> and \<open>find_by_name_mut\<close> hand out.\<close>

definition write_record ::
  "app_selector \<Rightarrow> (process_record \<Rightarrow> process_record) \<Rightarrow> process_table \<Rightarrow> process_table" where
  "write_record selector f table =
     table\<lparr>pt_records := update_first (selects selector) f (pt_records table)\<rparr>"

definition write_named ::
  "string \<Rightarrow> (process_record \<Rightarrow> process_record) \<Rightarrow> process_table \<Rightarrow> process_table" where
  "write_named name f table =
     table\<lparr>pt_records := update_first (\<lambda>r. rt_name (pr_runtime r) = name) f (pt_records table)\<rparr>"

definition on_runtime :: "(process_runtime \<Rightarrow> process_runtime) \<Rightarrow> process_record \<Rightarrow> process_record"
where
  "on_runtime f r = r\<lparr>pr_runtime := f (pr_runtime r)\<rparr>"

fun first_free :: "u32 \<Rightarrow> u32 list \<Rightarrow> u32" where
  "first_free candidate [] = candidate"
| "first_free candidate (used # taken) =
     (if candidate < used then candidate
      else if used = candidate then first_free (saturating_add candidate 1) taken
      else first_free candidate taken)"

definition lowest_free_pm_id :: "process_table \<Rightarrow> u32" where
  "lowest_free_pm_id table =
     first_free LOWEST_PM_ID (sort (map (\<lambda>r. rt_pm_id (pr_runtime r)) (pt_records table)))"

definition upsert :: "app_spec \<Rightarrow> u64 \<Rightarrow> process_table \<Rightarrow> u32 \<times> process_table" where
  "upsert spec now table =
     (case find_by_name table (app_name spec) of
        Some existing \<Rightarrow>
          (rt_pm_id (pr_runtime existing),
           write_named (app_name spec) (\<lambda>r. r\<lparr>pr_spec := spec\<rparr>) table)
      | None \<Rightarrow>
          let i = lowest_free_pm_id table in
          (i, table\<lparr>pt_records := pt_records table @
                [\<lparr>pr_spec = spec, pr_runtime = runtime_new i (app_name spec) now\<rparr>]\<rparr>))"

definition remove :: "app_selector \<Rightarrow> process_table \<Rightarrow> process_record option \<times> process_table" where
  "remove selector table =
     (case find_record table selector of
        None \<Rightarrow> (None, table)
      | Some r \<Rightarrow>
          (Some r, table\<lparr>pt_records := remove_first (selects selector) (pt_records table)\<rparr>))"

definition restore :: "process_record \<Rightarrow> process_table \<Rightarrow> process_table" where
  "restore r table = table\<lparr>pt_records := pt_records table @ [r]\<rparr>"

definition dependency_nodes :: "process_table \<Rightarrow> dependency_node list" where
  "dependency_nodes table = map (\<lambda>r. dependency_node_of (pr_spec r)) (pt_records table)"

definition names_in_table_order :: "process_table \<Rightarrow> string list" where
  "names_in_table_order table = map (\<lambda>r. rt_name (pr_runtime r)) (pt_records table)"

definition dependency_order :: "process_table \<Rightarrow> string list option" where
  "dependency_order table =
     do { sorted \<leftarrow> topo_sort (dependency_nodes table);
          Some (case sorted of Inr order \<Rightarrow> order | Inl _ \<Rightarrow> names_in_table_order table) }"

subsection \<open>The invariant of the table\<close>

text \<open>
  A record's two names agree, no name occurs twice, and a process that is not settled has a
  pid. The identifiers are not part of it: a state file may repeat one.
\<close>

abbreviation record_name :: "process_record \<Rightarrow> string" where
  "record_name r \<equiv> rt_name (pr_runtime r)"

definition record_ok :: "process_record \<Rightarrow> bool" where
  "record_ok r \<longleftrightarrow> app_name (pr_spec r) = record_name r \<and> runtime_ok (pr_runtime r)"

definition wf_table :: "process_table \<Rightarrow> bool" where
  "wf_table table \<longleftrightarrow>
     distinct (names_in_table_order table) \<and> (\<forall>r\<in>set (pt_records table). record_ok r)"

abbreviation table_names :: "process_table \<Rightarrow> string set" where
  "table_names table \<equiv> set (names_in_table_order table)"

lemma find_by_name_Some: "find_by_name t n = Some r \<Longrightarrow> r \<in> set (pt_records t) \<and> record_name r = n"
  unfolding find_by_name_def by (drule find_in_set) auto

lemma find_by_name_iff: "n \<in> table_names t \<longleftrightarrow> (\<exists>r. find_by_name t n = Some r)"
proof
  assume "n \<in> table_names t"
  then obtain r where "r \<in> set (pt_records t)" "record_name r = n"
    by (auto simp: names_in_table_order_def)
  then show "\<exists>r. find_by_name t n = Some r"
    unfolding find_by_name_def by (intro find_ex)
next
  assume "\<exists>r. find_by_name t n = Some r"
  then show "n \<in> table_names t"
    using find_by_name_Some by (fastforce simp: names_in_table_order_def)
qed

lemma find_by_name_None: "find_by_name t n = None \<longleftrightarrow> n \<notin> table_names t"
  using find_by_name_iff[of n t] by (cases "find_by_name t n") auto

lemma find_record_name: "find_record t (Name n) = find_by_name t n"
  by (simp add: find_record_def find_by_name_def selects_def[abs_def] matches_def eq_commute)

lemma find_record_Some:
  "find_record t s = Some r \<Longrightarrow> r \<in> set (pt_records t) \<and> record_name r \<in> table_names t"
  unfolding find_record_def by (drule find_in_set) (auto simp: names_in_table_order_def)

lemma wf_find: "wf_table t \<Longrightarrow> find_by_name t n = Some r \<Longrightarrow> record_ok r \<and> record_name r = n"
  using find_by_name_Some by (auto simp: wf_table_def)

lemma wf_find_record: "wf_table t \<Longrightarrow> find_record t s = Some r \<Longrightarrow> record_ok r"
  using find_record_Some by (auto simp: wf_table_def)

lemma record_ok_spec: "record_ok r \<Longrightarrow> app_name (pr_spec r) = record_name r"
  by (simp add: record_ok_def)

lemma record_ok_on_runtime:
  "record_ok r \<Longrightarrow> rt_name (f (pr_runtime r)) = record_name r \<Longrightarrow> runtime_ok (f (pr_runtime r)) \<Longrightarrow>
   record_ok (on_runtime f r)"
  by (simp add: record_ok_def on_runtime_def)

lemma names_write_named [simp, names_simps]:
  "(\<And>r. record_name r = n \<Longrightarrow> record_name (f r) = record_name r) \<Longrightarrow>
    names_in_table_order (write_named n f t) = names_in_table_order t"
  by (simp add: names_in_table_order_def write_named_def map_update_first)

lemma names_write_record [simp, names_simps]:
  "(\<And>r. selects s r \<Longrightarrow> record_name (f r) = record_name r) \<Longrightarrow>
    names_in_table_order (write_record s f t) = names_in_table_order t"
  by (simp add: names_in_table_order_def write_record_def map_update_first)

lemma record_name_on_runtime [simp]: "record_name (on_runtime f r) = rt_name (f (pr_runtime r))"
  by (simp add: on_runtime_def)

lemma wf_write_named:
  assumes "wf_table t" and "\<And>r. find_by_name t n = Some r \<Longrightarrow> record_ok (f r)"
    and "\<And>r. record_name r = n \<Longrightarrow> record_name (f r) = record_name r"
  shows "wf_table (write_named n f t)"
proof (cases "find_by_name t n")
  case None
  then have "write_named n f t = t"
    by (simp add: write_named_def find_by_name_def update_first_none)
  with assms show ?thesis by simp
next
  case (Some r)
  then have "set (pt_records (write_named n f t)) \<subseteq> insert (f r) (set (pt_records t))"
    unfolding write_named_def find_by_name_def using set_update_first_find by fastforce
  then show ?thesis using assms Some by (auto simp: wf_table_def)
qed

lemma wf_write_record:
  assumes "wf_table t" and "\<And>r. find_record t s = Some r \<Longrightarrow> record_ok (f r)"
    and "\<And>r. record_name (f r) = record_name r"
  shows "wf_table (write_record s f t)"
proof (cases "find_record t s")
  case None
  then have "write_record s f t = t"
    by (simp add: write_record_def find_record_def update_first_none)
  with assms show ?thesis by simp
next
  case (Some r)
  then have "set (pt_records (write_record s f t)) \<subseteq> insert (f r) (set (pt_records t))"
    unfolding write_record_def find_record_def using set_update_first_find by fastforce
  then show ?thesis using assms Some by (auto simp: wf_table_def)
qed

lemma find_write_named:
  assumes "\<And>r. record_name r = n \<Longrightarrow> record_name (f r) = record_name r"
  shows "find_by_name (write_named n f t) m =
    (if m = n then map_option f (find_by_name t n) else find_by_name t m)"
proof (cases "m = n")
  case True
  then show ?thesis
    using assms by (simp add: find_by_name_def write_named_def find_update_first_same)
next
  case False
  then show ?thesis
    using assms by (auto simp: find_by_name_def write_named_def intro!: find_update_first_other)
qed

text \<open>
  Names are distinct, so writing through the reference a selector found is writing to the
  record of that name.
\<close>

lemma update_first_by_key:
  "distinct (map k xs) \<Longrightarrow> find p xs = Some x \<Longrightarrow>
    update_first p (\<lambda>_. y) xs = update_first (\<lambda>z. k z = k x) (\<lambda>_. y) xs"
proof (induction xs)
  case (Cons a xs)
  show ?case
  proof (cases "p a")
    case False
    then have "x \<in> set xs" using Cons.prems find_in_set by fastforce
    then have "k a \<noteq> k x" using Cons.prems by auto
    with False Cons show ?thesis by simp
  qed (use Cons in simp)
qed simp

lemma find_record_named:
  assumes "wf_table t" and "find_record t s = Some r"
  shows "find_by_name t (record_name r) = Some r"
  unfolding find_by_name_def
  using assms find_record_Some[OF assms(2)]
  by (intro find_key_unique) (auto simp: wf_table_def names_in_table_order_def)

lemma write_record_named:
  assumes "wf_table t" and "find_record t s = Some r"
  shows "write_record s (\<lambda>_. r') t = write_named (record_name r) (\<lambda>_. r') t"
proof -
  have "update_first (selects s) (\<lambda>_. r') (pt_records t) =
      update_first (\<lambda>z. record_name z = record_name r) (\<lambda>_. r') (pt_records t)"
    using assms unfolding find_record_def wf_table_def names_in_table_order_def
    by (intro update_first_by_key) auto
  then show ?thesis by (simp add: write_record_def write_named_def)
qed

subsection \<open>The table as a store of named declarations\<close>

lemma names_upsert:
  "names_in_table_order (snd (upsert spec now t)) =
    (if app_name spec \<in> table_names t then names_in_table_order t
     else names_in_table_order t @ [app_name spec])"
proof (cases "find_by_name t (app_name spec)")
  case None
  then have "app_name spec \<notin> table_names t" by (simp add: find_by_name_None)
  with None show ?thesis
    by (simp add: upsert_def Let_def names_in_table_order_def runtime_new_def)
next
  case (Some r)
  then have "app_name spec \<in> table_names t" using find_by_name_iff by auto
  with Some show ?thesis by (simp add: upsert_def)
qed

lemma wf_upsert:
  assumes "wf_table t"
  shows "wf_table (snd (upsert spec now t))"
proof (cases "find_by_name t (app_name spec)")
  case None
  then have "app_name spec \<notin> table_names t" by (simp add: find_by_name_None)
  with None assms names_upsert[of spec now t] show ?thesis
    by (auto simp: wf_table_def upsert_def Let_def record_ok_def runtime_ok_new)
      (simp_all add: runtime_new_def)
next
  case (Some r)
  have "record_ok (r\<lparr>pr_spec := spec\<rparr>)"
    using wf_find[OF assms Some] by (simp add: record_ok_def)
  with Some assms show ?thesis by (auto simp: upsert_def intro!: wf_write_named)
qed

lemma find_append_record:
  "find_by_name (t\<lparr>pt_records := pt_records t @ [r]\<rparr>) n =
    (case find_by_name t n of Some q \<Rightarrow> Some q | None \<Rightarrow> if record_name r = n then Some r else None)"
proof -
  have "find p (xs @ [r]) = (case find p xs of Some q \<Rightarrow> Some q | None \<Rightarrow> if p r then Some r else None)"
    for p and xs :: "process_record list"
    by (induction xs) auto
  then show ?thesis by (simp add: find_by_name_def)
qed

lemma find_upsert:
  "map_option pr_spec (find_by_name (snd (upsert spec now t)) n) =
    (if n = app_name spec then Some spec else map_option pr_spec (find_by_name t n))"
proof (cases "find_by_name t (app_name spec)")
  case None
  then show ?thesis
    by (auto simp: upsert_def Let_def find_append_record runtime_new_def split: option.splits)
next
  case (Some r)
  then show ?thesis by (simp add: upsert_def find_write_named)
qed

lemma upsert_runtime:
  "find_by_name t n = Some r \<Longrightarrow>
    \<exists>q. find_by_name (snd (upsert spec now t)) n = Some q \<and> pr_runtime q = pr_runtime r"
  by (cases "find_by_name t (app_name spec)")
    (auto simp: upsert_def Let_def find_append_record find_write_named)

lemma find_other_remove:
  "distinct (map k rs) \<Longrightarrow>
    find (\<lambda>r. k r = m) (remove_first (\<lambda>r. k r = n) rs) =
      (if m = n then None else find (\<lambda>r. k r = m) rs)"
proof (induction rs)
  case (Cons a rs)
  have "find (\<lambda>r. k r = k a) rs = None" using Cons.prems by (force simp: find_None_all image_iff)
  with Cons show ?case by auto
qed simp

lemma remove_named_records:
  "pt_records (snd (remove (Name n) t)) = remove_first (\<lambda>r. record_name r = n) (pt_records t)"
proof (cases "find_by_name t n")
  case None
  moreover from this have "remove_first (\<lambda>r. record_name r = n) (pt_records t) = pt_records t"
    unfolding find_by_name_def by (rule remove_first_none)
  ultimately show ?thesis by (simp add: remove_def find_record_name)
next
  case (Some r)
  have "selects (Name n) = (\<lambda>r. record_name r = n)"
    by (auto simp: selects_def matches_def)
  with Some show ?thesis by (simp add: remove_def find_record_name)
qed

lemma remove_named_result: "fst (remove (Name n) t) = find_by_name t n"
  by (auto simp: remove_def find_record_name split: option.splits)

lemma find_remove:
  "wf_table t \<Longrightarrow>
    find_by_name (snd (remove (Name n) t)) m = (if m = n then None else find_by_name t m)"
  unfolding find_by_name_def remove_named_records
  by (rule find_other_remove) (simp add: wf_table_def names_in_table_order_def)

lemma names_remove:
  "wf_table t \<Longrightarrow> table_names (snd (remove (Name n) t)) = table_names t - {n}"
  unfolding names_in_table_order_def remove_named_records wf_table_def
  by (rule map_remove_first_key) simp

lemma wf_remove:
  assumes "wf_table t"
  shows "wf_table (snd (remove (Name n) t))"
proof -
  have "set (pt_records (snd (remove (Name n) t))) \<subseteq> set (pt_records t)"
    unfolding remove_named_records by (rule set_remove_first_subset)
  moreover have "distinct (names_in_table_order (snd (remove (Name n) t)))"
    using assms unfolding names_in_table_order_def remove_named_records wf_table_def
    by (intro distinct_map_remove_first) simp
  ultimately show ?thesis using assms by (auto simp: wf_table_def)
qed

interpretation declarations:
  named_store "\<lambda>t n. map_option pr_spec (find_by_name t n)" "\<lambda>spec t. snd (upsert spec now t)"
    "\<lambda>n t. snd (remove (Name n) t)" wf_table app_name "\<lambda>spec. spec" for now
  by unfold_locales (auto simp: wf_upsert wf_remove find_upsert find_remove)

lemma wf_restore:
  "wf_table t \<Longrightarrow> record_ok r \<Longrightarrow> record_name r \<notin> table_names t \<Longrightarrow> wf_table (restore r t)"
  by (auto simp: wf_table_def restore_def names_in_table_order_def)

lemma names_restore: "names_in_table_order (restore r t) = names_in_table_order t @ [record_name r]"
  by (simp add: restore_def names_in_table_order_def)

subsection \<open>Process identifiers\<close>

lemma first_free_spec:
  "sorted us \<Longrightarrow> unat c + length us < 2 ^ 32 \<Longrightarrow>
    c \<le> first_free c us \<and> first_free c us \<notin> set us \<and>
    (\<forall>i. c \<le> i \<longrightarrow> i < first_free c us \<longrightarrow> i \<in> set us)"
proof (induction c us rule: first_free.induct)
  case (2 c used taken)
  consider "c < used" | "used = c" | "used < c" by fastforce
  then show ?case
  proof cases
    case 1
    with "2.prems" show ?thesis by auto
  next
    case 2
    have step: "saturating_add c 1 = c + 1" "unat (c + 1) = Suc (unat c)"
      using "2.prems"(2) unat_saturating_add[of c 1]
      by (simp_all add: saturating_add_def unat_word_ariths)
    then have le: "c + 1 \<le> i \<longleftrightarrow> c < i" for i
      by (simp add: word_le_nat_alt word_less_nat_alt Suc_le_eq)
    from "2.IH"(1)[OF _ 2] "2.prems" 2 step
    have "c + 1 \<le> first_free (c + 1) taken" "first_free (c + 1) taken \<notin> set taken"
        "\<forall>i. c + 1 \<le> i \<longrightarrow> i < first_free (c + 1) taken \<longrightarrow> i \<in> set taken"
      by auto
    with 2 step show ?thesis unfolding le by (cases "\<forall>i. c \<le> i \<longrightarrow> i = c \<or> c < i") (auto simp: le_less)
  next
    case 3
    with 2 show ?thesis by auto
  qed
qed (auto simp: leD)

lemma lowest_free_pm_id_spec:
  fixes table
  defines "taken \<equiv> (\<lambda>r. rt_pm_id (pr_runtime r)) ` set (pt_records table)"
  assumes "length (pt_records table) < 2 ^ 32 - 1"
  shows "1 \<le> lowest_free_pm_id table \<and> lowest_free_pm_id table \<notin> taken \<and>
    (\<forall>i. 1 \<le> i \<longrightarrow> i < lowest_free_pm_id table \<longrightarrow> i \<in> taken)"
  using first_free_spec[of "sort (map (\<lambda>r. rt_pm_id (pr_runtime r)) (pt_records table))" 1] assms
  by (simp add: lowest_free_pm_id_def LOWEST_PM_ID_def)

subsection \<open>The order of the table\<close>

lemma node_names_table: "wf_table t \<Longrightarrow> map dn_name (dependency_nodes t) = names_in_table_order t"
  by (simp add: dependency_nodes_def names_in_table_order_def dependency_node_of_def wf_table_def
      record_ok_def)

lemma dependency_order_spec:
  assumes "wf_table t"
  shows "returns (dependency_order t) (\<lambda>ord. distinct ord \<and> set ord = table_names t \<and>
    (Inr ord = the (topo_sort (dependency_nodes t)) \<longrightarrow> deps_first (dependency_nodes t) ord))"
proof -
  have names: "map dn_name (dependency_nodes t) = names_in_table_order t"
    using assms by (rule node_names_table)
  then have dist: "distinct (map dn_name (dependency_nodes t))"
    using assms by (simp add: wf_table_def)
  have set: "node_names (dependency_nodes t) = table_names t"
    using arg_cong[OF names, of set] by simp
  obtain res where res: "topo_sort (dependency_nodes t) = Some res"
    using topo_sort_total[of "dependency_nodes t"] by auto
  show ?thesis
  proof (cases res)
    case (Inl e)
    with res assms show ?thesis by (simp add: dependency_order_def wf_table_def)
  next
    case (Inr ord)
    with res topo_sort_order[OF dist] set show ?thesis by (simp add: dependency_order_def)
  qed
qed

end
