(* ===== verification/Ports.thy ===== *)
theory Ports
  imports Process_Table
begin

text \<open>
  The ports of \<^verbatim>\<open>usecases/src/ports/\<close> as the use cases see them. What is behind a port (the
  operating system, the state file, the clock) is a parameter: a record of functions that
  answer a call from the history of all calls made so far, so that an arbitrary \<open>ports\<close>
  stands for an arbitrary environment whose answers may change from call to call. Every
  operation below appends the call and its answer to the history. The three calls that only
  compute (\<open>wrap\<close>, \<open>digest\<close>, \<open>next_fire_ms\<close>) leave no event.
\<close>

subsection \<open>Calls and answers\<close>

record stranded_process =
  sp_name :: string
  sp_pid :: "u32 option"
  sp_token :: "string option"

record dump_contents =
  dc_records :: "process_record list"
  dc_stranded :: "stranded_process list"
  dc_boot :: "string option"

datatype port_event =
    NowEv u64
  | SpawnEv launch_spec "launch_error + launched_process"
  | AdoptEv u32
  | TrackedEv "u32 list"
  | TerminateEv u32 signal_scope "signal_error + unit"
  | ForceKillEv u32 signal_scope "signal_error + unit"
  | DeliverEv string u32 signal_scope "signal_error + unit"
  | LoadEv "dump_error + dump_contents"
  | SaveEv "process_record list" "string option" "dump_error + unit"
  | IdentityEv u32 liveness
  | IdentitiesEv "u32 list" "(u32 \<times> liveness) list"
  | WaitGoneEv u32 u64 liveness
  | WaitGroupGoneEv u32 u64 bool
  | MemoryEv "u32 list" "(u32 \<times> u64) list"
  | UsageEv "u32 list" "(u32 \<times> resource_sample) list"
  | FileDigestEv string "fingerprint_error + string"
  | RotateEv string u64 "log_rotate_error + rotated_log list"
  | CheckEv ready_probe readiness
  | PrepareEv string "spec_resolve_error + app_spec"

type_synonym history = "port_event list"

record ports =
  p_now :: "history \<Rightarrow> u64"
  p_spawn :: "history \<Rightarrow> launch_spec \<Rightarrow> launch_error + launched_process"
  p_tracked :: "history \<Rightarrow> u32 list"
  p_terminate :: "history \<Rightarrow> u32 \<Rightarrow> signal_scope \<Rightarrow> signal_error + unit"
  p_force_kill :: "history \<Rightarrow> u32 \<Rightarrow> signal_scope \<Rightarrow> signal_error + unit"
  p_deliver :: "history \<Rightarrow> string \<Rightarrow> u32 \<Rightarrow> signal_scope \<Rightarrow> signal_error + unit"
  p_load :: "history \<Rightarrow> dump_error + dump_contents"
  p_save :: "history \<Rightarrow> process_record list \<Rightarrow> string option \<Rightarrow> dump_error + unit"
  p_identity :: "history \<Rightarrow> u32 \<Rightarrow> liveness"
  p_identities :: "history \<Rightarrow> u32 list \<Rightarrow> (u32 \<times> liveness) list"
  p_wait_gone :: "history \<Rightarrow> u32 \<Rightarrow> u64 \<Rightarrow> liveness"
  p_wait_group_gone :: "history \<Rightarrow> u32 \<Rightarrow> u64 \<Rightarrow> bool"
  p_memory :: "history \<Rightarrow> u32 list \<Rightarrow> (u32 \<times> u64) list"
  p_usage :: "history \<Rightarrow> u32 list \<Rightarrow> (u32 \<times> resource_sample) list"
  p_file_digest :: "history \<Rightarrow> string \<Rightarrow> fingerprint_error + string"
  p_rotate :: "history \<Rightarrow> string \<Rightarrow> u64 \<Rightarrow> log_rotate_error + rotated_log list"
  p_check :: "history \<Rightarrow> ready_probe \<Rightarrow> readiness"
  p_wrap :: "history \<Rightarrow> string \<Rightarrow> sandbox_policy \<Rightarrow> string \<Rightarrow> string list \<Rightarrow>
    sandbox_error + wrapped_command"
  p_digest :: "string \<Rightarrow> string"
  p_next_fire :: "history \<Rightarrow> string \<Rightarrow> string \<Rightarrow> u64 \<Rightarrow> u64 option"
  p_schedule :: "history \<Rightarrow> nat"

text \<open>
  \<open>p_schedule\<close> is not a port: it is the choice of the async runtime, which of the futures
  that run concurrently is resumed next.
\<close>

type_synonym resolver = "history \<Rightarrow> string \<Rightarrow> spec_resolve_error + app_spec"

subsection \<open>The operations\<close>

definition now_ms :: "ports \<Rightarrow> history \<Rightarrow> u64 \<times> history" where
  "now_ms P h = (let t = p_now P h in (t, h @ [NowEv t]))"

definition spawn ::
  "ports \<Rightarrow> launch_spec \<Rightarrow> history \<Rightarrow> (launch_error + launched_process) \<times> history" where
  "spawn P ls h = (let r = p_spawn P h ls in (r, h @ [SpawnEv ls r]))"

definition adopt_pid :: "ports \<Rightarrow> u32 \<Rightarrow> history \<Rightarrow> history" where
  "adopt_pid P i h = h @ [AdoptEv i]"

definition tracked_pids :: "ports \<Rightarrow> history \<Rightarrow> u32 list \<times> history" where
  "tracked_pids P h = (let r = p_tracked P h in (r, h @ [TrackedEv r]))"

definition terminate ::
  "ports \<Rightarrow> u32 \<Rightarrow> signal_scope \<Rightarrow> history \<Rightarrow> (signal_error + unit) \<times> history" where
  "terminate P i scope h = (let r = p_terminate P h i scope in (r, h @ [TerminateEv i scope r]))"

definition force_kill ::
  "ports \<Rightarrow> u32 \<Rightarrow> signal_scope \<Rightarrow> history \<Rightarrow> (signal_error + unit) \<times> history" where
  "force_kill P i scope h = (let r = p_force_kill P h i scope in (r, h @ [ForceKillEv i scope r]))"

definition deliver ::
  "ports \<Rightarrow> string \<Rightarrow> u32 \<Rightarrow> signal_scope \<Rightarrow> history \<Rightarrow> (signal_error + unit) \<times> history" where
  "deliver P signal i scope h =
     (let r = p_deliver P h signal i scope in (r, h @ [DeliverEv signal i scope r]))"

definition load_dump :: "ports \<Rightarrow> history \<Rightarrow> (dump_error + dump_contents) \<times> history" where
  "load_dump P h = (let r = p_load P h in (r, h @ [LoadEv r]))"

definition save_dump ::
  "ports \<Rightarrow> process_record list \<Rightarrow> string option \<Rightarrow> history \<Rightarrow> (dump_error + unit) \<times> history"
where
  "save_dump P rs boot h = (let r = p_save P h rs boot in (r, h @ [SaveEv rs boot r]))"

definition identity_of :: "ports \<Rightarrow> u32 \<Rightarrow> history \<Rightarrow> liveness \<times> history" where
  "identity_of P i h = (let r = p_identity P h i in (r, h @ [IdentityEv i r]))"

definition identities_of ::
  "ports \<Rightarrow> u32 list \<Rightarrow> history \<Rightarrow> (u32 \<times> liveness) list \<times> history" where
  "identities_of P is h = (let r = p_identities P h is in (r, h @ [IdentitiesEv is r]))"

definition wait_gone :: "ports \<Rightarrow> u32 \<Rightarrow> u64 \<Rightarrow> history \<Rightarrow> liveness \<times> history" where
  "wait_gone P i timeout h = (let r = p_wait_gone P h i timeout in (r, h @ [WaitGoneEv i timeout r]))"

definition wait_group_gone :: "ports \<Rightarrow> u32 \<Rightarrow> u64 \<Rightarrow> history \<Rightarrow> bool \<times> history" where
  "wait_group_gone P i timeout h =
     (let r = p_wait_group_gone P h i timeout in (r, h @ [WaitGroupGoneEv i timeout r]))"

definition resident_memory :: "ports \<Rightarrow> u32 list \<Rightarrow> history \<Rightarrow> (u32 \<times> u64) list \<times> history" where
  "resident_memory P is h = (let r = p_memory P h is in (r, h @ [MemoryEv is r]))"

definition resource_usage ::
  "ports \<Rightarrow> u32 list \<Rightarrow> history \<Rightarrow> (u32 \<times> resource_sample) list \<times> history" where
  "resource_usage P is h = (let r = p_usage P h is in (r, h @ [UsageEv is r]))"

definition file_digest :: "ports \<Rightarrow> string \<Rightarrow> history \<Rightarrow> (fingerprint_error + string) \<times> history" where
  "file_digest P path h = (let r = p_file_digest P h path in (r, h @ [FileDigestEv path r]))"

definition rotate_logs ::
  "ports \<Rightarrow> string \<Rightarrow> u64 \<Rightarrow> history \<Rightarrow> (log_rotate_error + rotated_log list) \<times> history" where
  "rotate_logs P dir max_bytes h =
     (let r = p_rotate P h dir max_bytes in (r, h @ [RotateEv dir max_bytes r]))"

definition check_ready :: "ports \<Rightarrow> ready_probe \<Rightarrow> history \<Rightarrow> readiness \<times> history" where
  "check_ready P probe h = (let r = p_check P h probe in (r, h @ [CheckEv probe r]))"

definition prepare ::
  "resolver \<Rightarrow> string \<Rightarrow> history \<Rightarrow> (spec_resolve_error + app_spec) \<times> history" where
  "prepare R name h = (let r = R h name in (r, h @ [PrepareEv name r]))"

text \<open>\<open>save_table\<close> of \<^verbatim>\<open>persist.rs\<close>, the one call every use case ends with.\<close>

definition save_table :: "ports \<Rightarrow> process_table \<Rightarrow> history \<Rightarrow> (usecase_error + unit) \<times> history" where
  "save_table P table h =
     (case save_dump P (pt_records table) (pt_boot table) h of
        (Inl e, h) \<Rightarrow> (Inl (DumpErr e), h)
      | (Inr _, h) \<Rightarrow> (Inr (), h))"

subsection \<open>What the adapters promise\<close>

text \<open>
  \<open>SpecSource::prepare\<close> names the declaration after the file it reads, and the state file is
  read back into one record per service, named after its declaration.
\<close>

definition resolver_ok :: "resolver \<Rightarrow> bool" where
  "resolver_ok R \<longleftrightarrow> (\<forall>h name spec. R h name = Inr spec \<longrightarrow> app_name spec = name)"

definition dump_ok :: "dump_contents \<Rightarrow> bool" where
  "dump_ok contents \<longleftrightarrow>
     distinct (map record_name (dc_records contents)) \<and>
     (\<forall>r\<in>set (dc_records contents). app_name (pr_spec r) = record_name r)"

definition loads_ok :: "ports \<Rightarrow> bool" where
  "loads_ok P \<longleftrightarrow> (\<forall>h contents. p_load P h = Inr contents \<longrightarrow> dump_ok contents)"

subsection \<open>Signals in a history\<close>

text \<open>The events that reach a process: what an operator of the host would see.\<close>

fun signalled_pid :: "port_event \<Rightarrow> u32 option" where
  "signalled_pid (TerminateEv i scope r) = Some i"
| "signalled_pid (ForceKillEv i scope r) = Some i"
| "signalled_pid (DeliverEv signal i scope r) = Some i"
| "signalled_pid _ = None"

definition signals :: "history \<Rightarrow> u32 list" where
  "signals h = filter_map signalled_pid h"

fun spawned_name :: "port_event \<Rightarrow> string option" where
  "spawned_name (SpawnEv ls r) = Some (ls_name ls)"
| "spawned_name _ = None"

definition spawns :: "history \<Rightarrow> string list" where
  "spawns h = filter_map spawned_name h"

lemma filter_map_append: "filter_map f (xs @ ys) = filter_map f xs @ filter_map f ys"
  by (induction xs) (auto split: option.splits)

lemma signals_append [simp, trace_simps]: "signals (h @ g) = signals h @ signals g"
  by (simp add: signals_def filter_map_append)

lemma spawns_append [simp, trace_simps]: "spawns (h @ g) = spawns h @ spawns g"
  by (simp add: spawns_def filter_map_append)

lemma signals_Nil [simp]: "signals [] = []"
  by (simp add: signals_def)

lemma spawns_Nil [simp]: "spawns [] = []"
  by (simp add: spawns_def)

lemma signals_Cons [simp]:
  "signals (e # h) = (case signalled_pid e of None \<Rightarrow> signals h | Some i \<Rightarrow> i # signals h)"
  by (simp add: signals_def split: option.splits)

lemma spawns_Cons [simp]:
  "spawns (e # h) = (case spawned_name e of None \<Rightarrow> spawns h | Some n \<Rightarrow> n # spawns h)"
  by (simp add: spawns_def split: option.splits)

lemma silent_ports [simp, trace_simps]:
  "signals (snd (now_ms P h)) = signals h" "signals (snd (spawn P ls h)) = signals h"
  "signals (adopt_pid P i h) = signals h" "signals (snd (tracked_pids P h)) = signals h"
  "signals (snd (load_dump P h)) = signals h" "signals (snd (identity_of P i h)) = signals h"
  "signals (snd (identities_of P is h)) = signals h"
  "signals (snd (wait_gone P i timeout h)) = signals h"
  "signals (snd (wait_group_gone P i timeout h)) = signals h"
  "signals (snd (resident_memory P is h)) = signals h"
  "signals (snd (resource_usage P is h)) = signals h"
  "signals (snd (file_digest P path h)) = signals h"
  "signals (snd (rotate_logs P dir max_bytes h)) = signals h"
  "signals (snd (check_ready P probe h)) = signals h"
  "signals (snd (prepare R name h)) = signals h"
  by (simp_all add: now_ms_def spawn_def adopt_pid_def tracked_pids_def load_dump_def identity_of_def
      identities_of_def wait_gone_def wait_group_gone_def resident_memory_def resource_usage_def
      file_digest_def rotate_logs_def check_ready_def prepare_def Let_def)

lemma save_table_cases:
  obtains (refused) e h' where "save_table P t h = (Inl e, h')" "signals h' = signals h" "spawns h' = spawns h"
  | (saved) h' where "save_table P t h = (Inr (), h')" "signals h' = signals h" "spawns h' = spawns h"
  by (cases "p_save P h (pt_records t) (pt_boot t)")
    (auto simp: save_table_def save_dump_def Let_def)

lemma save_table_trace [simp, trace_simps]:
  "signals (snd (save_table P t h)) = signals h" "spawns (snd (save_table P t h)) = spawns h"
  by (cases rule: save_table_cases[of P t h]; simp)+

subsection \<open>A concrete environment\<close>

text \<open>
  A host on which everything succeeds, for concrete runs: the clock reads \<open>1000\<close> per call made,
  a spawned process gets the number of calls made as its pid, and every process is alive.
\<close>

definition calm_host :: ports where
  "calm_host =
     \<lparr>p_now = \<lambda>h. 1000 * of_nat (length h),
      p_spawn = \<lambda>h ls. Inr \<lparr>lp_pid = 100 + of_nat (length h)\<rparr>,
      p_tracked = \<lambda>h. [],
      p_terminate = \<lambda>h i scope. Inr (),
      p_force_kill = \<lambda>h i scope. Inr (),
      p_deliver = \<lambda>h signal i scope. Inr (),
      p_load = \<lambda>h. Inr \<lparr>dc_records = [], dc_stranded = [], dc_boot = None\<rparr>,
      p_save = \<lambda>h rs boot. Inr (),
      p_identity = \<lambda>h i. Alive ''token'',
      p_identities = \<lambda>h is. map (\<lambda>i. (i, Alive ''token'')) is,
      p_wait_gone = \<lambda>h i timeout. Gone,
      p_wait_group_gone = \<lambda>h i timeout. True,
      p_memory = \<lambda>h is. map (\<lambda>i. (i, 1)) is,
      p_usage = \<lambda>h is. [],
      p_file_digest = \<lambda>h path. Inr ''binary'',
      p_rotate = \<lambda>h dir max_bytes. Inr [],
      p_check = \<lambda>h probe. Ready,
      p_wrap = \<lambda>h app policy program arguments. Inr \<lparr>wc_program = program, wc_args = arguments\<rparr>,
      p_digest = \<lambda>text. ''digest'',
      p_next_fire = \<lambda>h app cron after. Some (after + 60000),
      p_schedule = \<lambda>h. 0\<rparr>"

lemma calm_host_loads_ok: "loads_ok calm_host"
  by (simp add: loads_ok_def calm_host_def dump_ok_def)

end
