(* ===== verification/Fingerprint.thy ===== *)
theory Fingerprint
  imports Ports "HOL-Library.Product_Lexorder" "HOL-Library.Multiset"
begin

text \<open>
  \<^verbatim>\<open>usecases/src/fingerprint.rs\<close>: the text whose digest identifies what a service was
  launched as, and the test that spares a pid the kernel has handed to another process. The
  lemmas show that the text determines everything it is made of: two declarations have the
  same text exactly when they launch the same program in the same way.
\<close>

subsection \<open>Rendering\<close>

definition NAME_LABEL :: string where "NAME_LABEL = ''name''"
definition PROGRAM_LABEL :: string where "PROGRAM_LABEL = ''program''"
definition CWD_LABEL :: string where "CWD_LABEL = ''cwd''"
definition ARG_LABEL :: string where "ARG_LABEL = ''arg''"
definition ENV_LABEL :: string where "ENV_LABEL = ''env''"
definition SANDBOX_LABEL :: string where "SANDBOX_LABEL = ''sandbox''"
definition READ_LABEL :: string where "READ_LABEL = ''read''"
definition NETWORK_LABEL :: string where "NETWORK_LABEL = ''network''"
definition ROOT_LABEL :: string where "ROOT_LABEL = ''root''"
definition READABLE_ROOT_LABEL :: string where "READABLE_ROOT_LABEL = ''readable_root''"
definition NETWORK_ALLOWED :: string where "NETWORK_ALLOWED = ''allowed''"
definition NETWORK_DENIED :: string where "NETWORK_DENIED = ''denied''"

lemmas label_defs = NAME_LABEL_def PROGRAM_LABEL_def CWD_LABEL_def ARG_LABEL_def ENV_LABEL_def
  SANDBOX_LABEL_def READ_LABEL_def NETWORK_LABEL_def ROOT_LABEL_def READABLE_ROOT_LABEL_def

definition network_label :: "bool \<Rightarrow> string" where
  "network_label allowed = (if allowed then NETWORK_ALLOWED else NETWORK_DENIED)"

definition identifies_the_process :: "env_value \<Rightarrow> bool" where
  "identifies_the_process entry \<longleftrightarrow> ev_scope entry \<noteq> Global"

definition sorted_env :: "env_value list \<Rightarrow> env_value list" where
  "sorted_env entries = sort_key env_pair (filter identifies_the_process entries)"

definition entry_line :: "env_value \<Rightarrow> string" where
  "entry_line entry = ev_key entry @ ''='' @ ev_value entry"

definition field :: "string \<Rightarrow> string \<Rightarrow> string" where
  "field label value = label @ '' '' @ show_nat (length value) @ '' '' @ value @ [CHR 0x0A]"

definition render_identity :: "app_spec \<Rightarrow> string" where
  "render_identity spec =
     concat
       [field NAME_LABEL (app_name spec), field PROGRAM_LABEL (script spec),
        field CWD_LABEL (cwd spec),
        field SANDBOX_LABEL (sandbox_mode_as_str (sb_mode (sandbox spec))),
        field READ_LABEL (read_scope_as_str (sb_read (sandbox spec))),
        field NETWORK_LABEL (network_label (sb_network (sandbox spec)))]
     @ concat
       (map (field ARG_LABEL) (args spec)
        @ map (field ROOT_LABEL) (writable_roots (sandbox spec))
        @ map (field READABLE_ROOT_LABEL) (readable_roots (sandbox spec))
        @ map (\<lambda>entry. field ENV_LABEL (entry_line entry)) (sorted_env (env spec)))"

definition pid_was_recycled :: "liveness \<Rightarrow> string option \<Rightarrow> bool" where
  "pid_was_recycled observed expected =
     (case observed of
        Alive current \<Rightarrow> (case expected of Some e \<Rightarrow> current \<noteq> e | None \<Rightarrow> False)
      | _ \<Rightarrow> False)"

lemma pid_was_recycled_iff:
  "pid_was_recycled l t \<longleftrightarrow> (\<exists>c e. l = Alive c \<and> t = Some e \<and> c \<noteq> e)"
  by (auto simp: pid_was_recycled_def split: liveness.splits option.splits)

subsection \<open>Fields can be read back\<close>

lemma append_at_first:
  "x \<notin> set a \<Longrightarrow> x \<notin> set b \<Longrightarrow> a @ x # r = b @ x # s \<longleftrightarrow> a = b \<and> r = s"
proof (induction a arbitrary: b)
  case Nil
  then show ?case by (cases b) auto
next
  case (Cons c a)
  then show ?case by (cases b) auto
qed

lemma space_notin_show_nat: "CHR '' '' \<notin> set (show_nat n)"
  using show_nat_graphic[of n] by (auto simp: list_all_iff is_graphic_def)

lemma field_append_inject:
  assumes "CHR '' '' \<notin> set l" "CHR '' '' \<notin> set m"
  shows "field l v @ r = field m w @ s \<longleftrightarrow> l = m \<and> v = w \<and> r = s"
proof
  assume eq: "field l v @ r = field m w @ s"
  then have lm: "l = m"
      and rest: "show_nat (length v) @ CHR '' '' # v @ CHR 0x0A # r =
           show_nat (length w) @ CHR '' '' # w @ CHR 0x0A # s"
    using append_at_first[OF assms] unfolding field_def by auto
  from rest have same: "length v = length w \<and> v @ CHR 0x0A # r = w @ CHR 0x0A # s"
    unfolding append_at_first[OF space_notin_show_nat space_notin_show_nat] show_nat_inject .
  then show "l = m \<and> v = w \<and> r = s"
    using lm append_eq_append_conv[of v w] by auto
qed simp

definition fields :: "(string \<times> string) list \<Rightarrow> string" where
  "fields lvs = concat (map (\<lambda>(l, v). field l v) lvs)"

lemma fields_inject:
  "\<forall>(l, v)\<in>set a. CHR '' '' \<notin> set l \<Longrightarrow> \<forall>(l, v)\<in>set b. CHR '' '' \<notin> set l \<Longrightarrow>
    fields a = fields b \<longleftrightarrow> a = b"
proof (induction a arbitrary: b)
  case Nil
  then show ?case by (cases b) (auto simp: fields_def field_def)
next
  case (Cons x a)
  show ?case
  proof (cases b)
    case Nil
    then show ?thesis by (cases x) (auto simp: fields_def field_def)
  next
    case (Cons y c)
    obtain l v m w where xy: "x = (l, v)" "y = (m, w)" by (cases x, cases y)
    have "fields (x # a) = fields b \<longleftrightarrow> field l v @ fields a = field m w @ fields c"
      using Cons xy by (simp add: fields_def)
    also have "\<dots> \<longleftrightarrow> l = m \<and> v = w \<and> fields a = fields c"
      using Cons.prems Cons xy by (intro field_append_inject) auto
    finally show ?thesis using Cons Cons.IH[of c] Cons.prems xy by auto
  qed
qed

definition identity_fields :: "app_spec \<Rightarrow> (string \<times> string) list" where
  "identity_fields spec =
     [(NAME_LABEL, app_name spec), (PROGRAM_LABEL, script spec), (CWD_LABEL, cwd spec),
      (SANDBOX_LABEL, sandbox_mode_as_str (sb_mode (sandbox spec))),
      (READ_LABEL, read_scope_as_str (sb_read (sandbox spec))),
      (NETWORK_LABEL, network_label (sb_network (sandbox spec)))]
     @ map (Pair ARG_LABEL) (args spec)
     @ map (Pair ROOT_LABEL) (writable_roots (sandbox spec))
     @ map (Pair READABLE_ROOT_LABEL) (readable_roots (sandbox spec))
     @ map (Pair ENV_LABEL) (map entry_line (sorted_env (env spec)))"

lemma render_identity_fields: "render_identity spec = fields (identity_fields spec)"
  by (simp add: render_identity_def fields_def identity_fields_def comp_def)

lemma identity_fields_labels: "\<forall>(l, v)\<in>set (identity_fields spec). CHR '' '' \<notin> set l"
  by (auto simp: identity_fields_def label_defs)

lemma pair_filter: "filter (\<lambda>p. fst p = l) (map (Pair k) vs) = (if k = l then map (Pair k) vs else [])"
  by (induction vs) auto

lemma map_Pair_inject: "map (Pair l) vs = map (Pair l) ws \<longleftrightarrow> vs = ws"
  by (simp add: inj_map_eq_map inj_def)

lemma identity_fields_inject:
  "identity_fields a = identity_fields b \<longleftrightarrow>
    app_name a = app_name b \<and> script a = script b \<and> cwd a = cwd b \<and>
    sb_mode (sandbox a) = sb_mode (sandbox b) \<and> sb_read (sandbox a) = sb_read (sandbox b) \<and>
    sb_network (sandbox a) = sb_network (sandbox b) \<and> args a = args b \<and>
    writable_roots (sandbox a) = writable_roots (sandbox b) \<and>
    readable_roots (sandbox a) = readable_roots (sandbox b) \<and>
    map entry_line (sorted_env (env a)) = map entry_line (sorted_env (env b))"
  (is "?l = ?r")
proof
  assume eq: ?l
  have only: "filter (\<lambda>p. fst p = l) (identity_fields a) = filter (\<lambda>p. fst p = l) (identity_fields b)" for l
    using eq by simp
  have "map (Pair ARG_LABEL) (args a) = map (Pair ARG_LABEL) (args b)"
    using only[of ARG_LABEL] by (simp add: identity_fields_def label_defs pair_filter)
  moreover have "map (Pair ROOT_LABEL) (writable_roots (sandbox a)) =
      map (Pair ROOT_LABEL) (writable_roots (sandbox b))"
    using only[of ROOT_LABEL] by (simp add: identity_fields_def label_defs pair_filter)
  moreover have "map (Pair READABLE_ROOT_LABEL) (readable_roots (sandbox a)) =
      map (Pair READABLE_ROOT_LABEL) (readable_roots (sandbox b))"
    using only[of READABLE_ROOT_LABEL] by (simp add: identity_fields_def label_defs pair_filter)
  moreover have "map (Pair ENV_LABEL) (map entry_line (sorted_env (env a))) =
      map (Pair ENV_LABEL) (map entry_line (sorted_env (env b)))"
    using only[of ENV_LABEL] by (simp add: identity_fields_def label_defs pair_filter)
  moreover have "sb_network (sandbox a) = sb_network (sandbox b)"
    using eq by (auto simp: identity_fields_def network_label_def NETWORK_ALLOWED_def
        NETWORK_DENIED_def split: if_splits)
  moreover have "sb_mode (sandbox a) = sb_mode (sandbox b)" "sb_read (sandbox a) = sb_read (sandbox b)"
    using eq by (auto simp: identity_fields_def mode_words.as_str_inject scope_words.as_str_inject)
  ultimately show ?r
    unfolding map_Pair_inject using eq by (simp add: identity_fields_def)
qed (simp add: identity_fields_def)

subsection \<open>Environments without an equals sign in a key\<close>

definition plain_keys :: "app_spec \<Rightarrow> bool" where
  "plain_keys spec \<longleftrightarrow> list_all (\<lambda>entry. CHR ''='' \<notin> set (ev_key entry)) (env spec)"

definition launch_pairs :: "app_spec \<Rightarrow> (string \<times> string) list" where
  "launch_pairs spec = map env_pair (filter identifies_the_process (env spec))"

lemma entry_line_inject:
  "CHR ''='' \<notin> set (ev_key d) \<Longrightarrow> CHR ''='' \<notin> set (ev_key e) \<Longrightarrow>
    entry_line d = entry_line e \<longleftrightarrow> env_pair d = env_pair e"
  using append_at_first[of "CHR ''=''" "ev_key d" "ev_key e"] by (simp add: entry_line_def env_pair_def)

lemma entry_lines_inject:
  "\<forall>e\<in>set a. CHR ''='' \<notin> set (ev_key e) \<Longrightarrow> \<forall>e\<in>set b. CHR ''='' \<notin> set (ev_key e) \<Longrightarrow>
    map entry_line a = map entry_line b \<longleftrightarrow> map env_pair a = map env_pair b"
proof (induction a arbitrary: b)
  case (Cons d a)
  then show ?case by (cases b) (auto simp: entry_line_inject)
qed auto

lemma sorted_env_pairs: "map env_pair (sorted_env (env spec)) = sort (launch_pairs spec)"
proof (rule sym, rule properties_for_sort)
  show "mset (map env_pair (sorted_env (env spec))) = mset (launch_pairs spec)"
    by (simp add: sorted_env_def launch_pairs_def)
  show "sorted (map env_pair (sorted_env (env spec)))"
    by (simp add: sorted_env_def)
qed

lemma sort_eq_iff: "sort xs = sort ys \<longleftrightarrow> mset xs = mset ys"
  by (metis mset_sort properties_for_sort sorted_sort)

lemma render_identity_iff:
  assumes "plain_keys a" and "plain_keys b"
  shows "render_identity a = render_identity b \<longleftrightarrow>
    app_name a = app_name b \<and> script a = script b \<and> args a = args b \<and> cwd a = cwd b \<and>
    sb_mode (sandbox a) = sb_mode (sandbox b) \<and> sb_read (sandbox a) = sb_read (sandbox b) \<and>
    sb_network (sandbox a) = sb_network (sandbox b) \<and>
    writable_roots (sandbox a) = writable_roots (sandbox b) \<and>
    readable_roots (sandbox a) = readable_roots (sandbox b) \<and>
    mset (launch_pairs a) = mset (launch_pairs b)"
proof -
  have "\<forall>e\<in>set (sorted_env (env s)). CHR ''='' \<notin> set (ev_key e)" if "plain_keys s" for s
    using that by (auto simp: sorted_env_def plain_keys_def list_all_iff)
  then have "map entry_line (sorted_env (env a)) = map entry_line (sorted_env (env b)) \<longleftrightarrow>
      mset (launch_pairs a) = mset (launch_pairs b)"
    using assms entry_lines_inject[of "sorted_env (env a)" "sorted_env (env b)"]
    by (simp add: sorted_env_pairs sort_eq_iff)
  then show ?thesis
    unfolding render_identity_fields
      fields_inject[OF identity_fields_labels identity_fields_labels] identity_fields_inject
    by blast
qed

end
