(* ===== verification/Starting.thy ===== *)
theory Starting
  imports Fingerprint
begin

text \<open>
  \<^verbatim>\<open>usecases/src/log_paths.rs\<close> and \<^verbatim>\<open>start.rs\<close>: launching one service, and starting a batch
  of them in dependency order with the roll back of what was not launched. The lemmas show
  that a launch never panics on a name the table holds, that a refused batch touches nothing,
  what a partly failed batch leaves behind, and that a service is launched after the services
  of the batch it depends on.
\<close>

subsection \<open>Log paths\<close>

definition STDOUT_SUFFIX :: string where "STDOUT_SUFFIX = ''-out.log''"
definition STDERR_SUFFIX :: string where "STDERR_SUFFIX = ''-err.log''"

datatype log_stream = Stdout | Stderr

record log_paths_record =
  lps_stdout :: string
  lps_stderr :: string

definition join_log_path :: "string \<Rightarrow> string \<Rightarrow> string \<Rightarrow> string" where
  "join_log_path logs_dir app ending =
     trim_end_matches CHR ''/'' logs_dir @ ''/'' @ app @ ending"

definition log_path :: "string \<Rightarrow> string \<Rightarrow> log_stream \<Rightarrow> string" where
  "log_path logs_dir app stream =
     join_log_path logs_dir app (case stream of Stdout \<Rightarrow> STDOUT_SUFFIX | Stderr \<Rightarrow> STDERR_SUFFIX)"

definition log_paths :: "string \<Rightarrow> string \<Rightarrow> log_paths_record" where
  "log_paths logs_dir app =
     \<lparr>lps_stdout = log_path logs_dir app Stdout, lps_stderr = log_path logs_dir app Stderr\<rparr>"

text \<open>No two streams of any two services share a log file.\<close>

lemma log_path_inject:
  "log_path dir a s = log_path dir b r \<longleftrightarrow> a = b \<and> s = r"
proof -
  have "rev (log_path dir a s) = rev (log_path dir b r) \<longleftrightarrow> a = b \<and> s = r"
    by (cases s; cases r) (auto simp: log_path_def join_log_path_def STDOUT_SUFFIX_def STDERR_SUFFIX_def)
  then show ?thesis by simp
qed

subsection \<open>Outcomes\<close>

datatype start_mode = Register | Fire

datatype start_kind = Spawned | AlreadyRunning | Adopted | Scheduled | Deferred

record start_outcome =
  so_pm_id :: u32
  so_name :: string
  so_pid :: "u32 option"
  so_kind :: start_kind

record deferred_start =
  ds_name :: string
  ds_waiting_on :: "string list"

record start_report =
  sr_outcomes :: "start_outcome list"
  sr_failure :: "usecase_error option"
  sr_unsaved :: "usecase_error option"
  sr_pending :: "deferred_start list"

definition report_refused :: "usecase_error \<Rightarrow> start_report" where
  "report_refused e = \<lparr>sr_outcomes = [], sr_failure = Some e, sr_unsaved = None, sr_pending = []\<rparr>"

definition needs_watching :: "start_kind \<Rightarrow> bool" where
  "needs_watching kind \<longleftrightarrow> (case kind of Spawned \<Rightarrow> True | Adopted \<Rightarrow> True | _ \<Rightarrow> False)"

subsection \<open>Launching one service\<close>

definition launch_environment :: "env_value list \<Rightarrow> (string \<times> string) list" where
  "launch_environment entries = map env_pair entries"

definition build_launch_spec ::
  "ports \<Rightarrow> history \<Rightarrow> string \<Rightarrow> app_spec \<Rightarrow> usecase_error + launch_spec" where
  "build_launch_spec P h logs_dir spec =
     (case p_wrap P h (app_name spec) (sandbox spec) (script spec) (args spec) of
        Inl e \<Rightarrow> Inl (SandboxErr e)
      | Inr wrapped \<Rightarrow>
          let paths = log_paths logs_dir (app_name spec) in
          Inr \<lparr>ls_name = app_name spec, ls_program = wc_program wrapped, ls_args = wc_args wrapped,
               ls_cwd = cwd spec, ls_env = launch_environment (env spec),
               stdout_path = lps_stdout paths, stderr_path = lps_stderr paths,
               ls_self_responsible = self_responsible spec, ls_priority = app_priority spec\<rparr>)"

definition capture_identity ::
  "ports \<Rightarrow> app_spec \<Rightarrow> u32 \<Rightarrow> history \<Rightarrow> process_identity option \<times> history" where
  "capture_identity P spec i h =
     (let (observed, h) = identity_of P i h in
      case into_token observed of
        None \<Rightarrow> (None, h)
      | Some t \<Rightarrow>
          let launch = p_digest P (render_identity spec);
              (binary, h) = file_digest P (script spec) h
          in case binary of
               Inl _ \<Rightarrow> (None, h)
             | Inr b \<Rightarrow>
                 (Some \<lparr>token = t, launch_digest = launch, binary_digest = b\<rparr>, h))"

definition started_runtime ::
  "app_spec \<Rightarrow> u32 \<Rightarrow> u64 \<Rightarrow> process_identity option \<Rightarrow> process_runtime \<Rightarrow> process_runtime" where
  "started_runtime spec i now identity rt =
     (let rt = arm_schedule rt;
          rt = mark_launched i now rt;
          rt = (if ready_probe spec = None then mark_online rt else rt)
      in record_identity identity rt)"

definition outcome_of ::
  "process_record \<Rightarrow> string \<Rightarrow> u32 option \<Rightarrow> start_kind \<Rightarrow> start_outcome" where
  "outcome_of r name i kind =
     \<lparr>so_pm_id = rt_pm_id (pr_runtime r), so_name = name, so_pid = i, so_kind = kind\<rparr>"

definition launch_fresh ::
  "ports \<Rightarrow> string \<Rightarrow> string \<Rightarrow> process_record \<Rightarrow> history \<Rightarrow>
   (usecase_error + start_outcome) \<times> process_record \<times> history" where
  "launch_fresh P logs_dir name r h =
     (case build_launch_spec P h logs_dir (pr_spec r) of
        Inl e \<Rightarrow> (Inl e, r, h)
      | Inr ls \<Rightarrow>
          (case spawn P ls h of
             (Inl e, h) \<Rightarrow> (Inl (LaunchErr e), r, h)
           | (Inr launched, h) \<Rightarrow>
               let (now, h) = now_ms P h;
                   (identity, h) = capture_identity P (pr_spec r) (lp_pid launched) h;
                   r = on_runtime (started_runtime (pr_spec r) (lp_pid launched) now identity) r
               in (Inr (outcome_of r name (Some (lp_pid launched)) Spawned), r, h)))"

definition launch_record ::
  "ports \<Rightarrow> string \<Rightarrow> start_mode \<Rightarrow> string \<Rightarrow> process_record \<Rightarrow> history \<Rightarrow>
   (usecase_error + start_outcome) \<times> process_record \<times> history" where
  "launch_record P logs_dir mode name r h =
     (if \<not> is_settled (rt_status (pr_runtime r)) then
        let r = on_runtime arm_schedule r;
            r = (if is_shutting_down (rt_status (pr_runtime r))
                 then on_runtime request_restart r else r)
        in (Inr (outcome_of r name (rt_pid (pr_runtime r)) AlreadyRunning), r, h)
      else if mode = Register \<and> is_scheduled_task (pr_spec r) then
        let r = on_runtime arm_schedule r in (Inr (outcome_of r name None Scheduled), r, h)
      else launch_fresh P logs_dir name r h)"

definition launch ::
  "ports \<Rightarrow> string \<Rightarrow> start_mode \<Rightarrow> string \<Rightarrow> process_table \<Rightarrow> history \<Rightarrow>
   ((usecase_error + start_outcome) \<times> process_table \<times> history) option" where
  "launch P logs_dir mode name table h =
     do { r \<leftarrow> find_by_name table name;
          let (result, r', h) = launch_record P logs_dir mode name r h;
          Some (result, write_named name (\<lambda>_. r') table, h) }"

definition start_one ::
  "ports \<Rightarrow> string \<Rightarrow> string \<Rightarrow> process_table \<Rightarrow> history \<Rightarrow>
   ((usecase_error + start_outcome) \<times> process_table \<times> history) option" where
  "start_one P logs_dir name table h = launch P logs_dir Fire name table h"

definition register_one ::
  "ports \<Rightarrow> string \<Rightarrow> string \<Rightarrow> process_table \<Rightarrow> history \<Rightarrow>
   ((usecase_error + start_outcome) \<times> process_table \<times> history) option" where
  "register_one P logs_dir name table h = launch P logs_dir Register name table h"

subsection \<open>Starting a batch\<close>

fun validate_specs :: "app_spec list \<Rightarrow> usecase_error + unit" where
  "validate_specs [] = Inr ()"
| "validate_specs (spec # specs) =
     (case validate_spec spec of Inl e \<Rightarrow> Inl (SpecErr e) | Inr _ \<Rightarrow> validate_specs specs)"

definition names_include :: "app_spec list \<Rightarrow> string \<Rightarrow> bool" where
  "names_include specs candidate \<longleftrightarrow> list_ex (\<lambda>spec. app_name spec = candidate) specs"

definition start_nodes :: "process_table \<Rightarrow> app_spec list \<Rightarrow> dependency_node list" where
  "start_nodes table specs =
     map dependency_node_of specs
     @ filter (\<lambda>node. \<not> names_include specs (dn_name node)) (dependency_nodes table)"

definition start_order ::
  "process_table \<Rightarrow> app_spec list \<Rightarrow> (usecase_error + string list) option" where
  "start_order table specs =
     do { sorted \<leftarrow> topo_sort (start_nodes table specs);
          Some (case sorted of
                  Inl e \<Rightarrow> Inl (DependencyErr e)
                | Inr order \<Rightarrow> Inr (filter (names_include specs) order)) }"

definition accepted_order ::
  "process_table \<Rightarrow> app_spec list \<Rightarrow> (usecase_error + string list) option" where
  "accepted_order table specs =
     (case validate_specs specs of Inl e \<Rightarrow> Some (Inl e) | Inr _ \<Rightarrow> start_order table specs)"

fun declare_all ::
  "app_spec list \<Rightarrow> u64 \<Rightarrow> process_table \<Rightarrow> (string \<times> app_spec option) list \<times> process_table" where
  "declare_all [] now table = ([], table)"
| "declare_all (spec # specs) now table =
     (let prior = map_option pr_spec (find_by_name table (app_name spec));
          (previous, table) = declare_all specs now (snd (upsert spec now table))
      in ((app_name spec, prior) # previous, table))"

definition waiting_dependencies :: "app_spec \<Rightarrow> string list \<Rightarrow> string list" where
  "waiting_dependencies spec waiting = filter (\<lambda>dep. List.member waiting dep) (depends_on spec)"

definition defer_one ::
  "process_table \<Rightarrow> string \<Rightarrow> string list \<Rightarrow> start_report \<Rightarrow> string list \<Rightarrow>
   (start_report \<times> string list) option" where
  "defer_one table name waiting_on report waiting =
     do { r \<leftarrow> find_by_name table name;
          Some (report\<lparr>sr_outcomes := sr_outcomes report @ [outcome_of r name None Deferred],
                       sr_pending := sr_pending report @
                         [\<lparr>ds_name = name, ds_waiting_on = waiting_on\<rparr>]\<rparr>,
                List.insert name waiting) }"

definition awaits_ready_named :: "process_table \<Rightarrow> string \<Rightarrow> bool" where
  "awaits_ready_named table name \<longleftrightarrow>
     (case find_by_name table name of None \<Rightarrow> False | Some r \<Rightarrow> record_awaits_ready r)"

fun start_loop ::
  "ports \<Rightarrow> string \<Rightarrow> (string \<Rightarrow> app_spec option) \<Rightarrow> string list \<Rightarrow> process_table \<Rightarrow>
   start_report \<Rightarrow> string list \<Rightarrow> history \<Rightarrow> (start_report \<times> process_table \<times> history) option" where
  "start_loop P logs_dir by_name [] table report waiting h = Some (report, table, h)"
| "start_loop P logs_dir by_name (name # order) table report waiting h =
     do { spec \<leftarrow> by_name name;
          let waiting_on = waiting_dependencies spec waiting;
          if waiting_on \<noteq> [] then
            do { (report, waiting) \<leftarrow> defer_one table name waiting_on report waiting;
                 start_loop P logs_dir by_name order table report waiting h }
          else
            do { (result, table, h) \<leftarrow> launch P logs_dir Register name table h;
                 case result of
                   Inr outcome \<Rightarrow>
                     start_loop P logs_dir by_name order table
                       (report\<lparr>sr_outcomes := sr_outcomes report @ [outcome]\<rparr>)
                       (if awaits_ready_named table name then List.insert name waiting
                        else waiting) h
                 | Inl e \<Rightarrow> Some (report\<lparr>sr_failure := Some e\<rparr>, table, h) } }"

fun forget_unlaunched ::
  "(string \<times> app_spec option) list \<Rightarrow> start_outcome list \<Rightarrow> u64 \<Rightarrow> process_table \<Rightarrow> process_table"
where
  "forget_unlaunched [] outcomes now table = table"
| "forget_unlaunched ((name, prior) # previous) outcomes now table =
     forget_unlaunched previous outcomes now
       (if list_ex (\<lambda>outcome. so_name outcome = name) outcomes then table
        else case prior of
               Some spec \<Rightarrow> snd (upsert spec now table)
             | None \<Rightarrow> snd (remove (Name name) table))"

definition start_apps ::
  "ports \<Rightarrow> app_spec list \<Rightarrow> string \<Rightarrow> process_table \<Rightarrow> history \<Rightarrow>
   (start_report \<times> process_table \<times> history) option" where
  "start_apps P specs logs_dir table h =
     do { accepted \<leftarrow> accepted_order table specs;
          case accepted of
            Inl e \<Rightarrow> Some (report_refused e, table, h)
          | Inr order \<Rightarrow>
              do { let (now, h) = now_ms P h;
                   let (previous, table) = declare_all specs now table;
                   let report = \<lparr>sr_outcomes = [], sr_failure = None, sr_unsaved = None,
                                 sr_pending = []\<rparr>;
                   (report, table, h) \<leftarrow>
                     start_loop P logs_dir
                       (map_of (rev (map (\<lambda>spec. (app_name spec, spec)) specs)))
                       order table report [] h;
                   let table = (if sr_failure report \<noteq> None
                                then forget_unlaunched previous (sr_outcomes report) now table
                                else table);
                   let (saved, h) = save_table P table h;
                   Some (case saved of
                           Inl e \<Rightarrow> (report\<lparr>sr_unsaved := Some e\<rparr>, table, h)
                         | Inr _ \<Rightarrow> (report, table, h)) } }"

definition refused_services :: "string list \<Rightarrow> start_outcome list \<Rightarrow> string list" where
  "refused_services requested outcomes =
     filter (\<lambda>name. \<not> list_ex (\<lambda>outcome. so_name outcome = name) outcomes) requested"

datatype start_settlement = Committed | Partial "string list" | Unsaved

definition settle_start :: "string list \<Rightarrow> string option \<Rightarrow> start_settlement" where
  "settle_start refused unsaved =
     (if refused \<noteq> [] then Partial refused
      else if unsaved \<noteq> None then Unsaved
      else Committed)"

subsection \<open>What a launch does to its record and to the table\<close>

lemma started_runtime_name [simp]: "rt_name (started_runtime spec i now idt rt) = rt_name rt"
  by (simp add: started_runtime_def Let_def)

lemma started_runtime_id [simp]: "rt_pm_id (started_runtime spec i now idt rt) = rt_pm_id rt"
  by (simp add: started_runtime_def runtime_ops)

lemma started_runtime_ok: "runtime_ok (started_runtime spec i now idt rt)"
  by (simp add: started_runtime_def Let_def runtime_ok_def runtime_ops)

lemma launch_fresh_cases:
  obtains (refused) e where "launch_fresh P d n r h = (Inl e, r, snd (snd (launch_fresh P d n r h)))"
  | (spawned) i now idt h' where
      "launch_fresh P d n r h = (Inr (outcome_of r n (Some i) Spawned),
         on_runtime (started_runtime (pr_spec r) i now idt) r, h')"
proof (cases "build_launch_spec P h d (pr_spec r)")
  case (Inl e)
  then show thesis by (intro refused) (simp add: launch_fresh_def)
next
  case (Inr ls)
  show thesis
  proof (cases "p_spawn P h ls")
    case (Inl e)
    with Inr show thesis by (intro refused) (simp add: launch_fresh_def spawn_def Let_def)
  next
    case (Inr launched)
    obtain now h1 where now: "now_ms P (h @ [SpawnEv ls (Inr launched)]) = (now, h1)"
      by (cases "now_ms P (h @ [SpawnEv ls (Inr launched)])")
    obtain idt h2 where "capture_identity P (pr_spec r) (lp_pid launched) h1 = (idt, h2)"
      by (cases "capture_identity P (pr_spec r) (lp_pid launched) h1")
    with now Inr \<open>build_launch_spec P h d (pr_spec r) = Inr ls\<close>
    have "launch_fresh P d n r h = (Inr (outcome_of r n (Some (lp_pid launched)) Spawned),
         on_runtime (started_runtime (pr_spec r) (lp_pid launched) now idt) r, h2)"
      by (simp add: launch_fresh_def spawn_def Let_def outcome_of_def on_runtime_def)
    then show thesis by (rule spawned)
  qed
qed

definition launch_frame ::
  "string \<Rightarrow> process_record \<Rightarrow> (usecase_error + start_outcome) \<times> process_record \<times> history \<Rightarrow> bool"
where
  "launch_frame n r = (\<lambda>(res, r', h').
     record_name r' = record_name r \<and> pr_spec r' = pr_spec r \<and>
     (runtime_ok (pr_runtime r) \<longrightarrow> runtime_ok (pr_runtime r')) \<and>
     (case res of Inl e \<Rightarrow> r' = r
      | Inr out \<Rightarrow> so_name out = n \<and> so_kind out \<noteq> Deferred \<and> so_kind out \<noteq> Adopted))"

lemma launch_record_frame: "launch_frame n r (launch_record P d mode n r h)"
proof (cases "is_settled (rt_status (pr_runtime r)) \<and> \<not> (mode = Register \<and> is_scheduled_task (pr_spec r))")
  case True
  then have "launch_record P d mode n r h = launch_fresh P d n r h"
    by (auto simp: launch_record_def)
  then show ?thesis
    by (cases rule: launch_fresh_cases[of P d n r h])
      (auto simp: launch_frame_def outcome_of_def on_runtime_def started_runtime_ok)
next
  case False
  then show ?thesis
    by (auto simp: launch_frame_def launch_record_def outcome_of_def on_runtime_def Let_def)
qed

text \<open>
  \<open>table_frame ns t t'\<close>: the two tables hold the same names in the same order and the same
  declarations, and differ at most in the runtimes of the names \<open>ns\<close>.
\<close>

definition table_frame :: "string set \<Rightarrow> process_table \<Rightarrow> process_table \<Rightarrow> bool" where
  "table_frame ns t t' \<longleftrightarrow>
     names_in_table_order t' = names_in_table_order t \<and> (wf_table t \<longrightarrow> wf_table t') \<and>
     (\<forall>m. map_option pr_spec (find_by_name t' m) = map_option pr_spec (find_by_name t m)) \<and>
     (\<forall>m. m \<notin> ns \<longrightarrow> find_by_name t' m = find_by_name t m)"

lemma table_frame_refl [simp]: "table_frame ns t t"
  by (simp add: table_frame_def)

lemma table_frame_trans:
  "table_frame ns t t' \<Longrightarrow> table_frame ms t' t'' \<Longrightarrow> table_frame (ns \<union> ms) t t''"
  by (auto simp: table_frame_def)

lemma table_frame_mono: "table_frame ns t t' \<Longrightarrow> ns \<subseteq> ms \<Longrightarrow> table_frame ms t t'"
  by (auto simp: table_frame_def)

lemma table_frame_names: "table_frame ns t t' \<Longrightarrow> names_in_table_order t' = names_in_table_order t"
  by (simp add: table_frame_def)

lemma table_frame_wf: "table_frame ns t t' \<Longrightarrow> wf_table t \<Longrightarrow> wf_table t'"
  by (simp add: table_frame_def)

lemma table_frame_write:
  assumes "find_by_name t n = Some r" and "record_name r' = record_name r"
    and "pr_spec r' = pr_spec r" and "runtime_ok (pr_runtime r) \<longrightarrow> runtime_ok (pr_runtime r')"
  shows "table_frame {n} t (write_named n (\<lambda>_. r') t)"
proof -
  have n: "record_name r' = n" using find_by_name_Some[OF assms(1)] assms(2) by simp
  have "wf_table (write_named n (\<lambda>_. r') t)" if wf: "wf_table t"
    using wf n wf_find[OF wf assms(1)] assms by (intro wf_write_named) (auto simp: record_ok_def)
  then show ?thesis
    using n assms by (auto simp: table_frame_def find_write_named)
qed

lemma launch_returns:
  assumes "n \<in> table_names t"
  shows "returns (launch P d mode n t h) (\<lambda>(res, t', h').
    table_frame {n} t t' \<and>
    (case res of Inl e \<Rightarrow> table_frame {} t t'
     | Inr out \<Rightarrow> so_name out = n \<and> so_kind out \<noteq> Deferred \<and> so_kind out \<noteq> Adopted))"
proof -
  obtain r where r: "find_by_name t n = Some r" using assms find_by_name_iff by auto
  obtain res r' h' where l: "launch_record P d mode n r h = (res, r', h')" by (cases rule: prod_cases3)
  then have fr: "launch_frame n r (res, r', h')" using launch_record_frame[of n r P d mode h] by simp
  then have "table_frame {n} t (write_named n (\<lambda>_. r') t)"
    using r by (intro table_frame_write) (auto simp: launch_frame_def)
  moreover have "table_frame {} t (write_named n (\<lambda>_. r) t)"
    using table_frame_write[OF r, of r] find_by_name_Some[OF r] r
    by (auto simp: table_frame_def find_write_named)
  ultimately show ?thesis
    using r l fr by (auto simp: launch_def launch_frame_def split: sum.splits)
qed

subsection \<open>What a batch does\<close>

abbreviation outcome_names :: "start_report \<Rightarrow> string list" where
  "outcome_names report \<equiv> map so_name (sr_outcomes report)"

definition pending_ok :: "start_report \<Rightarrow> bool" where
  "pending_ok report \<longleftrightarrow>
     (\<forall>p\<in>set (sr_pending report). ds_name p \<in> set (outcome_names report) \<and>
        ds_waiting_on p \<noteq> [] \<and> set (ds_waiting_on p) \<subseteq> set (outcome_names report))"

text \<open>The loop stops at the first failure: what it reports is a prefix of the order.\<close>

definition loop_result ::
  "string list \<Rightarrow> process_table \<Rightarrow> start_report \<Rightarrow> start_report \<times> process_table \<times> history \<Rightarrow> bool"
where
  "loop_result order t report = (\<lambda>(report', t', h').
     table_frame (set (outcome_names report')) t t' \<and> pending_ok report' \<and>
     sr_unsaved report' = sr_unsaved report \<and>
     (\<exists>k. outcome_names report' = outcome_names report @ take k order \<and>
        (sr_failure report' = None \<longrightarrow> length order \<le> k) \<and>
        (sr_failure report' \<noteq> None \<longrightarrow> k < length order)))"

lemma start_loop_returns:
  "set order \<subseteq> table_names t \<Longrightarrow> \<forall>n\<in>set order. by_name n \<noteq> None \<Longrightarrow>
    set waiting \<subseteq> set (outcome_names report) \<Longrightarrow> pending_ok report \<Longrightarrow>
    sr_failure report = None \<Longrightarrow>
    returns (start_loop P d by_name order t report waiting h) (loop_result order t report)"
proof (induction order arbitrary: t report waiting h)
  case Nil
  then show ?case by (simp add: loop_result_def)
next
  case (Cons n order)
  then obtain spec r where spec: "by_name n = Some spec" and r: "find_by_name t n = Some r"
    using find_by_name_iff[of n t] by auto
  show ?case
  proof (cases "waiting_dependencies spec waiting = []")
    case False
    let ?report = "report\<lparr>sr_outcomes := sr_outcomes report @ [outcome_of r n None Deferred],
        sr_pending := sr_pending report @
          [\<lparr>ds_name = n, ds_waiting_on = waiting_dependencies spec waiting\<rparr>]\<rparr>"
    have "set (waiting_dependencies spec waiting) \<subseteq> set waiting"
      by (auto simp: waiting_dependencies_def)
    with False Cons.prems have "pending_ok ?report"
      by (auto simp: pending_ok_def outcome_of_def)
    then have "returns (start_loop P d by_name order t ?report (List.insert n waiting) h)
        (loop_result order t ?report)"
      using Cons.prems by (intro Cons.IH) (auto simp: outcome_of_def)
    then have "returns (start_loop P d by_name order t ?report (List.insert n waiting) h)
        (loop_result (n # order) t report)"
    proof (rule returns_mono)
      fix x assume "loop_result order t ?report x"
      then obtain k where "loop_result order t ?report x"
          "outcome_names (fst x) = outcome_names report @ take (Suc k) (n # order)"
          "sr_failure (fst x) = None \<longrightarrow> length (n # order) \<le> Suc k"
          "sr_failure (fst x) \<noteq> None \<longrightarrow> Suc k < length (n # order)"
        by (auto simp: loop_result_def outcome_of_def)
      then show "loop_result (n # order) t report x"
        by (auto simp: loop_result_def intro!: exI[of _ "Suc k"])
    qed
    with False spec r show ?thesis by (simp add: defer_one_def Let_def)
  next
    case True
    have "returns (launch P d Register n t h) (\<lambda>(res, t', h').
        returns (case res of
            Inr outcome \<Rightarrow>
              start_loop P d by_name order t'
                (report\<lparr>sr_outcomes := sr_outcomes report @ [outcome]\<rparr>)
                (if awaits_ready_named t' n then List.insert n waiting else waiting) h'
          | Inl e \<Rightarrow> Some (report\<lparr>sr_failure := Some e\<rparr>, t', h'))
        (loop_result (n # order) t report))"
      (is "returns _ ?Q")
    proof (rule returns_mono[OF launch_returns], use Cons.prems in simp, clarify)
      fix res :: "usecase_error + start_outcome" and t' h'
      assume fr: "table_frame {n} t t'"
        and res: "case res of Inl e \<Rightarrow> table_frame {} t t'
          | Inr out \<Rightarrow> so_name out = n \<and> so_kind out \<noteq> Deferred \<and> so_kind out \<noteq> Adopted"
      show "returns (case res of
            Inr outcome \<Rightarrow>
              start_loop P d by_name order t'
                (report\<lparr>sr_outcomes := sr_outcomes report @ [outcome]\<rparr>)
                (if awaits_ready_named t' n then List.insert n waiting else waiting) h'
          | Inl e \<Rightarrow> Some (report\<lparr>sr_failure := Some e\<rparr>, t', h'))
        (loop_result (n # order) t report)"
      proof (cases res)
        case (Inl e)
        then have "table_frame (set (outcome_names report)) t t'"
          using res by (auto intro: table_frame_mono)
        with Inl Cons.prems show ?thesis
          by (auto simp: loop_result_def pending_ok_def intro!: exI[of _ 0])
      next
        case (Inr out)
        let ?report = "report\<lparr>sr_outcomes := sr_outcomes report @ [out]\<rparr>"
        let ?waiting = "if awaits_ready_named t' n then List.insert n waiting else waiting"
        have out: "so_name out = n" using res Inr by simp
        have "returns (start_loop P d by_name order t' ?report ?waiting h')
            (loop_result order t' ?report)"
          using Cons.prems out table_frame_names[OF fr]
          by (intro Cons.IH) (auto simp: pending_ok_def)
        then show ?thesis
          unfolding Inr sum.case
        proof (rule returns_mono)
          fix x assume x: "loop_result order t' ?report x"
          obtain rep1 t1 h1 where xs: "x = (rep1, t1, h1)" by (cases x)
          with x out obtain k where k: "outcome_names rep1 = outcome_names report @ take (Suc k) (n # order)"
              "sr_failure rep1 = None \<longrightarrow> length (n # order) \<le> Suc k"
              "sr_failure rep1 \<noteq> None \<longrightarrow> Suc k < length (n # order)"
            and rest: "pending_ok rep1" "sr_unsaved rep1 = sr_unsaved report"
            by (auto simp: loop_result_def)
          have "table_frame (set (outcome_names rep1)) t' t1"
            using x xs by (simp add: loop_result_def)
          then have "table_frame ({n} \<union> set (outcome_names rep1)) t t1"
            by (rule table_frame_trans[OF fr])
          moreover have "{n} \<union> set (outcome_names rep1) = set (outcome_names rep1)"
            unfolding k(1) by auto
          ultimately have "table_frame (set (outcome_names rep1)) t t1" by argo
          with k rest show "loop_result (n # order) t report x"
            unfolding xs loop_result_def split_conv by (intro conjI exI[of _ "Suc k"])
        qed
      qed
    qed
    with True spec show ?thesis by (simp add: Let_def case_prod_unfold)
  qed
qed

subsection \<open>Declaring a batch and taking it back\<close>

lemma declare_all_table: "snd (declare_all specs now t) = foldl (\<lambda>t spec. snd (upsert spec now t)) t specs"
  by (induction specs arbitrary: t) (auto simp: Let_def split: prod.splits, metis snd_conv)

lemma declare_all_names: "map fst (fst (declare_all specs now t)) = map app_name specs"
  by (induction specs arbitrary: t) (auto simp: Let_def split: prod.splits, metis fst_conv)

lemma names_upsert_set: "table_names (snd (upsert spec now t)) = insert (app_name spec) (table_names t)"
  by (auto simp: names_upsert)

lemma declared_table_names:
  "table_names (snd (declare_all specs now t)) = table_names t \<union> app_name ` set specs"
  unfolding declare_all_table
  by (induction specs arbitrary: t) (auto simp: names_upsert_set)

lemma wf_declared: "wf_table t \<Longrightarrow> wf_table (snd (declare_all specs now t))"
  unfolding declare_all_table by (rule declarations.wf_puts)

lemma find_upsert_other:
  "n \<noteq> app_name spec \<Longrightarrow> find_by_name (snd (upsert spec now t)) n = find_by_name t n"
  by (cases "find_by_name t (app_name spec)")
    (auto simp: upsert_def Let_def find_write_named find_append_record runtime_new_def split: option.splits)

lemma find_upsert_same:
  "find_by_name t (app_name spec) = Some r \<Longrightarrow>
    find_by_name (snd (upsert spec now t)) (app_name spec) = Some (r\<lparr>pr_spec := spec\<rparr>)"
  by (simp add: upsert_def find_write_named)

lemma declared_new: "(n, None) \<in> set (fst (declare_all specs now t)) \<Longrightarrow> n \<notin> table_names t"
proof (induction specs arbitrary: t)
  case (Cons spec specs)
  then consider "n = app_name spec" "find_by_name t (app_name spec) = None"
    | "(n, None) \<in> set (fst (declare_all specs now (snd (upsert spec now t))))"
    by (auto simp: Let_def split: prod.splits)
  then show ?case
    using Cons.IH[of "snd (upsert spec now t)"] by cases (auto simp: find_by_name_None names_upsert_set)
qed simp

lemma declared_priors:
  "distinct (map app_name specs) \<Longrightarrow> n \<in> app_name ` set specs \<Longrightarrow>
    map_of (fst (declare_all specs now t)) n = Some (map_option pr_spec (find_by_name t n))"
proof (induction specs arbitrary: t)
  case (Cons spec specs)
  obtain previous t' where d: "declare_all specs now (snd (upsert spec now t)) = (previous, t')"
    by (cases "declare_all specs now (snd (upsert spec now t))")
  show ?case
  proof (cases "n = app_name spec")
    case False
    then have "map_of previous n = Some (map_option pr_spec (find_by_name t n))"
      using Cons.IH[of "snd (upsert spec now t)"] Cons.prems d by (auto simp: find_upsert_other)
    with False d show ?thesis by simp
  qed (simp add: d)
qed simp

lemma declared_runtime:
  "find_by_name t n = Some r \<Longrightarrow>
    \<exists>q. find_by_name (snd (declare_all specs now t)) n = Some q \<and> pr_runtime q = pr_runtime r"
  unfolding declare_all_table
proof (induction specs arbitrary: t r)
  case (Cons spec specs)
  obtain q where "find_by_name (snd (upsert spec now t)) n = Some q" "pr_runtime q = pr_runtime r"
    using upsert_runtime[OF Cons.prems] by blast
  with Cons.IH[of "snd (upsert spec now t)" q] show ?case by simp
qed simp

lemma declared_other:
  "n \<notin> app_name ` set specs \<Longrightarrow> find_by_name (snd (declare_all specs now t)) n = find_by_name t n"
  unfolding declare_all_table
  by (induction specs arbitrary: t) (auto simp: find_upsert_other)

lemma wf_forget: "wf_table t \<Longrightarrow> wf_table (forget_unlaunched previous outcomes now t)"
  by (induction previous outcomes now t rule: forget_unlaunched.induct)
    (auto simp: wf_upsert wf_remove split: option.splits)

lemma forget_keeps:
  "wf_table t \<Longrightarrow> k \<in> table_names t \<Longrightarrow> k \<in> so_name ` set outcomes \<or> (k, None) \<notin> set previous \<Longrightarrow>
    k \<in> table_names (forget_unlaunched previous outcomes now t)"
proof (induction previous outcomes now t rule: forget_unlaunched.induct)
  case (2 n prior previous outcomes now t)
  let ?t = "if list_ex (\<lambda>outcome. so_name outcome = n) outcomes then t
        else case prior of Some spec \<Rightarrow> snd (upsert spec now t) | None \<Rightarrow> snd (remove (Name n) t)"
  have "wf_table ?t" using 2 by (auto simp: wf_upsert wf_remove split: option.splits)
  moreover have "k \<in> table_names ?t"
    using 2 by (auto simp: names_upsert_set names_remove list_ex_iff split: option.splits)
  ultimately show ?case using "2.IH" "2.prems" by auto
qed simp

lemma forget_lookup:
  "wf_table t \<Longrightarrow> distinct (map fst previous) \<Longrightarrow>
    \<forall>k s. (k, Some s) \<in> set previous \<longrightarrow> app_name s = k \<and> find_by_name t k \<noteq> None \<Longrightarrow>
    n \<notin> so_name ` set outcomes \<Longrightarrow>
    find_by_name (forget_unlaunched previous outcomes now t) n =
      (case map_of previous n of
         None \<Rightarrow> find_by_name t n
       | Some None \<Rightarrow> None
       | Some (Some s) \<Rightarrow> find_by_name (snd (upsert s now t)) n)"
proof (induction previous outcomes now t rule: forget_unlaunched.induct)
  case (2 k prior previous outcomes now t)
  let ?t = "if list_ex (\<lambda>outcome. so_name outcome = k) outcomes then t
        else case prior of Some spec \<Rightarrow> snd (upsert spec now t) | None \<Rightarrow> snd (remove (Name k) t)"
  have wf: "wf_table ?t" using "2.prems" by (auto simp: wf_upsert wf_remove split: option.splits)
  have other: "find_by_name ?t m = find_by_name t m" if "m \<noteq> k" for m
    using that "2.prems"
    by (auto simp: find_upsert_other find_remove split: option.splits)
  have IH: "find_by_name (forget_unlaunched previous outcomes now ?t) n =
      (case map_of previous n of None \<Rightarrow> find_by_name ?t n | Some None \<Rightarrow> None
       | Some (Some s) \<Rightarrow> find_by_name (snd (upsert s now ?t)) n)"
  proof (rule "2.IH"[OF wf])
    show "distinct (map fst previous)" "n \<notin> so_name ` set outcomes" using "2.prems" by simp_all
    show "\<forall>j s. (j, Some s) \<in> set previous \<longrightarrow> app_name s = j \<and> find_by_name ?t j \<noteq> None"
    proof (intro allI impI)
      fix j s assume j: "(j, Some s) \<in> set previous"
      then have "j \<noteq> k" using "2.prems"(2) by force
      from other[OF this] show "app_name s = j \<and> find_by_name ?t j \<noteq> None"
        using j "2.prems"(3) by (metis list.set_intros(2))
    qed
  qed
  show ?case
  proof (cases "n = k")
    case True
    then have none: "map_of previous n = None" and "\<not> list_ex (\<lambda>outcome. so_name outcome = k) outcomes"
      using "2.prems" by (auto simp: map_of_eq_None_iff list_ex_iff)
    then show ?thesis
      using IH True "2.prems" by (auto simp: find_remove split: option.splits)
  next
    case False
    have "find_by_name (snd (upsert s now ?t)) n = find_by_name (snd (upsert s now t)) n"
      if "map_of previous n = Some (Some s)" for s
    proof -
      have "(n, Some s) \<in> set ((k, prior) # previous)" using map_of_SomeD[OF that] by simp
      then obtain r where s: "app_name s = n" "find_by_name t n = Some r"
        using "2.prems"(3) by blast
      have "find_by_name (snd (upsert s now t)) n = Some (r\<lparr>pr_spec := s\<rparr>)"
        if "find_by_name t n = Some r" for t
        using find_upsert_same[of t s r now] s(1) that by simp
      then show ?thesis using s other[OF False] by simp
    qed
    then show ?thesis using IH False other[OF False] by (auto split: option.splits)
  qed
qed simp

subsection \<open>What \<open>start_apps\<close> guarantees\<close>

lemma start_nodes_names:
  "wf_table t \<Longrightarrow> node_names (start_nodes t specs) = app_name ` set specs \<union> table_names t"
proof -
  assume wf: "wf_table t"
  have "dn_name ` set (dependency_nodes t) = table_names t"
    using arg_cong[OF node_names_table[OF wf], of set] by simp
  moreover have "dn_name ` dependency_node_of ` set specs = app_name ` set specs"
    by (simp add: image_image dependency_node_of_def)
  moreover have "names_include specs m \<longleftrightarrow> m \<in> app_name ` set specs" for m
    by (auto simp: names_include_def list_ex_iff)
  ultimately show ?thesis by (auto simp: start_nodes_def image_Un)
qed

lemma accepted_order_defined: "\<exists>res. accepted_order t specs = Some res"
  using topo_sort_total[of "start_nodes t specs"] by (auto simp: accepted_order_def start_order_def split: sum.splits)

lemma accepted_order_names:
  "accepted_order t specs = Some (Inr order) \<Longrightarrow> set order \<subseteq> app_name ` set specs"
  by (auto simp: accepted_order_def start_order_def names_include_def list_ex_iff
      split: sum.splits bind_splits)

text \<open>The run of the loop inside \<open>start_apps\<close> on an accepted batch.\<close>

lemma start_apps_run:
  assumes wf: "wf_table t" and order: "accepted_order t specs = Some (Inr order)"
  obtains now previous t1 rep t2 h2 t3 rep3 h3 where
    "declare_all specs now t = (previous, t1)"
    "loop_result order t1 \<lparr>sr_outcomes = [], sr_failure = None, sr_unsaved = None, sr_pending = []\<rparr>
       (rep, t2, h2)"
    "t3 = (if sr_failure rep \<noteq> None
           then forget_unlaunched previous (sr_outcomes rep) now t2 else t2)"
    "start_apps P specs d t h = Some (rep3, t3, h3)"
    "sr_outcomes rep3 = sr_outcomes rep" "sr_failure rep3 = sr_failure rep"
    "sr_pending rep3 = sr_pending rep"
proof -
  let ?rep = "\<lparr>sr_outcomes = [], sr_failure = None, sr_unsaved = None, sr_pending = []\<rparr> :: start_report"
  let ?by = "map_of (rev (map (\<lambda>spec. (app_name spec, spec)) specs))"
  obtain now h1 where now: "now_ms P h = (now, h1)" by (cases "now_ms P h")
  obtain previous t1 where decl: "declare_all specs now t = (previous, t1)"
    by (cases "declare_all specs now t")
  have names: "set order \<subseteq> app_name ` set specs" by (rule accepted_order_names[OF order])
  have "table_names t1 = table_names t \<union> app_name ` set specs"
    using declared_table_names[of specs now t] decl by simp
  moreover have "\<forall>n\<in>set order. ?by n \<noteq> None"
    using names by (auto simp: map_of_eq_None_iff image_iff rev_map[symmetric])
  ultimately have "returns (start_loop P d ?by order t1 ?rep [] h1) (loop_result order t1 ?rep)"
    using names by (intro start_loop_returns) (auto simp: pending_ok_def)
  then obtain rep t2 h2 where run: "start_loop P d ?by order t1 ?rep [] h1 = Some (rep, t2, h2)"
      and res: "loop_result order t1 ?rep (rep, t2, h2)"
    by (auto simp: returns_iff)
  define t3 where "t3 = (if sr_failure rep \<noteq> None
           then forget_unlaunched previous (sr_outcomes rep) now t2 else t2)"
  have start: "start_apps P specs d t h =
      (let (saved, h) = save_table P t3 h2 in
       Some (case saved of Inl e \<Rightarrow> (rep\<lparr>sr_unsaved := Some e\<rparr>, t3, h) | Inr _ \<Rightarrow> (rep, t3, h)))"
    unfolding t3_def using order now decl run
    by (cases "sr_failure rep = None") (simp_all add: start_apps_def Let_def)
  show thesis
  proof (cases rule: save_table_cases[of P t3 h2])
    case (refused e h')
    then show ?thesis using that[OF decl res t3_def] start by simp
  next
    case (saved h')
    then show ?thesis using that[OF decl res t3_def] start by simp
  qed
qed

definition apps_ok :: "process_table \<Rightarrow> start_report \<times> process_table \<times> history \<Rightarrow> bool" where
  "apps_ok t = (\<lambda>(rep, t', h'). wf_table t' \<and> table_names t \<subseteq> table_names t' \<and>
     set (outcome_names rep) \<subseteq> table_names t' \<and> pending_ok rep)"

lemma start_apps_ok:
  assumes wf: "wf_table t"
  shows "returns (start_apps P specs d t h) (apps_ok t)"
proof (cases "accepted_order t specs")
  case None
  then show ?thesis using accepted_order_defined[of t specs] by simp
next
  case (Some res)
  show ?thesis
  proof (cases res)
    case (Inl e)
    with Some wf show ?thesis
      by (simp add: start_apps_def apps_ok_def report_refused_def pending_ok_def)
  next
    case (Inr order)
    with Some have order: "accepted_order t specs = Some (Inr order)" by simp
    show ?thesis
    proof (cases rule: start_apps_run[OF wf order, of P d h])
      case (1 now previous t1 rep t2 h2 t3 rep3 h3)
      have t1: "wf_table t1" "table_names t1 = table_names t \<union> app_name ` set specs"
        using wf_declared[OF wf, of specs now] declared_table_names[of specs now t] 1(1) by simp_all
      have loop: "table_frame (set (outcome_names rep)) t1 t2" "pending_ok rep"
        using 1(2) by (simp_all add: loop_result_def)
      obtain k where "outcome_names rep = take k order"
        using 1(2) by (auto simp: loop_result_def)
      then have sub: "set (outcome_names rep) \<subseteq> set order"
        using set_take_subset[of k order] by argo
      have t2: "wf_table t2" "table_names t2 = table_names t1"
        using table_frame_wf[OF loop(1) t1(1)] table_frame_names[OF loop(1)] by simp_all
      have old: "(k, None) \<notin> set previous" if "k \<in> table_names t" for k
        using declared_new[of k specs now t] 1(1) that by auto
      have outs: "set (outcome_names rep) \<subseteq> table_names t2"
        using sub accepted_order_names[OF order] t1(2) t2(2) by blast
      have "wf_table t3" using 1(3) t2(1) wf_forget by simp
      moreover have "table_names t \<subseteq> table_names t3"
        using 1(3) t2 t1(2) forget_keeps[OF t2(1)] old by auto
      moreover have "set (outcome_names rep) \<subseteq> table_names t3"
        using 1(3) outs forget_keeps[OF t2(1)] by auto
      ultimately show ?thesis
        using 1(4-7) loop(2) by (simp add: apps_ok_def pending_ok_def)
    qed
  qed
qed

lemma start_apps_rollback:
  assumes wf: "wf_table t" and dist: "distinct (map app_name specs)"
    and run: "start_apps P specs d t h = Some (rep, t', h')"
    and failed: "sr_failure rep \<noteq> None" and n: "n \<notin> set (outcome_names rep)"
  shows "find_by_name t' n = find_by_name t n"
proof (cases "accepted_order t specs")
  case None
  then show ?thesis using accepted_order_defined[of t specs] by simp
next
  case (Some res)
  show ?thesis
  proof (cases res)
    case (Inl e)
    with Some run show ?thesis by (simp add: start_apps_def)
  next
    case (Inr order)
    with Some have order: "accepted_order t specs = Some (Inr order)" by simp
    show ?thesis
    proof (cases rule: start_apps_run[OF wf order, of P d h])
      case (1 now previous t1 rep1 t2 h2 t3 rep3 h3)
      then have eqs: "t' = forget_unlaunched previous (sr_outcomes rep1) now t2"
          "sr_outcomes rep1 = sr_outcomes rep"
        using run failed by auto
      have t1: "wf_table t1" "table_names t1 = table_names t \<union> app_name ` set specs"
        using wf_declared[OF wf, of specs now] declared_table_names[of specs now t] 1(1) by simp_all
      have fr: "table_frame (set (outcome_names rep1)) t1 t2" using 1(2) by (simp add: loop_result_def)
      then have t2: "wf_table t2" "find_by_name t2 n = find_by_name t1 n"
          "names_in_table_order t2 = names_in_table_order t1"
        using t1 n eqs(2) by (auto simp: table_frame_def)
      have prior: "map_of previous m = (if m \<in> app_name ` set specs
          then Some (map_option pr_spec (find_by_name t m)) else None)" for m
      proof (cases "m \<in> app_name ` set specs")
        case False
        then have "m \<notin> set (map fst previous)"
          using declare_all_names[of specs now t] 1(1) by simp
        with False show ?thesis by (simp add: map_of_eq_None_iff)
      qed (use declared_priors[OF dist, of m now t] 1(1) in simp)
      have distp: "distinct (map fst previous)"
        using declare_all_names[of specs now t] dist 1(1) by simp
      have specs_old: "app_name s = k \<and> find_by_name t2 k \<noteq> None" if "(k, Some s) \<in> set previous" for k s
      proof -
        have "map_of previous k = Some (Some s)" using that distp by simp
        then obtain r where "find_by_name t k = Some r" "s = pr_spec r" "k \<in> app_name ` set specs"
          using prior[of k] by (auto split: if_splits)
        moreover from this have "k \<in> table_names t2" using t1 t2(3) by simp
        ultimately show ?thesis
          using wf_find[OF wf] find_by_name_iff[of k t2] by (auto simp: record_ok_def)
      qed
      have look: "find_by_name t' n = (case map_of previous n of None \<Rightarrow> find_by_name t2 n
          | Some None \<Rightarrow> None | Some (Some s) \<Rightarrow> find_by_name (snd (upsert s now t2)) n)"
        unfolding eqs(1) using t2(1) distp specs_old n eqs(2) by (intro forget_lookup) auto
      show ?thesis
      proof (cases "n \<in> app_name ` set specs")
        case False
        then show ?thesis using look prior t2(2) declared_other[of n specs now t] 1(1) by simp
      next
        case True
        show ?thesis
        proof (cases "find_by_name t n")
          case None
          with True look prior show ?thesis by simp
        next
          case (Some r)
          then obtain q where q: "find_by_name t1 n = Some q" "pr_runtime q = pr_runtime r"
            using declared_runtime[of t n r specs now] 1(1) by auto
          have "app_name (pr_spec r) = n" using wf_find[OF wf Some] by (simp add: record_ok_def)
          then have "find_by_name (snd (upsert (pr_spec r) now t2)) n = Some (q\<lparr>pr_spec := pr_spec r\<rparr>)"
            using find_upsert_same[of t2 "pr_spec r" q now] q(1) t2(2) by simp
          moreover have "q\<lparr>pr_spec := pr_spec r\<rparr> = r" using q(2) by simp
          ultimately show ?thesis using Some True look prior by simp
        qed
      qed
    qed
  qed
qed

end
