(* ===== verification/Stopping.thy ===== *)
theory Stopping
  imports Starting
begin

text \<open>
  \<^verbatim>\<open>usecases/src/\<close> \<^verbatim>\<open>stop.rs\<close>, \<^verbatim>\<open>delete.rs\<close>, \<^verbatim>\<open>reset.rs\<close>, \<^verbatim>\<open>restart.rs\<close> and
  \<^verbatim>\<open>signal.rs\<close>: the commands an operator gives to a service that is already in the table.
  The lemmas give the effect of every command on the table and the signals it sends, that a
  service with dependents is not deleted, and that a signal reaches only a process that was
  just seen to be the one the service was launched as.
\<close>

subsection \<open>Stopping\<close>

record stop_outcome =
  st_name :: string
  st_force_kill_pid :: "u32 option"

definition request_stop ::
  "ports \<Rightarrow> process_record \<Rightarrow> history \<Rightarrow>
   (usecase_error + stop_outcome) \<times> process_record \<times> history" where
  "request_stop P r h =
     (let name = record_name r in
      case live_pid (pr_runtime r) of
        None \<Rightarrow>
          (Inr \<lparr>st_name = name, st_force_kill_pid = None\<rparr>, on_runtime (mark_exited Stopped) r, h)
      | Some i \<Rightarrow>
          (case terminate P i ProcessGroup h of
             (Inl e, h) \<Rightarrow> (Inl (SignalErr e), r, h)
           | (Inr _, h) \<Rightarrow>
               (Inr \<lparr>st_name = name, st_force_kill_pid = Some i\<rparr>, on_runtime mark_stopping r, h)))"

definition stop_app ::
  "ports \<Rightarrow> app_selector \<Rightarrow> process_table \<Rightarrow> history \<Rightarrow>
   (usecase_error + stop_outcome) \<times> process_table \<times> history" where
  "stop_app P selector table h =
     (case require table selector of
        Inl e \<Rightarrow> (Inl e, table, h)
      | Inr r \<Rightarrow>
          let r = on_runtime disarm_schedule r;
              r = on_runtime cancel_restart r;
              (result, r, h) = request_stop P r h;
              table = write_record selector (\<lambda>_. r) table
          in case result of
               Inl e \<Rightarrow> (Inl e, table, h)
             | Inr outcome \<Rightarrow>
                 (case save_table P table h of
                    (Inl e, h) \<Rightarrow> (Inl e, table, h)
                  | (Inr _, h) \<Rightarrow> (Inr outcome, table, h)))"

fun stop_each ::
  "ports \<Rightarrow> string list \<Rightarrow> process_table \<Rightarrow> history \<Rightarrow>
   (stop_outcome list \<times> process_table \<times> history) option" where
  "stop_each P [] table h = Some ([], table, h)"
| "stop_each P (name # names) table h =
     do { r \<leftarrow> find_by_name table name;
          let r = on_runtime disarm_schedule r;
          let r = on_runtime cancel_restart r;
          if is_settled (rt_status (pr_runtime r))
          then stop_each P names (write_named name (\<lambda>_. r) table) h
          else
            do { let (result, r, h) = request_stop P r h;
                 let r = (case result of Inr _ \<Rightarrow> r | Inl _ \<Rightarrow> on_runtime mark_stopping r);
                 (stopped, table, h) \<leftarrow> stop_each P names (write_named name (\<lambda>_. r) table) h;
                 Some (case result of Inr outcome \<Rightarrow> outcome # stopped | Inl _ \<Rightarrow> stopped,
                       table, h) } }"

definition stop_all_apps ::
  "ports \<Rightarrow> process_table \<Rightarrow> history \<Rightarrow> (stop_outcome list \<times> process_table \<times> history) option"
where
  "stop_all_apps P table h =
     do { order \<leftarrow> dependency_order table;
          (stopped, table, h) \<leftarrow> stop_each P (rev order) table h;
          let (_, h) = save_table P table h;
          Some (stopped, table, h) }"

definition persist_for_handover ::
  "ports \<Rightarrow> process_table \<Rightarrow> history \<Rightarrow> (usecase_error + string list) \<times> history" where
  "persist_for_handover P table h =
     (let draining = map record_name
            (filter (\<lambda>r. is_shutting_down (rt_status (pr_runtime r))) (pt_records table))
      in case save_table P table h of
           (Inl e, h) \<Rightarrow> (Inl e, h)
         | (Inr _, h) \<Rightarrow> (Inr draining, h))"

subsection \<open>Deleting\<close>

definition dependents_of :: "process_table \<Rightarrow> string \<Rightarrow> string list" where
  "dependents_of table name =
     map record_name
       (filter (\<lambda>r. list_ex (\<lambda>dep. dep = name) (depends_on (pr_spec r))) (pt_records table))"

definition delete_one ::
  "ports \<Rightarrow> string \<Rightarrow> process_table \<Rightarrow> history \<Rightarrow>
   ((usecase_error + stop_outcome) \<times> process_table \<times> history) option" where
  "delete_one P name table h =
     do { r \<leftarrow> find_record table (Name name);
          let (result, r, h) = request_stop P r h;
          let table = write_record (Name name) (\<lambda>_. r) table;
          case result of
            Inl e \<Rightarrow> Some (Inl e, table, h)
          | Inr stopped \<Rightarrow>
              do { let (found, table) = remove (Name name) table;
                   removed \<leftarrow> found;
                   Some (case save_table P table h of
                           (Inl e, h) \<Rightarrow> (Inl e, restore removed table, h)
                         | (Inr _, h) \<Rightarrow> (Inr stopped, table, h)) } }"

definition delete_app ::
  "ports \<Rightarrow> app_selector \<Rightarrow> process_table \<Rightarrow> history \<Rightarrow>
   ((usecase_error + stop_outcome) \<times> process_table \<times> history) option" where
  "delete_app P selector table h =
     (case require table selector of
        Inl e \<Rightarrow> Some (Inl e, table, h)
      | Inr r \<Rightarrow>
          let name = record_name r; dependents = dependents_of table name in
          if dependents \<noteq> [] then Some (Inl (StillDependedOn name dependents), table, h)
          else delete_one P name table h)"

subsection \<open>Resetting, restarting and signalling\<close>

definition reset_app ::
  "ports \<Rightarrow> app_selector \<Rightarrow> process_table \<Rightarrow> history \<Rightarrow>
   (usecase_error + string) \<times> process_table \<times> history" where
  "reset_app P selector table h =
     (case require table selector of
        Inl e \<Rightarrow> (Inl e, table, h)
      | Inr r \<Rightarrow>
          let r = on_runtime reset_restarts r;
              table = write_record selector (\<lambda>_. r) table
          in case save_table P table h of
               (Inl e, h) \<Rightarrow> (Inl e, table, h)
             | (Inr _, h) \<Rightarrow> (Inr (record_name r), table, h))"

datatype restart_outcome = Started start_outcome | AwaitingExit stop_outcome

definition persist_restart :: "ports \<Rightarrow> process_table \<Rightarrow> history \<Rightarrow> history" where
  "persist_restart P table h = snd (save_table P table h)"

definition restart_app ::
  "ports \<Rightarrow> app_selector \<Rightarrow> string \<Rightarrow> process_table \<Rightarrow> history \<Rightarrow>
   ((usecase_error + restart_outcome) \<times> process_table \<times> history) option" where
  "restart_app P selector logs_dir table h =
     (case require table selector of
        Inl e \<Rightarrow> Some (Inl e, table, h)
      | Inr r \<Rightarrow>
          if is_settled (rt_status (pr_runtime r)) then
            do { (result, table, h) \<leftarrow> start_one P logs_dir (record_name r) table h;
                 Some (case result of
                         Inl e \<Rightarrow> (Inl e, table, h)
                       | Inr started \<Rightarrow> (Inr (Started started), table, persist_restart P table h)) }
          else
            let (result, r, h) = request_stop P r h in
            Some (case result of
                    Inl e \<Rightarrow> (Inl e, write_record selector (\<lambda>_. r) table, h)
                  | Inr stopped \<Rightarrow>
                      let table = write_record selector (\<lambda>_. on_runtime request_restart r) table
                      in (Inr (AwaitingExit stopped), table, persist_restart P table h)))"

record signal_outcome =
  sg_name :: string
  sg_signal :: string

definition signal_app ::
  "ports \<Rightarrow> app_selector \<Rightarrow> string \<Rightarrow> process_table \<Rightarrow> history \<Rightarrow>
   (usecase_error + signal_outcome) \<times> history" where
  "signal_app P selector raw_signal table h =
     (case parse_signal_name raw_signal of
        Inl e \<Rightarrow> (Inl (InvalidSignal e), h)
      | Inr signal \<Rightarrow>
     (case require table selector of
        Inl e \<Rightarrow> (Inl e, h)
      | Inr r \<Rightarrow>
     (case live_pid (pr_runtime r) of
        None \<Rightarrow> (Inl (NotRunning (record_name r)), h)
      | Some live \<Rightarrow>
          let expected = identity_token (pr_runtime r);
              (observed, h) = identity_of P live h;
              owns_pid = (case observed of Alive current \<Rightarrow> expected = Some current | _ \<Rightarrow> False)
          in if \<not> owns_pid then (Inl (NotRunning (record_name r)), h)
             else (case deliver P signal live ProcessGroup h of
                     (Inl e, h) \<Rightarrow> (Inl (SignalErr e), h)
                   | (Inr _, h) \<Rightarrow>
                       (Inr \<lparr>sg_name = record_name r, sg_signal = signal\<rparr>, h)))))"

subsection \<open>What the commands do\<close>

text \<open>
  \<open>stop_frame r\<close>: the result of asking the process of \<open>r\<close> to stop. The only port call is the
  signal to the pid of a process that is not settled.
\<close>

lemma request_stop_settled:
  "live_pid (pr_runtime r) = None \<Longrightarrow>
    request_stop P r h =
      (Inr \<lparr>st_name = record_name r, st_force_kill_pid = None\<rparr>, on_runtime (mark_exited Stopped) r, h)"
  by (simp add: request_stop_def Let_def)

lemma request_stop_live:
  "live_pid (pr_runtime r) = Some i \<Longrightarrow>
    request_stop P r h =
      (case p_terminate P h i ProcessGroup of
         Inl e \<Rightarrow> (Inl (SignalErr e), r, h @ [TerminateEv i ProcessGroup (Inl e)])
       | Inr _ \<Rightarrow>
           (Inr \<lparr>st_name = record_name r, st_force_kill_pid = Some i\<rparr>,
            on_runtime mark_stopping r, h @ [TerminateEv i ProcessGroup (Inr ())]))"
  by (auto simp: request_stop_def terminate_def Let_def split: sum.splits)

definition stop_frame ::
  "process_record \<Rightarrow> (usecase_error + stop_outcome) \<times> process_record \<times> history \<Rightarrow> bool" where
  "stop_frame r = (\<lambda>(res, r', h').
     record_name r' = record_name r \<and> pr_spec r' = pr_spec r \<and>
     (runtime_ok (pr_runtime r) \<longrightarrow> runtime_ok (pr_runtime r')) \<and>
     (case res of
        Inl e \<Rightarrow> r' = r \<and> live_pid (pr_runtime r) \<noteq> None
      | Inr out \<Rightarrow> st_name out = record_name r \<and> \<not> is_running (rt_status (pr_runtime r')) \<and>
          st_force_kill_pid out = live_pid (pr_runtime r)))"

lemma request_stop_frame: "stop_frame r (request_stop P r h)"
proof (cases "live_pid (pr_runtime r)")
  case None
  then show ?thesis
    by (simp add: request_stop_settled stop_frame_def on_runtime_def runtime_ok_exited)
      (simp add: mark_exited_def)
next
  case (Some i)
  then have "rt_pid (pr_runtime r) = Some i" by (simp add: live_pid_def split: if_splits)
  then have "runtime_ok (mark_stopping (pr_runtime r))" using runtime_ok_pid by simp
  moreover have "\<not> is_running (rt_status (mark_stopping (pr_runtime r)))"
    by (simp add: mark_stopping_def)
  ultimately show ?thesis
    using Some by (simp add: request_stop_live stop_frame_def on_runtime_def split: sum.splits)
qed

lemma require_cases:
  "require t s = (case find_record t s of Some r \<Rightarrow> Inr r | None \<Rightarrow> Inl (NotFound (selector_to_string s)))"
  by (simp add: require_def)

lemma frame_write_selected:
  assumes "wf_table t" and "find_record t s = Some r"
    and "record_name r' = record_name r" and "pr_spec r' = pr_spec r"
    and "runtime_ok (pr_runtime r) \<longrightarrow> runtime_ok (pr_runtime r')"
  shows "table_frame {record_name r} t (write_record s (\<lambda>_. r') t)"
    and "find_by_name (write_record s (\<lambda>_. r') t) (record_name r) = Some r'"
proof -
  note named = find_record_named[OF assms(1,2)]
  show "table_frame {record_name r} t (write_record s (\<lambda>_. r') t)"
    unfolding write_record_named[OF assms(1,2)] by (rule table_frame_write[OF named assms(3-5)])
  show "find_by_name (write_record s (\<lambda>_. r') t) (record_name r) = Some r'"
    unfolding write_record_named[OF assms(1,2)]
    using named assms(3) by (simp add: find_write_named)
qed

text \<open>What \<open>stop_app\<close> leaves of the record it stops, whether or not the signal was accepted.\<close>

lemma stop_app_effect:
  assumes wf: "wf_table t" and r: "find_record t s = Some r"
    and run: "stop_app P s t h = (res, t', h')"
  shows "\<exists>r'. find_by_name t' (record_name r) = Some r' \<and> table_frame {record_name r} t t' \<and>
    \<not> pending_restart (pr_runtime r') \<and> \<not> supervised_restart (pr_runtime r') \<and>
    \<not> schedule_armed (pr_runtime r') \<and>
    (\<forall>out. res = Inr out \<longrightarrow> \<not> is_running (rt_status (pr_runtime r')) \<and> st_name out = record_name r \<and>
       st_force_kill_pid out = live_pid (pr_runtime r))"
proof -
  define r1 where "r1 = on_runtime cancel_restart (on_runtime disarm_schedule r)"
  have r1: "record_name r1 = record_name r" "pr_spec r1 = pr_spec r"
      "runtime_ok (pr_runtime r) \<longrightarrow> runtime_ok (pr_runtime r1)"
      "live_pid (pr_runtime r1) = live_pid (pr_runtime r)"
      "\<not> pending_restart (pr_runtime r1)" "\<not> supervised_restart (pr_runtime r1)"
      "\<not> schedule_armed (pr_runtime r1)"
    by (simp_all add: r1_def on_runtime_def)
      (simp_all add: live_pid_def cancel_restart_def disarm_schedule_def)
  obtain result r2 h1 where stop: "request_stop P r1 h = (result, r2, h1)"
    by (cases "request_stop P r1 h")
  have fr: "stop_frame r1 (result, r2, h1)" using request_stop_frame[of r1 P h] stop by simp
  have flags: "\<not> pending_restart (pr_runtime r2) \<and> \<not> supervised_restart (pr_runtime r2) \<and>
      \<not> schedule_armed (pr_runtime r2)"
    using stop r1 by (auto simp: request_stop_def Let_def on_runtime_def mark_exited_def
        mark_stopping_def split: option.splits prod.splits sum.splits)
  let ?t = "write_record s (\<lambda>_. r2) t"
  have t': "t' = ?t"
    using run r stop by (auto simp: stop_app_def require_cases r1_def Let_def
        split: sum.splits prod.splits)
  have res: "\<forall>out. res = Inr out \<longrightarrow> result = Inr out"
    using run r stop by (auto simp: stop_app_def require_cases r1_def Let_def
        split: sum.splits prod.splits)
  have shape: "record_name r2 = record_name r" "pr_spec r2 = pr_spec r"
      "runtime_ok (pr_runtime r) \<longrightarrow> runtime_ok (pr_runtime r2)"
    using fr r1 by (auto simp: stop_frame_def)
  show ?thesis
    using frame_write_selected[OF wf r shape] flags fr res r1 t'
    by (auto simp: stop_frame_def)
qed

lemma stop_app_frame:
  assumes "wf_table t"
  shows "table_frame UNIV t (fst (snd (stop_app P s t h)))"
proof (cases "find_record t s")
  case None
  then show ?thesis by (simp add: stop_app_def require_cases)
next
  case (Some r)
  then show ?thesis
    using stop_app_effect[OF assms Some, of P h] by (cases "stop_app P s t h") (auto intro: table_frame_mono)
qed

lemma reset_app_frame:
  assumes "wf_table t"
  shows "table_frame UNIV t (fst (snd (reset_app P s t h)))"
proof (cases "find_record t s")
  case None
  then show ?thesis by (simp add: reset_app_def require_cases)
next
  case (Some r)
  have "table_frame {record_name r} t (write_record s (\<lambda>_. on_runtime reset_restarts r) t)"
    by (rule frame_write_selected[OF assms Some])
      (simp_all add: on_runtime_def runtime_ok_reset)
  then show ?thesis
    using Some by (auto simp: reset_app_def require_cases Let_def intro: table_frame_mono
        split: sum.splits prod.splits)
qed

definition same_result_name :: "string \<Rightarrow> usecase_error + restart_outcome \<Rightarrow> bool" where
  "same_result_name n res \<longleftrightarrow>
     (case res of
        Inl e \<Rightarrow> True
      | Inr (Started out) \<Rightarrow> so_name out = n
      | Inr (AwaitingExit out) \<Rightarrow> st_name out = n)"

lemma restart_app_frame:
  assumes wf: "wf_table t"
  shows "returns (restart_app P s d t h) (\<lambda>(res, t', h'). table_frame UNIV t t' \<and>
    (\<forall>r. find_record t s = Some r \<longrightarrow> same_result_name (record_name r) res) \<and>
    (find_record t s = None \<longrightarrow> (\<exists>e. res = Inl e)))"
proof (cases "find_record t s")
  case None
  then show ?thesis by (simp add: restart_app_def require_cases)
next
  case (Some r)
  show ?thesis
  proof (cases "is_settled (rt_status (pr_runtime r))")
    case True
    have "record_name r \<in> table_names t" using find_record_Some[OF Some] by simp
    from launch_returns[OF this, of P d Fire h]
    have "returns (launch P d Fire (record_name r) t h) (\<lambda>(res, t', h').
        table_frame UNIV t t' \<and> (\<forall>out. res = Inr out \<longrightarrow> so_name out = record_name r))"
      by (rule returns_mono) (auto intro: table_frame_mono)
    then obtain res t1 h1 where "launch P d Fire (record_name r) t h = Some (res, t1, h1)"
        "table_frame UNIV t t1" "\<forall>out. res = Inr out \<longrightarrow> so_name out = record_name r"
      by (auto simp: returns_iff)
    then show ?thesis
      using True Some
      by (cases res) (simp_all add: restart_app_def require_cases start_one_def same_result_name_def)
  next
    case False
    obtain res r1 h1 where stop: "request_stop P r h = (res, r1, h1)" by (cases "request_stop P r h")
    then have fr: "stop_frame r (res, r1, h1)" using request_stop_frame[of r P h] by simp
    have "table_frame {record_name r} t (write_record s (\<lambda>_. r1) t)"
      using fr by (intro frame_write_selected[OF wf Some]) (auto simp: stop_frame_def)
    moreover have "table_frame {record_name r} t (write_record s (\<lambda>_. on_runtime request_restart r1) t)"
      using fr by (intro frame_write_selected[OF wf Some]) (auto simp: stop_frame_def on_runtime_def)
    ultimately show ?thesis
      using False Some stop fr
      by (auto simp: restart_app_def require_cases same_result_name_def stop_frame_def Let_def
          intro: table_frame_mono split: sum.splits)
  qed
qed

subsection \<open>Deletion\<close>

definition delete_ok ::
  "string \<Rightarrow> process_table \<Rightarrow> (usecase_error + stop_outcome) \<times> process_table \<times> history \<Rightarrow> bool"
where
  "delete_ok n t = (\<lambda>(res, t', h'). wf_table t' \<and>
     (case res of
        Inl e \<Rightarrow> table_names t' = table_names t
      | Inr out \<Rightarrow> st_name out = n \<and> table_names t' = table_names t - {n}))"

lemma delete_one_returns:
  assumes wf: "wf_table t" and n: "n \<in> table_names t"
  shows "returns (delete_one P n t h) (delete_ok n t)"
proof -
  obtain r where r: "find_record t (Name n) = Some r" "record_name r = n"
    using n find_by_name_iff[of n t] wf_find[OF wf] by (auto simp: find_record_name)
  obtain res r1 h1 where stop: "request_stop P r h = (res, r1, h1)" by (cases "request_stop P r h")
  then have fr: "stop_frame r (res, r1, h1)" using request_stop_frame[of r P h] by simp
  define t1 where "t1 = write_record (Name n) (\<lambda>_. r1) t"
  have t1: "table_frame {n} t t1" "find_by_name t1 n = Some r1"
    using fr frame_write_selected[OF wf r(1), of r1] r(2) by (auto simp: stop_frame_def t1_def)
  have wf1: "wf_table t1" "table_names t1 = table_names t"
    using table_frame_wf[OF t1(1) wf] table_frame_names[OF t1(1)] by simp_all
  show ?thesis
  proof (cases res)
    case (Inl e)
    then show ?thesis
      using r stop wf1 by (simp add: delete_one_def delete_ok_def Let_def t1_def[symmetric])
  next
    case (Inr out)
    obtain t2 where t2: "remove (Name n) t1 = (Some r1, t2)"
      using remove_named_result[of n t1] t1(2) by (cases "remove (Name n) t1") auto
    then have wf2: "wf_table t2" "table_names t2 = table_names t - {n}"
      using wf_remove[OF wf1(1), of n] names_remove[OF wf1(1), of n] wf1(2) by simp_all
    have ok1: "record_ok r1" "record_name r1 = n" using wf_find[OF wf1(1) t1(2)] by simp_all
    then have "wf_table (restore r1 t2)" "table_names (restore r1 t2) = table_names t"
      using wf2 n wf_restore[OF wf2(1)] by (auto simp: names_restore)
    then show ?thesis
      using r stop Inr t2 wf2 fr
      by (cases rule: save_table_cases[of P t2 h1])
        (simp_all add: delete_one_def delete_ok_def Let_def t1_def[symmetric] stop_frame_def)
  qed
qed

lemma delete_app_returns:
  assumes wf: "wf_table t"
  shows "returns (delete_app P s t h) (\<lambda>(res, t', h'). wf_table t' \<and>
    (case res of
       Inl e \<Rightarrow> table_names t' = table_names t
     | Inr out \<Rightarrow> st_name out \<in> table_names t \<and> dependents_of t (st_name out) = [] \<and>
         table_names t' = table_names t - {st_name out}))"
proof (cases "find_record t s")
  case None
  then show ?thesis using wf by (simp add: delete_app_def require_cases)
next
  case (Some r)
  then have n: "record_name r \<in> table_names t" using find_record_Some by blast
  show ?thesis
  proof (cases "dependents_of t (record_name r) = []")
    case True
    from delete_one_returns[OF wf n, of P h]
    have "returns (delete_one P (record_name r) t h) (\<lambda>(res, t', h'). wf_table t' \<and>
        (case res of
           Inl e \<Rightarrow> table_names t' = table_names t
         | Inr out \<Rightarrow> st_name out \<in> table_names t \<and> dependents_of t (st_name out) = [] \<and>
             table_names t' = table_names t - {st_name out}))"
      by (rule returns_mono) (use True n in \<open>auto simp: delete_ok_def split: sum.splits\<close>)
    with True Some show ?thesis by (simp add: delete_app_def require_cases Let_def)
  next
    case False
    with Some wf show ?thesis by (simp add: delete_app_def require_cases Let_def)
  qed
qed

subsection \<open>Signals\<close>

lemma signal_app_cases:
  obtains (silent) e h' where "signal_app P s raw t h = (Inl e, h')" "signals h' = signals h"
  | (delivered) res r i tok signal r' where
      "signal_app P s raw t h =
         (res, h @ [IdentityEv i (Alive tok), DeliverEv signal i ProcessGroup r'])"
      "parse_signal_name raw = Inr signal" "find_record t s = Some r"
      "live_pid (pr_runtime r) = Some i" "identity_token (pr_runtime r) = Some tok"
      "p_identity P h i = Alive tok"
proof (cases "parse_signal_name raw")
  case (Inl e)
  then show thesis by (intro silent) (simp_all add: signal_app_def)
next
  case signal: (Inr signal)
  show thesis
  proof (cases "find_record t s")
    case None
    with signal show thesis by (intro silent) (simp_all add: signal_app_def require_cases)
  next
    case r: (Some r)
    show thesis
    proof (cases "live_pid (pr_runtime r)")
      case None
      with signal r show thesis by (intro silent) (simp_all add: signal_app_def require_cases)
    next
      case i: (Some i)
      show thesis
      proof (cases "\<exists>tok. p_identity P h i = Alive tok \<and> identity_token (pr_runtime r) = Some tok")
        case True
        then obtain tok where
          tok: "p_identity P h i = Alive tok" "identity_token (pr_runtime r) = Some tok"
          by blast
        let ?sent = "p_deliver P (h @ [IdentityEv i (Alive tok)]) signal i ProcessGroup"
        let ?res = "case ?sent of Inl e \<Rightarrow> Inl (SignalErr e)
          | Inr _ \<Rightarrow> Inr \<lparr>sg_name = record_name r, sg_signal = signal\<rparr>"
        from tok signal r i show thesis
          by (intro delivered[of ?res i tok signal ?sent r])
            (simp_all add: signal_app_def require_cases identity_of_def deliver_def Let_def
              split: sum.splits)
      next
        case False
        with signal r i show thesis
          by (intro silent[of "NotRunning (record_name r)" "h @ [IdentityEv i (p_identity P h i)]"];
              cases "p_identity P h i")
            (auto simp: signal_app_def require_cases identity_of_def Let_def)
      qed
    qed
  qed
qed

end
