(* ===== verification/Exits.thy ===== *)
theory Exits
  imports Stopping
begin

text \<open>
  \<^verbatim>\<open>usecases/src/supervise.rs\<close>, what the exit of a process means for its record, and
  \<^verbatim>\<open>query.rs\<close>, what the supervisor reads from the table. The lemmas give every branch of the
  classification of an exit, that a crash loop ends after \<open>max_restarts\<close> unstable restarts, and
  what the watch lists hold.
\<close>

subsection \<open>The exit of a process\<close>

datatype exit_action =
    RestartAfter u64
  | Settled process_status bool

definition stops_on_this_code :: "process_record \<Rightarrow> exit_outcome \<Rightarrow> bool" where
  "stops_on_this_code r outcome \<longleftrightarrow>
     (case outcome of Code code \<Rightarrow> stops_on (pr_spec r) code | _ \<Rightarrow> False)"

definition settle_without_the_breaker ::
  "process_record \<Rightarrow> exit_outcome \<Rightarrow> exit_action option \<times> process_record" where
  "settle_without_the_breaker r outcome =
     (let was_stopping = is_shutting_down (rt_status (pr_runtime r));
          supervised = takes_the_breaker (pr_runtime r);
          (requested, rt) = take_restart_request (pr_runtime r);
          r = r\<lparr>pr_runtime := rt\<rparr>
      in if requested then
           (if supervised then (None, r) else (Some (RestartAfter 0), r))
         else if was_stopping \<or> stops_on_this_code r outcome then (Some (Settled Stopped False), r)
         else (None, r))"

definition settled_status :: "exit_outcome \<Rightarrow> process_status" where
  "settled_status outcome = (if exit_failed outcome then Errored else Stopped)"

definition set_unstable_restarts :: "u32 \<Rightarrow> process_runtime \<Rightarrow> process_runtime" where
  "set_unstable_restarts n rt = rt\<lparr>unstable_restarts := n\<rparr>"

definition classify_record ::
  "process_record \<Rightarrow> exit_outcome \<Rightarrow> u64 \<Rightarrow> exit_action \<times> process_record" where
  "classify_record r outcome now =
     (case settle_without_the_breaker r outcome of
        (Some settled, r) \<Rightarrow> (settled, on_runtime (mark_exited Stopped) r)
      | (None, r) \<Rightarrow>
          (case decide_restart (restart_policy_of (pr_spec r))
                  (elapsed_since_launch_ms (pr_runtime r) now) (unstable_restarts (pr_runtime r)) of
             Restart delay unstable \<Rightarrow>
               (RestartAfter delay,
                on_runtime (count_restart unstable) (on_runtime (mark_exited Stopped) r))
           | GiveUp unstable \<Rightarrow>
               let status = settled_status outcome in
               (Settled status (outcome \<noteq> Code 0),
                on_runtime (set_unstable_restarts unstable) (on_runtime (mark_exited status) r))))"

definition classify_exit ::
  "string \<Rightarrow> exit_outcome \<Rightarrow> u64 \<Rightarrow> process_table \<Rightarrow> (exit_action \<times> process_table) option" where
  "classify_exit name outcome now table =
     do { r \<leftarrow> find_by_name table name;
          let (action, r) = classify_record r outcome now;
          Some (action, write_named name (\<lambda>_. r) table) }"

definition handle_child_exit ::
  "ports \<Rightarrow> string \<Rightarrow> exit_outcome \<Rightarrow> process_table \<Rightarrow> history \<Rightarrow>
   (exit_action \<times> process_table \<times> history) option" where
  "handle_child_exit P name outcome table h =
     do { let (now, h) = now_ms P h;
          (action, table) \<leftarrow> classify_exit name outcome now table;
          let (_, h) = save_table P table h;
          Some (action, table, h) }"

definition settle_failed_probe ::
  "ports \<Rightarrow> string \<Rightarrow> process_table \<Rightarrow> history \<Rightarrow>
   ((usecase_error + unit) \<times> process_table \<times> history) option" where
  "settle_failed_probe P name table h =
     do { r \<leftarrow> find_by_name table name;
          let table = write_named name (\<lambda>_. on_runtime (mark_exited Errored) r) table;
          let (saved, h) = save_table P table h;
          Some (saved, table, h) }"

subsection \<open>Queries\<close>

definition STRAY_LABEL :: string where "STRAY_LABEL = ''stray''"

definition list_apps :: "process_table \<Rightarrow> u64 \<Rightarrow> process_view list" where
  "list_apps table now = map (\<lambda>r. view r now) (pt_records table)"

definition describe_app :: "process_table \<Rightarrow> app_selector \<Rightarrow> u64 \<Rightarrow> usecase_error + process_view"
where
  "describe_app table selector now =
     (case require table selector of Inl e \<Rightarrow> Inl e | Inr r \<Rightarrow> Inr (view r now))"

definition running_pids :: "process_table \<Rightarrow> u32 list" where
  "running_pids table =
     filter_map (\<lambda>r. rt_pid (pr_runtime r))
       (filter (\<lambda>r. is_running (rt_status (pr_runtime r))) (pt_records table))"

record memory_watch =
  mw_name :: string
  mw_pid :: u32
  mw_limit_kib :: u64

definition memory_watch_list :: "process_table \<Rightarrow> memory_watch list" where
  "memory_watch_list table =
     filter_map (\<lambda>r. do { i \<leftarrow> rt_pid (pr_runtime r); limit \<leftarrow> max_memory_kib (pr_spec r);
                          Some \<lparr>mw_name = record_name r, mw_pid = i, mw_limit_kib = limit\<rparr> })
       (filter (\<lambda>r. is_running (rt_status (pr_runtime r))) (pt_records table))"

record memory_breach =
  mb_name :: string
  mb_rss_kib :: u64
  mb_limit_kib :: u64

definition breached_memory :: "memory_watch list \<Rightarrow> (u32 \<times> u64) list \<Rightarrow> memory_breach list" where
  "breached_memory watched sampled =
     filter_map (\<lambda>watch. do { rss \<leftarrow> map_of sampled (mw_pid watch);
          if breaches_memory_limit (mw_limit_kib watch) rss
          then Some \<lparr>mb_name = mw_name watch, mb_rss_kib = rss, mb_limit_kib = mw_limit_kib watch\<rparr>
          else None }) watched"

definition unsettled_count :: "process_table \<Rightarrow> nat" where
  "unsettled_count table =
     length (filter (\<lambda>r. \<not> is_settled (rt_status (pr_runtime r))) (pt_records table))"

definition armed_schedule_names :: "process_table \<Rightarrow> string list" where
  "armed_schedule_names table =
     map record_name
       (filter (\<lambda>r. schedule (pr_spec r) \<noteq> None \<and> schedule_armed (pr_runtime r)) (pt_records table))"

definition schedule_of :: "process_table \<Rightarrow> string \<Rightarrow> string option" where
  "schedule_of table name =
     Option.bind (find_by_name table name) (\<lambda>r. schedule (pr_spec r))"

definition identity_token_of :: "process_table \<Rightarrow> app_selector \<Rightarrow> string option" where
  "identity_token_of table selector =
     Option.bind (find_record table selector) (\<lambda>r. identity_token (pr_runtime r))"

definition unswept_pids :: "u32 list \<Rightarrow> u32 list \<Rightarrow> u32 list" where
  "unswept_pids tracked scheduled = filter (\<lambda>i. \<not> List.member scheduled i) tracked"

definition owner_of_pid :: "process_table \<Rightarrow> u32 \<Rightarrow> string \<times> string option" where
  "owner_of_pid table i =
     (case find (\<lambda>r. rt_pid (pr_runtime r) = Some i) (pt_records table) of
        None \<Rightarrow> (STRAY_LABEL @ ''-'' @ show_word i, None)
      | Some r \<Rightarrow> (record_name r, identity_token (pr_runtime r)))"

definition hand_to_the_breaker :: "process_record \<Rightarrow> process_record" where
  "hand_to_the_breaker r =
     (if pending_restart (pr_runtime r) then on_runtime request_supervised_restart r else r)"

record liveness_watch =
  lw_name :: string
  lw_probe :: ready_probe

definition liveness_watch_list :: "process_table \<Rightarrow> liveness_watch list" where
  "liveness_watch_list table =
     filter_map (\<lambda>r. do { probe \<leftarrow> liveness_probe (pr_spec r);
                          Some \<lparr>lw_name = record_name r, lw_probe = probe\<rparr> })
       (filter (\<lambda>r. autorestart (pr_spec r))
         (filter (\<lambda>r. rt_status (pr_runtime r) = Online) (pt_records table)))"

definition record_liveness :: "process_record \<Rightarrow> readiness \<Rightarrow> u32 \<Rightarrow> bool \<times> process_record" where
  "record_liveness r verdict threshold =
     (if (case verdict of Ready \<Rightarrow> True | _ \<Rightarrow> False)
      then (False, on_runtime pass_liveness r)
      else let (tripped, rt) = fail_liveness threshold (pr_runtime r)
           in (tripped, r\<lparr>pr_runtime := rt\<rparr>))"

definition stability_is_settled :: "process_record \<Rightarrow> u64 \<Rightarrow> bool" where
  "stability_is_settled r now \<longleftrightarrow>
     (if unstable_restarts (pr_runtime r) = 0 then False
      else case elapsed_since_launch_ms (pr_runtime r) now of
             None \<Rightarrow> False
           | Some elapsed \<Rightarrow> min_uptime_ms (pr_spec r) \<le> elapsed)"

definition settle_stability_all :: "process_table \<Rightarrow> u64 \<Rightarrow> string list \<times> process_table" where
  "settle_stability_all table now =
     (map record_name (filter (\<lambda>r. stability_is_settled r now) (pt_records table)),
      table\<lparr>pt_records := map (\<lambda>r. if stability_is_settled r now
                                    then on_runtime settle_stability r else r) (pt_records table)\<rparr>)"

subsection \<open>The branches of an exit\<close>

lemmas classify_defs = classify_record_def settle_without_the_breaker_def take_restart_request_def
  takes_the_breaker_def on_runtime_def Let_def

lemma stops_on_this_code_runtime [simp]:
  "stops_on_this_code (r\<lparr>pr_runtime := rt\<rparr>) outcome = stops_on_this_code r outcome"
  by (cases outcome) (simp_all add: stops_on_this_code_def)

lemma classify_requested:
  "pending_restart (pr_runtime r) \<Longrightarrow> \<not> supervised_restart (pr_runtime r) \<Longrightarrow>
    classify_record r outcome now =
      (RestartAfter 0, on_runtime (\<lambda>rt. mark_exited Stopped (cancel_restart rt)) r)"
  by (simp add: classify_defs)

lemma classify_stopped:
  "\<not> pending_restart (pr_runtime r) \<Longrightarrow>
    is_shutting_down (rt_status (pr_runtime r)) \<or> stops_on_this_code r outcome \<Longrightarrow>
    classify_record r outcome now =
      (Settled Stopped False, on_runtime (\<lambda>rt. mark_exited Stopped (cancel_restart rt)) r)"
  by (simp add: classify_defs)

definition takes_breaker :: "process_record \<Rightarrow> exit_outcome \<Rightarrow> bool" where
  "takes_breaker r outcome \<longleftrightarrow>
     (if pending_restart (pr_runtime r) then supervised_restart (pr_runtime r)
      else \<not> is_shutting_down (rt_status (pr_runtime r)) \<and> \<not> stops_on_this_code r outcome)"

lemma classify_breaker:
  "takes_breaker r outcome \<Longrightarrow>
    classify_record r outcome now =
      (case decide_restart (restart_policy_of (pr_spec r))
              (elapsed_since_launch_ms (pr_runtime r) now) (unstable_restarts (pr_runtime r)) of
         Restart delay unstable \<Rightarrow>
           (RestartAfter delay,
            on_runtime (\<lambda>rt. count_restart unstable (mark_exited Stopped (cancel_restart rt))) r)
       | GiveUp unstable \<Rightarrow>
           (Settled (settled_status outcome) (outcome \<noteq> Code 0),
            on_runtime (\<lambda>rt. set_unstable_restarts unstable
              (mark_exited (settled_status outcome) (cancel_restart rt))) r))"
proof -
  assume br: "takes_breaker r outcome"
  have "elapsed_since_launch_ms (cancel_restart rt) now = elapsed_since_launch_ms rt now"
      "unstable_restarts (cancel_restart rt) = unstable_restarts rt" for rt
    by (simp_all add: elapsed_since_launch_ms_def since_start_def cancel_restart_def)
  then show ?thesis
    using br by (auto simp: takes_breaker_def classify_defs split: if_splits restart_decision.splits)
qed

lemma classify_cases:
  obtains (requested) "pending_restart (pr_runtime r)" "\<not> supervised_restart (pr_runtime r)"
  | (stopped) "\<not> pending_restart (pr_runtime r)"
      "is_shutting_down (rt_status (pr_runtime r)) \<or> stops_on_this_code r outcome"
  | (breaker) "takes_breaker r outcome"
  unfolding takes_breaker_def by (cases "pending_restart (pr_runtime r)") argo+

lemma settled_status_settled [simp]: "is_settled (settled_status outcome)"
  by (simp add: settled_status_def)

text \<open>
  Whatever the branch: the record keeps its names and declaration, is settled, has no pid and
  no restart request left, and agrees with the action on whether it is restarted.
\<close>

definition exited_ok :: "process_record \<Rightarrow> exit_action \<times> process_record \<Rightarrow> bool" where
  "exited_ok r = (\<lambda>(action, r').
     record_name r' = record_name r \<and> pr_spec r' = pr_spec r \<and>
     is_settled (rt_status (pr_runtime r')) \<and> rt_pid (pr_runtime r') = None \<and>
     runtime_ok (pr_runtime r') \<and>
     \<not> pending_restart (pr_runtime r') \<and> \<not> supervised_restart (pr_runtime r') \<and>
     (case action of
        RestartAfter delay \<Rightarrow> rt_status (pr_runtime r') = Stopped
      | Settled status alarming \<Rightarrow> rt_status (pr_runtime r') = status))"

lemma classify_record_ok: "exited_ok r (classify_record r outcome now)"
proof (cases rule: classify_cases[where r = r and outcome = outcome])
  case requested
  then show ?thesis
    by (simp add: classify_requested exited_ok_def on_runtime_def)
      (simp add: mark_exited_def cancel_restart_def runtime_ok_def)
next
  case stopped
  then show ?thesis
    by (simp add: classify_stopped exited_ok_def on_runtime_def)
      (simp add: mark_exited_def cancel_restart_def runtime_ok_def)
next
  case breaker
  then show ?thesis
    by (auto simp: classify_breaker exited_ok_def on_runtime_def mark_exited_def cancel_restart_def
        count_restart_def set_unstable_restarts_def runtime_ok_def split: restart_decision.splits)
qed

lemma handle_child_exit_returns:
  assumes "n \<in> table_names t"
  shows "returns (handle_child_exit P n outcome t h) (\<lambda>(action, t', h'). table_frame {n} t t' \<and>
    (\<exists>r r' now. find_by_name t n = Some r \<and> find_by_name t' n = Some r' \<and>
       classify_record r outcome now = (action, r')) \<and>
    signals h' = signals h \<and> spawns h' = spawns h)"
proof -
  obtain r where r: "find_by_name t n = Some r" using assms find_by_name_iff by auto
  obtain now h1 where now: "now_ms P h = (now, h1)" "signals h1 = signals h" "spawns h1 = spawns h"
    by (simp add: now_ms_def Let_def)
  obtain action r' where c: "classify_record r outcome now = (action, r')"
    by (cases "classify_record r outcome now")
  then have ok: "exited_ok r (action, r')" using classify_record_ok[of r outcome now] by simp
  have fr: "table_frame {n} t (write_named n (\<lambda>_. r') t)"
    using ok by (intro table_frame_write[OF r]) (auto simp: exited_ok_def)
  have "find_by_name (write_named n (\<lambda>_. r') t) n = Some r'"
    using r find_by_name_Some[OF r] ok by (simp add: find_write_named exited_ok_def)
  then show ?thesis
    using r now c fr
    by (simp add: handle_child_exit_def classify_exit_def case_prod_unfold) blast
qed

lemma settle_failed_probe_returns:
  assumes "n \<in> table_names t"
  shows "returns (settle_failed_probe P n t h) (\<lambda>(res, t', h'). table_frame {n} t t' \<and>
    signals h' = signals h \<and> spawns h' = spawns h)"
proof -
  obtain r where r: "find_by_name t n = Some r" using assms find_by_name_iff by auto
  have "table_frame {n} t (write_named n (\<lambda>_. on_runtime (mark_exited Errored) r) t)"
    by (intro table_frame_write[OF r]) (simp_all add: on_runtime_def runtime_ok_exited)
  then show ?thesis
    using r
    by (simp add: settle_failed_probe_def case_prod_unfold Let_def)
qed

subsection \<open>A crash loop ends\<close>

text \<open>
  A round launches the service and sees it exit: the pid and identity of the launch, the times
  of launch and exit, and the outcome.
\<close>

type_synonym crash = "u32 \<times> process_identity option \<times> u64 \<times> u64 \<times> exit_outcome"

fun crash_rounds :: "crash list \<Rightarrow> process_record \<Rightarrow> exit_action list \<times> process_record" where
  "crash_rounds [] r = ([], r)"
| "crash_rounds ((i, idt, started, now, outcome) # rounds) r =
     (let (action, r) =
            classify_record (on_runtime (started_runtime (pr_spec r) i started idt) r) outcome now;
          (actions, r) = crash_rounds rounds r
      in (action # actions, r))"

definition is_crash :: "app_spec \<Rightarrow> crash \<Rightarrow> bool" where
  "is_crash spec = (\<lambda>(i, idt, started, now, outcome).
     started \<le> now \<and> now - started < min_uptime_ms spec \<and> exit_failed outcome \<and>
     (case outcome of Code code \<Rightarrow> \<not> stops_on spec code | _ \<Rightarrow> True))"

definition restart_delay :: "app_spec \<Rightarrow> u32 \<Rightarrow> u64" where
  "restart_delay spec n = backoff_delay (restart_delay_ms spec) (max_restart_delay_ms spec) n"

lemma crash_round:
  assumes "autorestart (pr_spec r)" and "unstable_restarts (pr_runtime r) < max_restarts (pr_spec r)"
    and "\<not> pending_restart (pr_runtime r)" and "is_crash (pr_spec r) (i, idt, started, now, outcome)"
  shows "\<exists>r'. classify_record (on_runtime (started_runtime (pr_spec r) i started idt) r) outcome now =
      (if unstable_restarts (pr_runtime r) + 1 = max_restarts (pr_spec r)
       then Settled Errored True
       else RestartAfter (restart_delay (pr_spec r) (unstable_restarts (pr_runtime r) + 1)), r') \<and>
    pr_spec r' = pr_spec r \<and> \<not> pending_restart (pr_runtime r') \<and>
    unstable_restarts (pr_runtime r') = unstable_restarts (pr_runtime r) + 1 \<and>
    (unstable_restarts (pr_runtime r) + 1 = max_restarts (pr_spec r) \<longrightarrow>
       rt_status (pr_runtime r') = Errored)"
proof -
  let ?rt = "started_runtime (pr_spec r) i started idt (pr_runtime r)"
  let ?r = "on_runtime (started_runtime (pr_spec r) i started idt) r"
  have rt: "\<not> is_shutting_down (rt_status ?rt)" "\<not> is_settled (rt_status ?rt)"
      "started_at_ms ?rt = Some started" "unstable_restarts ?rt = unstable_restarts (pr_runtime r)"
      "pending_restart ?rt = pending_restart (pr_runtime r)"
    by (auto simp: started_runtime_def runtime_ops)
  have "takes_breaker ?r outcome"
    using rt assms(3,4)
    by (auto simp: takes_breaker_def on_runtime_def stops_on_this_code_def is_crash_def
        split: exit_outcome.splits)
  moreover have "elapsed_since_launch_ms ?rt now = Some (now - started)"
    using rt assms(4) by (simp add: elapsed_since_launch_ms_def since_start_def checked_sub_def is_crash_def)
  moreover have "settled_status outcome = Errored" "outcome \<noteq> Code 0"
    using assms(4) by (auto simp: settled_status_def is_crash_def exit_failed_def)
  ultimately show ?thesis
    using rt assms decide_unstable[of "restart_policy_of (pr_spec r)" "now - started"
        "unstable_restarts (pr_runtime r)"]
    by (auto simp: classify_breaker on_runtime_def restart_policy_of_def restart_delay_def is_crash_def
        mark_exited_def cancel_restart_def count_restart_def set_unstable_restarts_def)
qed

lemma crash_loop:
  assumes "autorestart (pr_spec r)" and "\<not> pending_restart (pr_runtime r)"
    and "\<forall>c\<in>set rounds. is_crash (pr_spec r) c" and "rounds \<noteq> []"
    and "unat (unstable_restarts (pr_runtime r)) + length rounds = unat (max_restarts (pr_spec r))"
  shows "\<exists>r'. crash_rounds rounds r =
      (map (\<lambda>k. RestartAfter (restart_delay (pr_spec r) (unstable_restarts (pr_runtime r) + of_nat k)))
         [1..<length rounds] @ [Settled Errored True], r') \<and>
    rt_status (pr_runtime r') = Errored"
  using assms
proof (induction rounds arbitrary: r)
  case (Cons c rounds)
  obtain i idt started now outcome where c: "c = (i, idt, started, now, outcome)" by (cases c)
  let ?u = "unstable_restarts (pr_runtime r)" and ?m = "max_restarts (pr_spec r)"
  have less: "?u < ?m" using Cons.prems(5) by (simp add: word_less_nat_alt)
  have succ: "unat (?u + 1) = Suc (unat ?u)" by (rule unat_Suc_less[OF less])
  have last: "?u + 1 = ?m \<longleftrightarrow> rounds = []"
    using Cons.prems(5) succ by (auto simp: word_unat_eq_iff simp flip: length_0_conv)
  obtain r1 where r1: "classify_record (on_runtime (started_runtime (pr_spec r) i started idt) r) outcome now =
      (if ?u + 1 = ?m then Settled Errored True else RestartAfter (restart_delay (pr_spec r) (?u + 1)), r1)"
      "pr_spec r1 = pr_spec r" "\<not> pending_restart (pr_runtime r1)"
      "unstable_restarts (pr_runtime r1) = ?u + 1"
      "?u + 1 = ?m \<longrightarrow> rt_status (pr_runtime r1) = Errored"
    using crash_round[OF Cons.prems(1) less Cons.prems(2), of i idt started now outcome] Cons.prems(3) c
    by auto
  show ?case
  proof (cases "rounds = []")
    case True
    with r1 c last show ?thesis by simp
  next
    case False
    have "\<exists>r'. crash_rounds rounds r1 =
        (map (\<lambda>k. RestartAfter (restart_delay (pr_spec r1) (unstable_restarts (pr_runtime r1) + of_nat k)))
           [1..<length rounds] @ [Settled Errored True], r') \<and> rt_status (pr_runtime r') = Errored"
      using False Cons.prems r1(2-4) succ by (intro Cons.IH) auto
    then obtain r' where r': "crash_rounds rounds r1 =
        (map (\<lambda>k. RestartAfter (restart_delay (pr_spec r) (?u + 1 + of_nat k)))
           [1..<length rounds] @ [Settled Errored True], r')" "rt_status (pr_runtime r') = Errored"
      using r1(2,4) by auto
    have "[1..<length (c # rounds)] = 1 # map Suc [1..<length rounds]"
      using False by (cases rounds) (simp_all add: upt_conv_Cons map_Suc_upt del: upt_Suc)
    then have "map (\<lambda>k. RestartAfter (restart_delay (pr_spec r) (?u + of_nat k))) [1..<length (c # rounds)]
        = RestartAfter (restart_delay (pr_spec r) (?u + 1)) #
          map (\<lambda>k. RestartAfter (restart_delay (pr_spec r) (?u + 1 + of_nat k))) [1..<length rounds]"
      by (simp add: comp_def add.assoc)
    with r' r1(1) False last c show ?thesis by simp
  qed
qed simp

end
