(* ===== verification/Alerts_Timers.thy ===== *)
theory Alerts_Timers
  imports Exits
begin

text \<open>
  \<^verbatim>\<open>usecases/src/\<close> \<^verbatim>\<open>supervision.rs\<close> (requests, replies and effects), \<^verbatim>\<open>alert.rs\<close> (the
  latch that keeps an alert from repeating) and \<^verbatim>\<open>timer_state.rs\<close> (armed schedules, queued
  restarts and the generation of every launch). The lemmas show that the same alert fires at
  most once per cooldown, the store contract of the schedules, and that a generation once
  replaced never becomes current again.
\<close>

subsection \<open>Alerts and effects\<close>

datatype alert_kind =
    Exited exit_outcome
  | ReadyFailed "string list"
  | LivenessKilled
  | MemoryKilled
  | LaunchFailed

record alert =
  al_name :: string
  al_kind :: alert_kind

datatype supervision_effect =
    ScheduleMemorySample u64
  | ScheduleLivenessSample u64
  | ArmTimer string u64 u64                        \<comment> \<open>\<open>name\<close>, \<open>fire_at_ms\<close>, \<open>delay_ms\<close>\<close>
  | DisarmTimer string
  | ScheduleRestart string u64
  | CancelRestart string
  | ScheduleForceKill string u64 u32 "string option" u64
      \<comment> \<open>\<open>name\<close>, \<open>generation\<close>, \<open>pid\<close>, \<open>token\<close>, \<open>delay_ms\<close>\<close>
  | CancelForceKill string
  | WatchExit string u64 u32 "string option"       \<comment> \<open>\<open>name\<close>, \<open>generation\<close>, \<open>pid\<close>, \<open>token\<close>\<close>
  | ScheduleLogRotate u64
  | AwaitReady string u64 ready_probe u64 u64
      \<comment> \<open>\<open>name\<close>, \<open>generation\<close>, \<open>probe\<close>, \<open>timeout_ms\<close>, \<open>interval_ms\<close>\<close>
  | CancelReady string
  | Notify alert

fun discriminant :: "alert_kind \<Rightarrow> nat" where
  "discriminant (Exited outcome) = 0"
| "discriminant (ReadyFailed downstream) = 1"
| "discriminant LivenessKilled = 2"
| "discriminant MemoryKilled = 3"
| "discriminant LaunchFailed = 4"

record alert_latch =
  cooldown_ms :: u64
  fired :: "((string \<times> nat) \<times> u64) list"

definition latch_new :: "u64 \<Rightarrow> alert_latch" where
  "latch_new cooldown = \<lparr>cooldown_ms = cooldown, fired = []\<rparr>"

definition fire ::
  "string \<Rightarrow> alert_kind \<Rightarrow> u64 \<Rightarrow> alert_latch \<Rightarrow> supervision_effect option \<times> alert_latch" where
  "fire name kind now latch =
     (let key = (name, discriminant kind);
          cooling = (case map_of (fired latch) key of
                       None \<Rightarrow> False
                     | Some before \<Rightarrow> saturating_sub now before < cooldown_ms latch)
      in if cooling then (None, latch)
         else (Some (Notify \<lparr>al_name = name, al_kind = kind\<rparr>),
               latch\<lparr>fired := AList.update key now (fired latch)\<rparr>))"

definition forget :: "string \<Rightarrow> alert_latch \<Rightarrow> alert_latch" where
  "forget name latch = latch\<lparr>fired := filter (\<lambda>((who, kind), before). who \<noteq> name) (fired latch)\<rparr>"

definition settle ::
  "string \<Rightarrow> exit_outcome \<Rightarrow> bool \<Rightarrow> u64 \<Rightarrow> alert_latch \<Rightarrow> supervision_effect option \<times> alert_latch"
where
  "settle name outcome alarming now latch =
     (if alarming then fire name (Exited outcome) now latch else (None, forget name latch))"

lemma map_of_forget:
  "map_of (fired (forget name latch)) key =
    (if fst key = name then None else map_of (fired latch) key)"
proof -
  have "map_of (filter (\<lambda>((who, kind), before). who \<noteq> name) m) key =
      (if fst key = name then None else map_of m key)" for m :: "((string \<times> nat) \<times> u64) list"
    by (induction m) auto
  then show ?thesis by (simp add: forget_def)
qed

lemma fire_cases:
  obtains (cooling) before where "map_of (fired l) (n, discriminant k) = Some before"
      "saturating_sub now before < cooldown_ms l" "fire n k now l = (None, l)"
  | (fires) "fire n k now l = (Some (Notify \<lparr>al_name = n, al_kind = k\<rparr>),
      l\<lparr>fired := AList.update (n, discriminant k) now (fired l)\<rparr>)"
      "\<forall>before. map_of (fired l) (n, discriminant k) = Some before \<longrightarrow>
         cooldown_ms l \<le> saturating_sub now before"
  by (cases "map_of (fired l) (n, discriminant k)")
    (auto simp: fire_def Let_def not_less, metis not_le)

text \<open>A sequence of alarms and what the latch makes of it.\<close>

fun fire_all ::
  "(string \<times> alert_kind \<times> u64) list \<Rightarrow> alert_latch \<Rightarrow> supervision_effect option list" where
  "fire_all [] latch = []"
| "fire_all ((name, kind, now) # alarms) latch =
     (let (effect, latch) = fire name kind now latch in effect # fire_all alarms latch)"

definition alarm_key :: "string \<times> alert_kind \<times> u64 \<Rightarrow> string \<times> nat" where
  "alarm_key = (\<lambda>(name, kind, now). (name, discriminant kind))"

definition alarm_time :: "string \<times> alert_kind \<times> u64 \<Rightarrow> u64" where
  "alarm_time = (\<lambda>(name, kind, now). now)"

lemma fire_all_length [simp]: "length (fire_all alarms latch) = length alarms"
  by (induction alarms latch rule: fire_all.induct) (auto simp: Let_def split: prod.splits)

lemma fire_all_after:
  "sorted (map (\<lambda>a. unat (alarm_time a)) alarms) \<Longrightarrow> \<forall>a\<in>set alarms. t0 \<le> alarm_time a \<Longrightarrow>
    map_of (fired l) key = Some t0 \<Longrightarrow> j < length alarms \<Longrightarrow> alarm_key (alarms ! j) = key \<Longrightarrow>
    fire_all alarms l ! j \<noteq> None \<Longrightarrow>
    unat t0 + unat (cooldown_ms l) \<le> unat (alarm_time (alarms ! j))"
proof (induction alarms arbitrary: l t0 j)
  case (Cons a alarms)
  obtain n k now where a: "a = (n, k, now)" by (cases a)
  have t0: "unat t0 \<le> unat now" using Cons.prems(2) a by (simp add: alarm_time_def word_le_nat_alt)
  show ?case
  proof (cases rule: fire_cases[where l = l and n = n and k = k and now = now])
    case (cooling before)
    show ?thesis
    proof (cases j)
      case 0
      with Cons.prems(6) a cooling(3) show ?thesis by simp
    next
      case (Suc i)
      with Cons.prems a cooling(3) show ?thesis
        using Cons.IH[of t0 l i] by auto
    qed
  next
    case fires
    let ?l = "l\<lparr>fired := AList.update (n, discriminant k) now (fired l)\<rparr>"
    show ?thesis
    proof (cases "(n, discriminant k) = key")
      case True
      have "cooldown_ms l \<le> saturating_sub now t0" using fires(2) True Cons.prems(3) by auto
      then have now: "unat t0 + unat (cooldown_ms l) \<le> unat now"
        using t0 by (simp add: word_le_nat_alt unat_saturating_sub)
      show ?thesis
      proof (cases j)
        case 0
        with now a show ?thesis by (simp add: alarm_time_def)
      next
        case (Suc i)
        have later: "\<forall>b\<in>set alarms. now \<le> alarm_time b"
          using Cons.prems(1) a by (auto simp: alarm_time_def word_le_nat_alt)
        have "unat now + unat (cooldown_ms ?l) \<le> unat (alarm_time (alarms ! i))"
          using Cons.prems Suc a fires(1) True later by (intro Cons.IH[of now ?l i]) auto
        with now Suc show ?thesis by simp
      qed
    next
      case False
      show ?thesis
      proof (cases j)
        case 0
        with False Cons.prems(5) a show ?thesis by (simp add: alarm_key_def)
      next
        case (Suc i)
        have "unat t0 + unat (cooldown_ms ?l) \<le> unat (alarm_time (alarms ! i))"
          using Cons.prems Suc a fires(1) False by (intro Cons.IH[of t0 ?l i]) auto
        with Suc show ?thesis by simp
      qed
    qed
  qed
qed simp

lemma fire_all_cooldown:
  "sorted (map (\<lambda>a. unat (alarm_time a)) alarms) \<Longrightarrow> i < j \<Longrightarrow> j < length alarms \<Longrightarrow>
    alarm_key (alarms ! i) = alarm_key (alarms ! j) \<Longrightarrow>
    fire_all alarms l ! i \<noteq> None \<Longrightarrow> fire_all alarms l ! j \<noteq> None \<Longrightarrow>
    unat (alarm_time (alarms ! i)) + unat (cooldown_ms l) \<le> unat (alarm_time (alarms ! j))"
proof (induction alarms arbitrary: l i j)
  case (Cons a alarms)
  obtain n k now where a: "a = (n, k, now)" by (cases a)
  obtain e l' where f: "fire n k now l = (e, l')" by (cases "fire n k now l")
  then have cool: "cooldown_ms l' = cooldown_ms l"
    by (cases rule: fire_cases[where l = l and n = n and k = k and now = now]) auto
  obtain j' where j: "j = Suc j'" using Cons.prems(2) by (cases j) auto
  show ?case
  proof (cases i)
    case (Suc i')
    then show ?thesis using Cons.IH[of i' j' l'] Cons.prems a f j cool by auto
  next
    case 0
    then have "e \<noteq> None" using Cons.prems(5) a f by simp
    then have l': "map_of (fired l') (n, discriminant k) = Some now"
      using f by (cases rule: fire_cases[where l = l and n = n and k = k and now = now]) auto
    have "\<forall>b\<in>set alarms. now \<le> alarm_time b"
      using Cons.prems(1) a by (auto simp: alarm_time_def word_le_nat_alt)
    then have "unat now + unat (cooldown_ms l') \<le> unat (alarm_time (alarms ! j'))"
      using Cons.prems a f j 0 l'
      by (intro fire_all_after[of alarms now l' "(n, discriminant k)" j']) (auto simp: alarm_key_def)
    with 0 a j cool show ?thesis by (simp add: alarm_time_def)
  qed
qed simp

subsection \<open>Timers\<close>

record timer_state =
  fires :: "(string \<times> u64) list"
  restarts :: "string list"
  generations :: "(string \<times> u64) list"
  next_generation :: u64

definition timers_new :: timer_state where
  "timers_new = \<lparr>fires = [], restarts = [], generations = [], next_generation = 0\<rparr>"

definition next_fire_of :: "timer_state \<Rightarrow> string \<Rightarrow> u64 option" where
  "next_fire_of timers name = map_of (fires timers) name"

definition fire_is_due :: "timer_state \<Rightarrow> string \<Rightarrow> u64 \<Rightarrow> bool" where
  "fire_is_due timers name fire_at \<longleftrightarrow> next_fire_of timers name = Some fire_at"

definition arm :: "string \<Rightarrow> u64 \<Rightarrow> timer_state \<Rightarrow> timer_state" where
  "arm name fire_at timers = timers\<lparr>fires := AList.update name fire_at (fires timers)\<rparr>"

definition disarm_one :: "string \<Rightarrow> timer_state \<Rightarrow> timer_state" where
  "disarm_one name timers = timers\<lparr>fires := AList.delete name (fires timers)\<rparr>"

definition disarm_all :: "timer_state \<Rightarrow> string list \<times> timer_state" where
  "disarm_all timers = (map fst (fires timers), timers\<lparr>fires := []\<rparr>)"

definition queue_one :: "string \<Rightarrow> timer_state \<Rightarrow> timer_state" where
  "queue_one name timers = timers\<lparr>restarts := List.insert name (restarts timers)\<rparr>"

definition claim_restart :: "string \<Rightarrow> timer_state \<Rightarrow> bool \<times> timer_state" where
  "claim_restart name timers =
     (List.member (restarts timers) name, timers\<lparr>restarts := removeAll name (restarts timers)\<rparr>)"

definition cancel_all_restarts :: "timer_state \<Rightarrow> string list \<times> timer_state" where
  "cancel_all_restarts timers = (restarts timers, timers\<lparr>restarts := []\<rparr>)"

definition bump :: "string \<Rightarrow> timer_state \<Rightarrow> u64 \<times> timer_state" where
  "bump name timers =
     (let next = saturating_add (next_generation timers) 1 in
      (next, timers\<lparr>next_generation := next,
                    generations := AList.update name next (generations timers)\<rparr>))"

definition current_generation :: "timer_state \<Rightarrow> string \<Rightarrow> u64" where
  "current_generation timers name =
     (case map_of (generations timers) name of None \<Rightarrow> 0 | Some g \<Rightarrow> g)"

definition is_current :: "timer_state \<Rightarrow> string \<Rightarrow> u64 \<Rightarrow> bool" where
  "is_current timers name generation \<longleftrightarrow> current_generation timers name = generation"

interpretation schedules:
  named_store next_fire_of "\<lambda>(name, fire_at). arm name fire_at" disarm_one "\<lambda>_. True" fst snd
  by unfold_locales (auto simp: next_fire_of_def arm_def disarm_one_def)

interpretation launches:
  named_store "\<lambda>timers. map_of (generations timers)"
    "\<lambda>(name, g) timers. timers\<lparr>generations := AList.update name g (generations timers)\<rparr>"
    "\<lambda>name timers. timers\<lparr>generations := AList.delete name (generations timers)\<rparr>"
    "\<lambda>_. True" fst snd
  by unfold_locales auto

text \<open>
  Generations are handed out in increasing order, so a generation that a later launch replaced
  is stale for ever: until the counter saturates, which takes \<open>2\<^sup>6\<^sup>4 - 1\<close> launches.
\<close>

definition generations_ok :: "timer_state \<Rightarrow> bool" where
  "generations_ok timers \<longleftrightarrow> (\<forall>name. current_generation timers name \<le> next_generation timers)"

lemma generations_ok_new: "generations_ok timers_new"
  by (simp add: generations_ok_def timers_new_def current_generation_def)

lemma generations_ok_bump:
  assumes "generations_ok timers"
  shows "generations_ok (snd (bump name timers))"
proof -
  have "next_generation timers \<le> saturating_add (next_generation timers) 1"
    using unsigned_less[of "next_generation timers", where ?'a = nat]
    by (simp add: word_le_nat_alt unat_saturating_add)
  with assms show ?thesis
    by (auto simp: generations_ok_def bump_def current_generation_def Let_def intro: order_trans)
qed

lemma bump_current [simp]: "is_current (snd (bump name timers)) name (fst (bump name timers))"
  by (simp add: is_current_def current_generation_def bump_def Let_def)

lemma bump_other:
  "n \<noteq> name \<Longrightarrow> is_current (snd (bump name timers)) n g = is_current timers n g"
  by (simp add: is_current_def current_generation_def bump_def Let_def)

lemma stale_after_bump:
  assumes "generations_ok timers" and "next_generation timers < - 1" and "g \<le> next_generation timers"
  shows "\<not> is_current (snd (bump name timers)) name g"
proof -
  have max: "unat (next_generation timers) + 1 \<le> 2 ^ 64 - 1"
    using assms(2) by (simp add: word_less_nat_alt unat_max_word)
  then have "g < saturating_add (next_generation timers) 1"
    using assms(3) by (simp add: word_le_nat_alt word_less_nat_alt unat_saturating_add)
  then show ?thesis
    by (auto simp: is_current_def current_generation_def bump_def Let_def)
qed

subsection \<open>Requests and replies\<close>

datatype supervision_request =
    StartRequest "string list"
  | ListRequest
  | DescribeRequest app_selector
  | StopRequest app_selector
  | RestartRequest app_selector
  | DeleteRequest app_selector
  | ResetRequest app_selector
  | SignalRequest app_selector string
  | StopAllRequest

datatype supervision_reply =
    StartedReply "start_outcome list" "string list" "string option" "string option"
      \<comment> \<open>\<open>outcomes\<close>, \<open>refused\<close>, \<open>reason\<close>, \<open>unsaved\<close>\<close>
  | ListedReply "process_view list"
  | DescribedReply process_view
  | StoppedReply string
  | RestartedReply string
  | DeletedReply string
  | ResetReply string
  | SignalledReply string string
  | StoppedAllReply "string list"
  | RestartedAllReply "string list"
  | DeletedAllReply "string list"
  | ResetAllReply "string list"

datatype supervision_failure =
    UsecaseFailure usecase_error
  | SpecFailure spec_resolve_error

type_synonym supervision_outcome = "supervision_failure + supervision_reply"

fun action :: "supervision_request \<Rightarrow> string" where
  "action (StartRequest services) = ''start''"
| "action ListRequest = ''list''"
| "action (DescribeRequest selector) = ''describe''"
| "action (StopRequest selector) = ''stop''"
| "action (RestartRequest selector) = ''restart''"
| "action (DeleteRequest selector) = ''delete''"
| "action (ResetRequest selector) = ''reset''"
| "action (SignalRequest selector signal) = ''signal''"
| "action StopAllRequest = ''stop_all''"

fun target :: "supervision_request \<Rightarrow> string" where
  "target (StartRequest services) = join '','' services"
| "target ListRequest = []"
| "target StopAllRequest = []"
| "target (DescribeRequest selector) = selector_to_string selector"
| "target (StopRequest selector) = selector_to_string selector"
| "target (RestartRequest selector) = selector_to_string selector"
| "target (DeleteRequest selector) = selector_to_string selector"
| "target (ResetRequest selector) = selector_to_string selector"
| "target (SignalRequest selector signal) = selector_to_string selector"

end
