(* ===== verification/Resurrect.thy ===== *)
theory Resurrect
  imports Exits
begin

text \<open>
  \<^verbatim>\<open>usecases/src/resurrect.rs\<close> and \<^verbatim>\<open>resurrect/judge.rs\<close>: how a new daemon takes over the
  processes the previous one left running. It judges every recorded process, evicts the
  survivors it will not keep, adopts or respawns the others. The evictions run concurrently:
  \<open>join_all\<close> is the interleaving of their steps that \<open>p_schedule\<close> chooses. \<open>judge_all\<close> also
  joins its futures, but each of them has a single await, so the calls are issued in the order
  of the list. The lemmas show when a process is adopted, which processes may be signalled,
  that nothing is signalled after a reboot, that one eviction run alone is its sequential
  reading, and that the take over never panics.
\<close>

subsection \<open>Judging\<close>

datatype pid_trust = Kept | Lost

definition pid_trust_of :: "string option \<Rightarrow> string option \<Rightarrow> pid_trust" where
  "pid_trust_of stored current =
     (case (stored, current) of
        (Some s, Some c) \<Rightarrow> if s = c then Kept else Lost
      | _ \<Rightarrow> Kept)"

datatype change =
    ChangeUnknown | ChangeGone | ChangeUnreadable | ChangeReused | ChangeLaunch | ChangeBinary
  | ChangeRebooted | ChangeRestart

datatype verdict = Adopt | Settle "u32 option" | Respawn change "u32 option"

fun eviction_scope :: "change \<Rightarrow> signal_scope" where
  "eviction_scope ChangeUnknown = SinglePid"
| "eviction_scope ChangeUnreadable = SinglePid"
| "eviction_scope _ = ProcessGroup"

fun change_as_str :: "change \<Rightarrow> string" where
  "change_as_str ChangeUnknown = ''unknown''"
| "change_as_str ChangeGone = ''gone''"
| "change_as_str ChangeUnreadable = ''unreadable''"
| "change_as_str ChangeReused = ''reused''"
| "change_as_str ChangeLaunch = ''launch''"
| "change_as_str ChangeBinary = ''binary''"
| "change_as_str ChangeRebooted = ''rebooted''"
| "change_as_str ChangeRestart = ''restart''"

definition observed_liveness :: "(u32 \<times> liveness) list \<Rightarrow> u32 \<Rightarrow> liveness" where
  "observed_liveness observed i =
     (case map_of observed i of Some l \<Rightarrow> l | None \<Rightarrow> Unreadable)"

definition surviving_pid ::
  "u32 option \<Rightarrow> string option \<Rightarrow> pid_trust \<Rightarrow> (u32 \<times> liveness) list \<Rightarrow> u32 option" where
  "surviving_pid candidate expected trust observed =
     do { i \<leftarrow> candidate;
          if trust = Lost then None
          else
            let l = observed_liveness observed i in
            if l = Gone then None
            else if pid_was_recycled l expected then None
            else Some i }"

definition was_supposed_to_run :: "process_record \<Rightarrow> bool" where
  "was_supposed_to_run r \<longleftrightarrow> \<not> is_settled (rt_status (pr_runtime r))"

definition judge_survivor ::
  "ports \<Rightarrow> process_record \<Rightarrow> u32 \<Rightarrow> process_identity \<Rightarrow> (u32 \<times> liveness) list \<Rightarrow> history \<Rightarrow>
   verdict \<times> history" where
  "judge_survivor P r i identity observed h =
     (case observed_liveness observed i of
        Gone \<Rightarrow> (Respawn ChangeGone None, h)
      | Unreadable \<Rightarrow> (Respawn ChangeUnreadable (Some i), h)
      | Alive t \<Rightarrow>
          if t \<noteq> token identity then (Respawn ChangeReused None, h)
          else if p_digest P (render_identity (pr_spec r)) \<noteq> launch_digest identity
            then (Respawn ChangeLaunch (Some i), h)
          else
            (case file_digest P (script (pr_spec r)) h of
               (Inl _, h) \<Rightarrow> (Adopt, h)
             | (Inr binary, h) \<Rightarrow>
                 (if binary \<noteq> binary_digest identity then Respawn ChangeBinary (Some i) else Adopt, h)))"

definition judge_verdict ::
  "ports \<Rightarrow> process_record \<Rightarrow> pid_trust \<Rightarrow> (u32 \<times> liveness) list \<Rightarrow> history \<Rightarrow> verdict \<times> history"
where
  "judge_verdict P r trust observed h =
     (let rt = pr_runtime r in
      if is_shutting_down (rt_status rt) then
        let stale = surviving_pid (rt_pid rt) (identity_token rt) trust observed in
        (if pending_restart rt then Respawn ChangeRestart stale else Settle stale, h)
      else if trust = Lost then (Respawn ChangeRebooted None, h)
      else
        (case (rt_pid rt, rt_identity rt) of
           (Some i, Some identity) \<Rightarrow> judge_survivor P r i identity observed h
         | _ \<Rightarrow> (Respawn ChangeUnknown (surviving_pid (rt_pid rt) None trust observed), h)))"

fun judge_each ::
  "ports \<Rightarrow> process_record list \<Rightarrow> pid_trust \<Rightarrow> (u32 \<times> liveness) list \<Rightarrow> history \<Rightarrow>
   (verdict \<times> string option) list \<times> history" where
  "judge_each P [] trust observed h = ([], h)"
| "judge_each P (r # rs) trust observed h =
     (let expected = identity_token (pr_runtime r);
          (v, h) = judge_verdict P r trust observed h;
          (vs, h) = judge_each P rs trust observed h
      in ((v, expected) # vs, h))"

type_synonym verdicts = "(string \<times> (verdict \<times> string option)) list"

definition judge_all ::
  "ports \<Rightarrow> process_record list \<Rightarrow> pid_trust \<Rightarrow> history \<Rightarrow> verdicts \<times> history" where
  "judge_all P stored trust h =
     (let awaited = filter was_supposed_to_run stored;
          pids = filter_map (\<lambda>r. rt_pid (pr_runtime r)) awaited;
          (observed, h) = identities_of P pids h;
          (vs, h) = judge_each P awaited trust observed h
      in (foldl (\<lambda>m (n, v). btree_insert n v m) [] (zip (map record_name awaited) vs), h))"

subsection \<open>Evicting\<close>

record eviction =
  ev_stale :: u32
  ev_expected :: "string option"
  ev_scope_of :: signal_scope

definition force_lingering_group :: "ports \<Rightarrow> u32 \<Rightarrow> signal_scope \<Rightarrow> u64 \<Rightarrow> history \<Rightarrow> history" where
  "force_lingering_group P i scope timeout h =
     (if \<not> reaches_the_group scope then h
      else let (gone, h) = wait_group_gone P i timeout h in
           if gone then h else snd (force_kill P i scope h))"

definition left_or_recycled ::
  "ports \<Rightarrow> u32 \<Rightarrow> liveness \<Rightarrow> string option \<Rightarrow> signal_scope \<Rightarrow> u64 \<Rightarrow> history \<Rightarrow> bool \<times> history"
where
  "left_or_recycled P i l expected scope timeout h =
     (if l = Gone then (True, force_lingering_group P i scope timeout h)
      else if pid_was_recycled l expected then (True, h)
      else (False, h))"

definition evict_pid ::
  "ports \<Rightarrow> u32 \<Rightarrow> string option \<Rightarrow> signal_scope \<Rightarrow> u64 \<Rightarrow> history \<Rightarrow> history" where
  "evict_pid P i expected scope timeout h =
     (let (fresh, h) = identity_of P i h;
          (done, h) = left_or_recycled P i fresh expected scope timeout h
      in if done then h
         else
           let (_, h) = terminate P i scope h;
               (l, h) = wait_gone P i timeout h;
               (done, h) = left_or_recycled P i l expected scope timeout h
           in if done then h else snd (force_kill P i scope h))"

text \<open>The same function cut at its awaits: a phase is the call the future is waiting to make.\<close>

datatype evict_phase =
    CheckFresh | SendTerminate | AwaitExit | SendKill | AwaitGroup | KillGroup | Evicted

definition after_liveness :: "eviction \<Rightarrow> liveness \<Rightarrow> evict_phase \<Rightarrow> evict_phase" where
  "after_liveness plan l otherwise =
     (if l = Gone then (if reaches_the_group (ev_scope_of plan) then AwaitGroup else Evicted)
      else if pid_was_recycled l (ev_expected plan) then Evicted
      else otherwise)"

fun evict_step ::
  "ports \<Rightarrow> u64 \<Rightarrow> eviction \<Rightarrow> evict_phase \<Rightarrow> history \<Rightarrow> evict_phase \<times> history" where
  "evict_step P timeout plan CheckFresh h =
     (let (l, h) = identity_of P (ev_stale plan) h in (after_liveness plan l SendTerminate, h))"
| "evict_step P timeout plan SendTerminate h =
     (AwaitExit, snd (terminate P (ev_stale plan) (ev_scope_of plan) h))"
| "evict_step P timeout plan AwaitExit h =
     (let (l, h) = wait_gone P (ev_stale plan) timeout h in (after_liveness plan l SendKill, h))"
| "evict_step P timeout plan SendKill h =
     (Evicted, snd (force_kill P (ev_stale plan) (ev_scope_of plan) h))"
| "evict_step P timeout plan AwaitGroup h =
     (let (gone, h) = wait_group_gone P (ev_stale plan) timeout h in
      (if gone then Evicted else KillGroup, h))"
| "evict_step P timeout plan KillGroup h =
     (Evicted, snd (force_kill P (ev_stale plan) (ev_scope_of plan) h))"
| "evict_step P timeout plan Evicted h = (Evicted, h)"

fun phase_rank :: "evict_phase \<Rightarrow> nat" where
  "phase_rank CheckFresh = 5"
| "phase_rank SendTerminate = 4"
| "phase_rank AwaitExit = 3"
| "phase_rank AwaitGroup = 2"
| "phase_rank SendKill = 1"
| "phase_rank KillGroup = 1"
| "phase_rank Evicted = 0"

lemma evict_step_rank:
  "phase \<noteq> Evicted \<Longrightarrow> phase_rank (fst (evict_step P timeout plan phase h)) < phase_rank phase"
  by (cases phase) (auto simp: after_liveness_def Let_def split: prod.splits)

text \<open>\<open>join_all\<close> on the evictions: some future that is not finished takes its next step.\<close>

definition unfinished :: "(eviction \<times> evict_phase) list \<Rightarrow> nat list" where
  "unfinished futures = filter (\<lambda>k. snd (futures ! k) \<noteq> Evicted) [0..<length futures]"

lemma sum_list_update_less:
  "k < length xs \<Longrightarrow> f y < f (xs ! k) \<Longrightarrow>
    sum_list (map f (xs[k := y])) < sum_list (map (f :: 'a \<Rightarrow> nat) xs)"
proof (induction xs arbitrary: k)
  case (Cons x xs)
  then show ?case by (cases k) auto
qed simp

lemma scheduled_unfinished:
  "unfinished futures \<noteq> [] \<Longrightarrow> k = unfinished futures ! (s mod length (unfinished futures)) \<Longrightarrow>
    k < length futures \<and> snd (futures ! k) \<noteq> Evicted"
proof -
  assume ne: "unfinished futures \<noteq> []" and k: "k = unfinished futures ! (s mod length (unfinished futures))"
  then have "k \<in> set (unfinished futures)" by simp
  then show ?thesis by (auto simp: unfinished_def)
qed

function join_evictions ::
  "ports \<Rightarrow> u64 \<Rightarrow> (eviction \<times> evict_phase) list \<Rightarrow> history \<Rightarrow> history" where
  "join_evictions P timeout futures h =
     (let live = unfinished futures in
      if live = [] then h
      else
        let k = live ! (p_schedule P h mod length live);
            (plan, phase) = futures ! k;
            (phase, h) = evict_step P timeout plan phase h
        in join_evictions P timeout (futures[k := (plan, phase)]) h)"
  by pat_completeness auto

termination
proof (relation "measure (\<lambda>(P, timeout, futures, h). sum_list (map (phase_rank \<circ> snd) futures))", goal_cases)
  case (2 P timeout futures h live k x plan phase y phase' h')
  then have k: "k < length futures" "snd (futures ! k) \<noteq> Evicted"
    using scheduled_unfinished[of futures k] by simp_all
  have "phase_rank phase' < phase_rank phase"
    using 2(3-7) k(2) evict_step_rank[of phase P timeout plan h] by (simp add: prod_eq_iff)
  then have "sum_list (map (phase_rank \<circ> snd) (futures[k := (plan, phase')]))
      < sum_list (map (phase_rank \<circ> snd) futures)"
    using k(1) 2(3-7) by (intro sum_list_update_less) (auto simp: prod_eq_iff)
  then show ?case by simp
qed simp

declare join_evictions.simps [simp del]

definition eviction_plan :: "verdict \<times> string option \<Rightarrow> eviction option" where
  "eviction_plan judged =
     (let (v, expected) = judged in
      case v of
        Adopt \<Rightarrow> None
      | Settle stale \<Rightarrow>
          do { i \<leftarrow> stale;
               Some \<lparr>ev_stale = i, ev_expected = expected, ev_scope_of = ProcessGroup\<rparr> }
      | Respawn change stale \<Rightarrow>
          do { i \<leftarrow> stale;
               Some \<lparr>ev_stale = i, ev_expected = expected, ev_scope_of = eviction_scope change\<rparr> })"

definition evict_all :: "ports \<Rightarrow> string list \<Rightarrow> verdicts \<Rightarrow> u64 \<Rightarrow> history \<Rightarrow> history" where
  "evict_all P order verdicts timeout h =
     (let plans = filter_map (\<lambda>name. Option.bind (map_of verdicts name) eviction_plan) order
      in join_evictions P timeout (map (\<lambda>plan. (plan, CheckFresh)) plans) h)"

fun sweep_each ::
  "ports \<Rightarrow> stranded_process list \<Rightarrow> pid_trust \<Rightarrow> (u32 \<times> liveness) list \<Rightarrow> u64 \<Rightarrow> history \<Rightarrow> history"
where
  "sweep_each P [] trust observed timeout h = h"
| "sweep_each P (orphan # stranded) trust observed timeout h =
     (case surviving_pid (sp_pid orphan) (sp_token orphan) trust observed of
        None \<Rightarrow> sweep_each P stranded trust observed timeout h
      | Some i \<Rightarrow>
          sweep_each P stranded trust observed timeout
            (evict_pid P i (sp_token orphan) ProcessGroup timeout h))"

definition sweep_stranded ::
  "ports \<Rightarrow> stranded_process list \<Rightarrow> pid_trust \<Rightarrow> u64 \<Rightarrow> history \<Rightarrow> history" where
  "sweep_stranded P stranded trust timeout h =
     (let (observed, h) = identities_of P (filter_map sp_pid stranded) h
      in sweep_each P stranded trust observed timeout h)"

subsection \<open>Taking over\<close>

definition adopt ::
  "ports \<Rightarrow> string \<Rightarrow> process_table \<Rightarrow> history \<Rightarrow> (start_outcome \<times> process_table \<times> history) option"
where
  "adopt P name table h =
     do { r \<leftarrow> find_by_name table name;
          let r = (if record_awaits_ready r then r else on_runtime mark_online r);
          i \<leftarrow> rt_pid (pr_runtime r);
          let h = adopt_pid P i h;
          Some (outcome_of r name (Some i) Adopted, write_named name (\<lambda>_. r) table, h) }"

definition clear_pending :: "process_runtime \<Rightarrow> process_runtime" where
  "clear_pending rt = rt\<lparr>pending_restart := False\<rparr>"

definition forget_unless_adopted :: "verdicts \<Rightarrow> process_record \<Rightarrow> process_record" where
  "forget_unless_adopted verdicts r =
     (let judged = map_option fst (map_of verdicts (record_name r));
          r = (if \<not> is_settled (rt_status (pr_runtime r)) \<and> judged \<noteq> Some Adopt
               then on_runtime (mark_exited Stopped) r else r)
      in on_runtime clear_pending r)"

fun recover_each ::
  "ports \<Rightarrow> string \<Rightarrow> verdicts \<Rightarrow> string list \<Rightarrow> process_table \<Rightarrow> history \<Rightarrow>
   (start_outcome list \<times> process_table \<times> history) option" where
  "recover_each P logs_dir verdicts [] table h = Some ([], table, h)"
| "recover_each P logs_dir verdicts (name # order) table h =
     (case map_of verdicts name of
        None \<Rightarrow> recover_each P logs_dir verdicts order table h
      | Some (verdict, expected) \<Rightarrow>
          (case verdict of
             Adopt \<Rightarrow>
               do { (outcome, table, h) \<leftarrow> adopt P name table h;
                    (outcomes, table, h) \<leftarrow> recover_each P logs_dir verdicts order table h;
                    Some (outcome # outcomes, table, h) }
           | Settle stale \<Rightarrow> recover_each P logs_dir verdicts order table h
           | Respawn change stale \<Rightarrow>
               do { (result, table, h) \<leftarrow> start_one P logs_dir name table h;
                    (outcomes, table, h) \<leftarrow> recover_each P logs_dir verdicts order table h;
                    Some (case result of Inr outcome \<Rightarrow> outcome # outcomes | Inl _ \<Rightarrow> outcomes,
                          table, h) }))"

definition INIT_PID :: u32 where "INIT_PID = 1"

definition resurrect ::
  "ports \<Rightarrow> string \<Rightarrow> u64 \<Rightarrow> process_table \<Rightarrow> history \<Rightarrow>
   ((usecase_error + start_outcome list) \<times> process_table \<times> history) option" where
  "resurrect P logs_dir timeout table h =
     (case load_dump P h of
        (Inl e, h) \<Rightarrow> Some (Inl (DumpErr e), table, h)
      | (Inr contents, h) \<Rightarrow>
          do { let (init, h) = identity_of P INIT_PID h;
               let boot = into_token init;
               let trust = pid_trust_of (dc_boot contents) boot;
               let h = sweep_stranded P (dc_stranded contents) trust timeout h;
               let stored = dc_records contents;
               let (verdicts, h) = judge_all P stored trust h;
               let table = from_records (map (forget_unless_adopted verdicts) stored);
               let table = remember_boot boot table;
               order \<leftarrow> dependency_order table;
               let h = evict_all P order verdicts timeout h;
               (outcomes, table, h) \<leftarrow> recover_each P logs_dir verdicts order table h;
               let (_, h) = save_table P table h;
               Some (Inr outcomes, table, h) })"

subsection \<open>One eviction alone\<close>

lemma join_one:
  "join_evictions P timeout [(plan, phase)] h =
    (if phase = Evicted then h
     else let (phase, h) = evict_step P timeout plan phase h in join_evictions P timeout [(plan, phase)] h)"
  by (subst join_evictions.simps) (auto simp: unfinished_def Let_def split: prod.splits)

lemma evict_alone:
  "join_evictions P timeout [(plan, CheckFresh)] h =
    evict_pid P (ev_stale plan) (ev_expected plan) (ev_scope_of plan) timeout h"
proof -
  let ?join = "\<lambda>phase h. join_evictions P timeout [(plan, phase)] h"
  let ?i = "ev_stale plan" and ?scope = "ev_scope_of plan"
  have evicted: "?join Evicted h = h" for h by (simp add: join_one)
  have kill: "?join SendKill h = snd (force_kill P ?i ?scope h)"
      "?join KillGroup h = snd (force_kill P ?i ?scope h)" for h
    by (simp_all add: join_one[of _ _ _ SendKill] join_one[of _ _ _ KillGroup] evicted)
  have group: "?join AwaitGroup h = (let (gone, h) = wait_group_gone P ?i timeout h in
      if gone then h else snd (force_kill P ?i ?scope h))" for h
    by (simp add: join_one[of _ _ _ AwaitGroup] evicted kill Let_def split: prod.splits)
  have after: "?join (after_liveness plan l other) h =
      (let (done, h) = left_or_recycled P ?i l (ev_expected plan) ?scope timeout h
       in if done then h else ?join other h)" for l other h
    by (simp add: after_liveness_def left_or_recycled_def force_lingering_group_def evicted group)
  have leaving: "?join AwaitExit h = (let (l, h) = wait_gone P ?i timeout h;
        (done, h) = left_or_recycled P ?i l (ev_expected plan) ?scope timeout h
      in if done then h else snd (force_kill P ?i ?scope h))" for h
    by (simp add: join_one[of _ _ _ AwaitExit] after kill Let_def case_prod_unfold)
  have asked: "?join SendTerminate h = (let (r, h) = terminate P ?i ?scope h in ?join AwaitExit h)" for h
    by (simp add: join_one[of _ _ _ SendTerminate] case_prod_unfold)
  show ?thesis
    by (simp add: join_one[of _ _ _ CheckFresh] after asked leaving evict_pid_def Let_def case_prod_unfold)
qed

lemma evict_pid_recycled:
  "pid_was_recycled (p_identity P h i) expected \<Longrightarrow>
    evict_pid P i expected scope timeout h = h @ [IdentityEv i (p_identity P h i)]"
  by (auto simp: evict_pid_def identity_of_def left_or_recycled_def pid_was_recycled_iff Let_def)

subsection \<open>Only a checked process is signalled\<close>

text \<open>
  \<open>checked plan h\<close>: in \<open>h\<close> the host answered that the pid of the plan still is the process the
  plan expects, or could not tell. \<open>guarded\<close>: every signal since \<open>h0\<close> has such an answer before it.
\<close>

definition checked :: "eviction \<Rightarrow> history \<Rightarrow> bool" where
  "checked plan h \<longleftrightarrow>
     (\<exists>l. IdentityEv (ev_stale plan) l \<in> set h \<and> \<not> pid_was_recycled l (ev_expected plan))"

definition guarded :: "history \<Rightarrow> eviction set \<Rightarrow> history \<Rightarrow> bool" where
  "guarded h0 plans h \<longleftrightarrow>
     (\<exists>tr. h = h0 @ tr \<and>
       (\<forall>before e after i. tr = before @ e # after \<and> signalled_pid e = Some i \<longrightarrow>
          (\<exists>plan\<in>plans. ev_stale plan = i \<and> checked plan before)))"

lemma guarded_refl: "guarded h plans h"
  by (simp add: guarded_def)

lemma checked_mono: "checked plan tr \<Longrightarrow> set tr \<subseteq> set tr' \<Longrightarrow> checked plan tr'"
  by (auto simp: checked_def)

lemma guarded_snoc:
  assumes g: "guarded h0 plans (h0 @ tr)"
    and e: "\<forall>i. signalled_pid e = Some i \<longrightarrow> (\<exists>plan\<in>plans. ev_stale plan = i \<and> checked plan tr)"
  shows "guarded h0 plans (h0 @ tr @ [e])"
  unfolding guarded_def
proof (intro exI[of _ "tr @ [e]"] conjI allI impI, simp)
  fix before d after i
  assume split: "tr @ [e] = before @ d # after \<and> signalled_pid d = Some i"
  show "\<exists>plan\<in>plans. ev_stale plan = i \<and> checked plan before"
  proof (cases after rule: rev_cases)
    case Nil
    with split e show ?thesis by auto
  next
    case (snoc rest x)
    with split have "tr = before @ d # rest" by simp
    with g split show ?thesis by (auto simp: guarded_def)
  qed
qed

definition future_ok :: "history \<Rightarrow> eviction set \<Rightarrow> eviction \<times> evict_phase \<Rightarrow> bool" where
  "future_ok tr plans = (\<lambda>(plan, phase). plan \<in> plans \<and>
     (phase = CheckFresh \<or> phase = Evicted \<or> checked plan tr))"

lemma evict_step_guarded:
  assumes g: "guarded h0 plans (h0 @ tr)" and ok: "future_ok tr plans (plan, phase)"
    and run: "evict_step P timeout plan phase (h0 @ tr) = (phase', h')" and live: "phase \<noteq> Evicted"
  shows "\<exists>e. h' = h0 @ tr @ [e] \<and> guarded h0 plans h' \<and> future_ok (tr @ [e]) plans (plan, phase')"
proof -
  have grow: "checked plan tr \<Longrightarrow> checked plan (tr @ [e])" for e
    by (auto simp: checked_def)
  show ?thesis
  proof (cases phase)
    case CheckFresh
    let ?l = "p_identity P (h0 @ tr) (ev_stale plan)"
    have "guarded h0 plans (h0 @ tr @ [IdentityEv (ev_stale plan) ?l])"
      by (rule guarded_snoc[OF g]) simp
    moreover have "future_ok (tr @ [IdentityEv (ev_stale plan) ?l]) plans (plan, phase')"
      using CheckFresh run ok
      by (auto simp: identity_of_def after_liveness_def future_ok_def checked_def pid_was_recycled_iff
          Let_def split: if_splits)
    ultimately show ?thesis using CheckFresh run by (auto simp: identity_of_def Let_def)
  next
    case Evicted
    with live show ?thesis by simp
  next
    case AwaitExit
    let ?e = "WaitGoneEv (ev_stale plan) timeout (p_wait_gone P (h0 @ tr) (ev_stale plan) timeout)"
    have "guarded h0 plans (h0 @ tr @ [?e])" by (rule guarded_snoc[OF g]) simp
    then show ?thesis
      using AwaitExit run ok grow by (auto simp: wait_gone_def future_ok_def Let_def)
  next
    case AwaitGroup
    let ?e = "WaitGroupGoneEv (ev_stale plan) timeout (p_wait_group_gone P (h0 @ tr) (ev_stale plan) timeout)"
    have "guarded h0 plans (h0 @ tr @ [?e])" by (rule guarded_snoc[OF g]) simp
    then show ?thesis
      using AwaitGroup run ok grow by (auto simp: wait_group_gone_def future_ok_def Let_def)
  next
    case SendTerminate
    let ?e = "TerminateEv (ev_stale plan) (ev_scope_of plan)
        (p_terminate P (h0 @ tr) (ev_stale plan) (ev_scope_of plan))"
    have "guarded h0 plans (h0 @ tr @ [?e])"
      by (rule guarded_snoc[OF g]) (use SendTerminate ok in \<open>auto simp: future_ok_def\<close>)
    then show ?thesis
      using SendTerminate run ok grow by (auto simp: terminate_def future_ok_def Let_def)
  next
    case SendKill
    let ?e = "ForceKillEv (ev_stale plan) (ev_scope_of plan)
        (p_force_kill P (h0 @ tr) (ev_stale plan) (ev_scope_of plan))"
    have "guarded h0 plans (h0 @ tr @ [?e])"
      by (rule guarded_snoc[OF g]) (use SendKill ok in \<open>auto simp: future_ok_def\<close>)
    then show ?thesis
      using SendKill run ok by (auto simp: force_kill_def future_ok_def Let_def)
  next
    case KillGroup
    let ?e = "ForceKillEv (ev_stale plan) (ev_scope_of plan)
        (p_force_kill P (h0 @ tr) (ev_stale plan) (ev_scope_of plan))"
    have "guarded h0 plans (h0 @ tr @ [?e])"
      by (rule guarded_snoc[OF g]) (use KillGroup ok in \<open>auto simp: future_ok_def\<close>)
    then show ?thesis
      using KillGroup run ok by (auto simp: force_kill_def future_ok_def Let_def)
  qed
qed

lemma future_ok_grow: "future_ok tr plans f \<Longrightarrow> future_ok (tr @ [e]) plans f"
  by (auto simp: future_ok_def checked_def)

lemma join_evictions_guarded:
  "h = h0 @ tr \<Longrightarrow> guarded h0 plans h \<Longrightarrow> \<forall>f\<in>set futures. future_ok tr plans f \<Longrightarrow>
    guarded h0 plans (join_evictions P timeout futures h)"
proof (induction P timeout futures h arbitrary: tr rule: join_evictions.induct)
  case (1 P timeout futures h)
  show ?case
  proof (cases "unfinished futures = []")
    case True
    with "1.prems" show ?thesis by (simp add: join_evictions.simps[of P timeout futures])
  next
    case False
    define k where "k = unfinished futures ! (p_schedule P h mod length (unfinished futures))"
    obtain plan phase where f: "futures ! k = (plan, phase)" by (cases "futures ! k")
    obtain phase' h' where step: "evict_step P timeout plan phase h = (phase', h')"
      by (cases "evict_step P timeout plan phase h")
    have k: "k < length futures" "phase \<noteq> Evicted"
      using scheduled_unfinished[OF False k_def] f by simp_all
    then have "future_ok tr plans (plan, phase)" using "1.prems"(3) f by (metis nth_mem)
    then obtain e where e: "h' = h0 @ tr @ [e]" "guarded h0 plans h'" "future_ok (tr @ [e]) plans (plan, phase')"
      using evict_step_guarded[of h0 plans tr plan phase P timeout phase' h'] "1.prems"(1,2) step k(2) by auto
    have "\<forall>f\<in>set (futures[k := (plan, phase')]). future_ok (tr @ [e]) plans f"
      using e(3) "1.prems"(3) future_ok_grow set_update_subset_insert[of futures k "(plan, phase')"] by blast
    then have "guarded h0 plans (join_evictions P timeout (futures[k := (plan, phase')]) h')"
      using "1.IH"[OF refl False k_def f[symmetric] refl step[symmetric] refl, of "tr @ [e]"] e(1,2) by simp
    then show ?thesis
      using False f step by (simp add: join_evictions.simps[of P timeout futures] Let_def k_def)
  qed
qed

lemma evict_all_guarded:
  "guarded h {plan. \<exists>name\<in>set order. \<exists>judged. map_of verdicts name = Some judged \<and>
       eviction_plan judged = Some plan} (evict_all P order verdicts timeout h)"
  unfolding evict_all_def Let_def
  by (rule join_evictions_guarded[of _ _ "[]"])
    (auto simp: guarded_refl future_ok_def set_filter_map bind_eq_Some_conv)

subsection \<open>When a process is adopted\<close>

lemma judge_adopts:
  assumes "judge_verdict P r trust observed h = (Adopt, h')"
  shows "trust = Kept \<and> \<not> is_shutting_down (rt_status (pr_runtime r)) \<and>
    (\<exists>i identity. rt_pid (pr_runtime r) = Some i \<and> rt_identity (pr_runtime r) = Some identity \<and>
       map_of observed i = Some (Alive (token identity)) \<and>
       p_digest P (render_identity (pr_spec r)) = launch_digest identity \<and>
       (\<forall>binary. p_file_digest P h (script (pr_spec r)) = Inr binary \<longrightarrow>
          binary = binary_digest identity))"
  using assms
  by (cases trust)
    (auto simp: judge_verdict_def judge_survivor_def observed_liveness_def file_digest_def Let_def
      split: if_splits option.splits liveness.splits sum.splits)

lemma judge_each_member:
  "(n, v, e) \<in> set (zip (map record_name rs) (fst (judge_each P rs trust observed h))) \<Longrightarrow>
    \<exists>r\<in>set rs. record_name r = n \<and> e = identity_token (pr_runtime r) \<and>
      (\<exists>h1. v = fst (judge_verdict P r trust observed h1))"
proof (induction rs arbitrary: h)
  case (Cons r rs)
  obtain v1 h1 where v1: "judge_verdict P r trust observed h = (v1, h1)"
    by (cases "judge_verdict P r trust observed h")
  obtain vs h2 where vs: "judge_each P rs trust observed h1 = (vs, h2)"
    by (cases "judge_each P rs trust observed h1")
  from Cons.prems v1 vs consider "n = record_name r" "v = v1" "e = identity_token (pr_runtime r)"
    | "(n, v, e) \<in> set (zip (map record_name rs) vs)" by auto
  then show ?case
  proof cases
    case 1
    with v1 show ?thesis by (intro bexI[of _ r]) (auto intro!: exI[of _ h])
  next
    case 2
    with Cons.IH[of h1] vs show ?thesis by auto
  qed
qed simp

lemma map_of_collect:
  "map_of (foldl (\<lambda>m (n, v). btree_insert n v m) m kvs) = map_of m ++ map_of (rev kvs)"
  by (induction kvs arbitrary: m)
    (auto simp: map_of_btree_insert map_add_assoc[symmetric] fun_eq_iff map_add_def split: option.splits)

lemma judge_all_lookup:
  assumes "judge_all P stored trust h = (verdicts, h')" and "map_of verdicts n = Some (v, e)"
  shows "\<exists>r\<in>set stored. record_name r = n \<and> was_supposed_to_run r \<and>
    e = identity_token (pr_runtime r) \<and>
    (\<exists>observed h1. v = fst (judge_verdict P r trust observed h1))"
proof -
  let ?awaited = "filter was_supposed_to_run stored"
  obtain observed h1 where obs: "identities_of P (filter_map (\<lambda>r. rt_pid (pr_runtime r)) ?awaited) h
      = (observed, h1)"
    by (cases "identities_of P (filter_map (\<lambda>r. rt_pid (pr_runtime r)) ?awaited) h")
  obtain vs h2 where vs: "judge_each P ?awaited trust observed h1 = (vs, h2)"
    by (cases "judge_each P ?awaited trust observed h1")
  have "map_of verdicts = map_of (rev (zip (map record_name ?awaited) vs))"
    using assms(1) obs vs by (auto simp: judge_all_def Let_def map_of_collect)
  then have "(n, v, e) \<in> set (zip (map record_name ?awaited) vs)"
    using assms(2) map_of_SomeD[of _ n] by fastforce
  then have "(n, v, e) \<in> set (zip (map record_name ?awaited)
      (fst (judge_each P ?awaited trust observed h1)))"
    using vs by simp
  from judge_each_member[OF this] show ?thesis by auto
qed

subsection \<open>After a reboot nothing is signalled\<close>

lemma surviving_pid_lost [simp]: "surviving_pid i expected Lost observed = None"
  by (cases i) (simp_all add: surviving_pid_def)

lemma sweep_each_lost [simp]: "sweep_each P stranded Lost observed timeout h = h"
  by (induction stranded) simp_all

lemma judge_verdict_signals [simp]:
  "signals (snd (judge_verdict P r trust observed h)) = signals h"
  by (auto simp: judge_verdict_def judge_survivor_def file_digest_def Let_def
      split: option.splits liveness.splits sum.splits)

lemma judge_each_signals [simp]: "signals (snd (judge_each P rs trust observed h)) = signals h"
  by (induction rs arbitrary: h) (simp_all add: case_prod_unfold Let_def)

lemma judge_all_signals [simp]: "signals (snd (judge_all P rs trust h)) = signals h"
  by (simp add: judge_all_def case_prod_unfold Let_def)

lemma judged_lost:
  "eviction_plan (fst (judge_verdict P r Lost observed h), e) = None"
  by (auto simp: judge_verdict_def eviction_plan_def Let_def)

lemma filter_map_None: "(\<And>x. x \<in> set xs \<Longrightarrow> f x = None) \<Longrightarrow> filter_map f xs = []"
  by (induction xs) auto

lemma evict_all_lost:
  assumes "judge_all P stored Lost h = (verdicts, h')"
  shows "evict_all P order verdicts timeout g = g"
proof -
  have "Option.bind (map_of verdicts name) eviction_plan = None" for name
  proof (cases "map_of verdicts name")
    case (Some judged)
    obtain v e where "judged = (v, e)" by (cases judged)
    with Some judge_all_lookup[OF assms, of name v e] judged_lost show ?thesis by auto
  qed simp
  then have "filter_map (\<lambda>name. Option.bind (map_of verdicts name) eviction_plan) order = []"
    by (intro filter_map_None)
  then show ?thesis
    by (simp add: evict_all_def join_evictions.simps[of _ _ "[]"] unfinished_def)
qed

lemma capture_identity_signals [simp]:
  "signals (snd (capture_identity P spec i h)) = signals h"
  by (auto simp: capture_identity_def identity_of_def file_digest_def Let_def split: option.splits sum.splits)

lemma launch_record_signals: "signals (snd (snd (launch_record P d m n r h))) = signals h"
proof -
  have "signals (snd (snd (launch_fresh P d n r h))) = signals h"
    using silent_ports(2)[of P _ h]
    by (simp add: launch_fresh_def case_prod_unfold Let_def split: sum.split)
  then show ?thesis by (simp add: launch_record_def Let_def)
qed

lemma launch_signals: "launch P d m n t h = Some (res, t', h') \<Longrightarrow> signals h' = signals h"
proof -
  assume run: "launch P d m n t h = Some (res, t', h')"
  then obtain r where "find_by_name t n = Some r" by (cases "find_by_name t n") (simp_all add: launch_def)
  with run have "h' = snd (snd (launch_record P d m n r h))"
    by (auto simp: launch_def case_prod_unfold Let_def)
  then show ?thesis by (simp add: launch_record_signals)
qed

subsection \<open>The take over returns\<close>

lemma adopt_returns:
  assumes "find_by_name t n = Some r" and "rt_pid (pr_runtime r) = Some i"
  shows "returns (adopt P n t h) (\<lambda>(out, t', h'). table_frame {n} t t' \<and> so_name out = n \<and>
    so_kind out = Adopted \<and> signals h' = signals h)"
proof -
  let ?r = "if record_awaits_ready r then r else on_runtime mark_online r"
  have r: "record_name ?r = record_name r" "pr_spec ?r = pr_spec r"
      "runtime_ok (pr_runtime r) \<longrightarrow> runtime_ok (pr_runtime ?r)" "rt_pid (pr_runtime ?r) = Some i"
    using assms(2) by (auto simp: on_runtime_def mark_online_def runtime_ok_def)
  have "table_frame {n} t (write_named n (\<lambda>_. ?r) t)"
    by (rule table_frame_write[OF assms(1) r(1-3)])
  then show ?thesis using assms(1) r(4) by (simp add: adopt_def outcome_of_def Let_def)
qed

lemma recover_each_returns:
  "set order \<subseteq> table_names t \<Longrightarrow> distinct order \<Longrightarrow>
    \<forall>n\<in>set order. \<forall>e. map_of verdicts n = Some (Adopt, e) \<longrightarrow>
      (\<exists>r. find_by_name t n = Some r \<and> rt_pid (pr_runtime r) \<noteq> None) \<Longrightarrow>
    returns (recover_each P d verdicts order t h) (\<lambda>(outs, t', h').
      table_frame (set order) t t' \<and> so_name ` set outs \<subseteq> set order \<and> signals h' = signals h)"
proof (induction order arbitrary: t h)
  case (Cons n order)
  have tail: "returns (recover_each P d verdicts order t1 h1) (\<lambda>(outs, t', h').
      table_frame (set (n # order)) t t' \<and> so_name ` set outs \<subseteq> set order \<and> signals h' = signals h)"
    if fr: "table_frame {n} t t1" and sig: "signals h1 = signals h" for t1 h1
  proof -
    have "find_by_name t1 m = find_by_name t m" if "m \<in> set order" for m
      using fr that Cons.prems(2) by (auto simp: table_frame_def)
    then have "returns (recover_each P d verdicts order t1 h1) (\<lambda>(outs, t', h').
        table_frame (set order) t1 t' \<and> so_name ` set outs \<subseteq> set order \<and> signals h' = signals h1)"
      using Cons.prems table_frame_names[OF fr] by (intro Cons.IH) auto
    then show ?thesis
      by (rule returns_mono) (use fr sig in \<open>auto dest: table_frame_trans\<close>)
  qed
  show ?case
  proof (cases "map_of verdicts n")
    case None
    from tail[of t h] show ?thesis
      unfolding recover_each.simps None by (auto intro: returns_mono)
  next
    case (Some judged)
    obtain v e where judged: "judged = (v, e)" by (cases judged)
    show ?thesis
    proof (cases v)
      case Adopt
      then obtain r i where r: "find_by_name t n = Some r" "rt_pid (pr_runtime r) = Some i"
        using Cons.prems(3) Some judged by auto
      then obtain out t1 h1 where ad: "adopt P n t h = Some (out, t1, h1)" "table_frame {n} t t1"
          "so_name out = n" "signals h1 = signals h"
        using adopt_returns[OF r, of P h] by (auto simp: returns_iff)
      from tail[OF ad(2,4)] show ?thesis
        using Some judged Adopt ad by (auto simp: image_subset_iff elim!: returns_mono)
    next
      case (Settle stale)
      from tail[of t h] show ?thesis
        using Some judged Settle by (auto elim!: returns_mono)
    next
      case (Respawn c stale)
      have n: "n \<in> table_names t" using Cons.prems(1) by simp
      obtain res t1 h1 where st: "launch P d Fire n t h = Some (res, t1, h1)" "table_frame {n} t t1"
          "\<forall>out. res = Inr out \<longrightarrow> so_name out = n"
        using launch_returns[OF n, of P d Fire h] by (fastforce simp: returns_iff)
      have sig: "signals h1 = signals h" by (rule launch_signals[OF st(1)])
      from tail[OF st(2) sig] show ?thesis
        using Some judged Respawn st by (cases res) (auto simp: start_one_def image_subset_iff elim!: returns_mono)
    qed
  qed
qed simp

lemma forget_unless_adopted_shape:
  "record_name (forget_unless_adopted vs r) = record_name r"
  "pr_spec (forget_unless_adopted vs r) = pr_spec r"
  by (simp_all add: forget_unless_adopted_def on_runtime_def clear_pending_def Let_def)

lemma forget_unless_adopted_ok:
  assumes "app_name (pr_spec r) = record_name r"
    and "\<And>e. map_of vs (record_name r) = Some (Adopt, e) \<Longrightarrow> rt_pid (pr_runtime r) \<noteq> None"
  shows "record_ok (forget_unless_adopted vs r)"
proof -
  have "runtime_ok (pr_runtime (forget_unless_adopted vs r))"
    using assms(2)
    by (auto simp: forget_unless_adopted_def on_runtime_def clear_pending_def runtime_ok_def
        mark_exited_def Let_def)
  then show ?thesis using assms(1) by (simp add: record_ok_def forget_unless_adopted_shape)
qed

lemma judge_all_adopts:
  assumes "judge_all P stored trust h = (vs, h')" and "distinct (map record_name stored)"
    and "r \<in> set stored" and "map_of vs (record_name r) = Some (Adopt, e)"
  shows "trust = Kept \<and> was_supposed_to_run r \<and> \<not> is_shutting_down (rt_status (pr_runtime r)) \<and>
    (\<exists>i identity. rt_pid (pr_runtime r) = Some i \<and> rt_identity (pr_runtime r) = Some identity \<and>
       p_digest P (render_identity (pr_spec r)) = launch_digest identity)"
proof -
  obtain q observed h1 where q: "q \<in> set stored" "record_name q = record_name r" "was_supposed_to_run q"
      "Adopt = fst (judge_verdict P q trust observed h1)"
    using judge_all_lookup[OF assms(1,4)] by auto
  have "q = r" using assms(2,3) q(1,2) by (auto simp: distinct_map dest: inj_onD)
  moreover obtain h2 where "judge_verdict P q trust observed h1 = (Adopt, h2)"
    using q(4) by (cases "judge_verdict P q trust observed h1") simp
  ultimately show ?thesis using judge_adopts[of P r trust observed h1 h2] q(3) by auto
qed

definition resurrect_result ::
  "process_table \<Rightarrow> (usecase_error + start_outcome list) \<times> process_table \<times> history \<Rightarrow> bool" where
  "resurrect_result t = (\<lambda>(res, t', h').
     case res of
       Inl e \<Rightarrow> t' = t
     | Inr outs \<Rightarrow> wf_table t' \<and> so_name ` set outs \<subseteq> table_names t')"

lemma resurrect_returns:
  assumes "loads_ok P"
  shows "returns (resurrect P d timeout t h) (resurrect_result t)"
proof (cases "p_load P h")
  case (Inl e)
  then show ?thesis by (simp add: resurrect_def load_dump_def resurrect_result_def Let_def)
next
  case (Inr contents)
  then have ok: "dump_ok contents" using assms by (auto simp: loads_ok_def)
  let ?stored = "dc_records contents"
  obtain init h1 where init: "identity_of P INIT_PID (h @ [LoadEv (Inr contents)]) = (init, h1)"
    by (cases "identity_of P INIT_PID (h @ [LoadEv (Inr contents)])")
  let ?boot = "into_token init"
  let ?trust = "pid_trust_of (dc_boot contents) ?boot"
  obtain vs h2 where vs: "judge_all P ?stored ?trust
      (sweep_stranded P (dc_stranded contents) ?trust timeout h1) = (vs, h2)"
    by (cases "judge_all P ?stored ?trust (sweep_stranded P (dc_stranded contents) ?trust timeout h1)")
  define t1 where "t1 = remember_boot ?boot (from_records (map (forget_unless_adopted vs) ?stored))"
  have pid: "rt_pid (pr_runtime r) \<noteq> None"
    if "r \<in> set ?stored" "map_of vs (record_name r) = Some (Adopt, e)" for r e
    using judge_all_adopts[OF vs _ that] ok by (auto simp: dump_ok_def)
  have wf: "wf_table t1"
    using ok pid
    by (auto simp: wf_table_def t1_def remember_boot_def from_records_def names_in_table_order_def
        dump_ok_def forget_unless_adopted_shape comp_def intro!: forget_unless_adopted_ok)
  obtain order where order: "dependency_order t1 = Some order" "distinct order" "set order = table_names t1"
    using dependency_order_spec[OF wf] by (auto simp: returns_iff)
  have adopted: "\<exists>r. find_by_name t1 n = Some r \<and> rt_pid (pr_runtime r) \<noteq> None"
    if n: "n \<in> set order" and v: "map_of vs n = Some (Adopt, e)" for n e
  proof -
    obtain r where r: "find_by_name t1 n = Some r" using n order(3) find_by_name_iff by auto
    then obtain q where q: "q \<in> set ?stored" "r = forget_unless_adopted vs q" "record_name q = n"
      using find_by_name_Some[OF r]
      by (auto simp: t1_def remember_boot_def from_records_def forget_unless_adopted_shape)
    then have "rt_pid (pr_runtime r) = rt_pid (pr_runtime q)"
      using v by (simp add: forget_unless_adopted_def on_runtime_def clear_pending_def Let_def)
    with r pid[of q e] q v show ?thesis by simp
  qed
  have "returns (recover_each P d vs order t1 (evict_all P order vs timeout h2)) (\<lambda>(outs, t', h').
      table_frame (set order) t1 t' \<and> so_name ` set outs \<subseteq> set order \<and>
      signals h' = signals (evict_all P order vs timeout h2))"
    using order adopted by (intro recover_each_returns) blast+
  then obtain outs t2 h3 where
    rec: "recover_each P d vs order t1 (evict_all P order vs timeout h2) = Some (outs, t2, h3)"
      "table_frame (set order) t1 t2" "so_name ` set outs \<subseteq> set order"
    by (auto simp: returns_iff)
  have "resurrect P d timeout t h = Some (Inr outs, t2, snd (save_table P t2 h3))"
    using Inr init vs order(1) rec(1)
    by (simp add: resurrect_def load_dump_def t1_def[symmetric] case_prod_unfold Let_def)
  then show ?thesis
    using rec(2,3) wf order(3) table_frame_wf table_frame_names
    by (auto simp: resurrect_result_def)
qed

lemma resurrect_after_reboot:
  assumes run: "resurrect P d timeout t h = Some (res, t', h')" and ok: "loads_ok P"
    and load: "p_load P h = Inr contents" "dc_boot contents = Some stored"
    and boot: "p_identity P (h @ [LoadEv (Inr contents)]) INIT_PID = Alive current" "current \<noteq> stored"
  shows "signals h' = signals h"
proof -
  let ?stored = "dc_records contents"
  let ?h1 = "h @ [LoadEv (Inr contents), IdentityEv INIT_PID (Alive current)]"
  have sweep: "signals (sweep_stranded P (dc_stranded contents) Lost timeout g) = signals g" for g
    by (simp add: sweep_stranded_def case_prod_unfold)
  have lost: "pid_trust_of (Some stored) (Some current) = Lost"
    using boot(2) by (simp add: pid_trust_of_def)
  obtain vs h2 where vs: "judge_all P ?stored Lost
      (sweep_stranded P (dc_stranded contents) Lost timeout ?h1) = (vs, h2)"
    by (cases "judge_all P ?stored Lost (sweep_stranded P (dc_stranded contents) Lost timeout ?h1)")
  have h2: "signals h2 = signals h"
    using judge_all_signals[of P ?stored Lost "sweep_stranded P (dc_stranded contents) Lost timeout ?h1"]
      vs sweep[of ?h1] by simp
  define t1 where "t1 = remember_boot (Some current) (from_records (map (forget_unless_adopted vs) ?stored))"
  obtain order outs t2 h3 where rec: "dependency_order t1 = Some order"
      "recover_each P d vs order t1 h2 = Some (outs, t2, h3)" "h' = snd (save_table P t2 h3)"
    using run load boot(1) lost vs evict_all_lost[OF vs]
    by (auto simp: resurrect_def load_dump_def identity_of_def into_token_def t1_def[symmetric]
        case_prod_unfold Let_def split: bind_splits)
  have "map_of vs n \<noteq> Some (Adopt, e)" for n e
    using judge_all_lookup[OF vs, of n Adopt e] judge_adopts by (metis pid_trust.distinct(1) prod.collapse)
  moreover have wf: "wf_table t1"
    using ok load(1) calculation
    by (auto simp: loads_ok_def wf_table_def t1_def remember_boot_def from_records_def
        names_in_table_order_def dump_ok_def forget_unless_adopted_shape comp_def
        intro!: forget_unless_adopted_ok)
  ultimately have "returns (recover_each P d vs order t1 h2) (\<lambda>(outs, t', h').
      table_frame (set order) t1 t' \<and> so_name ` set outs \<subseteq> set order \<and> signals h' = signals h2)"
    using dependency_order_spec[OF wf] rec(1) by (intro recover_each_returns) auto
  with rec h2 show ?thesis by simp
qed

end
