(* ===== verification/Supervisor.thy ===== *)
theory Supervisor
  imports Alerts_Timers Resurrect
begin

text \<open>
  \<^verbatim>\<open>usecases/src/supervisor.rs\<close>, \<^verbatim>\<open>supervisor_ready.rs\<close> and \<^verbatim>\<open>supervisor_liveness.rs\<close>: the
  state of the daemon and what it does on every event. A method that takes \<open>&mut self\<close> and the
  vector of effects threads the supervisor, the effects and the history of port calls; \<open>None\<close>
  is one of its \<open>expect\<close>s. Log lines are left out. The lemmas here are those that the
  definitions need: the two loops over the waiting services end.
\<close>

record supervisor =
  sv_table :: process_table
  sv_timers :: timer_state
  sv_logs_dir :: string
  sv_kill_timeout_ms :: u64
  sv_ready_timeout_ms :: u64
  sv_ready_poll_interval_ms :: u64
  sv_waiters :: "(string \<times> string list) list"
  sv_ready_failed :: "string list"
  sv_alerts :: alert_latch

type_synonym effects = "supervision_effect list"

definition supervisor_new :: "string \<Rightarrow> u64 \<Rightarrow> u64 \<Rightarrow> u64 \<Rightarrow> u64 \<Rightarrow> supervisor" where
  "supervisor_new logs_dir kill_timeout ready_timeout ready_poll notify_cooldown =
     \<lparr>sv_table = table_new, sv_timers = timers_new, sv_logs_dir = logs_dir,
      sv_kill_timeout_ms = kill_timeout, sv_ready_timeout_ms = ready_timeout,
      sv_ready_poll_interval_ms = ready_poll, sv_waiters = [], sv_ready_failed = [],
      sv_alerts = latch_new notify_cooldown\<rparr>"

subsection \<open>Small steps\<close>

definition unsettled :: "supervisor \<Rightarrow> nat" where
  "unsettled s = unsettled_count (sv_table s)"

definition survivor_pids :: "supervisor \<Rightarrow> u32 list \<Rightarrow> u32 list" where
  "survivor_pids s tracked = unswept_pids tracked (running_pids (sv_table s))"

definition drained :: "supervisor \<Rightarrow> u32 list \<Rightarrow> bool" where
  "drained s tracked \<longleftrightarrow> survivor_pids s tracked = []"

definition sv_identity_token :: "supervisor \<Rightarrow> string \<Rightarrow> string option" where
  "sv_identity_token s name = identity_token_of (sv_table s) (Name name)"

definition with_next_fire :: "supervisor \<Rightarrow> process_view \<Rightarrow> process_view" where
  "with_next_fire s v = v\<lparr>pv_next_fire_ms := next_fire_of (sv_timers s) (pv_name v)\<rparr>"

definition sv_queue_restart :: "string \<Rightarrow> u64 \<Rightarrow> supervisor \<Rightarrow> supervision_effect \<times> supervisor" where
  "sv_queue_restart name delay s =
     (ScheduleRestart name delay, s\<lparr>sv_timers := queue_one name (sv_timers s)\<rparr>)"

definition sv_disarm :: "string \<Rightarrow> supervisor \<Rightarrow> effects \<Rightarrow> supervisor \<times> effects" where
  "sv_disarm name s fx =
     (s\<lparr>sv_timers := disarm_one name (sv_timers s)\<rparr>, fx @ [DisarmTimer name])"

definition sv_cancel_restart :: "string \<Rightarrow> supervisor \<Rightarrow> effects \<Rightarrow> supervisor \<times> effects" where
  "sv_cancel_restart name s fx =
     (s\<lparr>sv_timers := snd (claim_restart name (sv_timers s))\<rparr>, fx @ [CancelRestart name])"

definition disarm_everything :: "supervisor \<Rightarrow> effects \<times> supervisor" where
  "disarm_everything s =
     (let (fire_names, timers) = disarm_all (sv_timers s);
          (restart_names, timers) = cancel_all_restarts timers
      in (map DisarmTimer fire_names @ map CancelRestart restart_names, s\<lparr>sv_timers := timers\<rparr>))"

definition sv_arm_timer ::
  "ports \<Rightarrow> string \<Rightarrow> supervisor \<Rightarrow> effects \<Rightarrow> history \<Rightarrow> supervisor \<times> effects \<times> history" where
  "sv_arm_timer P name s fx h =
     (let (s, fx) = sv_disarm name s fx in
      case schedule_of (sv_table s) name of
        None \<Rightarrow> (s, fx, h)
      | Some cron \<Rightarrow>
          let (now, h) = now_ms P h in
          case p_next_fire P h name cron now of
            None \<Rightarrow> (s, fx, h)
          | Some fire_at \<Rightarrow>
              (s\<lparr>sv_timers := arm name fire_at (sv_timers s)\<rparr>,
               fx @ [ArmTimer name fire_at (saturating_sub fire_at now)], h))"

definition schedule_force_kill ::
  "supervisor \<Rightarrow> string \<Rightarrow> u32 option \<Rightarrow> string option \<Rightarrow> effects \<Rightarrow> effects" where
  "schedule_force_kill s name i tok fx =
     (case i of
        None \<Rightarrow> fx
      | Some i \<Rightarrow>
          fx @ [ScheduleForceKill name (current_generation (sv_timers s) name) i tok
                  (sv_kill_timeout_ms s)])"

definition fire_alert ::
  "string \<Rightarrow> alert_kind \<Rightarrow> u64 \<Rightarrow> supervisor \<Rightarrow> effects \<Rightarrow> supervisor \<times> effects" where
  "fire_alert name kind now s fx =
     (let (effect, latch) = fire name kind now (sv_alerts s)
      in (s\<lparr>sv_alerts := latch\<rparr>, fx @ (case effect of None \<Rightarrow> [] | Some e \<Rightarrow> [e])))"

definition await_ready_if_probing ::
  "supervisor \<Rightarrow> string \<Rightarrow> u64 \<Rightarrow> effects \<Rightarrow> effects option" where
  "await_ready_if_probing s name generation fx =
     do { r \<leftarrow> find_by_name (sv_table s) name;
          Some (case ready_probe (pr_spec r) of
                  None \<Rightarrow> fx
                | Some probe \<Rightarrow>
                    if rt_status (pr_runtime r) \<noteq> Launching then fx
                    else fx @ [AwaitReady name generation probe
                           (case listen_timeout_ms (pr_spec r) of
                              Some timeout \<Rightarrow> timeout | None \<Rightarrow> sv_ready_timeout_ms s)
                           (sv_ready_poll_interval_ms s)]) }"

definition watch ::
  "start_outcome \<Rightarrow> supervisor \<Rightarrow> effects \<Rightarrow> (supervisor \<times> effects) option" where
  "watch started s fx =
     (case so_pid started of
        None \<Rightarrow> Some (s, fx)
      | Some i \<Rightarrow>
          if \<not> needs_watching (so_kind started) then Some (s, fx)
          else
            do { let name = so_name started;
                 let tok = sv_identity_token s name;
                 let (generation, timers) = bump name (sv_timers s);
                 let s = s\<lparr>sv_timers := timers\<rparr>;
                 fx \<leftarrow> await_ready_if_probing s name generation
                         (fx @ [WatchExit name generation i tok]);
                 Some (s, fx) })"

fun watch_all ::
  "start_outcome list \<Rightarrow> supervisor \<Rightarrow> effects \<Rightarrow> (supervisor \<times> effects) option" where
  "watch_all [] s fx = Some (s, fx)"
| "watch_all (outcome # outcomes) s fx =
     do { (s, fx) \<leftarrow> watch outcome s fx; watch_all outcomes s fx }"

definition dispatch_restart ::
  "restart_outcome \<Rightarrow> supervisor \<Rightarrow> effects \<Rightarrow> (string \<times> supervisor \<times> effects) option" where
  "dispatch_restart outcome s fx =
     (case outcome of
        Started started \<Rightarrow>
          do { (s, fx) \<leftarrow> watch started s fx; Some (so_name started, s, fx) }
      | AwaitingExit stopped \<Rightarrow>
          let name = st_name stopped; tok = sv_identity_token s name in
          Some (name, s, schedule_force_kill s name (st_force_kill_pid stopped) tok fx))"

definition restart_now ::
  "ports \<Rightarrow> string \<Rightarrow> supervisor \<Rightarrow> effects \<Rightarrow> history \<Rightarrow> (supervisor \<times> effects \<times> history) option"
where
  "restart_now P name s fx h =
     do { let (s, fx) = sv_cancel_restart name s fx;
          (attempt, table, h) \<leftarrow> restart_app P (Name name) (sv_logs_dir s) (sv_table s) h;
          let s = s\<lparr>sv_table := table\<rparr>;
          case attempt of
            Inr outcome \<Rightarrow>
              do { (restarted, s, fx) \<leftarrow> dispatch_restart outcome s fx;
                   Some (sv_arm_timer P restarted s fx h) }
          | Inl e \<Rightarrow>
              do { let (now, h) = now_ms P h;
                   let (s, fx) = fire_alert name LaunchFailed now s fx;
                   Some (sv_arm_timer P name s fx h) } }"

subsection \<open>Services that wait for another\<close>

definition forget_waiter :: "string \<Rightarrow> supervisor \<Rightarrow> supervisor" where
  "forget_waiter name s =
     s\<lparr>sv_waiters := filter (\<lambda>(dependency, ws). ws \<noteq> [])
         (map (\<lambda>(dependency, ws). (dependency, filter (\<lambda>waiter. waiter \<noteq> name) ws)) (sv_waiters s))\<rparr>"

definition remove_waiters :: "string \<Rightarrow> supervisor \<Rightarrow> string list option \<times> supervisor" where
  "remove_waiters name s =
     (map_of (sv_waiters s) name, s\<lparr>sv_waiters := AList.delete name (sv_waiters s)\<rparr>)"

definition push_waiter :: "string \<Rightarrow> string \<Rightarrow> supervisor \<Rightarrow> supervisor" where
  "push_waiter dependency name s =
     s\<lparr>sv_waiters := AList.update dependency
         ((case map_of (sv_waiters s) dependency of None \<Rightarrow> [] | Some ws \<Rightarrow> ws) @ [name])
         (sv_waiters s)\<rparr>"

definition still_waiting :: "supervisor \<Rightarrow> string \<Rightarrow> bool" where
  "still_waiting s name \<longleftrightarrow>
     list_ex (\<lambda>(dependency, ws). list_ex (\<lambda>waiter. waiter = name) ws) (sv_waiters s)"

definition mark_errored_if_settled :: "string \<Rightarrow> supervisor \<Rightarrow> supervisor option" where
  "mark_errored_if_settled name s =
     do { r \<leftarrow> find_by_name (sv_table s) name;
          Some (if \<not> is_settled (rt_status (pr_runtime r)) then s
                else s\<lparr>sv_table := write_named name (\<lambda>_. on_runtime (mark_exited Errored) r)
                                    (sv_table s)\<rparr>) }"

definition waiting_weight :: "supervisor \<Rightarrow> nat" where
  "waiting_weight s = sum_list (map (length \<circ> snd) (sv_waiters s))"

lemma weight_forget: "waiting_weight (forget_waiter name s) \<le> waiting_weight s"
proof -
  have "sum_list (map (length \<circ> snd) (filter (\<lambda>(d, ws). ws \<noteq> [])
      (map (\<lambda>(d, ws). (d, filter (\<lambda>w. w \<noteq> name) ws)) m))) \<le> sum_list (map (length \<circ> snd) m)"
    for m :: "(string \<times> string list) list"
    by (induction m) (auto intro: add_mono)
  then show ?thesis by (simp add: waiting_weight_def forget_waiter_def)
qed

lemma weight_remove:
  "waiting_weight (snd (remove_waiters name s)) +
     (case fst (remove_waiters name s) of None \<Rightarrow> 0 | Some ws \<Rightarrow> length ws) \<le> waiting_weight s"
proof -
  have less: "sum_list (map (length \<circ> snd) (AList.delete name m)) \<le> sum_list (map (length \<circ> snd) m)"
    for m :: "(string \<times> string list) list"
    by (induction m) auto
  have "sum_list (map (length \<circ> snd) (AList.delete name m)) +
      (case map_of m name of None \<Rightarrow> 0 | Some ws \<Rightarrow> length ws) \<le> sum_list (map (length \<circ> snd) m)"
    for m :: "(string \<times> string list) list"
    by (induction m) (use less in auto)
  then show ?thesis by (simp add: waiting_weight_def remove_waiters_def)
qed

lemma weight_mark: "mark_errored_if_settled name s = Some s' \<Longrightarrow> waiting_weight s' = waiting_weight s"
  by (auto simp: mark_errored_if_settled_def waiting_weight_def split: bind_splits if_splits)

text \<open>
  The vector \<open>dead\<close> is read from its end: the head of the list is what \<open>pop\<close> returns.
\<close>

function fail_loop ::
  "string list \<Rightarrow> string list \<Rightarrow> supervisor \<Rightarrow> (string list \<times> supervisor) option" where
  "fail_loop [] failed s = Some (failed, s)"
| "fail_loop (doomed # dead) failed s =
     do { s \<leftarrow> mark_errored_if_settled doomed (forget_waiter doomed s);
          let (downstream, s) = remove_waiters doomed s;
          fail_loop (rev (case downstream of None \<Rightarrow> [] | Some ws \<Rightarrow> ws) @ dead)
            (failed @ [doomed]) s }"
  by pat_completeness auto
termination
proof (relation "measure (\<lambda>(dead, failed, s). length dead + waiting_weight s)", goal_cases)
  case (2 doomed dead failed s s1 x downstream s2)
  have "waiting_weight s1 \<le> waiting_weight s"
    using weight_mark[OF 2(1)] weight_forget[of doomed s] by simp
  moreover have "waiting_weight s2 + (case downstream of None \<Rightarrow> 0 | Some ws \<Rightarrow> length ws) \<le> waiting_weight s1"
    using weight_remove[of doomed s1] 2(2,3) by (metis fst_conv snd_conv)
  ultimately show ?case by (auto split: option.splits)
qed simp

declare fail_loop.simps [simp del]

definition fail_downstream :: "string \<Rightarrow> supervisor \<Rightarrow> (string list \<times> supervisor) option" where
  "fail_downstream name s =
     (let (dead, s) = remove_waiters name s
      in fail_loop (rev (case dead of None \<Rightarrow> [] | Some ws \<Rightarrow> ws)) [] s)"

definition cancel_ready :: "string \<Rightarrow> supervisor \<Rightarrow> effects \<Rightarrow> (supervisor \<times> effects) option" where
  "cancel_ready name s fx =
     do { let s = s\<lparr>sv_ready_failed := removeAll name (sv_ready_failed s)\<rparr>;
          (_, s) \<leftarrow> fail_downstream name (forget_waiter name s);
          Some (s, fx @ [CancelReady name]) }"

definition is_launching :: "supervisor \<Rightarrow> string \<Rightarrow> bool" where
  "is_launching s name \<longleftrightarrow>
     (case find_by_name (sv_table s) name of
        None \<Rightarrow> False | Some r \<Rightarrow> rt_status (pr_runtime r) = Launching)"

definition awaits_ready :: "supervisor \<Rightarrow> string \<Rightarrow> u64 \<Rightarrow> bool" where
  "awaits_ready s name generation \<longleftrightarrow>
     (if \<not> is_current (sv_timers s) name generation then False else is_launching s name)"

definition releases_waiters :: "supervisor \<Rightarrow> string \<Rightarrow> start_kind \<Rightarrow> bool" where
  "releases_waiters s name kind \<longleftrightarrow>
     (if kind = Scheduled then True
      else case find_by_name (sv_table s) name of
             None \<Rightarrow> False | Some r \<Rightarrow> rt_status (pr_runtime r) = Online)"

definition sv_save :: "ports \<Rightarrow> supervisor \<Rightarrow> history \<Rightarrow> history" where
  "sv_save P s h = snd (save_table P (sv_table s) h)"

definition launch_waiter ::
  "ports \<Rightarrow> string \<Rightarrow> string list \<Rightarrow> supervisor \<Rightarrow> effects \<Rightarrow> history \<Rightarrow>
   (string list \<times> supervisor \<times> effects \<times> history) option" where
  "launch_waiter P waiter queue s fx h =
     do { (result, table, h) \<leftarrow> register_one P (sv_logs_dir s) waiter (sv_table s) h;
          let s = s\<lparr>sv_table := table\<rparr>;
          (released, s, fx, h) \<leftarrow>
            (case result of
               Inr outcome \<Rightarrow>
                 do { (s, fx) \<leftarrow> watch outcome s fx;
                      let (s, fx, h) = sv_arm_timer P waiter s fx h;
                      Some (releases_waiters s waiter (so_kind outcome), s, fx, h) }
             | Inl e \<Rightarrow>
                 do { s \<leftarrow> mark_errored_if_settled waiter s;
                      (_, s) \<leftarrow> fail_downstream waiter s;
                      let (now, h) = now_ms P h;
                      let (s, fx) = fire_alert waiter LaunchFailed now s fx;
                      Some (False, s, fx, h) });
          let h = sv_save P s h;
          Some (if released then waiter # queue else queue, s, fx, h) }"

fun launch_each ::
  "ports \<Rightarrow> string list \<Rightarrow> string list \<Rightarrow> supervisor \<Rightarrow> effects \<Rightarrow> history \<Rightarrow>
   (string list \<times> supervisor \<times> effects \<times> history) option" where
  "launch_each P [] queue s fx h = Some (queue, s, fx, h)"
| "launch_each P (waiter # ws) queue s fx h =
     (if still_waiting s waiter then launch_each P ws queue s fx h
      else do { (queue, s, fx, h) \<leftarrow> launch_waiter P waiter queue s fx h;
                launch_each P ws queue s fx h })"

lemma weight_timers [simp]:
  "waiting_weight (s\<lparr>sv_timers := x\<rparr>) = waiting_weight s"
  "waiting_weight (s\<lparr>sv_table := t\<rparr>) = waiting_weight s"
  "waiting_weight (s\<lparr>sv_alerts := l\<rparr>) = waiting_weight s"
  by (simp_all add: waiting_weight_def)

lemma weight_arm [simp]: "waiting_weight (fst (sv_arm_timer P n s fx h)) = waiting_weight s"
  by (simp add: sv_arm_timer_def sv_disarm_def case_prod_unfold Let_def split: option.splits)

lemma weight_fire_alert [simp]: "waiting_weight (fst (fire_alert n k now s fx)) = waiting_weight s"
  by (simp add: fire_alert_def case_prod_unfold Let_def)

lemma weight_watch: "watch out s fx = Some (s', fx') \<Longrightarrow> waiting_weight s' = waiting_weight s"
  by (auto simp: watch_def case_prod_unfold Let_def split: option.splits if_splits bind_splits)

lemma weight_fail_loop: "fail_loop dead failed s = Some (res, s') \<Longrightarrow> waiting_weight s' \<le> waiting_weight s"
proof (induction dead failed s rule: fail_loop.induct)
  case (1 failed s)
  then show ?case by (simp add: fail_loop.simps)
next
  case (2 doomed dead failed s)
  then obtain s1 where s1: "mark_errored_if_settled doomed (forget_waiter doomed s) = Some s1"
    by (auto simp: fail_loop.simps split: bind_splits)
  obtain downstream s2 where s2: "remove_waiters doomed s1 = (downstream, s2)"
    by (cases "remove_waiters doomed s1")
  have "waiting_weight s' \<le> waiting_weight s2"
    using "2.IH"[OF s1 s2[symmetric] refl] "2.prems" s1 s2 by (simp add: fail_loop.simps)
  moreover have "waiting_weight s2 \<le> waiting_weight s1" using weight_remove[of doomed s1] s2 by simp
  moreover have "waiting_weight s1 \<le> waiting_weight s"
    using weight_mark[OF s1] weight_forget[of doomed s] by simp
  ultimately show ?case by linarith
qed

lemma weight_fail: "fail_downstream n s = Some (res, s') \<Longrightarrow> waiting_weight s' \<le> waiting_weight s"
  using weight_fail_loop weight_remove[of n s]
  by (fastforce simp: fail_downstream_def case_prod_unfold Let_def)

lemma weight_launch_waiter:
  assumes "launch_waiter P n queue s fx h = Some (queue', s', fx', h')"
  shows "length queue' + waiting_weight s' \<le> length queue + waiting_weight s + 1"
proof -
  obtain result table h1 where reg: "register_one P (sv_logs_dir s) n (sv_table s) h = Some (result, table, h1)"
    using assms by (auto simp: launch_waiter_def split: bind_splits)
  show ?thesis
  proof (cases result)
    case (Inl e)
    then obtain s1 res s2 where "mark_errored_if_settled n (s\<lparr>sv_table := table\<rparr>) = Some s1"
        "fail_downstream n s1 = Some (res, s2)" "queue' = queue" "waiting_weight s' = waiting_weight s2"
      using assms reg
      by (auto simp: launch_waiter_def case_prod_unfold Let_def split: bind_splits)
    then show ?thesis using weight_mark weight_fail by fastforce
  next
    case (Inr out)
    then obtain s1 fx1 where w: "watch out (s\<lparr>sv_table := table\<rparr>) fx = Some (s1, fx1)"
        "s' = fst (sv_arm_timer P n s1 fx1 h1)" "length queue' \<le> length queue + 1"
      using assms reg
      by (auto simp: launch_waiter_def case_prod_unfold Let_def split: bind_splits if_splits)
    then show ?thesis using weight_watch[OF w(1)] by simp
  qed
qed

lemma weight_launch_each:
  "launch_each P ws queue s fx h = Some (queue', s', fx', h') \<Longrightarrow>
    length queue' + waiting_weight s' \<le> length queue + waiting_weight s + length ws"
proof (induction P ws queue s fx h rule: launch_each.induct)
  case (2 P w ws queue s fx h)
  show ?case
  proof (cases "still_waiting s w")
    case True
    with 2 show ?thesis by simp
  next
    case False
    with "2.prems" obtain q1 s1 fx1 h1 where w: "launch_waiter P w queue s fx h = Some (q1, s1, fx1, h1)"
        "launch_each P ws q1 s1 fx1 h1 = Some (queue', s', fx', h')"
      by (auto split: bind_splits)
    with "2.IH"(2)[OF False w(1) refl refl refl w(2)] weight_launch_waiter[OF w(1)] show ?thesis
      by simp
  qed
qed simp

function launch_loop ::
  "ports \<Rightarrow> string list \<Rightarrow> supervisor \<Rightarrow> effects \<Rightarrow> history \<Rightarrow>
   (supervisor \<times> effects \<times> history) option" where
  "launch_loop P [] s fx h = Some (s, fx, h)"
| "launch_loop P (ready # queue) s fx h =
     (case remove_waiters ready s of
        (None, s) \<Rightarrow> launch_loop P queue s fx h
      | (Some ws, s) \<Rightarrow>
          do { (queue, s, fx, h) \<leftarrow> launch_each P ws queue s fx h;
               launch_loop P queue s fx h })"
  by pat_completeness auto
termination
proof (relation "measure (\<lambda>(P, queue, s, fx, h). length queue + waiting_weight s)", goal_cases)
  case (2 P ready queue s fx h x y)
  then show ?case using weight_remove[of ready s] by (auto simp: prod_eq_iff)
next
  case (3 P ready queue s fx h x s1 ws res q1 y s2 y' fx2 h2)
  have "waiting_weight s1 + length ws \<le> waiting_weight s"
  proof -
    have "remove_waiters ready s = (Some ws, s1)" using 3(1,2) by (simp add: prod_eq_iff)
    then show ?thesis using weight_remove[of ready s] by simp
  qed
  moreover have "length q1 + waiting_weight s2 \<le> length queue + waiting_weight s1 + length ws"
    using 3 weight_launch_each by fastforce
  ultimately show ?case by simp
qed simp

declare launch_loop.simps [simp del]

definition launch_waiters ::
  "ports \<Rightarrow> string \<Rightarrow> supervisor \<Rightarrow> effects \<Rightarrow> history \<Rightarrow> (supervisor \<times> effects \<times> history) option"
where
  "launch_waiters P name s fx h = launch_loop P [name] s fx h"

subsection \<open>Readiness\<close>

definition on_ready ::
  "ports \<Rightarrow> string \<Rightarrow> u64 \<Rightarrow> supervisor \<Rightarrow> history \<Rightarrow> (effects \<times> supervisor \<times> history) option" where
  "on_ready P name generation s h =
     (if \<not> awaits_ready s name generation then Some ([], s, h)
      else
        do { r \<leftarrow> find_by_name (sv_table s) name;
             let s = s\<lparr>sv_table := write_named name (\<lambda>_. on_runtime mark_online r) (sv_table s)\<rparr>;
             let h = sv_save P s h;
             (s, fx, h) \<leftarrow> launch_waiters P name s [] h;
             Some (fx, s, h) })"

definition on_ready_timeout ::
  "ports \<Rightarrow> string \<Rightarrow> u64 \<Rightarrow> supervisor \<Rightarrow> history \<Rightarrow> (effects \<times> supervisor \<times> history) option" where
  "on_ready_timeout P name generation s h =
     (if \<not> awaits_ready s name generation then Some ([], s, h)
      else
        do { let s = s\<lparr>sv_ready_failed := List.insert name (sv_ready_failed s)\<rparr>;
             r \<leftarrow> find_by_name (sv_table s) name;
             let r = on_runtime mark_stopping r;
             i \<leftarrow> rt_pid (pr_runtime r);
             let tok = identity_token (pr_runtime r);
             let s = s\<lparr>sv_table := write_named name (\<lambda>_. r) (sv_table s)\<rparr>;
             let (_, h) = terminate P i ProcessGroup h;
             let fx = schedule_force_kill s name (Some i) tok [];
             (downstream, s) \<leftarrow> fail_downstream name s;
             let (now, h) = now_ms P h;
             let (s, fx) = fire_alert name (ReadyFailed downstream) now s fx;
             let h = sv_save P s h;
             Some (fx, s, h) })"

subsection \<open>Events\<close>

definition on_exit ::
  "ports \<Rightarrow> string \<Rightarrow> u64 \<Rightarrow> exit_outcome \<Rightarrow> supervisor \<Rightarrow> history \<Rightarrow>
   (effects \<times> supervisor \<times> history) option" where
  "on_exit P name generation outcome s h =
     (if \<not> is_current (sv_timers s) name generation then Some ([], s, h)
      else
        let fx = [CancelForceKill name] in
        if find_by_name (sv_table s) name = None then Some (fx, s, h)
        else if List.member (sv_ready_failed s) name then
          do { let s = s\<lparr>sv_ready_failed := removeAll name (sv_ready_failed s)\<rparr>;
               (result, table, h) \<leftarrow> settle_failed_probe P name (sv_table s) h;
               Some (fx, s\<lparr>sv_table := table\<rparr>, h) }
        else
          do { (action, table, h) \<leftarrow> handle_child_exit P name outcome (sv_table s) h;
               let s = s\<lparr>sv_table := table\<rparr>;
               case action of
                 RestartAfter delay \<Rightarrow>
                   let (effect, s) = sv_queue_restart name delay s in Some (fx @ [effect], s, h)
               | Settled status alarming \<Rightarrow>
                   do { (_, s) \<leftarrow> fail_downstream name s;
                        let (now, h) = now_ms P h;
                        let (effect, latch) = settle name outcome alarming now (sv_alerts s);
                        Some (fx @ (case effect of None \<Rightarrow> [] | Some e \<Rightarrow> [e]),
                              s\<lparr>sv_alerts := latch\<rparr>, h) } })"

definition on_restart ::
  "ports \<Rightarrow> string \<Rightarrow> supervisor \<Rightarrow> history \<Rightarrow> (effects \<times> supervisor \<times> history) option" where
  "on_restart P name s h =
     (let (claimed, timers) = claim_restart name (sv_timers s);
          s = s\<lparr>sv_timers := timers\<rparr>
      in if \<not> claimed then Some ([], s, h)
         else do { (s, fx, h) \<leftarrow> restart_now P name s [] h; Some (fx, s, h) })"

definition on_fire ::
  "ports \<Rightarrow> string \<Rightarrow> u64 \<Rightarrow> supervisor \<Rightarrow> history \<Rightarrow> (effects \<times> supervisor \<times> history) option" where
  "on_fire P name fire_at s h =
     (if \<not> fire_is_due (sv_timers s) name fire_at then Some ([], s, h)
      else do { (s, fx, h) \<leftarrow> restart_now P name s [] h; Some (fx, s, h) })"

definition restart_tripped ::
  "ports \<Rightarrow> string \<Rightarrow> alert_kind \<Rightarrow> supervisor \<Rightarrow> effects \<Rightarrow> history \<Rightarrow>
   (supervisor \<times> effects \<times> history) option" where
  "restart_tripped P name kind s fx h =
     do { let (now, h) = now_ms P h;
          let (s, fx) = fire_alert name kind now s fx;
          (s, fx, h) \<leftarrow> restart_now P name s fx h;
          r \<leftarrow> find_by_name (sv_table s) name;
          Some (s\<lparr>sv_table := write_named name (\<lambda>_. hand_to_the_breaker r) (sv_table s)\<rparr>, fx, h) }"

fun restart_breached ::
  "ports \<Rightarrow> memory_breach list \<Rightarrow> supervisor \<Rightarrow> effects \<Rightarrow> history \<Rightarrow>
   (supervisor \<times> effects \<times> history) option" where
  "restart_breached P [] s fx h = Some (s, fx, h)"
| "restart_breached P (breach # breaches) s fx h =
     do { (s, fx, h) \<leftarrow> restart_tripped P (mb_name breach) MemoryKilled s fx h;
          restart_breached P breaches s fx h }"

definition on_memory_sample ::
  "ports \<Rightarrow> u64 \<Rightarrow> supervisor \<Rightarrow> history \<Rightarrow> (effects \<times> supervisor \<times> history) option" where
  "on_memory_sample P interval s h =
     (let fx = [ScheduleMemorySample interval];
          watched = memory_watch_list (sv_table s)
      in if watched = [] then Some (fx, s, h)
         else
           do { let (sampled, h) = resident_memory P (map mw_pid watched) h;
                (s, fx, h) \<leftarrow> restart_breached P (breached_memory watched sampled) s fx h;
                Some (fx, s, h) })"

fun probe_watched ::
  "ports \<Rightarrow> u32 \<Rightarrow> liveness_watch list \<Rightarrow> supervisor \<Rightarrow> effects \<Rightarrow> history \<Rightarrow>
   (supervisor \<times> effects \<times> history) option" where
  "probe_watched P threshold [] s fx h = Some (s, fx, h)"
| "probe_watched P threshold (w # ws) s fx h =
     do { let (verdict, h) = check_ready P (lw_probe w) h;
          r \<leftarrow> find_by_name (sv_table s) (lw_name w);
          let (tripped, r) = record_liveness r verdict threshold;
          let s = s\<lparr>sv_table := write_named (lw_name w) (\<lambda>_. r) (sv_table s)\<rparr>;
          (s, fx, h) \<leftarrow> (if tripped then restart_tripped P (lw_name w) LivenessKilled s fx h
                        else Some (s, fx, h));
          probe_watched P threshold ws s fx h }"

definition settle_the_stable :: "ports \<Rightarrow> supervisor \<Rightarrow> history \<Rightarrow> supervisor \<times> history" where
  "settle_the_stable P s h =
     (let (now, h) = now_ms P h;
          (settled, table) = settle_stability_all (sv_table s) now;
          s = s\<lparr>sv_table := table\<rparr>
      in if settled = [] then (s, h) else (s, sv_save P s h))"

definition on_liveness_sample ::
  "ports \<Rightarrow> u64 \<Rightarrow> u32 \<Rightarrow> supervisor \<Rightarrow> history \<Rightarrow> (effects \<times> supervisor \<times> history) option" where
  "on_liveness_sample P interval threshold s h =
     do { (s, fx, h) \<leftarrow> probe_watched P threshold (liveness_watch_list (sv_table s)) s
                         [ScheduleLivenessSample interval] h;
          let (s, h) = settle_the_stable P s h;
          Some (fx, s, h) }"

definition on_log_rotate ::
  "ports \<Rightarrow> u64 \<Rightarrow> u64 \<Rightarrow> supervisor \<Rightarrow> history \<Rightarrow> effects \<times> history" where
  "on_log_rotate P max_bytes interval s h =
     (let fx = [ScheduleLogRotate interval] in
      if max_bytes = 0 then (fx, h) else (fx, snd (rotate_logs P (sv_logs_dir s) max_bytes h)))"

definition sweep_pid :: "ports \<Rightarrow> u32 \<Rightarrow> string option \<Rightarrow> history \<Rightarrow> history" where
  "sweep_pid P i tok h =
     (let (l, h) = identity_of P i h in
      if pid_was_recycled l tok then h else snd (force_kill P i ProcessGroup h))"

definition on_force_kill ::
  "ports \<Rightarrow> string \<Rightarrow> u64 \<Rightarrow> u32 \<Rightarrow> string option \<Rightarrow> supervisor \<Rightarrow> history \<Rightarrow> history" where
  "on_force_kill P name generation i tok s h =
     (if tok = None \<and> \<not> is_current (sv_timers s) name generation then h
      else
        let (tracked, h) = tracked_pids P h in
        if \<not> List.member tracked i then h else sweep_pid P i tok h)"

fun force_kill_each :: "ports \<Rightarrow> u32 list \<Rightarrow> supervisor \<Rightarrow> history \<Rightarrow> history" where
  "force_kill_each P [] s h = h"
| "force_kill_each P (i # is) s h =
     (let (name, tok) = owner_of_pid (sv_table s) i
      in force_kill_each P is s (sweep_pid P i tok h))"

definition force_kill_survivors :: "ports \<Rightarrow> u32 list \<Rightarrow> supervisor \<Rightarrow> history \<Rightarrow> history" where
  "force_kill_survivors P tracked s h = force_kill_each P (survivor_pids s tracked) s h"

definition prepare_shutdown ::
  "ports \<Rightarrow> supervisor \<Rightarrow> history \<Rightarrow> effects \<times> supervisor \<times> history" where
  "prepare_shutdown P s h =
     (let (fx, s) = disarm_everything s
      in (fx, s, snd (persist_for_handover P (sv_table s) h)))"

fun arm_each ::
  "ports \<Rightarrow> string list \<Rightarrow> supervisor \<Rightarrow> effects \<Rightarrow> history \<Rightarrow> supervisor \<times> effects \<times> history" where
  "arm_each P [] s fx h = (s, fx, h)"
| "arm_each P (name # names) s fx h =
     (let (s, fx, h) = sv_arm_timer P name s fx h in arm_each P names s fx h)"

definition resurrect_saved ::
  "ports \<Rightarrow> supervisor \<Rightarrow> history \<Rightarrow> ((usecase_error + effects) \<times> supervisor \<times> history) option" where
  "resurrect_saved P s h =
     do { (result, table, h) \<leftarrow> resurrect P (sv_logs_dir s) (sv_kill_timeout_ms s) (sv_table s) h;
          let s = s\<lparr>sv_table := table\<rparr>;
          case result of
            Inl e \<Rightarrow>
              if blocks_takeover e then Some (Inl e, s, h)
              else
                let (s, fx, h) = arm_each P (armed_schedule_names (sv_table s)) s [] h
                in Some (Inr fx, s, h)
          | Inr outcomes \<Rightarrow>
              do { (s, fx) \<leftarrow> watch_all outcomes s [];
                   let (s, fx, h) = arm_each P (armed_schedule_names (sv_table s)) s fx h;
                   Some (Inr fx, s, h) } }"

end
