(* ===== verification/Supervisor_Requests.thy ===== *)
theory Supervisor_Requests
  imports Supervisor
begin

text \<open>
  \<^verbatim>\<open>usecases/src/supervisor_handlers.rs\<close> and \<open>Supervisor::handle\<close>: the answer to every
  request of the operator. A handler returns its outcome, the supervisor, the effects and the
  history; \<open>None\<close> is one of its \<open>expect\<close>s.
\<close>

type_synonym handled = "(supervision_outcome \<times> supervisor \<times> effects \<times> history) option"

subsection \<open>Starting\<close>

fun prepare_all ::
  "resolver \<Rightarrow> string list \<Rightarrow> history \<Rightarrow> (spec_resolve_error + app_spec list) \<times> history" where
  "prepare_all R [] h = (Inr [], h)"
| "prepare_all R (name # services) h =
     (case prepare R name h of
        (Inl e, h) \<Rightarrow> (Inl e, h)
      | (Inr spec, h) \<Rightarrow>
          (case prepare_all R services h of
             (Inl e, h) \<Rightarrow> (Inl e, h)
           | (Inr specs, h) \<Rightarrow> (Inr (spec # specs), h)))"

definition push_deferred :: "deferred_start \<Rightarrow> supervisor \<Rightarrow> supervisor" where
  "push_deferred deferred s =
     foldl (\<lambda>s dependency. push_waiter dependency (ds_name deferred) s) s (ds_waiting_on deferred)"

fun arm_started ::
  "ports \<Rightarrow> start_outcome list \<Rightarrow> supervisor \<Rightarrow> effects \<Rightarrow> history \<Rightarrow> supervisor \<times> effects \<times> history"
where
  "arm_started P [] s fx h = (s, fx, h)"
| "arm_started P (outcome # outcomes) s fx h =
     (let (s, fx) = sv_cancel_restart (so_name outcome) s fx;
          (s, fx, h) = (if so_kind outcome \<noteq> Deferred then sv_arm_timer P (so_name outcome) s fx h
                        else (s, fx, h))
      in arm_started P outcomes s fx h)"

definition sv_start ::
  "ports \<Rightarrow> resolver \<Rightarrow> string list \<Rightarrow> supervisor \<Rightarrow> effects \<Rightarrow> history \<Rightarrow> handled" where
  "sv_start P R services s fx h =
     (case prepare_all R services h of
        (Inl e, h) \<Rightarrow> Some (Inl (SpecFailure e), s, fx, h)
      | (Inr specs, h) \<Rightarrow>
          do { (report, table, h) \<leftarrow> start_apps P specs (sv_logs_dir s) (sv_table s) h;
               let s = s\<lparr>sv_table := table\<rparr>;
               (s, fx) \<leftarrow> watch_all (sr_outcomes report) s fx;
               let s = foldl (\<lambda>s deferred. push_deferred deferred s) s (sr_pending report);
               let (s, fx, h) = arm_started P (sr_outcomes report) s fx h;
               if sr_outcomes report = [] then
                 Some (case (case sr_failure report of Some e \<Rightarrow> Some e | None \<Rightarrow> sr_unsaved report) of
                         Some e \<Rightarrow> Inl (UsecaseFailure e)
                       | None \<Rightarrow> Inr (StartedReply [] [] None None), s, fx, h)
               else
                 Some (Inr (StartedReply (sr_outcomes report)
                         (refused_services services (sr_outcomes report))
                         (map_option usecase_error_text (sr_failure report))
                         (map_option usecase_error_text (sr_unsaved report))), s, fx, h) })"

subsection \<open>Stopping and deleting\<close>

definition retire ::
  "string \<Rightarrow> u32 option \<Rightarrow> string option \<Rightarrow> supervisor \<Rightarrow> effects \<Rightarrow> (supervisor \<times> effects) option"
where
  "retire name i tok s fx =
     do { let (s, fx) = sv_disarm name s fx;
          let (s, fx) = sv_cancel_restart name s fx;
          (s, fx) \<leftarrow> cancel_ready name s fx;
          let s = s\<lparr>sv_alerts := forget name (sv_alerts s)\<rparr>;
          Some (s, schedule_force_kill s name i tok fx) }"

definition cover_draining ::
  "app_selector \<Rightarrow> supervisor \<Rightarrow> effects \<Rightarrow> (supervisor \<times> effects) option" where
  "cover_draining selector s fx =
     (case find_record (sv_table s) selector of
        None \<Rightarrow> Some (s, fx)
      | Some r \<Rightarrow>
          if \<not> is_shutting_down (rt_status (pr_runtime r)) then Some (s, fx)
          else
            do { i \<leftarrow> rt_pid (pr_runtime r);
                 retire (record_name r) (Some i) (identity_token_of (sv_table s) selector) s fx })"

fun schedule_each ::
  "supervisor \<Rightarrow> (string \<times> u32 option \<times> string option) list \<Rightarrow> effects \<Rightarrow> effects" where
  "schedule_each s [] fx = fx"
| "schedule_each s ((name, i, tok) # rest) fx =
     schedule_each s rest (schedule_force_kill s name i tok fx)"

fun cancel_ready_each ::
  "string list \<Rightarrow> supervisor \<Rightarrow> effects \<Rightarrow> (supervisor \<times> effects) option" where
  "cancel_ready_each [] s fx = Some (s, fx)"
| "cancel_ready_each (name # names) s fx =
     do { (s, fx) \<leftarrow> cancel_ready name s fx; cancel_ready_each names s fx }"

definition sv_stop_all :: "ports \<Rightarrow> supervisor \<Rightarrow> effects \<Rightarrow> history \<Rightarrow> handled" where
  "sv_stop_all P s fx h =
     do { let (disarmed, s) = disarm_everything s;
          let fx = fx @ disarmed;
          (stopped, table, h) \<leftarrow> stop_all_apps P (sv_table s) h;
          let s = s\<lparr>sv_table := table\<rparr>;
          let covered = filter_map st_force_kill_pid stopped;
          let fx = schedule_each s
            (map (\<lambda>out. (st_name out, st_force_kill_pid out, sv_identity_token s (st_name out))) stopped)
            fx;
          (s, fx) \<leftarrow> cancel_ready_each (names_in_table_order (sv_table s)) s fx;
          let (tracked, h) = tracked_pids P h;
          let fx = schedule_each s
            (map (\<lambda>i. let (name, tok) = owner_of_pid (sv_table s) i in (name, Some i, tok))
              (unswept_pids tracked covered)) fx;
          Some (Inr (StoppedAllReply (map st_name stopped)), s, fx, h) }"

definition sv_stop ::
  "ports \<Rightarrow> app_selector \<Rightarrow> supervisor \<Rightarrow> effects \<Rightarrow> history \<Rightarrow> handled" where
  "sv_stop P selector s fx h =
     (if selector = All then sv_stop_all P s fx h
      else
        let (attempted, table, h) = stop_app P selector (sv_table s) h;
            s = s\<lparr>sv_table := table\<rparr>
        in case attempted of
             Inl e \<Rightarrow>
               do { (s, fx) \<leftarrow> cover_draining selector s fx;
                    Some (Inl (UsecaseFailure e), s, fx, h) }
           | Inr outcome \<Rightarrow>
               do { let tok = sv_identity_token s (st_name outcome);
                    (s, fx) \<leftarrow> retire (st_name outcome) (st_force_kill_pid outcome) tok s fx;
                    Some (Inr (StoppedReply (st_name outcome)), s, fx, h) })"

fun delete_each ::
  "ports \<Rightarrow> string list \<Rightarrow> supervisor \<Rightarrow> effects \<Rightarrow> history \<Rightarrow>
   (string list \<times> supervisor \<times> effects \<times> history) option" where
  "delete_each P [] s fx h = Some ([], s, fx, h)"
| "delete_each P (name # order) s fx h =
     do { let tok = sv_identity_token s name;
          (result, table, h) \<leftarrow> delete_one P name (sv_table s) h;
          let s = s\<lparr>sv_table := table\<rparr>;
          case result of
            Inr outcome \<Rightarrow>
              do { (s, fx) \<leftarrow> retire (st_name outcome) (st_force_kill_pid outcome) tok s fx;
                   (names, s, fx, h) \<leftarrow> delete_each P order s fx h;
                   Some (st_name outcome # names, s, fx, h) }
          | Inl e \<Rightarrow>
              do { (s, fx) \<leftarrow> cover_draining (Name name) s fx;
                   delete_each P order s fx h } }"

definition sv_delete_all :: "ports \<Rightarrow> supervisor \<Rightarrow> effects \<Rightarrow> history \<Rightarrow> handled" where
  "sv_delete_all P s fx h =
     do { order \<leftarrow> dependency_order (sv_table s);
          (names, s, fx, h) \<leftarrow> delete_each P (rev order) s fx h;
          Some (Inr (DeletedAllReply names), s, fx, h) }"

definition sv_delete ::
  "ports \<Rightarrow> app_selector \<Rightarrow> supervisor \<Rightarrow> effects \<Rightarrow> history \<Rightarrow> handled" where
  "sv_delete P selector s fx h =
     (if selector = All then sv_delete_all P s fx h
      else
        do { let tok = identity_token_of (sv_table s) selector;
             (attempted, table, h) \<leftarrow> delete_app P selector (sv_table s) h;
             let s = s\<lparr>sv_table := table\<rparr>;
             case attempted of
               Inl e \<Rightarrow>
                 do { (s, fx) \<leftarrow> cover_draining selector s fx;
                      Some (Inl (UsecaseFailure e), s, fx, h) }
             | Inr outcome \<Rightarrow>
                 do { (s, fx) \<leftarrow> retire (st_name outcome) (st_force_kill_pid outcome) tok s fx;
                      Some (Inr (DeletedReply (st_name outcome)), s, fx, h) } })"

subsection \<open>Restarting\<close>

definition reload_declaration ::
  "resolver \<Rightarrow> app_selector \<Rightarrow> supervisor \<Rightarrow> history \<Rightarrow>
   (spec_resolve_error + unit) \<times> supervisor \<times> history" where
  "reload_declaration R selector s h =
     (case find_record (sv_table s) selector of
        None \<Rightarrow> (Inr (), s, h)
      | Some r \<Rightarrow>
          (case prepare R (record_name r) h of
             (Inl e, h) \<Rightarrow> (Inl e, s, h)
           | (Inr spec, h) \<Rightarrow>
               (Inr (), s\<lparr>sv_table := write_record selector (\<lambda>_. r\<lparr>pr_spec := spec\<rparr>) (sv_table s)\<rparr>,
                h)))"

definition reload_spec :: "string \<Rightarrow> app_spec \<Rightarrow> supervisor \<Rightarrow> supervisor option" where
  "reload_spec name spec s =
     do { r \<leftarrow> find_by_name (sv_table s) name;
          Some (s\<lparr>sv_table := write_named name (\<lambda>_. r\<lparr>pr_spec := spec\<rparr>) (sv_table s)\<rparr>) }"

fun restart_each ::
  "ports \<Rightarrow> resolver \<Rightarrow> string list \<Rightarrow> supervisor \<Rightarrow> effects \<Rightarrow> history \<Rightarrow>
   (string list \<times> supervisor \<times> effects \<times> history) option" where
  "restart_each P R [] s fx h = Some ([], s, fx, h)"
| "restart_each P R (name # names) s fx h =
     (case prepare R name h of
        (Inl e, h) \<Rightarrow> restart_each P R names s fx h
      | (Inr spec, h) \<Rightarrow>
          do { s \<leftarrow> reload_spec name spec s;
               (attempt, table, h) \<leftarrow> restart_app P (Name name) (sv_logs_dir s) (sv_table s) h;
               let s = s\<lparr>sv_table := table\<rparr>;
               case attempt of
                 Inr outcome \<Rightarrow>
                   do { (restarted, s, fx) \<leftarrow> dispatch_restart outcome s fx;
                        let (s, fx) = sv_cancel_restart restarted s fx;
                        let (s, fx, h) = sv_arm_timer P restarted s fx h;
                        (done, s, fx, h) \<leftarrow> restart_each P R names s fx h;
                        Some (restarted # done, s, fx, h) }
               | Inl e \<Rightarrow>
                   do { let (s, fx, h) = sv_arm_timer P name s fx h;
                        restart_each P R names s fx h } })"

definition sv_restart ::
  "ports \<Rightarrow> resolver \<Rightarrow> app_selector \<Rightarrow> supervisor \<Rightarrow> effects \<Rightarrow> history \<Rightarrow> handled" where
  "sv_restart P R selector s fx h =
     (if selector = All then
        do { (names, s, fx, h) \<leftarrow> restart_each P R (names_in_table_order (sv_table s)) s fx h;
             Some (Inr (RestartedAllReply names), s, fx, h) }
      else
        (case reload_declaration R selector s h of
           (Inl e, s, h) \<Rightarrow> Some (Inl (SpecFailure e), s, fx, h)
         | (Inr _, s, h) \<Rightarrow>
             do { (attempt, table, h) \<leftarrow> restart_app P selector (sv_logs_dir s) (sv_table s) h;
                  let s = s\<lparr>sv_table := table\<rparr>;
                  case attempt of
                    Inl e \<Rightarrow> Some (Inl (UsecaseFailure e), s, fx, h)
                  | Inr outcome \<Rightarrow>
                      do { (name, s, fx) \<leftarrow> dispatch_restart outcome s fx;
                           let (s, fx) = sv_cancel_restart name s fx;
                           let (s, fx, h) = sv_arm_timer P name s fx h;
                           Some (Inr (RestartedReply name), s, fx, h) } }))"

subsection \<open>Resetting, signalling and looking\<close>

fun reset_each ::
  "ports \<Rightarrow> string list \<Rightarrow> process_table \<Rightarrow> history \<Rightarrow> string list \<times> process_table \<times> history" where
  "reset_each P [] table h = ([], table, h)"
| "reset_each P (name # names) table h =
     (let (result, table, h) = reset_app P (Name name) table h;
          (done, table, h) = reset_each P names table h
      in (case result of Inr n \<Rightarrow> n # done | Inl e \<Rightarrow> done, table, h))"

definition sv_reset ::
  "ports \<Rightarrow> app_selector \<Rightarrow> supervisor \<Rightarrow> effects \<Rightarrow> history \<Rightarrow> handled" where
  "sv_reset P selector s fx h =
     (if selector = All then
        let (names, table, h) = reset_each P (names_in_table_order (sv_table s)) (sv_table s) h
        in Some (Inr (ResetAllReply names), s\<lparr>sv_table := table\<rparr>, fx, h)
      else
        let (result, table, h) = reset_app P selector (sv_table s) h
        in Some (case result of Inl e \<Rightarrow> Inl (UsecaseFailure e) | Inr name \<Rightarrow> Inr (ResetReply name),
                 s\<lparr>sv_table := table\<rparr>, fx, h))"

definition sv_signal ::
  "ports \<Rightarrow> app_selector \<Rightarrow> string \<Rightarrow> supervisor \<Rightarrow> effects \<Rightarrow> history \<Rightarrow> handled" where
  "sv_signal P selector signal s fx h =
     (let (result, h) = signal_app P selector signal (sv_table s) h
      in Some (case result of
                 Inl e \<Rightarrow> Inl (UsecaseFailure e)
               | Inr out \<Rightarrow> Inr (SignalledReply (sg_name out) (sg_signal out)), s, fx, h))"

definition sv_list :: "ports \<Rightarrow> supervisor \<Rightarrow> effects \<Rightarrow> history \<Rightarrow> handled" where
  "sv_list P s fx h =
     (let (now, h) = now_ms P h;
          views = map (with_next_fire s) (list_apps (sv_table s) now);
          (samples, h) = resource_usage P (filter_map pv_pid views) h
      in Some (Inr (ListedReply (map (with_sample samples) views)), s, fx, h))"

definition sv_describe ::
  "ports \<Rightarrow> app_selector \<Rightarrow> supervisor \<Rightarrow> effects \<Rightarrow> history \<Rightarrow> handled" where
  "sv_describe P selector s fx h =
     (let (now, h) = now_ms P h in
      case describe_app (sv_table s) selector now of
        Inl e \<Rightarrow> Some (Inl (UsecaseFailure e), s, fx, h)
      | Inr v \<Rightarrow>
          let v = with_next_fire s v;
              (samples, h) = resource_usage P (case pv_pid v of None \<Rightarrow> [] | Some i \<Rightarrow> [i]) h
          in Some (Inr (DescribedReply (with_sample samples v)), s, fx, h))"

definition handle ::
  "ports \<Rightarrow> resolver \<Rightarrow> supervision_request \<Rightarrow> supervisor \<Rightarrow> history \<Rightarrow> handled" where
  "handle P R request s h =
     (case request of
        StartRequest services \<Rightarrow> sv_start P R services s [] h
      | ListRequest \<Rightarrow> sv_list P s [] h
      | DescribeRequest selector \<Rightarrow> sv_describe P selector s [] h
      | StopRequest selector \<Rightarrow> sv_stop P selector s [] h
      | RestartRequest selector \<Rightarrow> sv_restart P R selector s [] h
      | DeleteRequest selector \<Rightarrow> sv_delete P selector s [] h
      | ResetRequest selector \<Rightarrow> sv_reset P selector s [] h
      | SignalRequest selector signal \<Rightarrow> sv_signal P selector signal s [] h
      | StopAllRequest \<Rightarrow> sv_stop_all P s [] h)"

end
