(* ===== verification/Supervisor_Inv.thy ===== *)
theory Supervisor_Inv
  imports Supervisor_Requests
begin

text \<open>
  The invariant of the supervisor and its consequence: none of the \<open>expect\<close>s of the use cases
  can fail. The table is well formed, every service that waits for another has a record, and no
  generation is ahead of the counter. Every event handler and every request keeps this and
  returns; the boot of a daemon establishes it. The commands a daemon receives are the steps
  of a state machine, and its reachable states are an inductive set.
\<close>

subsection \<open>The invariant\<close>

definition waiters_in :: "string set \<Rightarrow> supervisor \<Rightarrow> bool" where
  "waiters_in S s \<longleftrightarrow> (\<forall>(dependency, ws)\<in>set (sv_waiters s). set ws \<subseteq> S)"

abbreviation sv_names :: "supervisor \<Rightarrow> string set" where
  "sv_names s \<equiv> table_names (sv_table s)"

definition sv_inv :: "supervisor \<Rightarrow> bool" where
  "sv_inv s \<longleftrightarrow> wf_table (sv_table s) \<and> waiters_in (sv_names s) s \<and> generations_ok (sv_timers s)"

text \<open>
  \<open>sv_keeps s s'\<close>: the step from \<open>s\<close> to \<open>s'\<close> neither adds nor removes a service, makes no
  other service wait, and keeps the invariant.
\<close>

definition sv_keeps :: "supervisor \<Rightarrow> supervisor \<Rightarrow> bool" where
  "sv_keeps s s' \<longleftrightarrow>
     names_in_table_order (sv_table s') = names_in_table_order (sv_table s) \<and>
     (wf_table (sv_table s) \<longrightarrow> wf_table (sv_table s')) \<and>
     (\<forall>S. waiters_in S s \<longrightarrow> waiters_in S s') \<and>
     (generations_ok (sv_timers s) \<longrightarrow> generations_ok (sv_timers s'))"

lemma sv_keeps_refl [simp]: "sv_keeps s s"
  by (simp add: sv_keeps_def)

lemma sv_keeps_trans: "sv_keeps s s' \<Longrightarrow> sv_keeps s' s'' \<Longrightarrow> sv_keeps s s''"
  by (simp add: sv_keeps_def)

lemma sv_keeps_inv: "sv_keeps s s' \<Longrightarrow> sv_inv s \<Longrightarrow> sv_inv s'"
  by (simp add: sv_keeps_def sv_inv_def)

lemma sv_keeps_names: "sv_keeps s s' \<Longrightarrow> sv_names s' = sv_names s"
  by (simp add: sv_keeps_def)

lemma sv_inv_wf: "sv_inv s \<Longrightarrow> wf_table (sv_table s)"
  by (simp add: sv_inv_def)

lemma sv_inv_waiters: "sv_inv s \<Longrightarrow> waiters_in (sv_names s) s"
  by (simp add: sv_inv_def)

lemma keeps_table: "table_frame ns (sv_table s) t \<Longrightarrow> sv_keeps s (s\<lparr>sv_table := t\<rparr>)"
  by (simp add: sv_keeps_def table_frame_def waiters_in_def)

lemma keeps_timers:
  "generations_ok (sv_timers s) \<longrightarrow> generations_ok x \<Longrightarrow> sv_keeps s (s\<lparr>sv_timers := x\<rparr>)"
  by (simp add: sv_keeps_def waiters_in_def)

lemma keeps_alerts [simp]: "sv_keeps s (s\<lparr>sv_alerts := l\<rparr>)"
  by (simp add: sv_keeps_def waiters_in_def)

lemma keeps_ready_failed [simp]: "sv_keeps s (s\<lparr>sv_ready_failed := l\<rparr>)"
  by (simp add: sv_keeps_def waiters_in_def)

lemma generations_ok_other [simp]:
  "generations_ok (queue_one n x) = generations_ok x" "generations_ok (arm n t x) = generations_ok x"
  "generations_ok (disarm_one n x) = generations_ok x"
  "generations_ok (snd (claim_restart n x)) = generations_ok x"
  "generations_ok (snd (disarm_all x)) = generations_ok x"
  "generations_ok (snd (cancel_all_restarts x)) = generations_ok x"
  by (simp_all add: generations_ok_def current_generation_def queue_one_def arm_def disarm_one_def
      claim_restart_def disarm_all_def cancel_all_restarts_def)

subsection \<open>Small steps\<close>

lemma keeps_disarm [simp]: "sv_keeps s (fst (sv_disarm n s fx))"
  by (simp add: sv_disarm_def keeps_timers)

lemma keeps_cancel [simp]: "sv_keeps s (fst (sv_cancel_restart n s fx))"
  by (simp add: sv_cancel_restart_def keeps_timers)

lemma keeps_queue [simp]: "sv_keeps s (snd (sv_queue_restart n d s))"
  by (simp add: sv_queue_restart_def keeps_timers)

lemma keeps_disarm_everything [simp]: "sv_keeps s (snd (disarm_everything s))"
  by (simp add: disarm_everything_def case_prod_unfold Let_def keeps_timers)

lemma keeps_arm [simp]: "sv_keeps s (fst (sv_arm_timer P n s fx h))"
  by (auto simp: sv_arm_timer_def sv_disarm_def case_prod_unfold Let_def
      intro: keeps_timers split: option.splits)

lemma keeps_fire_alert [simp]: "sv_keeps s (fst (fire_alert n k now s fx))"
  by (simp add: fire_alert_def case_prod_unfold Let_def)

lemma watch_returns:
  assumes "so_pid out \<noteq> None \<longrightarrow> needs_watching (so_kind out) \<longrightarrow> so_name out \<in> sv_names s"
  shows "returns (watch out s fx) (\<lambda>(s', fx'). sv_keeps s s')"
proof (cases "so_pid out")
  case (Some i)
  show ?thesis
  proof (cases "needs_watching (so_kind out)")
    case True
    then obtain r where r: "find_by_name (sv_table s) (so_name out) = Some r"
      using assms Some find_by_name_iff by blast
    have "sv_keeps s (s\<lparr>sv_timers := snd (bump (so_name out) (sv_timers s))\<rparr>)"
      using generations_ok_bump by (intro keeps_timers) blast
    with True Some r show ?thesis
      by (simp add: watch_def await_ready_if_probing_def case_prod_unfold Let_def)
  next
    case False
    with Some show ?thesis by (simp add: watch_def)
  qed
qed (simp add: watch_def)

lemma watch_all_returns:
  "so_name ` set outs \<subseteq> sv_names s \<Longrightarrow>
    returns (watch_all outs s fx) (\<lambda>(s', fx'). sv_keeps s s')"
proof (induction outs arbitrary: s fx)
  case (Cons out outs)
  then have "returns (watch out s fx) (\<lambda>(s', fx'). sv_keeps s s')"
    by (intro watch_returns) simp
  then have "returns (watch out s fx) (\<lambda>(s', fx').
      returns (watch_all outs s' fx') (\<lambda>(s'', fx''). sv_keeps s s''))"
  proof (rule returns_mono, clarify)
    fix s' fx' assume k: "sv_keeps s s'"
    have "returns (watch_all outs s' fx') (\<lambda>(s'', fx''). sv_keeps s' s'')"
      using Cons.prems sv_keeps_names[OF k] by (intro Cons.IH) auto
    then show "returns (watch_all outs s' fx') (\<lambda>(s'', fx''). sv_keeps s s'')"
      by (rule returns_mono) (use k in \<open>auto intro: sv_keeps_trans\<close>)
  qed
  then show ?case by (simp add: case_prod_unfold)
qed simp

lemma dispatch_returns:
  assumes "same_result_name n (Inr outcome)" and "n \<in> sv_names s"
  shows "returns (dispatch_restart outcome s fx) (\<lambda>(n', s', fx'). n' = n \<and> sv_keeps s s')"
proof (cases outcome)
  case (Started out)
  then have out: "so_name out = n" using assms(1) by (simp add: same_result_name_def)
  have "returns (watch out s fx) (\<lambda>(s', fx'). sv_keeps s s')"
    using out assms(2) by (intro watch_returns) simp
  with Started out show ?thesis by (simp add: dispatch_restart_def case_prod_unfold)
next
  case (AwaitingExit out)
  with assms(1) show ?thesis by (simp add: dispatch_restart_def same_result_name_def Let_def)
qed

lemma restart_now_returns:
  assumes inv: "sv_inv s"
  shows "returns (restart_now P n s fx h) (\<lambda>(s', fx', h'). sv_keeps s s')"
proof -
  obtain s1 fx1 where c: "sv_cancel_restart n s fx = (s1, fx1)" by (cases "sv_cancel_restart n s fx")
  have k1: "sv_keeps s s1" using keeps_cancel[of s n fx] c by simp
  then have wf: "wf_table (sv_table s1)" using sv_keeps_inv inv sv_inv_wf by blast
  obtain res t1 h1 where r: "restart_app P (Name n) (sv_logs_dir s1) (sv_table s1) h = Some (res, t1, h1)"
      "table_frame UNIV (sv_table s1) t1"
      "\<forall>r. find_record (sv_table s1) (Name n) = Some r \<longrightarrow> same_result_name (record_name r) res"
      "find_record (sv_table s1) (Name n) = None \<longrightarrow> (\<exists>e. res = Inl e)"
    using restart_app_frame[OF wf, of P "Name n" "sv_logs_dir s1" h] by (auto simp: returns_iff)
  let ?s2 = "s1\<lparr>sv_table := t1\<rparr>"
  have k2: "sv_keeps s ?s2" using sv_keeps_trans[OF k1 keeps_table[OF r(2)]] .
  show ?thesis
  proof (cases res)
    case (Inl e)
    let ?f = "fire_alert n LaunchFailed (fst (now_ms P h1)) ?s2 fx1"
    have "sv_keeps s (fst (sv_arm_timer P n (fst ?f) (snd ?f) (snd (now_ms P h1))))"
      by (rule sv_keeps_trans[OF k2], rule sv_keeps_trans[OF keeps_fire_alert keeps_arm])
    with Inl c r(1) show ?thesis by (simp add: restart_now_def case_prod_unfold Let_def)
  next
    case (Inr out)
    then obtain r0 where r0: "find_by_name (sv_table s1) n = Some r0" "same_result_name n res"
      using r(3,4) wf_find[OF wf] by (cases "find_by_name (sv_table s1) n") (auto simp: find_record_name)
    then have "n \<in> sv_names ?s2"
      using find_by_name_iff[of n "sv_table s1"] table_frame_names[OF r(2)] by simp
    then obtain s3 fx3 where d: "dispatch_restart out ?s2 fx1 = Some (n, s3, fx3)" "sv_keeps ?s2 s3"
      using dispatch_returns[of n out ?s2 fx1] r0(2) Inr by (auto simp: returns_iff)
    have "sv_keeps s (fst (sv_arm_timer P n s3 fx3 h1))"
      using k2 d(2) keeps_arm sv_keeps_trans by blast
    with Inr c r(1) d(1) show ?thesis by (simp add: restart_now_def case_prod_unfold)
  qed
qed

subsection \<open>Waiting services\<close>

lemma waiters_forget: "waiters_in (insert n S) s \<Longrightarrow> waiters_in S (forget_waiter n s)"
  by (fastforce simp: waiters_in_def forget_waiter_def)

lemma waiters_forget_mono: "waiters_in S s \<Longrightarrow> waiters_in S (forget_waiter n s)"
  by (fastforce simp: waiters_in_def forget_waiter_def)

lemma keeps_forget [simp]: "sv_keeps s (forget_waiter n s)"
  using waiters_forget_mono by (simp add: sv_keeps_def) (simp add: forget_waiter_def)

lemma keeps_remove [simp]: "sv_keeps s (snd (remove_waiters n s))"
proof -
  have "set (AList.delete n m) \<subseteq> set m" for m :: "(string \<times> string list) list"
    by (induction m) auto
  then show ?thesis by (fastforce simp: sv_keeps_def remove_waiters_def waiters_in_def)
qed

lemma removed_waiters: "waiters_in S s \<Longrightarrow> fst (remove_waiters n s) = Some ws \<Longrightarrow> set ws \<subseteq> S"
  by (auto simp: waiters_in_def remove_waiters_def dest!: map_of_SomeD)

lemma waiters_keeps: "sv_keeps s s' \<Longrightarrow> waiters_in S s \<Longrightarrow> waiters_in S s'"
  by (simp add: sv_keeps_def)

lemma mark_errored_returns:
  assumes "n \<in> sv_names s"
  shows "returns (mark_errored_if_settled n s) (\<lambda>s'. sv_keeps s s')"
proof -
  obtain r where r: "find_by_name (sv_table s) n = Some r" using assms find_by_name_iff by auto
  have "table_frame {n} (sv_table s) (write_named n (\<lambda>_. on_runtime (mark_exited Errored) r) (sv_table s))"
    by (intro table_frame_write[OF r]) (simp_all add: on_runtime_def runtime_ok_exited)
  then show ?thesis using r keeps_table by (simp add: mark_errored_if_settled_def)
qed

lemma fail_loop_returns:
  "set dead \<subseteq> sv_names s \<Longrightarrow> waiters_in (sv_names s) s \<Longrightarrow>
    returns (fail_loop dead failed s) (\<lambda>(res, s'). sv_keeps s s')"
proof (induction dead failed s rule: fail_loop.induct)
  case (1 failed s)
  then show ?case by (simp add: fail_loop.simps)
next
  case (2 doomed dead failed s)
  have "doomed \<in> sv_names (forget_waiter doomed s)"
    using "2.prems"(1) sv_keeps_names[OF keeps_forget[of s doomed]] by simp
  then obtain s1 where s1: "mark_errored_if_settled doomed (forget_waiter doomed s) = Some s1"
      "sv_keeps (forget_waiter doomed s) s1"
    using mark_errored_returns by (fastforce simp: returns_iff)
  have k1: "sv_keeps s s1" using sv_keeps_trans[OF keeps_forget s1(2)] .
  obtain downstream s2 where s2: "remove_waiters doomed s1 = (downstream, s2)"
    by (cases "remove_waiters doomed s1")
  have k2: "sv_keeps s s2" using sv_keeps_trans[OF k1 keeps_remove[of s1 doomed]] s2 by simp
  have names: "sv_names s2 = sv_names s" using sv_keeps_names[OF k2] .
  have "set (case downstream of None \<Rightarrow> [] | Some ws \<Rightarrow> ws) \<subseteq> sv_names s"
    using removed_waiters[OF waiters_keeps[OF k1 "2.prems"(2)], of doomed] s2 by (auto split: option.splits)
  then have "returns (fail_loop (rev (case downstream of None \<Rightarrow> [] | Some ws \<Rightarrow> ws) @ dead)
      (failed @ [doomed]) s2) (\<lambda>(res, s'). sv_keeps s2 s')"
    using "2.prems" names waiters_keeps[OF k2] by (intro "2.IH"[OF s1(1) s2[symmetric] refl]) auto
  then have "returns (fail_loop (rev (case downstream of None \<Rightarrow> [] | Some ws \<Rightarrow> ws) @ dead)
      (failed @ [doomed]) s2) (\<lambda>(res, s'). sv_keeps s s')"
    by (rule returns_mono) (use k2 in \<open>auto intro: sv_keeps_trans\<close>)
  with s1(1) s2 show ?case by (simp add: fail_loop.simps)
qed

lemma fail_downstream_returns:
  assumes "waiters_in (sv_names s) s"
  shows "returns (fail_downstream n s) (\<lambda>(res, s'). sv_keeps s s')"
proof -
  obtain dead s1 where s1: "remove_waiters n s = (dead, s1)" by (cases "remove_waiters n s")
  have k1: "sv_keeps s s1" using keeps_remove[of s n] s1 by simp
  have "set (case dead of None \<Rightarrow> [] | Some ws \<Rightarrow> ws) \<subseteq> sv_names s"
    using removed_waiters[OF assms, of n] s1 by (auto split: option.splits)
  then have "returns (fail_loop (rev (case dead of None \<Rightarrow> [] | Some ws \<Rightarrow> ws)) [] s1)
      (\<lambda>(res, s'). sv_keeps s1 s')"
    using waiters_keeps[OF k1 assms] sv_keeps_names[OF k1] by (intro fail_loop_returns) auto
  then have "returns (fail_loop (rev (case dead of None \<Rightarrow> [] | Some ws \<Rightarrow> ws)) [] s1)
      (\<lambda>(res, s'). sv_keeps s s')"
    by (rule returns_mono) (use k1 in \<open>auto intro: sv_keeps_trans\<close>)
  with s1 show ?thesis by (simp add: fail_downstream_def)
qed

text \<open>
  Withdrawing a service that may just have lost its record: afterwards only services with a
  record wait.
\<close>

definition sv_shape :: "supervisor \<Rightarrow> supervisor \<Rightarrow> bool" where
  "sv_shape s s' \<longleftrightarrow>
     names_in_table_order (sv_table s') = names_in_table_order (sv_table s) \<and>
     (wf_table (sv_table s) \<longrightarrow> wf_table (sv_table s')) \<and>
     (generations_ok (sv_timers s) \<longrightarrow> generations_ok (sv_timers s')) \<and>
     waiters_in (sv_names s) s'"

lemma sv_keeps_shape: "sv_keeps s s' \<Longrightarrow> sv_shape s' s'' \<Longrightarrow> sv_shape s s''"
  by (simp add: sv_keeps_def sv_shape_def)

lemma sv_shape_keeps: "sv_shape s s' \<Longrightarrow> sv_keeps s' s'' \<Longrightarrow> sv_shape s s''"
  by (simp add: sv_keeps_def sv_shape_def)

lemma sv_shape_inv:
  "sv_shape s s' \<Longrightarrow> wf_table (sv_table s) \<Longrightarrow> generations_ok (sv_timers s) \<Longrightarrow> sv_inv s'"
  by (simp add: sv_shape_def sv_inv_def)

lemma sv_shape_names: "sv_shape s s' \<Longrightarrow> sv_names s' = sv_names s"
  by (simp add: sv_shape_def)

lemma cancel_ready_returns:
  assumes "waiters_in (insert n (sv_names s)) s"
  shows "returns (cancel_ready n s fx) (\<lambda>(s', fx'). sv_shape s s' \<and> (\<forall>S. waiters_in S s \<longrightarrow> waiters_in S s'))"
proof -
  let ?s1 = "s\<lparr>sv_ready_failed := removeAll n (sv_ready_failed s)\<rparr>"
  let ?s2 = "forget_waiter n ?s1"
  have k: "sv_keeps s ?s2" using sv_keeps_trans[OF keeps_ready_failed keeps_forget] .
  have "waiters_in (insert n (sv_names s)) ?s1" using assms by (simp add: waiters_in_def)
  then have w: "waiters_in (sv_names s) ?s2" by (rule waiters_forget)
  then have "waiters_in (sv_names ?s2) ?s2" using sv_keeps_names[OF k] by simp
  then obtain res s3 where f: "fail_downstream n ?s2 = Some (res, s3)" "sv_keeps ?s2 s3"
    using fail_downstream_returns[of ?s2 n] by (auto simp: returns_iff)
  have "sv_shape s s3"
    using k f(2) waiters_keeps[OF f(2) w] by (simp add: sv_shape_def sv_keeps_def)
  moreover have "\<forall>S. waiters_in S s \<longrightarrow> waiters_in S s3"
    using sv_keeps_trans[OF k f(2)] by (simp add: sv_keeps_def)
  ultimately show ?thesis using f(1) by (simp add: cancel_ready_def)
qed

lemma launch_waiter_returns:
  assumes w: "waiters_in (sv_names s) s" and n: "n \<in> sv_names s" and q: "set queue \<subseteq> sv_names s"
  shows "returns (launch_waiter P n queue s fx h)
    (\<lambda>(queue', s', fx', h'). sv_keeps s s' \<and> set queue' \<subseteq> sv_names s)"
proof -
  obtain res t1 h1 where r: "register_one P (sv_logs_dir s) n (sv_table s) h = Some (res, t1, h1)"
      "table_frame {n} (sv_table s) t1" "\<forall>out. res = Inr out \<longrightarrow> so_name out = n"
    using launch_returns[OF n, of P "sv_logs_dir s" Register h]
    by (fastforce simp: returns_iff register_one_def)
  let ?s1 = "s\<lparr>sv_table := t1\<rparr>"
  have k1: "sv_keeps s ?s1" by (rule keeps_table[OF r(2)])
  have n1: "n \<in> sv_names ?s1" using sv_keeps_names[OF k1] n by simp
  show ?thesis
  proof (cases res)
    case (Inr out)
    obtain s2 fx2 where w2: "watch out ?s1 fx = Some (s2, fx2)" "sv_keeps ?s1 s2"
      using watch_returns[of out ?s1 fx] r(3) Inr n1 by (auto simp: returns_iff)
    have "sv_keeps s (fst (sv_arm_timer P n s2 fx2 h1))"
      by (rule sv_keeps_trans[OF k1], rule sv_keeps_trans[OF w2(2) keeps_arm])
    with Inr r(1) w2(1) n q show ?thesis by (simp add: launch_waiter_def case_prod_unfold Let_def)
  next
    case (Inl e)
    obtain s2 where m: "mark_errored_if_settled n ?s1 = Some s2" "sv_keeps ?s1 s2"
      using mark_errored_returns[OF n1] by (auto simp: returns_iff)
    have k2: "sv_keeps s s2" by (rule sv_keeps_trans[OF k1 m(2)])
    have "waiters_in (sv_names s2) s2" using waiters_keeps[OF k2 w] sv_keeps_names[OF k2] by simp
    then obtain failed s3 where f: "fail_downstream n s2 = Some (failed, s3)" "sv_keeps s2 s3"
      using fail_downstream_returns[of s2 n] by (auto simp: returns_iff)
    have k3: "sv_keeps s (fst (fire_alert n LaunchFailed now s3 fx))" for now
      by (rule sv_keeps_trans[OF k2], rule sv_keeps_trans[OF f(2) keeps_fire_alert])
    with Inl r(1) m(1) f(1) q show ?thesis by (simp add: launch_waiter_def case_prod_unfold Let_def del: keeps_fire_alert)
  qed
qed

lemma launch_each_returns:
  "waiters_in (sv_names s) s \<Longrightarrow> set ws \<subseteq> sv_names s \<Longrightarrow> set queue \<subseteq> sv_names s \<Longrightarrow>
    returns (launch_each P ws queue s fx h)
      (\<lambda>(queue', s', fx', h'). sv_keeps s s' \<and> set queue' \<subseteq> sv_names s)"
proof (induction ws arbitrary: queue s fx h)
  case (Cons n ws)
  show ?case
  proof (cases "still_waiting s n")
    case True
    with Cons show ?thesis by simp
  next
    case False
    have n: "n \<in> sv_names s" using Cons.prems(2) by simp
    obtain q1 s1 fx1 h1 where w: "launch_waiter P n queue s fx h = Some (q1, s1, fx1, h1)"
        "sv_keeps s s1" "set q1 \<subseteq> sv_names s"
      using launch_waiter_returns[OF Cons.prems(1) n Cons.prems(3), of P fx h] by (auto simp: returns_iff)
    have "returns (launch_each P ws q1 s1 fx1 h1)
        (\<lambda>(queue', s', fx', h'). sv_keeps s1 s' \<and> set queue' \<subseteq> sv_names s1)"
      using Cons.prems w(3) sv_keeps_names[OF w(2)] waiters_keeps[OF w(2)] by (intro Cons.IH) auto
    then have "returns (launch_each P ws q1 s1 fx1 h1)
        (\<lambda>(queue', s', fx', h'). sv_keeps s s' \<and> set queue' \<subseteq> sv_names s)"
      by (rule returns_mono) (use w(2) sv_keeps_names[OF w(2)] in \<open>auto intro: sv_keeps_trans\<close>)
    with False w(1) show ?thesis by simp
  qed
qed simp

lemma launch_loop_returns:
  "waiters_in (sv_names s) s \<Longrightarrow> set queue \<subseteq> sv_names s \<Longrightarrow>
    returns (launch_loop P queue s fx h) (\<lambda>(s', fx', h'). sv_keeps s s')"
proof (induction P queue s fx h rule: launch_loop.induct)
  case (1 P s fx h)
  then show ?case by (simp add: launch_loop.simps)
next
  case (2 P ready queue s fx h)
  obtain removed s1 where s1: "remove_waiters ready s = (removed, s1)" by (cases "remove_waiters ready s")
  have k1: "sv_keeps s s1" using keeps_remove[of s ready] s1 by simp
  have w1: "waiters_in (sv_names s1) s1" and q1: "set queue \<subseteq> sv_names s1"
    using "2.prems" waiters_keeps[OF k1] sv_keeps_names[OF k1] by simp_all
  show ?case
  proof (cases removed)
    case None
    have "returns (launch_loop P queue s1 fx h) (\<lambda>(s', fx', h'). sv_keeps s1 s')"
      using s1 None w1 q1 by (intro "2.IH"(1)) auto
    then have "returns (launch_loop P queue s1 fx h) (\<lambda>(s', fx', h'). sv_keeps s s')"
      by (rule returns_mono) (use k1 in \<open>auto intro: sv_keeps_trans\<close>)
    with s1 None show ?thesis by (simp add: launch_loop.simps case_prod_unfold)
  next
    case (Some ws)
    have "set ws \<subseteq> sv_names s1"
      using removed_waiters[OF "2.prems"(1), of ready ws] s1 Some sv_keeps_names[OF k1] by simp
    then obtain q2 s2 fx2 h2 where w: "launch_each P ws queue s1 fx h = Some (q2, s2, fx2, h2)"
        "sv_keeps s1 s2" "set q2 \<subseteq> sv_names s1"
      using launch_each_returns[OF w1 _ q1, of ws P fx h] by (auto simp: returns_iff)
    have k2: "sv_keeps s s2" by (rule sv_keeps_trans[OF k1 w(2)])
    have "returns (launch_loop P q2 s2 fx2 h2) (\<lambda>(s', fx', h'). sv_keeps s2 s')"
      using s1 Some w w1 waiters_keeps[OF w(2)] sv_keeps_names[OF w(2)]
      by (intro "2.IH"(2)) auto
    then have "returns (launch_loop P q2 s2 fx2 h2) (\<lambda>(s', fx', h'). sv_keeps s s')"
      by (rule returns_mono) (use k2 in \<open>auto intro: sv_keeps_trans\<close>)
    with s1 Some w(1) show ?thesis by (simp add: launch_loop.simps case_prod_unfold)
  qed
qed

subsection \<open>Events\<close>

abbreviation event_keeps :: "supervisor \<Rightarrow> effects \<times> supervisor \<times> history \<Rightarrow> bool" where
  "event_keeps s \<equiv> \<lambda>(fx', s', h'). sv_keeps s s'"

lemma awaits_ready_record:
  "awaits_ready s n g \<Longrightarrow> \<exists>r. find_by_name (sv_table s) n = Some r \<and> rt_status (pr_runtime r) = Launching"
  by (auto simp: awaits_ready_def is_launching_def split: if_splits option.splits)

lemma keeps_write:
  assumes "find_by_name (sv_table s) n = Some r" and "record_name r' = record_name r"
    and "pr_spec r' = pr_spec r" and "runtime_ok (pr_runtime r) \<longrightarrow> runtime_ok (pr_runtime r')"
  shows "sv_keeps s (s\<lparr>sv_table := write_named n (\<lambda>_. r') (sv_table s)\<rparr>)"
  by (rule keeps_table[OF table_frame_write[OF assms]])

lemma on_ready_returns:
  assumes "sv_inv s"
  shows "returns (on_ready P n g s h) (event_keeps s)"
proof (cases "awaits_ready s n g")
  case True
  obtain r where r: "find_by_name (sv_table s) n = Some r" "rt_status (pr_runtime r) = Launching"
    using awaits_ready_record[OF True] by blast
  let ?s1 = "s\<lparr>sv_table := write_named n (\<lambda>_. on_runtime mark_online r) (sv_table s)\<rparr>"
  have k1: "sv_keeps s ?s1"
    using r by (intro keeps_write) (auto simp: on_runtime_def runtime_ok_def mark_online_def)
  have n: "n \<in> sv_names ?s1" using sv_keeps_names[OF k1] r(1) find_by_name_iff[of n] by auto
  have "waiters_in (sv_names ?s1) ?s1"
    using waiters_keeps[OF k1 sv_inv_waiters[OF assms]] sv_keeps_names[OF k1] by simp
  then obtain s2 fx2 h2 where l: "launch_loop P [n] ?s1 [] (sv_save P ?s1 h) = Some (s2, fx2, h2)"
      "sv_keeps ?s1 s2"
    using launch_loop_returns[of ?s1 "[n]" P "[]" "sv_save P ?s1 h"] n by (auto simp: returns_iff)
  with True r(1) sv_keeps_trans[OF k1 l(2)] show ?thesis
    by (simp add: on_ready_def launch_waiters_def Let_def)
qed (simp add: on_ready_def)

lemma on_ready_timeout_returns:
  assumes "sv_inv s"
  shows "returns (on_ready_timeout P n g s h) (event_keeps s)"
proof (cases "awaits_ready s n g")
  case True
  obtain r where r: "find_by_name (sv_table s) n = Some r" "rt_status (pr_runtime r) = Launching"
    using awaits_ready_record[OF True] by blast
  then obtain i where i: "rt_pid (pr_runtime r) = Some i"
    using wf_find[OF sv_inv_wf[OF assms] r(1)] by (auto simp: record_ok_def runtime_ok_def)
  let ?s0 = "s\<lparr>sv_ready_failed := List.insert n (sv_ready_failed s)\<rparr>"
  let ?s1 = "?s0\<lparr>sv_table := write_named n (\<lambda>_. on_runtime mark_stopping r) (sv_table ?s0)\<rparr>"
  have k1: "sv_keeps s ?s1"
    using r by (intro sv_keeps_trans[OF keeps_ready_failed keeps_write])
      (auto simp: on_runtime_def runtime_ok_def mark_stopping_def)
  have "waiters_in (sv_names ?s1) ?s1"
    using waiters_keeps[OF k1 sv_inv_waiters[OF assms]] sv_keeps_names[OF k1] by simp
  then obtain failed s2 where f: "fail_downstream n ?s1 = Some (failed, s2)" "sv_keeps ?s1 s2"
    using fail_downstream_returns[of ?s1 n] by (auto simp: returns_iff)
  have "rt_pid (pr_runtime (on_runtime mark_stopping r)) = Some i"
    using i by (simp add: on_runtime_def mark_stopping_def)
  moreover have "sv_keeps s (fst (fire_alert n k now s2 fx))" for k now fx
    by (rule sv_keeps_trans[OF k1], rule sv_keeps_trans[OF f(2) keeps_fire_alert])
  ultimately show ?thesis using True r(1) f(1) by (simp add: on_ready_timeout_def case_prod_unfold Let_def)
qed (simp add: on_ready_timeout_def)

lemma on_exit_returns:
  assumes "sv_inv s"
  shows "returns (on_exit P n g outcome s h) (event_keeps s)"
proof -
  consider "\<not> is_current (sv_timers s) n g \<or> find_by_name (sv_table s) n = None"
    | "is_current (sv_timers s) n g" "find_by_name (sv_table s) n \<noteq> None" "List.member (sv_ready_failed s) n"
    | "is_current (sv_timers s) n g" "find_by_name (sv_table s) n \<noteq> None" "\<not> List.member (sv_ready_failed s) n"
    by blast
  then show ?thesis
  proof cases
    case 1
    then show ?thesis by (auto simp: on_exit_def)
  next
    case 2
    have n: "n \<in> sv_names s" using 2(2) find_by_name_None[of "sv_table s" n] by simp
    let ?s1 = "s\<lparr>sv_ready_failed := removeAll n (sv_ready_failed s)\<rparr>"
    obtain res t1 h1 where t: "settle_failed_probe P n (sv_table s) h = Some (res, t1, h1)"
        "table_frame {n} (sv_table s) t1"
      using settle_failed_probe_returns[OF n, of P h] by (auto simp: returns_iff)
    then have "sv_keeps s (?s1\<lparr>sv_table := t1\<rparr>)"
      by (intro sv_keeps_trans[OF keeps_ready_failed keeps_table]) auto
    with 2 t(1) show ?thesis by (simp add: on_exit_def Let_def)
  next
    case 3
    have n: "n \<in> sv_names s" using 3(2) find_by_name_None[of "sv_table s" n] by simp
    obtain action t1 h1 where t: "handle_child_exit P n outcome (sv_table s) h = Some (action, t1, h1)"
        "table_frame {n} (sv_table s) t1"
      using handle_child_exit_returns[OF n, of P outcome h] by (auto simp: returns_iff)
    have k1: "sv_keeps s (s\<lparr>sv_table := t1\<rparr>)" by (rule keeps_table[OF t(2)])
    show ?thesis
    proof (cases action)
      case (RestartAfter delay)
      with 3 t(1) sv_keeps_trans[OF k1 keeps_queue] show ?thesis
        by (simp add: on_exit_def case_prod_unfold Let_def)
    next
      case (Settled status alarming)
      have "waiters_in (sv_names (s\<lparr>sv_table := t1\<rparr>)) (s\<lparr>sv_table := t1\<rparr>)"
        using waiters_keeps[OF k1 sv_inv_waiters[OF assms]] sv_keeps_names[OF k1] by simp
      then obtain failed s2 where f: "fail_downstream n (s\<lparr>sv_table := t1\<rparr>) = Some (failed, s2)"
          "sv_keeps (s\<lparr>sv_table := t1\<rparr>) s2"
        using fail_downstream_returns[of "s\<lparr>sv_table := t1\<rparr>" n] by (auto simp: returns_iff)
      have "sv_keeps s (s2\<lparr>sv_alerts := l\<rparr>)" for l
        by (rule sv_keeps_trans[OF k1], rule sv_keeps_trans[OF f(2) keeps_alerts])
      with 3 t(1) Settled f(1) show ?thesis by (simp add: on_exit_def case_prod_unfold Let_def)
    qed
  qed
qed

lemma restart_event_returns:
  assumes "sv_inv s" and "sv_keeps s s1"
  shows "returns (do { (s, fx, h) \<leftarrow> restart_now P n s1 fx h; Some (fx, s, h) }) (event_keeps s)"
proof -
  have "returns (restart_now P n s1 fx h) (\<lambda>(s', fx', h'). sv_keeps s s')"
    by (rule returns_mono[OF restart_now_returns[OF sv_keeps_inv[OF assms(2,1)]]])
      (use assms(2) in \<open>auto intro: sv_keeps_trans\<close>)
  then show ?thesis by (simp add: case_prod_unfold)
qed

lemma on_restart_returns: "sv_inv s \<Longrightarrow> returns (on_restart P n s h) (event_keeps s)"
  using restart_event_returns[of s "s\<lparr>sv_timers := snd (claim_restart n (sv_timers s))\<rparr>" P n "[]" h]
  by (simp add: on_restart_def case_prod_unfold Let_def keeps_timers)

lemma on_fire_returns: "sv_inv s \<Longrightarrow> returns (on_fire P n t s h) (event_keeps s)"
  using restart_event_returns[of s s P n "[]" h] by (simp add: on_fire_def)


lemma restart_tripped_returns:
  assumes inv: "sv_inv s" and n: "n \<in> sv_names s"
  shows "returns (restart_tripped P n k s fx h) (\<lambda>(s', fx', h'). sv_keeps s s')"
proof -
  let ?s1 = "fst (fire_alert n k (fst (now_ms P h)) s fx)"
  let ?fx1 = "snd (fire_alert n k (fst (now_ms P h)) s fx)"
  obtain s2 fx2 h2 where r: "restart_now P n ?s1 ?fx1 (snd (now_ms P h)) = Some (s2, fx2, h2)"
      "sv_keeps ?s1 s2"
    using restart_now_returns[OF sv_keeps_inv[OF keeps_fire_alert inv]] by (fastforce simp: returns_iff)
  have k2: "sv_keeps s s2" using sv_keeps_trans[OF keeps_fire_alert r(2)] .
  obtain q where q: "find_by_name (sv_table s2) n = Some q"
    using n sv_keeps_names[OF k2] find_by_name_iff[of n "sv_table s2"] by auto
  have "sv_keeps s2 (s2\<lparr>sv_table := write_named n (\<lambda>_. hand_to_the_breaker q) (sv_table s2)\<rparr>)"
    by (rule keeps_write[OF q]) (simp_all add: hand_to_the_breaker_def on_runtime_def)
  then have "sv_keeps s (s2\<lparr>sv_table := write_named n (\<lambda>_. hand_to_the_breaker q) (sv_table s2)\<rparr>)"
    by (rule sv_keeps_trans[OF k2])
  with r(1) q show ?thesis by (simp add: restart_tripped_def case_prod_unfold Let_def)
qed

lemma restart_breached_returns:
  "sv_inv s \<Longrightarrow> mb_name ` set bs \<subseteq> sv_names s \<Longrightarrow>
    returns (restart_breached P bs s fx h) (\<lambda>(s', fx', h'). sv_keeps s s')"
proof (induction bs arbitrary: s fx h)
  case (Cons b bs)
  obtain s1 fx1 h1 where r: "restart_tripped P (mb_name b) MemoryKilled s fx h = Some (s1, fx1, h1)"
      "sv_keeps s s1"
    using restart_tripped_returns[OF Cons.prems(1), of "mb_name b" P MemoryKilled fx h] Cons.prems(2)
    by (auto simp: returns_iff)
  have "returns (restart_breached P bs s1 fx1 h1) (\<lambda>(s', fx', h'). sv_keeps s1 s')"
    using Cons.prems sv_keeps_inv[OF r(2)] sv_keeps_names[OF r(2)] by (intro Cons.IH) auto
  then have "returns (restart_breached P bs s1 fx1 h1) (\<lambda>(s', fx', h'). sv_keeps s s')"
    by (rule returns_mono) (use r(2) in \<open>auto intro: sv_keeps_trans\<close>)
  with r(1) show ?case by (simp add: case_prod_unfold)
qed simp

lemma breached_names:
  "mb_name ` set (breached_memory (memory_watch_list t) sampled) \<subseteq> table_names t"
proof
  fix n assume "n \<in> mb_name ` set (breached_memory (memory_watch_list t) sampled)"
  then obtain b where "b \<in> set (breached_memory (memory_watch_list t) sampled)" "n = mb_name b"
    by blast
  then show "n \<in> table_names t"
    by (auto simp: breached_memory_def memory_watch_list_def set_filter_map names_in_table_order_def
        split: bind_splits if_splits)
qed

lemma on_memory_sample_returns:
  assumes "sv_inv s"
  shows "returns (on_memory_sample P interval s h) (event_keeps s)"
proof -
  note restart_breached_returns[OF assms breached_names]
  then show ?thesis by (simp add: on_memory_sample_def case_prod_unfold Let_def)
qed

lemma record_liveness_frame:
  "record_name (snd (record_liveness r v u)) = record_name r"
  "pr_spec (snd (record_liveness r v u)) = pr_spec r"
  "runtime_ok (pr_runtime (snd (record_liveness r v u))) = runtime_ok (pr_runtime r)"
  by (simp_all add: record_liveness_def on_runtime_def case_prod_unfold Let_def)

lemma probe_watched_returns:
  "sv_inv s \<Longrightarrow> lw_name ` set ws \<subseteq> sv_names s \<Longrightarrow>
    returns (probe_watched P threshold ws s fx h) (\<lambda>(s', fx', h'). sv_keeps s s')"
proof (induction ws arbitrary: s fx h)
  case (Cons w ws)
  obtain r where r: "find_by_name (sv_table s) (lw_name w) = Some r"
    using Cons.prems(2) find_by_name_iff[of "lw_name w" "sv_table s"] by auto
  obtain verdict h1 where v: "check_ready P (lw_probe w) h = (verdict, h1)"
    by (cases "check_ready P (lw_probe w) h")
  obtain tripped r1 where l: "record_liveness r verdict threshold = (tripped, r1)"
    by (cases "record_liveness r verdict threshold")
  let ?s1 = "s\<lparr>sv_table := write_named (lw_name w) (\<lambda>_. r1) (sv_table s)\<rparr>"
  have k1: "sv_keeps s ?s1"
    by (rule keeps_write[OF r]) (use l record_liveness_frame[of r verdict threshold] in simp_all)
  have "returns (if tripped then restart_tripped P (lw_name w) LivenessKilled ?s1 fx h1
                 else Some (?s1, fx, h1)) (\<lambda>(s', fx', h'). sv_keeps ?s1 s')"
    using restart_tripped_returns[OF sv_keeps_inv[OF k1 Cons.prems(1)]] Cons.prems(2)
      sv_keeps_names[OF k1] by simp
  then obtain s2 fx2 h2 where t: "(if tripped then restart_tripped P (lw_name w) LivenessKilled ?s1 fx h1
        else Some (?s1, fx, h1)) = Some (s2, fx2, h2)" "sv_keeps ?s1 s2"
    by (auto simp: returns_iff)
  have k2: "sv_keeps s s2" by (rule sv_keeps_trans[OF k1 t(2)])
  have "returns (probe_watched P threshold ws s2 fx2 h2) (\<lambda>(s', fx', h'). sv_keeps s2 s')"
    using Cons.prems sv_keeps_inv[OF k2] sv_keeps_names[OF k2] by (intro Cons.IH) auto
  then have "returns (probe_watched P threshold ws s2 fx2 h2) (\<lambda>(s', fx', h'). sv_keeps s s')"
    by (rule returns_mono) (use k2 in \<open>auto intro: sv_keeps_trans\<close>)
  with r v l t(1) show ?case by (cases tripped) (simp_all add: case_prod_unfold)
qed simp

lemma liveness_names: "lw_name ` set (liveness_watch_list t) \<subseteq> table_names t"
  by (auto simp: liveness_watch_list_def set_filter_map names_in_table_order_def
      split: bind_splits)

lemma keeps_stable: "sv_keeps s (fst (settle_the_stable P s h))"
proof -
  define now where "now = fst (now_ms P h)"
  define t where "t = snd (settle_stability_all (sv_table s) now)"
  have names: "names_in_table_order t = names_in_table_order (sv_table s)"
    by (simp add: t_def settle_stability_all_def names_in_table_order_def)
  moreover have "wf_table t" if "wf_table (sv_table s)"
    using that names by (auto simp: wf_table_def t_def settle_stability_all_def record_ok_def on_runtime_def)
  ultimately have "sv_keeps s (s\<lparr>sv_table := t\<rparr>)"
    by (simp add: sv_keeps_def waiters_in_def)
  then show ?thesis by (simp add: settle_the_stable_def t_def now_def case_prod_unfold Let_def)
qed

lemma on_liveness_sample_returns:
  assumes "sv_inv s"
  shows "returns (on_liveness_sample P interval threshold s h) (event_keeps s)"
proof -
  have "returns (probe_watched P threshold (liveness_watch_list (sv_table s)) s
      [ScheduleLivenessSample interval] h) (\<lambda>(s', fx', h'). sv_keeps s s')"
    by (rule probe_watched_returns[OF assms liveness_names])
  then have "returns (probe_watched P threshold (liveness_watch_list (sv_table s)) s
      [ScheduleLivenessSample interval] h) (\<lambda>(s', fx', h'). sv_keeps s (fst (settle_the_stable P s' h')))"
    by (rule returns_mono) (use keeps_stable in \<open>auto intro: sv_keeps_trans\<close>)
  then show ?thesis by (simp add: on_liveness_sample_def case_prod_unfold Let_def)
qed

lemma keeps_prepare_shutdown: "event_keeps s (prepare_shutdown P s h)"
  using keeps_disarm_everything[of s] by (simp add: prepare_shutdown_def case_prod_unfold Let_def)

end
