(* ===== verification/Requests_Inv.thy ===== *)
theory Requests_Inv
  imports Supervisor_Inv
begin

text \<open>
  The requests of the operator keep the invariant of the supervisor and return. A request may
  add services and remove them, so the lemmas speak of the invariant itself where the event
  handlers speak of \<open>sv_keeps\<close>.
\<close>

subsection \<open>Retiring a service\<close>

abbreviation request_inv :: "supervision_outcome \<times> supervisor \<times> effects \<times> history \<Rightarrow> bool" where
  "request_inv \<equiv> \<lambda>(res, s', fx', h'). sv_inv s'"

lemma inv_table:
  "sv_inv s \<Longrightarrow> wf_table t \<Longrightarrow> sv_names s \<subseteq> table_names t \<Longrightarrow> sv_inv (s\<lparr>sv_table := t\<rparr>)"
  by (fastforce simp: sv_inv_def waiters_in_def)

lemma inv_frame: "sv_inv s \<Longrightarrow> table_frame ns (sv_table s) t \<Longrightarrow> sv_inv (s\<lparr>sv_table := t\<rparr>)"
  by (rule sv_keeps_inv[OF keeps_table])

lemma retire_returns:
  assumes w: "waiters_in (insert n (sv_names s)) s"
  shows "returns (retire n i tok s fx) (\<lambda>(s', fx'). sv_shape s s' \<and> (\<forall>S. waiters_in S s \<longrightarrow> waiters_in S s'))"
proof -
  let ?d = "sv_disarm n s fx"
  let ?c = "sv_cancel_restart n (fst ?d) (snd ?d)"
  have k: "sv_keeps s (fst ?c)" by (rule sv_keeps_trans[OF keeps_disarm keeps_cancel])
  have "waiters_in (insert n (sv_names (fst ?c))) (fst ?c)"
    using waiters_keeps[OF k w] sv_keeps_names[OF k] by simp
  then obtain s1 fx1 where r: "cancel_ready n (fst ?c) (snd ?c) = Some (s1, fx1)"
      "sv_shape (fst ?c) s1" "\<forall>S. waiters_in S (fst ?c) \<longrightarrow> waiters_in S s1"
    using cancel_ready_returns[of n "fst ?c" "snd ?c"] by (fastforce simp: returns_iff)
  have "sv_shape s (s1\<lparr>sv_alerts := l\<rparr>)" for l
    by (rule sv_shape_keeps[OF sv_keeps_shape[OF k r(2)] keeps_alerts])
  moreover have "\<forall>S. waiters_in S s \<longrightarrow> waiters_in S (s1\<lparr>sv_alerts := l\<rparr>)" for l
    using r(3) waiters_keeps[OF k] waiters_keeps[OF keeps_alerts[of s1]] by blast
  ultimately show ?thesis using r(1) by (simp add: retire_def case_prod_unfold Let_def)
qed

lemma retire_inv:
  assumes "wf_table (sv_table s)" and "generations_ok (sv_timers s)"
    and "waiters_in (insert n (sv_names s)) s"
  shows "returns (retire n i tok s fx) (\<lambda>(s', fx'). sv_inv s' \<and> sv_names s' = sv_names s)"
  by (rule returns_mono[OF retire_returns[OF assms(3)]])
    (use assms in \<open>auto simp: sv_shape_def sv_inv_def\<close>)

lemma waiters_insert: "sv_inv s \<Longrightarrow> waiters_in (insert n (sv_names s)) s"
  by (fastforce simp: sv_inv_def waiters_in_def)

lemma cover_draining_returns:
  assumes inv: "sv_inv s"
  shows "returns (cover_draining sel s fx) (\<lambda>(s', fx'). sv_inv s' \<and> sv_names s' = sv_names s)"
proof (cases "find_record (sv_table s) sel")
  case None
  with inv show ?thesis by (simp add: cover_draining_def)
next
  case (Some r)
  show ?thesis
  proof (cases "is_shutting_down (rt_status (pr_runtime r))")
    case False
    with Some inv show ?thesis by (simp add: cover_draining_def)
  next
    case True
    then have "\<not> is_settled (rt_status (pr_runtime r))"
      by (cases "rt_status (pr_runtime r)") simp_all
    then obtain i where i: "rt_pid (pr_runtime r) = Some i"
      using wf_find_record[OF sv_inv_wf[OF inv] Some] by (auto simp: record_ok_def runtime_ok_def)
    have "returns (retire (record_name r) (Some i) (identity_token_of (sv_table s) sel) s fx)
        (\<lambda>(s', fx'). sv_inv s' \<and> sv_names s' = sv_names s)"
      using inv by (intro retire_inv waiters_insert) (simp_all add: sv_inv_def)
    with True Some i show ?thesis by (simp add: cover_draining_def)
  qed
qed

subsection \<open>Stopping\<close>

lemma stop_each_returns:
  "set names \<subseteq> table_names t \<Longrightarrow>
    returns (stop_each P names t h) (\<lambda>(outs, t', h'). table_frame (set names) t t' \<and>
      st_name ` set outs \<subseteq> set names)"
proof (induction names arbitrary: t h)
  case (Cons n names)
  obtain r where r: "find_by_name t n = Some r" using Cons.prems find_by_name_iff[of n t] by auto
  define r1 where "r1 = on_runtime cancel_restart (on_runtime disarm_schedule r)"
  have r1: "record_name r1 = record_name r" "pr_spec r1 = pr_spec r" "record_name r = n"
      "runtime_ok (pr_runtime r) \<longrightarrow> runtime_ok (pr_runtime r1)"
    using find_by_name_Some[OF r] by (simp_all add: r1_def on_runtime_def)
  have rest: "returns (stop_each P names (write_named n (\<lambda>_. r2) t) h1)
      (\<lambda>(outs, t', h'). table_frame (set (n # names)) t t' \<and> st_name ` set outs \<subseteq> set names)"
    if "record_name r2 = record_name r" "pr_spec r2 = pr_spec r"
      "runtime_ok (pr_runtime r) \<longrightarrow> runtime_ok (pr_runtime r2)" for r2 h1
  proof -
    note fr = table_frame_write[OF r that]
    have "returns (stop_each P names (write_named n (\<lambda>_. r2) t) h1) (\<lambda>(outs, t', h').
        table_frame (set names) (write_named n (\<lambda>_. r2) t) t' \<and> st_name ` set outs \<subseteq> set names)"
      using Cons.prems table_frame_names[OF fr] by (intro Cons.IH) simp
    then show ?thesis
      by (rule returns_mono) (use table_frame_trans[OF fr, of "set names"] in auto)
  qed
  show ?case
  proof (cases "is_settled (rt_status (pr_runtime r1))")
    case True
    have "returns (stop_each P names (write_named n (\<lambda>_. r1) t) h) (\<lambda>(outs, t', h').
        table_frame (set (n # names)) t t' \<and> st_name ` set outs \<subseteq> set (n # names))"
      by (rule returns_mono[OF rest]) (use r1 in auto)
    with True r show ?thesis by (simp add: r1_def[symmetric])
  next
    case False
    obtain res r2 h1 where stop: "request_stop P r1 h = (res, r2, h1)" by (cases "request_stop P r1 h")
    then have fr: "stop_frame r1 (res, r2, h1)" using request_stop_frame[of r1 P h] by simp
    define r3 where "r3 = (case res of Inr _ \<Rightarrow> r2 | Inl _ \<Rightarrow> on_runtime mark_stopping r2)"
    have "rt_pid (pr_runtime r2) \<noteq> None" if "res = Inl e" for e
      using fr that by (auto simp: stop_frame_def live_pid_def split: if_splits)
    then have r3: "record_name r3 = record_name r" "pr_spec r3 = pr_spec r"
        "runtime_ok (pr_runtime r) \<longrightarrow> runtime_ok (pr_runtime r3)"
      using fr r1 runtime_ok_pid
      by (auto simp: r3_def stop_frame_def on_runtime_def mark_stopping_def split: sum.splits)
    have "returns (stop_each P names (write_named n (\<lambda>_. r3) t) h1) (\<lambda>(outs, t', h').
        table_frame (set (n # names)) t t' \<and>
        st_name ` set (case res of Inr out \<Rightarrow> out # outs | Inl _ \<Rightarrow> outs) \<subseteq> set (n # names))"
      by (rule returns_mono[OF rest[OF r3]])
        (use fr r1 in \<open>auto simp: stop_frame_def split: sum.splits\<close>)
    with False r stop show ?thesis
      by (cases res) (simp_all add: r1_def[symmetric] r3_def case_prod_unfold)
  qed
qed simp

lemma cancel_ready_each_returns:
  "sv_inv s \<Longrightarrow> returns (cancel_ready_each ns s fx) (\<lambda>(s', fx'). sv_inv s' \<and> sv_names s' = sv_names s)"
proof (induction ns arbitrary: s fx)
  case (Cons n ns)
  then obtain s1 fx1 where c: "cancel_ready n s fx = Some (s1, fx1)" "sv_shape s s1"
    using cancel_ready_returns[OF waiters_insert, of s n fx] by (auto simp: returns_iff)
  then have inv1: "sv_inv s1" "sv_names s1 = sv_names s"
    using Cons.prems by (auto simp: sv_shape_def sv_inv_def)
  with Cons.IH[OF inv1(1), of fx1] c(1) show ?case by simp
qed simp

lemma stop_all_returns: "sv_inv s \<Longrightarrow> returns (sv_stop_all P s fx h) request_inv"
proof -
  assume inv: "sv_inv s"
  define s1 where "s1 = snd (disarm_everything s)"
  have inv1: "sv_inv s1" using sv_keeps_inv[OF keeps_disarm_everything inv] by (simp add: s1_def)
  obtain order where order: "dependency_order (sv_table s1) = Some order" "set order = sv_names s1"
    using dependency_order_spec[OF sv_inv_wf[OF inv1]] by (auto simp: returns_iff)
  obtain outs t2 h2 where st: "stop_each P (rev order) (sv_table s1) h = Some (outs, t2, h2)"
      "table_frame (set (rev order)) (sv_table s1) t2"
    using stop_each_returns[of "rev order" "sv_table s1" P h] order(2) by (auto simp: returns_iff)
  let ?s2 = "s1\<lparr>sv_table := t2\<rparr>"
  have "sv_inv ?s2" by (rule inv_frame[OF inv1 st(2)])
  note cancel_ready_each_returns[OF this]
  then have ready: "returns (cancel_ready_each ns ?s2 fx) (\<lambda>x. sv_inv (fst x))" for ns fx
    by (rule returns_mono) auto
  show "returns (sv_stop_all P s fx h) request_inv"
    using order(1) st(1)
    by (simp add: sv_stop_all_def stop_all_apps_def s1_def[symmetric] case_prod_unfold Let_def ready)
qed

lemma sv_stop_returns:
  assumes inv: "sv_inv s"
  shows "returns (sv_stop P sel s fx h) request_inv"
proof (cases "sel = All")
  case True
  with stop_all_returns[OF inv] show ?thesis by (simp add: sv_stop_def)
next
  case False
  obtain res t1 h1 where st: "stop_app P sel (sv_table s) h = (res, t1, h1)"
    by (cases "stop_app P sel (sv_table s) h")
  let ?s1 = "s\<lparr>sv_table := t1\<rparr>"
  have inv1: "sv_inv ?s1"
    using stop_app_frame[OF sv_inv_wf[OF inv], of P sel h] st by (auto intro!: inv_frame[OF inv])
  have "returns (cover_draining sel ?s1 fx) (\<lambda>x. sv_inv (fst x))"
    by (rule returns_mono[OF cover_draining_returns[OF inv1]]) auto
  moreover have "returns (retire n i tok ?s1 fx) (\<lambda>x. sv_inv (fst x))" for n i tok
    by (rule returns_mono[OF retire_inv]) (use inv1 waiters_insert[OF inv1] in \<open>auto simp: sv_inv_def\<close>)
  ultimately show ?thesis
    using False st by (simp add: sv_stop_def case_prod_unfold Let_def split: sum.splits)
qed

subsection \<open>Deleting\<close>

lemma inv_shrink:
  assumes "sv_inv s" and "wf_table t" and "table_names t = sv_names s - {n}"
  shows "returns (retire n i tok (s\<lparr>sv_table := t\<rparr>) fx)
    (\<lambda>(s', fx'). sv_inv s' \<and> sv_names s' = sv_names s - {n})"
proof -
  have "waiters_in (insert n (table_names t)) (s\<lparr>sv_table := t\<rparr>)"
    using assms(1,3) by (fastforce simp: sv_inv_def waiters_in_def)
  then have "returns (retire n i tok (s\<lparr>sv_table := t\<rparr>) fx)
      (\<lambda>(s', fx'). sv_inv s' \<and> sv_names s' = sv_names (s\<lparr>sv_table := t\<rparr>))"
    using assms by (intro retire_inv) (simp_all add: sv_inv_def)
  then show ?thesis using assms(3) by simp
qed

lemma delete_each_returns:
  "sv_inv s \<Longrightarrow> distinct order \<Longrightarrow> set order \<subseteq> sv_names s \<Longrightarrow>
    returns (delete_each P order s fx h) (\<lambda>(names, s', fx', h'). sv_inv s')"
proof (induction order arbitrary: s fx h)
  case (Cons n order)
  note inv = Cons.prems(1)
  have n: "n \<in> sv_names s" using Cons.prems(3) by simp
  obtain res t1 h1 where d: "delete_one P n (sv_table s) h = Some (res, t1, h1)"
      "delete_ok n (sv_table s) (res, t1, h1)"
    using delete_one_returns[OF sv_inv_wf[OF inv] n, of P h] by (auto simp: returns_iff)
  let ?s1 = "s\<lparr>sv_table := t1\<rparr>"
  have rest: "returns (delete_each P order s2 fx2 h1) (\<lambda>x. sv_inv (fst (snd x)))"
    if "sv_inv s2" "sv_names s - {n} \<subseteq> sv_names s2" for s2 fx2
  proof -
    have "returns (delete_each P order s2 fx2 h1) (\<lambda>(names, s', fx', h'). sv_inv s')"
      using that Cons.prems by (intro Cons.IH) auto
    then show ?thesis by (rule returns_mono) auto
  qed
  show ?case
  proof (cases res)
    case (Inl e)
    with d(2) have "wf_table t1" "table_names t1 = sv_names s" by (simp_all add: delete_ok_def)
    then have inv1: "sv_inv ?s1" "sv_names ?s1 = sv_names s" using inv by (auto intro!: inv_table)
    have "returns (cover_draining (Name n) ?s1 fx)
        (\<lambda>x. returns (delete_each P order (fst x) (snd x) h1) (\<lambda>x. sv_inv (fst (snd x))))"
      by (rule returns_mono[OF cover_draining_returns[OF inv1(1)]]) (use inv1(2) rest in auto)
    with Inl d(1) show ?thesis by (simp add: case_prod_unfold)
  next
    case (Inr out)
    with d(2) have "wf_table t1" "table_names t1 = sv_names s - {n}" "st_name out = n"
      by (simp_all add: delete_ok_def)
    note shrink = inv_shrink[OF inv this(1,2)] this(3)
    have "returns (retire n i tok ?s1 fx)
        (\<lambda>x. returns (delete_each P order (fst x) (snd x) h1) (\<lambda>x. sv_inv (fst (snd x))))" for i tok
      by (rule returns_mono[OF shrink(1)]) (use rest in auto)
    with Inr d(1) shrink(2) show ?thesis by (simp add: case_prod_unfold)
  qed
qed simp

definition delete_shape ::
  "process_table \<Rightarrow> (usecase_error + stop_outcome) \<times> process_table \<times> history \<Rightarrow> bool" where
  "delete_shape t = (\<lambda>(res, t', h'). wf_table t' \<and>
     (case res of
        Inl e \<Rightarrow> table_names t' = table_names t
      | Inr out \<Rightarrow> table_names t' = table_names t - {st_name out}))"

lemma delete_app_shape: "wf_table t \<Longrightarrow> returns (delete_app P s t h) (delete_shape t)"
  by (rule returns_mono[OF delete_app_returns]) (auto simp: delete_shape_def split: sum.splits)

lemma sv_delete_returns:
  assumes inv: "sv_inv s"
  shows "returns (sv_delete P sel s fx h) request_inv"
proof (cases "sel = All")
  case True
  obtain order where order: "dependency_order (sv_table s) = Some order" "distinct order"
      "set order = sv_names s"
    using dependency_order_spec[OF sv_inv_wf[OF inv]] by (auto simp: returns_iff)
  have "returns (delete_each P (rev order) s fx h) (\<lambda>(names, s', fx', h'). sv_inv s')"
    using order(2,3) inv by (intro delete_each_returns) auto
  with True order(1) show ?thesis by (simp add: sv_delete_def sv_delete_all_def case_prod_unfold)
next
  case False
  obtain x where x: "delete_app P sel (sv_table s) h = Some x" "delete_shape (sv_table s) x"
    using delete_app_shape[OF sv_inv_wf[OF inv], of P sel h] unfolding returns_iff by (elim exE conjE)
  obtain res t1 h1 where "x = (res, t1, h1)" by (cases x)
  with x have d: "delete_app P sel (sv_table s) h = Some (res, t1, h1)" "wf_table t1"
      "case res of Inl e \<Rightarrow> table_names t1 = sv_names s
       | Inr out \<Rightarrow> table_names t1 = sv_names s - {st_name out}"
    by (simp_all add: delete_shape_def)
  let ?s1 = "s\<lparr>sv_table := t1\<rparr>"
  show ?thesis
  proof (cases res)
    case (Inl e)
    then have inv1: "sv_inv ?s1" using d inv by (intro inv_table) simp_all
    have "returns (cover_draining sel ?s1 fx) (\<lambda>x. sv_inv (fst x))"
      by (rule returns_mono[OF cover_draining_returns[OF inv1]]) auto
    with False Inl d(1) show ?thesis by (simp add: sv_delete_def case_prod_unfold)
  next
    case (Inr out)
    then have gone: "table_names t1 = sv_names s - {st_name out}" using d(3) by simp
    have "returns (retire (st_name out) i tok ?s1 fx) (\<lambda>x. sv_inv (fst x))" for i tok
      by (rule returns_mono[OF inv_shrink[OF inv d(2) gone]]) (simp add: case_prod_unfold)
    with False Inr d(1) show ?thesis by (simp add: sv_delete_def case_prod_unfold)
  qed
qed

subsection \<open>Starting\<close>

lemma waiters_push:
  assumes "waiters_in S s" and "n \<in> S"
  shows "waiters_in S (push_waiter d n s)"
proof -
  define old where "old = (case map_of (sv_waiters s) d of None \<Rightarrow> [] | Some ws \<Rightarrow> ws)"
  have upd: "set (AList.update k v m) \<subseteq> insert (k, v) (set m)" for k :: string and v :: "string list" and m
    by (induction m) auto
  have "set old \<subseteq> S"
    using assms(1) by (cases "map_of (sv_waiters s) d") (auto simp: old_def waiters_in_def dest!: map_of_SomeD)
  then have "\<forall>(k, ws)\<in>insert (d, old @ [n]) (set (sv_waiters s)). set ws \<subseteq> S"
    using assms by (simp add: waiters_in_def)
  then have "\<forall>(k, ws)\<in>set (AList.update d (old @ [n]) (sv_waiters s)). set ws \<subseteq> S"
    using upd[of d "old @ [n]" "sv_waiters s"] by blast
  then show ?thesis by (simp add: waiters_in_def push_waiter_def old_def)
qed

lemma inv_push: "sv_inv s \<Longrightarrow> n \<in> sv_names s \<Longrightarrow> sv_inv (push_waiter d n s) \<and> sv_names (push_waiter d n s) = sv_names s"
  using waiters_push[of "sv_names s" s n d] by (simp add: sv_inv_def) (simp add: push_waiter_def)

lemma inv_push_deferred:
  "sv_inv s \<Longrightarrow> ds_name p \<in> sv_names s \<Longrightarrow>
    sv_inv (push_deferred p s) \<and> sv_names (push_deferred p s) = sv_names s"
proof -
  have "sv_inv (foldl (\<lambda>s d. push_waiter d n s) s ds) \<and>
      sv_names (foldl (\<lambda>s d. push_waiter d n s) s ds) = sv_names s"
    if "sv_inv s" "n \<in> sv_names s" for n ds
    using that by (induction ds arbitrary: s) (simp_all add: inv_push)
  then show "sv_inv s \<Longrightarrow> ds_name p \<in> sv_names s \<Longrightarrow> ?thesis" by (simp add: push_deferred_def)
qed

lemma inv_push_all:
  "sv_inv s \<Longrightarrow> ds_name ` set ps \<subseteq> sv_names s \<Longrightarrow> sv_inv (foldl (\<lambda>s p. push_deferred p s) s ps)"
  by (induction ps arbitrary: s) (simp_all add: inv_push_deferred)

lemma keeps_arm_started: "sv_keeps s (fst (arm_started P outs s fx h))"
proof (induction outs arbitrary: s fx h)
  case (Cons out outs)
  let ?c = "sv_cancel_restart (so_name out) s fx"
  let ?a = "if so_kind out \<noteq> Deferred then sv_arm_timer P (so_name out) (fst ?c) (snd ?c) h
    else (fst ?c, snd ?c, h)"
  have "sv_keeps (fst ?c) (fst ?a)" by (cases "so_kind out \<noteq> Deferred") (simp_all add: keeps_arm)
  then have "sv_keeps s (fst ?a)" by (rule sv_keeps_trans[OF keeps_cancel])
  from sv_keeps_trans[OF this Cons.IH[of "fst ?a" "fst (snd ?a)" "snd (snd ?a)"]]
  show ?case by (simp add: case_prod_unfold Let_def)
qed simp

lemma sv_start_returns:
  assumes inv: "sv_inv s"
  shows "returns (sv_start P R services s fx h) request_inv"
proof (cases "prepare_all R services h")
  case (Pair prepared h1)
  show ?thesis
  proof (cases prepared)
    case (Inl e)
    with Pair inv show ?thesis by (simp add: sv_start_def)
  next
    case (Inr specs)
    obtain x where x: "start_apps P specs (sv_logs_dir s) (sv_table s) h1 = Some x" "apps_ok (sv_table s) x"
      using start_apps_ok[OF sv_inv_wf[OF inv], of P specs "sv_logs_dir s" h1]
      unfolding returns_iff by (elim exE conjE)
    obtain rep t2 h2 where xs: "x = (rep, t2, h2)" by (cases x)
    let ?s2 = "s\<lparr>sv_table := t2\<rparr>"
    have ok: "sv_inv ?s2" "so_name ` set (sr_outcomes rep) \<subseteq> sv_names ?s2"
        "ds_name ` set (sr_pending rep) \<subseteq> sv_names ?s2"
      using x(2) xs inv by (auto simp: apps_ok_def pending_ok_def intro!: inv_table)
    obtain s3 fx3 where w: "watch_all (sr_outcomes rep) ?s2 fx = Some (s3, fx3)" "sv_keeps ?s2 s3"
      using watch_all_returns[OF ok(2)] by (fastforce simp: returns_iff)
    let ?s4 = "foldl (\<lambda>s p. push_deferred p s) s3 (sr_pending rep)"
    have "sv_inv ?s4"
      using ok(3) sv_keeps_names[OF w(2)] by (intro inv_push_all sv_keeps_inv[OF w(2) ok(1)]) simp
    then have "sv_inv ?s4 \<and> sv_inv (fst (arm_started P (sr_outcomes rep) ?s4 fx3 h2))"
      using sv_keeps_inv[OF keeps_arm_started] by blast
    with Pair Inr x(1) xs w(1) show ?thesis
      by (simp add: sv_start_def case_prod_unfold Let_def)
  qed
qed

subsection \<open>Restarting\<close>

lemma wf_new_spec:
  assumes "wf_table t" and "find_by_name t n = Some r" and "app_name spec = n"
  shows "wf_table (write_named n (\<lambda>_. r\<lparr>pr_spec := spec\<rparr>) t)"
    "names_in_table_order (write_named n (\<lambda>_. r\<lparr>pr_spec := spec\<rparr>) t) = names_in_table_order t"
  using assms wf_find[OF assms(1,2)]
  by (auto intro!: wf_write_named simp: record_ok_def)

lemma reload_spec_returns:
  assumes inv: "sv_inv s" and n: "n \<in> sv_names s" and spec: "app_name spec = n"
  shows "returns (reload_spec n spec s) (\<lambda>s'. sv_inv s' \<and> sv_names s' = sv_names s)"
proof -
  obtain r where r: "find_by_name (sv_table s) n = Some r" using n find_by_name_iff by auto
  note wf = wf_new_spec[OF sv_inv_wf[OF inv] r spec]
  from r wf show ?thesis
    by (simp add: reload_spec_def inv_table[OF inv])
qed

lemma reload_declaration_inv:
  assumes inv: "sv_inv s" and ok: "resolver_ok R"
  shows "sv_inv (fst (snd (reload_declaration R sel s h)))"
proof (cases "find_record (sv_table s) sel")
  case None
  with inv show ?thesis by (simp add: reload_declaration_def)
next
  case (Some r)
  show ?thesis
  proof (cases "R h (record_name r)")
    case (Inl e)
    with Some inv show ?thesis by (simp add: reload_declaration_def prepare_def Let_def)
  next
    case (Inr spec)
    then have spec: "app_name spec = record_name r" using ok by (auto simp: resolver_ok_def)
    note named = find_record_named[OF sv_inv_wf[OF inv] Some]
    note wf = wf_new_spec[OF sv_inv_wf[OF inv] named spec]
    have "sv_inv (s\<lparr>sv_table := write_named (record_name r) (\<lambda>_. r\<lparr>pr_spec := spec\<rparr>) (sv_table s)\<rparr>)"
      by (rule inv_table[OF inv wf(1)]) (simp add: wf(2))
    with Some Inr write_record_named[OF sv_inv_wf[OF inv] Some] show ?thesis
      by (simp add: reload_declaration_def prepare_def Let_def)
  qed
qed

text \<open>Restart one service and dispatch what came of it.\<close>

lemma restart_and_dispatch:
  assumes inv: "sv_inv s" and r: "restart_app P sel d (sv_table s) h = Some (Inr out, t1, h1)"
  shows "returns (dispatch_restart out (s\<lparr>sv_table := t1\<rparr>) fx)
    (\<lambda>(n, s', fx'). sv_inv s' \<and> sv_names s' = sv_names s)"
proof -
  have fr: "table_frame UNIV (sv_table s) t1"
      "\<exists>q. find_record (sv_table s) sel = Some q \<and> same_result_name (record_name q) (Inr out)"
    using restart_app_frame[OF sv_inv_wf[OF inv], of P sel d h] r
    by (cases "find_record (sv_table s) sel"; simp)+
  then obtain n where n: "same_result_name n (Inr out)" "n \<in> sv_names s"
    using find_record_Some by blast
  have inv1: "sv_inv (s\<lparr>sv_table := t1\<rparr>)" "sv_names (s\<lparr>sv_table := t1\<rparr>) = sv_names s"
    using inv_frame[OF inv fr(1)] table_frame_names[OF fr(1)] by simp_all
  have n1: "n \<in> sv_names (s\<lparr>sv_table := t1\<rparr>)" using n(2) inv1(2) by simp
  show ?thesis
    by (rule returns_mono[OF dispatch_returns[OF n(1) n1]])
      (use inv1 sv_keeps_inv sv_keeps_names in fastforce)
qed

definition cancel_and_arm ::
  "ports \<Rightarrow> string \<Rightarrow> supervisor \<Rightarrow> effects \<Rightarrow> history \<Rightarrow> supervisor" where
  "cancel_and_arm P n s fx h =
     (let c = sv_cancel_restart n s fx in fst (sv_arm_timer P n (fst c) (snd c) h))"

lemma keeps_cancel_and_arm: "sv_keeps s (cancel_and_arm P n s fx h)"
  unfolding cancel_and_arm_def Let_def by (rule sv_keeps_trans[OF keeps_cancel keeps_arm])

lemma restart_each_returns:
  "sv_inv s \<Longrightarrow> set names \<subseteq> sv_names s \<Longrightarrow> resolver_ok R \<Longrightarrow>
    returns (restart_each P R names s fx h) (\<lambda>(done, s', fx', h'). sv_inv s')"
proof (induction names arbitrary: s fx h)
  case (Cons n names)
  have rest: "returns (restart_each P R names s2 fx2 h2) (\<lambda>x. sv_inv (fst (snd x)))"
    if "sv_inv s2" "sv_names s2 = sv_names s" for s2 fx2 h2
    by (rule returns_mono[OF Cons.IH[of s2 fx2 h2]]) (use that Cons.prems in auto)
  show ?case
  proof (cases "R h n")
    case (Inl e)
    with rest[OF Cons.prems(1) refl] show ?thesis by (simp add: prepare_def case_prod_unfold Let_def)
  next
    case (Inr spec)
    let ?h1 = "h @ [PrepareEv n (Inr spec)]"
    have "app_name spec = n" using Inr Cons.prems(3) by (auto simp: resolver_ok_def)
    then obtain s1 where s1: "reload_spec n spec s = Some s1" "sv_inv s1" "sv_names s1 = sv_names s"
      using reload_spec_returns[OF Cons.prems(1), of n spec] Cons.prems(2) by (auto simp: returns_iff)
    obtain res t2 h2 where r: "restart_app P (Name n) (sv_logs_dir s1) (sv_table s1) ?h1 = Some (res, t2, h2)"
        "table_frame UNIV (sv_table s1) t2"
      using restart_app_frame[OF sv_inv_wf[OF s1(2)], of P "Name n" "sv_logs_dir s1" ?h1]
      by (auto simp: returns_iff)
    show ?thesis
    proof (cases res)
      case (Inl e)
      let ?a = "sv_arm_timer P n (s1\<lparr>sv_table := t2\<rparr>) fx h2"
      have inv2: "sv_inv (s1\<lparr>sv_table := t2\<rparr>)" by (rule inv_frame[OF s1(2) r(2)])
      have "sv_inv (fst ?a)" "sv_names (fst ?a) = sv_names s"
        using sv_keeps_inv[OF keeps_arm inv2] sv_keeps_names[OF keeps_arm[of "s1\<lparr>sv_table := t2\<rparr>"]]
          table_frame_names[OF r(2)] s1(3) by simp_all
      from rest[OF this] show ?thesis
        using Inr s1(1) r(1) Inl by (simp add: prepare_def case_prod_unfold Let_def)
    next
      case out: (Inr out)
      have "returns (dispatch_restart out (s1\<lparr>sv_table := t2\<rparr>) fx)
          (\<lambda>(n, s', fx'). sv_inv s' \<and> sv_names s' = sv_names s1)"
        using restart_and_dispatch[OF s1(2)] r(1) out by simp
      then obtain m s3 fx3 where d: "dispatch_restart out (s1\<lparr>sv_table := t2\<rparr>) fx = Some (m, s3, fx3)"
          "sv_inv s3" "sv_names s3 = sv_names s1"
        unfolding returns_iff by (elim exE conjE) (auto split: prod.splits)
      have "sv_inv (cancel_and_arm P m s3 fx3 h2)" "sv_names (cancel_and_arm P m s3 fx3 h2) = sv_names s"
        using sv_keeps_inv[OF keeps_cancel_and_arm d(2)] sv_keeps_names[OF keeps_cancel_and_arm] d(3) s1(3)
        by simp_all
      from rest[OF this] show ?thesis
        using Inr s1(1) r(1) out d(1)
        by (simp add: prepare_def cancel_and_arm_def case_prod_unfold Let_def)
    qed
  qed
qed simp

lemma sv_restart_returns:
  assumes inv: "sv_inv s" and ok: "resolver_ok R"
  shows "returns (sv_restart P R sel s fx h) request_inv"
proof (cases "sel = All")
  case True
  have "returns (restart_each P R (names_in_table_order (sv_table s)) s fx h) (\<lambda>(done, s', fx', h'). sv_inv s')"
    using inv ok by (intro restart_each_returns) simp_all
  with True show ?thesis by (simp add: sv_restart_def case_prod_unfold)
next
  case False
  obtain loaded s1 h1 where l: "reload_declaration R sel s h = (loaded, s1, h1)"
    by (cases "reload_declaration R sel s h")
  then have inv1: "sv_inv s1" using reload_declaration_inv[OF inv ok, of sel h] by simp
  show ?thesis
  proof (cases loaded)
    case (Inl e)
    with False l inv1 show ?thesis by (simp add: sv_restart_def)
  next
    case (Inr _)
    obtain res t2 h2 where r: "restart_app P sel (sv_logs_dir s1) (sv_table s1) h1 = Some (res, t2, h2)"
        "table_frame UNIV (sv_table s1) t2"
      using restart_app_frame[OF sv_inv_wf[OF inv1], of P sel "sv_logs_dir s1" h1]
      by (auto simp: returns_iff)
    show ?thesis
    proof (cases res)
      case (Inl e)
      with False l Inr r(1) inv_frame[OF inv1 r(2)] show ?thesis by (simp add: sv_restart_def)
    next
      case out: (Inr out)
      have "returns (dispatch_restart out (s1\<lparr>sv_table := t2\<rparr>) fx)
          (\<lambda>x. sv_inv (cancel_and_arm P (fst x) (fst (snd x)) (snd (snd x)) h2))"
        by (rule returns_mono[OF restart_and_dispatch[OF inv1]])
          (use r(1) out sv_keeps_inv[OF keeps_cancel_and_arm] in auto)
      with False l Inr r(1) out show ?thesis
        by (simp add: sv_restart_def cancel_and_arm_def case_prod_unfold Let_def)
    qed
  qed
qed

subsection \<open>The other requests\<close>

lemma reset_each_frame:
  "wf_table t \<Longrightarrow> table_frame UNIV t (fst (snd (reset_each P ns t h)))"
proof (induction ns arbitrary: t h)
  case (Cons n ns)
  let ?r = "reset_app P (Name n) t h"
  have fr: "table_frame UNIV t (fst (snd ?r))" by (rule reset_app_frame[OF Cons.prems])
  have "table_frame UNIV (fst (snd ?r)) (fst (snd (reset_each P ns (fst (snd ?r)) (snd (snd ?r)))))"
    by (rule Cons.IH[OF table_frame_wf[OF fr Cons.prems]])
  from table_frame_trans[OF fr this] show ?case by (simp add: case_prod_unfold Let_def)
qed simp

lemma sv_reset_returns: "sv_inv s \<Longrightarrow> returns (sv_reset P sel s fx h) request_inv"
  using inv_frame[OF _ reset_each_frame[OF sv_inv_wf]] inv_frame[OF _ reset_app_frame[OF sv_inv_wf]]
  by (simp add: sv_reset_def case_prod_unfold Let_def)

lemma sv_signal_returns: "sv_inv s \<Longrightarrow> returns (sv_signal P sel raw s fx h) request_inv"
  by (simp add: sv_signal_def case_prod_unfold Let_def)

lemma sv_list_returns: "sv_inv s \<Longrightarrow> returns (sv_list P s fx h) request_inv"
  by (simp add: sv_list_def case_prod_unfold Let_def)

lemma sv_describe_returns: "sv_inv s \<Longrightarrow> returns (sv_describe P sel s fx h) request_inv"
  by (simp add: sv_describe_def case_prod_unfold Let_def split: sum.splits)

lemmas request_returns = sv_start_returns sv_list_returns sv_describe_returns sv_stop_returns
  sv_restart_returns sv_delete_returns sv_reset_returns sv_signal_returns stop_all_returns

lemma handle_returns:
  assumes "sv_inv s" and "resolver_ok R"
  shows "returns (handle P R request s h) request_inv"
  using assms by (cases request) (simp_all only: handle_def supervision_request.case request_returns)

end
