(* ===== verification/Daemon.thy ===== *)
theory Daemon
  imports Requests_Inv
begin

text \<open>
  \<^verbatim>\<open>frameworks/src/daemon/\<close>: \<^verbatim>\<open>events.rs\<close>, \<^verbatim>\<open>timers.rs\<close>, \<^verbatim>\<open>actor.rs\<close>, \<^verbatim>\<open>runner.rs\<close> and
  the boot of \<^verbatim>\<open>service.rs\<close>. The actor owns the supervisor and a board of tasks; every event
  from its queue is handed to the supervisor and the effects it answers with are applied to
  the board. The runtime of the host (which timer expires when, what a watched process does,
  when a client sends a request) is the choice of the step relation. A task of the board stays
  in its map when it is over, as its handle does.
\<close>

subsection \<open>Events and the task board\<close>

datatype daemon_event =
    CommandEvent supervision_request
  | ExitedEvent string u64 exit_outcome
  | RestartEvent string
  | FireEvent string u64
  | ForceKillEvent string u64 u32 "string option"
  | SampleMemory
  | SampleLiveness
  | RotateLogs
  | ReadyEvent string u64
  | ReadyTimeoutEvent string u64 string
  | Shutdown

datatype task =
    Sleeping u64 daemon_event
  | Probing string u64 ready_probe u64 u64
      \<comment> \<open>\<open>name\<close>, \<open>generation\<close>, \<open>probe\<close>, \<open>timeout_ms\<close>, \<open>interval_ms\<close>\<close>
  | Finished

record exit_watch =
  ew_name :: string
  ew_generation :: u64
  ew_pid :: u32
  ew_token :: "string option"

record task_board =
  bd_fires :: "(string \<times> task) list"
  bd_restarts :: "(string \<times> task) list"
  bd_force_kills :: "(string \<times> task) list"
  bd_ready :: "(string \<times> task) list"
  bd_memory_sample :: "task option"
  bd_liveness_sample :: "task option"
  bd_log_rotate :: "task option"
  bd_watches :: "exit_watch list"
  bd_alerts :: "alert list"

definition board_new :: task_board where
  "board_new = \<lparr>bd_fires = [], bd_restarts = [], bd_force_kills = [], bd_ready = [],
     bd_memory_sample = None, bd_liveness_sample = None, bd_log_rotate = None, bd_watches = [],
     bd_alerts = []\<rparr>"

text \<open>\<open>rearm\<close> aborts the task of that name and inserts the new one; \<open>rearm_once\<close> likewise.\<close>

definition rearm :: "string \<Rightarrow> u64 \<Rightarrow> daemon_event \<Rightarrow> (string \<times> task) list \<Rightarrow> (string \<times> task) list" where
  "rearm name delay event slot =
     AList.update name (Sleeping delay event) (AList.delete name slot)"

definition rearm_once :: "u64 \<Rightarrow> daemon_event \<Rightarrow> task option" where
  "rearm_once delay event = Some (Sleeping delay event)"

definition await_ready_task ::
  "string \<Rightarrow> u64 \<Rightarrow> ready_probe \<Rightarrow> u64 \<Rightarrow> u64 \<Rightarrow> (string \<times> task) list \<Rightarrow> (string \<times> task) list" where
  "await_ready_task name generation probe timeout interval slot =
     AList.update name (Probing name generation probe timeout interval) (AList.delete name slot)"

definition forget_force_kill :: "string \<Rightarrow> task_board \<Rightarrow> task_board" where
  "forget_force_kill name b = b\<lparr>bd_force_kills := AList.delete name (bd_force_kills b)\<rparr>"

definition board_watch :: "string \<Rightarrow> u64 \<Rightarrow> u32 \<Rightarrow> string option \<Rightarrow> task_board \<Rightarrow> task_board" where
  "board_watch name generation i tok b =
     b\<lparr>bd_watches := bd_watches b @
         [\<lparr>ew_name = name, ew_generation = generation, ew_pid = i, ew_token = tok\<rparr>]\<rparr>"

definition board_notify :: "alert \<Rightarrow> task_board \<Rightarrow> task_board" where
  "board_notify alert b = b\<lparr>bd_alerts := bd_alerts b @ [alert]\<rparr>"

definition board_memory_sample :: "u64 \<Rightarrow> task_board \<Rightarrow> task_board" where
  "board_memory_sample delay b = b\<lparr>bd_memory_sample := rearm_once delay SampleMemory\<rparr>"

definition board_liveness_sample :: "u64 \<Rightarrow> task_board \<Rightarrow> task_board" where
  "board_liveness_sample delay b = b\<lparr>bd_liveness_sample := rearm_once delay SampleLiveness\<rparr>"

definition board_log_rotate :: "u64 \<Rightarrow> task_board \<Rightarrow> task_board" where
  "board_log_rotate delay b = b\<lparr>bd_log_rotate := rearm_once delay RotateLogs\<rparr>"

definition board_arm :: "string \<Rightarrow> u64 \<Rightarrow> u64 \<Rightarrow> task_board \<Rightarrow> task_board" where
  "board_arm name fire_at delay b = b\<lparr>bd_fires := rearm name delay (FireEvent name fire_at) (bd_fires b)\<rparr>"

definition board_restart :: "string \<Rightarrow> u64 \<Rightarrow> task_board \<Rightarrow> task_board" where
  "board_restart name delay b = b\<lparr>bd_restarts := rearm name delay (RestartEvent name) (bd_restarts b)\<rparr>"

definition board_force_kill ::
  "string \<Rightarrow> u64 \<Rightarrow> u32 \<Rightarrow> string option \<Rightarrow> u64 \<Rightarrow> task_board \<Rightarrow> task_board" where
  "board_force_kill name generation i tok delay b =
     b\<lparr>bd_force_kills := rearm name delay (ForceKillEvent name generation i tok) (bd_force_kills b)\<rparr>"

lemmas board_defs [simp] = board_watch_def board_notify_def board_memory_sample_def board_liveness_sample_def
  board_log_rotate_def board_arm_def board_restart_def board_force_kill_def

fun apply_effect :: "supervision_effect \<Rightarrow> task_board \<Rightarrow> task_board" where
  "apply_effect (ScheduleMemorySample delay) b = board_memory_sample delay b"
| "apply_effect (ScheduleLivenessSample delay) b = board_liveness_sample delay b"
| "apply_effect (ArmTimer name fire_at delay) b = board_arm name fire_at delay b"
| "apply_effect (DisarmTimer name) b = b\<lparr>bd_fires := AList.delete name (bd_fires b)\<rparr>"
| "apply_effect (ScheduleRestart name delay) b = board_restart name delay b"
| "apply_effect (CancelRestart name) b = b\<lparr>bd_restarts := AList.delete name (bd_restarts b)\<rparr>"
| "apply_effect (ScheduleForceKill name generation i tok delay) b = board_force_kill name generation i tok delay b"
| "apply_effect (CancelForceKill name) b =
     b\<lparr>bd_force_kills := AList.delete name (bd_force_kills b)\<rparr>"
| "apply_effect (WatchExit name generation i tok) b = board_watch name generation i tok b"
| "apply_effect (ScheduleLogRotate delay) b = board_log_rotate delay b"
| "apply_effect (AwaitReady name generation probe timeout interval) b =
     b\<lparr>bd_ready := await_ready_task name generation probe timeout interval (bd_ready b)\<rparr>"
| "apply_effect (CancelReady name) b = b\<lparr>bd_ready := AList.delete name (bd_ready b)\<rparr>"
| "apply_effect (Notify alert) b = board_notify alert b"

definition apply_effects :: "effects \<Rightarrow> task_board \<Rightarrow> task_board" where
  "apply_effects fx b = fold apply_effect fx b"

text \<open>
  One turn of the loop in \<open>await_ready\<close>: the event it ends with, or how long it sleeps before
  the next turn. \<open>elapsed\<close> is what has passed since the task started.
\<close>

definition probe_round ::
  "readiness \<Rightarrow> u64 \<Rightarrow> string \<Rightarrow> u64 \<Rightarrow> u64 \<Rightarrow> u64 \<Rightarrow> daemon_event + u64" where
  "probe_round verdict elapsed name generation timeout interval =
     (case verdict of
        Ready \<Rightarrow> Inl (ReadyEvent name generation)
      | Failed reason \<Rightarrow> Inl (ReadyTimeoutEvent name generation reason)
      | Pending \<Rightarrow>
          let remaining = saturating_sub timeout elapsed in
          if remaining = 0 then
            Inl (ReadyTimeoutEvent name generation (''not ready within '' @ show_word timeout @ ''ms''))
          else Inr (min remaining (max interval 1)))"

subsection \<open>The actor\<close>

record daemon_config =
  cfg_daemon_poll_interval_ms :: u64
  cfg_kill_timeout_ms :: u64
  cfg_ready_timeout_ms :: u64
  cfg_ready_poll_interval_ms :: u64
  cfg_notify_cooldown_ms :: u64
  cfg_memory_poll_interval_ms :: u64
  cfg_liveness_poll_interval_ms :: u64
  cfg_liveness_failure_threshold :: u32
  cfg_log_rotate_max_bytes :: u64
  cfg_log_rotate_interval_ms :: u64

record daemon =
  dm_supervisor :: supervisor
  dm_board :: task_board
  dm_poll_interval_ms :: u64
  dm_kill_timeout_ms :: u64
  dm_memory_poll_interval_ms :: u64
  dm_liveness_poll_interval_ms :: u64
  dm_liveness_failure_threshold :: u32
  dm_log_rotate_max_bytes :: u64
  dm_log_rotate_interval_ms :: u64

definition daemon_new :: "string \<Rightarrow> daemon_config \<Rightarrow> daemon" where
  "daemon_new logs_dir c =
     \<lparr>dm_supervisor = supervisor_new logs_dir (cfg_kill_timeout_ms c) (cfg_ready_timeout_ms c)
        (max (cfg_ready_poll_interval_ms c) 1) (cfg_notify_cooldown_ms c),
      dm_board = board_new,
      dm_poll_interval_ms = max (cfg_daemon_poll_interval_ms c) 1,
      dm_kill_timeout_ms = cfg_kill_timeout_ms c,
      dm_memory_poll_interval_ms = max (cfg_memory_poll_interval_ms c) 1,
      dm_liveness_poll_interval_ms = max (cfg_liveness_poll_interval_ms c) 1,
      dm_liveness_failure_threshold = max (cfg_liveness_failure_threshold c) 1,
      dm_log_rotate_max_bytes = cfg_log_rotate_max_bytes c,
      dm_log_rotate_interval_ms = max (cfg_log_rotate_interval_ms c) 1\<rparr>"

definition run_effects :: "effects \<Rightarrow> supervisor \<Rightarrow> daemon \<Rightarrow> daemon" where
  "run_effects fx s d = d\<lparr>dm_supervisor := s, dm_board := apply_effects fx (dm_board d)\<rparr>"

definition resurrect_saved_apps ::
  "ports \<Rightarrow> daemon \<Rightarrow> history \<Rightarrow> ((usecase_error + unit) \<times> daemon \<times> history) option" where
  "resurrect_saved_apps P d h =
     do { (result, s, h) \<leftarrow> resurrect_saved P (dm_supervisor d) h;
          Some (case result of
                  Inl e \<Rightarrow> (Inl e, d\<lparr>dm_supervisor := s\<rparr>, h)
                | Inr fx \<Rightarrow> (Inr (), run_effects fx s d, h)) }"

text \<open>
  \<open>None\<close> is a panic of the supervisor, or a loop that does not end: the polling loop of the
  shutdown advances by \<open>poll_interval_ms\<close>, which \<open>Daemon::new\<close> makes positive.
\<close>

partial_function (option) wait_until_drained ::
  "ports \<Rightarrow> daemon \<Rightarrow> u64 \<Rightarrow> history \<Rightarrow> (bool \<times> history) option" where
  "wait_until_drained P d waited h =
     (let (tracked, h) = tracked_pids P h;
          idle = drained (dm_supervisor d) tracked
      in if waited < dm_kill_timeout_ms d then
           if idle then Some (True, h)
           else wait_until_drained P d (saturating_add waited (dm_poll_interval_ms d)) h
         else Some (idle, h))"

definition kill_survivors :: "ports \<Rightarrow> daemon \<Rightarrow> history \<Rightarrow> history" where
  "kill_survivors P d h =
     (let (tracked, h) = tracked_pids P h in force_kill_survivors P tracked (dm_supervisor d) h)"

definition daemon_shutdown :: "ports \<Rightarrow> daemon \<Rightarrow> history \<Rightarrow> (daemon \<times> history) option" where
  "daemon_shutdown P d h =
     do { let (fx, s, h) = prepare_shutdown P (dm_supervisor d) h;
          let d = run_effects fx s d;
          (settled, h) \<leftarrow> wait_until_drained P d 0 h;
          Some (d, if settled then h else kill_survivors P d h) }"

text \<open>Every handler asks the supervisor and carries out the effects.\<close>

definition ran :: "daemon \<Rightarrow> (effects \<times> supervisor \<times> history) option \<Rightarrow>
    (supervision_outcome list \<times> daemon \<times> history) option" where
  "ran d m = do { (fx, s, h) \<leftarrow> m; Some ([], run_effects fx s d, h) }"

definition actor_handle ::
  "ports \<Rightarrow> resolver \<Rightarrow> supervision_request \<Rightarrow> daemon \<Rightarrow> history \<Rightarrow>
   (supervision_outcome list \<times> daemon \<times> history) option" where
  "actor_handle P R request d h =
     do { (outcome, s, fx, h) \<leftarrow> handle P R request (dm_supervisor d) h;
          Some ([outcome], run_effects fx s d, h) }"

definition actor_exit ::
  "ports \<Rightarrow> string \<Rightarrow> u64 \<Rightarrow> exit_outcome \<Rightarrow> daemon \<Rightarrow> history \<Rightarrow>
   (supervision_outcome list \<times> daemon \<times> history) option" where
  "actor_exit P name generation outcome d h = ran d (on_exit P name generation outcome (dm_supervisor d) h)"

definition actor_restart ::
  "ports \<Rightarrow> string \<Rightarrow> daemon \<Rightarrow> history \<Rightarrow> (supervision_outcome list \<times> daemon \<times> history) option" where
  "actor_restart P name d h = ran d (on_restart P name (dm_supervisor d) h)"

definition actor_fire ::
  "ports \<Rightarrow> string \<Rightarrow> u64 \<Rightarrow> daemon \<Rightarrow> history \<Rightarrow> (supervision_outcome list \<times> daemon \<times> history) option" where
  "actor_fire P name fire_at d h = ran d (on_fire P name fire_at (dm_supervisor d) h)"

definition actor_memory_sample ::
  "ports \<Rightarrow> daemon \<Rightarrow> history \<Rightarrow> (supervision_outcome list \<times> daemon \<times> history) option" where
  "actor_memory_sample P d h = ran d (on_memory_sample P (dm_memory_poll_interval_ms d) (dm_supervisor d) h)"

definition actor_liveness_sample ::
  "ports \<Rightarrow> daemon \<Rightarrow> history \<Rightarrow> (supervision_outcome list \<times> daemon \<times> history) option" where
  "actor_liveness_sample P d h =
     ran d (on_liveness_sample P (dm_liveness_poll_interval_ms d) (dm_liveness_failure_threshold d)
       (dm_supervisor d) h)"

definition actor_log_rotate ::
  "ports \<Rightarrow> daemon \<Rightarrow> history \<Rightarrow> (supervision_outcome list \<times> daemon \<times> history) option" where
  "actor_log_rotate P d h =
     (let (fx, h) = on_log_rotate P (dm_log_rotate_max_bytes d) (dm_log_rotate_interval_ms d) (dm_supervisor d) h
      in Some ([], run_effects fx (dm_supervisor d) d, h))"

definition actor_ready ::
  "ports \<Rightarrow> string \<Rightarrow> u64 \<Rightarrow> daemon \<Rightarrow> history \<Rightarrow> (supervision_outcome list \<times> daemon \<times> history) option" where
  "actor_ready P name generation d h = ran d (on_ready P name generation (dm_supervisor d) h)"

definition actor_ready_timeout ::
  "ports \<Rightarrow> string \<Rightarrow> u64 \<Rightarrow> daemon \<Rightarrow> history \<Rightarrow> (supervision_outcome list \<times> daemon \<times> history) option" where
  "actor_ready_timeout P name generation d h = ran d (on_ready_timeout P name generation (dm_supervisor d) h)"

definition actor_force_kill ::
  "ports \<Rightarrow> string \<Rightarrow> u64 \<Rightarrow> u32 \<Rightarrow> string option \<Rightarrow> daemon \<Rightarrow> history \<Rightarrow> history" where
  "actor_force_kill P name generation i tok d h = on_force_kill P name generation i tok (dm_supervisor d) h"

definition apply_event ::
  "ports \<Rightarrow> resolver \<Rightarrow> daemon_event \<Rightarrow> daemon \<Rightarrow> history \<Rightarrow>
   (supervision_outcome list \<times> daemon \<times> history) option" where
  "apply_event P R event d h =
     (case event of
        CommandEvent request \<Rightarrow> actor_handle P R request d h
      | ExitedEvent name generation outcome \<Rightarrow> actor_exit P name generation outcome d h
      | RestartEvent name \<Rightarrow> actor_restart P name d h
      | FireEvent name fire_at \<Rightarrow> actor_fire P name fire_at d h
      | ForceKillEvent name generation i tok \<Rightarrow>
          Some ([], d\<lparr>dm_board := forget_force_kill name (dm_board d)\<rparr>,
                actor_force_kill P name generation i tok d h)
      | SampleMemory \<Rightarrow> actor_memory_sample P d h
      | SampleLiveness \<Rightarrow> actor_liveness_sample P d h
      | RotateLogs \<Rightarrow> actor_log_rotate P d h
      | ReadyEvent name generation \<Rightarrow> actor_ready P name generation d h
      | ReadyTimeoutEvent name generation reason \<Rightarrow> actor_ready_timeout P name generation d h
      | Shutdown \<Rightarrow> do { (d, h) \<leftarrow> daemon_shutdown P d h; Some ([], d, h) })"

lemmas apply_event_defs = apply_event_def actor_handle_def actor_exit_def actor_restart_def actor_fire_def
  actor_memory_sample_def actor_liveness_sample_def actor_log_rotate_def actor_ready_def
  actor_ready_timeout_def actor_force_kill_def

subsection \<open>The running daemon\<close>

record world =
  w_daemon :: daemon
  w_queue :: "daemon_event list"
  w_unsent :: "daemon_event list"
  w_stopped :: bool
  w_replies :: "supervision_outcome list"
  w_history :: history

definition boot_events :: "daemon_event list" where
  "boot_events = [SampleMemory, SampleLiveness, RotateLogs]"

definition boot :: "ports \<Rightarrow> string \<Rightarrow> daemon_config \<Rightarrow> history \<Rightarrow> (usecase_error + world) option" where
  "boot P logs_dir c h =
     do { (result, d, h) \<leftarrow> resurrect_saved_apps P (daemon_new logs_dir c) h;
          Some (case result of
                  Inl e \<Rightarrow> Inl e
                | Inr _ \<Rightarrow> Inr \<lparr>w_daemon = d, w_queue = [], w_unsent = boot_events,
                                w_stopped = False, w_replies = [], w_history = h\<rparr>) }"

text \<open>A timer of the board expires: its task sends its event and is over.\<close>

datatype slot =
    FireSlot string
  | RestartSlot string
  | ForceKillSlot string
  | MemorySlot
  | LivenessSlot
  | RotateSlot

fun slot_task :: "slot \<Rightarrow> task_board \<Rightarrow> task option" where
  "slot_task (FireSlot n) b = map_of (bd_fires b) n"
| "slot_task (RestartSlot n) b = map_of (bd_restarts b) n"
| "slot_task (ForceKillSlot n) b = map_of (bd_force_kills b) n"
| "slot_task MemorySlot b = bd_memory_sample b"
| "slot_task LivenessSlot b = bd_liveness_sample b"
| "slot_task RotateSlot b = bd_log_rotate b"

fun finish_slot :: "slot \<Rightarrow> task_board \<Rightarrow> task_board" where
  "finish_slot (FireSlot n) b = b\<lparr>bd_fires := AList.update n Finished (bd_fires b)\<rparr>"
| "finish_slot (RestartSlot n) b = b\<lparr>bd_restarts := AList.update n Finished (bd_restarts b)\<rparr>"
| "finish_slot (ForceKillSlot n) b = b\<lparr>bd_force_kills := AList.update n Finished (bd_force_kills b)\<rparr>"
| "finish_slot MemorySlot b = b\<lparr>bd_memory_sample := Some Finished\<rparr>"
| "finish_slot LivenessSlot b = b\<lparr>bd_liveness_sample := Some Finished\<rparr>"
| "finish_slot RotateSlot b = b\<lparr>bd_log_rotate := Some Finished\<rparr>"

definition with_board :: "(task_board \<Rightarrow> task_board) \<Rightarrow> world \<Rightarrow> world" where
  "with_board f w = w\<lparr>w_daemon := (w_daemon w)\<lparr>dm_board := f (dm_board (w_daemon w))\<rparr>\<rparr>"

definition send_event :: "daemon_event \<Rightarrow> world \<Rightarrow> world" where
  "send_event e w = w\<lparr>w_queue := w_queue w @ [e]\<rparr>"

definition serve :: "ports \<Rightarrow> resolver \<Rightarrow> world \<Rightarrow> world option" where
  "serve P R w =
     (case w_queue w of
        [] \<Rightarrow> Some w
      | e # rest \<Rightarrow>
          do { (replies, d, h) \<leftarrow> apply_event P R e (w_daemon w) (w_history w);
               Some (w\<lparr>w_daemon := d, w_queue := rest, w_stopped := (e = Shutdown),
                       w_replies := w_replies w @ replies, w_history := h\<rparr>) })"

inductive daemon_step :: "ports \<Rightarrow> resolver \<Rightarrow> world \<Rightarrow> world \<Rightarrow> bool" for P R where
  Serve: "\<not> w_stopped w \<Longrightarrow> w_queue w \<noteq> [] \<Longrightarrow> serve P R w = Some w' \<Longrightarrow> daemon_step P R w w'"
| BootSend: "w_unsent w = e # es \<Longrightarrow> daemon_step P R w (send_event e (w\<lparr>w_unsent := es\<rparr>))"
| Request: "w_unsent w = [] \<Longrightarrow> daemon_step P R w (send_event (CommandEvent r) w)"
| Signalled: "w_unsent w = [] \<Longrightarrow> daemon_step P R w (send_event Shutdown w)"
| Expire: "slot_task slot (dm_board (w_daemon w)) = Some (Sleeping delay e) \<Longrightarrow>
    daemon_step P R w (send_event e (with_board (finish_slot slot) w))"
| ProbeEnd: "map_of (bd_ready (dm_board (w_daemon w))) n = Some (Probing n' g probe timeout interval) \<Longrightarrow>
    probe_round verdict elapsed n' g timeout interval = Inl e \<Longrightarrow>
    daemon_step P R w
      (send_event e (with_board (\<lambda>b. b\<lparr>bd_ready := AList.update n Finished (bd_ready b)\<rparr>) w))"
| ChildExit: "ew \<in> set (bd_watches (dm_board (w_daemon w))) \<Longrightarrow>
    daemon_step P R w
      (send_event (ExitedEvent (ew_name ew) (ew_generation ew) outcome)
        (with_board (\<lambda>b. b\<lparr>bd_watches := remove1 ew (bd_watches b)\<rparr>) w))"

inductive reachable :: "ports \<Rightarrow> resolver \<Rightarrow> world \<Rightarrow> bool" for P R where
  Boot: "boot P logs_dir c h = Some (Inr w) \<Longrightarrow> reachable P R w"
| Step: "reachable P R w \<Longrightarrow> daemon_step P R w w' \<Longrightarrow> reachable P R w'"

inductive_cases daemon_step_cases: "daemon_step P R w w'"

inductive_simps reachable_simps: "reachable P R w"

subsection \<open>No event makes the daemon panic\<close>

definition daemon_ok :: "daemon \<Rightarrow> bool" where
  "daemon_ok d \<longleftrightarrow> sv_inv (dm_supervisor d) \<and> 0 < dm_poll_interval_ms d"

lemma supervisor_new_inv: "sv_inv (supervisor_new d k r p n)"
  by (simp add: sv_inv_def supervisor_new_def waiters_in_def wf_table_def table_new_def
      names_in_table_order_def generations_ok_def timers_new_def current_generation_def)

lemma arm_each_keeps: "sv_keeps s (fst (arm_each P ns s fx h))"
proof (induction ns arbitrary: s fx h)
  case (Cons n ns)
  show ?case
    using sv_keeps_trans[OF keeps_arm Cons.IH] by (simp add: case_prod_unfold Let_def)
qed simp

lemma resurrect_saved_returns:
  assumes "loads_ok P" and inv: "sv_inv s" and "sv_waiters s = []"
  shows "returns (resurrect_saved P s h) (\<lambda>(res, s', h'). sv_inv s')"
proof -
  obtain x where x: "resurrect P (sv_logs_dir s) (sv_kill_timeout_ms s) (sv_table s) h = Some x"
      "resurrect_result (sv_table s) x"
    using resurrect_returns[OF assms(1), of "sv_logs_dir s" "sv_kill_timeout_ms s" "sv_table s" h]
    unfolding returns_iff by (elim exE conjE)
  obtain res t1 h1 where xs: "x = (res, t1, h1)" by (cases x)
  let ?s1 = "s\<lparr>sv_table := t1\<rparr>"
  show ?thesis
  proof (cases res)
    case (Inl e)
    then have "?s1 = s" using x(2) xs by (simp add: resurrect_result_def)
    then have "sv_inv ?s1 \<and> sv_inv (fst (arm_each P ns ?s1 fx h1))" for ns fx
      using inv sv_keeps_inv[OF arm_each_keeps inv] by simp
    with Inl x(1) xs show ?thesis by (simp add: resurrect_saved_def case_prod_unfold Let_def)
  next
    case (Inr outs)
    then have t1: "wf_table t1" "so_name ` set outs \<subseteq> table_names t1"
      using x(2) xs by (simp_all add: resurrect_result_def)
    have inv1: "sv_inv ?s1" using t1(1) inv assms(3) by (simp add: sv_inv_def waiters_in_def)
    obtain s2 fx2 where w: "watch_all outs ?s1 [] = Some (s2, fx2)" "sv_keeps ?s1 s2"
      using watch_all_returns[of outs ?s1 "[]"] t1(2) by (auto simp: returns_iff)
    have "sv_inv (fst (arm_each P ns s2 fx2 h1))" for ns
      by (rule sv_keeps_inv[OF arm_each_keeps sv_keeps_inv[OF w(2) inv1]])
    with Inr x(1) xs w(1) show ?thesis by (simp add: resurrect_saved_def case_prod_unfold Let_def)
  qed
qed

lemma max_one_pos: "0 < max (x :: u64) 1"
  by (simp add: less_max_iff_disj)

lemma boot_returns:
  assumes "loads_ok P"
  shows "returns (boot P logs_dir c h)
    (\<lambda>res. case res of Inl e \<Rightarrow> True | Inr w \<Rightarrow> daemon_ok (w_daemon w))"
proof -
  have "returns (resurrect_saved P (dm_supervisor (daemon_new logs_dir c)) h) (\<lambda>(res, s', h'). sv_inv s')"
    using assms supervisor_new_inv
    by (intro resurrect_saved_returns) (simp_all add: daemon_new_def, simp add: supervisor_new_def)
  then obtain res s1 h1 where "resurrect_saved P (dm_supervisor (daemon_new logs_dir c)) h = Some (res, s1, h1)"
      "sv_inv s1"
    by (auto simp: returns_iff)
  then show ?thesis
    by (cases res) (simp_all add: boot_def resurrect_saved_apps_def run_effects_def daemon_ok_def
        daemon_new_def max_one_pos)
qed

text \<open>The polling loop ends: every turn brings \<open>waited\<close> closer to the timeout.\<close>

lemma wait_until_drained_returns:
  assumes "0 < dm_poll_interval_ms d"
  shows "returns (wait_until_drained P d waited h) (\<lambda>(settled, h').
    signals h' = signals h \<and> spawns h' = spawns h)"
proof (induction "unat (dm_kill_timeout_ms d) - unat waited" arbitrary: waited h rule: less_induct)
  case less
  let ?h1 = "snd (tracked_pids P h)"
  have h1: "signals ?h1 = signals h" "spawns ?h1 = spawns h" by (simp_all add: tracked_pids_def Let_def)
  show ?case
  proof (cases "waited < dm_kill_timeout_ms d")
    case False
    with h1 show ?thesis by (subst wait_until_drained.simps) (simp add: case_prod_unfold Let_def)
  next
    case True
    let ?next = "saturating_add waited (dm_poll_interval_ms d)"
    have "unat waited < unat (dm_kill_timeout_ms d)" using True by (simp add: word_less_nat_alt)
    moreover have "0 < unat (dm_poll_interval_ms d)" using assms by (simp add: word_less_nat_alt)
    moreover have "unat (dm_kill_timeout_ms d) < 2 ^ 64"
      using unsigned_less[of "dm_kill_timeout_ms d"] by simp
    ultimately have "unat waited < unat ?next" "unat waited < unat (dm_kill_timeout_ms d)"
      by (simp_all add: unat_saturating_add)
    then have "unat (dm_kill_timeout_ms d) - unat ?next < unat (dm_kill_timeout_ms d) - unat waited"
      by linarith
    from less.hyps[OF this, of ?h1] h1 show ?thesis
      by (subst wait_until_drained.simps) (simp add: case_prod_unfold Let_def)
  qed
qed

lemma run_effects_ok: "sv_inv s \<Longrightarrow> daemon_ok d \<Longrightarrow> daemon_ok (run_effects fx s d)"
  by (simp add: daemon_ok_def run_effects_def)

lemma ran_returns:
  assumes "daemon_ok d" and "returns m (event_keeps (dm_supervisor d))"
  shows "returns (ran d m) (\<lambda>(replies, d', h'). daemon_ok d')"
proof -
  obtain fx s h where "m = Some (fx, s, h)" "sv_keeps (dm_supervisor d) s"
    using assms(2) by (auto simp: returns_iff)
  moreover from this(2) have "sv_inv s" using assms(1) sv_keeps_inv by (simp add: daemon_ok_def)
  ultimately show ?thesis using assms(1) by (simp add: ran_def run_effects_ok)
qed

lemma daemon_shutdown_returns:
  assumes "daemon_ok d"
  shows "returns (daemon_shutdown P d h) (\<lambda>(d', h'). daemon_ok d')"
proof -
  obtain fx s1 h1 where p: "prepare_shutdown P (dm_supervisor d) h = (fx, s1, h1)"
    by (cases "prepare_shutdown P (dm_supervisor d) h")
  let ?d1 = "run_effects fx s1 d"
  have "sv_keeps (dm_supervisor d) s1"
    using keeps_prepare_shutdown[of "dm_supervisor d" P h] p by simp
  then have ok: "daemon_ok ?d1"
    using assms sv_keeps_inv by (intro run_effects_ok) (auto simp: daemon_ok_def)
  then obtain settled h2 where "wait_until_drained P ?d1 0 h1 = Some (settled, h2)"
    using wait_until_drained_returns[of ?d1 P 0 h1] by (auto simp: daemon_ok_def returns_iff)
  with p ok show ?thesis by (simp add: daemon_shutdown_def Let_def)
qed

lemma apply_event_returns:
  assumes ok: "daemon_ok d" and R: "resolver_ok R"
  shows "returns (apply_event P R e d h) (\<lambda>(replies, d', h'). daemon_ok d')"
proof -
  have inv: "sv_inv (dm_supervisor d)" using ok by (simp add: daemon_ok_def)
  note ran = ran_returns[OF ok]
  show ?thesis
  proof (cases e)
    case (CommandEvent r)
    obtain res s1 fx h1 where "handle P R r (dm_supervisor d) h = Some (res, s1, fx, h1)" "sv_inv s1"
      using handle_returns[OF inv R, of P r h] by (auto simp: returns_iff)
    with CommandEvent ok show ?thesis by (simp add: apply_event_defs run_effects_ok)
  next
    case Shutdown
    from daemon_shutdown_returns[OF ok, of P h] Shutdown show ?thesis
      by (simp add: apply_event_defs case_prod_unfold)
  next
    case (ForceKillEvent n g i tok)
    with ok show ?thesis by (simp add: apply_event_defs daemon_ok_def)
  next
    case RotateLogs
    with ok inv show ?thesis by (simp add: apply_event_defs case_prod_unfold run_effects_ok Let_def)
  qed (simp_all only: apply_event_defs daemon_event.case Let_def
      ran[OF on_exit_returns[OF inv]] ran[OF on_restart_returns[OF inv]] ran[OF on_fire_returns[OF inv]]
      ran[OF on_memory_sample_returns[OF inv]] ran[OF on_liveness_sample_returns[OF inv]]
      ran[OF on_ready_returns[OF inv]] ran[OF on_ready_timeout_returns[OF inv]])
qed

definition event_step ::
  "ports \<Rightarrow> resolver \<Rightarrow> daemon_event \<Rightarrow> daemon \<times> supervision_outcome list \<times> history \<Rightarrow>
   (daemon \<times> supervision_outcome list \<times> history) option" where
  "event_step P R e = (\<lambda>(d, replies, h).
     do { (more, d, h) \<leftarrow> apply_event P R e d h; Some (d, replies @ more, h) })"

interpretation actor: step_system "event_step P R" "\<lambda>(d, replies, h). daemon_ok d" "\<lambda>e. resolver_ok R"
  for P R
proof (unfold_locales, clarify)
  fix d replies h e assume "daemon_ok d" and "resolver_ok R"
  from apply_event_returns[OF this, of P e h]
  show "\<exists>s'. event_step P R e (d, replies, h) = Some s' \<and> (\<lambda>(d, replies, h). daemon_ok d) s'"
    by (auto simp: event_step_def returns_iff)
qed

lemma reachable_ok:
  assumes "reachable P R w" and P: "loads_ok P" and R: "resolver_ok R"
  shows "daemon_ok (w_daemon w)"
  using assms(1)
proof (induction rule: reachable.induct)
  case (Boot logs_dir c h w)
  then show ?case using boot_returns[OF P, of logs_dir c h] by simp
next
  case (Step w w')
  from Step.hyps(2) show ?case
  proof (cases rule: daemon_step.cases)
    case Serve
    then obtain e rest where q: "w_queue w = e # rest" by (cases "w_queue w") auto
    with Serve(3) obtain replies d h where
      "apply_event P R e (w_daemon w) (w_history w) = Some (replies, d, h)" "w_daemon w' = d"
      by (auto simp: serve_def split: bind_splits)
    with apply_event_returns[OF Step.IH R, of P e "w_history w"] show ?thesis by simp
  qed (use Step.IH in \<open>simp_all add: send_event_def with_board_def daemon_ok_def\<close>)
qed

lemma serve_defined:
  assumes "daemon_ok (w_daemon w)" and "resolver_ok R"
  shows "\<exists>w'. serve P R w = Some w'"
proof (cases "w_queue w")
  case (Cons e rest)
  with apply_event_returns[OF assms, of P e "w_history w"] show ?thesis
    by (auto simp: serve_def returns_iff)
qed (simp add: serve_def)

subsection \<open>The interface of the host\<close>

text \<open>
  What the daemon asks of whoever backs its ports: a state file that names a service once and a resolver
  that answers about the service it was asked for. Over such a host it never panics.
\<close>

locale supervised_host =
  fixes P :: ports and R :: resolver
  assumes loads: "loads_ok P" and resolves: "resolver_ok R"
begin

lemma boots: "\<exists>started. boot P logs_dir c h = Some started"
  using boot_returns[OF loads, of logs_dir c h] by (auto simp: returns_iff)

lemma next_event_is_served:
  "reachable P R w \<Longrightarrow> daemon_ok (w_daemon w) \<and> (\<exists>w'. serve P R w = Some w')"
  using reachable_ok[OF _ loads resolves] serve_defined[OF _ resolves] by blast

lemma every_sequence_is_served:
  assumes "daemon_ok d"
  shows "\<exists>d' replies' h'. actor.runs P R events (d, replies, h) = Some (d', replies', h') \<and> daemon_ok d'"
  using actor.runs_defined[of "(d, replies, h)" events R P] assms resolves by auto

end

subsection \<open>The board holds what its slots are for\<close>

definition slots_ok :: "(string \<Rightarrow> task \<Rightarrow> bool) \<Rightarrow> (string \<times> task) list \<Rightarrow> bool" where
  "slots_ok own m \<longleftrightarrow> distinct (map fst m) \<and> (\<forall>(n, t)\<in>set m. t = Finished \<or> own n t)"

definition board_ok :: "task_board \<Rightarrow> bool" where
  "board_ok b \<longleftrightarrow>
     slots_ok (\<lambda>n t. \<exists>d at. t = Sleeping d (FireEvent n at)) (bd_fires b) \<and>
     slots_ok (\<lambda>n t. \<exists>d. t = Sleeping d (RestartEvent n)) (bd_restarts b) \<and>
     slots_ok (\<lambda>n t. \<exists>d g i tok. t = Sleeping d (ForceKillEvent n g i tok)) (bd_force_kills b) \<and>
     slots_ok (\<lambda>n t. \<exists>g p timeout interval. t = Probing n g p timeout interval) (bd_ready b)"

lemma slots_ok_update:
  assumes "slots_ok own m" and "t = Finished \<or> own n t"
  shows "slots_ok own (AList.update n t m)"
proof -
  have "set (AList.update n t m) \<subseteq> insert (n, t) (set m)" by (induction m) auto
  with assms show ?thesis by (auto simp: slots_ok_def distinct_update)
qed

lemma slots_ok_delete: "slots_ok own m \<Longrightarrow> slots_ok own (AList.delete n m)"
proof -
  have "set (AList.delete n m) \<subseteq> set m" by (induction m) auto
  then show "slots_ok own m \<Longrightarrow> ?thesis" by (auto simp: slots_ok_def distinct_delete)
qed

lemma slots_ok_replace:
  "slots_ok own m \<Longrightarrow> own n t \<Longrightarrow> slots_ok own (AList.update n t (AList.delete n m))"
  by (simp add: slots_ok_update slots_ok_delete)

lemmas slots_ok_intros = slots_ok_update slots_ok_delete slots_ok_replace

lemma board_ok_new: "board_ok board_new"
  by (simp add: board_ok_def board_new_def slots_ok_def)

lemma board_ok_effect: "board_ok b \<Longrightarrow> board_ok (apply_effect e b)"
  by (cases e) (simp_all add: board_ok_def rearm_def await_ready_task_def slots_ok_intros)

lemma board_ok_effects: "board_ok b \<Longrightarrow> board_ok (apply_effects fx b)"
  unfolding apply_effects_def by (induction fx arbitrary: b) (simp_all add: board_ok_effect)

lemma board_ok_finish: "board_ok b \<Longrightarrow> board_ok (finish_slot slot b)"
  by (cases slot) (simp_all add: board_ok_def slots_ok_intros)

lemma ran_board: "ran d m = Some (replies, d', h') \<Longrightarrow> board_ok (dm_board d) \<Longrightarrow> board_ok (dm_board d')"
  by (auto simp: ran_def run_effects_def board_ok_effects split: bind_splits)

lemma shutdown_board:
  "daemon_shutdown P d h = Some (d', h') \<Longrightarrow> board_ok (dm_board d) \<Longrightarrow> board_ok (dm_board d')"
  by (auto simp: daemon_shutdown_def run_effects_def board_ok_effects Let_def split: prod.splits bind_splits)

lemma apply_event_board:
  assumes "apply_event P R e d h = Some (replies, d', h')" and "board_ok (dm_board d)"
  shows "board_ok (dm_board d')"
proof (cases e)
  case (CommandEvent r)
  with assms show ?thesis
    by (auto simp: apply_event_defs run_effects_def board_ok_effects split: bind_splits)
next
  case (ForceKillEvent n g i tok)
  with assms show ?thesis
    by (auto simp: apply_event_defs forget_force_kill_def board_ok_def slots_ok_intros)
next
  case RotateLogs
  with assms show ?thesis
    by (auto simp: apply_event_defs run_effects_def board_ok_effects split: prod.splits)
next
  case Shutdown
  with assms shutdown_board show ?thesis by (auto simp: apply_event_defs split: bind_splits)
qed (use assms ran_board in \<open>simp_all add: apply_event_defs Let_def\<close>)

lemma boot_board: "boot P logs_dir c h = Some (Inr w) \<Longrightarrow> board_ok (dm_board (w_daemon w))"
  by (auto simp: boot_def resurrect_saved_apps_def run_effects_def daemon_new_def
      intro!: board_ok_effects board_ok_new split: bind_splits sum.splits)

lemma reachable_board:
  assumes "reachable P R w"
  shows "board_ok (dm_board (w_daemon w))"
  using assms
proof (induction rule: reachable.induct)
  case (Boot logs_dir c h w)
  then show ?case by (rule boot_board)
next
  case (Step w w')
  from Step.hyps(2) show ?case
  proof (cases rule: daemon_step.cases)
    case Serve
    then obtain e rest where q: "w_queue w = e # rest" by (cases "w_queue w") auto
    with Serve(3) obtain replies d h where
      "apply_event P R e (w_daemon w) (w_history w) = Some (replies, d, h)" "w_daemon w' = d"
      by (auto simp: serve_def split: bind_splits)
    with apply_event_board Step.IH show ?thesis by blast
  next
    case (Expire slot delay e)
    with board_ok_finish[OF Step.IH] show ?thesis by (simp add: send_event_def with_board_def)
  qed (use Step.IH in \<open>simp_all add: send_event_def with_board_def board_ok_def slots_ok_intros\<close>)
qed

text \<open>What an expired timer says, by the slot it was in.\<close>

fun slot_event :: "slot \<Rightarrow> daemon_event \<Rightarrow> bool" where
  "slot_event (FireSlot n) e = (\<exists>at. e = FireEvent n at)"
| "slot_event (RestartSlot n) e = (e = RestartEvent n)"
| "slot_event (ForceKillSlot n) e = (\<exists>g i tok. e = ForceKillEvent n g i tok)"
| "slot_event MemorySlot e = True"
| "slot_event LivenessSlot e = True"
| "slot_event RotateSlot e = True"

lemma board_slot_event:
  "board_ok b \<Longrightarrow> slot_task s b = Some (Sleeping delay e) \<Longrightarrow> slot_event s e"
  by (cases s) (fastforce simp: board_ok_def slots_ok_def dest!: map_of_SomeD)+

end
