(* ===== verification/Scenarios.thy ===== *)
theory Scenarios
  imports Daemon
begin

text \<open>
  What several components do together: a stop followed by the exit of the process, a relaunch
  followed by an event of the process it replaced, the exit of a service that failed its
  readiness probe, the grace period that ends in a kill, the shutdown of the daemon and the
  refusal of a batch.
\<close>

subsection \<open>Stop, then exit\<close>

lemma stop_then_exit:
  assumes wf: "wf_table t" and r: "find_record t sel = Some r" and live: "live_pid (pr_runtime r) \<noteq> None"
    and stop: "stop_app P sel t h = (Inr out, t1, h1)"
  shows "returns (handle_child_exit P (st_name out) outcome t1 h2) (\<lambda>(action, t2, h3).
    action = Settled Stopped False \<and>
    (\<exists>r2. find_by_name t2 (st_name out) = Some r2 \<and> rt_status (pr_runtime r2) = Stopped \<and>
       \<not> pending_restart (pr_runtime r2) \<and> rt_pid (pr_runtime r2) = None))"
proof -
  let ?r1 = "on_runtime mark_stopping (on_runtime cancel_restart (on_runtime disarm_schedule r))"
  obtain i where i: "live_pid (pr_runtime r) = Some i" using live by blast
  then have live1: "live_pid (pr_runtime (on_runtime cancel_restart (on_runtime disarm_schedule r))) = Some i"
    by (simp add: live_pid_def on_runtime_def cancel_restart_def disarm_schedule_def split: if_splits)
  have eqs: "st_name out = record_name r" "t1 = write_record sel (\<lambda>_. ?r1) t"
    using stop r live1
    by (auto simp: stop_app_def require_cases request_stop_live on_runtime_def Let_def
        split: sum.splits prod.splits)
  have shape: "record_name ?r1 = record_name r" "pr_spec ?r1 = pr_spec r"
      "\<not> pending_restart (pr_runtime ?r1)" "is_shutting_down (rt_status (pr_runtime ?r1))"
    by (simp_all add: on_runtime_def) (simp_all add: mark_stopping_def cancel_restart_def)
  have "rt_pid (pr_runtime ?r1) = Some i"
    using i by (simp add: live_pid_def on_runtime_def mark_stopping_def cancel_restart_def
        disarm_schedule_def split: if_splits)
  then have ok1: "runtime_ok (pr_runtime ?r1)" by (simp add: runtime_ok_def)
  have t1: "table_frame {record_name r} t t1" "find_by_name t1 (record_name r) = Some ?r1"
    unfolding eqs(2) using frame_write_selected[OF wf r shape(1,2)] ok1 by auto
  have n: "st_name out \<in> table_names t1" using t1(2) eqs(1) find_by_name_iff by auto
  have c: "classify_record ?r1 outcome now =
      (Settled Stopped False, on_runtime (\<lambda>rt. mark_exited Stopped (cancel_restart rt)) ?r1)" for now
    using shape by (intro classify_stopped) auto
  show ?thesis
    by (rule returns_mono[OF handle_child_exit_returns[OF n]])
      (use t1(2) eqs(1) c in \<open>auto simp: on_runtime_def mark_exited_def cancel_restart_def\<close>)
qed

subsection \<open>An event of a process that was replaced\<close>

lemma stale_events:
  assumes "\<not> is_current (sv_timers s) n g"
  shows "on_exit P n g outcome s h = Some ([], s, h)" "on_ready P n g s h = Some ([], s, h)"
    "on_ready_timeout P n g s h = Some ([], s, h)" "on_force_kill P n g i None s h = h"
  using assms by (simp_all add: on_exit_def on_ready_def on_ready_timeout_def awaits_ready_def
      on_force_kill_def)

lemma watch_bumps:
  assumes "so_pid out = Some i" and "needs_watching (so_kind out)" and "watch out s fx = Some (s', fx')"
  shows "sv_timers s' = snd (bump (so_name out) (sv_timers s))"
  using assms by (auto simp: watch_def case_prod_unfold Let_def split: bind_splits)

subsection \<open>A failed probe\<close>

lemma failed_probe_exit:
  assumes "is_current (sv_timers s) n g" and "find_by_name (sv_table s) n = Some r"
    and "n \<in> set (sv_ready_failed s)"
  shows "\<exists>s' h'. on_exit P n g outcome s h = Some ([CancelForceKill n], s', h') \<and>
    find_by_name (sv_table s') n = Some (on_runtime (mark_exited Errored) r) \<and>
    n \<notin> set (sv_ready_failed s') \<and> sv_timers s' = sv_timers s \<and> sv_waiters s' = sv_waiters s"
proof -
  have "record_name (on_runtime (mark_exited Errored) r) = n"
    using find_by_name_Some[OF assms(2)] by simp
  then show ?thesis
    using assms
    by (simp add: on_exit_def settle_failed_probe_def case_prod_unfold Let_def find_write_named)
qed

subsection \<open>Kills\<close>

lemma sweep_pid_signals:
  "signals (sweep_pid P i tok h) =
     signals h @ (if pid_was_recycled (p_identity P h i) tok then [] else [i])"
  by (simp add: sweep_pid_def identity_of_def force_kill_def Let_def)

lemma force_kill_guarded:
  "signals (on_force_kill P n g i tok s h) = signals h \<or>
   signals (on_force_kill P n g i tok s h) = signals h @ [i] \<and> i \<in> set (p_tracked P h) \<and>
     \<not> pid_was_recycled (p_identity P (h @ [TrackedEv (p_tracked P h)]) i) tok \<and>
     (tok = None \<longrightarrow> is_current (sv_timers s) n g)"
  by (auto simp: on_force_kill_def tracked_pids_def sweep_pid_signals Let_def)

lemma force_kill_each_signals:
  "\<exists>js. signals (force_kill_each P is s h) = signals h @ js \<and> set js \<subseteq> set is"
proof (induction "is" arbitrary: h)
  case (Cons i "is")
  let ?tok = "snd (owner_of_pid (sv_table s) i)"
  obtain js where js: "signals (force_kill_each P is s (sweep_pid P i ?tok h)) =
      signals (sweep_pid P i ?tok h) @ js" "set js \<subseteq> set is"
    using Cons.IH by blast
  then show ?case by (auto simp: sweep_pid_signals case_prod_unfold)
qed simp

lemma unswept_running: "set (survivor_pids s tracked) \<subseteq> set tracked - set (running_pids (sv_table s))"
  by (auto simp: survivor_pids_def unswept_pids_def)

text \<open>The shutdown signals only what is left of a stop: no process of a running service.\<close>

lemma shutdown_spares_running:
  assumes "daemon_ok d"
  shows "returns (daemon_shutdown P d h) (\<lambda>(d', h').
    sv_table (dm_supervisor d') = sv_table (dm_supervisor d) \<and> spawns h' = spawns h \<and>
    (\<exists>js. signals h' = signals h @ js \<and> set js \<inter> set (running_pids (sv_table (dm_supervisor d))) = {}))"
proof -
  let ?s = "dm_supervisor d"
  obtain fx s1 where f: "disarm_everything ?s = (fx, s1)" by (cases "disarm_everything ?s")
  then have t1: "sv_table s1 = sv_table ?s"
    by (auto simp: disarm_everything_def case_prod_unfold Let_def)
  let ?h1 = "snd (persist_for_handover P (sv_table s1) h)"
  let ?d1 = "run_effects fx s1 d"
  have h1: "signals ?h1 = signals h" "spawns ?h1 = spawns h"
    by (cases rule: save_table_cases[of P "sv_table s1" h]; simp add: persist_for_handover_def Let_def)+
  obtain settled h2 where w: "wait_until_drained P ?d1 0 ?h1 = Some (settled, h2)"
      "signals h2 = signals h" "spawns h2 = spawns h"
    using wait_until_drained_returns[of ?d1 P 0 ?h1] assms h1
    by (auto simp: daemon_ok_def returns_iff run_effects_def)
  have prep: "prepare_shutdown P ?s h = (fx, s1, ?h1)" using f by (simp add: prepare_shutdown_def)
  obtain js where js: "signals (kill_survivors P ?d1 h2) = signals h @ js"
      "set js \<subseteq> set (survivor_pids s1 (p_tracked P h2))"
    using force_kill_each_signals[of P "survivor_pids s1 (p_tracked P h2)" s1 "h2 @ [TrackedEv (p_tracked P h2)]"]
      w(2)
    by (auto simp: kill_survivors_def force_kill_survivors_def tracked_pids_def run_effects_def Let_def)
  have spawns: "spawns (force_kill_each P is s g) = spawns g" for "is" s g
    by (induction "is" arbitrary: g)
      (simp_all add: sweep_pid_def identity_of_def force_kill_def case_prod_unfold Let_def)
  have sp: "spawns (kill_survivors P ?d1 h2) = spawns h"
    using w(3) by (simp add: kill_survivors_def force_kill_survivors_def tracked_pids_def spawns Let_def)
  have "set js \<inter> set (running_pids (sv_table ?s)) = {}"
    using js(2) unswept_running[of s1 "p_tracked P h2"] t1 by auto
  with prep w js(1) sp t1 show ?thesis
    by (cases settled) (auto simp: daemon_shutdown_def run_effects_def Let_def)
qed

subsection \<open>A batch that is refused\<close>

lemma refused_batch:
  assumes "accepted_order t specs = Some (Inl e)"
  shows "start_apps P specs d t h = Some (report_refused e, t, h)"
  using assms by (simp add: start_apps_def)

lemma names_start_nodes:
  assumes "wf_table t" and "distinct (map app_name specs)"
  shows "distinct (map dn_name (start_nodes t specs))"
proof -
  have "map dn_name (map dependency_node_of specs) = map app_name specs"
    by (simp add: dependency_node_of_def)
  moreover have "distinct (map dn_name (dependency_nodes t))"
    using assms(1) node_names_table[OF assms(1)] by (simp add: wf_table_def)
  ultimately show ?thesis
    using assms(2) by (auto simp: start_nodes_def names_include_def list_ex_iff distinct_map inj_on_def)
qed

lemma cyclic_batch_refused:
  assumes wf: "wf_table t" and dist: "distinct (map app_name specs)"
    and cyclic: "\<not> acyclic (depends (start_nodes t specs))"
  shows "\<exists>e. start_apps P specs d t h = Some (report_refused e, t, h)"
proof (cases "validate_specs specs")
  case (Inl e)
  then show ?thesis using refused_batch by (auto simp: accepted_order_def)
next
  case (Inr u)
  have "\<exists>e. accepted_order t specs = Some (Inl e)"
  proof (cases rule: topo_sort_cases[OF names_start_nodes[OF wf dist]])
    case (1 a d)
    with Inr show ?thesis by (auto simp: accepted_order_def start_order_def)
  next
    case (2 involved)
    with Inr show ?thesis by (auto simp: accepted_order_def start_order_def)
  next
    case 3
    with cyclic show ?thesis by simp
  qed
  then show ?thesis using refused_batch by blast
qed

end
