(* ===== verification/Handover.thy ===== *)
theory Handover
  imports Text
begin

text \<open>
  \<^verbatim>\<open>usecases/src/handover.rs\<close>: what \<^verbatim>\<open>pm3\<close> reports after a daemon was replaced, from a
  snapshot of the services before and one after. The lemmas show that every service of the
  first snapshot is reported at most once and under which heading.
\<close>

record service_snapshot =
  ss_name :: string
  ss_pid :: "32 word option"

record handover_comparison =
  hc_adopted :: "string list"
  hc_restarted :: "string list"
  hc_lost :: "string list"

datatype handover_change = ChangedAdopted | ChangedRestarted | ChangedLost | ChangedIdle

definition classify_handover ::
  "32 word option \<Rightarrow> service_snapshot option \<Rightarrow> handover_change" where
  "classify_handover before after =
     (case after of
        None \<Rightarrow> ChangedLost
      | Some survivor \<Rightarrow>
          (case (before, ss_pid survivor) of
             (Some had, Some has) \<Rightarrow> if had = has then ChangedAdopted else ChangedRestarted
           | (None, Some has) \<Rightarrow> ChangedRestarted
           | (Some had, None) \<Rightarrow> ChangedLost
           | (None, None) \<Rightarrow> ChangedIdle))"

fun compare_rows ::
  "service_snapshot list \<Rightarrow> service_snapshot list \<Rightarrow> handover_comparison \<Rightarrow> handover_comparison"
where
  "compare_rows [] after comparison = comparison"
| "compare_rows (row # before) after comparison =
     (let survivor = find (\<lambda>candidate. ss_name candidate = ss_name row) after in
      compare_rows before after
        (case classify_handover (ss_pid row) survivor of
           ChangedAdopted \<Rightarrow> comparison\<lparr>hc_adopted := hc_adopted comparison @ [ss_name row]\<rparr>
         | ChangedRestarted \<Rightarrow> comparison\<lparr>hc_restarted := hc_restarted comparison @ [ss_name row]\<rparr>
         | ChangedLost \<Rightarrow> comparison\<lparr>hc_lost := hc_lost comparison @ [ss_name row]\<rparr>
         | ChangedIdle \<Rightarrow> comparison))"

definition compare_handover ::
  "service_snapshot list \<Rightarrow> service_snapshot list \<Rightarrow> handover_comparison" where
  "compare_handover before after =
     compare_rows before after \<lparr>hc_adopted = [], hc_restarted = [], hc_lost = []\<rparr>"

definition describe_group :: "string \<Rightarrow> string list \<Rightarrow> string" where
  "describe_group label names =
     (if names = [] then []
      else label @ '' '' @ show_nat (length names) @ '': '' @ join '', '' names)"

definition describe_handover :: "handover_comparison \<Rightarrow> string" where
  "describe_handover comparison =
     (if length (hc_adopted comparison) + length (hc_restarted comparison)
           + length (hc_lost comparison) = 0
      then ''no managed services to reclaim''
      else join [CHR 0x0A]
        (filter (\<lambda>line. line \<noteq> [])
          [describe_group ''adopted'' (hc_adopted comparison),
           describe_group ''restarted'' (hc_restarted comparison),
           describe_group ''lost'' (hc_lost comparison)]))"

definition change_of :: "service_snapshot list \<Rightarrow> service_snapshot \<Rightarrow> handover_change" where
  "change_of after row =
     classify_handover (ss_pid row) (find (\<lambda>candidate. ss_name candidate = ss_name row) after)"

lemma compare_rows_spec:
  "compare_rows before after c =
    \<lparr>hc_adopted = hc_adopted c @ map ss_name (filter (\<lambda>r. change_of after r = ChangedAdopted) before),
     hc_restarted = hc_restarted c @ map ss_name (filter (\<lambda>r. change_of after r = ChangedRestarted) before),
     hc_lost = hc_lost c @ map ss_name (filter (\<lambda>r. change_of after r = ChangedLost) before)\<rparr>"
  by (induction before arbitrary: c) (simp_all add: change_of_def Let_def split: handover_change.splits)

lemma compare_handover_spec:
  "compare_handover before after =
    \<lparr>hc_adopted = map ss_name (filter (\<lambda>r. change_of after r = ChangedAdopted) before),
     hc_restarted = map ss_name (filter (\<lambda>r. change_of after r = ChangedRestarted) before),
     hc_lost = map ss_name (filter (\<lambda>r. change_of after r = ChangedLost) before)\<rparr>"
  by (simp add: compare_handover_def compare_rows_spec)

lemma change_of_adopted:
  "change_of after row = ChangedAdopted \<longleftrightarrow>
    (\<exists>s i. find (\<lambda>c. ss_name c = ss_name row) after = Some s \<and> ss_pid s = Some i \<and> ss_pid row = Some i)"
  by (auto simp: change_of_def classify_handover_def split: option.splits)

end
