(* ===== verification/Std_Text.thy ===== *)
theory Std_Text
  imports Sandbox_Policy
begin

text \<open>
  More of the string functions of the standard library, as the readers and writers of the
  adapters use them: splitting at the first or last separator, lines and words, replacing,
  padding, and joining of paths. A search for a UTF-8 pattern in UTF-8 text is a search for its
  bytes, since the encoding is self-synchronising.
\<close>

subsection \<open>Splitting\<close>

fun split_once :: "string \<Rightarrow> string \<Rightarrow> (string \<times> string) option" where
  "split_once p [] = (if p = [] then Some ([], []) else None)"
| "split_once p (c # s) =
     (if starts_with p (c # s) then Some ([], drop (length p) (c # s))
      else map_option (\<lambda>(head, tail). (c # head, tail)) (split_once p s))"

lemma split_once_Some: "split_once p s = Some (a, b) \<Longrightarrow> s = a @ p @ b"
  by (induction s arbitrary: a) (auto simp: starts_with_iff split: if_splits)

lemma split_once_length: "split_once p s = Some (a, b) \<Longrightarrow> length s = length a + length p + length b"
  by (drule split_once_Some) simp

lemma split_once_None: "split_once p s = None \<longleftrightarrow> (\<nexists>a b. s = a @ p @ b)"
proof (induction s)
  case (Cons c s)
  have "(\<exists>a b. c # s = a @ p @ b) \<longleftrightarrow> starts_with p (c # s) \<or> (\<exists>a b. s = a @ p @ b)"
    by (auto simp: starts_with_iff) (metis append_Cons append_Nil list.exhaust list.inject | metis append_Cons)+
  with Cons show ?case by auto
qed auto

lemma split_once_first:
  "split_once p s = Some (a, b) \<Longrightarrow> s = a' @ p @ b' \<Longrightarrow> length a \<le> length a'"
proof (induction s arbitrary: a a')
  case (Cons c s)
  show ?case
  proof (cases "starts_with p (c # s)")
    case True
    with Cons.prems(1) have "a = []" by simp
    then show ?thesis by simp
  next
    case False
    with Cons.prems(1) obtain x where a: "a = c # x" "split_once p s = Some (x, b)"
      by (auto split: if_splits)
    from False Cons.prems(2) obtain y where "a' = c # y" "s = y @ p @ b'"
      by (cases a') (auto simp: starts_with_iff)
    with Cons.IH[OF a(2)] a(1) show ?thesis by simp
  qed
qed (auto split: if_splits)

lemma split_once_char:
  "split_once [c] s =
     (if c \<in> set s then Some (takeWhile (\<lambda>x. x \<noteq> c) s, tl (dropWhile (\<lambda>x. x \<noteq> c) s)) else None)"
  by (induction s) (auto simp: starts_with_def)

lemma split_once_at: "c \<notin> set a \<Longrightarrow> split_once [c] (a @ c # b) = Some (a, b)"
  by (induction a) (auto simp: starts_with_def)

definition rsplit_once :: "char \<Rightarrow> string \<Rightarrow> (string \<times> string) option" where
  "rsplit_once c s =
     (if c \<in> set s
      then Some (rev (tl (dropWhile (\<lambda>x. x \<noteq> c) (rev s))), rev (takeWhile (\<lambda>x. x \<noteq> c) (rev s)))
      else None)"

definition contains :: "string \<Rightarrow> string \<Rightarrow> bool" where
  "contains p s \<longleftrightarrow> split_once p s \<noteq> None"

lemma contains_iff: "contains p s \<longleftrightarrow> (\<exists>a b. s = a @ p @ b)"
  by (auto simp: contains_def split_once_None)

definition strip_suffix :: "string \<Rightarrow> string \<Rightarrow> string option" where
  "strip_suffix p s =
     (if ends_with p s then Some (take (length s - length p) s) else None)"

definition trim_start_matches :: "char \<Rightarrow> string \<Rightarrow> string" where
  "trim_start_matches c s = dropWhile (\<lambda>x. x = c) s"

definition trim_start :: "string \<Rightarrow> string" where
  "trim_start s = concat (dropWhile is_whitespace (chars s))"

definition trim_end :: "string \<Rightarrow> string" where
  "trim_end s = concat (rev (dropWhile is_whitespace (rev (chars s))))"

text \<open>\<open>str::lines\<close>: a line ends in a line feed, before which one carriage return is dropped.\<close>

definition strip_cr :: "string \<Rightarrow> string" where
  "strip_cr line = (if line \<noteq> [] \<and> last line = CHR 0x0D then butlast line else line)"

definition text_lines :: "string \<Rightarrow> string list" where
  "text_lines s =
     (let parts = split_on CHR 0x0A s
      in map strip_cr (butlast parts) @ (if last parts = [] then [] else [last parts]))"

fun split_words :: "string list \<Rightarrow> string \<Rightarrow> string list" where
  "split_words [] word = (if word = [] then [] else [word])"
| "split_words (c # cs) word =
     (if is_whitespace c then (if word = [] then [] else [word]) @ split_words cs []
      else split_words cs (word @ c))"

definition split_whitespace :: "string \<Rightarrow> string list" where
  "split_whitespace s = split_words (chars s) []"

function replace_all :: "string \<Rightarrow> string \<Rightarrow> string \<Rightarrow> string" where
  "replace_all p r s =
     (if p = [] then s
      else case split_once p s of
             None \<Rightarrow> s
           | Some (a, b) \<Rightarrow> a @ r @ replace_all p r b)"
  by pat_completeness auto
termination
  by (relation "measure (\<lambda>(p, r, s). length s)") (auto dest: split_once_length)

declare replace_all.simps [simp del]

lemma replace_all_absent: "\<not> contains p s \<Longrightarrow> replace_all p r s = s"
  by (subst replace_all.simps) (cases "split_once p s"; simp add: contains_def)

subsection \<open>Characters\<close>

text \<open>\<open>char::is_control\<close>: the code points below 32, 127, and 128 to 159.\<close>

definition is_control :: "string \<Rightarrow> bool" where
  "is_control letter \<longleftrightarrow>
     (case letter of
        [c] \<Rightarrow> of_char c < (32 :: nat) \<or> of_char c = (127 :: nat)
      | [c, d] \<Rightarrow> c = CHR 0xC2 \<and> (of_char d :: nat) < 160
      | _ \<Rightarrow> False)"

text \<open>\<open>{cell:<width}\<close>: spaces up to a width counted in characters.\<close>

definition pad_to :: "nat \<Rightarrow> string \<Rightarrow> string" where
  "pad_to width cell = cell @ replicate (width - char_count cell) CHR '' ''"

subsection \<open>Paths\<close>

text \<open>\<open>Path::join\<close> on Unix: an absolute second path replaces the first.\<close>

definition path_join :: "string \<Rightarrow> string \<Rightarrow> string" where
  "path_join base rel =
     (if starts_with ''/'' rel then rel
      else if base = [] \<or> last base = CHR ''/'' then base @ rel
      else base @ ''/'' @ rel)"

lemma path_join_file:
  "\<not> starts_with ''/'' rel \<Longrightarrow> \<exists>sep\<in>{[], ''/''}. path_join base rel = base @ sep @ rel"
  by (auto simp: path_join_def)

end
