(* ===== verification/Sandbox_Wrap.thy ===== *)
theory Sandbox_Wrap
  imports Port_Types Std_Text
begin

text \<open>
  The command that confines a service (\<open>adapters/src/sandbox\<close>): \<open>bwrap\<close> on Linux, \<open>sandbox-exec\<close>
  on macOS. Below the model of the arguments pm3 renders there is an abstract view of them:
  \<open>bwrap\<close> performs its file system operations in the order of the arguments, so what a process
  finds at a path is decided by the last operation whose destination covers the path. The
  theorems compare that view with the policy the service declares.
\<close>

subsection \<open>Wrapping a command\<close>

datatype sandbox_backend = Seatbelt | Bwrap

record host_sandbox =
  hs_backend :: sandbox_backend
  hs_program :: string

definition finish_wrapped :: "string \<Rightarrow> string list \<Rightarrow> string \<Rightarrow> string list \<Rightarrow> wrapped_command" where
  "finish_wrapped sandbox_program sandbox_args program arguments =
     \<lparr>wc_program = sandbox_program, wc_args = sandbox_args @ [''--'', program] @ arguments\<rparr>"

definition push_pair :: "string \<Rightarrow> string \<Rightarrow> string list" where
  "push_pair flag val = [flag, val]"

definition push_bind :: "string \<Rightarrow> string \<Rightarrow> string list" where
  "push_bind flag path = [flag, path, path]"

definition push_read_layer :: "string list \<Rightarrow> sandbox_policy \<Rightarrow> string \<Rightarrow> string list" where
  "push_read_layer minimal_read_roots policy program =
     (if \<not> confines_reads (sb_read policy) then push_bind ''--ro-bind'' ''/''
      else push_pair ''--tmpfs'' ''/'' @
           concat (map (\<lambda>root. push_bind ''--ro-bind-try'' (normalize_root root)) minimal_read_roots) @
           concat (map (\<lambda>root. push_bind ''--ro-bind-try'' (normalize_root root)) (readable_grants policy)) @
           push_bind ''--ro-bind-try'' program)"

definition encloses :: "string \<Rightarrow> string \<Rightarrow> bool" where
  "encloses root path \<longleftrightarrow> (if \<not> covers_path root path then False else normalize_root root \<noteq> path)"

definition nested_in :: "string list \<Rightarrow> string list \<Rightarrow> string list" where
  "nested_in hidden granted =
     filter (\<lambda>path. list_ex (\<lambda>root. encloses root path) granted) (map normalize_root hidden)"

text \<open>\<open>sort_by_key\<close> is a stable sort, as \<open>sort_key\<close> is.\<close>

definition shallowest_first :: "string list \<Rightarrow> string list" where
  "shallowest_first roots =
     sort_key (\<lambda>root. length (filter (\<lambda>c. c = CHR ''/'') (normalize_root root))) roots"

definition bwrap_argv ::
  "string \<Rightarrow> string list \<Rightarrow> sandbox_policy \<Rightarrow> string \<Rightarrow> string list \<Rightarrow> wrapped_command" where
  "bwrap_argv sandbox_program minimal_read_roots policy program arguments =
     (let granted = shallowest_first (granted_roots policy) in
      finish_wrapped sandbox_program
        ([''--unshare-user'', ''--unshare-pid'', ''--unshare-ipc'', ''--unshare-uts'',
          ''--unshare-cgroup-try''] @
         (if \<not> sb_network policy then [''--unshare-net''] else []) @
         push_read_layer minimal_read_roots policy program @
         push_pair ''--dev'' ''/dev'' @ push_pair ''--proc'' ''/proc'' @
         concat (map (\<lambda>hidden. push_pair ''--tmpfs'' (normalize_root hidden)) (hidden_paths policy)) @
         concat (map (\<lambda>root. push_bind ''--bind'' (normalize_root root)) granted) @
         concat (map (push_pair ''--tmpfs'') (nested_in (hidden_paths policy) granted)))
        program arguments)"

text \<open>
  The fixed parts of the macOS profile are four text files beside the code
  (\<open>seatbelt_*.sbpl\<close>), included at build time: arguments of the model.
\<close>

record seatbelt_texts =
  base_policy :: string
  full_read_policy :: string
  minimal_read_policy :: string
  network_policy :: string

record seatbelt_profile =
  sp_profile :: string
  sp_parameters :: "(string \<times> string) list"

definition readable_roots_of :: "sandbox_policy \<Rightarrow> string \<Rightarrow> string list" where
  "readable_roots_of policy program =
     (if \<not> confines_reads (sb_read policy) then [] else readable_grants policy @ [program])"

definition parameter_name :: "string \<Rightarrow> nat \<Rightarrow> string" where
  "parameter_name parameter index = parameter @ ''_'' @ show_nat index"

definition quoted_parameter :: "string \<Rightarrow> nat \<Rightarrow> string" where
  "quoted_parameter parameter index =
     ''(param '' @ [CHR 0x22] @ parameter_name parameter index @ [CHR 0x22] @ '')''"

definition hidden_denies :: "string list \<Rightarrow> string" where
  "hidden_denies hidden =
     concat (map (\<lambda>index. [CHR 0x0A] @ ''(deny file-read* file-test-existence file-write* (subpath '' @
       quoted_parameter ''HIDDEN'' index @ ''))'' @ [CHR 0x0A]) [0..<length hidden])"

definition carveout_for :: "string \<Rightarrow> string list \<Rightarrow> string" where
  "carveout_for granted hidden =
     concat (map (\<lambda>(index, root). if covers_path granted root
                   then '' (require-not (subpath '' @ quoted_parameter ''HIDDEN'' index @ ''))'' else [])
               (List.enumerate 0 hidden))"

definition seatbelt_rules :: "string \<Rightarrow> string \<Rightarrow> string list \<Rightarrow> string list \<Rightarrow> string" where
  "seatbelt_rules act parameter granted hidden =
     concat (map (\<lambda>(index, root).
         [CHR 0x0A] @ ''('' @ act @ '' (require-all (subpath '' @ quoted_parameter parameter index @ '')'' @
         carveout_for root hidden @ ''))'' @ [CHR 0x0A] @
         ''(allow file-read-metadata (path-ancestors '' @ quoted_parameter parameter index @ ''))'' @ [CHR 0x0A])
       (List.enumerate 0 granted))"

definition named_parameters :: "string \<Rightarrow> string list \<Rightarrow> (string \<times> string) list" where
  "named_parameters parameter roots =
     map (\<lambda>(index, root). (parameter_name parameter index, normalize_root root)) (List.enumerate 0 roots)"

definition seatbelt_profile_of :: "seatbelt_texts \<Rightarrow> sandbox_policy \<Rightarrow> string \<Rightarrow> seatbelt_profile" where
  "seatbelt_profile_of texts policy program =
     (let readable = readable_roots_of policy program;
          writable = granted_roots policy;
          hidden = hidden_paths policy
      in \<lparr>sp_profile = base_policy texts @
            (if confines_reads (sb_read policy) then minimal_read_policy texts else full_read_policy texts) @
            hidden_denies hidden @
            seatbelt_rules ''allow file-read* file-test-existence'' ''READABLE'' readable hidden @
            seatbelt_rules ''allow file-read* file-test-existence file-write*'' ''WRITABLE'' writable hidden @
            (if sb_network policy then network_policy texts else []),
          sp_parameters = named_parameters ''READABLE'' readable @ named_parameters ''WRITABLE'' writable @
            named_parameters ''HIDDEN'' hidden\<rparr>)"

definition seatbelt_argv ::
  "seatbelt_texts \<Rightarrow> string \<Rightarrow> sandbox_policy \<Rightarrow> string \<Rightarrow> string list \<Rightarrow> wrapped_command" where
  "seatbelt_argv texts sandbox_program policy program arguments =
     (let rendered = seatbelt_profile_of texts policy program in
      finish_wrapped sandbox_program
        (concat (map (\<lambda>(name, val). [''-D'', name @ ''='' @ val]) (sp_parameters rendered)) @
         [''-p'', sp_profile rendered])
        program arguments)"

definition sandbox_wrap ::
  "seatbelt_texts \<Rightarrow> host_sandbox option \<Rightarrow> string list \<Rightarrow> string \<Rightarrow> sandbox_policy \<Rightarrow> string \<Rightarrow> string list \<Rightarrow>
   sandbox_error + wrapped_command" where
  "sandbox_wrap texts host minimal_read_roots app policy program arguments =
     (if is_unconfined (sb_mode policy) then Inr \<lparr>wc_program = program, wc_args = arguments\<rparr>
      else
        (case host of
           None \<Rightarrow> Inl (NoBackend app)
         | Some hs \<Rightarrow>
             Inr (case hs_backend hs of
                    Seatbelt \<Rightarrow> seatbelt_argv texts (hs_program hs) policy program arguments
                  | Bwrap \<Rightarrow> bwrap_argv (hs_program hs) minimal_read_roots policy program arguments)))"

subsection \<open>What a confined process finds at a path\<close>

datatype mount_kind = MountReadOnly | MountWritable | MountEmpty | MountDevices | MountProcesses

definition pair_flags :: "(string \<times> mount_kind) list" where
  "pair_flags = [(''--tmpfs'', MountEmpty), (''--dev'', MountDevices), (''--proc'', MountProcesses)]"

definition bind_flags :: "(string \<times> mount_kind) list" where
  "bind_flags = [(''--ro-bind'', MountReadOnly), (''--ro-bind-try'', MountReadOnly), (''--bind'', MountWritable)]"

function mounts :: "string list \<Rightarrow> (mount_kind \<times> string) list" where
  "mounts arguments =
     (case arguments of
        [] \<Rightarrow> []
      | flag # rest \<Rightarrow>
          if flag = ''--'' then []
          else
            (case map_of pair_flags flag of
               Some kind \<Rightarrow>
                 (case rest of destination # rest \<Rightarrow> (kind, destination) # mounts rest | [] \<Rightarrow> [])
             | None \<Rightarrow>
                 (case map_of bind_flags flag of
                    Some kind \<Rightarrow>
                      (case rest of
                         source # destination # rest \<Rightarrow> (kind, destination) # mounts rest
                       | _ \<Rightarrow> [])
                  | None \<Rightarrow> mounts rest)))"
  by pat_completeness auto
termination
  by (relation "measure length") auto

declare mounts.simps [simp del]

definition view_of :: "(mount_kind \<times> string) list \<Rightarrow> string \<Rightarrow> mount_kind option" where
  "view_of ms path = map_option fst (find (\<lambda>(kind, destination). covers_path destination path) (rev ms))"

definition sandbox_view :: "string list \<Rightarrow> string \<Rightarrow> mount_kind option" where
  "sandbox_view arguments path = view_of (mounts arguments) path"

lemma find_append: "find P (a @ b) = (case find P a of None \<Rightarrow> find P b | Some x \<Rightarrow> Some x)"
  by (induction a) auto

lemma view_of_append: "view_of (a @ b) p = (case view_of b p of None \<Rightarrow> view_of a p | Some k \<Rightarrow> Some k)"
  by (simp add: view_of_def find_append split: option.splits)

lemma view_of_Nil [simp]: "view_of [] p = None"
  by (simp add: view_of_def)

lemma view_of_Cons:
  "view_of ((k, d) # ms) p =
    (case view_of ms p of None \<Rightarrow> (if covers_path d p then Some k else None) | Some k' \<Rightarrow> Some k')"
  by (simp add: view_of_def find_append split: option.splits)

lemma view_of_layer:
  "view_of (map (\<lambda>r. (k, f r)) rs) p = (if \<exists>r\<in>set rs. covers_path (f r) p then Some k else None)"
  by (induction rs) (auto simp: view_of_Cons)

lemma mounts_tmpfs: "mounts (push_pair ''--tmpfs'' d @ rest) = (MountEmpty, d) # mounts rest"
  and mounts_dev: "mounts (push_pair ''--dev'' d @ rest) = (MountDevices, d) # mounts rest"
  and mounts_proc: "mounts (push_pair ''--proc'' d @ rest) = (MountProcesses, d) # mounts rest"
  and mounts_ro: "mounts (push_bind ''--ro-bind'' d @ rest) = (MountReadOnly, d) # mounts rest"
  and mounts_ro_try: "mounts (push_bind ''--ro-bind-try'' d @ rest) = (MountReadOnly, d) # mounts rest"
  and mounts_bind: "mounts (push_bind ''--bind'' d @ rest) = (MountWritable, d) # mounts rest"
  by (subst mounts.simps, simp add: push_pair_def push_bind_def pair_flags_def bind_flags_def)+

lemmas mounts_one = mounts_tmpfs mounts_dev mounts_proc mounts_ro mounts_ro_try mounts_bind

lemma mounts_layer:
  "mounts (concat (map (\<lambda>r. push_pair ''--tmpfs'' (f r)) rs) @ rest) =
    map (\<lambda>r. (MountEmpty, f r)) rs @ mounts rest"
  "mounts (concat (map (\<lambda>r. push_bind ''--ro-bind-try'' (f r)) rs) @ rest) =
    map (\<lambda>r. (MountReadOnly, f r)) rs @ mounts rest"
  "mounts (concat (map (\<lambda>r. push_bind ''--bind'' (f r)) rs) @ rest) =
    map (\<lambda>r. (MountWritable, f r)) rs @ mounts rest"
  by (induction rs) (simp_all add: mounts_one)

lemma mounts_unshare:
  "mounts (''--unshare-user'' # ''--unshare-pid'' # ''--unshare-ipc'' # ''--unshare-uts'' #
     ''--unshare-cgroup-try'' # rest) = mounts rest"
  "mounts (''--unshare-net'' # rest) = mounts rest"
  "mounts (''--'' # rest) = []"
proof -
  have skip: "mounts (flag # rest) = mounts rest"
    if "flag \<noteq> ''--''" "map_of pair_flags flag = None" "map_of bind_flags flag = None" for flag rest
    using that by (subst mounts.simps) simp
  show "mounts (''--unshare-user'' # ''--unshare-pid'' # ''--unshare-ipc'' # ''--unshare-uts'' #
      ''--unshare-cgroup-try'' # rest) = mounts rest"
    "mounts (''--unshare-net'' # rest) = mounts rest"
    by (simp_all add: skip pair_flags_def bind_flags_def)
  show "mounts (''--'' # rest) = []" by (subst mounts.simps) simp
qed

definition read_mounts :: "string list \<Rightarrow> sandbox_policy \<Rightarrow> string \<Rightarrow> (mount_kind \<times> string) list" where
  "read_mounts minimal policy program =
     (if \<not> confines_reads (sb_read policy) then [(MountReadOnly, ''/'')]
      else (MountEmpty, ''/'') #
        map (\<lambda>r. (MountReadOnly, normalize_root r)) (minimal @ readable_grants policy) @
        [(MountReadOnly, program)])"

lemma mounts_read_layer:
  "mounts (push_read_layer minimal policy program @ rest) = read_mounts minimal policy program @ mounts rest"
  by (simp add: push_read_layer_def read_mounts_def mounts_one mounts_layer)

lemma bwrap_mounts:
  "mounts (wc_args (bwrap_argv sandbox_program minimal policy program arguments)) =
    read_mounts minimal policy program @ [(MountDevices, ''/dev''), (MountProcesses, ''/proc'')] @
    map (\<lambda>r. (MountEmpty, normalize_root r)) (hidden_paths policy) @
    map (\<lambda>r. (MountWritable, normalize_root r)) (shallowest_first (granted_roots policy)) @
    map (\<lambda>r. (MountEmpty, r))
      (nested_in (hidden_paths policy) (shallowest_first (granted_roots policy)))"
proof -
  have nested: "mounts (concat (map (push_pair ''--tmpfs'') rs) @ rest) =
      map (\<lambda>r. (MountEmpty, r)) rs @ mounts rest" for rs rest
    using mounts_layer(1)[of "\<lambda>r. r"] by simp
  show ?thesis
    by (cases "sb_network policy")
      (simp_all add: bwrap_argv_def Let_def finish_wrapped_def mounts_unshare mounts_read_layer mounts_one
        mounts_layer nested)
qed

lemma covers_path_normalize [simp]:
  "covers_path (normalize_root r) p = covers_path r p" "covers_path r (normalize_root p) = covers_path r p"
  by (simp_all add: covers_path_components)

lemma root_covers [simp]: "covers_path ''/'' p"
  by (simp add: covers_path_def normalize_root_def trim_end_matches_def)

lemma nested_in_validated:
  assumes "validate_policy policy = Inr ()"
  shows "nested_in (hidden_paths policy) (shallowest_first (granted_roots policy)) = []"
  using assms
  by (auto simp: nested_in_def encloses_def validate_policy_iff shallowest_first_def hidden_paths_def
      list_ex_iff filter_empty_conv)

theorem bwrap_view:
  assumes "validate_policy policy = Inr ()"
  shows "sandbox_view (wc_args (bwrap_argv sandbox_program minimal policy program arguments)) path =
    Some (if \<exists>root\<in>set (granted_roots policy). covers_path root path then MountWritable
      else if \<exists>hidden\<in>set (hidden_paths policy). covers_path hidden path then MountEmpty
      else if covers_path ''/proc'' path then MountProcesses
      else if covers_path ''/dev'' path then MountDevices
      else if \<not> confines_reads (sb_read policy) \<or>
          (\<exists>root\<in>set (minimal @ readable_grants policy @ [program]). covers_path root path)
        then MountReadOnly
      else MountEmpty)"
proof -
  have reads: "view_of (read_mounts minimal policy program) path =
      Some (if \<not> confines_reads (sb_read policy) \<or>
          (\<exists>root\<in>set (minimal @ readable_grants policy @ [program]). covers_path root path)
        then MountReadOnly else MountEmpty)"
    by (auto simp: read_mounts_def view_of_Cons view_of_append view_of_layer simp del: map_append)
  show ?thesis
    unfolding sandbox_view_def bwrap_mounts nested_in_validated[OF assms]
    by (simp add: view_of_append view_of_layer view_of_Cons reads shallowest_first_def)
qed

end
