(* ===== verification/Disk.thy ===== *)
theory Disk
  imports Std_Text
begin

text \<open>
  The files pm3 reads and writes, and the helpers of \<open>adapters/src/fs_util.rs\<close> and
  \<open>private_file.rs\<close>. A disk maps paths to contents and modes and counts the calls made on it.
  The environment decides for every call, by that count, whether it fails; a write that fails may
  have truncated the file and written any part of it. What the operating system knows beyond
  that (links, real paths) are further parameters of the environment.
\<close>

datatype io_fault = Refused string | Torn string string

primrec fault_reason :: "io_fault \<Rightarrow> string" where
  "fault_reason (Refused reason) = reason"
| "fault_reason (Torn rest reason) = reason"

datatype io_error = NotFound | OtherError string

primrec io_error_text :: "io_error \<Rightarrow> string" where
  "io_error_text NotFound = ''No such file or directory (os error 2)''"
| "io_error_text (OtherError reason) = reason"

record disk =
  dk_files :: "string \<Rightarrow> string option"
  dk_modes :: "string \<Rightarrow> nat"
  dk_dirs :: "string list"
  dk_calls :: nat

record host_files =
  hf_fault :: "nat \<Rightarrow> io_fault option"
  hf_linked :: "string \<Rightarrow> bool"
  hf_canonical :: "disk \<Rightarrow> string \<Rightarrow> string option"

definition tick :: "disk \<Rightarrow> disk" where
  "tick d = d\<lparr>dk_calls := dk_calls d + 1\<rparr>"

definition fault_now :: "host_files \<Rightarrow> disk \<Rightarrow> io_fault option" where
  "fault_now E d = hf_fault E (dk_calls d)"

definition OWNER_ONLY_FILE :: nat where
  "OWNER_ONLY_FILE = 384"

definition OWNER_ONLY_DIR :: nat where
  "OWNER_ONLY_DIR = 448"

definition SWEEP_PROOF_FILE :: nat where
  "SWEEP_PROOF_FILE = 896"

subsection \<open>System calls\<close>

definition read_to_string :: "host_files \<Rightarrow> string \<Rightarrow> disk \<Rightarrow> (io_error + string) \<times> disk" where
  "read_to_string E path d =
     (case fault_now E d of
        Some f \<Rightarrow> Inl (OtherError (fault_reason f))
      | None \<Rightarrow> (case dk_files d path of None \<Rightarrow> Inl NotFound | Some text \<Rightarrow> Inr text),
      tick d)"

definition stat_file :: "host_files \<Rightarrow> string \<Rightarrow> disk \<Rightarrow> (io_error + unit) \<times> disk" where
  "stat_file E path d =
     (case fault_now E d of
        Some f \<Rightarrow> Inl (OtherError (fault_reason f))
      | None \<Rightarrow> (if dk_files d path = None then Inl NotFound else Inr ()),
      tick d)"

definition set_contents :: "string \<Rightarrow> string \<Rightarrow> disk \<Rightarrow> disk" where
  "set_contents path text d =
     d\<lparr>dk_files := (dk_files d)(path := Some text),
       dk_modes := (if dk_files d path = None then (dk_modes d)(path := OWNER_ONLY_FILE) else dk_modes d)\<rparr>"

definition rename_file :: "host_files \<Rightarrow> string \<Rightarrow> string \<Rightarrow> disk \<Rightarrow> (io_error + unit) \<times> disk" where
  "rename_file E source destination d =
     (case fault_now E d of
        Some f \<Rightarrow> (Inl (OtherError (fault_reason f)), tick d)
      | None \<Rightarrow>
          (case dk_files d source of
             None \<Rightarrow> (Inl NotFound, tick d)
           | Some text \<Rightarrow>
               (Inr (), tick d\<lparr>dk_files := (dk_files d)(source := None, destination := Some text),
                  dk_modes := (dk_modes d)(destination := dk_modes d source)\<rparr>)))"

definition remove_file :: "host_files \<Rightarrow> string \<Rightarrow> disk \<Rightarrow> (io_error + unit) \<times> disk" where
  "remove_file E path d =
     (case fault_now E d of
        Some f \<Rightarrow> (Inl (OtherError (fault_reason f)), tick d)
      | None \<Rightarrow>
          (if dk_files d path = None then (Inl NotFound, tick d)
           else (Inr (), tick d\<lparr>dk_files := (dk_files d)(path := None)\<rparr>)))"

definition set_mode :: "host_files \<Rightarrow> string \<Rightarrow> nat \<Rightarrow> disk \<Rightarrow> (io_error + unit) \<times> disk" where
  "set_mode E path mode d =
     (case fault_now E d of
        Some f \<Rightarrow> (Inl (OtherError (fault_reason f)), tick d)
      | None \<Rightarrow>
          (if dk_files d path = None then (Inl NotFound, tick d)
           else (Inr (), tick d\<lparr>dk_modes := (dk_modes d)(path := mode)\<rparr>)))"

definition create_dir_all :: "host_files \<Rightarrow> string \<Rightarrow> disk \<Rightarrow> (io_error + unit) \<times> disk" where
  "create_dir_all E path d =
     (case fault_now E d of
        Some f \<Rightarrow> (Inl (OtherError (fault_reason f)), tick d)
      | None \<Rightarrow> (Inr (), tick d\<lparr>dk_dirs := List.insert path (dk_dirs d)\<rparr>))"

subsection \<open>The helpers of the adapters\<close>

definition with_suffix :: "string \<Rightarrow> string \<Rightarrow> string" where
  "with_suffix path ending = path @ ending"

definition read_optional :: "host_files \<Rightarrow> string \<Rightarrow> disk \<Rightarrow> (io_error + string option) \<times> disk" where
  "read_optional E path d =
     (case read_to_string E path d of
        (Inr text, d) \<Rightarrow> (Inr (Some text), d)
      | (Inl error, d) \<Rightarrow> (if error = NotFound then Inr None else Inl error, d))"

definition remove_if_present :: "host_files \<Rightarrow> string \<Rightarrow> disk \<Rightarrow> (io_error + unit) \<times> disk" where
  "remove_if_present E path d =
     (case remove_file E path d of
        (Inl error, d) \<Rightarrow> (if error \<noteq> NotFound then Inl error else Inr (), d)
      | (Inr _, d) \<Rightarrow> (Inr (), d))"

definition write_private :: "host_files \<Rightarrow> string \<Rightarrow> string \<Rightarrow> disk \<Rightarrow> (io_error + unit) \<times> disk" where
  "write_private E path text d =
     (case fault_now E d of
        Some (Refused reason) \<Rightarrow> (Inl (OtherError reason), tick d)
      | Some (Torn rest reason) \<Rightarrow> (Inl (OtherError reason), tick (set_contents path rest d))
      | None \<Rightarrow> (Inr (), tick (set_contents path text d)))"

definition write_sweep_proof :: "host_files \<Rightarrow> string \<Rightarrow> string \<Rightarrow> disk \<Rightarrow> (io_error + unit) \<times> disk" where
  "write_sweep_proof E path text d =
     (case write_private E path text d of
        (Inl error, d) \<Rightarrow> (Inl error, d)
      | (Inr _, d) \<Rightarrow> set_mode E path SWEEP_PROOF_FILE d)"

subsection \<open>Frames\<close>

lemma reads_keep_files [simp]:
  "dk_files (snd (read_to_string E p d)) = dk_files d"
  "dk_files (snd (stat_file E p d)) = dk_files d"
  "dk_files (snd (read_optional E p d)) = dk_files d"
  "dk_files (tick d) = dk_files d"
  "dk_files (snd (create_dir_all E p d)) = dk_files d"
  "dk_files (snd (set_mode E p m d)) = dk_files d"
  by (auto simp: read_to_string_def stat_file_def read_optional_def tick_def create_dir_all_def
      set_mode_def split: option.splits prod.splits sum.splits)

lemma read_optional_cases:
  assumes "read_optional E p d = (r, d')"
  shows "(\<exists>reason. r = Inl (OtherError reason)) \<or> r = Inr (dk_files d p)"
  using assms by (auto simp: read_optional_def read_to_string_def split: option.splits if_splits prod.splits)

lemma write_private_other:
  "q \<noteq> p \<Longrightarrow> dk_files (snd (write_private E p text d)) q = dk_files d q"
  by (auto simp: write_private_def set_contents_def split: option.splits io_fault.splits)

lemma write_private_ok:
  "write_private E p text d = (Inr (), d') \<Longrightarrow> dk_files d' = (dk_files d)(p := Some text)"
  by (auto simp: write_private_def set_contents_def split: option.splits io_fault.splits)

lemma remove_file_other:
  "q \<noteq> p \<Longrightarrow> dk_files (snd (remove_file E p d)) q = dk_files d q"
  by (auto simp: remove_file_def tick_def split: option.splits)

lemma remove_if_present_other:
  "q \<noteq> p \<Longrightarrow> dk_files (snd (remove_if_present E p d)) q = dk_files d q"
  using remove_file_other[of q p E d] by (auto simp: remove_if_present_def split: prod.splits sum.splits)

text \<open>A disk on which every call succeeds, for concrete runs.\<close>

definition calm_files :: host_files where
  "calm_files = \<lparr>hf_fault = \<lambda>n. None, hf_linked = \<lambda>p. False, hf_canonical = \<lambda>d p. Some p\<rparr>"

definition empty_disk :: disk where
  "empty_disk = \<lparr>dk_files = \<lambda>p. None, dk_modes = \<lambda>p. 0, dk_dirs = [], dk_calls = 0\<rparr>"

definition no_faults :: "host_files \<Rightarrow> bool" where
  "no_faults E \<longleftrightarrow> (\<forall>n. hf_fault E n = None)"

lemma no_faults_now [simp]: "no_faults E \<Longrightarrow> fault_now E d = None"
  by (simp add: no_faults_def fault_now_def)

lemma calm_files_no_faults: "no_faults calm_files"
  by (simp add: no_faults_def calm_files_def)

lemma remove_file_calm: "no_faults E \<Longrightarrow> dk_files (snd (remove_file E p d)) = (dk_files d)(p := None)"
  by (auto simp: remove_file_def tick_def)

lemma stat_file_calm:
  "no_faults E \<Longrightarrow> fst (stat_file E p d) = (if dk_files d p = None then Inl NotFound else Inr ())"
  by (simp add: stat_file_def)

end
