(* ===== verification/Env_File.thy ===== *)
theory Env_File
  imports Disk Port_Types
begin

text \<open>
  The environment files beside a service file (\<open>adapters/src/apps_file/env_file.rs\<close>): one
  \<open>KEY=VALUE\<close> per line, comments, quotes, escapes and the home directory in values. The errors
  name the line.
\<close>

subsection \<open>Errors and file names\<close>

datatype env_file_error =
    EnvRead string string
  | EnvMalformed string nat
  | UnsafeKey string string nat
  | DuplicateKey string string nat

primrec env_file_error_text :: "env_file_error \<Rightarrow> string" where
  "env_file_error_text (EnvRead path reason) =
     ''cannot read the environment file '' @ [CHR 0x27] @ path @ [CHR 0x27] @ '': '' @ reason"
| "env_file_error_text (EnvMalformed path line) =
     ''cannot parse the environment file '' @ [CHR 0x27] @ path @ [CHR 0x27] @ '' at line '' @
     show_nat line @ '': expected KEY=VALUE''"
| "env_file_error_text (UnsafeKey path key line) =
     ''cannot accept the key '' @ [CHR 0x27] @ key @ [CHR 0x27] @ '' in the environment file '' @
     [CHR 0x27] @ path @ [CHR 0x27] @ '' at line '' @ show_nat line @ '': use letters, digits and '' @
     [CHR 0x27, CHR ''_'', CHR 0x27] @ '', and do not start with a digit''"
| "env_file_error_text (DuplicateKey path key line) =
     ''cannot accept the key '' @ [CHR 0x27] @ key @ [CHR 0x27] @ '' twice in the environment file '' @
     [CHR 0x27] @ path @ [CHR 0x27] @ '': line '' @ show_nat line @ '' repeats it''"

definition named_file :: "string \<Rightarrow> string \<Rightarrow> string \<Rightarrow> spec_error + string" where
  "named_file cfg_dir name ending =
     (case validate_app_name name of
        Inl e \<Rightarrow> Inl e
      | Inr _ \<Rightarrow> Inr (path_join cfg_dir (name @ ''.'' @ ending)))"

definition env_file_of :: "string \<Rightarrow> string \<Rightarrow> spec_error + string" where
  "env_file_of cfg_dir name = named_file cfg_dir name ''env''"

subsection \<open>Keys\<close>

definition is_alphabetic :: "string \<Rightarrow> bool" where
  "is_alphabetic letter \<longleftrightarrow>
     (case letter of
        [c] \<Rightarrow> (let b = of_char c :: nat in (65 \<le> b \<and> b \<le> 90) \<or> (97 \<le> b \<and> b \<le> 122))
      | _ \<Rightarrow> False)"

definition is_env_key_head :: "string \<Rightarrow> bool" where
  "is_env_key_head first \<longleftrightarrow> (if is_alphabetic first then True else first = ''_'')"

definition is_env_key_letter :: "string \<Rightarrow> bool" where
  "is_env_key_letter letter \<longleftrightarrow>
     (if is_alphabetic letter \<or> (case letter of [c] \<Rightarrow> is_digit c | _ \<Rightarrow> False) then True
      else letter = ''_'')"

definition is_env_key :: "string \<Rightarrow> bool" where
  "is_env_key key \<longleftrightarrow>
     (case chars key of
        [] \<Rightarrow> False
      | first # letters \<Rightarrow>
          if \<not> is_env_key_head first then False else list_all is_env_key_letter letters)"

subsection \<open>Values\<close>

definition HOME_PLACEHOLDER :: string where
  "HOME_PLACEHOLDER = ''${HOME}''"

definition BARE_HOME :: string where
  "BARE_HOME = ''$HOME''"

definition continues_a_name :: "string \<Rightarrow> bool" where
  "continues_a_name rest \<longleftrightarrow> (case chars rest of [] \<Rightarrow> False | letter # _ \<Rightarrow> is_env_key_letter letter)"

function expand_bare_home :: "string \<Rightarrow> string \<Rightarrow> string" where
  "expand_bare_home home rest =
     (case split_once BARE_HOME rest of
        None \<Rightarrow> rest
      | Some (before, after) \<Rightarrow>
          before @ (if continues_a_name after then BARE_HOME else home) @ expand_bare_home home after)"
  by pat_completeness auto
termination
  by (relation "measure (\<lambda>(home, rest). length rest)") (auto simp: BARE_HOME_def dest: split_once_length)

declare expand_bare_home.simps [simp del]

definition env_expand_home :: "string option \<Rightarrow> string \<Rightarrow> string" where
  "env_expand_home home plain =
     (case home of
        None \<Rightarrow> plain
      | Some home \<Rightarrow> expand_bare_home home (replace_all HOME_PLACEHOLDER home plain))"

definition fenced :: "string \<Rightarrow> char \<Rightarrow> string option" where
  "fenced raw fence = Option.bind (strip_prefix [fence] raw) (strip_suffix [fence])"

definition hex_digit :: "char \<Rightarrow> nat option" where
  "hex_digit c =
     (let b = of_char c :: nat in
      if 48 \<le> b \<and> b \<le> 57 then Some (b - 48)
      else if 97 \<le> b \<and> b \<le> 102 then Some (b - 87)
      else if 65 \<le> b \<and> b \<le> 70 then Some (b - 55)
      else None)"

fun hex_value :: "nat \<Rightarrow> string \<Rightarrow> nat option" where
  "hex_value n [] = Some n"
| "hex_value n (c # cs) = (case hex_digit c of None \<Rightarrow> None | Some d \<Rightarrow> hex_value (16 * n + d) cs)"

text \<open>\<open>u32::from_str_radix(_, 16)\<close>: like \<open>from_str\<close>, with an optional leading plus sign.\<close>

definition parse_hex :: "string \<Rightarrow> nat option" where
  "parse_hex s =
     (let ds = (case s of c # t \<Rightarrow> if c = CHR ''+'' then t else s | [] \<Rightarrow> s)
      in if ds = [] then None else hex_value 0 ds)"

text \<open>The UTF-8 bytes of a code point below 256, which is what two digits can name.\<close>

definition encode_scalar :: "nat \<Rightarrow> string" where
  "encode_scalar v =
     (if v < 128 then [char_of v] else [char_of (192 + v div 64), char_of (128 + v mod 64)])"

definition decode_hex :: "string \<Rightarrow> string option" where
  "decode_hex digits = (if length digits \<noteq> 2 then None else map_option encode_scalar (parse_hex digits))"

definition verbatim_hex :: "string \<Rightarrow> string" where
  "verbatim_hex digits = [CHR 0x5C, CHR ''x''] @ digits"

definition decoded_hex :: "string \<Rightarrow> string" where
  "decoded_hex digits = (case decode_hex digits of None \<Rightarrow> verbatim_hex digits | Some letter \<Rightarrow> letter)"

text \<open>What follows a backslash: the text it stands for and the letters that are left.\<close>

definition push_unescaped :: "string list \<Rightarrow> string \<times> string list" where
  "push_unescaped letters =
     (case letters of
        [] \<Rightarrow> ([CHR 0x5C], [])
      | letter # rest \<Rightarrow>
          if letter = ''n'' then ([CHR 0x0A], rest)
          else if letter = ''r'' then ([CHR 0x0D], rest)
          else if letter = ''t'' then ([CHR 0x09], rest)
          else if letter = ''x'' then (decoded_hex (concat (take 2 rest)), drop 2 rest)
          else (letter, rest))"

lemma push_unescaped_shorter: "length (snd (push_unescaped letters)) \<le> length letters"
  by (auto simp: push_unescaped_def split: list.splits)

function unescape_letters :: "string list \<Rightarrow> string" where
  "unescape_letters letters =
     (case letters of
        [] \<Rightarrow> []
      | letter # rest \<Rightarrow>
          if letter = [CHR 0x5C] then
            (let (text, rest) = push_unescaped rest in text @ unescape_letters rest)
          else letter @ unescape_letters rest)"
  by pat_completeness auto
termination
proof (relation "measure length", goal_cases)
  case (2 letters letter rest x shown rest')
  then have "rest' = snd (push_unescaped rest)" by (metis snd_conv)
  with 2 push_unescaped_shorter[of rest] show ?case by simp
qed auto

declare unescape_letters.simps [simp del]

definition unescape :: "string \<Rightarrow> string" where
  "unescape inner = unescape_letters (chars inner)"

definition unquote :: "string option \<Rightarrow> string \<Rightarrow> string" where
  "unquote home raw =
     (case fenced raw CHR 0x27 of
        Some inner \<Rightarrow> inner
      | None \<Rightarrow>
          env_expand_home home (case fenced raw CHR 0x22 of None \<Rightarrow> raw | Some inner \<Rightarrow> unescape inner))"

datatype quoting = Shell "string option" | Verbatim "string option"

primrec read_value :: "quoting \<Rightarrow> string \<Rightarrow> string" where
  "read_value (Shell home) raw = unquote home (trim raw)"
| "read_value (Verbatim home) raw = env_expand_home home raw"

subsection \<open>Files\<close>

definition split_pair ::
  "string \<Rightarrow> quoting \<Rightarrow> nat \<Rightarrow> string \<Rightarrow> env_file_error + (string \<times> string)" where
  "split_pair path quoting line text =
     (case split_once ''='' text of
        None \<Rightarrow> Inl (EnvMalformed path line)
      | Some (raw_key, raw_value) \<Rightarrow>
          let key = trim raw_key in
          if \<not> is_env_key key then Inl (UnsafeKey path key line)
          else Inr (key, read_value quoting raw_value))"

fun parse_lines ::
  "string \<Rightarrow> quoting \<Rightarrow> nat \<Rightarrow> string list \<Rightarrow> (string \<times> string) list \<Rightarrow>
   env_file_error + (string \<times> string) list" where
  "parse_lines path quoting line [] parsed = Inr parsed"
| "parse_lines path quoting line (raw # raws) parsed =
     (let trimmed = trim raw in
      if trimmed = [] \<or> starts_with ''#'' trimmed then parse_lines path quoting (line + 1) raws parsed
      else
        (case split_pair path quoting line raw of
           Inl e \<Rightarrow> Inl e
         | Inr (key, val) \<Rightarrow>
             if map_of parsed key \<noteq> None then Inl (DuplicateKey path key line)
             else parse_lines path quoting (line + 1) raws (btree_insert key val parsed)))"

definition parse_pairs :: "string \<Rightarrow> string \<Rightarrow> quoting \<Rightarrow> env_file_error + (string \<times> string) list" where
  "parse_pairs path text quoting = parse_lines path quoting 1 (text_lines text) []"

definition parse_env_file ::
  "string \<Rightarrow> string option \<Rightarrow> string \<Rightarrow> env_file_error + (string \<times> string) list" where
  "parse_env_file path home text = parse_pairs path text (Shell home)"

definition parse_env_text ::
  "string \<Rightarrow> string option \<Rightarrow> string \<Rightarrow> env_file_error + (string \<times> string) list" where
  "parse_env_text path home text = parse_pairs path text (Verbatim home)"

definition secure_file :: "host_files \<Rightarrow> string \<Rightarrow> disk \<Rightarrow> disk" where
  "secure_file E path d = (if hf_linked E path then d else snd (set_mode E path OWNER_ONLY_FILE d))"

definition load_env_file ::
  "host_files \<Rightarrow> string \<Rightarrow> string option \<Rightarrow> disk \<Rightarrow>
   (env_file_error + (string \<times> string) list) \<times> disk" where
  "load_env_file E path home d =
     (case read_optional E path d of
        (Inl error, d) \<Rightarrow> (Inl (EnvRead path (io_error_text error)), d)
      | (Inr None, d) \<Rightarrow> (Inr [], d)
      | (Inr (Some text), d) \<Rightarrow> (parse_env_file path home text, secure_file E path d))"

subsection \<open>What the parser returns\<close>

lemma parse_lines_sorted:
  "parse_lines path q n raws parsed = Inr pairs \<Longrightarrow> sorted_wrt (<) (map fst parsed) \<Longrightarrow>
    list_all is_env_key (map fst parsed) \<Longrightarrow>
    sorted_wrt (<) (map fst pairs) \<and> list_all is_env_key (map fst pairs)"
proof (induction path q n raws parsed rule: parse_lines.induct)
  case (2 path q line raw raws parsed)
  show ?case
  proof (cases "trim raw = [] \<or> starts_with ''#'' (trim raw)")
    case True
    with 2 show ?thesis by (simp add: Let_def)
  next
    case False
    then obtain key val where kv: "split_pair path q line raw = Inr (key, val)" "map_of parsed key = None"
        "parse_lines path q (line + 1) raws (btree_insert key val parsed) = Inr pairs"
      using "2.prems"(1) by (auto simp: Let_def split: sum.splits if_splits)
    have "is_env_key key"
      using kv(1) by (auto simp: split_pair_def Let_def split: option.splits if_splits)
    then have "list_all is_env_key (map fst (btree_insert key val parsed))"
      using "2.prems"(3) keys_btree_insert[of key val parsed] by (auto simp: list_all_iff)
    with "2.IH"(2)[OF refl False kv(1) refl _ kv(3) sorted_btree_insert[OF "2.prems"(2)]] kv(2)
    show ?thesis by simp
  qed
qed simp

lemma parse_pairs_sorted:
  "parse_pairs path text q = Inr pairs \<Longrightarrow>
    sorted_wrt (<) (map fst pairs) \<and> list_all is_env_key (map fst pairs)"
  using parse_lines_sorted[of path q 1 "text_lines text" "[]" pairs] by (simp add: parse_pairs_def)

lemma secure_file_files [simp]: "dk_files (secure_file E path d) = dk_files d"
  by (simp add: secure_file_def)

lemma load_env_file_files: "dk_files (snd (load_env_file E path home d)) = dk_files d"
  using reads_keep_files(3)[of E path d]
  by (cases "read_optional E path d") (simp add: load_env_file_def split: sum.splits option.splits)

end
