(* ===== verification/Programs.thy ===== *)
theory Programs
  imports Env_File
begin

text \<open>
  Finding programs and folding paths into placeholders (\<open>adapters/src/program.rs\<close>), and the
  substitution of \<open>${NAME}\<close> and \<open>${NAME:-default}\<close> in every YAML file pm3 reads
  (\<open>adapters/src/config/loader.rs\<close>). \<open>PM3_SERVICE_CWD\<close> is reserved: it stays a placeholder until
  the working directory of the service is known.
\<close>

subsection \<open>Programs\<close>

definition SERVICE_CWD_NAME :: string where
  "SERVICE_CWD_NAME = ''PM3_SERVICE_CWD''"

definition SERVICE_CWD_PLACEHOLDER :: string where
  "SERVICE_CWD_PLACEHOLDER = ''${PM3_SERVICE_CWD}''"

definition resolve_with :: "(string \<Rightarrow> bool) \<Rightarrow> string \<Rightarrow> string option \<Rightarrow> string option" where
  "resolve_with accepts program path_env =
     (if is_absolute_path program then (if accepts program then Some program else None)
      else
        do { directories \<leftarrow> path_env;
             find accepts (map (\<lambda>directory. path_join directory program) (split_on CHR '':'' directories)) })"

definition is_named :: "string option \<Rightarrow> string option" where
  "is_named val = (case val of Some text \<Rightarrow> if text \<noteq> [] then Some text else None | None \<Rightarrow> None)"

definition fold_home :: "string \<Rightarrow> string option \<Rightarrow> string" where
  "fold_home val home =
     (case is_named home of
        None \<Rightarrow> val
      | Some home \<Rightarrow>
          (case strip_prefix home val of
             None \<Rightarrow> val
           | Some [] \<Rightarrow> HOME_PLACEHOLDER
           | Some (c # relative) \<Rightarrow>
               if c = CHR ''/'' \<or> c = CHR 0x5C then HOME_PLACEHOLDER @ ''/'' @ relative else val))"

function fold_service_cwd :: "string \<Rightarrow> string" where
  "fold_service_cwd rest =
     (case split_once SERVICE_CWD_NAME rest of
        None \<Rightarrow> rest
      | Some (head, tail) \<Rightarrow>
          head @
          (if ends_with ''${'' head \<and> starts_with ''}'' tail then SERVICE_CWD_NAME
           else SERVICE_CWD_PLACEHOLDER) @
          fold_service_cwd tail)"
  by pat_completeness auto
termination
  by (relation "measure length") (auto simp: SERVICE_CWD_NAME_def dest: split_once_length)

declare fold_service_cwd.simps [simp del]

definition expand_service_cwd :: "string \<Rightarrow> string \<Rightarrow> string" where
  "expand_service_cwd val dir = replace_all SERVICE_CWD_PLACEHOLDER dir val"

subsection \<open>Placeholders in YAML\<close>

datatype config_load_error =
    ConfigIoError string io_error
  | EnvVarNotUnicode string
  | EnvVarNotSet string
  | ReservedPlaceholderDefault string
  | EnvVarNotYamlSafe string string

primrec config_load_error_text :: "config_load_error \<Rightarrow> string" where
  "config_load_error_text (ConfigIoError path error) =
     ''cannot read config file '' @ quoted path @ '': '' @ io_error_text error"
| "config_load_error_text (EnvVarNotUnicode name) =
     ''cannot decode environment variable '' @ quoted name @ '': contains non-UTF-8 bytes''"
| "config_load_error_text (EnvVarNotSet name) =
     ''cannot resolve environment variable '' @ quoted name @
     '': not set and placeholder declares no default''"
| "config_load_error_text (ReservedPlaceholderDefault name) =
     ''cannot resolve environment variable '' @ quoted name @
     '': the reserved placeholder does not accept a '' @ quoted '':-'' @ '' default''"
| "config_load_error_text (EnvVarNotYamlSafe name character) =
     ''cannot substitute environment variable '' @ quoted name @ '': value contains '' @
     quoted character @ '', which would change the YAML document structure''"

definition hex_char :: "nat \<Rightarrow> char" where
  "hex_char d = char_of (if d < 10 then 48 + d else 87 + d)"

fun show_hex :: "nat \<Rightarrow> string" where
  "show_hex n = (if n < 16 then [hex_char n] else show_hex (n div 16) @ [hex_char (n mod 16)])"

declare show_hex.simps [simp del]

text \<open>The code point of a character of at most two bytes.\<close>

definition code_point :: "string \<Rightarrow> nat" where
  "code_point letter =
     (case letter of
        [c] \<Rightarrow> of_char c
      | [c, d] \<Rightarrow> (of_char c - 192) * 64 + (of_char d - 128)
      | _ \<Rightarrow> 0)"

text \<open>\<open>char::escape_default\<close> on the characters that are refused: quotes, backslashes, controls.\<close>

definition escape_default :: "string \<Rightarrow> string" where
  "escape_default letter =
     (if letter = [CHR 0x09] then [CHR 0x5C, CHR ''t'']
      else if letter = [CHR 0x0D] then [CHR 0x5C, CHR ''r'']
      else if letter = [CHR 0x0A] then [CHR 0x5C, CHR ''n'']
      else if letter = [CHR 0x22] \<or> letter = [CHR 0x5C] then CHR 0x5C # letter
      else [CHR 0x5C] @ ''u{'' @ show_hex (code_point letter) @ ''}'')"

definition yaml_unsafe :: "string \<Rightarrow> bool" where
  "yaml_unsafe letter \<longleftrightarrow> letter = [CHR 0x22] \<or> letter = [CHR 0x5C] \<or> is_control letter"

definition ensure_yaml_safe :: "string \<Rightarrow> string \<Rightarrow> config_load_error + unit" where
  "ensure_yaml_safe name val =
     (case find yaml_unsafe (chars val) of
        None \<Rightarrow> Inr ()
      | Some character \<Rightarrow> Inl (EnvVarNotYamlSafe name (escape_default character)))"

datatype var_read = VarFound string | VarNotPresent | VarNotUnicode

primrec classify_env_var :: "string \<Rightarrow> var_read \<Rightarrow> config_load_error + string option" where
  "classify_env_var name (VarFound val) = Inr (Some val)"
| "classify_env_var name VarNotPresent = Inr None"
| "classify_env_var name VarNotUnicode = Inl (EnvVarNotUnicode name)"

fun unnested_close :: "nat \<Rightarrow> nat \<Rightarrow> string \<Rightarrow> nat option" where
  "unnested_close depth index [] = None"
| "unnested_close depth index (byte # bytes) =
     (if byte = CHR ''{'' then unnested_close (depth + 1) (index + 1) bytes
      else if byte = CHR ''}'' then
        (if depth = 0 then Some index else unnested_close (depth - 1) (index + 1) bytes)
      else unnested_close depth (index + 1) bytes)"

definition find_unnested_close :: "string \<Rightarrow> nat option" where
  "find_unnested_close line = unnested_close 0 0 line"

record parsed_placeholder =
  ph_name :: string
  ph_default :: "string option"
  ph_consumed :: nat

definition parse_placeholder :: "string \<Rightarrow> parsed_placeholder option" where
  "parse_placeholder body =
     (let line = takeWhile (\<lambda>c. c \<noteq> CHR 0x0A) body in
      do { close \<leftarrow> find_unnested_close line;
           let inner = take close line;
           let (name, fallback) =
             (case split_once '':-'' inner of
                Some (name, fallback) \<Rightarrow> (name, Some fallback)
              | None \<Rightarrow> (inner, None));
           if name = [] \<or> CHR '':'' \<in> set name \<or> CHR ''{'' \<in> set name then None
           else Some \<lparr>ph_name = name, ph_default = fallback, ph_consumed = close + 1\<rparr> })"

function substitute_with ::
  "(string \<Rightarrow> config_load_error + string option) \<Rightarrow> string \<Rightarrow> config_load_error + string" where
  "substitute_with lookup rest =
     (case split_once ''${'' rest of
        None \<Rightarrow> Inr rest
      | Some (before, body) \<Rightarrow>
          map_sum id (append before)
           (case parse_placeholder body of
              None \<Rightarrow> map_sum id (append ''${'') (substitute_with lookup body)
            | Some parsed \<Rightarrow>
                if ph_name parsed = SERVICE_CWD_NAME then
                  (if ph_default parsed \<noteq> None then Inl (ReservedPlaceholderDefault (ph_name parsed))
                   else map_sum id (append (''${'' @ take (ph_consumed parsed) body))
                          (substitute_with lookup (drop (ph_consumed parsed) body)))
                else
                  (case lookup (ph_name parsed) of
                     Inl e \<Rightarrow> Inl e
                   | Inr (Some found) \<Rightarrow>
                       (case ensure_yaml_safe (ph_name parsed) found of
                          Inl e \<Rightarrow> Inl e
                        | Inr _ \<Rightarrow> map_sum id (append found)
                            (substitute_with lookup (drop (ph_consumed parsed) body)))
                   | Inr None \<Rightarrow>
                       (case ph_default parsed of
                          None \<Rightarrow> Inl (EnvVarNotSet (ph_name parsed))
                        | Some fallback \<Rightarrow> map_sum id (append fallback)
                            (substitute_with lookup (drop (ph_consumed parsed) body))))))"
  by pat_completeness auto
termination
  by (relation "measure (\<lambda>(lookup, rest). length rest)") (auto dest: split_once_length)

declare substitute_with.simps [simp del]

lemma substitute_plain: "\<not> contains ''${'' s \<Longrightarrow> substitute_with lookup s = Inr s"
  by (subst substitute_with.simps) (cases "split_once ''${'' s"; simp add: contains_def)

lemma no_dollar_plain: "CHR ''$'' \<notin> set s \<Longrightarrow> \<not> contains ''${'' s"
  by (auto simp: contains_iff)

lemma split_once_leading: "CHR ''$'' \<notin> set a \<Longrightarrow> split_once ''${'' (a @ s) =
    map_option (\<lambda>(h, t). (a @ h, t)) (split_once ''${'' s)"
  by (induction a) (auto simp: starts_with_def option.map_comp comp_def case_prod_unfold option.map_ident)

text \<open>Text before the first dollar sign is copied; what follows is substituted on its own.\<close>

lemma substitute_leading:
  assumes "CHR ''$'' \<notin> set a"
  shows "substitute_with lookup (a @ s) = map_sum id (append a) (substitute_with lookup s)"
proof (cases "split_once ''${'' s")
  case None
  then show ?thesis
    using split_once_leading[OF assms] by (simp add: substitute_with.simps)
next
  case (Some hb)
  have compose: "map_sum id (append (a @ h)) x = map_sum id (append a) (map_sum id (append h) x)"
    for h and x :: "config_load_error + string"
    by (cases x) simp_all
  obtain h b where hb: "hb = (h, b)" by (cases hb)
  show ?thesis
    unfolding substitute_with.simps[of lookup "a @ s"] substitute_with.simps[of lookup s]
      split_once_leading[OF assms] Some hb
    by (simp add: compose)
qed

end
