(* ===== verification/Config.thy ===== *)
theory Config
  imports Programs
begin

text \<open>
  The configuration file (\<open>adapters/src/config\<close>): its sections (\<open>schema.rs\<close>), the checks on them
  (\<open>validate.rs\<close>) and the way from the file to a checked configuration (\<open>app.rs\<close>). The YAML
  reader and writer are parameters; \<open>usize\<close> is read as 64 bits. On the hosts modelled here a
  portable path is the path itself.
\<close>

subsection \<open>Errors\<close>

datatype config_error =
    ParseError string
  | InvalidHome
  | InvalidCfgDir
  | InvalidRoot string
  | InvalidKillTimeout u64
  | InvalidStartTimeout u64
  | InvalidDrainTimeout u64
  | InvalidRequestTimeout u64
  | InvalidCommandTimeout u64
  | InvalidPollInterval u64
  | InvalidPollCeiling u64 u64
  | InvalidFollowInterval u64
  | InvalidLogTailLines u64
  | InvalidLogReadMaxBytes u64
  | InvalidLogRotateInterval u64
  | InvalidReadyTimeout u64
  | InvalidReadyPollInterval u64
  | InvalidChannelDepth u64
  | InvalidBodyLimit u64
  | InvalidSopsTimeout u64
  | InvalidMaxTasks u64
  | EmptyProgram string
  | InvalidRestartCondition string
  | InvalidStopSignal string
  | CfgInvalidMinUptime u64
  | CfgInvalidMaxRestartDelay u64
  | InvalidMemoryPollInterval u64
  | InvalidLivenessPollInterval u64
  | InvalidLivenessThreshold u32
  | InvalidSandboxMode string string
  | InvalidSandboxRead string string
  | RelativeSandboxRoot string string
  | EmptyMinimalReadRoots
  | InvalidServiceLabel
  | UnsafeServiceLabel string string
  | DottedServiceLabel string
  | UnsafeLineBreak string
  | InvalidSearchPath
  | InvalidServiceName
  | InvalidLogLevel string
  | InvalidLogFormat string

primrec config_error_text :: "config_error \<Rightarrow> string" where
  "config_error_text (ParseError x) =
     ''cannot parse config: '' @ x"
| "config_error_text InvalidHome =
     ''cannot accept pm3.home: must be absolute, start with '' @ quoted ''~'' @
     '', or be empty to derive it''"
| "config_error_text InvalidCfgDir =
     ''cannot accept pm3.cfg_dir: must be absolute, start with '' @ quoted ''~'' @
     '', or be empty to follow the config root''"
| "config_error_text (InvalidRoot field) =
     ''cannot accept '' @ field @ '': must be absolute, start with '' @ quoted ''~'' @
     '', or be empty to derive it''"
| "config_error_text (InvalidKillTimeout x) =
     ''cannot accept pm3.kill_timeout_ms '' @ show_word x @ '': must be >= 1''"
| "config_error_text (InvalidStartTimeout x) =
     ''cannot accept pm3.start_timeout_ms '' @ show_word x @ '': must be >= 1''"
| "config_error_text (InvalidDrainTimeout x) =
     ''cannot accept pm3.drain_timeout_secs '' @ show_word x @ '': must be >= 1''"
| "config_error_text (InvalidRequestTimeout x) =
     ''cannot accept pm3.request_timeout_ms '' @ show_word x @ '': must be >= 1''"
| "config_error_text (InvalidCommandTimeout x) =
     ''cannot accept pm3.command_timeout_ms '' @ show_word x @ '': must be >= 1''"
| "config_error_text (InvalidPollInterval x) =
     ''cannot accept pm3.daemon_poll_interval_ms '' @ show_word x @ '': must be >= 1''"
| "config_error_text (InvalidPollCeiling ceiling floor) =
     ''cannot accept pm3.daemon_poll_max_interval_ms '' @ show_word ceiling @
     '': must be >= daemon_poll_interval_ms '' @ show_word floor"
| "config_error_text (InvalidFollowInterval x) =
     ''cannot accept pm3.log_follow_interval_ms '' @ show_word x @ '': must be >= 1''"
| "config_error_text (InvalidLogTailLines x) =
     ''cannot accept pm3.log_tail_lines '' @ show_word x @ '': must be >= 1''"
| "config_error_text (InvalidLogReadMaxBytes x) =
     ''cannot accept pm3.log_read_max_bytes '' @ show_word x @ '': must be >= 1''"
| "config_error_text (InvalidLogRotateInterval x) =
     ''cannot accept pm3.log_rotate_interval_ms '' @ show_word x @ '': must be >= 1''"
| "config_error_text (InvalidReadyTimeout x) =
     ''cannot accept pm3.ready_timeout_ms '' @ show_word x @ '': must be >= 1''"
| "config_error_text (InvalidReadyPollInterval x) =
     ''cannot accept pm3.ready_poll_interval_ms '' @ show_word x @ '': must be >= 1''"
| "config_error_text (InvalidChannelDepth x) =
     ''cannot accept pm3.daemon_channel_depth '' @ show_word x @ '': must be >= 1''"
| "config_error_text (InvalidBodyLimit x) =
     ''cannot accept pm3.request_body_limit_bytes '' @ show_word x @ '': must be >= 1''"
| "config_error_text (InvalidSopsTimeout x) =
     ''cannot accept pm3.sops_timeout_ms '' @ show_word x @ '': must be >= 1''"
| "config_error_text (InvalidMaxTasks x) =
     ''cannot accept pm3.service.max_tasks '' @ show_word x @ '': must be >= 1''"
| "config_error_text (EmptyProgram field) =
     ''cannot accept empty '' @ field"
| "config_error_text (InvalidRestartCondition x) =
     ''cannot accept pm3.service.restart_condition '' @ x @
     '': must be one of always, on-failure''"
| "config_error_text (InvalidStopSignal x) =
     ''cannot accept pm3.stop_signal '' @ x @
     '': must be one of TERM, INT, QUIT, HUP, USR1, USR2''"
| "config_error_text (CfgInvalidMinUptime x) =
     ''cannot accept pm3.restart.min_uptime_ms '' @ show_word x @ '': must be >= 1''"
| "config_error_text (CfgInvalidMaxRestartDelay x) =
     ''cannot accept pm3.restart.max_restart_delay_ms '' @ show_word x @ '': must be >= 1''"
| "config_error_text (InvalidMemoryPollInterval x) =
     ''cannot accept pm3.memory_poll_interval_ms '' @ show_word x @ '': must be >= 1''"
| "config_error_text (InvalidLivenessPollInterval x) =
     ''cannot accept pm3.liveness_poll_interval_ms '' @ show_word x @ '': must be >= 1''"
| "config_error_text (InvalidLivenessThreshold x) =
     ''cannot accept pm3.liveness_failure_threshold '' @ show_word x @ '': must be >= 1''"
| "config_error_text (InvalidSandboxMode mode expected) =
     ''cannot accept pm3.sandbox.mode '' @ mode @ '': must be one of '' @ expected"
| "config_error_text (InvalidSandboxRead read expected) =
     ''cannot accept pm3.sandbox.read '' @ read @ '': must be one of '' @ expected"
| "config_error_text (RelativeSandboxRoot field root) =
     ''cannot accept '' @ field @ '' entry '' @ quoted root @ '': must be an absolute path''"
| "config_error_text EmptyMinimalReadRoots =
     ''cannot accept empty pm3.sandbox.minimal_read_roots: a confined read scope needs at least the system directories''"
| "config_error_text InvalidServiceLabel =
     ''cannot accept empty pm3.service.label''"
| "config_error_text (UnsafeServiceLabel label character) =
     ''cannot accept pm3.service.label '' @ label @ '': unsafe character '' @ quoted character"
| "config_error_text (DottedServiceLabel x) =
     ''cannot accept pm3.service.label '' @ x @ '': must not start with '' @ quoted ''.''"
| "config_error_text (UnsafeLineBreak field) =
     ''cannot accept '' @ field @ '': must not contain a line break''"
| "config_error_text InvalidSearchPath =
     ''cannot accept empty pm3.search_path''"
| "config_error_text InvalidServiceName =
     ''cannot accept empty telemetry.service_name''"
| "config_error_text (InvalidLogLevel x) =
     ''cannot accept telemetry.log_level '' @ x @
     '': must be one of trace, debug, info, warn, error''"
| "config_error_text (InvalidLogFormat x) =
     ''cannot accept telemetry.log_format '' @ x @ '': must be one of json, pretty''"

datatype adapter_error = ConfigFailed config_load_error | ConfigRefused config_error

primrec adapter_error_text :: "adapter_error \<Rightarrow> string" where
  "adapter_error_text (ConfigFailed e) = config_load_error_text e"
| "adapter_error_text (ConfigRefused e) = config_error_text e"

subsection \<open>Sections\<close>

record restart_config =
  rc_autorestart :: bool
  rc_min_uptime_ms :: u64
  rc_max_restarts :: u32
  rc_restart_delay_ms :: u64
  rc_max_restart_delay_ms :: u64

record sandbox_config =
  sc_mode :: string
  sc_read :: string
  sc_network :: bool
  sc_seatbelt_program :: string
  sc_bwrap_program :: string
  sc_minimal_read_roots :: "string list"
  sc_forbidden_writable_roots :: "string list"

record service_config =
  sv_label :: string
  sv_restart_delay_secs :: u64
  sv_restart_condition :: string
  sv_max_tasks :: u64
  sv_cpu_quota_percent :: u64
  sv_wait_for_network :: bool
  sv_launchctl_path :: string
  sv_systemctl_path :: string
  sv_loginctl_path :: string
  sv_schtasks_path :: string
  sv_taskkill_path :: string

record notify_messages =
  nm_exited_code :: string
  nm_exited_signal :: string
  nm_ready_failed :: string
  nm_ready_failed_downstream :: string
  nm_liveness_killed :: string
  nm_memory_killed :: string
  nm_launch_failed :: string

record notify_config =
  nc_enabled :: bool
  nc_cooldown_ms :: u64
  nc_osascript_program :: string
  nc_notify_send_program :: string
  nc_title :: string
  nc_messages :: notify_messages

record pm3_config =
  pm3_home :: string
  pm3_cfg_dir :: string
  pm3_state_dir :: string
  pm3_runtime_dir :: string
  pm3_data_dir :: string
  pm3_search_path :: string
  pm3_stop_signal :: string
  pm3_kill_timeout_ms :: u64
  pm3_start_timeout_ms :: u64
  pm3_drain_timeout_secs :: u64
  pm3_request_timeout_ms :: u64
  pm3_command_timeout_ms :: u64
  pm3_daemon_poll_interval_ms :: u64
  pm3_daemon_poll_max_interval_ms :: u64
  pm3_memory_poll_interval_ms :: u64
  pm3_liveness_poll_interval_ms :: u64
  pm3_liveness_failure_threshold :: u32
  pm3_log_follow_interval_ms :: u64
  pm3_log_tail_lines :: u64
  pm3_log_read_max_bytes :: u64
  pm3_log_rotate_max_bytes :: u64
  pm3_log_rotate_interval_ms :: u64
  pm3_ready_timeout_ms :: u64
  pm3_ready_poll_interval_ms :: u64
  pm3_daemon_channel_depth :: u64
  pm3_request_body_limit_bytes :: u64
  pm3_sops_identity_file :: string
  pm3_sops_program :: string
  pm3_sops_timeout_ms :: u64
  pm3_restart :: restart_config
  pm3_sandbox :: sandbox_config
  pm3_service :: service_config
  pm3_notify :: notify_config

record telemetry_config =
  tl_service_name :: string
  tl_log_level :: string
  tl_log_format :: string

record app_config =
  cfg_pm3 :: pm3_config
  cfg_telemetry :: telemetry_config

definition DEFAULT_LOG_READ_MAX_BYTES :: u64 where
  "DEFAULT_LOG_READ_MAX_BYTES = 4 * 1024 * 1024"

definition DEFAULT_LIVENESS_POLL_INTERVAL_MS :: u64 where
  "DEFAULT_LIVENESS_POLL_INTERVAL_MS = 30000"

definition DEFAULT_LIVENESS_FAILURE_THRESHOLD :: u32 where
  "DEFAULT_LIVENESS_FAILURE_THRESHOLD = 3"

definition DEFAULT_SOPS_TIMEOUT_MS :: u64 where
  "DEFAULT_SOPS_TIMEOUT_MS = 30000"

definition DEFAULT_NOTIFY_COOLDOWN_MS :: u64 where
  "DEFAULT_NOTIFY_COOLDOWN_MS = 3600000"

definition notify_messages_default :: notify_messages where
  "notify_messages_default =
     \<lparr>nm_exited_code =
        [CHR 0xE5, CHR 0xBC, CHR 0x82, CHR 0xE5, CHR 0xB8, CHR 0xB8, CHR 0xE9, CHR 0x80, 
        CHR 0x80, CHR 0xE5, CHR 0x87, CHR 0xBA, CHR 0xEF, CHR 0xBC, CHR 0x8C, CHR 0xE9, 
        CHR 0x80, CHR 0x80, CHR 0xE5, CHR 0x87, CHR 0xBA, CHR 0xE7, CHR 0xA0, CHR 0x81] @ '' {code}'',
      nm_exited_signal =
        [CHR 0xE8, CHR 0xA2, CHR 0xAB, CHR 0xE4, CHR 0xBF, CHR 0xA1, CHR 0xE5, CHR 0x8F, 
        CHR 0xB7, CHR 0xE7, CHR 0xBB, CHR 0x88, CHR 0xE6, CHR 0xAD, CHR 0xA2, CHR 0xE6, 
        CHR 0x88, CHR 0x96, CHR 0xE5, CHR 0xBC, CHR 0x82, CHR 0xE5, CHR 0xB8, CHR 0xB8, 
        CHR 0xE6, CHR 0xB6, CHR 0x88, CHR 0xE5, CHR 0xA4, CHR 0xB1],
      nm_ready_failed =
        [CHR 0xE5, CHR 0xB0, CHR 0xB1, CHR 0xE7, CHR 0xBB, CHR 0xAA, CHR 0xE6, CHR 0xA3, 
        CHR 0x80, CHR 0xE6, CHR 0x9F, CHR 0xA5, CHR 0xE5, CHR 0xA4, CHR 0xB1, CHR 0xE8, 
        CHR 0xB4, CHR 0xA5],
      nm_ready_failed_downstream =
        [CHR 0xE5, CHR 0xB0, CHR 0xB1, CHR 0xE7, CHR 0xBB, CHR 0xAA, CHR 0xE6, CHR 0xA3, 
        CHR 0x80, CHR 0xE6, CHR 0x9F, CHR 0xA5, CHR 0xE5, CHR 0xA4, CHR 0xB1, CHR 0xE8, 
        CHR 0xB4, CHR 0xA5, CHR 0xEF, CHR 0xBC, CHR 0x8C, CHR 0xE4, CHR 0xB8, CHR 0x8B, 
        CHR 0xE6, CHR 0xB8, CHR 0xB8, CHR 0xE6, CHR 0x9C, CHR 0xAA, CHR 0xE5, CHR 0x90, 
        CHR 0xAF, CHR 0xE5, CHR 0x8A, CHR 0xA8, CHR 0xEF, CHR 0xBC, CHR 0x9A] @ ''{downstream}'',
      nm_liveness_killed =
        [CHR 0xE5, CHR 0xAD, CHR 0x98, CHR 0xE6, CHR 0xB4, CHR 0xBB, CHR 0xE6, CHR 0xA3, 
        CHR 0x80, CHR 0xE6, CHR 0x9F, CHR 0xA5, CHR 0xE8, CHR 0xBF, CHR 0x9E, CHR 0xE7, 
        CHR 0xBB, CHR 0xAD, CHR 0xE5, CHR 0xA4, CHR 0xB1, CHR 0xE8, CHR 0xB4, CHR 0xA5, 
        CHR 0xEF, CHR 0xBC, CHR 0x8C, CHR 0xE5, CHR 0xB7, CHR 0xB2, CHR 0xE9, CHR 0x87, 
        CHR 0x8D, CHR 0xE5, CHR 0x90, CHR 0xAF],
      nm_memory_killed =
        [CHR 0xE5, CHR 0x86, CHR 0x85, CHR 0xE5, CHR 0xAD, CHR 0x98, CHR 0xE8, CHR 0xB6, 
        CHR 0x85, CHR 0xE9, CHR 0x99, CHR 0x90, CHR 0xEF, CHR 0xBC, CHR 0x8C, CHR 0xE5, 
        CHR 0xB7, CHR 0xB2, CHR 0xE9, CHR 0x87, CHR 0x8D, CHR 0xE5, CHR 0x90, CHR 0xAF],
      nm_launch_failed =
        [CHR 0xE8, CHR 0x87, CHR 0xAA, CHR 0xE5, CHR 0x8A, CHR 0xA8, CHR 0xE5, CHR 0x90, 
        CHR 0xAF, CHR 0xE5, CHR 0x8A, CHR 0xA8, CHR 0xE5, CHR 0xA4, CHR 0xB1, CHR 0xE8, 
        CHR 0xB4, CHR 0xA5]\<rparr>"

definition notify_config_default :: notify_config where
  "notify_config_default =
     \<lparr>nc_enabled = True, nc_cooldown_ms = DEFAULT_NOTIFY_COOLDOWN_MS,
      nc_osascript_program = ''/usr/bin/osascript'', nc_notify_send_program = ''notify-send'',
      nc_title = ''pm3: {name}'', nc_messages = notify_messages_default\<rparr>"

subsection \<open>Checks\<close>

definition VALID_LOG_LEVELS :: "string list" where
  "VALID_LOG_LEVELS = [''trace'', ''debug'', ''info'', ''warn'', ''error'']"

definition VALID_LOG_FORMATS :: "string list" where
  "VALID_LOG_FORMATS = [''json'', ''pretty'']"

definition VALID_RESTART_CONDITIONS :: "string list" where
  "VALID_RESTART_CONDITIONS = [''always'', ''on-failure'']"

definition derivable_root :: "string \<Rightarrow> bool" where
  "derivable_root val \<longleftrightarrow>
     (if val = [] then True else if is_absolute_path val then True else starts_with ''~'' val)"

definition validate_derived_root :: "string \<Rightarrow> string \<Rightarrow> config_error + unit" where
  "validate_derived_root field val = (if derivable_root val then Inr () else Inl (InvalidRoot field))"

definition reject_line_break :: "string \<Rightarrow> string \<Rightarrow> config_error + unit" where
  "reject_line_break field val =
     (if CHR 0x0A \<in> set val \<or> CHR 0x0D \<in> set val then Inl (UnsafeLineBreak field) else Inr ())"

definition validate_paths :: "pm3_config \<Rightarrow> config_error + unit" where
  "validate_paths pm3 =
     (if \<not> derivable_root (pm3_home pm3) then Inl InvalidHome
      else if \<not> derivable_root (pm3_cfg_dir pm3) then Inl InvalidCfgDir
      else case validate_derived_root ''pm3.state_dir'' (pm3_state_dir pm3) of Inl e \<Rightarrow> Inl e | Inr _ \<Rightarrow>
     (case validate_derived_root ''pm3.runtime_dir'' (pm3_runtime_dir pm3) of Inl e \<Rightarrow> Inl e | Inr _ \<Rightarrow>
     (case validate_derived_root ''pm3.data_dir'' (pm3_data_dir pm3) of Inl e \<Rightarrow> Inl e | Inr _ \<Rightarrow>
      if pm3_search_path pm3 = [] then Inl InvalidSearchPath
      else case reject_line_break ''pm3.home'' (pm3_home pm3) of Inl e \<Rightarrow> Inl e | Inr _ \<Rightarrow>
        reject_line_break ''pm3.search_path'' (pm3_search_path pm3))))"

definition validate_timeouts :: "pm3_config \<Rightarrow> config_error + unit" where
  "validate_timeouts pm3 =
     (if pm3_kill_timeout_ms pm3 < 1 then Inl (InvalidKillTimeout (pm3_kill_timeout_ms pm3))
      else if pm3_start_timeout_ms pm3 < 1 then Inl (InvalidStartTimeout (pm3_start_timeout_ms pm3))
      else if pm3_drain_timeout_secs pm3 < 1 then Inl (InvalidDrainTimeout (pm3_drain_timeout_secs pm3))
      else if pm3_request_timeout_ms pm3 < 1 then Inl (InvalidRequestTimeout (pm3_request_timeout_ms pm3))
      else if pm3_command_timeout_ms pm3 < 1 then Inl (InvalidCommandTimeout (pm3_command_timeout_ms pm3))
      else if pm3_ready_timeout_ms pm3 < 1 then Inl (InvalidReadyTimeout (pm3_ready_timeout_ms pm3))
      else if pm3_sops_timeout_ms pm3 < 1 then Inl (InvalidSopsTimeout (pm3_sops_timeout_ms pm3))
      else Inr ())"

definition validate_intervals :: "pm3_config \<Rightarrow> config_error + unit" where
  "validate_intervals pm3 =
     (if pm3_daemon_poll_interval_ms pm3 < 1 then Inl (InvalidPollInterval (pm3_daemon_poll_interval_ms pm3))
      else if pm3_daemon_poll_max_interval_ms pm3 < pm3_daemon_poll_interval_ms pm3
        then Inl (InvalidPollCeiling (pm3_daemon_poll_max_interval_ms pm3) (pm3_daemon_poll_interval_ms pm3))
      else if pm3_memory_poll_interval_ms pm3 < 1
        then Inl (InvalidMemoryPollInterval (pm3_memory_poll_interval_ms pm3))
      else if pm3_log_follow_interval_ms pm3 < 1
        then Inl (InvalidFollowInterval (pm3_log_follow_interval_ms pm3))
      else if pm3_log_tail_lines pm3 < 1 then Inl (InvalidLogTailLines (pm3_log_tail_lines pm3))
      else if pm3_log_read_max_bytes pm3 < 1 then Inl (InvalidLogReadMaxBytes (pm3_log_read_max_bytes pm3))
      else if pm3_log_rotate_interval_ms pm3 < 1
        then Inl (InvalidLogRotateInterval (pm3_log_rotate_interval_ms pm3))
      else if pm3_ready_poll_interval_ms pm3 < 1
        then Inl (InvalidReadyPollInterval (pm3_ready_poll_interval_ms pm3))
      else if pm3_daemon_channel_depth pm3 < 1 then Inl (InvalidChannelDepth (pm3_daemon_channel_depth pm3))
      else if pm3_request_body_limit_bytes pm3 < 1
        then Inl (InvalidBodyLimit (pm3_request_body_limit_bytes pm3))
      else Inr ())"

definition validate_budgets :: "pm3_config \<Rightarrow> config_error + unit" where
  "validate_budgets pm3 =
     (case validate_timeouts pm3 of Inl e \<Rightarrow> Inl e | Inr _ \<Rightarrow> validate_intervals pm3)"

definition reject_relative_roots :: "string \<Rightarrow> string list \<Rightarrow> config_error + unit" where
  "reject_relative_roots field roots =
     (case find (\<lambda>root. \<not> is_absolute_path root) roots of
        None \<Rightarrow> Inr ()
      | Some root \<Rightarrow> Inl (RelativeSandboxRoot field root))"

definition validate_sandbox_roots :: "sandbox_config \<Rightarrow> config_error + unit" where
  "validate_sandbox_roots section =
     (if sc_minimal_read_roots section = [] then Inl EmptyMinimalReadRoots
      else case reject_relative_roots ''pm3.sandbox.minimal_read_roots'' (sc_minimal_read_roots section) of
        Inl e \<Rightarrow> Inl e
      | Inr _ \<Rightarrow>
          reject_relative_roots ''pm3.sandbox.forbidden_writable_roots'' (sc_forbidden_writable_roots section))"

definition sandbox_mode_names :: string where
  "sandbox_mode_names = join '', '' (map sandbox_mode_as_str Enum.enum)"

definition read_scope_names :: string where
  "read_scope_names = join '', '' (map read_scope_as_str Enum.enum)"

definition validate_choices :: "pm3_config \<Rightarrow> config_error + unit" where
  "validate_choices pm3 =
     (if \<not> List.member VALID_SIGNALS (pm3_stop_signal pm3) then Inl (InvalidStopSignal (pm3_stop_signal pm3))
      else if pm3_liveness_poll_interval_ms pm3 < 1
        then Inl (InvalidLivenessPollInterval (pm3_liveness_poll_interval_ms pm3))
      else if pm3_liveness_failure_threshold pm3 < 1
        then Inl (InvalidLivenessThreshold (pm3_liveness_failure_threshold pm3))
      else if rc_min_uptime_ms (pm3_restart pm3) < 1
        then Inl (CfgInvalidMinUptime (rc_min_uptime_ms (pm3_restart pm3)))
      else if rc_max_restart_delay_ms (pm3_restart pm3) < 1
        then Inl (CfgInvalidMaxRestartDelay (rc_max_restart_delay_ms (pm3_restart pm3)))
      else if sandbox_mode_parse (sc_mode (pm3_sandbox pm3)) = None
        then Inl (InvalidSandboxMode (sc_mode (pm3_sandbox pm3)) sandbox_mode_names)
      else if read_scope_parse (sc_read (pm3_sandbox pm3)) = None
        then Inl (InvalidSandboxRead (sc_read (pm3_sandbox pm3)) read_scope_names)
      else validate_sandbox_roots (pm3_sandbox pm3))"

definition validate_service_label :: "string \<Rightarrow> config_error + unit" where
  "validate_service_label label =
     (if label = [] then Inl InvalidServiceLabel
      else if starts_with ''.'' label then Inl (DottedServiceLabel label)
      else case find (\<lambda>letter. \<not> is_name_letter letter) (chars label) of
             None \<Rightarrow> Inr ()
           | Some character \<Rightarrow> Inl (UnsafeServiceLabel label character))"

fun reject_empty :: "(string \<times> string) list \<Rightarrow> config_error + unit" where
  "reject_empty [] = Inr ()"
| "reject_empty ((field, val) # rest) = (if val = [] then Inl (EmptyProgram field) else reject_empty rest)"

definition validate_programs :: "pm3_config \<Rightarrow> config_error + unit" where
  "validate_programs pm3 =
     (case reject_empty
        [(''pm3.sandbox.seatbelt_program'', sc_seatbelt_program (pm3_sandbox pm3)),
         (''pm3.sandbox.bwrap_program'', sc_bwrap_program (pm3_sandbox pm3)),
         (''pm3.service.launchctl_path'', sv_launchctl_path (pm3_service pm3)),
         (''pm3.service.systemctl_path'', sv_systemctl_path (pm3_service pm3)),
         (''pm3.service.loginctl_path'', sv_loginctl_path (pm3_service pm3)),
         (''pm3.service.schtasks_path'', sv_schtasks_path (pm3_service pm3)),
         (''pm3.service.taskkill_path'', sv_taskkill_path (pm3_service pm3)),
         (''pm3.sops_program'', pm3_sops_program pm3),
         (''pm3.notify.osascript_program'', nc_osascript_program (pm3_notify pm3)),
         (''pm3.notify.notify_send_program'', nc_notify_send_program (pm3_notify pm3))] of
        Inl e \<Rightarrow> Inl e
      | Inr _ \<Rightarrow>
          if \<not> List.member VALID_RESTART_CONDITIONS (sv_restart_condition (pm3_service pm3))
            then Inl (InvalidRestartCondition (sv_restart_condition (pm3_service pm3)))
          else if sv_max_tasks (pm3_service pm3) < 1 then Inl (InvalidMaxTasks (sv_max_tasks (pm3_service pm3)))
          else Inr ())"

definition validate_pm3_config :: "pm3_config \<Rightarrow> config_error + unit" where
  "validate_pm3_config pm3 =
     (case validate_paths pm3 of Inl e \<Rightarrow> Inl e | Inr _ \<Rightarrow>
     (case validate_budgets pm3 of Inl e \<Rightarrow> Inl e | Inr _ \<Rightarrow>
     (case validate_choices pm3 of Inl e \<Rightarrow> Inl e | Inr _ \<Rightarrow>
     (case validate_service_label (sv_label (pm3_service pm3)) of Inl e \<Rightarrow> Inl e | Inr _ \<Rightarrow>
      validate_programs pm3))))"

definition validate_telemetry_config :: "telemetry_config \<Rightarrow> config_error + unit" where
  "validate_telemetry_config t =
     (if tl_service_name t = [] then Inl InvalidServiceName
      else if \<not> List.member VALID_LOG_LEVELS (tl_log_level t) then Inl (InvalidLogLevel (tl_log_level t))
      else if \<not> List.member VALID_LOG_FORMATS (tl_log_format t) then Inl (InvalidLogFormat (tl_log_format t))
      else Inr ())"

definition validate_config :: "app_config \<Rightarrow> config_error + unit" where
  "validate_config cfg =
     (case validate_pm3_config (cfg_pm3 cfg) of Inl e \<Rightarrow> Inl e | Inr _ \<Rightarrow>
      validate_telemetry_config (cfg_telemetry cfg))"

subsection \<open>From the file to the configuration\<close>

text \<open>The process environment answers every name; the YAML library reads and writes documents.\<close>

definition substitute_env_vars :: "(string \<Rightarrow> var_read) \<Rightarrow> string \<Rightarrow> config_load_error + string" where
  "substitute_env_vars process_env raw =
     substitute_with (\<lambda>name. classify_env_var name (process_env name)) raw"

definition load_config :: "host_files \<Rightarrow> string \<Rightarrow> disk \<Rightarrow> (config_load_error + string) \<times> disk" where
  "load_config E path d =
     (case read_to_string E path d of
        (Inl error, d) \<Rightarrow> (Inl (ConfigIoError path error), d)
      | (Inr text, d) \<Rightarrow> (Inr text, d))"

definition parse_config :: "(string \<Rightarrow> string + app_config) \<Rightarrow> string \<Rightarrow> config_error + app_config" where
  "parse_config read_yaml yaml =
     (case read_yaml yaml of Inl e \<Rightarrow> Inl (ParseError e) | Inr config \<Rightarrow> Inr config)"

record loaded_config =
  ld_source :: string
  ld_config :: app_config

definition load_config_file ::
  "host_files \<Rightarrow> (string \<Rightarrow> var_read) \<Rightarrow> (string \<Rightarrow> string + app_config) \<Rightarrow> string \<Rightarrow> disk \<Rightarrow>
   (adapter_error + loaded_config) \<times> disk" where
  "load_config_file E process_env read_yaml path d =
     (case load_config E path d of
        (Inl e, d) \<Rightarrow> (Inl (ConfigFailed e), d)
      | (Inr source, d) \<Rightarrow>
          ((case substitute_env_vars process_env source of
              Inl e \<Rightarrow> Inl (ConfigFailed e)
            | Inr substituted \<Rightarrow>
           (case parse_config read_yaml substituted of
              Inl e \<Rightarrow> Inl (ConfigRefused e)
            | Inr config \<Rightarrow>
           (case validate_config config of
              Inl e \<Rightarrow> Inl (ConfigRefused e)
            | Inr _ \<Rightarrow> Inr \<lparr>ld_source = source, ld_config = config\<rparr>))), d))"

definition check_config ::
  "host_files \<Rightarrow> (string \<Rightarrow> var_read) \<Rightarrow> (string \<Rightarrow> string + app_config) \<Rightarrow> string \<Rightarrow> disk \<Rightarrow>
   (adapter_error + string) \<times> disk" where
  "check_config E process_env read_yaml path d =
     (case load_config_file E process_env read_yaml path d of
        (r, d) \<Rightarrow> (map_sum id (\<lambda>_. ''Config OK: '' @ path) r, d))"

definition show_config ::
  "host_files \<Rightarrow> (string \<Rightarrow> var_read) \<Rightarrow> (string \<Rightarrow> string + app_config) \<Rightarrow> (app_config \<Rightarrow> string) \<Rightarrow>
   string \<Rightarrow> disk \<Rightarrow> (adapter_error + string) \<times> disk" where
  "show_config E process_env read_yaml write_yaml path d =
     (case load_config_file E process_env read_yaml path d of
        (r, d) \<Rightarrow> (map_sum id (\<lambda>loaded. write_yaml (ld_config loaded)) r, d))"

subsection \<open>What a checked configuration is good for\<close>

lemma reject_empty_ok: "reject_empty pairs = Inr u \<longleftrightarrow> (\<forall>(field, val)\<in>set pairs. val \<noteq> [])"
  by (induction pairs rule: reject_empty.induct) auto

lemma reject_relative_ok: "reject_relative_roots field roots = Inr u \<longleftrightarrow> list_all is_absolute_path roots"
  by (auto simp: reject_relative_roots_def find_None_all list_all_iff split: option.splits
      dest: find_in_set)

lemma validate_label_ok:
  "validate_service_label label = Inr () \<longleftrightarrow>
     label \<noteq> [] \<and> \<not> starts_with ''.'' label \<and> list_all is_name_letter (chars label)"
  unfolding validate_service_label_def if_error_ok no_unsafe_letter by simp

lemma validate_choices_ok:
  assumes "validate_choices pm3 = Inr ()"
  shows "List.member VALID_SIGNALS (pm3_stop_signal pm3)"
    and "pm3_liveness_poll_interval_ms pm3 \<noteq> 0" and "pm3_liveness_failure_threshold pm3 \<noteq> 0"
    and "rc_min_uptime_ms (pm3_restart pm3) \<noteq> 0"
    and "rc_max_restart_delay_ms (pm3_restart pm3) \<noteq> 0"
    and "sandbox_mode_parse (sc_mode (pm3_sandbox pm3)) \<noteq> None"
    and "read_scope_parse (sc_read (pm3_sandbox pm3)) \<noteq> None"
    and "list_all is_absolute_path (sc_minimal_read_roots (pm3_sandbox pm3))"
    and "list_all is_absolute_path (sc_forbidden_writable_roots (pm3_sandbox pm3))"
  using assms[unfolded validate_choices_def if_error_ok validate_sandbox_roots_def sum_then_ok
      reject_relative_ok]
  by auto

lemma load_config_file_checked:
  assumes "load_config_file E process_env read_yaml path d = (Inr loaded, d')"
  shows "validate_config (ld_config loaded) = Inr ()" and "dk_files d' = dk_files d"
    and "dk_files d path = Some (ld_source loaded)"
proof -
  obtain r d1 where read: "read_to_string E path d = (r, d1)" by (cases "read_to_string E path d")
  with assms obtain source where r: "r = Inr source"
    by (auto simp: load_config_file_def load_config_def split: sum.splits)
  note step = assms[unfolded load_config_file_def load_config_def read r prod.case sum.case]
  from step show "validate_config (ld_config loaded) = Inr ()"
    by (auto split: sum.splits)
  from step have loaded: "ld_source loaded = source" "d' = d1" by (auto split: sum.splits)
  show "dk_files d' = dk_files d"
    using reads_keep_files(1)[of E path d] by (simp add: read loaded)
  show "dk_files d path = Some (ld_source loaded)"
    using read by (auto simp: r loaded read_to_string_def split: option.splits)
qed

end
