(* ===== verification/Service_File.thy ===== *)
theory Service_File
  imports Programs
begin

text \<open>
  The declaration of one service as the file has it (\<open>AppEntry\<close> of \<open>adapters/src/apps_file/file.rs\<close>)
  and the writer of service files (\<open>inline.rs\<close>): the entry of an inline start, folding of paths
  into placeholders, quoting and the YAML text. The reader of YAML is a library; what is proved of
  the text is that a quoted value is one line, that substitution leaves it alone, and that its
  escapes read back.
\<close>

subsection \<open>Entries\<close>

record sandbox_entry =
  se_mode :: "string option"
  se_read :: "string option"
  se_network :: "bool option"
  se_writable_roots :: "string list option"
  se_readable_roots :: "string list option"

record ready_probe_entry =
  rp_exec :: "string list option"
  rp_tcp :: "string option"

record app_entry =
  ae_name :: string
  ae_script :: string
  ae_cwd :: "string option"
  ae_args :: "string list"
  ae_rejected_env :: "(string \<times> string) list option"
  ae_depends_on :: "string list"
  ae_autorestart :: "bool option"
  ae_min_uptime_ms :: "u64 option"
  ae_max_restarts :: "u32 option"
  ae_restart_delay_ms :: "u64 option"
  ae_max_restart_delay_ms :: "u64 option"
  ae_listen_timeout_ms :: "u64 option"
  ae_ready_probe :: "ready_probe_entry option"
  ae_liveness_tcp :: "string option"
  ae_schedule :: "string option"
  ae_max_memory :: "string option"
  ae_stop_exit_codes :: "int list"
  ae_self_responsible :: bool
  ae_priority :: "string option"
  ae_sandbox :: "sandbox_entry option"

record inline_start =
  is_name :: string
  is_program :: string
  is_args :: "string list"
  is_cwd :: "string option"
  is_cron :: "string option"
  is_autorestart :: "bool option"
  is_network :: bool
  is_writable_dirs :: "string list"
  is_readable_dirs :: "string list"
  is_max_memory :: "string option"
  is_ready_exec :: "string list"
  is_ready_tcp :: "string option"
  is_listen_timeout_ms :: "u64 option"
  is_stop_exit_codes :: "int list"

definition ready_probe_of :: "inline_start \<Rightarrow> ready_probe_entry option" where
  "ready_probe_of request =
     (if is_ready_exec request \<noteq> [] then Some \<lparr>rp_exec = Some (is_ready_exec request), rp_tcp = None\<rparr>
      else map_option (\<lambda>endpoint. \<lparr>rp_exec = None, rp_tcp = Some endpoint\<rparr>) (is_ready_tcp request))"

definition dedup_roots :: "string list \<Rightarrow> string list" where
  "dedup_roots candidates =
     foldl (\<lambda>roots candidate. if \<not> List.member roots candidate then roots @ [candidate] else roots)
       [] candidates"

definition fold_roots :: "string list \<Rightarrow> string option \<Rightarrow> string list" where
  "fold_roots roots home = dedup_roots (map (\<lambda>root. fold_home root home) roots)"

definition fold_entry :: "app_entry \<Rightarrow> string option \<Rightarrow> app_entry" where
  "fold_entry entry home =
     entry\<lparr>ae_script := fold_home (ae_script entry) home,
       ae_cwd := map_option (\<lambda>val. fold_home val home) (ae_cwd entry),
       ae_args := map (\<lambda>val. fold_service_cwd (fold_home val home)) (ae_args entry),
       ae_sandbox := map_option (\<lambda>section. section
         \<lparr>se_writable_roots := map_option (\<lambda>roots. fold_roots roots home) (se_writable_roots section),
          se_readable_roots := map_option (\<lambda>roots. fold_roots roots home) (se_readable_roots section)\<rparr>)
         (ae_sandbox entry)\<rparr>"

definition inline_entry :: "inline_start \<Rightarrow> string option \<Rightarrow> app_entry" where
  "inline_entry request home =
     fold_entry
       \<lparr>ae_name = is_name request, ae_script = is_program request, ae_cwd = is_cwd request,
        ae_args = is_args request, ae_rejected_env = None, ae_depends_on = [],
        ae_autorestart = is_autorestart request, ae_min_uptime_ms = None, ae_max_restarts = None,
        ae_restart_delay_ms = None, ae_max_restart_delay_ms = None,
        ae_listen_timeout_ms = is_listen_timeout_ms request, ae_ready_probe = ready_probe_of request,
        ae_liveness_tcp = None, ae_schedule = is_cron request, ae_max_memory = is_max_memory request,
        ae_stop_exit_codes = is_stop_exit_codes request, ae_self_responsible = False,
        ae_priority = None,
        ae_sandbox = Some \<lparr>se_mode = None, se_read = None,
          se_network = (if is_network request then Some True else None),
          se_writable_roots = (if is_writable_dirs request = [] then None else Some (is_writable_dirs request)),
          se_readable_roots = (if is_readable_dirs request = [] then None else Some (is_readable_dirs request))\<rparr>\<rparr>
       home"

subsection \<open>Quoting\<close>

text \<open>\<open>{:02x}\<close> of a code point.\<close>

definition hex_escape :: "string \<Rightarrow> string" where
  "hex_escape letter =
     [CHR 0x5C, CHR ''x''] @
     (let shown = show_hex (code_point letter) in replicate (2 - length shown) CHR ''0'' @ shown)"

definition escape_letter :: "string \<Rightarrow> string" where
  "escape_letter ch =
     (if ch = [CHR 0x5C] then [CHR 0x5C, CHR 0x5C]
      else if ch = [CHR 0x22] then [CHR 0x5C, CHR 0x22]
      else if ch = [CHR 0x0A] then [CHR 0x5C, CHR ''n'']
      else if ch = [CHR 0x0D] then [CHR 0x5C, CHR ''r'']
      else if ch = [CHR 0x09] then [CHR 0x5C, CHR ''t'']
      else if ch = ''$'' then hex_escape ch
      else if is_control ch then hex_escape ch
      else ch)"

definition escape_body :: "string \<Rightarrow> string" where
  "escape_body raw = concat (map escape_letter (chars raw))"

definition quote_text :: "string \<Rightarrow> string" where
  "quote_text raw = [CHR 0x22] @ escape_body raw @ [CHR 0x22]"

text \<open>\<open>min_by_key\<close> returns the first of several minima.\<close>

definition next_placeholder :: "string \<Rightarrow> (string \<times> string \<times> string) option" where
  "next_placeholder rest =
     (case filter_map
             (\<lambda>placeholder. map_option (\<lambda>(head, tail). (head, placeholder, tail)) (split_once placeholder rest))
             [HOME_PLACEHOLDER, SERVICE_CWD_PLACEHOLDER] of
        [] \<Rightarrow> None
      | x # xs \<Rightarrow> Some (foldl (\<lambda>best y. if length (fst y) < length (fst best) then y else best) x xs))"

lemma next_placeholder_Some:
  assumes "next_placeholder rest = Some (head, placeholder, tail)"
  shows "rest = head @ placeholder @ tail \<and> placeholder \<in> {HOME_PLACEHOLDER, SERVICE_CWD_PLACEHOLDER}"
  using assms
  by (auto simp: next_placeholder_def dest: split_once_Some split: option.splits prod.splits if_splits list.splits)

function placeheld_body :: "string \<Rightarrow> string" where
  "placeheld_body rest =
     (case next_placeholder rest of
        None \<Rightarrow> escape_body rest
      | Some (head, placeholder, tail) \<Rightarrow> escape_body head @ placeholder @ placeheld_body tail)"
  by pat_completeness auto
termination
  by (relation "measure length")
    (auto simp: HOME_PLACEHOLDER_def SERVICE_CWD_PLACEHOLDER_def dest!: next_placeholder_Some)

declare placeheld_body.simps [simp del]

definition quote_placeheld :: "string \<Rightarrow> string" where
  "quote_placeheld raw = [CHR 0x22] @ placeheld_body raw @ [CHR 0x22]"

subsection \<open>The text of a service file\<close>

definition yaml_scalar :: "string \<Rightarrow> string \<Rightarrow> string" where
  "yaml_scalar key val = key @ '': '' @ val @ [CHR 0x0A]"

definition yaml_nested :: "string \<Rightarrow> string \<Rightarrow> string" where
  "yaml_nested key val = ''  '' @ key @ '': '' @ val @ [CHR 0x0A]"

definition yaml_optional :: "string \<Rightarrow> string option \<Rightarrow> string" where
  "yaml_optional key val = (case val of None \<Rightarrow> [] | Some shown \<Rightarrow> yaml_scalar key shown)"

definition write_sequence :: "string \<Rightarrow> string \<Rightarrow> string list \<Rightarrow> (string \<Rightarrow> string) \<Rightarrow> string" where
  "write_sequence indent key values quoter =
     (if values = [] then []
      else indent @ key @ '':'' @ [CHR 0x0A] @
           concat (map (\<lambda>val. indent @ ''  - '' @ quoter val @ [CHR 0x0A]) values))"

definition number_sequence :: "string \<Rightarrow> int list \<Rightarrow> string" where
  "number_sequence key values =
     (if values = [] then []
      else key @ '':'' @ [CHR 0x0A] @ concat (map (\<lambda>val. ''  - '' @ show_int val @ [CHR 0x0A]) values))"

definition show_bool :: "bool \<Rightarrow> string" where
  "show_bool b = (if b then ''true'' else ''false'')"

definition listed :: "string list option \<Rightarrow> string list" where
  "listed values = (case values of None \<Rightarrow> [] | Some xs \<Rightarrow> xs)"

definition encode_ready_probe :: "ready_probe_entry option \<Rightarrow> string" where
  "encode_ready_probe probe =
     (case probe of
        None \<Rightarrow> []
      | Some section \<Rightarrow>
          let text = write_sequence ''  '' ''exec'' (listed (rp_exec section)) quote_text @
                (case rp_tcp section of None \<Rightarrow> [] | Some endpoint \<Rightarrow> yaml_nested ''tcp'' (quote_text endpoint))
          in if text = [] then text else ''ready_probe:'' @ [CHR 0x0A] @ text)"

definition encode_sandbox :: "sandbox_entry option \<Rightarrow> string" where
  "encode_sandbox declared =
     (case declared of
        None \<Rightarrow> []
      | Some section \<Rightarrow>
          let text =
                (case se_mode section of None \<Rightarrow> [] | Some mode \<Rightarrow> yaml_nested ''mode'' (quote_text mode)) @
                (case se_read section of None \<Rightarrow> [] | Some scope \<Rightarrow> yaml_nested ''read'' (quote_text scope)) @
                (case se_network section of None \<Rightarrow> [] | Some network \<Rightarrow> yaml_nested ''network'' (show_bool network)) @
                write_sequence ''  '' ''writable_roots'' (listed (se_writable_roots section)) quote_placeheld @
                write_sequence ''  '' ''readable_roots'' (listed (se_readable_roots section)) quote_placeheld
          in if text = [] then text else ''sandbox:'' @ [CHR 0x0A] @ text)"

definition encode_entry :: "app_entry \<Rightarrow> string" where
  "encode_entry entry =
     yaml_scalar ''name'' (quote_text (ae_name entry)) @
     yaml_scalar ''script'' (quote_placeheld (ae_script entry)) @
     yaml_optional ''cwd'' (map_option quote_placeheld (ae_cwd entry)) @
     write_sequence [] ''args'' (ae_args entry) quote_placeheld @
     write_sequence [] ''depends_on'' (ae_depends_on entry) quote_text @
     yaml_optional ''autorestart'' (map_option show_bool (ae_autorestart entry)) @
     yaml_optional ''min_uptime_ms'' (map_option show_word (ae_min_uptime_ms entry)) @
     yaml_optional ''max_restarts'' (map_option show_word (ae_max_restarts entry)) @
     yaml_optional ''restart_delay_ms'' (map_option show_word (ae_restart_delay_ms entry)) @
     yaml_optional ''max_restart_delay_ms'' (map_option show_word (ae_max_restart_delay_ms entry)) @
     yaml_optional ''schedule'' (map_option quote_text (ae_schedule entry)) @
     yaml_optional ''max_memory'' (map_option quote_text (ae_max_memory entry)) @
     number_sequence ''stop_exit_codes'' (ae_stop_exit_codes entry) @
     yaml_optional ''self_responsible'' (if ae_self_responsible entry then Some (show_bool True) else None) @
     yaml_optional ''priority'' (map_option quote_text (ae_priority entry)) @
     yaml_optional ''listen_timeout_ms'' (map_option show_word (ae_listen_timeout_ms entry)) @
     yaml_optional ''liveness_tcp'' (map_option quote_text (ae_liveness_tcp entry)) @
     encode_ready_probe (ae_ready_probe entry) @
     encode_sandbox (ae_sandbox entry)"

definition encode_service_file :: "app_entry \<Rightarrow> string" where
  "encode_service_file entry = encode_entry entry"

definition nth_opt :: "'a list \<Rightarrow> nat \<Rightarrow> 'a option" where
  "nth_opt xs i = (if i < length xs then Some (xs ! i) else None)"

definition diff_lines :: "string \<Rightarrow> string \<Rightarrow> string list" where
  "diff_lines old new =
     (let before = text_lines old; after = text_lines new in
      concat (map (\<lambda>index.
        let removed = nth_opt before index; added = nth_opt after index in
        if removed = added then []
        else (case removed of None \<Rightarrow> [] | Some line \<Rightarrow> [''-'' @ line]) @
             (case added of None \<Rightarrow> [] | Some line \<Rightarrow> [''+'' @ line]))
        [0..<max (length before) (length after)]))"

subsection \<open>Rust strings, character by character\<close>

text \<open>
  Every string of the program is valid UTF-8. The lemmas need only this much of it: a character is
  an ASCII byte, or a leading byte from \<open>C2\<close> on with its continuation bytes.
\<close>

definition valid_letter :: "string \<Rightarrow> bool" where
  "valid_letter letter \<longleftrightarrow>
     (case letter of
        [] \<Rightarrow> False
      | [c] \<Rightarrow> is_ascii c
      | c # cs \<Rightarrow> 194 \<le> (of_char c :: nat) \<and> list_all is_continuation cs)"

definition rust_text :: "string \<Rightarrow> bool" where
  "rust_text s \<longleftrightarrow> list_all valid_letter (chars s)"

lemma valid_letter_cases:
  assumes "valid_letter l"
  obtains (ascii) c where "l = [c]" "is_ascii c"
  | (wide) c d cs where "l = c # d # cs" "194 \<le> (of_char c :: nat)" "list_all is_continuation (d # cs)"
  using assms by (auto simp: valid_letter_def split: list.splits)

lemma chars_append:
  assumes "b = [] \<or> \<not> is_continuation (hd b)"
  shows "chars (a @ b) = chars a @ chars b"
proof (induction a rule: chars.induct)
  case (2 c cs)
  have b: "takeWhile is_continuation b = []" "dropWhile is_continuation b = b"
    using assms by (cases b; simp)+
  show ?case
  proof (cases "\<forall>x\<in>set cs. is_continuation x")
    case True
    then have own: "takeWhile is_continuation cs = cs" "dropWhile is_continuation cs = []"
      by (simp_all only: takeWhile_eq_all_conv dropWhile_eq_Nil_conv)
    have "takeWhile is_continuation (cs @ b) = cs @ takeWhile is_continuation b"
      using True by (intro takeWhile_append2) blast
    moreover have "dropWhile is_continuation (cs @ b) = dropWhile is_continuation b"
      using True by (intro dropWhile_append2) blast
    ultimately have "takeWhile is_continuation (cs @ b) = cs" "dropWhile is_continuation (cs @ b) = b"
      by (simp_all only: b append_Nil2)
    with own show ?thesis by (simp only: append_Cons append_Nil chars.simps)
  next
    case False
    then have "takeWhile is_continuation (cs @ b) = takeWhile is_continuation cs"
        "dropWhile is_continuation (cs @ b) = dropWhile is_continuation cs @ b"
      by (auto simp: takeWhile_append1 dropWhile_append1)
    with 2 show ?thesis by simp
  qed
qed simp

lemma ascii_not_continuation: "is_ascii c \<Longrightarrow> \<not> is_continuation c"
  by (auto simp: is_ascii_def is_continuation_def Let_def)

lemma chars_snoc: "is_ascii c \<Longrightarrow> chars (s @ [c]) = chars s @ [[c]]"
  using chars_append[of "[c]" s] ascii_not_continuation by simp

lemma hd_valid: "valid_letter l \<Longrightarrow> l \<noteq> [] \<and> \<not> is_continuation (hd l)"
  by (auto elim!: valid_letter_cases simp: ascii_not_continuation)
    (simp add: is_continuation_def Let_def)

lemma chars_valid: "valid_letter l \<Longrightarrow> chars l = [l]"
  by (elim valid_letter_cases) (auto simp: takeWhile_eq_all_conv dropWhile_eq_Nil_conv list_all_iff)

lemma hd_concat: "ls \<noteq> [] \<Longrightarrow> hd ls \<noteq> [] \<Longrightarrow> hd (concat ls) = hd (hd ls)"
  by (cases ls) auto

lemma chars_concat:
  assumes "\<forall>l\<in>set ls. l \<noteq> [] \<and> \<not> is_continuation (hd l)"
  shows "chars (concat ls) = concat (map chars ls)"
  using assms
proof (induction ls)
  case (Cons l ls)
  then have "concat ls = [] \<or> \<not> is_continuation (hd (concat ls))"
    by (cases ls) auto
  with Cons show ?case by (simp add: chars_append)
qed simp

lemma chars_of_valid: "list_all valid_letter ls \<Longrightarrow> chars (concat ls) = ls"
proof -
  assume "list_all valid_letter ls"
  then have "chars (concat ls) = concat (map chars ls)" "map chars ls = map (\<lambda>l. [l]) ls"
    using chars_concat[of ls] hd_valid chars_valid by (simp_all add: list_all_iff)
  then show ?thesis by simp
qed

subsection \<open>Escapes read back\<close>

lemma hex_char_digit:
  assumes "d < 16"
  shows "hex_digit (hex_char d) = Some d" and "is_graphic (hex_char d)" and "hex_char d \<noteq> CHR ''+''"
proof -
  have b: "(of_char (hex_char d) :: nat) = (if d < 10 then 48 + d else 87 + d)"
    using assms by (simp add: hex_char_def)
  show "hex_digit (hex_char d) = Some d" using assms by (simp add: hex_digit_def b)
  show "is_graphic (hex_char d)" using assms by (simp add: is_graphic_def is_ascii_def b)
  show "hex_char d \<noteq> CHR ''+''" using b by (auto split: if_splits)
qed

lemma hex_pair:
  assumes "n < 256"
  shows "parse_hex [hex_char (n div 16), hex_char (n mod 16)] = Some n"
    and "(let shown = show_hex n in replicate (2 - length shown) CHR ''0'' @ shown) =
      [hex_char (n div 16), hex_char (n mod 16)]"
    and "is_graphic (hex_char (n div 16)) \<and> is_graphic (hex_char (n mod 16))"
proof -
  have d: "n div 16 < 16" "n mod 16 < 16" using assms by auto
  show "parse_hex [hex_char (n div 16), hex_char (n mod 16)] = Some n"
    using d by (simp add: parse_hex_def hex_char_digit Let_def)
  have zero: "hex_char 0 = CHR ''0''" by code_simp
  have "show_hex (n div 16) = [hex_char (n div 16)]" using d by (simp add: show_hex.simps)
  then show "(let shown = show_hex n in replicate (2 - length shown) CHR ''0'' @ shown) =
      [hex_char (n div 16), hex_char (n mod 16)]"
    using zero by (subst show_hex.simps) (auto simp: Let_def)
  show "is_graphic (hex_char (n div 16)) \<and> is_graphic (hex_char (n mod 16))"
    using d hex_char_digit(2) by blast
qed

lemma escaped_code_point:
  assumes "valid_letter l" and "l = ''$'' \<or> is_control l"
  shows "code_point l < 256" and "encode_scalar (code_point l) = l"
proof -
  have "code_point l < 256 \<and> encode_scalar (code_point l) = l"
    using assms(1)
  proof (cases rule: valid_letter_cases)
    case (ascii c)
    then have "(of_char c :: nat) < 128" by (simp add: is_ascii_def)
    with ascii show ?thesis by (simp add: code_point_def encode_scalar_def)
  next
    case (wide c d cs)
    then have cd: "cs = []" "c = CHR 0xC2" "(of_char d :: nat) < 160"
      using assms(2) by (auto simp: is_control_def split: list.splits)
    have d: "128 \<le> (of_char d :: nat)"
      using wide(3) by (simp add: is_continuation_def Let_def)
    let ?d = "of_char d :: nat"
    have "code_point l = ?d" using wide(1) cd d by (simp add: code_point_def)
    moreover have "?d div 64 = 2" "?d mod 64 = ?d - 128" using d cd(3) by (auto simp: mod_nat_eqI div_nat_eqI)
    moreover have "char_of (194 :: nat) = CHR 0xC2" by code_simp
    ultimately show ?thesis using wide(1) cd d by (simp add: encode_scalar_def)
  qed
  then show "code_point l < 256" "encode_scalar (code_point l) = l" by simp_all
qed

lemma hex_escape_shape:
  assumes "valid_letter l" and "l = ''$'' \<or> is_control l"
  shows "hex_escape l = [CHR 0x5C, CHR ''x'', hex_char (code_point l div 16), hex_char (code_point l mod 16)]"
  using hex_pair(2)[OF escaped_code_point(1)[OF assms]] by (simp add: hex_escape_def)

lemma chars_graphic: "list_all is_graphic s \<Longrightarrow> chars s = map (\<lambda>c. [c]) s"
  by (simp add: chars_ascii graphic_ascii)

lemma chars_hex_escape:
  assumes "valid_letter l" and "l = ''$'' \<or> is_control l"
  shows "chars (hex_escape l) =
    [[CHR 0x5C], ''x'', [hex_char (code_point l div 16)], [hex_char (code_point l mod 16)]]"
proof -
  have "is_graphic (CHR 0x5C)" "is_graphic (CHR ''x'')" by code_simp+
  then have "list_all is_graphic (hex_escape l)"
    using hex_pair(3)[OF escaped_code_point(1)[OF assms]] by (simp add: hex_escape_shape[OF assms])
  from chars_graphic[OF this] show ?thesis by (simp add: hex_escape_shape[OF assms])
qed

lemma unescape_plain: "l \<noteq> [CHR 0x5C] \<Longrightarrow> unescape_letters (l # rest) = l @ unescape_letters rest"
  by (subst unescape_letters.simps) simp

lemma unescape_backslash:
  "unescape_letters ([CHR 0x5C] # rest) =
    fst (push_unescaped rest) @ unescape_letters (snd (push_unescaped rest))"
  by (subst unescape_letters.simps) (simp add: case_prod_unfold Let_def)

lemma unescape_letter:
  assumes "valid_letter l"
  shows "unescape_letters (chars (escape_letter l) @ rest) = l @ unescape_letters rest"
proof (cases "l \<in> {[CHR 0x5C], [CHR 0x22], [CHR 0x0A], [CHR 0x0D], [CHR 0x09]}")
  case True
  have two: "chars [CHR 0x5C, c] = [[CHR 0x5C], [c]]" if "is_ascii c" for c
    using that by (subst chars_ascii) (simp_all add: is_ascii_def)
  have ascii: "is_ascii (CHR 0x5C)" "is_ascii (CHR 0x22)" "is_ascii (CHR ''n'')" "is_ascii (CHR ''r'')"
      "is_ascii (CHR ''t'')"
    by code_simp+
  from True show ?thesis
    by (elim insertE emptyE;
      simp add: escape_letter_def two ascii ascii_not_continuation unescape_backslash push_unescaped_def)
next
  case False
  show ?thesis
  proof (cases "l = ''$'' \<or> is_control l")
    case True
    have "escape_letter l = hex_escape l" using False True by (auto simp: escape_letter_def)
    moreover have "decoded_hex [hex_char (code_point l div 16), hex_char (code_point l mod 16)] = l"
      using hex_pair(1)[OF escaped_code_point(1)[OF assms True]] escaped_code_point(2)[OF assms True]
      by (simp add: decoded_hex_def decode_hex_def)
    ultimately show ?thesis
      by (simp add: chars_hex_escape[OF assms True] unescape_backslash push_unescaped_def)
  next
    case no: False
    then have "escape_letter l = l" using False by (simp add: escape_letter_def)
    then show ?thesis using False chars_valid[OF assms] by (simp add: unescape_plain)
  qed
qed

lemma escape_letter_head:
  assumes "valid_letter l"
  shows "escape_letter l \<noteq> [] \<and> \<not> is_continuation (hd (escape_letter l))"
  using hd_valid[OF assms]
  by (auto simp: escape_letter_def hex_escape_def is_continuation_def)

lemma unescape_escape:
  assumes "rust_text s"
  shows "unescape (escape_body s) = s"
proof -
  have "unescape_letters (concat (map (chars \<circ> escape_letter) ls) @ rest) = concat ls @ unescape_letters rest"
    if "list_all valid_letter ls" for ls rest
    using that by (induction ls) (simp_all add: unescape_letter)
  from this[of "chars s" "[]"] show ?thesis
    using assms chars_concat[of "map escape_letter (chars s)"] escape_letter_head
    by (simp add: rust_text_def unescape_def escape_body_def list_all_iff unescape_letters.simps[of "[]"])
qed

subsection \<open>Quoted text is inert\<close>

definition inert :: "char \<Rightarrow> bool" where
  "inert c \<longleftrightarrow> c \<noteq> CHR ''$'' \<and> c \<noteq> CHR 0x0A \<and> c \<noteq> CHR 0x0D"

lemma inert_code: "inert c \<longleftrightarrow> (of_char c :: nat) \<notin> {36, 10, 13}"
proof -
  have "c = CHR ''$'' \<longleftrightarrow> (of_char c :: nat) = 36" "c = CHR 0x0A \<longleftrightarrow> (of_char c :: nat) = 10"
      "c = CHR 0x0D \<longleftrightarrow> (of_char c :: nat) = 13"
    by (subst of_char_eq_iff[where 'a = nat, symmetric], simp)+
  then show ?thesis by (simp add: inert_def)
qed

lemma inert_hex_char: "d < 16 \<Longrightarrow> inert (hex_char d)"
proof -
  assume "d < 16"
  then have "(of_char (hex_char d) :: nat) = (if d < 10 then 48 + d else 87 + d)"
    by (simp add: hex_char_def)
  then show ?thesis by (simp add: inert_code)
qed

lemma escape_letter_inert:
  assumes "valid_letter l"
  shows "list_all inert (escape_letter l)"
proof (cases "l = ''$'' \<or> is_control l")
  case True
  have n: "code_point l < 256" using escaped_code_point(1)[OF assms True] .
  have "inert (CHR 0x5C)" "inert (CHR ''x'')" "list_all inert [CHR 0x5C, CHR ''n'']"
      "list_all inert [CHR 0x5C, CHR ''r'']" "list_all inert [CHR 0x5C, CHR ''t'']"
      "list_all inert [CHR 0x5C, CHR 0x22]" "list_all inert [CHR 0x5C, CHR 0x5C]"
    by code_simp+
  moreover from this have "list_all inert (hex_escape l)"
    using n hex_escape_shape[OF assms True] by (simp add: inert_hex_char less_mult_imp_div_less)
  ultimately show ?thesis using True by (auto simp: escape_letter_def)
next
  case False
  from assms have "list_all inert l"
  proof (cases rule: valid_letter_cases)
    case (ascii c)
    with False have "\<not> (of_char c :: nat) < 32" "c \<noteq> CHR ''$''" by (auto simp: is_control_def)
    then show ?thesis using ascii by (auto simp: inert_def)
  next
    case (wide c d cs)
    then show ?thesis by (auto simp: inert_code list_all_iff is_continuation_def Let_def)
  qed
  moreover have "list_all inert [CHR 0x5C, CHR 0x5C]" "list_all inert [CHR 0x5C, CHR 0x22]"
      "list_all inert [CHR 0x5C, CHR ''n'']" "list_all inert [CHR 0x5C, CHR ''r'']"
      "list_all inert [CHR 0x5C, CHR ''t'']"
    by code_simp+
  ultimately show ?thesis using False by (simp add: escape_letter_def)
qed

lemma escape_body_inert: "rust_text s \<Longrightarrow> list_all inert (escape_body s)"
  using escape_letter_inert by (fastforce simp: rust_text_def escape_body_def list_all_iff)

lemma quote_text_inert: "rust_text s \<Longrightarrow> list_all inert (quote_text s)"
  using escape_body_inert[of s] by (simp add: quote_text_def) (simp add: inert_def)

lemma inert_free: "list_all inert s \<Longrightarrow> CHR ''$'' \<notin> set s \<and> CHR 0x0A \<notin> set s \<and> CHR 0x0D \<notin> set s"
  by (auto simp: list_all_iff inert_def)

text \<open>Substitution copies quoted text, whatever surrounds it.\<close>

lemma substitute_quoted:
  "rust_text s \<Longrightarrow>
    substitute_with lookup (quote_text s @ rest) = map_sum id (append (quote_text s)) (substitute_with lookup rest)"
  using inert_free[OF quote_text_inert] substitute_leading by blast

subsection \<open>An environment file that was written is read back\<close>

definition env_line_text :: "string \<times> string \<Rightarrow> string" where
  "env_line_text = (\<lambda>(key, val). key @ ''='' @ quote_text val)"

definition env_file_text :: "(string \<times> string) list \<Rightarrow> string" where
  "env_file_text pairs = concat (map (\<lambda>pair. env_line_text pair @ [CHR 0x0A]) pairs)"

lemma text_lines_written:
  "\<forall>l\<in>set ls. list_all inert l \<Longrightarrow> text_lines (concat (map (\<lambda>l. l @ [CHR 0x0A]) ls)) = ls"
proof -
  assume ls: "\<forall>l\<in>set ls. list_all inert l"
  have "split_on CHR 0x0A (concat (map (\<lambda>l. l @ [CHR 0x0A]) ls)) = ls @ [[]]"
    using ls
  proof (induction ls)
    case (Cons l ls)
    have "split_on CHR 0x0A l = [l]" if "CHR 0x0A \<notin> set l" for l
      using that by (induction l) auto
    with Cons inert_free show ?case by (simp add: split_on_append)
  qed simp
  moreover have "strip_cr l = l" if "l \<in> set ls" for l
    using that ls inert_free[of l] by (auto simp: strip_cr_def) (metis last_in_set)
  ultimately show ?thesis by (simp add: text_lines_def map_idI)
qed

lemma graphic_head_not_space: "is_graphic c \<Longrightarrow> \<not> is_whitespace (c # cs)"
  by (auto simp: is_whitespace_def whitespace_def is_graphic_def is_ascii_def)

lemma trim_fenced:
  assumes "is_graphic c" and "is_graphic d"
  shows "trim (c # m @ [d]) = c # m @ [d]"
proof -
  have d: "is_ascii d" using assms(2) by (simp add: is_graphic_def)
  obtain x xs where cs: "chars (c # m @ [d]) = (c # x) # xs" by simp
  have snoc: "chars (c # m @ [d]) = chars (c # m) @ [[d]]"
    using chars_snoc[OF d, of "c # m"] by simp
  have 1: "dropWhile is_whitespace (chars (c # m @ [d])) = chars (c # m @ [d])"
    using cs graphic_head_not_space[OF assms(1)] by simp
  have 2: "dropWhile is_whitespace (rev (chars (c # m @ [d]))) = rev (chars (c # m @ [d]))"
    using graphic_head_not_space[OF assms(2), of "[]"] by (simp only: snoc rev_append rev.simps append_Nil append_Cons) simp
  show ?thesis unfolding trim_def 1 2 rev_rev_ident concat_chars ..
qed

lemma key_letter:
  assumes "is_env_key_letter l"
  obtains c where "l = [c]" "is_graphic c" "c \<noteq> CHR ''=''" "c \<noteq> CHR ''#''" "inert c"
proof -
  from assms obtain c where l: "l = [c]"
    by (auto simp: is_env_key_letter_def is_alphabetic_def split: list.splits if_splits)
  have b: "(of_char c :: nat) = 95 \<or> (48 \<le> (of_char c :: nat) \<and> of_char c \<le> (57 :: nat)) \<or>
      (65 \<le> (of_char c :: nat) \<and> of_char c \<le> (90 :: nat)) \<or> (97 \<le> (of_char c :: nat) \<and> of_char c \<le> (122 :: nat))"
    using assms l by (auto simp: is_env_key_letter_def is_alphabetic_def is_digit_def Let_def split: if_splits)
  have "c \<noteq> CHR ''=''" "c \<noteq> CHR ''#''" using b by auto
  moreover have "is_graphic c" "inert c"
    using b by (auto simp: is_graphic_def is_ascii_def inert_code)
  ultimately show ?thesis using that l by blast
qed

lemma env_key_shape:
  assumes "is_env_key key"
  shows "key \<noteq> [] \<and> list_all (\<lambda>c. is_graphic c \<and> c \<noteq> CHR ''='' \<and> c \<noteq> CHR ''#'' \<and> inert c) key"
proof -
  have "is_env_key_head l \<Longrightarrow> is_env_key_letter l" for l
    by (simp add: is_env_key_head_def is_env_key_letter_def split: if_splits)
  then have "is_env_key_letter l" if "l \<in> set (chars key)" for l
    using assms that by (cases "chars key") (auto simp: is_env_key_def list_all_iff split: if_splits)
  then have "\<exists>c. l = [c] \<and> is_graphic c \<and> c \<noteq> CHR ''='' \<and> c \<noteq> CHR ''#'' \<and> inert c" if "l \<in> set (chars key)" for l
    using that by (metis key_letter)
  moreover have "key = concat (chars key)" by simp
  moreover have "key \<noteq> []" using assms by (auto simp: is_env_key_def)
  ultimately show ?thesis
    unfolding list_all_iff by (metis (no_types, lifting) UN_E empty_iff empty_set insert_iff list.simps(15) set_concat)
qed

lemma trim_key: "is_env_key key \<Longrightarrow> trim key = key"
  using env_key_shape[of key] by (intro trim_graphic) (auto simp: list_all_iff)

lemma split_pair_written:
  assumes "is_env_key key" and "rust_text val"
    and "home = None \<or> CHR ''$'' \<notin> set val"
  shows "split_pair path (Shell home) n (env_line_text (key, val)) = Inr (key, val)"
proof -
  have "CHR ''='' \<notin> set key" using env_key_shape[OF assms(1)] by (auto simp: list_all_iff)
  then have split: "split_once ''='' (env_line_text (key, val)) = Some (key, quote_text val)"
    by (simp add: env_line_text_def split_once_at)
  have q: "is_graphic (CHR 0x22)" by code_simp
  have "trim (quote_text val) = quote_text val"
    using trim_fenced[OF q q, of "escape_body val"] by (simp add: quote_text_def)
  moreover have "fenced (quote_text val) CHR 0x27 = None"
    by (simp add: fenced_def quote_text_def strip_prefix_def starts_with_def)
  moreover have "fenced (quote_text val) CHR 0x22 = Some (escape_body val)"
    by (simp add: fenced_def quote_text_def strip_prefix_def starts_with_def strip_suffix_def ends_with_def)
  moreover have "env_expand_home home val = val"
  proof (cases home)
    case (Some h)
    with assms(3) have d: "CHR ''$'' \<notin> set val" by simp
    have no: "\<not> contains HOME_PLACEHOLDER val" "split_once BARE_HOME val = None"
      using d by (auto simp: contains_iff split_once_None HOME_PLACEHOLDER_def BARE_HOME_def)
    then show ?thesis
      using Some by (simp add: env_expand_home_def replace_all_absent expand_bare_home.simps)
  qed (simp add: env_expand_home_def)
  ultimately show ?thesis
    using split assms(1) unescape_escape[OF assms(2)]
    by (simp add: split_pair_def trim_key unquote_def)
qed

lemma env_line_kept:
  assumes "is_env_key key"
  shows "trim (env_line_text (key, val)) \<noteq> [] \<and> \<not> starts_with ''#'' (trim (env_line_text (key, val)))"
proof -
  obtain c cs where key: "key = c # cs" "is_graphic c" "c \<noteq> CHR ''#''"
    using env_key_shape[OF assms] by (cases key) auto
  have q: "is_graphic (CHR 0x22)" by code_simp
  have "trim (env_line_text (key, val)) = env_line_text (key, val)"
    using trim_fenced[OF key(2) q, of "cs @ ''='' @ [CHR 0x22] @ escape_body val"]
    by (simp add: env_line_text_def quote_text_def key(1))
  then show ?thesis using key by (simp add: env_line_text_def starts_with_def)
qed

lemma btree_insert_last:
  "sorted_wrt (<) (map fst m @ [k]) \<Longrightarrow> btree_insert k v m = m @ [(k, v)]"
  for k :: "'k::linorder"
  by (induction k v m rule: btree_insert.induct) (auto dest: less_imp_not_less simp: less_imp_neq[symmetric])

lemma parse_lines_written:
  assumes "sorted_wrt (<) (map fst (parsed @ pairs))"
    and "\<forall>(key, val)\<in>set pairs. is_env_key key \<and> rust_text val \<and> (home = None \<or> CHR ''$'' \<notin> set val)"
  shows "parse_lines path (Shell home) n (map env_line_text pairs) parsed = Inr (parsed @ pairs)"
  using assms
proof (induction pairs arbitrary: parsed n)
  case (Cons pair pairs)
  obtain key val where pair: "pair = (key, val)" by (cases pair)
  have ok: "is_env_key key" "rust_text val" "home = None \<or> CHR ''$'' \<notin> set val"
    using Cons.prems(2) pair by auto
  have new: "key \<notin> fst ` set parsed" "sorted_wrt (<) (map fst parsed @ [key])"
    using Cons.prems(1) pair by (auto simp: sorted_wrt_append)
  have "parse_lines path (Shell home) (n + 1) (map env_line_text pairs) (parsed @ [(key, val)]) =
      Inr ((parsed @ [(key, val)]) @ pairs)"
    using Cons.prems pair by (intro Cons.IH) auto
  with pair split_pair_written[OF ok, of path n] env_line_kept[OF ok(1)] new show ?case
    by (simp add: Let_def btree_insert_last map_of_eq_None_iff)
qed simp

theorem env_file_written:
  assumes "sorted_wrt (<) (map fst pairs)"
    and "\<forall>(key, val)\<in>set pairs. is_env_key key \<and> rust_text val \<and> (home = None \<or> CHR ''$'' \<notin> set val)"
  shows "parse_env_file path home (env_file_text pairs) = Inr pairs"
proof -
  have "list_all inert (env_line_text pair)" if "pair \<in> set pairs" for pair
  proof -
    obtain key val where pair: "pair = (key, val)" by (cases pair)
    then have ok: "is_env_key key" "rust_text val" using assms(2) that by auto
    have "inert (CHR ''='')" by code_simp
    with env_key_shape[OF ok(1)] quote_text_inert[OF ok(2)] pair show ?thesis
      by (auto simp: env_line_text_def list_all_iff)
  qed
  then have "text_lines (env_file_text pairs) = map env_line_text pairs"
    using text_lines_written[of "map env_line_text pairs"] by (simp add: env_file_text_def comp_def)
  then show ?thesis
    using parse_lines_written[of "[]" pairs home path 1] assms
    by (simp add: parse_env_file_def parse_pairs_def)
qed

end
