(* ===== verification/Schedules.thy ===== *)
theory Schedules
  imports Programs
begin

text \<open>
  Cron schedules with random fields (\<open>adapters/src/schedule\<close>): \<open>low~high\<close> and \<open>low~high/step\<close>
  draw a value once per window. The random generator, the cron library and the calendar are
  parameters; the generator answers its \<open>k\<close>-th question \<open>low..=high\<close> with a value of that range.
\<close>

subsection \<open>Expanding random fields\<close>

datatype expand_error =
    ZeroStep string
  | InvertedRange string
  | OutOfRange string u32 u32
  | Malformed string

primrec expand_error_text :: "expand_error \<Rightarrow> string" where
  "expand_error_text (ZeroStep field) = ''cannot accept step 0 in random field '' @ quoted field"
| "expand_error_text (InvertedRange field) =
     ''cannot accept random field '' @ quoted field @ '': the low bound exceeds the high bound''"
| "expand_error_text (OutOfRange field low high) =
     ''cannot accept random field '' @ quoted field @ '': bounds must fall within '' @ show_word low @
     ''-'' @ show_word high"
| "expand_error_text (Malformed field) =
     ''cannot parse random field '' @ quoted field @ '': expected '' @ quoted ''~'' @ '', '' @
     quoted ''low~high'' @ '' or '' @ quoted ''low~high/step''"

type_synonym generator = "nat \<Rightarrow> u32 \<Rightarrow> u32 \<Rightarrow> u32"

definition generator_ok :: "generator \<Rightarrow> bool" where
  "generator_ok rng \<longleftrightarrow> (\<forall>k low high. low \<le> high \<longrightarrow> low \<le> rng k low high \<and> rng k low high \<le> high)"

definition FIELD_BOUNDS :: "(u32 \<times> u32) list" where
  "FIELD_BOUNDS = [(0, 59), (0, 23), (1, 31), (1, 12), (0, 7)]"

definition normalise_weekday :: "u32 \<Rightarrow> bool \<Rightarrow> u32" where
  "normalise_weekday v weekday = (if weekday \<and> v = 7 then 0 else v)"

definition split_step :: "string \<Rightarrow> string \<Rightarrow> expand_error + (string \<times> u32 option)" where
  "split_step field tail =
     (case split_once ''/'' tail of
        None \<Rightarrow> Inr (tail, None)
      | Some (high, step) \<Rightarrow>
          (case parse_u32 step of
             None \<Rightarrow> Inl (Malformed field)
           | Some step \<Rightarrow> if step = 0 then Inl (ZeroStep field) else Inr (high, Some step)))"

definition parse_bound :: "string \<Rightarrow> string \<Rightarrow> u32 \<Rightarrow> expand_error + u32" where
  "parse_bound field text fallback =
     (if text = [] then Inr fallback
      else case parse_u32 text of None \<Rightarrow> Inl (Malformed field) | Some v \<Rightarrow> Inr v)"

definition parse_bounds :: "string \<Rightarrow> string \<Rightarrow> string \<Rightarrow> u32 \<times> u32 \<Rightarrow> expand_error + (u32 \<times> u32)" where
  "parse_bounds field low_text high_text bounds =
     (let (low_bound, high_bound) = bounds in
      case parse_bound field low_text low_bound of
        Inl e \<Rightarrow> Inl e
      | Inr low \<Rightarrow>
          (case parse_bound field high_text high_bound of
             Inl e \<Rightarrow> Inl e
           | Inr high \<Rightarrow>
               if high < low then Inl (InvertedRange field)
               else if low < low_bound \<or> high_bound < high then Inl (OutOfRange field low_bound high_bound)
               else Inr (low, high)))"

text \<open>The text of the field and how many questions the generator has been asked by then.\<close>

definition expand_field ::
  "string \<Rightarrow> u32 \<times> u32 \<Rightarrow> bool \<Rightarrow> generator option \<Rightarrow> nat \<Rightarrow> expand_error + (string \<times> nat)" where
  "expand_field field bounds weekday rng k =
     (case split_once ''~'' field of
        None \<Rightarrow> Inr (field, k)
      | Some (low_text, tail) \<Rightarrow>
     (case split_step field tail of
        Inl e \<Rightarrow> Inl e
      | Inr (high_text, step) \<Rightarrow>
     (case parse_bounds field low_text high_text bounds of
        Inl e \<Rightarrow> Inl e
      | Inr (low, high) \<Rightarrow>
     (case rng of
        None \<Rightarrow> Inr (show_word low @ ''-'' @ show_word high, k)
      | Some rng \<Rightarrow>
     (case step of
        None \<Rightarrow> Inr (show_word (normalise_weekday (rng k low high) weekday), k + 1)
      | Some step \<Rightarrow>
          let offset = min (saturating_add low (rng k 0 (step - 1))) high in
          Inr (show_word offset @ ''-'' @ show_word high @ ''/'' @ show_word step, k + 1))))))"

fun expand_fields ::
  "(string \<times> (u32 \<times> u32) \<times> bool) list \<Rightarrow> generator option \<Rightarrow> nat \<Rightarrow> expand_error + string list" where
  "expand_fields [] rng k = Inr []"
| "expand_fields ((field, bounds, weekday) # parts) rng k =
     (case expand_field field bounds weekday rng k of
        Inl e \<Rightarrow> Inl e
      | Inr (rendered, k) \<Rightarrow> map_sum id (Cons rendered) (expand_fields parts rng k))"

definition cron_fields :: "string list \<Rightarrow> (string \<times> (u32 \<times> u32) \<times> bool) list" where
  "cron_fields parts =
     map (\<lambda>(index, field). (field, FIELD_BOUNDS ! index, index = 4)) (List.enumerate 0 parts)"

definition expand :: "string \<Rightarrow> generator option \<Rightarrow> expand_error + string" where
  "expand pattern rng =
     (let parts = split_whitespace pattern in
      if length parts \<noteq> 5 then Inr pattern
      else map_sum id (join '' '') (expand_fields (cron_fields parts) rng 0))"

definition expand_random :: "string \<Rightarrow> generator \<Rightarrow> expand_error + string" where
  "expand_random pattern rng = expand pattern (Some rng)"

definition widen_random :: "string \<Rightarrow> expand_error + string" where
  "widen_random pattern = expand pattern None"

subsection \<open>Validating and firing\<close>

datatype cron_error = CronExpand string string expand_error | CronParse string string string

primrec cron_error_text :: "cron_error \<Rightarrow> string" where
  "cron_error_text (CronExpand app expr source) =
     ''cannot accept schedule '' @ quoted expr @ '' for app '' @ quoted app @ '': '' @ expand_error_text source"
| "cron_error_text (CronParse app expr reason) =
     ''cannot parse schedule '' @ quoted expr @ '' for app '' @ quoted app @ '': '' @ reason"

datatype window = Hour | Day | Week | Month | Year

primrec window_rank :: "window \<Rightarrow> nat" where
  "window_rank Hour = 0"
| "window_rank Day = 1"
| "window_rank Week = 2"
| "window_rank Month = 3"
| "window_rank Year = 4"

text \<open>
  The cron library and the calendar: parsing, the next occurrence after (or from) an instant, the
  local time of an instant, the limits of a window, milliseconds and the UTC time stamp.
\<close>

record ('cron, 'time, 'naive) calendar =
  cal_parse :: "string \<Rightarrow> string + 'cron"
  cal_next :: "'cron \<Rightarrow> 'time \<Rightarrow> bool \<Rightarrow> 'time option"
  cal_local :: "'time \<Rightarrow> 'naive"
  cal_start_of :: "window \<Rightarrow> 'naive \<Rightarrow> 'naive"
  cal_end_of :: "window \<Rightarrow> 'naive \<Rightarrow> 'naive option"
  cal_earliest :: "'naive \<Rightarrow> 'time option"
  cal_next_second :: "'time \<Rightarrow> 'time"
  cal_from_ms :: "u64 \<Rightarrow> 'time option"
  cal_to_ms :: "'time \<Rightarrow> u64"
  cal_stamp :: "'naive \<Rightarrow> u64"

definition validate_cron ::
  "(string \<Rightarrow> string + 'cron) \<Rightarrow> generator \<Rightarrow> string \<Rightarrow> string \<Rightarrow> cron_error + unit" where
  "validate_cron parse rng app expr =
     (case expand_random expr rng of
        Inl source \<Rightarrow> Inl (CronExpand app expr source)
      | Inr expanded \<Rightarrow>
          (case parse expanded of
             Inl reason \<Rightarrow> Inl (CronParse app expr reason)
           | Inr _ \<Rightarrow> Inr ()))"

definition FIELD_WINDOWS :: "window list" where
  "FIELD_WINDOWS = [Hour, Day, Month, Year, Week]"

definition window_of :: "string \<Rightarrow> window" where
  "window_of cron =
     (case map snd (filter (\<lambda>(field, w). CHR ''~'' \<in> set field) (zip (split_whitespace cron) FIELD_WINDOWS)) of
        [] \<Rightarrow> Hour
      | w # ws \<Rightarrow> foldl (\<lambda>best x. if window_rank best \<le> window_rank x then x else best) w ws)"

definition FNV_OFFSET :: u64 where
  "FNV_OFFSET = 0xcbf29ce484222325"

definition FNV_PRIME :: u64 where
  "FNV_PRIME = 0x100000001b3"

definition le_bytes :: "u64 \<Rightarrow> u64 list" where
  "le_bytes w = map (\<lambda>k. and (drop_bit (8 * k) w) 255) [0..<8]"

definition fnv_step :: "u64 \<Rightarrow> u64 \<Rightarrow> u64" where
  "fnv_step hash byte = (xor hash byte) * FNV_PRIME"

definition window_seed :: "string \<Rightarrow> string \<Rightarrow> u64 \<Rightarrow> u64" where
  "window_seed app cron stamp =
     foldl fnv_step FNV_OFFSET
       (map of_char app @ [255] @ map of_char cron @ [255] @ le_bytes stamp)"

text \<open>\<open>None\<close> is the panic of an \<open>expect\<close>.\<close>

definition drawn ::
  "('cron, 'time, 'naive) calendar \<Rightarrow> (u64 \<Rightarrow> generator) \<Rightarrow> string \<Rightarrow> string \<Rightarrow> 'naive \<Rightarrow> 'cron option" where
  "drawn C seeded app cron start =
     (case expand_random cron (seeded (window_seed app cron (cal_stamp C start))) of
        Inl e \<Rightarrow> None
      | Inr expanded \<Rightarrow> (case cal_parse C expanded of Inl reason \<Rightarrow> None | Inr parsed \<Rightarrow> Some parsed))"

text \<open>
  The search for the next fire. The outer \<open>None\<close> is a panic, or a search that does not end: the
  loop goes on as long as the calendar has a next window whose draw lies in the past.
\<close>

partial_function (option) search_fire ::
  "('cron, 'time, 'naive) calendar \<Rightarrow> (u64 \<Rightarrow> generator) \<Rightarrow> string \<Rightarrow> string \<Rightarrow> 'cron \<Rightarrow> 'time \<Rightarrow> bool \<Rightarrow>
   u64 option option" where
  "search_fire C seeded app cron widened cursor inclusive =
     (case cal_next C widened cursor inclusive of
        None \<Rightarrow> Some None
      | Some candidate \<Rightarrow>
          let w = window_of cron; start = cal_start_of C w (cal_local C candidate) in
          (case drawn C seeded app cron start of
             None \<Rightarrow> None
           | Some parsed \<Rightarrow>
               (case (case cal_next C parsed cursor inclusive of
                        None \<Rightarrow> None
                      | Some fire \<Rightarrow>
                          if cal_start_of C w (cal_local C fire) = start then Some fire else None) of
                  Some fire \<Rightarrow> Some (Some (cal_to_ms C fire))
                | None \<Rightarrow>
                    search_fire C seeded app cron widened
                      (case Option.bind (cal_end_of C w start) (cal_earliest C) of
                         Some instant \<Rightarrow> instant
                       | None \<Rightarrow> cal_next_second C candidate)
                      True)))"

definition next_fire_ms ::
  "('cron, 'time, 'naive) calendar \<Rightarrow> (u64 \<Rightarrow> generator) \<Rightarrow> string \<Rightarrow> string \<Rightarrow> u64 \<Rightarrow> u64 option option" where
  "next_fire_ms C seeded app cron after =
     (case widen_random cron of
        Inl e \<Rightarrow> Some None
      | Inr widened \<Rightarrow>
     (case cal_parse C widened of
        Inl reason \<Rightarrow> Some None
      | Inr parsed \<Rightarrow>
          let whole = after - after mod 1000 in
          if 2 ^ 63 \<le> unat whole then Some None
          else (case cal_from_ms C whole of
                  None \<Rightarrow> Some None
                | Some cursor \<Rightarrow> search_fire C seeded app cron parsed cursor False)))"

subsection \<open>Draws lie in the widened schedule\<close>

text \<open>
  A field means a set of values: a number, or a range with an optional step. Both readings of a
  random field parse, and what is drawn lies between the bounds the widened field shows.
\<close>

lemma parse_bounds_range:
  "parse_bounds field l h bounds = Inr (low, high) \<Longrightarrow> low \<le> high \<and> fst bounds \<le> low \<and> high \<le> snd bounds"
  by (auto simp: parse_bounds_def not_less split: sum.splits if_splits prod.splits)

lemma saturating_add_ge: "a \<le> saturating_add a b" for a b :: "'a::len word"
proof (cases "unat a + unat b < 2 ^ LENGTH('a)")
  case True
  then have "unat (a + b) = unat a + unat b"
    by (simp add: unat_word_ariths)
  with True show ?thesis by (simp add: saturating_add_def word_le_nat_alt)
next
  case False
  then show ?thesis by (simp add: saturating_add_def)
qed

theorem expand_field_draws:
  assumes "generator_ok rng"
  shows "case expand_field field bounds weekday None k of
      Inl e \<Rightarrow> expand_field field bounds weekday (Some rng) k = Inl e
    | Inr (wide, _) \<Rightarrow>
        (CHR ''~'' \<notin> set field \<and> wide = field \<and> expand_field field bounds weekday (Some rng) k = Inr (field, k)) \<or>
        (\<exists>low high. wide = show_word low @ ''-'' @ show_word high \<and> low \<le> high \<and>
           fst bounds \<le> low \<and> high \<le> snd bounds \<and>
           ((\<exists>v. expand_field field bounds weekday (Some rng) k =
                  Inr (show_word (normalise_weekday v weekday), k + 1) \<and> low \<le> v \<and> v \<le> high) \<or>
            (\<exists>offset (step :: u32). expand_field field bounds weekday (Some rng) k =
                  Inr (show_word offset @ ''-'' @ show_word high @ ''/'' @ show_word step, k + 1) \<and>
                low \<le> offset \<and> offset \<le> high \<and> step \<noteq> 0)))"
proof (cases "split_once ''~'' field")
  case None
  then have "CHR ''~'' \<notin> set field" by (simp add: split_once_char split: if_splits)
  with None show ?thesis by (simp add: expand_field_def)
next
  case (Some lt)
  obtain low_text tail where lt: "lt = (low_text, tail)" by (cases lt)
  show ?thesis
  proof (cases "split_step field tail")
    case (Inl e)
    with Some lt show ?thesis by (simp add: expand_field_def)
  next
    case (Inr hs)
    obtain high_text step where hs: "hs = (high_text, step)" by (cases hs)
    show ?thesis
    proof (cases "parse_bounds field low_text high_text bounds")
      case (Inl e)
      with Some lt Inr hs show ?thesis by (simp add: expand_field_def)
    next
      case bounds: (Inr lh)
      obtain low high where lh: "lh = (low, high)" by (cases lh)
      note range = parse_bounds_range[OF bounds[unfolded lh]]
      have draw: "low \<le> rng k low high" "rng k low high \<le> high"
        using assms range by (simp_all add: generator_ok_def)
      have offset: "low \<le> min (saturating_add low (rng k 0 (s - 1))) high" for s
        using range saturating_add_ge by simp
      have step: "step = Some s \<Longrightarrow> s \<noteq> 0" for s
        using Inr hs by (auto simp: split_step_def split: option.splits prod.splits if_splits)
      have wide: "expand_field field bounds weekday None k = Inr (show_word low @ ''-'' @ show_word high, k)"
        using Some lt Inr hs bounds lh by (simp add: expand_field_def)
      show ?thesis
      proof (cases step)
        case None
        then have "expand_field field bounds weekday (Some rng) k =
            Inr (show_word (normalise_weekday (rng k low high) weekday), k + 1)"
          using Some lt Inr hs bounds lh by (simp add: expand_field_def)
        with wide range draw show ?thesis by auto
      next
        case (Some s)
        then have "expand_field field bounds weekday (Some rng) k =
            Inr (show_word (min (saturating_add low (rng k 0 (s - 1))) high) @ ''-'' @ show_word high @
                 ''/'' @ show_word s, k + 1)"
          using \<open>split_once _ _ = Some _\<close> lt Inr hs bounds lh by (simp add: expand_field_def Let_def)
        then have "\<exists>offset (step :: u32). expand_field field bounds weekday (Some rng) k =
            Inr (show_word offset @ ''-'' @ show_word high @ ''/'' @ show_word step, k + 1) \<and>
            low \<le> offset \<and> offset \<le> high \<and> step \<noteq> 0"
          using offset[of s] step[OF Some] min.cobounded2 by blast
        with range show ?thesis
          unfolding wide sum.case prod.case
          by (intro disjI2 exI[of _ low] exI[of _ high]) blast
      qed
    qed
  qed
qed

end
