(* ===== verification/Apps_File.thy ===== *)
theory Apps_File
  imports Config Service_File Schedules
begin

text \<open>
  From an entry to a declaration (\<open>adapters/src/apps_file/file.rs\<close>, \<open>roots.rs\<close>): the files of
  several apps and of one service, the defaults taken from the configuration, the resolution of an
  entry and the checks on its result. What is proved: the directories of pm3 stay hidden in every
  resolved declaration, and a resolved declaration passes the validation of the entities.
\<close>

subsection \<open>Errors\<close>

datatype enc_file_error =
    EncUnavailable string string string
  | EncStalled string u64
  | EncRefused string int
  | EncUnreadable string
  | EncUnreachable string string

primrec enc_file_error_text :: "enc_file_error \<Rightarrow> string" where
  "enc_file_error_text (EncUnavailable program path reason) =
     ''cannot run '' @ quoted program @ '' to decrypt '' @ quoted path @ '': '' @ reason"
| "enc_file_error_text (EncStalled path timeout_ms) =
     ''cannot decrypt '' @ quoted path @ '' within '' @ show_word timeout_ms @ ''ms''"
| "enc_file_error_text (EncRefused path code) =
     ''cannot decrypt '' @ quoted path @ '': the decryptor exited with status '' @ show_int code"
| "enc_file_error_text (EncUnreadable path) =
     ''cannot read the decrypted '' @ quoted path @ '': the output is not text''"
| "enc_file_error_text (EncUnreachable path reason) =
     ''cannot look at the encrypted environment file '' @ quoted path @ '': '' @ reason"

datatype apps_file_error =
    AppsIo string io_error
  | AppsParse string
  | NoApps
  | DuplicateName string
  | EnvInYaml string
  | MissingApp string
  | ProgramNotFound string string
  | InvalidAppMode string string
  | InvalidAppRead string string
  | InvalidPriority string string
  | InvalidMemoryLimit string string
  | InvalidReadyProbe string string
  | EnvFileErr env_file_error
  | EncFileErr enc_file_error
  | SubstituteErr config_load_error
  | AppsSpecErr spec_error
  | CronErr cron_error

primrec apps_file_error_text :: "apps_file_error \<Rightarrow> string" where
  "apps_file_error_text (AppsIo path source) =
     ''cannot read apps file '' @ quoted path @ '': '' @ io_error_text source"
| "apps_file_error_text (AppsParse x) =
     ''cannot parse apps file: '' @ x"
| "apps_file_error_text NoApps =
     ''cannot accept an apps file with no apps''"
| "apps_file_error_text (DuplicateName x) =
     ''cannot accept duplicate app name '' @ quoted x"
| "apps_file_error_text (EnvInYaml app) =
     ''cannot accept '' @ quoted ''env'' @ '' in the declaration for app '' @ quoted app @
     '': move the environment values to '' @ [CHR 0x27] @ app @ ''.env'' @ [CHR 0x27] @
     '' beside the service file, so secrets never land in a yaml file''"
| "apps_file_error_text (MissingApp x) =
     ''cannot find app '' @ quoted x @ '' in its own service file''"
| "apps_file_error_text (ProgramNotFound app program) =
     ''cannot find '' @ quoted program @ '' for app '' @ quoted app @ '' on pm3.search_path''"
| "apps_file_error_text (InvalidAppMode scope mode) =
     ''cannot accept sandbox mode '' @ quoted mode @ '' for '' @ scope @
     '': must be one of read-only, workspace-write, danger-full-access''"
| "apps_file_error_text (InvalidAppRead scope read) =
     ''cannot accept sandbox read '' @ quoted read @ '' for '' @ scope @
     '': must be one of full, minimal''"
| "apps_file_error_text (InvalidPriority app priority) =
     ''cannot accept priority '' @ quoted priority @ '' for app '' @ quoted app @
     '': must be one of background, standard, interactive''"
| "apps_file_error_text (InvalidMemoryLimit app limit) =
     ''cannot accept max_memory '' @ quoted limit @ '' for app '' @ quoted app @
     '': use a byte count or a size like 300M''"
| "apps_file_error_text (InvalidReadyProbe app reason) =
     ''cannot accept ready_probe for app '' @ quoted app @ '': '' @ reason"
| "apps_file_error_text (EnvFileErr x) =
     env_file_error_text x"
| "apps_file_error_text (EncFileErr x) =
     enc_file_error_text x"
| "apps_file_error_text (SubstituteErr x) =
     config_load_error_text x"
| "apps_file_error_text (AppsSpecErr x) =
     spec_error_text x"
| "apps_file_error_text (CronErr x) =
     cron_error_text x"


subsection \<open>Roots\<close>

definition names_the_same_root :: "string \<Rightarrow> string \<Rightarrow> bool" where
  "names_the_same_root other root \<longleftrightarrow> normalize_root other = normalize_root root"

definition is_covered_by :: "nat \<Rightarrow> string \<Rightarrow> nat \<Rightarrow> string \<Rightarrow> bool" where
  "is_covered_by index root other_index other \<longleftrightarrow>
     (if names_the_same_root other root then other_index < index else covers_path other root)"

definition covered_by_another :: "nat \<Rightarrow> string \<Rightarrow> string list \<Rightarrow> bool" where
  "covered_by_another index root roots \<longleftrightarrow>
     list_ex (\<lambda>(other_index, other). other_index \<noteq> index \<and> is_covered_by index root other_index other)
       (List.enumerate 0 roots)"

definition dominant_roots :: "string list \<Rightarrow> string list" where
  "dominant_roots candidates =
     (let deduped = dedup_roots candidates in
      map snd (filter (\<lambda>(index, root). \<not> covered_by_another index root deduped) (List.enumerate 0 deduped)))"

lemma set_dedup_roots [simp]: "set (dedup_roots xs) = set xs"
proof -
  have "set (foldl (\<lambda>roots c. if \<not> List.member roots c then roots @ [c] else roots) ys xs) = set ys \<union> set xs"
    for ys
    by (induction xs arbitrary: ys) auto
  from this[of "[]"] show ?thesis by (simp add: dedup_roots_def)
qed

lemma covered_by_another_iff:
  "covered_by_another i root roots \<longleftrightarrow> (\<exists>j<length roots. j \<noteq> i \<and> is_covered_by i root j (roots ! j))"
  by (auto simp: covered_by_another_def list_ex_iff in_set_enumerate_eq Bex_def)

definition root_depth :: "string \<Rightarrow> nat" where
  "root_depth root = (if normalize_root root = ''/'' then 0 else length (normalize_root root))"

lemma covers_deeper:
  assumes "covers_path p c" and "normalize_root p \<noteq> normalize_root c"
  shows "root_depth p < root_depth c"
proof (cases "normalize_root p = ''/''")
  case True
  have "normalize_root c \<noteq> []" by (auto simp: normalize_root_def Let_def)
  with True assms(2) show ?thesis by (simp add: root_depth_def)
next
  case False
  with assms have "\<exists>r. normalize_root c = normalize_root p @ CHR ''/'' # r"
    by (auto simp: covers_path_components prefix_components)
  moreover have "normalize_root p \<noteq> []" by (auto simp: normalize_root_def Let_def)
  ultimately show ?thesis by (auto simp: root_depth_def False Cons_eq_append_conv)
qed

lemma covering_root:
  "i < length roots \<Longrightarrow>
    \<exists>j<length roots. \<not> covered_by_another j (roots ! j) roots \<and> covers_path (roots ! j) (roots ! i)"
proof (induction "root_depth (roots ! i) * length roots + i" arbitrary: i rule: less_induct)
  case less
  show ?case
  proof (cases "covered_by_another i (roots ! i) roots")
    case False
    with less.prems show ?thesis by (blast intro: covers_path_refl)
  next
    case True
    then obtain j where j: "j < length roots" "is_covered_by i (roots ! i) j (roots ! j)"
      by (auto simp: covered_by_another_iff)
    have "root_depth (roots ! j) * length roots + j < root_depth (roots ! i) * length roots + i \<and>
        covers_path (roots ! j) (roots ! i)"
    proof (cases "names_the_same_root (roots ! j) (roots ! i)")
      case True
      with j show ?thesis
        by (auto simp: is_covered_by_def names_the_same_root_def root_depth_def covers_path_components)
    next
      case False
      with j have "covers_path (roots ! j) (roots ! i)" by (simp add: is_covered_by_def)
      moreover from this False have "Suc (root_depth (roots ! j)) \<le> root_depth (roots ! i)"
        using covers_deeper by (simp add: names_the_same_root_def Suc_le_eq)
      then have "Suc (root_depth (roots ! j)) * length roots \<le> root_depth (roots ! i) * length roots"
        by (rule mult_le_mono1)
      ultimately show ?thesis using j(1) by simp
    qed
    with less.hyps[of j] j(1) show ?thesis by (blast intro: covers_path_trans)
  qed
qed

lemma set_dominant_roots:
  "r \<in> set (dominant_roots candidates) \<longleftrightarrow>
    (\<exists>i<length (dedup_roots candidates). r = dedup_roots candidates ! i \<and>
      \<not> covered_by_another i r (dedup_roots candidates))"
  unfolding dominant_roots_def Let_def set_map set_filter image_def
  by (auto simp: in_set_enumerate_eq)

lemma dominant_roots_cover:
  assumes "c \<in> set candidates"
  shows "\<exists>r\<in>set (dominant_roots candidates). covers_path r c"
proof -
  have "c \<in> set (dedup_roots candidates)" using assms by simp
  then obtain i where i: "i < length (dedup_roots candidates)" "c = dedup_roots candidates ! i"
    unfolding in_set_conv_nth by blast
  obtain j where "j < length (dedup_roots candidates)"
      "\<not> covered_by_another j (dedup_roots candidates ! j) (dedup_roots candidates)"
      "covers_path (dedup_roots candidates ! j) c"
    using covering_root[OF i(1)] i(2) by blast
  then show ?thesis unfolding Bex_def set_dominant_roots by blast
qed

lemma dominant_roots_subset: "set (dominant_roots candidates) \<subseteq> set candidates"
proof
  fix r
  assume "r \<in> set (dominant_roots candidates)"
  then have "r \<in> set (dedup_roots candidates)" unfolding set_dominant_roots using nth_mem by blast
  then show "r \<in> set candidates" by simp
qed

subsection \<open>Defaults\<close>

record spec_roots =
  sr_home_dir :: string
  sr_cfg_dir :: string
  sr_apps_dir :: string
  sr_state_dir :: string
  sr_runtime_dir :: string
  sr_data_dir :: string
  sr_logs_dir :: string
  sr_tmp_dir :: "string option"

record spec_defaults =
  sd_restart :: restart_config
  sd_sandbox_mode :: sandbox_mode
  sd_sandbox_read :: read_scope
  sd_sandbox_network :: bool
  sd_forbidden_writable_roots :: "string list"
  sd_roots :: spec_roots
  sd_search_path :: string

definition parse_mode :: "string \<Rightarrow> string \<Rightarrow> apps_file_error + sandbox_mode" where
  "parse_mode scope raw =
     (case sandbox_mode_parse raw of None \<Rightarrow> Inl (InvalidAppMode scope raw) | Some mode \<Rightarrow> Inr mode)"

definition parse_read :: "string \<Rightarrow> string \<Rightarrow> apps_file_error + read_scope" where
  "parse_read scope raw =
     (case read_scope_parse raw of None \<Rightarrow> Inl (InvalidAppRead scope raw) | Some read \<Rightarrow> Inr read)"

definition DEFAULTS_SCOPE :: string where
  "DEFAULTS_SCOPE = ''pm3.sandbox''"

definition from_config :: "pm3_config \<Rightarrow> spec_roots \<Rightarrow> apps_file_error + spec_defaults" where
  "from_config pm3 roots =
     (case parse_mode DEFAULTS_SCOPE (sc_mode (pm3_sandbox pm3)) of Inl e \<Rightarrow> Inl e | Inr mode \<Rightarrow>
     (case parse_read DEFAULTS_SCOPE (sc_read (pm3_sandbox pm3)) of Inl e \<Rightarrow> Inl e | Inr read \<Rightarrow>
      Inr \<lparr>sd_restart = pm3_restart pm3, sd_sandbox_mode = mode, sd_sandbox_read = read,
           sd_sandbox_network = sc_network (pm3_sandbox pm3),
           sd_forbidden_writable_roots = sc_forbidden_writable_roots (pm3_sandbox pm3),
           sd_roots = roots, sd_search_path = pm3_search_path pm3\<rparr>))"

subsection \<open>Reading the files\<close>

text \<open>
  What the host answers: the files, the environment of the process, the YAML library, which paths
  are files, the random generator of the cron check and the cron library.
\<close>

record host_specs =
  hs_files :: host_files
  hs_env :: "string \<Rightarrow> var_read"
  hs_yaml_apps :: "string \<Rightarrow> string + app_entry list"
  hs_yaml_service :: "string \<Rightarrow> string + app_entry"
  hs_is_file :: "disk \<Rightarrow> string \<Rightarrow> bool"
  hs_rng :: "disk \<Rightarrow> generator"
  hs_cron :: "string \<Rightarrow> string + unit"

definition read_substituted :: "host_specs \<Rightarrow> string \<Rightarrow> disk \<Rightarrow> (apps_file_error + string) \<times> disk" where
  "read_substituted H path d =
     (case read_to_string (hs_files H) path d of
        (Inl source, d) \<Rightarrow> (Inl (AppsIo path source), d)
      | (Inr raw, d) \<Rightarrow>
          (case substitute_env_vars (hs_env H) raw of Inl e \<Rightarrow> Inl (SubstituteErr e) | Inr text \<Rightarrow> Inr text, d))"

definition reject_env :: "app_entry \<Rightarrow> apps_file_error + unit" where
  "reject_env entry = (if ae_rejected_env entry \<noteq> None then Inl (EnvInYaml (ae_name entry)) else Inr ())"

fun check_entries :: "string set \<Rightarrow> app_entry list \<Rightarrow> apps_file_error + unit" where
  "check_entries seen [] = Inr ()"
| "check_entries seen (entry # entries) =
     (if ae_name entry \<in> seen then Inl (DuplicateName (ae_name entry))
      else case reject_env entry of
        Inl e \<Rightarrow> Inl e
      | Inr _ \<Rightarrow> check_entries (insert (ae_name entry) seen) entries)"

definition check_declared_names :: "app_entry list \<Rightarrow> apps_file_error + unit" where
  "check_declared_names apps = (if apps = [] then Inl NoApps else check_entries {} apps)"

definition parse_apps_file :: "host_specs \<Rightarrow> string \<Rightarrow> apps_file_error + app_entry list" where
  "parse_apps_file H yaml =
     (case hs_yaml_apps H yaml of
        Inl e \<Rightarrow> Inl (AppsParse e)
      | Inr apps \<Rightarrow> (case check_declared_names apps of Inl e \<Rightarrow> Inl e | Inr _ \<Rightarrow> Inr apps))"

definition load_apps_file :: "host_specs \<Rightarrow> string \<Rightarrow> disk \<Rightarrow> (apps_file_error + app_entry list) \<times> disk" where
  "load_apps_file H path d =
     (case read_substituted H path d of
        (Inl e, d) \<Rightarrow> (Inl e, d)
      | (Inr yaml, d) \<Rightarrow> (parse_apps_file H yaml, d))"

definition parse_service_file :: "host_specs \<Rightarrow> string \<Rightarrow> apps_file_error + app_entry" where
  "parse_service_file H yaml = (case hs_yaml_service H yaml of Inl e \<Rightarrow> Inl (AppsParse e) | Inr entry \<Rightarrow> Inr entry)"

definition load_service_file :: "host_specs \<Rightarrow> string \<Rightarrow> disk \<Rightarrow> (apps_file_error + app_entry) \<times> disk" where
  "load_service_file H path d =
     (case read_substituted H path d of
        (Inl e, d) \<Rightarrow> (Inl e, d)
      | (Inr yaml, d) \<Rightarrow> (parse_service_file H yaml, d))"

subsection \<open>Resolving an entry\<close>

definition resolve_program :: "host_specs \<Rightarrow> string \<Rightarrow> string option \<Rightarrow> disk \<Rightarrow> string option" where
  "resolve_program H program path_env d = resolve_with (hs_is_file H d) program path_env"

definition working_directory :: "spec_defaults \<Rightarrow> app_entry \<Rightarrow> string" where
  "working_directory defaults entry =
     (case ae_cwd entry of
        Some dir \<Rightarrow> dir
      | None \<Rightarrow> path_join (sr_apps_dir (sd_roots defaults)) (ae_name entry))"

definition pm3_owned_roots :: "spec_defaults \<Rightarrow> string list" where
  "pm3_owned_roots defaults =
     (let roots = sd_roots defaults in
      dominant_roots (filter (\<lambda>val. val \<noteq> [])
        [sr_home_dir roots, sr_cfg_dir roots, sr_state_dir roots, sr_runtime_dir roots, sr_data_dir roots]))"

definition tmp_root :: "spec_defaults \<Rightarrow> string list \<Rightarrow> string option" where
  "tmp_root defaults hidden =
     (case sr_tmp_dir (sd_roots defaults) of
        None \<Rightarrow> None
      | Some tmp \<Rightarrow> if list_ex (\<lambda>root. covers_path tmp root) hidden then None else Some tmp)"

definition default_writable_roots :: "spec_defaults \<Rightarrow> sandbox_mode \<Rightarrow> string \<Rightarrow> string list" where
  "default_writable_roots defaults mode dir =
     (if mode \<noteq> WorkspaceWrite then []
      else dedup_roots (filter (\<lambda>val. val \<noteq> [])
        (filter_map id [Some dir, Some (sr_logs_dir (sd_roots defaults)),
           tmp_root defaults (pm3_owned_roots defaults)])))"

definition resolve_sandbox :: "spec_defaults \<Rightarrow> app_entry \<Rightarrow> string \<Rightarrow> apps_file_error + sandbox_policy" where
  "resolve_sandbox defaults entry dir =
     (let declared = ae_sandbox entry; scope = ''app '' @ quoted (ae_name entry) in
      case (case Option.bind declared se_mode of None \<Rightarrow> Inr (sd_sandbox_mode defaults)
            | Some raw \<Rightarrow> parse_mode scope raw) of Inl e \<Rightarrow> Inl e | Inr mode \<Rightarrow>
     (case (case Option.bind declared se_read of None \<Rightarrow> Inr (sd_sandbox_read defaults)
            | Some raw \<Rightarrow> parse_read scope raw) of Inl e \<Rightarrow> Inl e | Inr read \<Rightarrow>
      Inr \<lparr>sb_mode = mode, sb_read = read,
           sb_network = (case Option.bind declared se_network of None \<Rightarrow> sd_sandbox_network defaults | Some b \<Rightarrow> b),
           writable_roots = listed (Option.bind declared se_writable_roots),
           readable_roots = listed (Option.bind declared se_readable_roots),
           derived_readable_roots = [],
           derived_roots = default_writable_roots defaults mode dir,
           unreadable_roots = pm3_owned_roots defaults\<rparr>))"

definition resolve_memory_limit :: "app_entry \<Rightarrow> apps_file_error + u64 option" where
  "resolve_memory_limit entry =
     (case ae_max_memory entry of
        None \<Rightarrow> Inr None
      | Some declared \<Rightarrow>
          (case parse_memory_limit declared of
             None \<Rightarrow> Inl (InvalidMemoryLimit (ae_name entry) declared)
           | Some kib \<Rightarrow> Inr (Some kib)))"

definition resolve_priority :: "app_entry \<Rightarrow> apps_file_error + priority" where
  "resolve_priority entry =
     (case ae_priority entry of
        None \<Rightarrow> Inr Background
      | Some declared \<Rightarrow>
          (case priority_parse declared of
             None \<Rightarrow> Inl (InvalidPriority (ae_name entry) declared)
           | Some p \<Rightarrow> Inr p))"

definition parse_u16 :: "string \<Rightarrow> u16 option" where
  "parse_u16 s = map_option of_nat (parse_uint 16 s)"

definition parse_tcp_endpoint :: "string \<Rightarrow> string \<Rightarrow> apps_file_error + ready_probe" where
  "parse_tcp_endpoint app endpoint =
     (case rsplit_once CHR '':'' endpoint of
        None \<Rightarrow> Inl (InvalidReadyProbe app ''use host:port'')
      | Some (host, port) \<Rightarrow>
          (case parse_u16 port of
             None \<Rightarrow> Inl (InvalidReadyProbe app ''the port must be a number of 1-65535'')
           | Some port \<Rightarrow> Inr (ProbeTcp host port)))"

definition resolve_liveness_probe :: "app_entry \<Rightarrow> apps_file_error + ready_probe option" where
  "resolve_liveness_probe entry =
     (case ae_liveness_tcp entry of
        None \<Rightarrow> Inr None
      | Some endpoint \<Rightarrow> map_sum id Some (parse_tcp_endpoint (ae_name entry) endpoint))"

definition resolve_ready_probe :: "app_entry \<Rightarrow> apps_file_error + ready_probe option" where
  "resolve_ready_probe entry =
     (case ae_ready_probe entry of
        None \<Rightarrow> Inr None
      | Some section \<Rightarrow>
          (case (rp_exec section, rp_tcp section) of
             (Some command, None) \<Rightarrow> Inr (Some (ProbeExec command))
           | (None, Some endpoint) \<Rightarrow> map_sum id Some (parse_tcp_endpoint (ae_name entry) endpoint)
           | (Some _, Some _) \<Rightarrow> Inl (InvalidReadyProbe (ae_name entry) ''use exactly one of exec or tcp'')
           | (None, None) \<Rightarrow> Inl (InvalidReadyProbe (ae_name entry) ''declare exec or tcp'')))"

definition declared_or :: "'a option \<Rightarrow> 'a \<Rightarrow> 'a" where
  "declared_or val fallback = (case val of None \<Rightarrow> fallback | Some x \<Rightarrow> x)"

definition resolve_entry :: "host_specs \<Rightarrow> spec_defaults \<Rightarrow> app_entry \<Rightarrow> disk \<Rightarrow> apps_file_error + app_spec" where
  "resolve_entry H defaults entry d =
     (case reject_env entry of Inl e \<Rightarrow> Inl e | Inr _ \<Rightarrow>
      let dir = working_directory defaults entry; restart = sd_restart defaults in
     (case resolve_program H (ae_script entry) (Some (sd_search_path defaults)) d of
        None \<Rightarrow> Inl (ProgramNotFound (ae_name entry) (ae_script entry))
      | Some program \<Rightarrow>
     (case resolve_sandbox defaults entry dir of Inl e \<Rightarrow> Inl e | Inr policy \<Rightarrow>
     (case resolve_memory_limit entry of Inl e \<Rightarrow> Inl e | Inr kib \<Rightarrow>
     (case resolve_ready_probe entry of Inl e \<Rightarrow> Inl e | Inr ready \<Rightarrow>
     (case resolve_liveness_probe entry of Inl e \<Rightarrow> Inl e | Inr live \<Rightarrow>
     (case resolve_priority entry of Inl e \<Rightarrow> Inl e | Inr prio \<Rightarrow>
      Inr \<lparr>app_name = ae_name entry, script = program, args = ae_args entry, cwd = dir, env = [],
           env_origin = Plain,
           autorestart = declared_or (ae_autorestart entry) (rc_autorestart restart),
           min_uptime_ms = declared_or (ae_min_uptime_ms entry) (rc_min_uptime_ms restart),
           max_restarts = declared_or (ae_max_restarts entry) (rc_max_restarts restart),
           restart_delay_ms = declared_or (ae_restart_delay_ms entry) (rc_restart_delay_ms restart),
           max_restart_delay_ms = declared_or (ae_max_restart_delay_ms entry) (rc_max_restart_delay_ms restart),
           schedule = ae_schedule entry, depends_on = ae_depends_on entry, max_memory_kib = kib,
           ready_probe = ready, liveness_probe = live, listen_timeout_ms = ae_listen_timeout_ms entry,
           stop_exit_codes = ae_stop_exit_codes entry, self_responsible = ae_self_responsible entry,
           app_priority = prio, sandbox = policy\<rparr>)))))))"

definition resolve_checked :: "host_specs \<Rightarrow> spec_defaults \<Rightarrow> app_entry \<Rightarrow> disk \<Rightarrow> apps_file_error + app_spec" where
  "resolve_checked H defaults entry d =
     (case resolve_entry H defaults entry d of Inl e \<Rightarrow> Inl e | Inr spec \<Rightarrow>
     (case validate_spec spec of Inl e \<Rightarrow> Inl (AppsSpecErr e) | Inr _ \<Rightarrow>
     (case validate_forbidden_roots (sandbox spec) (sd_forbidden_writable_roots defaults) of
        Inl source \<Rightarrow> Inl (AppsSpecErr (SandboxRefused (app_name spec) source))
      | Inr _ \<Rightarrow>
     (case (case schedule spec of None \<Rightarrow> Inr () | Some cron \<Rightarrow>
              validate_cron (hs_cron H) (hs_rng H d) (app_name spec) cron) of
        Inl e \<Rightarrow> Inl (CronErr e)
      | Inr _ \<Rightarrow> Inr spec))))"

subsection \<open>What a resolved declaration satisfies\<close>

lemma resolve_entry_fields:
  assumes "resolve_entry H defaults entry d = Inr spec"
  shows "app_name spec = ae_name entry" and "env spec = []"
    and "unreadable_roots (sandbox spec) = pm3_owned_roots defaults"
    and "derived_readable_roots (sandbox spec) = []"
  using assms
  by (auto simp: resolve_entry_def resolve_sandbox_def Let_def split: sum.splits option.splits)

lemma resolve_checked_ok:
  assumes "resolve_checked H defaults entry d = Inr spec"
  shows "resolve_entry H defaults entry d = Inr spec" and "validate_spec spec = Inr ()"
    and "list_all (\<lambda>root. \<not> root_is_forbidden (sd_forbidden_writable_roots defaults) root)
      (writable_roots (sandbox spec))"
proof -
  show "resolve_entry H defaults entry d = Inr spec" "validate_spec spec = Inr ()"
    using assms by (auto simp: resolve_checked_def split: sum.splits)
  have "validate_forbidden_roots (sandbox spec) (sd_forbidden_writable_roots defaults) = Inr ()"
    using assms by (auto simp: resolve_checked_def split: sum.splits)
  then show "list_all (\<lambda>root. \<not> root_is_forbidden (sd_forbidden_writable_roots defaults) root)
      (writable_roots (sandbox spec))"
    by (auto simp: validate_forbidden_roots_def find_None_all list_all_iff split: option.splits)
qed

lemma owned_roots_hidden:
  assumes "root \<in> {sr_home_dir r, sr_cfg_dir r, sr_state_dir r, sr_runtime_dir r, sr_data_dir r}"
    and "r = sd_roots defaults" and "root \<noteq> []"
  shows "\<exists>hidden\<in>set (pm3_owned_roots defaults). covers_path hidden root"
  unfolding pm3_owned_roots_def Let_def using assms by (intro dominant_roots_cover) auto

lemma from_config_checked:
  assumes "validate_pm3_config pm3 = Inr ()"
  shows "\<exists>defaults. from_config pm3 roots = Inr defaults \<and> sd_restart defaults = pm3_restart pm3 \<and>
    sd_roots defaults = roots \<and>
    sd_forbidden_writable_roots defaults = sc_forbidden_writable_roots (pm3_sandbox pm3)"
proof -
  have "validate_choices pm3 = Inr ()"
    using assms by (auto simp: validate_pm3_config_def split: sum.splits)
  note ok = validate_choices_ok(6,7)[OF this]
  then show ?thesis by (auto simp: from_config_def parse_mode_def parse_read_def)
qed

lemma check_entries_ok:
  "check_entries seen entries = Inr () \<longleftrightarrow>
     distinct (map ae_name entries) \<and> set (map ae_name entries) \<inter> seen = {} \<and>
     (\<forall>e\<in>set entries. ae_rejected_env e = None)"
  by (induction seen entries rule: check_entries.induct)
    (auto simp: reject_env_def split: sum.splits if_splits)

lemma parse_apps_file_ok:
  assumes "parse_apps_file H yaml = Inr apps"
  shows "apps \<noteq> []" and "distinct (map ae_name apps)" and "\<forall>e\<in>set apps. ae_rejected_env e = None"
  using assms check_entries_ok[of "{}" apps]
  by (auto simp: parse_apps_file_def check_declared_names_def split: sum.splits if_splits)

end
