(* ===== verification/Commands.thy ===== *)
theory Commands
  imports Std_Text Port_Types
begin

text \<open>
  Running a helper program and waiting for a condition (\<open>adapters/src/process/timed.rs\<close>,
  \<open>exit_status.rs\<close>). What a program answers is a parameter of the callers; here are the shapes of
  the answer, its reading as text and the polling loop with its bound on the number of checks.
\<close>

subsection \<open>Outcomes\<close>

text \<open>An exit status is its code, or \<open>None\<close> when a signal ended the process.\<close>

record command_output =
  co_status :: "int option"
  co_stdout :: string
  co_stderr :: string

datatype command_outcome = CommandStalled | SpawnFailed string | CommandFinished command_output

definition UNKNOWN_EXIT_CODE :: int where
  "UNKNOWN_EXIT_CODE = -1"

definition exit_code_of :: "int option \<Rightarrow> int" where
  "exit_code_of status = (case status of None \<Rightarrow> UNKNOWN_EXIT_CODE | Some code \<Rightarrow> code)"

definition exit_outcome_of :: "int option \<Rightarrow> exit_outcome" where
  "exit_outcome_of status = (case status of None \<Rightarrow> Signalled | Some code \<Rightarrow> Code code)"

definition status_success :: "int option \<Rightarrow> bool" where
  "status_success status \<longleftrightarrow> status = Some 0"

definition describe_refusal :: "string \<Rightarrow> int \<Rightarrow> string" where
  "describe_refusal stderr code =
     (let trimmed = trim stderr in
      if trimmed = [] then ''exited with status '' @ show_int code else trimmed)"

text \<open>A program, the variables set for it beyond those it inherits or instead of them, its arguments.\<close>

record helper_command =
  hc_program :: string
  hc_env :: "(string \<times> string) list"
  hc_args :: "string list"

subsection \<open>Output as text\<close>

text \<open>
  One step of decoding UTF-8: how many bytes belong together and whether they are a character. Of a
  malformed character the longest part that could begin one is taken, as the Rust library does.
\<close>

definition in_range :: "nat \<Rightarrow> nat \<Rightarrow> char \<Rightarrow> bool" where
  "in_range low high c \<longleftrightarrow> low \<le> of_char c \<and> of_char c \<le> high"

fun continue_utf8 :: "nat \<Rightarrow> nat \<Rightarrow> string \<Rightarrow> nat \<times> bool" where
  "continue_utf8 taken 0 rest = (taken, True)"
| "continue_utf8 taken (Suc n) (c # rest) =
     (if is_continuation c then continue_utf8 (taken + 1) n rest else (taken, False))"
| "continue_utf8 taken (Suc n) [] = (taken, False)"

definition utf8_step :: "char \<Rightarrow> string \<Rightarrow> nat \<times> bool" where
  "utf8_step a rest =
     (let second = (\<lambda>low high n. case rest of
            c # later \<Rightarrow> if in_range low high c then continue_utf8 2 n later else (1, False)
          | [] \<Rightarrow> (1, False)) in
      if in_range 0 127 a then (1, True)
      else if in_range 0xC2 0xDF a then second 0x80 0xBF 0
      else if a = CHR 0xE0 then second 0xA0 0xBF 1
      else if a = CHR 0xED then second 0x80 0x9F 1
      else if in_range 0xE1 0xEF a then second 0x80 0xBF 1
      else if a = CHR 0xF0 then second 0x90 0xBF 2
      else if a = CHR 0xF4 then second 0x80 0x8F 2
      else if in_range 0xF1 0xF3 a then second 0x80 0xBF 2
      else (1, False))"

function utf8_chunks :: "string \<Rightarrow> (string \<times> bool) list" where
  "utf8_chunks [] = []"
| "utf8_chunks (a # rest) =
     (let (taken, ok) = utf8_step a rest in
      (take taken (a # rest), ok) # utf8_chunks (drop (taken - 1) rest))"
  by pat_completeness auto
termination
  by (relation "measure length") auto

text \<open>\<open>String::from_utf8\<close> and \<open>String::from_utf8_lossy\<close>.\<close>

definition from_utf8 :: "string \<Rightarrow> string option" where
  "from_utf8 bytes = (if list_all snd (utf8_chunks bytes) then Some bytes else None)"

definition from_utf8_lossy :: "string \<Rightarrow> string" where
  "from_utf8_lossy bytes =
     concat (map (\<lambda>(chunk, ok). if ok then chunk else [CHR 0xEF, CHR 0xBF, CHR 0xBD]) (utf8_chunks bytes))"

subsection \<open>Waiting\<close>

datatype 'a flow = Break 'a | Continue 'a

definition next_pause :: "nat \<Rightarrow> nat \<Rightarrow> nat \<Rightarrow> nat option" where
  "next_pause elapsed budget step =
     (let remaining = budget - elapsed in if remaining = 0 then None else Some (min remaining step))"

text \<open>
  \<open>check k\<close> is the answer to the \<open>k\<close>-th check and \<open>clock k\<close> the time that has passed by then. A loop
  that never returns is \<open>None\<close>.
\<close>

partial_function (option) poll_until ::
  "(nat \<Rightarrow> nat) \<Rightarrow> (nat \<Rightarrow> 'a flow) \<Rightarrow> nat \<Rightarrow> nat \<Rightarrow> nat \<Rightarrow> 'a option" where
  "poll_until clock check budget step k =
     (case check k of
        Break settled \<Rightarrow> Some settled
      | Continue latest \<Rightarrow>
          (case next_pause (clock k) budget step of
             None \<Rightarrow> Some latest
           | Some pause \<Rightarrow> poll_until clock check budget step (k + 1)))"

text \<open>A sleep lasts at least as long as it was asked for.\<close>

definition clock_ok :: "(nat \<Rightarrow> nat) \<Rightarrow> nat \<Rightarrow> nat \<Rightarrow> bool" where
  "clock_ok clock budget step \<longleftrightarrow>
     (\<forall>k pause. next_pause (clock k) budget step = Some pause \<longrightarrow> clock k + pause \<le> clock (k + 1))"

lemma next_pause_bounds:
  "next_pause elapsed budget step = Some pause \<Longrightarrow> elapsed + pause \<le> budget \<and> pause \<le> step"
  by (auto simp: next_pause_def Let_def split: if_splits)

lemma poll_until_settles:
  assumes "clock_ok clock budget step" and "0 < step"
  shows "\<exists>n\<ge>k. (\<forall>i. k \<le> i \<and> i < n \<longrightarrow> (\<exists>v. check i = Continue v) \<and> clock i < budget) \<and>
    ((\<exists>v. check n = Break v \<and> poll_until clock check budget step k = Some v) \<or>
     (\<exists>v. check n = Continue v \<and> budget \<le> clock n \<and> poll_until clock check budget step k = Some v))"
proof (induction "budget - clock k" arbitrary: k rule: less_induct)
  case less
  show ?case
  proof (cases "check k")
    case (Break v)
    then have "poll_until clock check budget step k = Some v" by (simp add: poll_until.simps)
    with Break show ?thesis by (intro exI[of _ k]) auto
  next
    case (Continue v)
    show ?thesis
    proof (cases "next_pause (clock k) budget step")
      case None
      then have "poll_until clock check budget step k = Some v"
        using Continue by (simp add: poll_until.simps)
      moreover have "budget \<le> clock k" using None by (simp add: next_pause_def Let_def split: if_splits)
      ultimately show ?thesis using Continue by (intro exI[of _ k]) auto
    next
      case (Some pause)
      then have running: "clock k < budget" "0 < pause"
        using assms(2) by (auto simp: next_pause_def Let_def split: if_splits)
      moreover have "clock k + pause \<le> clock (k + 1)"
        using assms(1) Some by (auto simp: clock_ok_def)
      ultimately have "budget - clock (k + 1) < budget - clock k" by linarith
      from less.hyps[OF this] obtain n where n: "k + 1 \<le> n"
          "\<forall>i. k + 1 \<le> i \<and> i < n \<longrightarrow> (\<exists>v. check i = Continue v) \<and> clock i < budget"
          "(\<exists>v. check n = Break v \<and> poll_until clock check budget step (k + 1) = Some v) \<or>
           (\<exists>v. check n = Continue v \<and> budget \<le> clock n \<and>
             poll_until clock check budget step (k + 1) = Some v)"
        by blast
      moreover have "poll_until clock check budget step k = poll_until clock check budget step (k + 1)"
        using Continue Some by (simp add: poll_until.simps[of clock check budget step k])
      moreover have "(\<exists>v. check i = Continue v) \<and> clock i < budget" if "k \<le> i" "i < n" for i
        using that n(2) Continue running by (cases "i = k") (auto simp: Suc_le_eq)
      ultimately show ?thesis by (intro exI[of _ n]) auto
    qed
  qed
qed

text \<open>The number of checks is bounded by the budget and the step.\<close>

lemma poll_until_checks:
  assumes "clock_ok clock budget step" and "0 < step"
    and "\<forall>i<n. clock i < budget" and "0 < n"
  shows "n \<le> budget div step + 1"
proof -
  have "min ((i + 1) * step) budget \<le> clock (i + 1)" if "i < n" for i
    using that
  proof (induction i)
    case 0
    then have "next_pause (clock 0) budget step = Some (min (budget - clock 0) step)"
      using assms(3) by (auto simp: next_pause_def Let_def)
    then have "clock 0 + min (budget - clock 0) step \<le> clock 1"
      using assms(1) by (auto simp: clock_ok_def)
    then show ?case by auto
  next
    case (Suc i)
    then have "next_pause (clock (Suc i)) budget step = Some (min (budget - clock (Suc i)) step)"
      using assms(3) by (auto simp: next_pause_def Let_def)
    then have "clock (Suc i) + min (budget - clock (Suc i)) step \<le> clock (Suc i + 1)"
      using assms(1) unfolding clock_ok_def by blast
    with Suc show ?case by (auto simp: min_def split: if_splits)
  qed
  from this[of "n - 2"] assms(3,4) have "n = 1 \<or> (n - 1) * step < budget"
    by (cases "n = 1") (auto simp: min_def not_less Suc_diff_Suc numeral_2_eq_2
        dest!: spec[of _ "n - 1"] split: if_splits)
  then show ?thesis
  proof
    assume "(n - 1) * step < budget"
    then have "n - 1 \<le> budget div step" using assms(2) by (simp add: less_eq_div_iff_mult_less_eq)
    then show ?thesis by simp
  qed simp
qed

subsection \<open>Waiting for a process\<close>

definition identity_of_one :: "(u32 list \<Rightarrow> (u32 \<times> liveness) list) \<Rightarrow> u32 \<Rightarrow> liveness" where
  "identity_of_one identities i =
     (case map_of (identities [i]) i of None \<Rightarrow> Unreadable | Some l \<Rightarrow> l)"

definition gone_flow :: "liveness \<Rightarrow> liveness flow" where
  "gone_flow l = (if l = Gone then Break l else Continue l)"

definition wait_gone_with ::
  "(nat \<Rightarrow> nat) \<Rightarrow> (nat \<Rightarrow> liveness) \<Rightarrow> nat \<Rightarrow> nat \<Rightarrow> liveness option" where
  "wait_gone_with clock identity timeout_ms step =
     poll_until clock (\<lambda>k. gone_flow (identity k)) timeout_ms step 0"

subsection \<open>The interface of a process probe\<close>

text \<open>
  A probe answers from what is \<open>seen\<close> of the host at one moment: who the asked processes are, what their
  groups use, whether a group is gone. Its waits look again and again, the \<open>k\<close>-th time at \<open>seen k\<close>. Every
  variant answers only for the processes it was asked about and sleeps between two looks.
\<close>

locale process_probe =
  fixes identities :: "'seen \<Rightarrow> u32 list \<Rightarrow> (u32 \<times> liveness) list"
    and usage :: "'seen \<Rightarrow> u32 list \<Rightarrow> (u32 \<times> resource_sample) list"
    and group_answer :: "'seen \<Rightarrow> u32 \<Rightarrow> bool flow"
    and step :: nat
  assumes identities_asked: "(i, l) \<in> set (identities s pids) \<Longrightarrow> i \<in> set pids"
    and usage_asked: "(i, sample) \<in> set (usage s pids) \<Longrightarrow> i \<in> set pids"
    and step_positive: "0 < step"
begin

lemma no_pids: "identities s [] = []" "usage s [] = []"
  using identities_asked[of _ _ s "[]"] usage_asked[of _ _ s "[]"]
  by (cases "identities s []"; cases "usage s []"; force)+

lemma polls_end:
  assumes "clock_ok clock budget step"
  shows "\<exists>v. poll_until clock check budget step 0 = Some v"
  using poll_until_settles[OF assms step_positive, where k = 0 and check = check] by meson

lemma group_wait_ends:
  "clock_ok clock budget step \<Longrightarrow> \<exists>b. poll_until clock (\<lambda>k. group_answer (seen k) pgid) budget step 0 = Some b"
  by (rule polls_end)

text \<open>A wait for the end of a process tells of a look, and gives up on a process only after its budget.\<close>

lemma wait_gone_tells:
  assumes "clock_ok clock budget step"
  obtains n where "wait_gone_with clock (\<lambda>k. identity_of_one (identities (seen k)) i) budget step =
      Some (identity_of_one (identities (seen n)) i)"
    and "identity_of_one (identities (seen n)) i = Gone \<or> budget \<le> clock n"
proof -
  let ?identity = "\<lambda>k. identity_of_one (identities (seen k)) i"
  obtain n where "(\<exists>v. gone_flow (?identity n) = Break v \<and>
        poll_until clock (\<lambda>k. gone_flow (?identity k)) budget step 0 = Some v) \<or>
      (\<exists>v. gone_flow (?identity n) = Continue v \<and> budget \<le> clock n \<and>
        poll_until clock (\<lambda>k. gone_flow (?identity k)) budget step 0 = Some v)"
    using poll_until_settles[OF assms step_positive, where k = 0 and check = "\<lambda>k. gone_flow (?identity k)"] by meson
  then show thesis
    by (intro that[of n]) (auto simp: wait_gone_with_def gone_flow_def split: if_splits)
qed

end

end
