(* ===== verification/Spec_Source.thy ===== *)
theory Spec_Source
  imports Apps_File Commands Ports
begin

text \<open>
  How a service's declaration is put together when it is needed (\<open>adapters/src/apps_file/source.rs\<close>,
  \<open>enc_file.rs\<close>, \<open>global_env.rs\<close>, \<open>adapters/src/workspace.rs\<close>): the service file, the plain and
  encrypted environment beside it, the shared environment, and the real paths of the directories
  the sandbox grants. Strings are valid UTF-8, so the lossy conversions of paths are identities.
\<close>

subsection \<open>Sidecar files\<close>

definition file_name_at :: "string \<Rightarrow> string \<times> string" where
  "file_name_at path =
     (rev (dropWhile (\<lambda>c. c \<noteq> CHR ''/'') (rev path)), rev (takeWhile (\<lambda>c. c \<noteq> CHR ''/'') (rev path)))"

text \<open>\<open>Path::with_extension\<close> on a path with a file name.\<close>

definition with_extension :: "string \<Rightarrow> string \<Rightarrow> string" where
  "with_extension path ending =
     (let (dir, file) = file_name_at path in
      dir @ (case rsplit_once CHR ''.'' file of
               None \<Rightarrow> file
             | Some (stem, old) \<Rightarrow> if stem = [] then file else stem) @ ''.'' @ ending)"

definition ENV_FILE_SUFFIX :: string where "ENV_FILE_SUFFIX = ''env''"
definition ENC_FILE_SUFFIX :: string where "ENC_FILE_SUFFIX = ''enc.yaml''"
definition SERVICE_FILE_SUFFIX :: string where "SERVICE_FILE_SUFFIX = ''yaml''"
definition GLOBAL_ENV_STEM :: string where "GLOBAL_ENV_STEM = ''pm3''"

definition service_file_of :: "string \<Rightarrow> string \<Rightarrow> spec_error + string" where
  "service_file_of cfg_dir name = named_file cfg_dir name SERVICE_FILE_SUFFIX"

definition enc_file_of :: "string \<Rightarrow> string \<Rightarrow> spec_error + string" where
  "enc_file_of cfg_dir name = named_file cfg_dir name ENC_FILE_SUFFIX"

subsection \<open>Encrypted environments\<close>

record decryptor =
  de_program :: string
  de_identity :: string
  de_search_path :: string
  de_timeout_ms :: u64
  de_extra_env :: "(string \<times> string) list"

definition decrypt_command :: "decryptor \<Rightarrow> string \<Rightarrow> helper_command" where
  "decrypt_command decryptor path =
     \<lparr>hc_program = de_program decryptor,
      hc_env = de_extra_env decryptor @
        [(''SOPS_AGE_SSH_PRIVATE_KEY_FILE'', de_identity decryptor),
         (''SOPS_AGE_KEY_FILE'', de_identity decryptor), (''PATH'', de_search_path decryptor)],
      hc_args = [''-d'', ''--output-type'', ''dotenv'', path]\<rparr>"

text \<open>The answer of the helper program to a command within a time is a parameter of the host.\<close>

record host_secrets = host_specs +
  hs_run :: "disk \<Rightarrow> helper_command \<Rightarrow> u64 \<Rightarrow> command_outcome"

definition enc_file_present :: "host_secrets \<Rightarrow> string \<Rightarrow> disk \<Rightarrow> (enc_file_error + bool) \<times> disk" where
  "enc_file_present H path d =
     (case stat_file (hs_files H) path d of
        (Inr _, d) \<Rightarrow> (Inr True, d)
      | (Inl error, d) \<Rightarrow>
          (if error = Disk.NotFound then Inr False else Inl (EncUnreachable path (io_error_text error)), d))"

definition load_enc_file :: "host_secrets \<Rightarrow> decryptor \<Rightarrow> string \<Rightarrow> disk \<Rightarrow> (enc_file_error + string) \<times> disk" where
  "load_enc_file H decryptor path d =
     (case hs_run H d (decrypt_command decryptor path) (de_timeout_ms decryptor) of
        CommandStalled \<Rightarrow> Inl (EncStalled path (de_timeout_ms decryptor))
      | SpawnFailed error \<Rightarrow> Inl (EncUnavailable (de_program decryptor) path error)
      | CommandFinished output \<Rightarrow>
          if \<not> status_success (co_status output)
          then Inl (EncRefused path (exit_code_of (co_status output)))
          else (case from_utf8 (co_stdout output) of
                  Some text \<Rightarrow> Inr text
                | None \<Rightarrow> Inl (EncUnreadable path)),
      tick d)"

definition open_declared ::
  "host_secrets \<Rightarrow> pm3_config \<Rightarrow> string \<Rightarrow> (string \<times> string) list \<Rightarrow> disk \<Rightarrow>
   (enc_file_error + string option) \<times> disk" where
  "open_declared H config path extra_env d =
     (let decryptor = \<lparr>de_program = pm3_sops_program config, de_identity = pm3_sops_identity_file config,
            de_search_path = pm3_search_path config, de_timeout_ms = pm3_sops_timeout_ms config,
            de_extra_env = extra_env\<rparr> in
      case load_enc_file H decryptor path d of
        (Inr text, d) \<Rightarrow> (Inr (Some text), d)
      | (Inl error, d) \<Rightarrow> (if pm3_sops_identity_file config \<noteq> [] then Inl error else Inr None, d))"

subsection \<open>The shared environment\<close>

definition scoped :: "(string \<times> string) list \<Rightarrow> env_scope \<Rightarrow> env_value list" where
  "scoped declared scope = map (\<lambda>(key, val). env_value_new key val scope) declared"

definition decryptor_env :: "env_value list \<Rightarrow> (string \<times> string) list" where
  "decryptor_env global = map env_pair (filter (\<lambda>entry. starts_with ''XDG_'' (ev_key entry)) global)"

definition plain_values ::
  "host_secrets \<Rightarrow> string \<Rightarrow> string option \<Rightarrow> disk \<Rightarrow> (apps_file_error + (string \<times> string) list) \<times> disk" where
  "plain_values H stem home d =
     (case load_env_file (hs_files H) (with_extension stem ENV_FILE_SUFFIX) home d of
        (Inl e, d) \<Rightarrow> (Inl (EnvFileErr e), d)
      | (Inr values, d) \<Rightarrow> (Inr values, d))"

definition sidecar_present :: "host_secrets \<Rightarrow> string \<Rightarrow> disk \<Rightarrow> bool \<times> disk" where
  "sidecar_present H path d =
     (case enc_file_present H path d of (Inl e, d) \<Rightarrow> (False, d) | (Inr present, d) \<Rightarrow> (present, d))"

definition open_secrets ::
  "host_secrets \<Rightarrow> pm3_config \<Rightarrow> string \<Rightarrow> string option \<Rightarrow> (string \<times> string) list \<Rightarrow> disk \<Rightarrow>
   (apps_file_error + (string \<times> string) list) \<times> disk" where
  "open_secrets H config stem home extra d =
     (let path = with_extension stem ENC_FILE_SUFFIX in
      case sidecar_present H path d of
        (False, d) \<Rightarrow> (Inr [], d)
      | (True, d) \<Rightarrow>
          (case open_declared H config path extra d of
             (Inl e, d) \<Rightarrow> (Inl (EncFileErr e), d)
           | (Inr None, d) \<Rightarrow> (Inr [], d)
           | (Inr (Some body), d) \<Rightarrow>
               (case parse_env_text path home body of Inl e \<Rightarrow> Inl (EnvFileErr e) | Inr values \<Rightarrow> Inr values, d)))"

definition load_global_env ::
  "host_secrets \<Rightarrow> pm3_config \<Rightarrow> string \<Rightarrow> string option \<Rightarrow> disk \<Rightarrow> (apps_file_error + env_value list) \<times> disk" where
  "load_global_env H config config_root home d =
     (let stem = path_join config_root GLOBAL_ENV_STEM in
      case plain_values H stem home d of
        (Inl e, d) \<Rightarrow> (Inl e, d)
      | (Inr values, d) \<Rightarrow>
          let plain = scoped values Global in
          (case open_secrets H config stem home (decryptor_env plain) d of
             (Inl e, d) \<Rightarrow> (Inl e, d)
           | (Inr secrets, d) \<Rightarrow> (Inr (merge_environment [plain, scoped secrets Global]), d)))"

subsection \<open>The environment of a service\<close>

record spec_source =
  ss_cfg_dir :: string
  ss_config :: pm3_config
  ss_home_dir :: string
  ss_apps_dir :: string
  ss_state_dir :: string
  ss_runtime_dir :: string
  ss_data_dir :: string
  ss_host_home :: "string option"
  ss_logs_dir :: string
  ss_tmp_dir :: "string option"
  ss_global_env :: "env_value list"
  ss_decryptor_env :: "(string \<times> string) list"

definition source_roots :: "spec_source \<Rightarrow> spec_roots" where
  "source_roots S =
     \<lparr>sr_home_dir = ss_home_dir S, sr_cfg_dir = ss_cfg_dir S, sr_apps_dir = ss_apps_dir S,
      sr_state_dir = ss_state_dir S, sr_runtime_dir = ss_runtime_dir S, sr_data_dir = ss_data_dir S,
      sr_logs_dir = ss_logs_dir S, sr_tmp_dir = ss_tmp_dir S\<rparr>"

definition source_defaults :: "spec_source \<Rightarrow> apps_file_error + spec_defaults" where
  "source_defaults S = from_config (ss_config S) (source_roots S)"

definition source_service :: "spec_source \<Rightarrow> string \<Rightarrow> spec_error + string" where
  "source_service S name = service_file_of (ss_cfg_dir S) name"

definition injected_home :: "string option \<Rightarrow> env_value list" where
  "injected_home home = (case home of None \<Rightarrow> [] | Some val \<Rightarrow> [env_injected ''HOME'' val])"

definition app_values :: "(string \<times> string) list \<Rightarrow> env_value list" where
  "app_values declared = scoped declared App"

datatype secrets = Opened string string | SealedSecrets | AbsentSecrets

definition plain_environment ::
  "host_secrets \<Rightarrow> spec_source \<Rightarrow> string \<Rightarrow> disk \<Rightarrow> (apps_file_error + env_value list) \<times> disk" where
  "plain_environment H S service d =
     (case load_env_file (hs_files H) (with_extension service ENV_FILE_SUFFIX) (ss_host_home S) d of
        (Inl e, d) \<Rightarrow> (Inl (EnvFileErr e), d)
      | (Inr declared, d) \<Rightarrow> (Inr (app_values declared), d))"

definition decrypt_environment ::
  "host_secrets \<Rightarrow> spec_source \<Rightarrow> string \<Rightarrow> disk \<Rightarrow> (apps_file_error + secrets) \<times> disk" where
  "decrypt_environment H S service d =
     (let path = with_extension service ENC_FILE_SUFFIX in
      case enc_file_present H path d of
        (Inl e, d) \<Rightarrow> (Inl (EncFileErr e), d)
      | (Inr False, d) \<Rightarrow> (Inr AbsentSecrets, d)
      | (Inr True, d) \<Rightarrow>
          (case open_declared H (ss_config S) path (ss_decryptor_env S) d of
             (Inl e, d) \<Rightarrow> (Inl (EncFileErr e), d)
           | (Inr None, d) \<Rightarrow> (Inr SealedSecrets, d)
           | (Inr (Some body), d) \<Rightarrow> (Inr (Opened path body), d)))"

definition declared_environment ::
  "spec_source \<Rightarrow> env_value list \<Rightarrow> secrets \<Rightarrow> apps_file_error + (env_origin \<times> env_value list)" where
  "declared_environment S plain found =
     (case found of
        Opened path body \<Rightarrow>
          (case parse_env_text path (ss_host_home S) body of
             Inl e \<Rightarrow> Inl (EnvFileErr e)
           | Inr values \<Rightarrow> Inr (Encrypted, merge_environment [plain, app_values values]))
      | SealedSecrets \<Rightarrow> Inr (Sealed, plain)
      | AbsentSecrets \<Rightarrow> Inr (Plain, plain))"

definition resolve_environment ::
  "host_secrets \<Rightarrow> spec_source \<Rightarrow> string \<Rightarrow> disk \<Rightarrow> (apps_file_error + (env_origin \<times> env_value list)) \<times> disk" where
  "resolve_environment H S service d =
     (case plain_environment H S service d of
        (Inl e, d) \<Rightarrow> (Inl e, d)
      | (Inr plain, d) \<Rightarrow>
          (case decrypt_environment H S service d of
             (Inl e, d) \<Rightarrow> (Inl e, d)
           | (Inr found, d) \<Rightarrow>
               (map_sum id
                  (\<lambda>(origin, declared). (origin,
                     merge_environment [injected_home (ss_host_home S), ss_global_env S, declared]))
                  (declared_environment S plain found), d)))"

subsection \<open>The workspace\<close>

definition real_path :: "host_files \<Rightarrow> string \<Rightarrow> disk \<Rightarrow> string \<times> disk" where
  "real_path E path d =
     (case hf_canonical E d path of None \<Rightarrow> path | Some resolved \<Rightarrow> resolved, tick d)"

definition ensure_directory :: "host_files \<Rightarrow> string \<Rightarrow> disk \<Rightarrow> disk" where
  "ensure_directory E path d = snd (create_dir_all E path d)"

type_synonym resolved_paths = "(string \<times> string) list"

definition resolve_cached ::
  "host_files \<Rightarrow> string \<Rightarrow> resolved_paths \<Rightarrow> disk \<Rightarrow> string \<times> resolved_paths \<times> disk" where
  "resolve_cached E path resolved d =
     (case map_of resolved path of
        Some known \<Rightarrow> (known, resolved, d)
      | None \<Rightarrow> (case real_path E path d of (real, d) \<Rightarrow> (real, btree_insert path real resolved, d)))"

fun resolve_all ::
  "host_files \<Rightarrow> string list \<Rightarrow> resolved_paths \<Rightarrow> disk \<Rightarrow> string list \<times> resolved_paths \<times> disk" where
  "resolve_all E [] resolved d = ([], resolved, d)"
| "resolve_all E (root # roots) resolved d =
     (case resolve_cached E root resolved d of (real, resolved, d) \<Rightarrow>
      case resolve_all E roots resolved d of (reals, rest) \<Rightarrow> (real # reals, rest))"

definition derive :: "string list \<Rightarrow> string \<Rightarrow> string \<Rightarrow> string list" where
  "derive derived root real =
     (if real \<noteq> root \<and> \<not> List.member derived real then derived @ [real] else derived)"

fun derive_writable ::
  "host_files \<Rightarrow> string list \<Rightarrow> string list \<Rightarrow> string list \<Rightarrow> resolved_paths \<Rightarrow> disk \<Rightarrow>
   (policy_error + string list) \<times> resolved_paths \<times> disk" where
  "derive_writable E forbidden [] derived resolved d = (Inr derived, resolved, d)"
| "derive_writable E forbidden (root # roots) derived resolved d =
     (case resolve_cached E root resolved (ensure_directory E root d) of (real, resolved, d) \<Rightarrow>
      if root_is_forbidden forbidden real then (Inl (ForbiddenWritableRoot root), resolved, d)
      else derive_writable E forbidden roots (derive derived root real) resolved d)"

fun derive_readable ::
  "host_files \<Rightarrow> string list \<Rightarrow> string list \<Rightarrow> resolved_paths \<Rightarrow> disk \<Rightarrow>
   string list \<times> resolved_paths \<times> disk" where
  "derive_readable E [] derived resolved d = (derived, resolved, d)"
| "derive_readable E (root # roots) derived resolved d =
     (case resolve_cached E root resolved d of (real, resolved, d) \<Rightarrow>
      derive_readable E roots (derive derived root real) resolved d)"

definition materialise_workspace ::
  "host_files \<Rightarrow> app_spec \<Rightarrow> string list \<Rightarrow> disk \<Rightarrow> (policy_error + app_spec) \<times> disk" where
  "materialise_workspace E spec forbidden d =
     (let declared_cwd = cwd spec; policy = sandbox spec in
      case real_path E declared_cwd (ensure_directory E declared_cwd d) of (dir, d) \<Rightarrow>
      case resolve_all E (derived_roots policy) [(declared_cwd, dir)] d of (derived, resolved, d) \<Rightarrow>
      case derive_writable E forbidden (writable_roots policy) derived resolved d of
        (Inl e, resolved, d) \<Rightarrow> (Inl e, d)
      | (Inr derived, resolved, d) \<Rightarrow>
      (case derive_readable E (readable_roots policy @ [script spec]) (derived_readable_roots policy)
              resolved d of (readable, resolved, d) \<Rightarrow>
       case resolve_all E (unreadable_roots policy) resolved d of (unreadable, resolved, d) \<Rightarrow>
       let policy = policy\<lparr>derived_roots := derived, derived_readable_roots := readable,
             unreadable_roots := unreadable\<rparr> in
       (case validate_policy policy of
          Inl e \<Rightarrow> Inl e
        | Inr _ \<Rightarrow>
            Inr (spec\<lparr>cwd := dir, args := map (\<lambda>arg. expand_service_cwd arg dir) (args spec),
              sandbox := policy\<rparr>), d)))"

subsection \<open>The resolver\<close>

definition resolve_service ::
  "host_secrets \<Rightarrow> spec_source \<Rightarrow> string \<Rightarrow> disk \<Rightarrow> (apps_file_error + app_spec) \<times> disk" where
  "resolve_service H S name d =
     (case source_service S name of
        Inl e \<Rightarrow> (Inl (AppsSpecErr e), d)
      | Inr path \<Rightarrow>
     (case load_service_file (host_specs.truncate H) path d of
        (Inl e, d) \<Rightarrow> (Inl e, d)
      | (Inr entry, d) \<Rightarrow>
          if ae_name entry \<noteq> name then (Inl (MissingApp name), d)
          else
     (case source_defaults S of
        Inl e \<Rightarrow> (Inl e, d)
      | Inr defaults \<Rightarrow>
     (case resolve_checked (host_specs.truncate H) defaults entry d of
        Inl e \<Rightarrow> (Inl e, d)
      | Inr spec \<Rightarrow>
     (case resolve_environment H S path d of
        (Inl e, d) \<Rightarrow> (Inl e, d)
      | (Inr (origin, values), d) \<Rightarrow>
     (case materialise_workspace (hs_files H) (spec\<lparr>env := values, env_origin := origin\<rparr>)
             (sc_forbidden_writable_roots (pm3_sandbox (ss_config S))) d of
        (Inl source, d) \<Rightarrow> (Inl (AppsSpecErr (SandboxRefused name source)), d)
      | (Inr spec, d) \<Rightarrow> (Inr spec, d)))))))"

definition resolve_failure :: "string \<Rightarrow> apps_file_error \<Rightarrow> spec_resolve_error" where
  "resolve_failure name error =
     (let reason = apps_file_error_text error in
      if (case error of MissingApp x \<Rightarrow> True | AppsIo path source \<Rightarrow> True | _ \<Rightarrow> False)
      then Missing name reason else Unusable name reason)"

definition source_prepare ::
  "host_secrets \<Rightarrow> spec_source \<Rightarrow> string \<Rightarrow> disk \<Rightarrow> (spec_resolve_error + app_spec) \<times> disk" where
  "source_prepare H S name d =
     (case resolve_service H S name d of
        (Inl error, d) \<Rightarrow> (Inl (resolve_failure name error), d)
      | (Inr spec, d) \<Rightarrow> (Inr spec, d))"

subsection \<open>The files of a service lie side by side\<close>

lemma file_name_at_join:
  assumes "CHR ''/'' \<notin> set leaf" and "leaf \<noteq> []"
  shows "\<exists>dir. file_name_at (path_join base leaf) = (dir, leaf) \<and>
    (\<forall>other. CHR ''/'' \<notin> set other \<longrightarrow> path_join base other = dir @ other)"
proof -
  define dir where "dir = (if base = [] \<or> last base = CHR ''/'' then base else base @ ''/'')"
  have joined: "path_join base other = dir @ other" if "CHR ''/'' \<notin> set other" for other
    using that by (cases other) (auto simp: path_join_def dir_def starts_with_def)
  have edge: "rev dir = [] \<or> (\<exists>r. rev dir = CHR ''/'' # r)"
    by (cases "rev dir") (auto simp: dir_def hd_rev[symmetric] split: if_splits)
  have none: "c \<noteq> CHR ''/''" if "c \<in> set (rev leaf)" for c using that assms(1) by auto
  have "takeWhile (\<lambda>c. c \<noteq> CHR ''/'') (rev leaf @ rev dir) = rev leaf"
      "dropWhile (\<lambda>c. c \<noteq> CHR ''/'') (rev leaf @ rev dir) = rev dir"
    using edge takeWhile_append2[of "rev leaf" "\<lambda>c. c \<noteq> CHR ''/''" "rev dir", OF none]
      dropWhile_append2[of "rev leaf" "\<lambda>c. c \<noteq> CHR ''/''" "rev dir", OF none] by auto
  then have "file_name_at (dir @ leaf) = (dir, leaf)" by (simp add: file_name_at_def)
  with joined assms(1) show ?thesis by (intro exI[of _ dir]) simp
qed

lemma rsplit_once_at: "c \<notin> set b \<Longrightarrow> rsplit_once c (a @ c # b) = Some (a, b)"
proof -
  assume c: "c \<notin> set b"
  have none: "x \<noteq> c" if "x \<in> set (rev b)" for x using that c by auto
  have "takeWhile (\<lambda>x. x \<noteq> c) (rev b @ c # rev a) = rev b"
      "dropWhile (\<lambda>x. x \<noteq> c) (rev b @ c # rev a) = c # rev a"
    using takeWhile_append2[of "rev b" "\<lambda>x. x \<noteq> c" "c # rev a", OF none]
      dropWhile_append2[of "rev b" "\<lambda>x. x \<noteq> c" "c # rev a", OF none] by simp_all
  then show ?thesis by (simp add: rsplit_once_def)
qed

lemma sidecar_of_service:
  assumes "service_file_of cfg_dir name = Inr path"
  shows "validate_app_name name = Inr ()"
    and "path = path_join cfg_dir (name @ ''.yaml'')"
    and "CHR ''/'' \<notin> set ending \<Longrightarrow> named_file cfg_dir name ending = Inr (with_extension path ending)"
proof -
  show name: "validate_app_name name = Inr ()" and path: "path = path_join cfg_dir (name @ ''.yaml'')"
    using assms by (auto simp: service_file_of_def named_file_def SERVICE_FILE_SUFFIX_def split: sum.splits)
  assume ending: "CHR ''/'' \<notin> set ending"
  have safe: "name \<noteq> []" "CHR ''/'' \<notin> set name"
    using validated_name_safe[OF name] by (auto simp: safe_file_name_def)
  then have leaf: "CHR ''/'' \<notin> set (name @ ''.yaml'')" by simp
  obtain dir where dir: "file_name_at path = (dir, name @ ''.yaml'')"
      "\<forall>other. CHR ''/'' \<notin> set other \<longrightarrow> path_join cfg_dir other = dir @ other"
    using file_name_at_join[OF leaf, of cfg_dir] unfolding path by auto
  have "rsplit_once CHR ''.'' (name @ CHR ''.'' # ''yaml'') = Some (name, ''yaml'')"
    by (rule rsplit_once_at) simp
  then have "with_extension path ending = dir @ name @ ''.'' @ ending"
    using safe by (simp add: with_extension_def dir(1))
  moreover have "path_join cfg_dir (name @ ''.'' @ ending) = dir @ name @ ''.'' @ ending"
    using dir(2) safe ending by simp
  ultimately show "named_file cfg_dir name ending = Inr (with_extension path ending)"
    using name by (simp add: named_file_def)
qed

subsection \<open>A resolved declaration\<close>

lemma merge_keys: "e \<in> set (merge_environment layers) \<Longrightarrow> ev_key e \<in> ev_key ` set (concat layers)"
proof -
  assume e: "e \<in> set (merge_environment layers)"
  have dom: "dom (by_key es) = ev_key ` set es" for es
    by (simp add: by_key_def dom_map_of_conv_image_fst image_image)
  have "ev_key e \<in> dom (by_key (merge_environment layers))" using e by (simp add: dom)
  also have "\<dots> = dom (by_key (rev (concat layers)))" using merge_environment_spec[of layers] by simp
  finally show ?thesis by (simp add: dom)
qed

lemma env_key_not_blank: "is_env_key key \<Longrightarrow> \<not> is_blank key"
  using env_key_shape[of key] trim_key[of key] by (simp add: is_blank_def)

lemma home_not_blank: "\<not> is_blank ''HOME''"
  by code_simp

lemma app_values_keys:
  "list_all is_env_key (map fst pairs) \<Longrightarrow> \<forall>e\<in>set (app_values pairs). \<not> is_blank (ev_key e)"
  using env_key_not_blank
  by (auto simp: app_values_def scoped_def env_value_new_def list_all_iff)

lemma load_env_file_keys:
  "load_env_file E path home d = (Inr pairs, d') \<Longrightarrow> list_all is_env_key (map fst pairs)"
  using parse_pairs_sorted
  by (auto simp: load_env_file_def parse_env_file_def split: prod.splits sum.splits option.splits)

lemma resolve_environment_keys:
  assumes "resolve_environment H S service d = (Inr (origin, vals), d')"
    and "\<forall>e\<in>set (ss_global_env S). \<not> is_blank (ev_key e)"
  shows "\<forall>e\<in>set vals. \<not> is_blank (ev_key e)"
proof -
  obtain plain d1 where plain: "plain_environment H S service d = (Inr plain, d1)"
    using assms(1) by (auto simp: resolve_environment_def split: prod.splits sum.splits)
  obtain found d2 where found: "decrypt_environment H S service d1 = (Inr found, d2)"
    using assms(1) plain by (auto simp: resolve_environment_def split: prod.splits sum.splits)
  obtain declared where declared: "declared_environment S plain found = Inr (origin, declared)"
      "vals = merge_environment [injected_home (ss_host_home S), ss_global_env S, declared]"
    using assms(1) plain found
    by (cases "declared_environment S plain found") (auto simp: resolve_environment_def)
  have plain_keys: "\<forall>e\<in>set plain. \<not> is_blank (ev_key e)"
    using plain app_values_keys load_env_file_keys
    by (fastforce simp: plain_environment_def split: prod.splits sum.splits)
  have "\<forall>e\<in>set declared. \<not> is_blank (ev_key e)"
  proof (cases found)
    case (Opened path body)
    then obtain pairs where pairs: "parse_env_text path (ss_host_home S) body = Inr pairs"
        "declared = merge_environment [plain, app_values pairs]"
      using declared(1) by (auto simp: declared_environment_def split: sum.splits)
    then have "\<forall>e\<in>set (app_values pairs). \<not> is_blank (ev_key e)"
      unfolding parse_env_text_def by (intro app_values_keys parse_pairs_sorted[THEN conjunct2])
    with plain_keys show ?thesis unfolding pairs(2) by (auto dest!: merge_keys)
  qed (use declared(1) plain_keys in \<open>auto simp: declared_environment_def\<close>)
  moreover have "\<forall>e\<in>set (injected_home (ss_host_home S)). \<not> is_blank (ev_key e)"
    using home_not_blank by (auto simp: injected_home_def env_injected_def env_value_new_def split: option.splits)
  ultimately show ?thesis
    using assms(2) unfolding declared(2) by (auto dest!: merge_keys)
qed

lemma materialise_workspace_ok:
  assumes "materialise_workspace E spec forbidden d = (Inr spec', d')"
  obtains dir derived readable unreadable where
    "spec' = spec\<lparr>cwd := dir, args := map (\<lambda>arg. expand_service_cwd arg dir) (args spec),
       sandbox := (sandbox spec)\<lparr>derived_roots := derived, derived_readable_roots := readable,
         unreadable_roots := unreadable\<rparr>\<rparr>"
    "validate_policy (sandbox spec') = Inr ()"
    "dir = cwd spec \<or> (\<exists>d. hf_canonical E d (cwd spec) = Some dir)"
proof -
  obtain dir d1 where dir: "real_path E (cwd spec) (ensure_directory E (cwd spec) d) = (dir, d1)"
    by fastforce
  obtain derived resolved d2 where derived:
      "resolve_all E (derived_roots (sandbox spec)) [(cwd spec, dir)] d1 = (derived, resolved, d2)"
    using prod_cases3 by blast
  note step = assms[unfolded materialise_workspace_def Let_def dir prod.case derived]
  obtain derived' resolved' d3 where writable:
      "derive_writable E forbidden (writable_roots (sandbox spec)) derived resolved d2 =
        (Inr derived', resolved', d3)"
    using step by (auto split: prod.splits sum.splits)
  obtain readable resolved2 d4 where readable:
      "derive_readable E (readable_roots (sandbox spec) @ [script spec])
        (derived_readable_roots (sandbox spec)) resolved' d3 = (readable, resolved2, d4)"
    using prod_cases3 by blast
  obtain unreadable resolved3 d5 where unreadable:
      "resolve_all E (unreadable_roots (sandbox spec)) resolved2 d4 = (unreadable, resolved3, d5)"
    using prod_cases3 by blast
  note final = step[unfolded writable prod.case sum.case readable unreadable]
  have "dir = cwd spec \<or> (\<exists>d. hf_canonical E d (cwd spec) = Some dir)"
    using dir by (auto simp: real_path_def split: option.splits)
  with final show thesis
    by (intro that[where dir = dir and derived = derived' and readable = readable and unreadable = unreadable]) (auto split: sum.splits)
qed

lemma service_source_ok:
  assumes "resolve_service H S name d = (Inr spec, d')"
  obtains path entry defaults checked origin vals d1 d2 where
    "source_service S name = Inr path" "ae_name entry = name" "source_defaults S = Inr defaults"
    "resolve_checked (host_specs.truncate H) defaults entry d1 = Inr checked"
    "resolve_environment H S path d1 = (Inr (origin, vals), d2)"
    "materialise_workspace (hs_files H) (checked\<lparr>env := vals, env_origin := origin\<rparr>)
       (sc_forbidden_writable_roots (pm3_sandbox (ss_config S))) d2 = (Inr spec, d')"
proof -
  obtain path where path: "source_service S name = Inr path"
    using assms by (auto simp: resolve_service_def split: sum.splits)
  note step = assms[unfolded resolve_service_def path sum.case]
  obtain entry d1 where entry: "load_service_file (host_specs.truncate H) path d = (Inr entry, d1)"
    using step by (auto split: prod.splits sum.splits)
  note step = step[unfolded entry prod.case sum.case]
  have name: "ae_name entry = name" using step by (auto split: if_splits)
  obtain defaults where defaults: "source_defaults S = Inr defaults"
    using step name by (auto split: sum.splits)
  note step = step[unfolded name defaults sum.case]
  obtain checked where checked: "resolve_checked (host_specs.truncate H) defaults entry d1 = Inr checked"
    using step by (auto split: sum.splits)
  note step = step[unfolded checked sum.case]
  obtain origin vals d2 where environment: "resolve_environment H S path d1 = (Inr (origin, vals), d2)"
    using step by (auto split: prod.splits sum.splits)
  note step = step[unfolded environment prod.case sum.case]
  have "materialise_workspace (hs_files H) (checked\<lparr>env := vals, env_origin := origin\<rparr>)
       (sc_forbidden_writable_roots (pm3_sandbox (ss_config S))) d2 = (Inr spec, d')"
    using step by (auto split: prod.splits sum.splits)
  with path name defaults checked environment show thesis by (rule that)
qed

lemma resolve_service_valid:
  assumes "resolve_service H S name d = (Inr spec, d')"
    and "\<forall>d p r. hf_canonical (hs_files H) d p = Some r \<longrightarrow> is_absolute_path r"
    and "\<forall>e\<in>set (ss_global_env S). \<not> is_blank (ev_key e)"
  shows "app_name spec = name \<and> validate_spec spec = Inr () \<and>
    list_all (\<lambda>root. \<not> root_is_forbidden (sc_forbidden_writable_roots (pm3_sandbox (ss_config S))) root)
      (writable_roots (sandbox spec))"
proof (rule service_source_ok[OF assms(1)])
  fix path entry defaults checked origin vals d1 d2
  assume source: "ae_name entry = name" "source_defaults S = Inr defaults"
    "resolve_checked (host_specs.truncate H) defaults entry d1 = Inr checked"
    "resolve_environment H S path d1 = (Inr (origin, vals), d2)"
    and workspace: "materialise_workspace (hs_files H) (checked\<lparr>env := vals, env_origin := origin\<rparr>)
       (sc_forbidden_writable_roots (pm3_sandbox (ss_config S))) d2 = (Inr spec, d')"
  note checked = resolve_checked_ok[OF source(3)]
  have name: "app_name checked = name" using resolve_entry_fields(1)[OF checked(1)] source(1) by simp
  have keys: "\<forall>e\<in>set vals. \<not> is_blank (ev_key e)"
    using resolve_environment_keys[OF source(4) assms(3)] .
  have forbidden: "sd_forbidden_writable_roots defaults = sc_forbidden_writable_roots (pm3_sandbox (ss_config S))"
    using source(2) by (auto simp: source_defaults_def from_config_def split: sum.splits)
  let ?declared = "checked\<lparr>env := vals, env_origin := origin\<rparr>"
  obtain dir derived readable unreadable where spec:
      "spec = ?declared\<lparr>cwd := dir, args := map (\<lambda>arg. expand_service_cwd arg dir) (args ?declared),
         sandbox := (sandbox ?declared)\<lparr>derived_roots := derived, derived_readable_roots := readable,
           unreadable_roots := unreadable\<rparr>\<rparr>"
      "validate_policy (sandbox spec) = Inr ()"
      "dir = cwd ?declared \<or> (\<exists>d. hf_canonical (hs_files H) d (cwd ?declared) = Some dir)"
    by (rule materialise_workspace_ok[OF workspace])
  have dir: "is_absolute_path dir"
    using spec(3) assms(2) checked(2) by (auto simp: validate_spec_ok)
  have "validate_spec spec = Inr ()"
    using checked(2) dir keys spec(2) by (simp add: validate_spec_ok spec(1))
  with checked(3) show ?thesis by (simp add: spec(1) name forbidden)
qed

lemma resolve_service_name:
  assumes "resolve_service H S name d = (Inr spec, d')"
  shows "app_name spec = name"
proof (rule service_source_ok[OF assms])
  fix path entry defaults checked origin vals d1 d2
  assume "ae_name entry = name"
    "resolve_checked (host_specs.truncate H) defaults entry d1 = Inr checked"
    "materialise_workspace (hs_files H) (checked\<lparr>env := vals, env_origin := origin\<rparr>)
       (sc_forbidden_writable_roots (pm3_sandbox (ss_config S))) d2 = (Inr spec, d')"
  then show ?thesis
    by (elim materialise_workspace_ok) (simp add: resolve_entry_fields(1)[OF resolve_checked_ok(1)])
qed

text \<open>Whatever the disk looks like when a declaration is asked for, the resolver names it as asked.\<close>

lemma source_resolver_ok: "resolver_ok (\<lambda>h name. fst (source_prepare H S name (disk_at h)))"
proof -
  have "app_name spec = name" if asked: "fst (source_prepare H S name d) = Inr spec" for name d spec
  proof -
    obtain d' where "resolve_service H S name d = (Inr spec, d')"
      using asked by (cases "resolve_service H S name d") (auto simp: source_prepare_def split: sum.splits)
    then show ?thesis by (rule resolve_service_name)
  qed
  then show ?thesis by (auto simp: resolver_ok_def)
qed

subsection \<open>Resolving a service writes no file\<close>

lemma opened_files:
  "dk_files (snd (enc_file_present H path d)) = dk_files d"
  "dk_files (snd (open_declared H config path extra d)) = dk_files d"
  by (auto simp: enc_file_present_def stat_file_def open_declared_def load_enc_file_def tick_def Let_def
      split: command_outcome.split sum.split option.split)

lemma open_secrets_files: "dk_files (snd (open_secrets H config stem home extra d)) = dk_files d"
proof -
  have present: "dk_files (snd (sidecar_present H path d)) = dk_files d" for path d
    using opened_files(1)[of H path d] by (auto simp: sidecar_present_def split: prod.split sum.split)
  show ?thesis
    using present[of "with_extension stem ENC_FILE_SUFFIX" d]
      opened_files(2)[of H config "with_extension stem ENC_FILE_SUFFIX" extra]
    by (auto simp: open_secrets_def Let_def split: prod.splits sum.splits option.splits bool.splits) (metis snd_conv)+
qed

lemma resolve_environment_files: "dk_files (snd (resolve_environment H S service d)) = dk_files d"
proof -
  have plain: "dk_files (snd (plain_environment H S service d)) = dk_files d" for d
    using load_env_file_files[of "hs_files H" "with_extension service ENV_FILE_SUFFIX" "ss_host_home S" d]
    by (auto simp: plain_environment_def split: prod.split sum.split)
  have secret: "dk_files (snd (decrypt_environment H S service d)) = dk_files d" for d
    using opened_files(1)[of H "with_extension service ENC_FILE_SUFFIX" d]
      opened_files(2)[of H "ss_config S" "with_extension service ENC_FILE_SUFFIX" "ss_decryptor_env S"]
    by (auto simp: decrypt_environment_def Let_def split: prod.splits sum.splits option.splits bool.splits) (metis snd_conv)+
  show ?thesis
    using plain[of d] secret
    by (auto simp: resolve_environment_def split: prod.splits sum.splits) (metis snd_conv)+
qed

lemma resolve_cached_files: "dk_files (snd (snd (resolve_cached E path resolved d))) = dk_files d"
  by (simp add: resolve_cached_def real_path_def split: option.split)

lemma resolve_all_files: "dk_files (snd (snd (resolve_all E roots resolved d))) = dk_files d"
proof (induction roots arbitrary: resolved d)
  case (Cons root roots)
  then show ?case
    using resolve_cached_files[of E root resolved d] by (auto split: prod.splits) (metis snd_conv)
qed simp

lemma derive_readable_files: "dk_files (snd (snd (derive_readable E roots derived resolved d))) = dk_files d"
proof (induction roots arbitrary: derived resolved d)
  case (Cons root roots)
  then show ?case using resolve_cached_files[of E root resolved d] by (auto split: prod.splits)
qed simp

lemma derive_writable_files: "dk_files (snd (snd (derive_writable E forbidden roots derived resolved d))) = dk_files d"
proof (induction roots arbitrary: derived resolved d)
  case (Cons root roots)
  then show ?case
    using resolve_cached_files[of E root resolved "ensure_directory E root d"]
    by (auto simp: ensure_directory_def split: prod.splits)
qed simp

lemma materialise_workspace_files: "dk_files (snd (materialise_workspace E spec forbidden d)) = dk_files d"
proof -
  let ?p = "sandbox spec"
  obtain dir d1 where one: "real_path E (cwd spec) (ensure_directory E (cwd spec) d) = (dir, d1)" by fastforce
  obtain derived m2 d2 where two: "resolve_all E (derived_roots ?p) [(cwd spec, dir)] d1 = (derived, m2, d2)"
    by (metis prod_cases3)
  obtain w m3 d3 where three: "derive_writable E forbidden (writable_roots ?p) derived m2 d2 = (w, m3, d3)"
    by (metis prod_cases3)
  obtain readable m4 d4 where four: "derive_readable E (readable_roots ?p @ [script spec]) (derived_readable_roots ?p) m3 d3 =
      (readable, m4, d4)"
    by (metis prod_cases3)
  obtain hidden m5 d5 where five: "resolve_all E (unreadable_roots ?p) m4 d4 = (hidden, m5, d5)" by (metis prod_cases3)
  have "dk_files d1 = dk_files d" using one by (auto simp: real_path_def ensure_directory_def)
  moreover have "dk_files d2 = dk_files d1" using resolve_all_files two by (metis snd_conv)
  moreover have "dk_files d3 = dk_files d2" using derive_writable_files three by (metis snd_conv)
  moreover have "dk_files d4 = dk_files d3" using derive_readable_files four by (metis snd_conv)
  moreover have "dk_files d5 = dk_files d4" using resolve_all_files five by (metis snd_conv)
  ultimately show ?thesis
    by (simp add: materialise_workspace_def Let_def one two three four five split: sum.split)
qed

lemma resolve_service_files: "dk_files (snd (resolve_service H S name d)) = dk_files d"
proof (cases "source_service S name")
  case (Inr path)
  obtain r1 d1 where one: "load_service_file (host_specs.truncate H) path d = (r1, d1)" by fastforce
  have d1: "dk_files d1 = dk_files d"
    using one
    by (auto simp: load_service_file_def read_substituted_def split: prod.splits sum.splits)
      (metis reads_keep_files(1) snd_conv)+
  obtain r2 d2 where two: "resolve_environment H S path d1 = (r2, d2)" by fastforce
  have d2: "dk_files d2 = dk_files d1" using resolve_environment_files two by (metis snd_conv)
  have "dk_files (snd (materialise_workspace E spec forbidden d2)) = dk_files d1" for E spec forbidden
    using materialise_workspace_files d2 by metis
  then show ?thesis
    by (auto simp: resolve_service_def Inr one two d1 d2 split: sum.split prod.split) (metis snd_conv)+
qed (simp add: resolve_service_def)

end
