(* ===== verification/Service_Store.thy ===== *)
theory Service_Store
  imports Spec_Source
begin

text \<open>
  Writing service files (\<open>adapters/src/service/store.rs\<close>, \<open>prepare.rs\<close>): a file that differs is
  overwritten only by force, what a request has written is remembered for the case that the start is
  refused, and a file of several apps is split into one service file each.
\<close>

subsection \<open>Errors and the memory of what was written\<close>

datatype service_error =
    SvcProgramNotFound string
  | SvcRead string string
  | SvcWrite string string
  | SvcConflict string string
  | SvcApps apps_file_error
  | SvcSpec spec_error

primrec service_error_text :: "service_error \<Rightarrow> string" where
  "service_error_text (SvcProgramNotFound program) =
     ''cannot find '' @ quoted program @ '' on PATH''"
| "service_error_text (SvcRead path reason) =
     ''cannot read the service file '' @ quoted path @ '': '' @ reason"
| "service_error_text (SvcWrite path reason) =
     ''cannot write the service file '' @ quoted path @ '': '' @ reason"
| "service_error_text (SvcConflict path diff) =
     ''cannot overwrite '' @ quoted path @ '' without --force:'' @ [CHR 0x0A] @ diff"
| "service_error_text (SvcApps x) =
     apps_file_error_text x"
| "service_error_text (SvcSpec x) =
     spec_error_text x"


datatype reconciled = Unchanged | Stale

datatype restore_step = RemoveFile | ReplaceWith string

record undo_step =
  us_service :: string
  us_path :: string
  us_restore :: restore_step

type_synonym service_undo = "undo_step list"

definition remember :: "string \<Rightarrow> string \<Rightarrow> string option \<Rightarrow> service_undo \<Rightarrow> service_undo" where
  "remember service path previous undo =
     undo @ [\<lparr>us_service = service, us_path = path,
        us_restore = (case previous of None \<Rightarrow> RemoveFile | Some text \<Rightarrow> ReplaceWith text)\<rparr>]"

definition undo_apply :: "host_files \<Rightarrow> undo_step \<Rightarrow> disk \<Rightarrow> disk" where
  "undo_apply E step d =
     (case us_restore step of
        RemoveFile \<Rightarrow> snd (remove_file E (us_path step) d)
      | ReplaceWith previous \<Rightarrow> snd (write_private E (us_path step) previous d))"

definition undo_run :: "host_files \<Rightarrow> service_undo \<Rightarrow> disk \<Rightarrow> disk" where
  "undo_run E undo d = foldl (\<lambda>d step. undo_apply E step d) d undo"

definition undo_run_for :: "host_files \<Rightarrow> string list \<Rightarrow> service_undo \<Rightarrow> disk \<Rightarrow> disk" where
  "undo_run_for E services undo d =
     foldl (\<lambda>d step. if List.member services (us_service step) then undo_apply E step d else d) d undo"

definition remove_quietly :: "host_files \<Rightarrow> string \<Rightarrow> disk \<Rightarrow> disk" where
  "remove_quietly E path d = snd (remove_if_present E path d)"

definition forget_service :: "host_files \<Rightarrow> string \<Rightarrow> string \<Rightarrow> disk \<Rightarrow> disk" where
  "forget_service E cfg_dir name d =
     (case (service_file_of cfg_dir name, env_file_of cfg_dir name, enc_file_of cfg_dir name) of
        (Inr declaration, Inr plain, Inr encrypted) \<Rightarrow>
          remove_quietly E encrypted (remove_quietly E plain (remove_quietly E declaration d))
      | _ \<Rightarrow> d)"

subsection \<open>Reconciling and writing\<close>

definition reconcile_contents :: "string \<Rightarrow> string option \<Rightarrow> string \<Rightarrow> bool \<Rightarrow> service_error + reconciled" where
  "reconcile_contents path existing contents force =
     (case existing of
        None \<Rightarrow> Inr Stale
      | Some existing \<Rightarrow>
          if existing = contents then Inr Unchanged
          else if force then Inr Stale
          else Inl (SvcConflict path (join [CHR 0x0A] (diff_lines existing contents))))"

definition read_existing :: "host_files \<Rightarrow> string \<Rightarrow> disk \<Rightarrow> (service_error + string option) \<times> disk" where
  "read_existing E path d =
     (case read_optional E path d of
        (Inl error, d) \<Rightarrow> (Inl (SvcRead path (io_error_text error)), d)
      | (Inr existing, d) \<Rightarrow> (Inr existing, d))"

definition reconcile ::
  "host_files \<Rightarrow> string \<Rightarrow> string \<Rightarrow> bool \<Rightarrow> disk \<Rightarrow> (service_error + reconciled) \<times> disk" where
  "reconcile E path contents force d =
     (case read_existing E path d of
        (Inl e, d) \<Rightarrow> (Inl e, d)
      | (Inr existing, d) \<Rightarrow> (reconcile_contents path existing contents force, d))"

definition write_service_file ::
  "host_files \<Rightarrow> string \<Rightarrow> string \<Rightarrow> string \<Rightarrow> bool \<Rightarrow> service_undo \<Rightarrow> disk \<Rightarrow>
   (service_error + reconciled) \<times> service_undo \<times> disk" where
  "write_service_file E service path contents force undo d =
     (case read_existing E path d of
        (Inl e, d) \<Rightarrow> (Inl e, undo, d)
      | (Inr existing, d) \<Rightarrow>
          (case reconcile_contents path existing contents force of
             Inl e \<Rightarrow> (Inl e, undo, d)
           | Inr Unchanged \<Rightarrow> (Inr Unchanged, undo, d)
           | Inr Stale \<Rightarrow>
               (case write_private E path contents d of
                  (Inl error, d) \<Rightarrow> (Inl (SvcWrite path (io_error_text error)), undo, d)
                | (Inr _, d) \<Rightarrow> (Inr Stale, remember service path existing undo, d))))"

subsection \<open>Requests\<close>

record service_context =
  sx_cfg_dir :: string
  sx_search_path :: string
  sx_home :: "string option"

record prepared_service =
  ps_path :: string
  ps_reconciled :: reconciled
  ps_undo :: service_undo

record split_apps =
  sa_names :: "string list"
  sa_changed :: "string list"
  sa_undo :: service_undo

definition prepare_inline ::
  "host_specs \<Rightarrow> service_context \<Rightarrow> inline_start \<Rightarrow> bool \<Rightarrow> disk \<Rightarrow> (service_error + prepared_service) \<times> disk"
where
  "prepare_inline H ctx request force d =
     (if resolve_program H (is_program request) (Some (sx_search_path ctx)) d = None
      then (Inl (SvcProgramNotFound (is_program request)), d)
      else
       let contents = encode_service_file (inline_entry request (sx_home ctx)) in
       (case service_file_of (sx_cfg_dir ctx) (is_name request) of
          Inl e \<Rightarrow> (Inl (SvcSpec e), d)
        | Inr path \<Rightarrow>
            (case write_service_file (hs_files H) (is_name request) path contents force [] d of
               (Inl e, undo, d) \<Rightarrow> (Inl e, d)
             | (Inr r, undo, d) \<Rightarrow> (Inr \<lparr>ps_path = path, ps_reconciled = r, ps_undo = undo\<rparr>, d))))"

fun split_entries ::
  "host_files \<Rightarrow> service_context \<Rightarrow> bool \<Rightarrow> app_entry list \<Rightarrow> split_apps \<Rightarrow> disk \<Rightarrow>
   (service_error + split_apps) \<times> disk" where
  "split_entries E ctx force [] split d = (Inr split, d)"
| "split_entries E ctx force (entry # entries) split d =
     (case service_file_of (sx_cfg_dir ctx) (ae_name entry) of
        Inl e \<Rightarrow> (Inl (SvcSpec e), d)
      | Inr path \<Rightarrow>
          let contents = encode_service_file (fold_entry entry (sx_home ctx));
              named = split\<lparr>sa_names := sa_names split @ [ae_name entry]\<rparr> in
          (case write_service_file E (ae_name entry) path contents force (sa_undo split) d of
             (Inr Stale, undo, d) \<Rightarrow>
               split_entries E ctx force entries
                 (named\<lparr>sa_changed := sa_changed split @ [ae_name entry], sa_undo := undo\<rparr>) d
           | (Inr Unchanged, undo, d) \<Rightarrow>
               split_entries E ctx force entries (named\<lparr>sa_undo := undo\<rparr>) d
           | (Inl error, undo, d) \<Rightarrow> (Inl error, undo_run E undo d)))"

definition split_apps_file ::
  "host_specs \<Rightarrow> service_context \<Rightarrow> string \<Rightarrow> bool \<Rightarrow> disk \<Rightarrow> (service_error + split_apps) \<times> disk" where
  "split_apps_file H ctx apps_file force d =
     (case load_apps_file H apps_file d of
        (Inl e, d) \<Rightarrow> (Inl (SvcApps e), d)
      | (Inr apps, d) \<Rightarrow>
          split_entries (hs_files H) ctx force apps \<lparr>sa_names = [], sa_changed = [], sa_undo = []\<rparr> d)"

subsection \<open>What writing does to the disk\<close>

lemma read_existing_files: "dk_files (snd (read_existing E path d)) = dk_files d"
  using reads_keep_files(3)[of E path d]
  by (cases "read_optional E path d") (simp add: read_existing_def split: sum.splits)

lemma read_existing_ok: "read_existing E path d = (Inr existing, d') \<Longrightarrow> existing = dk_files d path"
  using read_optional_cases[of E path d]
  by (cases "read_optional E path d") (fastforce simp: read_existing_def split: sum.splits)

lemma read_existing_calm: "no_faults E \<Longrightarrow> fst (read_existing E path d) = Inr (dk_files d path)"
  by (simp add: read_existing_def read_optional_def read_to_string_def split: option.splits)

text \<open>Whatever fails, no other file changes, and without force no existing file changes.\<close>

lemma write_service_file_frame:
  assumes "write_service_file E service path contents force undo d = (r, undo', d')"
  shows "q \<noteq> path \<Longrightarrow> dk_files d' q = dk_files d q"
    and "\<not> force \<Longrightarrow> dk_files d path = Some text \<Longrightarrow> dk_files d' path = Some text"
proof -
  obtain e d1 where read: "read_existing E path d = (e, d1)" by (cases "read_existing E path d")
  have files: "dk_files d1 = dk_files d" using read_existing_files[of E path d] read by simp
  have cases: "dk_files d' = dk_files d \<or>
      (\<exists>existing. e = Inr existing \<and> reconcile_contents path existing contents force = Inr Stale \<and>
        d' = snd (write_private E path contents d1))"
    using assms files
    by (auto simp: write_service_file_def read split: sum.splits reconciled.splits prod.splits)
  then show "q \<noteq> path \<Longrightarrow> dk_files d' q = dk_files d q"
    using write_private_other[of q path E contents d1] files by auto
  show "dk_files d' path = Some text" if "\<not> force" "dk_files d path = Some text"
    using cases
  proof
    assume "\<exists>existing. e = Inr existing \<and> reconcile_contents path existing contents force = Inr Stale \<and>
        d' = snd (write_private E path contents d1)"
    then obtain existing where "e = Inr existing"
        "reconcile_contents path existing contents force = Inr Stale"
      by blast
    with read that have False
      by (auto simp: reconcile_contents_def dest!: read_existing_ok split: if_splits)
    then show ?thesis ..
  qed (use that in simp)
qed

lemma write_service_file_calm:
  assumes "write_service_file E service path contents force undo d = (r, undo', d')" and "no_faults E"
  shows "(\<exists>e. r = Inl e \<and> undo' = undo \<and> dk_files d' = dk_files d \<and> dk_files d path \<noteq> None) \<or>
    (r = Inr Unchanged \<and> undo' = undo \<and> dk_files d' = dk_files d \<and> dk_files d path = Some contents) \<or>
    (r = Inr Stale \<and> undo' = remember service path (dk_files d path) undo \<and>
      dk_files d' = (dk_files d)(path := Some contents))"
proof -
  obtain e d1 where read: "read_existing E path d = (e, d1)" by (cases "read_existing E path d")
  have files: "dk_files d1 = dk_files d" using read_existing_files[of E path d] read by simp
  show ?thesis
  proof (cases e)
    case (Inl e')
    with read_existing_calm[OF assms(2), of path d] read show ?thesis by simp
  next
    case (Inr existing)
    then have existing: "existing = dk_files d path" using read read_existing_ok by simp
    obtain r2 d2 where wrote: "write_private E path contents d1 = (r2, d2)"
      by (cases "write_private E path contents d1")
    then have "r2 = Inr ()" "dk_files d2 = (dk_files d)(path := Some contents)"
      using assms(2) files by (auto simp: write_private_def set_contents_def)
    with assms(1) files show ?thesis
      by (auto simp: write_service_file_def read Inr wrote existing reconcile_contents_def
          split: option.splits if_splits)
  qed
qed

subsection \<open>Undoing restores the disk\<close>

text \<open>
  \<open>undoes undo f g\<close>: the steps turn the files \<open>g\<close> back into \<open>f\<close>. Every path is written once, and it
  exists when it is undone.
\<close>

definition undoes :: "service_undo \<Rightarrow> (string \<Rightarrow> string option) \<Rightarrow> (string \<Rightarrow> string option) \<Rightarrow> bool" where
  "undoes undo f g \<longleftrightarrow>
     distinct (map us_path undo) \<and>
     (\<forall>step\<in>set undo. g (us_path step) \<noteq> None \<and>
        f (us_path step) = (case us_restore step of RemoveFile \<Rightarrow> None | ReplaceWith text \<Rightarrow> Some text)) \<and>
     (\<forall>q. q \<notin> us_path ` set undo \<longrightarrow> g q = f q)"

lemma undo_apply_files:
  assumes "no_faults E" and "dk_files d (us_path step) \<noteq> None"
  shows "dk_files (undo_apply E step d) = (dk_files d)(us_path step :=
    (case us_restore step of RemoveFile \<Rightarrow> None | ReplaceWith text \<Rightarrow> Some text))"
  using assms
  by (auto simp: undo_apply_def remove_file_def write_private_def set_contents_def tick_def
      split: restore_step.splits)

lemma undo_run_restores:
  assumes "no_faults E" and "undoes undo f (dk_files d)"
  shows "dk_files (undo_run E undo d) = f"
  using assms(2)
proof (induction undo arbitrary: d)
  case Nil
  then show ?case by (auto simp: undoes_def undo_run_def)
next
  case (Cons step undo)
  then have "undoes undo f (dk_files (undo_apply E step d))"
    using undo_apply_files[OF assms(1), of d step] by (auto simp: undoes_def image_iff)
  from Cons.IH[OF this] show ?case by (simp add: undo_run_def)
qed

lemma undoes_remember:
  assumes "undoes undo f g" and "path \<notin> us_path ` set undo"
  shows "undoes (remember service path (g path) undo) f (g(path := Some contents))"
  using assms by (auto simp: undoes_def remember_def split: option.splits)

lemma service_file_inj:
  assumes "service_file_of dir a = Inr p" and "service_file_of dir b = Inr p"
  shows "a = b"
proof -
  have relative: "\<not> starts_with ''/'' (x @ ''.yaml'')" if "validate_app_name x = Inr ()" for x
    using validated_name_safe[OF that] by (cases x) (auto simp: safe_file_name_def starts_with_def)
  show ?thesis
    using relative[OF sidecar_of_service(1)[OF assms(1)]] relative[OF sidecar_of_service(1)[OF assms(2)]]
      sidecar_of_service(2)[OF assms(1)] sidecar_of_service(2)[OF assms(2)]
    by (auto simp: path_join_def split: if_splits)
qed

lemma split_entries_calm:
  assumes "no_faults E" and "split_entries E ctx force entries split d = (r, d')"
    and "undoes (sa_undo split) f (dk_files d)"
    and "distinct (map ae_name entries)"
    and "\<forall>entry\<in>set entries. \<forall>path. service_file_of (sx_cfg_dir ctx) (ae_name entry) = Inr path \<longrightarrow>
      path \<notin> us_path ` set (sa_undo split)"
  shows "case r of
      Inr s \<Rightarrow> undoes (sa_undo s) f (dk_files d') \<and> sa_names s = sa_names split @ map ae_name entries \<and>
        (\<forall>entry\<in>set entries. \<exists>path. service_file_of (sx_cfg_dir ctx) (ae_name entry) = Inr path \<and>
           dk_files d' path = Some (encode_service_file (fold_entry entry (sx_home ctx)))) \<and>
        (\<forall>q. (\<forall>entry\<in>set entries. service_file_of (sx_cfg_dir ctx) (ae_name entry) \<noteq> Inr q) \<longrightarrow>
           dk_files d' q = dk_files d q)
    | Inl e \<Rightarrow> (\<exists>refused. e = SvcSpec refused) \<or> dk_files d' = f"
  using assms(2-)
proof (induction entries arbitrary: split d)
  case Nil
  then show ?case by auto
next
  case (Cons entry entries)
  show ?case
  proof (cases "service_file_of (sx_cfg_dir ctx) (ae_name entry)")
    case (Inl e)
    with Cons.prems(1) show ?thesis by auto
  next
    case (Inr path)
    define contents where "contents = encode_service_file (fold_entry entry (sx_home ctx))"
    obtain r1 undo1 d1 where wrote:
        "write_service_file E (ae_name entry) path contents force (sa_undo split) d = (r1, undo1, d1)"
      using prod_cases3 by blast
    have fresh: "path \<notin> us_path ` set (sa_undo split)" using Cons.prems(4) Inr by auto
    have others: "service_file_of (sx_cfg_dir ctx) (ae_name other) \<noteq> Inr path" if "other \<in> set entries" for other
      using that Cons.prems(3) service_file_inj[OF Inr] by force
    note step = Cons.prems(1)[unfolded split_entries.simps Inr sum.case Let_def contents_def[symmetric] wrote prod.case]
    consider (failed) e where "r1 = Inl e" "undo1 = sa_undo split" "dk_files d1 = dk_files d"
      | (same) "r1 = Inr Unchanged" "undo1 = sa_undo split" "dk_files d1 = dk_files d"
          "dk_files d path = Some contents"
      | (stale) "r1 = Inr Stale" "undo1 = remember (ae_name entry) path (dk_files d path) (sa_undo split)"
          "dk_files d1 = (dk_files d)(path := Some contents)"
      using write_service_file_calm[OF wrote assms(1)] by blast
    then show ?thesis
    proof cases
      case failed
      with step Cons.prems(2) show ?thesis using undo_run_restores[OF assms(1)] by auto
    next
      case same
      let ?split = "split\<lparr>sa_names := sa_names split @ [ae_name entry], sa_undo := undo1\<rparr>"
      have rest: "split_entries E ctx force entries ?split d1 = (r, d')" using step same by simp
      have "undoes (sa_undo ?split) f (dk_files d1)" using Cons.prems(2) same by simp
      note tail = Cons.IH[OF rest this]
      show ?thesis
        using tail Cons.prems(3,4) same Inr others
        by (cases r) (auto simp: contents_def)
    next
      case stale
      let ?split = "split\<lparr>sa_names := sa_names split @ [ae_name entry],
          sa_changed := sa_changed split @ [ae_name entry], sa_undo := undo1\<rparr>"
      have rest: "split_entries E ctx force entries ?split d1 = (r, d')" using step stale by simp
      have "undoes (sa_undo ?split) f (dk_files d1)"
        using undoes_remember[OF Cons.prems(2) fresh] stale by simp
      note tail = Cons.IH[OF rest this]
      have "\<forall>other\<in>set entries. \<forall>p. service_file_of (sx_cfg_dir ctx) (ae_name other) = Inr p \<longrightarrow>
          p \<notin> us_path ` set undo1"
        using Cons.prems(4) others stale by (auto simp: remember_def)
      then show ?thesis
        using tail Cons.prems(3) stale Inr others
        by (cases r) (auto simp: contents_def)
    qed
  qed
qed

lemma split_apps_file_calm:
  assumes "no_faults (hs_files H)" and "split_apps_file H ctx apps_file force d = (r, d')"
  shows "case r of
      Inr s \<Rightarrow> dk_files (undo_run (hs_files H) (sa_undo s) d') = dk_files d
    | Inl e \<Rightarrow> (\<exists>refused. e = SvcSpec refused) \<or> dk_files d' = dk_files d"
proof -
  obtain a d1 where load: "load_apps_file H apps_file d = (a, d1)" by (cases "load_apps_file H apps_file d")
  have files: "dk_files d1 = dk_files d"
    using load reads_keep_files(1)[of "hs_files H" apps_file d]
    by (cases "read_to_string (hs_files H) apps_file d")
      (auto simp: load_apps_file_def read_substituted_def split: sum.splits)
  show ?thesis
  proof (cases a)
    case (Inl e)
    with assms(2) files load show ?thesis by (auto simp: split_apps_file_def)
  next
    case (Inr apps)
    have "distinct (map ae_name apps)"
      using load Inr parse_apps_file_ok(2)
      by (auto simp: load_apps_file_def split: prod.splits sum.splits)
    moreover have run: "split_entries (hs_files H) ctx force apps
        \<lparr>sa_names = [], sa_changed = [], sa_undo = []\<rparr> d1 = (r, d')"
      using assms(2) load Inr by (simp add: split_apps_file_def)
    moreover have "undoes [] (dk_files d) (dk_files d1)" by (simp add: undoes_def files)
    ultimately show ?thesis
      using split_entries_calm[OF assms(1) run, of "dk_files d"] undo_run_restores[OF assms(1)]
      by (cases r) auto
  qed
qed

text \<open>
  An entry whose name is refused ends the split at once, and the files of the entries before it
  stay: the undo that every other error runs is skipped.
\<close>

lemma split_refused_name_leaves_files:
  assumes "no_faults E" and "service_file_of (sx_cfg_dir ctx) (ae_name good) = Inr path"
    and "service_file_of (sx_cfg_dir ctx) (ae_name bad) = Inl e" and "dk_files d path = None"
  shows "\<exists>d'. split_entries E ctx force [good, bad] split d = (Inl (SvcSpec e), d') \<and>
    dk_files d' path = Some (encode_service_file (fold_entry good (sx_home ctx)))"
proof -
  define contents where "contents = encode_service_file (fold_entry good (sx_home ctx))"
  obtain r undo d1 where wrote:
      "write_service_file E (ae_name good) path contents force (sa_undo split) d = (r, undo, d1)"
    using prod_cases3 by blast
  have "r = Inr Stale" "dk_files d1 = (dk_files d)(path := Some contents)"
    using write_service_file_calm[OF wrote assms(1)] assms(4) by auto
  with wrote assms(2,3) show ?thesis by (simp add: contents_def Let_def)
qed

text \<open>Forgetting a service removes its declaration and both environments, and nothing else.\<close>

lemma remove_quietly_files:
  "no_faults E \<Longrightarrow> dk_files (remove_quietly E path d) = (dk_files d)(path := None)"
  by (auto simp: remove_quietly_def remove_if_present_def remove_file_def tick_def split: option.splits)

lemma forget_files:
  assumes "no_faults E" and "service_file_of cfg_dir name = Inr path"
  shows "dk_files (forget_service E cfg_dir name d) = (dk_files d)(path := None,
    with_extension path ''env'' := None, with_extension path ''enc.yaml'' := None)"
  using sidecar_of_service(3)[OF assms(2), of "''env''"] sidecar_of_service(3)[OF assms(2), of "''enc.yaml''"]
    assms
  by (simp add: forget_service_def env_file_of_def enc_file_of_def ENC_FILE_SUFFIX_def remove_quietly_files)

end
