(* ===== verification/State_File.thy ===== *)
theory State_File
  imports Spec_Source Handover
begin

text \<open>
  The state file (\<open>adapters/src/persistence\<close>): what is written of every managed service
  (\<open>dto.rs\<close>), how it is joined with the declarations when it is read, and the atomic write through
  a staged file (\<open>yaml_store.rs\<close>). The YAML library is a parameter. The futures of \<open>load\<close> share
  only the disk, where they create directories; they are run here in the order of the services.
\<close>

subsection \<open>The document\<close>

record identity_dto =
  id_token :: string
  id_launch_digest :: string
  id_binary_digest :: string

record runtime_dto =
  rd_pm_id :: u32
  rd_status :: string
  rd_restart_time :: u32
  rd_unstable_restarts :: u32
  rd_created_at_ms :: u64
  rd_pid :: "u32 option"
  rd_started_at_ms :: "u64 option"
  rd_identity :: "identity_dto option"
  rd_pending_restart :: bool
  rd_supervised_restart :: bool
  rd_liveness_failures :: u32
  rd_schedule_armed :: bool

record state_dto =
  dt_name :: string
  dt_runtime :: runtime_dto

record dump_document =
  dd_services :: "state_dto list"
  dd_boot :: "string option"

datatype decode_error = UnknownStatus string string | InconsistentState string runtime_error

definition encode_identity :: "process_identity \<Rightarrow> identity_dto" where
  "encode_identity identity =
     \<lparr>id_token = token identity, id_launch_digest = launch_digest identity,
      id_binary_digest = binary_digest identity\<rparr>"

definition decode_identity :: "identity_dto \<Rightarrow> process_identity" where
  "decode_identity dto =
     \<lparr>token = id_token dto, launch_digest = id_launch_digest dto, binary_digest = id_binary_digest dto\<rparr>"

definition encode_state :: "process_record \<Rightarrow> state_dto" where
  "encode_state r =
     (let rt = pr_runtime r in
      \<lparr>dt_name = rt_name rt,
       dt_runtime =
         \<lparr>rd_pm_id = rt_pm_id rt, rd_status = status_as_str (rt_status rt),
          rd_restart_time = restart_time rt, rd_unstable_restarts = unstable_restarts rt,
          rd_created_at_ms = created_at_ms rt, rd_pid = rt_pid rt,
          rd_started_at_ms = started_at_ms rt, rd_identity = map_option encode_identity (rt_identity rt),
          rd_pending_restart = pending_restart rt, rd_supervised_restart = supervised_restart rt,
          rd_liveness_failures = liveness_failures rt, rd_schedule_armed = schedule_armed rt\<rparr>\<rparr>)"

definition encode_states :: "process_record list \<Rightarrow> string option \<Rightarrow> dump_document" where
  "encode_states records boot = \<lparr>dd_services = map encode_state records, dd_boot = boot\<rparr>"

definition decode_state :: "state_dto \<Rightarrow> decode_error + process_runtime" where
  "decode_state dto =
     (let rd = dt_runtime dto in
      case status_parse (rd_status rd) of
        None \<Rightarrow> Inl (UnknownStatus (dt_name dto) (rd_status rd))
      | Some parsed \<Rightarrow>
          let decoded =
            \<lparr>rt_pm_id = rd_pm_id rd, rt_name = dt_name dto, rt_pid = rd_pid rd, rt_status = parsed,
             restart_time = rd_restart_time rd, unstable_restarts = rd_unstable_restarts rd,
             created_at_ms = rd_created_at_ms rd, started_at_ms = rd_started_at_ms rd,
             rt_identity = map_option decode_identity (rd_identity rd),
             pending_restart = rd_pending_restart rd, supervised_restart = rd_supervised_restart rd,
             liveness_failures = rd_liveness_failures rd, schedule_armed = rd_schedule_armed rd\<rparr> in
          (case validate_consistency decoded of
             Inl source \<Rightarrow> Inl (InconsistentState (rt_name decoded) source)
           | Inr _ \<Rightarrow> Inr decoded))"

subsection \<open>Reading\<close>

record host_dump = host_secrets +
  hs_read_dump :: "string \<Rightarrow> string + dump_document"
  hs_write_dump :: "dump_document \<Rightarrow> string"

record yaml_dump_store =
  yd_path :: string
  yd_specs :: spec_source

datatype rejoined = RejoinedRecord process_record | RejoinedStranded stranded_process

definition stranded_of :: "state_dto \<Rightarrow> stranded_process" where
  "stranded_of state =
     \<lparr>sp_name = dt_name state, sp_pid = rd_pid (dt_runtime state),
      sp_token = map_option id_token (rd_identity (dt_runtime state))\<rparr>"

definition rejoin ::
  "host_dump \<Rightarrow> yaml_dump_store \<Rightarrow> state_dto \<Rightarrow> disk \<Rightarrow> (dump_error + rejoined) \<times> disk" where
  "rejoin H Y state d =
     (case decode_state state of
        Inl error \<Rightarrow> (Inr (RejoinedStranded (stranded_of state)), d)
      | Inr runtime \<Rightarrow>
          (case resolve_service (host_secrets.truncate H) (yd_specs Y) (rt_name runtime) d of
             (Inr spec, d) \<Rightarrow> (Inr (RejoinedRecord \<lparr>pr_spec = spec, pr_runtime = runtime\<rparr>), d)
           | (Inl error, d) \<Rightarrow>
               (case error of
                  EncFileErr e \<Rightarrow> Inl (UnreadableState (yd_path Y) (enc_file_error_text e))
                | _ \<Rightarrow> Inr (RejoinedStranded (stranded_of state)), d)))"

fun rejoin_all ::
  "host_dump \<Rightarrow> yaml_dump_store \<Rightarrow> state_dto list \<Rightarrow> disk \<Rightarrow> (dump_error + rejoined) list \<times> disk" where
  "rejoin_all H Y [] d = ([], d)"
| "rejoin_all H Y (state # states) d =
     (case rejoin H Y state d of (r, d) \<Rightarrow>
      case rejoin_all H Y states d of (rs, d) \<Rightarrow> (r # rs, d))"

fun collect_rejoined :: "(dump_error + rejoined) list \<Rightarrow> dump_contents \<Rightarrow> dump_error + dump_contents" where
  "collect_rejoined [] contents = Inr contents"
| "collect_rejoined (Inl e # rest) contents = Inl e"
| "collect_rejoined (Inr (RejoinedRecord r) # rest) contents =
     collect_rejoined rest (contents\<lparr>dc_records := dc_records contents @ [r]\<rparr>)"
| "collect_rejoined (Inr (RejoinedStranded s) # rest) contents =
     collect_rejoined rest (contents\<lparr>dc_stranded := dc_stranded contents @ [s]\<rparr>)"

definition read_document ::
  "host_dump \<Rightarrow> string \<Rightarrow> disk \<Rightarrow> (dump_error + dump_document option) \<times> disk" where
  "read_document H path d =
     (case read_optional (hs_files H) path d of
        (Inl error, d) \<Rightarrow> (Inl (ReadState path (io_error_text error)), d)
      | (Inr None, d) \<Rightarrow> (Inr None, d)
      | (Inr (Some raw), d) \<Rightarrow>
          (case hs_read_dump H raw of Inl e \<Rightarrow> Inl (ReadState path e) | Inr doc \<Rightarrow> Inr (Some doc), d))"

definition no_contents :: dump_contents where
  "no_contents = \<lparr>dc_records = [], dc_stranded = [], dc_boot = None\<rparr>"

definition store_load :: "host_dump \<Rightarrow> yaml_dump_store \<Rightarrow> disk \<Rightarrow> (dump_error + dump_contents) \<times> disk" where
  "store_load H Y d =
     (case read_document H (yd_path Y) d of
        (Inl e, d) \<Rightarrow> (Inl e, d)
      | (Inr None, d) \<Rightarrow> (Inr no_contents, d)
      | (Inr (Some doc), d) \<Rightarrow>
          (case rejoin_all H Y (dd_services doc) d of
             (outcomes, d) \<Rightarrow> (collect_rejoined outcomes (no_contents\<lparr>dc_boot := dd_boot doc\<rparr>), d)))"

definition snapshot_of :: "state_dto \<Rightarrow> service_snapshot" where
  "snapshot_of state = \<lparr>ss_name = dt_name state, ss_pid = rd_pid (dt_runtime state)\<rparr>"

definition dump_snapshot :: "host_dump \<Rightarrow> string \<Rightarrow> disk \<Rightarrow> (dump_error + service_snapshot list) \<times> disk" where
  "dump_snapshot H path d =
     (case read_document H path d of
        (Inl e, d) \<Rightarrow> (Inl e, d)
      | (Inr None, d) \<Rightarrow> (Inr [], d)
      | (Inr (Some doc), d) \<Rightarrow> (Inr (map snapshot_of (dd_services doc)), d))"

subsection \<open>Writing\<close>

definition TMP_SUFFIX :: string where "TMP_SUFFIX = ''.tmp''"

definition staging_path :: "string \<Rightarrow> string" where
  "staging_path path = with_suffix path TMP_SUFFIX"

definition write_atomically :: "host_files \<Rightarrow> string \<Rightarrow> string \<Rightarrow> disk \<Rightarrow> (dump_error + unit) \<times> disk" where
  "write_atomically E path contents d =
     (let staged = staging_path path in
      case write_private E staged contents d of
        (Inl e, d) \<Rightarrow> (Inl (WriteState staged (io_error_text e)), d)
      | (Inr _, d) \<Rightarrow>
          (case rename_file E staged path d of
             (Inl e, d) \<Rightarrow> (Inl (WriteState path (io_error_text e)), d)
           | (Inr _, d) \<Rightarrow> (Inr (), d)))"

definition store_save ::
  "host_dump \<Rightarrow> yaml_dump_store \<Rightarrow> process_record list \<Rightarrow> string option \<Rightarrow> disk \<Rightarrow> (dump_error + unit) \<times> disk"
where
  "store_save H Y records boot d =
     write_atomically (hs_files H) (yd_path Y) (hs_write_dump H (encode_states records boot)) d"

subsection \<open>A record survives the file\<close>

lemma decode_encode_identity [simp]: "decode_identity (encode_identity identity) = identity"
  by (simp add: decode_identity_def encode_identity_def)

lemma decode_encode_state:
  "validate_consistency (pr_runtime r) = Inr () \<Longrightarrow> decode_state (encode_state r) = Inr (pr_runtime r)"
  by (cases "pr_runtime r")
    (simp add: decode_state_def encode_state_def Let_def status_words.parse_as_str option.map_comp
      comp_def option.map_ident)

lemma decode_state_consistent:
  "decode_state state = Inr runtime \<Longrightarrow>
    rt_name runtime = dt_name state \<and> validate_consistency runtime = Inr ()"
  by (auto simp: decode_state_def Let_def split: option.splits sum.splits)

lemma runtime_ok_consistent: "runtime_ok rt \<Longrightarrow> validate_consistency rt = Inr ()"
  by (auto simp: runtime_ok_def validate_consistency_def is_running_iff)

lemma stranded_encode:
  "stranded_of (encode_state r) =
     \<lparr>sp_name = record_name r, sp_pid = rt_pid (pr_runtime r), sp_token = identity_token (pr_runtime r)\<rparr>"
  by (simp add: stranded_of_def encode_state_def Let_def identity_token_def option.map_comp comp_def
      encode_identity_def)

subsection \<open>The state file is never torn\<close>

lemma write_private_result:
  "write_private E path contents d = (r, d') \<Longrightarrow>
    (r = Inr () \<longrightarrow> dk_files d' path = Some contents) \<and> (\<forall>q. q \<noteq> path \<longrightarrow> dk_files d' q = dk_files d q)"
  using write_private_ok[of E path contents d d'] write_private_other[of _ path E contents d]
  by (cases r) simp_all

lemma rename_file_result:
  assumes "rename_file E source destination d = (r, d')"
  shows "(\<exists>e. r = Inl e \<and> dk_files d' = dk_files d) \<or>
    (r = Inr () \<and> (\<exists>text. dk_files d source = Some text \<and>
      dk_files d' = (dk_files d)(source := None, destination := Some text)))"
  using assms by (auto simp: rename_file_def tick_def split: option.splits)

lemma write_atomically_result:
  assumes "write_atomically E path contents d = (r, d')"
  shows "(\<exists>e. r = Inl e \<and> dk_files d' path = dk_files d path) \<or>
    (r = Inr () \<and> dk_files d' path = Some contents)"
    and "q \<noteq> path \<Longrightarrow> q \<noteq> staging_path path \<Longrightarrow> dk_files d' q = dk_files d q"
proof -
  have staged: "staging_path path \<noteq> path" by (simp add: staging_path_def with_suffix_def TMP_SUFFIX_def)
  obtain r1 d1 where wrote: "write_private E (staging_path path) contents d = (r1, d1)"
    by (cases "write_private E (staging_path path) contents d")
  note kept = write_private_result[OF wrote]
  obtain r2 d2 where renamed: "rename_file E (staging_path path) path d1 = (r2, d2)"
    by (cases "rename_file E (staging_path path) path d1")
  note moved = rename_file_result[OF renamed]
  show "(\<exists>e. r = Inl e \<and> dk_files d' path = dk_files d path) \<or>
      (r = Inr () \<and> dk_files d' path = Some contents)"
    using assms kept moved staged
    by (cases r1; cases r2) (auto simp: write_atomically_def wrote renamed)
  show "dk_files d' q = dk_files d q" if "q \<noteq> path" "q \<noteq> staging_path path"
    using assms kept moved that
    by (cases r1; cases r2) (auto simp: write_atomically_def wrote renamed)
qed

subsection \<open>What is saved comes back\<close>

text \<open>
  Every saved service comes back as a record with the runtime it had, under a declaration of its
  name, or as a stranded process with its pid and identity. \<open>keep\<close> says which of the two.
\<close>

definition comes_back :: "process_record list \<Rightarrow> bool list \<Rightarrow> dump_contents \<Rightarrow> bool" where
  "comes_back records keep contents \<longleftrightarrow>
     length keep = length records \<and>
     map pr_runtime (dc_records contents) = map pr_runtime (map fst (filter snd (zip records keep))) \<and>
     dc_stranded contents =
       map (\<lambda>r. \<lparr>sp_name = record_name r, sp_pid = rt_pid (pr_runtime r),
                 sp_token = identity_token (pr_runtime r)\<rparr>)
         (map fst (filter (\<lambda>x. \<not> snd x) (zip records keep))) \<and>
     (\<forall>r\<in>set (dc_records contents). app_name (pr_spec r) = record_name r)"

lemma rejoin_cases:
  assumes "rejoin H Y (encode_state r) d = (Inr found, d')" and "validate_consistency (pr_runtime r) = Inr ()"
  shows "(\<exists>spec. found = RejoinedRecord \<lparr>pr_spec = spec, pr_runtime = pr_runtime r\<rparr> \<and>
      app_name spec = record_name r) \<or>
    found = RejoinedStranded (stranded_of (encode_state r))"
proof -
  obtain x d1 where resolved:
      "resolve_service (host_secrets.truncate H) (yd_specs Y) (record_name r) d = (x, d1)"
    by (cases "resolve_service (host_secrets.truncate H) (yd_specs Y) (record_name r) d")
  show ?thesis
  proof (cases x)
    case (Inl e)
    then show ?thesis
      using assms(1) decode_encode_state[OF assms(2)]
      by (cases e) (auto simp: rejoin_def resolved)
  next
    case (Inr spec)
    then have "app_name spec = record_name r" using resolved resolve_service_name by blast
    then show ?thesis
      using assms(1) decode_encode_state[OF assms(2)] by (auto simp: rejoin_def resolved Inr)
  qed
qed

lemma collect_rejoin_all:
  assumes "rejoin_all H Y (map encode_state records) d = (outcomes, d')"
    and "collect_rejoined outcomes contents0 = Inr contents"
    and "\<forall>r\<in>set records. validate_consistency (pr_runtime r) = Inr ()"
  shows "\<exists>keep. length keep = length records \<and>
    (\<exists>found. dc_records contents = dc_records contents0 @ found \<and>
      map pr_runtime found = map pr_runtime (map fst (filter snd (zip records keep))) \<and>
      (\<forall>r\<in>set found. app_name (pr_spec r) = record_name r)) \<and>
    dc_stranded contents = dc_stranded contents0 @
      map (\<lambda>r. stranded_of (encode_state r)) (map fst (filter (\<lambda>x. \<not> snd x) (zip records keep))) \<and>
    dc_boot contents = dc_boot contents0"
  using assms
proof (induction records arbitrary: d d' outcomes contents0)
  case Nil
  then show ?case by simp
next
  case (Cons r records)
  obtain x d1 where first: "rejoin H Y (encode_state r) d = (x, d1)"
    by (cases "rejoin H Y (encode_state r) d")
  obtain rest d2 where rest: "rejoin_all H Y (map encode_state records) d1 = (rest, d2)"
    by (cases "rejoin_all H Y (map encode_state records) d1")
  have outcomes: "outcomes = x # rest" using Cons.prems(1) first rest by simp
  obtain found where x: "x = Inr found"
    using Cons.prems(2) by (cases x) (auto simp: outcomes)
  consider (kept) spec where "found = RejoinedRecord \<lparr>pr_spec = spec, pr_runtime = pr_runtime r\<rparr>"
      "app_name spec = record_name r"
    | (stranded) "found = RejoinedStranded (stranded_of (encode_state r))"
    using rejoin_cases[OF first[unfolded x]] Cons.prems(3) by auto
  then show ?case
  proof cases
    case kept
    let ?contents = "contents0\<lparr>dc_records := dc_records contents0 @ [\<lparr>pr_spec = spec, pr_runtime = pr_runtime r\<rparr>]\<rparr>"
    have "collect_rejoined rest ?contents = Inr contents"
      using Cons.prems(2) by (simp add: outcomes x kept)
    with Cons.IH[OF rest this] Cons.prems(3) obtain keep found' where
        "length keep = length records" "dc_records contents = dc_records ?contents @ found'"
        "map pr_runtime found' = map pr_runtime (map fst (filter snd (zip records keep)))"
        "\<forall>r\<in>set found'. app_name (pr_spec r) = record_name r"
        "dc_stranded contents = dc_stranded ?contents @
          map (\<lambda>r. stranded_of (encode_state r)) (map fst (filter (\<lambda>x. \<not> snd x) (zip records keep)))"
        "dc_boot contents = dc_boot ?contents"
      by auto
    then show ?thesis
      using kept by (intro exI[of _ "True # keep"]) auto
  next
    case stranded
    let ?contents = "contents0\<lparr>dc_stranded := dc_stranded contents0 @ [stranded_of (encode_state r)]\<rparr>"
    have "collect_rejoined rest ?contents = Inr contents"
      using Cons.prems(2) by (simp add: outcomes x stranded)
    with Cons.IH[OF rest this] Cons.prems(3) obtain keep found' where
        "length keep = length records" "dc_records contents = dc_records ?contents @ found'"
        "map pr_runtime found' = map pr_runtime (map fst (filter snd (zip records keep)))"
        "\<forall>r\<in>set found'. app_name (pr_spec r) = record_name r"
        "dc_stranded contents = dc_stranded ?contents @
          map (\<lambda>r. stranded_of (encode_state r)) (map fst (filter (\<lambda>x. \<not> snd x) (zip records keep)))"
        "dc_boot contents = dc_boot ?contents"
      by auto
    then show ?thesis by (intro exI[of _ "False # keep"]) auto
  qed
qed

lemma saved_state_comes_back:
  assumes "store_save H Y records boot d = (Inr (), d1)"
    and "dk_files d2 (yd_path Y) = dk_files d1 (yd_path Y)"
    and "store_load H Y d2 = (Inr contents, d3)"
    and "hs_read_dump H (hs_write_dump H (encode_states records boot)) = Inr (encode_states records boot)"
    and "\<forall>r\<in>set records. runtime_ok (pr_runtime r)"
  shows "dc_boot contents = boot \<and> (\<exists>keep. comes_back records keep contents)"
proof -
  have "dk_files d2 (yd_path Y) = Some (hs_write_dump H (encode_states records boot))"
    using write_atomically_result(1)[OF assms(1)[unfolded store_save_def]] assms(2) by auto
  moreover obtain r d4 where read: "read_optional (hs_files H) (yd_path Y) d2 = (r, d4)"
    by (cases "read_optional (hs_files H) (yd_path Y) d2")
  moreover have "r \<noteq> Inl e" for e using assms(3) by (auto simp: store_load_def read_document_def read)
  ultimately have "r = Inr (Some (hs_write_dump H (encode_states records boot)))"
    using read_optional_cases[OF read] by auto
  then have doc: "read_document H (yd_path Y) d2 = (Inr (Some (encode_states records boot)), d4)"
    using assms(4) by (simp add: read_document_def read)
  obtain outcomes d5 where all: "rejoin_all H Y (map encode_state records) d4 = (outcomes, d5)"
    by (cases "rejoin_all H Y (map encode_state records) d4")
  have collect: "collect_rejoined outcomes (no_contents\<lparr>dc_boot := boot\<rparr>) = Inr contents"
    using assms(3) all by (simp add: store_load_def doc encode_states_def)
  have "\<forall>r\<in>set records. validate_consistency (pr_runtime r) = Inr ()"
    using assms(5) runtime_ok_consistent by blast
  from collect_rejoin_all[OF all collect this] show ?thesis
    by (auto simp: comes_back_def no_contents_def stranded_encode)
qed

text \<open>Services that still resolve as they did come back whole.\<close>

lemma rejoin_all_resolved:
  assumes "\<And>r d. r \<in> set records \<Longrightarrow> dk_files d = files \<Longrightarrow>
      fst (resolve_service (host_secrets.truncate H) (yd_specs Y) (record_name r) d) = Inr (pr_spec r)"
    and "\<forall>r\<in>set records. validate_consistency (pr_runtime r) = Inr ()" and "dk_files d = files"
  shows "fst (rejoin_all H Y (map encode_state records) d) = map (\<lambda>r. Inr (RejoinedRecord r)) records"
  using assms
proof (induction records arbitrary: d)
  case (Cons r records)
  obtain d1 where resolved: "resolve_service (host_secrets.truncate H) (yd_specs Y) (record_name r) d = (Inr (pr_spec r), d1)"
    using Cons.prems(1)[of r d] Cons.prems(3) by (metis fst_conv list.set_intros(1) surj_pair)
  then have "dk_files d1 = files" using resolve_service_files Cons.prems(3) by (metis snd_conv)
  moreover have "rejoin H Y (encode_state r) d = (Inr (RejoinedRecord r), d1)"
    using decode_encode_state Cons.prems(2) resolved by (simp add: rejoin_def)
  moreover have "fst (rejoin_all H Y (map encode_state records) d1) = map (\<lambda>r. Inr (RejoinedRecord r)) records"
    using Cons.prems calculation(1) by (intro Cons.IH) auto
  ultimately show ?case
    by (cases "rejoin_all H Y (map encode_state records) d1") simp
qed simp

lemma collect_records:
  "collect_rejoined (map (\<lambda>r. Inr (RejoinedRecord r)) records) contents =
    Inr (contents\<lparr>dc_records := dc_records contents @ records\<rparr>)"
  by (induction records arbitrary: contents) simp_all

lemma resolved_state_comes_back:
  assumes saved: "store_save H Y records boot d = (Inr (), d1)"
    and kept: "dk_files d2 (yd_path Y) = dk_files d1 (yd_path Y)"
    and calm: "no_faults (hs_files H)"
    and reads: "hs_read_dump H (hs_write_dump H (encode_states records boot)) = Inr (encode_states records boot)"
    and ok: "\<forall>r\<in>set records. runtime_ok (pr_runtime r)"
    and resolves: "\<And>r d. r \<in> set records \<Longrightarrow> dk_files d = dk_files d2 \<Longrightarrow>
      fst (resolve_service (host_secrets.truncate H) (yd_specs Y) (record_name r) d) = Inr (pr_spec r)"
  shows "fst (store_load H Y d2) = Inr \<lparr>dc_records = records, dc_stranded = [], dc_boot = boot\<rparr>"
proof -
  have "dk_files d2 (yd_path Y) = Some (hs_write_dump H (encode_states records boot))"
    using write_atomically_result(1)[OF saved[unfolded store_save_def]] kept by auto
  then have doc: "read_document H (yd_path Y) d2 = (Inr (Some (encode_states records boot)), tick d2)"
    using calm reads by (simp add: read_document_def read_optional_def read_to_string_def)
  have "\<forall>r\<in>set records. validate_consistency (pr_runtime r) = Inr ()"
    using ok runtime_ok_consistent by blast
  from rejoin_all_resolved[OF resolves this, of "dk_files d2" "tick d2"]
  obtain d3 where all: "rejoin_all H Y (map encode_state records) (tick d2) =
      (map (\<lambda>r. Inr (RejoinedRecord r)) records, d3)"
    by (cases "rejoin_all H Y (map encode_state records) (tick d2)") auto
  show ?thesis
    by (simp add: store_load_def doc encode_states_def all collect_records no_contents_def)
qed

end
