(* ===== verification/Host_Processes.thy ===== *)
theory Host_Processes
  imports Commands
begin

text \<open>
  Asking the host about processes and signalling them (\<open>adapters/src/process/ps_probe.rs\<close>,
  \<open>kill_signaler.rs\<close>, \<open>sha256_fingerprinter.rs\<close>). The programs \<open>ps\<close> and \<open>kill\<close> are parameters: a
  function from the command and its time to what came of it. A process is reported gone only on a
  complete answer without it, and no command signals pid 0 or 1 or every process.
\<close>

type_synonym runner = "helper_command \<Rightarrow> u64 \<Rightarrow> command_outcome"

subsection \<open>Reading what ps prints\<close>

record ps_report =
  pr_tokens :: "(u32 \<times> string) list"
  pr_tokenless :: "u32 list"
  pr_garbled :: bool

definition parse_row :: "string \<Rightarrow> (u32 \<times> string option) option" where
  "parse_row line =
     (case split_once '' '' line of
        None \<Rightarrow> None
      | Some (pid_text, rest) \<Rightarrow>
          (case parse_u32 pid_text of
             None \<Rightarrow> None
           | Some i \<Rightarrow> (let shown = trim rest in Some (i, if shown = [] then None else Some shown))))"

definition report_line :: "ps_report \<Rightarrow> string \<Rightarrow> ps_report" where
  "report_line report line =
     (let trimmed = trim_start line in
      if trimmed = [] then report
      else case parse_row trimmed of
        Some (i, Some shown) \<Rightarrow> report\<lparr>pr_tokens := AList.update i shown (pr_tokens report)\<rparr>
      | Some (i, None) \<Rightarrow> report\<lparr>pr_tokenless := List.insert i (pr_tokenless report)\<rparr>
      | None \<Rightarrow> report\<lparr>pr_garbled := True\<rparr>)"

definition parse_report :: "string \<Rightarrow> ps_report" where
  "parse_report stdout =
     foldl report_line \<lparr>pr_tokens = [], pr_tokenless = [], pr_garbled = False\<rparr> (text_lines stdout)"

definition seen_as :: "ps_report \<Rightarrow> u32 \<Rightarrow> liveness" where
  "seen_as report i =
     (case map_of (pr_tokens report) i of
        Some shown \<Rightarrow> Alive shown
      | None \<Rightarrow>
          if pr_garbled report \<or> List.member (pr_tokenless report) i then Unreadable else Gone)"

definition all_unreadable :: "u32 list \<Rightarrow> (u32 \<times> liveness) list" where
  "all_unreadable pids = map (\<lambda>i. (i, Unreadable)) pids"

definition parse_member_row :: "string \<Rightarrow> u32 option" where
  "parse_member_row line =
     (case split_whitespace line of
        first # second # rest \<Rightarrow> Option.bind (parse_u32 first) (\<lambda>_. parse_u32 second)
      | _ \<Rightarrow> None)"

definition count_group_members :: "string \<Rightarrow> u32 \<Rightarrow> nat" where
  "count_group_members stdout pgid =
     length (filter (\<lambda>member. member = pgid) (filter_map parse_member_row (text_lines stdout)))"

definition join_pids :: "u32 list \<Rightarrow> string" where
  "join_pids pids = join '','' (map show_word pids)"

record group_row =
  gr_pid :: u32
  gr_pgid :: u32
  gr_sample :: resource_sample

definition to_digit :: "string \<Rightarrow> u32 option" where
  "to_digit letter = (case letter of [c] \<Rightarrow> if is_digit c then Some (of_nat (digit_value c)) else None | _ \<Rightarrow> None)"

definition parse_tenths :: "string \<Rightarrow> u32 option" where
  "parse_tenths raw =
     (let (whole, fraction) = (case split_once ''.'' raw of None \<Rightarrow> (raw, ''0'') | Some parts \<Rightarrow> parts) in
      case parse_u32 whole of
        None \<Rightarrow> None
      | Some whole \<Rightarrow>
          (case chars fraction of
             [] \<Rightarrow> None
           | letter # _ \<Rightarrow>
               (case to_digit letter of
                  None \<Rightarrow> None
                | Some tenths \<Rightarrow> Some (saturating_add (saturating_mul whole 10) tenths))))"

definition parse_group_row :: "string \<Rightarrow> group_row option" where
  "parse_group_row line =
     (case split_whitespace line of
        a # b # c # e # rest \<Rightarrow>
          do { i \<leftarrow> parse_u32 a; pgid \<leftarrow> parse_u32 b; kib \<leftarrow> parse_u64 c; tenths \<leftarrow> parse_tenths e;
               Some \<lparr>gr_pid = i, gr_pgid = pgid, gr_sample = \<lparr>rss_kib = kib, cpu_tenths = tenths\<rparr>\<rparr> }
      | _ \<Rightarrow> None)"

definition parse_group_rows :: "string \<Rightarrow> group_row list" where
  "parse_group_rows stdout = filter_map parse_group_row (text_lines stdout)"

definition EMPTY_SAMPLE :: resource_sample where
  "EMPTY_SAMPLE = \<lparr>rss_kib = 0, cpu_tenths = 0\<rparr>"

definition add_sample :: "resource_sample \<Rightarrow> resource_sample \<Rightarrow> resource_sample" where
  "add_sample subtotal sample =
     subtotal\<lparr>rss_kib := saturating_add (rss_kib subtotal) (rss_kib sample),
           cpu_tenths := saturating_add (cpu_tenths subtotal) (cpu_tenths sample)\<rparr>"

type_synonym samples = "(u32 \<times> resource_sample) list"

definition add_row :: "samples \<times> samples \<Rightarrow> group_row \<Rightarrow> samples \<times> samples" where
  "add_row acc row =
     (let (totals, own) = acc;
          subtotal = (case map_of totals (gr_pgid row) of None \<Rightarrow> EMPTY_SAMPLE | Some t \<Rightarrow> t) in
      (AList.update (gr_pgid row) (add_sample subtotal (gr_sample row)) totals,
       AList.update (gr_pid row) (gr_sample row) own))"

definition sample_for :: "u32 \<Rightarrow> samples \<Rightarrow> samples \<Rightarrow> resource_sample option" where
  "sample_for i own totals =
     (case map_of own i of
        None \<Rightarrow> None
      | Some mine \<Rightarrow> Some (case map_of totals i of None \<Rightarrow> mine | Some subtotal \<Rightarrow> subtotal))"

definition group_totals_for :: "group_row list \<Rightarrow> u32 list \<Rightarrow> samples" where
  "group_totals_for rows targets =
     (let (totals, own) = foldl add_row ([], []) rows in
      foldl (\<lambda>m i. case sample_for i own totals of None \<Rightarrow> m | Some s \<Rightarrow> btree_insert i s m) [] targets)"

subsection \<open>Asking\<close>

record ps_process_probe =
  pp_program :: string
  pp_timeout_ms :: u64
  pp_poll_interval_ms :: u64

definition PS_PROGRAM :: string where "PS_PROGRAM = ''/bin/ps''"

definition probe_with_timeout :: "u64 \<Rightarrow> u64 \<Rightarrow> ps_process_probe" where
  "probe_with_timeout timeout_ms poll_interval_ms =
     \<lparr>pp_program = PS_PROGRAM, pp_timeout_ms = timeout_ms, pp_poll_interval_ms = poll_interval_ms\<rparr>"

definition probe_step :: "ps_process_probe \<Rightarrow> u64" where
  "probe_step P = max (pp_poll_interval_ms P) 1"

definition ps_command :: "ps_process_probe \<Rightarrow> string list \<Rightarrow> helper_command" where
  "ps_command P arguments =
     \<lparr>hc_program = pp_program P, hc_env = [(''LC_ALL'', ''C''), (''TZ'', ''UTC0'')], hc_args = arguments\<rparr>"

definition read_ps :: "ps_process_probe \<Rightarrow> runner \<Rightarrow> string list \<Rightarrow> string option" where
  "read_ps P run arguments =
     (case run (ps_command P arguments) (pp_timeout_ms P) of
        CommandStalled \<Rightarrow> None
      | SpawnFailed e \<Rightarrow> None
      | CommandFinished output \<Rightarrow>
          if \<not> status_success (co_status output) \<and> co_status output \<noteq> Some 1 then None
          else Some (from_utf8_lossy (co_stdout output)))"

definition ask_every_process :: "ps_process_probe \<Rightarrow> runner \<Rightarrow> string \<Rightarrow> string option" where
  "ask_every_process P run format = read_ps P run [''-ww'', ''-A'', ''-o'', format]"

definition ask_ps :: "ps_process_probe \<Rightarrow> runner \<Rightarrow> string \<Rightarrow> string \<Rightarrow> string option" where
  "ask_ps P run format joined = read_ps P run [''-ww'', ''-o'', format, ''-p'', joined]"

definition probe_identities :: "ps_process_probe \<Rightarrow> runner \<Rightarrow> u32 list \<Rightarrow> (u32 \<times> liveness) list" where
  "probe_identities P run pids =
     (if pids = [] then []
      else case ask_ps P run ''pid=,lstart='' (join_pids pids) of
        None \<Rightarrow> all_unreadable pids
      | Some stdout \<Rightarrow> (let listed = parse_report stdout in map (\<lambda>i. (i, seen_as listed i)) pids))"

definition probe_identity :: "ps_process_probe \<Rightarrow> runner \<Rightarrow> u32 \<Rightarrow> liveness" where
  "probe_identity P run i = identity_of_one (probe_identities P run) i"

definition grouped_samples :: "ps_process_probe \<Rightarrow> runner \<Rightarrow> u32 list \<Rightarrow> samples" where
  "grouped_samples P run pids =
     (if pids = [] then []
      else case ask_every_process P run ''pid=,pgid=,rss=,pcpu='' of
        None \<Rightarrow> []
      | Some stdout \<Rightarrow> group_totals_for (parse_group_rows stdout) pids)"

definition probe_resident_memory :: "ps_process_probe \<Rightarrow> runner \<Rightarrow> u32 list \<Rightarrow> (u32 \<times> u64) list" where
  "probe_resident_memory P run pids = map (\<lambda>(i, sample). (i, rss_kib sample)) (grouped_samples P run pids)"

definition probe_resource_usage :: "ps_process_probe \<Rightarrow> runner \<Rightarrow> u32 list \<Rightarrow> samples" where
  "probe_resource_usage P run pids = grouped_samples P run pids"

definition group_is_empty :: "ps_process_probe \<Rightarrow> runner \<Rightarrow> u32 \<Rightarrow> bool option" where
  "group_is_empty P run pgid =
     (case ask_every_process P run ''pid=,pgid='' of
        None \<Rightarrow> None
      | Some stdout \<Rightarrow> Some (count_group_members stdout pgid = 0))"

definition group_flow :: "bool option \<Rightarrow> bool flow" where
  "group_flow vacant =
     (case vacant of Some False \<Rightarrow> Continue False | Some True \<Rightarrow> Break True | None \<Rightarrow> Break False)"

text \<open>The answers to the checks of a wait are those of successive runs of \<open>ps\<close>.\<close>

definition probe_wait_group_gone ::
  "ps_process_probe \<Rightarrow> (nat \<Rightarrow> runner) \<Rightarrow> (nat \<Rightarrow> nat) \<Rightarrow> u32 \<Rightarrow> u64 \<Rightarrow> bool option" where
  "probe_wait_group_gone P run clock pgid timeout_ms =
     poll_until clock (\<lambda>k. group_flow (group_is_empty P (run k) pgid))
       (unat timeout_ms) (unat (probe_step P)) 0"

definition probe_wait_gone ::
  "ps_process_probe \<Rightarrow> (nat \<Rightarrow> runner) \<Rightarrow> (nat \<Rightarrow> nat) \<Rightarrow> u32 \<Rightarrow> u64 \<Rightarrow> liveness option" where
  "probe_wait_gone P run clock i timeout_ms =
     wait_gone_with clock (\<lambda>k. probe_identity P (run k) i) (unat timeout_ms) (unat (probe_step P))"

subsection \<open>The probe of unix keeps the interface\<close>

lemma folded_keys:
  "fst ` set (foldl (\<lambda>m i. case f i of None \<Rightarrow> m | Some v \<Rightarrow> btree_insert i v m) m is) \<subseteq> fst ` set m \<union> set is"
proof (induction "is" arbitrary: m)
  case (Cons i "is")
  have "fst ` set (case f i of None \<Rightarrow> m | Some v \<Rightarrow> btree_insert i v m) \<subseteq> insert i (fst ` set m)"
    using keys_btree_insert[of i _ m] by (auto split: option.split)
  with Cons[of "case f i of None \<Rightarrow> m | Some v \<Rightarrow> btree_insert i v m"] show ?case by auto
qed simp

lemma group_totals_keys: "fst ` set (group_totals_for rows pids) \<subseteq> set pids"
proof -
  obtain totals own where "foldl add_row ([], []) rows = (totals, own)" by fastforce
  then show ?thesis
    using folded_keys[of "\<lambda>i. sample_for i own totals" "[]" pids] by (simp add: group_totals_for_def)
qed

lemma probe_step_positive: "0 < unat (probe_step P)"
  by (auto simp: probe_step_def max_def word_le_nat_alt unat_gt_0)

interpretation ps: process_probe "probe_identities P" "probe_resource_usage P"
  "\<lambda>run pgid. group_flow (group_is_empty P run pgid)" "unat (probe_step P)" for P
proof
  fix i l run pids assume "(i, l) \<in> set (probe_identities P run pids)"
  then show "i \<in> set pids"
    by (auto simp: probe_identities_def all_unreadable_def Let_def split: if_splits option.splits)
next
  fix i sample run pids assume "(i, sample) \<in> set (probe_resource_usage P run pids)"
  then have "i \<in> fst ` set (probe_resource_usage P run pids)" by force
  also have "\<dots> \<subseteq> set pids"
    using group_totals_keys by (auto simp: probe_resource_usage_def grouped_samples_def split: option.splits)
  finally show "i \<in> set pids" .
qed (rule probe_step_positive)

subsection \<open>Signalling\<close>

record kill_signaler =
  ks_program :: string
  ks_stop_signal :: string
  ks_timeout_ms :: u64

definition KILL_PROGRAM :: string where "KILL_PROGRAM = ''/bin/kill''"
definition FORCE_SIGNAL :: string where "FORCE_SIGNAL = ''KILL''"
definition LOWEST_SIGNALABLE_PID :: u32 where "LOWEST_SIGNALABLE_PID = 2"

definition with_stop_signal :: "string \<Rightarrow> u64 \<Rightarrow> kill_signaler" where
  "with_stop_signal stop_signal timeout_ms =
     \<lparr>ks_program = KILL_PROGRAM, ks_stop_signal = stop_signal, ks_timeout_ms = timeout_ms\<rparr>"

definition is_signalable :: "u32 \<Rightarrow> bool" where
  "is_signalable i \<longleftrightarrow> (if i < LOWEST_SIGNALABLE_PID then False else unat i < 2 ^ 31)"

definition group_target :: "u32 \<Rightarrow> string" where
  "group_target i = ''-'' @ show_word i"

definition signal_arguments :: "string \<Rightarrow> string \<Rightarrow> string list" where
  "signal_arguments signal destination = [''-'' @ signal, ''--'', destination]"

definition signal_command :: "kill_signaler \<Rightarrow> string \<Rightarrow> string \<Rightarrow> helper_command" where
  "signal_command K signal destination =
     \<lparr>hc_program = ks_program K, hc_env = [], hc_args = signal_arguments signal destination\<rparr>"

definition signal_target :: "kill_signaler \<Rightarrow> runner \<Rightarrow> string \<Rightarrow> string \<Rightarrow> u32 \<Rightarrow> signal_error + unit" where
  "signal_target K run signal destination i =
     (case run (signal_command K signal destination) (ks_timeout_ms K) of
        CommandStalled \<Rightarrow>
          Inl (Delivery i (ks_program K @ '' did not answer within '' @ show_word (ks_timeout_ms K) @ ''ms''))
      | SpawnFailed error \<Rightarrow> Inl (Delivery i error)
      | CommandFinished output \<Rightarrow>
          if status_success (co_status output) then Inr ()
          else Inl (Delivery i
            (describe_refusal (from_utf8_lossy (co_stderr output)) (exit_code_of (co_status output)))))"

text \<open>
  The commands that are run go into a list; \<open>run n\<close> answers the command that is run after \<open>n\<close> others.
\<close>

definition kill_deliver ::
  "kill_signaler \<Rightarrow> (nat \<Rightarrow> runner) \<Rightarrow> string \<Rightarrow> u32 \<Rightarrow> signal_scope \<Rightarrow>
   (signal_error + unit) \<times> helper_command list" where
  "kill_deliver K run signal i scope =
     (if \<not> is_signalable i then (Inl (Delivery i ''pid is outside the safe range''), [])
      else
       let group = (if reaches_the_group scope then [signal_command K signal (group_target i)] else []) in
       if group \<noteq> [] \<and> signal_target K (run 0) signal (group_target i) i = Inr () then (Inr (), group)
       else (signal_target K (run (length group)) signal (show_word i) i,
             group @ [signal_command K signal (show_word i)]))"

definition kill_terminate ::
  "kill_signaler \<Rightarrow> (nat \<Rightarrow> runner) \<Rightarrow> u32 \<Rightarrow> signal_scope \<Rightarrow> (signal_error + unit) \<times> helper_command list" where
  "kill_terminate K run i scope = kill_deliver K run (ks_stop_signal K) i scope"

definition kill_force ::
  "kill_signaler \<Rightarrow> (nat \<Rightarrow> runner) \<Rightarrow> u32 \<Rightarrow> signal_scope \<Rightarrow> (signal_error + unit) \<times> helper_command list" where
  "kill_force K run i scope = kill_deliver K run FORCE_SIGNAL i scope"

subsection \<open>Digests\<close>

fun hex_byte :: "char \<Rightarrow> string" where
  "hex_byte byte = (let digit = (\<lambda>d. char_of (if d < 10 then 48 + d else 87 + d :: nat)) in
     [digit (of_char byte div 16), digit (of_char byte mod 16)])"

definition hex_text :: "string \<Rightarrow> string" where
  "hex_text bytes = concat (map hex_byte bytes)"

subsection \<open>A process is gone only on a complete answer\<close>

definition row_pids :: "string \<Rightarrow> u32 option" where
  "row_pids line = map_option fst (parse_row (trim_start line))"

lemma report_line_keeps:
  "pr_garbled report \<Longrightarrow> pr_garbled (report_line report line)"
  "map_of (pr_tokens report) i \<noteq> None \<Longrightarrow> map_of (pr_tokens (report_line report line)) i \<noteq> None"
  "i \<in> set (pr_tokenless report) \<Longrightarrow> i \<in> set (pr_tokenless (report_line report line))"
  by (auto simp: report_line_def Let_def update_conv' split: option.splits prod.splits if_splits)

lemma report_lines_gone:
  assumes "report = foldl report_line report0 shown"
    and "\<not> pr_garbled report" and "map_of (pr_tokens report) i = None" and "i \<notin> set (pr_tokenless report)"
  shows "\<forall>line\<in>set shown. trim_start line = [] \<or> (\<exists>j. row_pids line = Some j \<and> j \<noteq> i)"
  using assms
proof (induction shown arbitrary: report0)
  case (Cons line shown)
  let ?mid = "report_line report0 line"
  have later: "report = foldl report_line ?mid shown" using Cons.prems(1) by simp
  have keeps: "P ?mid \<Longrightarrow> (\<And>r l. P r \<Longrightarrow> P (report_line r l)) \<Longrightarrow> P (foldl report_line ?mid shown)" for P
    by (induction shown rule: rev_induct) auto
  have "pr_garbled ?mid \<Longrightarrow> pr_garbled report"
    unfolding later by (rule keeps) (auto intro: report_line_keeps)
  moreover have "map_of (pr_tokens ?mid) i \<noteq> None \<Longrightarrow> map_of (pr_tokens report) i \<noteq> None"
    unfolding later by (rule keeps) (use report_line_keeps(2) in auto)
  moreover have "i \<in> set (pr_tokenless ?mid) \<Longrightarrow> i \<in> set (pr_tokenless report)"
    unfolding later by (rule keeps) (auto intro: report_line_keeps)
  ultimately have clean: "\<not> pr_garbled ?mid" "map_of (pr_tokens ?mid) i = None" "i \<notin> set (pr_tokenless ?mid)"
    using Cons.prems(2-4) by blast+
  then have "trim_start line = [] \<or> (\<exists>j. row_pids line = Some j \<and> j \<noteq> i)"
    by (auto simp: report_line_def Let_def row_pids_def update_conv' split: option.splits prod.splits if_splits)
  with Cons.IH[OF later Cons.prems(2-4)] show ?case by simp
qed simp

lemma gone_on_evidence:
  assumes "map_of (probe_identities P run pids) i = Some Gone"
  shows "\<exists>output.
    run (ps_command P [''-ww'', ''-o'', ''pid=,lstart='', ''-p'', join_pids pids]) (pp_timeout_ms P) =
      CommandFinished output \<and>
    (co_status output = Some 0 \<or> co_status output = Some 1) \<and>
    (\<forall>line\<in>set (text_lines (from_utf8_lossy (co_stdout output))).
       trim_start line = [] \<or> (\<exists>j. row_pids line = Some j \<and> j \<noteq> i))"
proof -
  have answered: "ask_ps P run ''pid=,lstart='' (join_pids pids) \<noteq> None"
    using assms by (auto simp: probe_identities_def all_unreadable_def map_of_map_restrict
        restrict_map_def split: if_splits option.splits dest!: map_of_SomeD)
  then obtain stdout where stdout: "ask_ps P run ''pid=,lstart='' (join_pids pids) = Some stdout" by blast
  have "seen_as (parse_report stdout) i = Gone"
    using assms stdout by (auto simp: probe_identities_def Let_def split: if_splits dest!: map_of_SomeD)
  then have clean: "\<not> pr_garbled (parse_report stdout)" "map_of (pr_tokens (parse_report stdout)) i = None"
      "i \<notin> set (pr_tokenless (parse_report stdout))"
    by (auto simp: seen_as_def split: option.splits if_splits)
  have rows: "\<forall>line\<in>set (text_lines stdout). trim_start line = [] \<or> (\<exists>j. row_pids line = Some j \<and> j \<noteq> i)"
    using report_lines_gone[OF parse_report_def clean] .
  show ?thesis
    using stdout rows
    by (auto simp: ask_ps_def read_ps_def status_success_def split: command_outcome.splits if_splits)
qed

subsection \<open>No command reaches more than the process or its group\<close>

lemma signalable_pid: "is_signalable i \<longleftrightarrow> 2 \<le> unat i \<and> unat i < 2 ^ 31"
  by (auto simp: is_signalable_def LOWEST_SIGNALABLE_PID_def word_less_nat_alt)

lemma kill_commands:
  assumes "kill_deliver K run signal i scope = (r, issued)" and "command \<in> set issued"
  shows "2 \<le> unat i" and "unat i < 2 ^ 31" and "hc_program command = ks_program K"
    and "hc_args command = [''-'' @ signal, ''--'', show_nat (unat i)] \<or>
      (scope = ProcessGroup \<and> hc_args command = [''-'' @ signal, ''--'', ''-'' @ show_nat (unat i)])"
proof -
  have ok: "is_signalable i" using assms by (auto simp: kill_deliver_def split: if_splits)
  then show "2 \<le> unat i" "unat i < 2 ^ 31" by (simp_all add: signalable_pid)
  have "command = signal_command K signal (show_word i) \<or>
      (reaches_the_group scope \<and> command = signal_command K signal (group_target i))"
    using assms ok by (auto simp: kill_deliver_def Let_def split: if_splits)
  then show "hc_program command = ks_program K"
    and "hc_args command = [''-'' @ signal, ''--'', show_nat (unat i)] \<or>
      (scope = ProcessGroup \<and> hc_args command = [''-'' @ signal, ''--'', ''-'' @ show_nat (unat i)])"
    by (auto simp: signal_command_def signal_arguments_def show_word_def group_target_def
        reaches_the_group_def split: signal_scope.splits)
qed

lemma signal_target_ok:
  "signal_target K run signal destination i = Inr () \<Longrightarrow>
    \<exists>output. run (signal_command K signal destination) (ks_timeout_ms K) = CommandFinished output \<and>
      co_status output = Some 0"
  by (auto simp: signal_target_def status_success_def split: command_outcome.splits if_splits)

lemma kill_success:
  assumes "kill_deliver K run signal i scope = (Inr (), issued)"
  shows "\<exists>command output k. command \<in> set issued \<and> run k command (ks_timeout_ms K) = CommandFinished output \<and>
    co_status output = Some 0"
proof -
  have "\<exists>command k. command \<in> set issued \<and>
      (\<exists>output. run k command (ks_timeout_ms K) = CommandFinished output \<and> co_status output = Some 0)"
    using assms
    by (auto simp: kill_deliver_def Let_def split: if_splits dest!: signal_target_ok; blast)
  then show ?thesis by blast
qed

end
