(* ===== verification/Watching.thy ===== *)
theory Watching
  imports Commands Programs
begin

text \<open>
  Launching and watching processes (\<open>adapters/src/process/tokio_launcher.rs\<close>, \<open>watcher.rs\<close>,
  \<open>ready_probe.rs\<close>): the table of children and adopted processes, the shared poller that tells the
  waiters of adopted processes when theirs is gone, and the readiness checks. The poller and the
  waiters are tasks that meet at a lock; each locked section is one step.
\<close>

subsection \<open>The launcher\<close>

record tracked =
  tk_children :: "u32 list"
  tk_live :: "u32 list"

definition is_child :: "tracked \<Rightarrow> u32 \<Rightarrow> bool" where
  "is_child t i \<longleftrightarrow> List.member (tk_children t) i"

definition launcher_release :: "u32 \<Rightarrow> tracked \<Rightarrow> tracked" where
  "launcher_release i t = t\<lparr>tk_live := removeAll i (tk_live t)\<rparr>"

definition take_child :: "u32 \<Rightarrow> tracked \<Rightarrow> bool \<times> tracked" where
  "take_child i t = (is_child t i, t\<lparr>tk_children := removeAll i (tk_children t)\<rparr>)"

text \<open>\<open>waited\<close> is what the operating system answers: \<open>None\<close> when waiting fails.\<close>

definition launcher_wait :: "u32 \<Rightarrow> int option option \<Rightarrow> tracked \<Rightarrow> exit_outcome option \<times> tracked" where
  "launcher_wait i waited t =
     (case take_child i t of
        (False, t) \<Rightarrow> (None, t)
      | (True, t) \<Rightarrow>
          (Some (case waited of None \<Rightarrow> Unobserved | Some status \<Rightarrow> exit_outcome_of status),
           launcher_release i t))"

definition launcher_adopt :: "u32 \<Rightarrow> tracked \<Rightarrow> tracked" where
  "launcher_adopt i t = t\<lparr>tk_live := List.insert i (tk_live t)\<rparr>"

definition launcher_tracked_pids :: "tracked \<Rightarrow> u32 list" where
  "launcher_tracked_pids t = tk_live t"

record process_command =
  pc_program :: string
  pc_args :: "string list"
  pc_cwd :: string
  pc_env :: "(string \<times> string) list"
  pc_stdout :: string
  pc_stderr :: string
  pc_process_group :: int

definition build_command :: "launch_spec \<Rightarrow> process_command" where
  "build_command spec =
     \<lparr>pc_program = ls_program spec, pc_args = ls_args spec, pc_cwd = ls_cwd spec, pc_env = ls_env spec,
      pc_stdout = stdout_path spec, pc_stderr = stderr_path spec, pc_process_group = 0\<rparr>"

definition open_for_append :: "(string \<Rightarrow> string option) \<Rightarrow> string \<Rightarrow> string \<Rightarrow> launch_error + unit" where
  "open_for_append append_fails app path =
     (case append_fails path of None \<Rightarrow> Inr () | Some reason \<Rightarrow> Inl (LogFile app path reason))"

definition launcher_spawn ::
  "(string \<Rightarrow> string option) \<Rightarrow> (process_command \<Rightarrow> string + u32) \<Rightarrow> launch_spec \<Rightarrow> tracked \<Rightarrow>
   (launch_error + launched_process) \<times> tracked" where
  "launcher_spawn append_fails start spec t =
     (case open_for_append append_fails (ls_name spec) (stdout_path spec) of Inl e \<Rightarrow> (Inl e, t) | Inr _ \<Rightarrow>
     (case open_for_append append_fails (ls_name spec) (stderr_path spec) of Inl e \<Rightarrow> (Inl e, t) | Inr _ \<Rightarrow>
     (case start (build_command spec) of
        Inl reason \<Rightarrow> (Inl (Spawn (ls_name spec) reason), t)
      | Inr i \<Rightarrow>
          (Inr \<lparr>lp_pid = i\<rparr>,
           t\<lparr>tk_live := List.insert i (tk_live t), tk_children := List.insert i (tk_children t)\<rparr>))))"

definition tracked_ok :: "tracked \<Rightarrow> bool" where
  "tracked_ok t \<longleftrightarrow> set (tk_children t) \<subseteq> set (tk_live t)"

lemma tracked_ok_steps:
  assumes "tracked_ok t"
  shows "tracked_ok (launcher_adopt i t)" and "tracked_ok (snd (launcher_wait i waited t))"
    and "tracked_ok (snd (launcher_spawn append_fails start spec t))"
    and "\<not> is_child t i \<Longrightarrow> tracked_ok (launcher_release i t)"
  using assms
  by (auto simp: tracked_ok_def launcher_adopt_def launcher_wait_def take_child_def is_child_def
      launcher_release_def launcher_spawn_def split: bool.splits sum.splits)

lemma launcher_spawn_tracks:
  assumes "launcher_spawn append_fails start spec t = (Inr launched, t')"
  shows "is_child t' (lp_pid launched)" and "lp_pid launched \<in> set (launcher_tracked_pids t')"
  using assms
  by (auto simp: launcher_spawn_def is_child_def launcher_tracked_pids_def split: sum.splits)

lemma launcher_wait_reaps:
  assumes "launcher_wait i waited t = (Some outcome, t')"
  shows "\<not> is_child t' i" and "i \<notin> set (launcher_tracked_pids t')"
  using assms
  by (auto simp: launcher_wait_def take_child_def is_child_def launcher_release_def
      launcher_tracked_pids_def split: bool.splits)

subsection \<open>Waiting for the socket to be released\<close>

lemma saturating_step:
  "waited < budget \<Longrightarrow> 1 \<le> step \<Longrightarrow> waited < saturating_add waited step" for waited budget step :: u64
proof -
  assume less: "waited < budget" and step: "1 \<le> step"
  have "unat budget < 2 ^ LENGTH(64)" by (rule unsigned_less)
  then have "unat waited < 2 ^ 64 - 1" using less by (simp add: word_less_nat_alt)
  moreover have "0 < unat step" using step by (simp add: word_le_nat_alt)
  ultimately show "waited < saturating_add waited step"
    by (simp add: word_less_nat_alt unat_saturating_add)
qed

text \<open>\<open>exists n\<close>: whether the path is there at the \<open>n\<close>-th look.\<close>

function released_after :: "(nat \<Rightarrow> bool) \<Rightarrow> u64 \<Rightarrow> u64 \<Rightarrow> u64 \<Rightarrow> nat \<Rightarrow> bool" where
  "released_after present timeout_ms step waited n =
     (if \<not> present n then True
      else if timeout_ms \<le> waited then False
      else if step = 0 then False
      else released_after present timeout_ms step (saturating_add waited step) (n + 1))"
  by pat_completeness auto
termination
proof (relation "measure (\<lambda>(present, timeout_ms, step, waited, n). unat timeout_ms - unat waited)", goal_cases)
  case (2 present timeout_ms step waited n)
  then have "waited < timeout_ms" "1 \<le> step"
    by (auto simp: not_le word_le_nat_alt unat_eq_0 Suc_le_eq word_neq_0_conv word_less_nat_alt)
  with saturating_step[of waited timeout_ms step] show ?case by (simp add: word_less_nat_alt diff_less_mono2)
qed auto

declare released_after.simps [simp del]

definition wait_until_released :: "(nat \<Rightarrow> bool) \<Rightarrow> u64 \<Rightarrow> u64 \<Rightarrow> bool" where
  "wait_until_released present timeout_ms poll_interval_ms =
     released_after present timeout_ms (max poll_interval_ms 1) 0 0"

lemma released_after_sound: "released_after present t s w n \<Longrightarrow> \<exists>k\<ge>n. \<not> present k"
proof (induction present t s w n rule: released_after.induct)
  case (1 present t s w n)
  show ?case
  proof (cases "present n")
    case True
    with "1.prems" have running: "\<not> t \<le> w" "s \<noteq> 0"
        "released_after present t s (saturating_add w s) (n + 1)"
      by (subst (asm) released_after.simps; auto split: if_splits)+
    from "1.IH"[OF _ running] True show ?thesis by (auto dest: Suc_leD)
  qed auto
qed

subsection \<open>Who still runs\<close>

definition holds_the_same_process :: "string option \<Rightarrow> string \<Rightarrow> bool" where
  "holds_the_same_process expected seen =
     (case expected of None \<Rightarrow> True | Some known \<Rightarrow> if known = seen then True else False)"

definition still_running :: "string option \<Rightarrow> liveness option \<Rightarrow> bool" where
  "still_running expected seen =
     (case seen of
        Some (Alive reported) \<Rightarrow> holds_the_same_process expected reported
      | Some Unreadable \<Rightarrow> True
      | None \<Rightarrow> True
      | Some Gone \<Rightarrow> False)"

record poll_cadence =
  pd_interval_ms :: u64
  pd_max_interval_ms :: u64

definition next_after :: "poll_cadence \<Rightarrow> u64 \<Rightarrow> u64" where
  "next_after cadence waited_ms =
     (let doubled = saturating_mul waited_ms 2 in
      if pd_max_interval_ms cadence < doubled then pd_max_interval_ms cadence else doubled)"

subsection \<open>The shared poller\<close>

text \<open>A waiter is a task that waits for the departure of a pid; \<open>wt_task\<close> tells the tasks apart.\<close>

record waiter =
  wt_token :: "string option"
  wt_task :: nat

record watch_state =
  wa_polling :: bool
  wa_watched :: "(u32 \<times> waiter list) list"

definition watch_start :: watch_state where
  "watch_start = \<lparr>wa_polling = False, wa_watched = []\<rparr>"

text \<open>Registering tells whether the caller has to start the poller.\<close>

definition register_waiter :: "u32 \<Rightarrow> waiter \<Rightarrow> watch_state \<Rightarrow> bool \<times> watch_state" where
  "register_waiter i w st =
     (let waiters = (case map_of (wa_watched st) i of None \<Rightarrow> [] | Some ws \<Rightarrow> ws) in
      (\<not> wa_polling st,
       st\<lparr>wa_watched := AList.update i (waiters @ [w]) (wa_watched st), wa_polling := True\<rparr>))"

definition roster :: "watch_state \<Rightarrow> u32 list option \<times> watch_state" where
  "roster st =
     (if wa_watched st = [] then (None, st\<lparr>wa_polling := False\<rparr>) else (Some (map fst (wa_watched st)), st))"

definition keeps_waiting :: "(u32 \<Rightarrow> liveness option) \<Rightarrow> u32 \<Rightarrow> waiter \<Rightarrow> bool" where
  "keeps_waiting seen i w \<longleftrightarrow> still_running (wt_token w) (seen i)"

fun release_entries ::
  "(u32 \<Rightarrow> liveness option) \<Rightarrow> (u32 \<times> waiter list) list \<Rightarrow> waiter list \<times> (u32 \<times> waiter list) list" where
  "release_entries seen [] = ([], [])"
| "release_entries seen ((i, waiters) # entries) =
     (let gone = filter (\<lambda>w. \<not> keeps_waiting seen i w) waiters;
          waiting = filter (keeps_waiting seen i) waiters;
          (departed, kept) = release_entries seen entries in
      (gone @ departed, (if waiting \<noteq> [] then [(i, waiting)] else []) @ kept))"

definition release :: "(u32 \<Rightarrow> liveness option) \<Rightarrow> watch_state \<Rightarrow> waiter list \<times> watch_state" where
  "release seen st =
     (let (departed, kept) = release_entries seen (wa_watched st) in (departed, st\<lparr>wa_watched := kept\<rparr>))"

definition all_waiters :: "(u32 \<times> waiter list) list \<Rightarrow> (u32 \<times> waiter) list" where
  "all_waiters entries = concat (map (\<lambda>(i, ws). map (Pair i) ws) entries)"

lemma release_entries_split:
  "release_entries seen entries = (departed, kept) \<Longrightarrow>
    departed = map snd (filter (\<lambda>(i, w). \<not> keeps_waiting seen i w) (all_waiters entries)) \<and>
    all_waiters kept = filter (\<lambda>(i, w). keeps_waiting seen i w) (all_waiters entries) \<and>
    (\<forall>(i, ws)\<in>set kept. ws \<noteq> []) \<and> set (map fst kept) \<subseteq> set (map fst entries)"
proof (induction entries arbitrary: departed kept)
  case Nil
  then show ?case by (simp add: all_waiters_def)
next
  case (Cons entry entries)
  obtain i waiters where entry: "entry = (i, waiters)" by (cases entry)
  obtain departed' kept' where rest: "release_entries seen entries = (departed', kept')"
    by (cases "release_entries seen entries")
  note IH = Cons.IH[OF rest]
  have pairs: "filter (\<lambda>(i, w). P i w) (map (Pair i) waiters) = map (Pair i) (filter (P i) waiters)" for P
    by (induction waiters) auto
  have "departed = filter (\<lambda>w. \<not> keeps_waiting seen i w) waiters @ departed'"
      and kept: "kept = (if filter (keeps_waiting seen i) waiters \<noteq> []
        then [(i, filter (keeps_waiting seen i) waiters)] else []) @ kept'"
    using Cons.prems by (simp_all add: entry rest Let_def)
  with IH show ?case
    by (auto simp: entry all_waiters_def pairs comp_def)
qed

lemma release_split:
  assumes "release seen st = (departed, st')"
  shows "departed = map snd (filter (\<lambda>(i, w). \<not> keeps_waiting seen i w) (all_waiters (wa_watched st)))"
    and "all_waiters (wa_watched st') = filter (\<lambda>(i, w). keeps_waiting seen i w) (all_waiters (wa_watched st))"
  using assms release_entries_split[of seen "wa_watched st"]
  by (auto simp: release_def split: prod.splits)

text \<open>
  The system: the shared state, the pollers that run, each between its locked sections, and the
  waiters that have been told. A poller that has asked answers with whatever the host reported.
\<close>

datatype poller = AtRoster | Asking "u32 list"

record watch_system =
  sy_state :: watch_state
  sy_pollers :: "poller list"
  sy_told :: "waiter list"

definition system_start :: watch_system where
  "system_start = \<lparr>sy_state = watch_start, sy_pollers = [], sy_told = []\<rparr>"

inductive watch_step :: "watch_system \<Rightarrow> watch_system \<Rightarrow> bool" where
  Registers: "register_waiter i w (sy_state s) = (idle, st) \<Longrightarrow>
    watch_step s (s\<lparr>sy_state := st, sy_pollers := sy_pollers s @ (if idle then [AtRoster] else [])\<rparr>)"
| Stops: "sy_pollers s = before @ AtRoster # after \<Longrightarrow> roster (sy_state s) = (None, st) \<Longrightarrow>
    watch_step s (s\<lparr>sy_state := st, sy_pollers := before @ after\<rparr>)"
| Asks: "sy_pollers s = before @ AtRoster # after \<Longrightarrow> roster (sy_state s) = (Some pids, st) \<Longrightarrow>
    watch_step s (s\<lparr>sy_state := st, sy_pollers := before @ Asking pids # after\<rparr>)"
| Releases: "sy_pollers s = before @ Asking pids # after \<Longrightarrow> release seen (sy_state s) = (departed, st) \<Longrightarrow>
    watch_step s (s\<lparr>sy_state := st, sy_pollers := before @ AtRoster # after, sy_told := sy_told s @ departed\<rparr>)"

inductive watch_reachable :: "watch_system \<Rightarrow> bool" where
  Start: "watch_reachable system_start"
| Step: "watch_reachable s \<Longrightarrow> watch_step s s' \<Longrightarrow> watch_reachable s'"

inductive_cases watch_stepE: "watch_step s s'"

definition watch_ok :: "watch_system \<Rightarrow> bool" where
  "watch_ok s \<longleftrightarrow>
     length (sy_pollers s) = (if wa_polling (sy_state s) then 1 else 0) \<and>
     (wa_watched (sy_state s) \<noteq> [] \<longrightarrow> wa_polling (sy_state s)) \<and>
     (\<forall>(i, ws)\<in>set (wa_watched (sy_state s)). ws \<noteq> [])"

lemma update_waiters_nonempty:
  "\<forall>(i, ws)\<in>set m. ws \<noteq> [] \<Longrightarrow> vs \<noteq> [] \<Longrightarrow> \<forall>(i, ws)\<in>set (AList.update j vs m). ws \<noteq> []"
  by (induction m) auto

lemma watch_step_ok: "watch_step s s' \<Longrightarrow> watch_ok s \<Longrightarrow> watch_ok s'"
proof (induction rule: watch_step.induct)
  case (Registers i w s idle st)
  define vs where "vs = (case map_of (wa_watched (sy_state s)) i of None \<Rightarrow> [] | Some ws \<Rightarrow> ws) @ [w]"
  then have "vs \<noteq> []" by simp
  with Registers.hyps have st: "idle = (\<not> wa_polling (sy_state s))" "wa_polling st" "vs \<noteq> []"
      "wa_watched st = AList.update i vs (wa_watched (sy_state s))"
    by (auto simp: register_waiter_def Let_def vs_def[symmetric])
  then have "\<forall>(i, ws)\<in>set (wa_watched st). ws \<noteq> []"
    using Registers.prems unfolding st(4) watch_ok_def by (intro update_waiters_nonempty) auto
  with st Registers.prems show ?case by (auto simp: watch_ok_def split: if_splits)
next
  case (Stops s before after st)
  then show ?case by (auto simp: watch_ok_def roster_def split: if_splits)
next
  case (Asks s before after pids st)
  then show ?case by (auto simp: watch_ok_def roster_def split: if_splits)
next
  case (Releases s before pids after seen departed st)
  have "\<forall>(i, ws)\<in>set (wa_watched st). ws \<noteq> []"
    using Releases.hyps(2) release_entries_split[of seen "wa_watched (sy_state s)"]
    by (auto simp: release_def split: prod.splits)
  moreover have "wa_polling st = wa_polling (sy_state s)"
    using Releases.hyps(2) by (auto simp: release_def split: prod.splits)
  ultimately show ?case using Releases.prems Releases.hyps(1) by (auto simp: watch_ok_def split: if_splits)
qed

lemma watch_reachable_ok: "watch_reachable s \<Longrightarrow> watch_ok s"
proof (induction rule: watch_reachable.induct)
  case Start
  show ?case by (simp add: watch_ok_def system_start_def watch_start_def)
next
  case (Step s s')
  then show ?case using watch_step_ok by blast
qed

definition wait_for_exit ::
  "tracked \<Rightarrow> u32 \<Rightarrow> int option option \<Rightarrow> exit_outcome option \<times> tracked" where
  "wait_for_exit t i waited =
     (if is_child t i then launcher_wait i waited t
      else (Some Unobserved, launcher_release i t))"

subsection \<open>Readiness\<close>

datatype spawn_error_kind = WouldBlock | Interrupted | OutOfMemory | OtherKind

datatype probe_run =
    ProbeSpawnFailed spawn_error_kind string
  | ProbeExited "int option"
  | ProbeWaitFailed string
  | ProbeTimedOut

definition spawn_verdict :: "spawn_error_kind \<Rightarrow> string \<Rightarrow> readiness" where
  "spawn_verdict kind reason =
     (case kind of OtherKind \<Rightarrow> Failed reason | _ \<Rightarrow> Pending)"

definition check_exec ::
  "(string \<Rightarrow> bool) \<Rightarrow> (string \<Rightarrow> string list \<Rightarrow> probe_run) \<Rightarrow> string \<Rightarrow> string list \<Rightarrow> readiness" where
  "check_exec is_executable run search_path command =
     (case command of
        [] \<Rightarrow> Failed ''the ready probe has no command''
      | program # arguments \<Rightarrow>
          (case resolve_with is_executable program (Some search_path) of
             None \<Rightarrow> Failed (''cannot find '' @ quoted program @ '' on pm3.search_path'')
           | Some resolved \<Rightarrow>
               (case run resolved arguments of
                  ProbeSpawnFailed kind reason \<Rightarrow> spawn_verdict kind reason
                | ProbeExited status \<Rightarrow> if status_success status then Ready else Pending
                | ProbeWaitFailed reason \<Rightarrow> Pending
                | ProbeTimedOut \<Rightarrow> Pending)))"

definition check_tcp :: "(string \<Rightarrow> u16 \<Rightarrow> bool) \<Rightarrow> string \<Rightarrow> u16 \<Rightarrow> readiness" where
  "check_tcp connects host port = (if connects host port then Ready else Pending)"

definition prober_check_ready ::
  "(string \<Rightarrow> bool) \<Rightarrow> (string \<Rightarrow> string list \<Rightarrow> probe_run) \<Rightarrow> (string \<Rightarrow> u16 \<Rightarrow> bool) \<Rightarrow> string \<Rightarrow>
   ready_probe \<Rightarrow> readiness" where
  "prober_check_ready is_executable run connects search_path probe =
     (case probe of
        ProbeTcp host port \<Rightarrow> check_tcp connects host port
      | ProbeExec command \<Rightarrow> check_exec is_executable run search_path command)"

end
