(* ===== verification/Splitting.thy ===== *)
theory Splitting
  imports Std_Text
begin

text \<open>
  Facts about texts cut at a separator, into the lines of a file or the segments of a path, and
  about fallible results that are mapped.
\<close>

lemma split_on_absent: "c \<notin> set s \<Longrightarrow> split_on c s = [s]"
  by (induction s) auto

lemma split_parts_free: "part \<in> set (split_on c s) \<Longrightarrow> c \<notin> set part"
  by (induction s arbitrary: part) (auto split: list.splits if_splits)

lemma split_on_extend: "split_on c (s @ t) = butlast (split_on c s) @ split_on c (last (split_on c s) @ t)"
proof (induction s rule: length_induct)
  case (1 s)
  show ?case
  proof (cases "c \<in> set s")
    case True
    then obtain a b where s: "s = a @ c # b" "c \<notin> set a" using split_list_first by force
    have "split_on c (b @ t) = butlast (split_on c b) @ split_on c (last (split_on c b) @ t)"
      using 1 s(1) by simp
    then show ?thesis
      using s(2) split_on_append[of c a "b @ t"] by (simp add: s(1) split_on_append split_on_absent)
  qed (simp add: split_on_absent)
qed

lemma last_split_suffix: "suffix (last (split_on c s)) s"
proof (induction s rule: length_induct)
  case (1 s)
  show ?case
  proof (cases "c \<in> set s")
    case True
    then obtain a b where s: "s = a @ c # b" "c \<notin> set a" using split_list_first by force
    then have "suffix (last (split_on c b)) b" using 1 by simp
    then have "suffix (last (split_on c b)) ((a @ [c]) @ b)" by (rule suffix_appendI)
    then show ?thesis by (simp add: s split_on_append)
  qed (simp add: split_on_absent)
qed

lemma text_lines_newline: "text_lines (a @ CHR 0x0A # b) = map strip_cr (split_on CHR 0x0A a) @ text_lines b"
  by (simp add: text_lines_def Let_def split_on_append butlast_append)

lemma map_sum_Inr: "map_sum f g x = Inr y \<longleftrightarrow> (\<exists>z. x = Inr z \<and> y = g z)"
  by (cases x) auto

lemma components_join: "CHR ''/'' \<notin> set a \<Longrightarrow> components (a @ ''/'' @ b) = a # components b"
  by (simp add: split_on_append split_on_absent)

end
