(* ===== verification/Log_Files.thy ===== *)
theory Log_Files
  imports Commands Disk Starting Splitting
begin

text \<open>
  Log files (\<open>adapters/src/logs\<close>): the last lines of a file read backwards in chunks, a follower
  that reports what is appended, rotation by copying and truncating, and clearing. The host
  answers where an open file ends and what it holds at an offset; file sizes and budgets are
  numbers without a bound, since the code only subtracts from them and takes minima.
\<close>

record log_file_error =
  le_path :: string
  le_reason :: string

definition read_error_text :: "log_file_error \<Rightarrow> string" where
  "read_error_text e = ''cannot read log file '' @ quoted (le_path e) @ '': '' @ le_reason e"

definition clear_error_text :: "log_file_error \<Rightarrow> string" where
  "clear_error_text e = ''cannot clear log file '' @ quoted (le_path e) @ '': '' @ le_reason e"

definition read_error :: "string \<Rightarrow> string \<Rightarrow> log_file_error" where
  "read_error path reason = \<lparr>le_path = path, le_reason = reason\<rparr>"

subsection \<open>The tail of a file\<close>

definition TAIL_CHUNK_BYTES :: nat where
  "TAIL_CHUNK_BYTES = 64 * 1024"

definition tail_lines :: "string \<Rightarrow> nat \<Rightarrow> string list" where
  "tail_lines content wanted = rev (take wanted (rev (text_lines content)))"

text \<open>The answers of a file that does not change while it is read.\<close>

definition file_reads :: "string \<Rightarrow> nat \<Rightarrow> nat \<Rightarrow> io_error + string" where
  "file_reads content start step = Inr (take step (drop start content))"

definition line_breaks :: "string \<Rightarrow> nat" where
  "line_breaks buffer = length (split_on CHR 0x0A buffer) - 1"

text \<open>\<open>at start step\<close> is what the open file holds from \<open>start\<close> on, at most \<open>step\<close> bytes.\<close>

function read_back ::
  "(nat \<Rightarrow> nat \<Rightarrow> io_error + string) \<Rightarrow> nat \<Rightarrow> nat \<Rightarrow> nat \<Rightarrow> string \<Rightarrow> io_error + nat \<times> string" where
  "read_back at wanted max_bytes start buffer =
     (if 0 < start \<and> line_breaks buffer \<le> wanted \<and> length buffer < max_bytes then
        (let budget = max_bytes - length buffer;
             step = min (min TAIL_CHUNK_BYTES start) budget in
         case at (start - step) step of
           Inl error \<Rightarrow> Inl error
         | Inr chunk \<Rightarrow> read_back at wanted max_bytes (start - step) (chunk @ buffer))
      else Inr (start, buffer))"
  by pat_completeness auto
termination
  by (relation "measure (\<lambda>(at, wanted, max_bytes, start, buffer). start)") (auto simp: TAIL_CHUNK_BYTES_def)

declare read_back.simps [simp del]

definition tail_window :: "nat \<Rightarrow> string \<Rightarrow> string" where
  "tail_window start shown =
     (if 0 < start then (case split_once [CHR 0x0A] shown of None \<Rightarrow> shown | Some (partial, rest) \<Rightarrow> rest)
      else shown)"

definition read_tail ::
  "string \<Rightarrow> (io_error + nat) \<Rightarrow> (nat \<Rightarrow> nat \<Rightarrow> io_error + string) \<Rightarrow> nat \<Rightarrow> nat \<Rightarrow> log_file_error + string list"
where
  "read_tail path opened at wanted max_bytes =
     (case opened of
        Inl error \<Rightarrow> Inl (read_error path (io_error_text error))
      | Inr finish \<Rightarrow>
     (case read_back at wanted max_bytes finish [] of
        Inl error \<Rightarrow> Inl (read_error path (io_error_text error))
      | Inr (start, buffer) \<Rightarrow>
          Inr (tail_lines (tail_window start (from_utf8_lossy buffer)) wanted)))"

subsection \<open>Lines of decoded bytes\<close>

lemma newline_ranges [simp]:
  "\<not> is_continuation CHR 0x0A" "128 \<le> low \<Longrightarrow> \<not> in_range low high CHR 0x0A"
  by (simp_all add: is_continuation_def in_range_def)

lemma continue_utf8_newline: "continue_utf8 taken n (a @ CHR 0x0A # b) = continue_utf8 taken n a"
  by (induction taken n a rule: continue_utf8.induct) (auto split: nat.splits)

lemma continue_utf8_bound: "continue_utf8 taken n a = (k, ok) \<Longrightarrow> taken \<le> k \<and> k \<le> taken + length a"
  by (induction taken n a rule: continue_utf8.induct) (auto split: if_splits)

lemma utf8_step_newline: "utf8_step x (a @ CHR 0x0A # b) = utf8_step x a"
  by (cases a) (simp_all add: utf8_step_def Let_def continue_utf8_newline)

lemma utf8_step_bound: "utf8_step x a = (k, ok) \<Longrightarrow> 1 \<le> k \<and> k \<le> Suc (length a)"
  by (auto simp: utf8_step_def Let_def split: if_splits list.splits dest: continue_utf8_bound)

lemma utf8_chunks_newline:
  "utf8_chunks (a @ CHR 0x0A # b) = utf8_chunks a @ ([CHR 0x0A], True) # utf8_chunks b"
proof (induction a rule: utf8_chunks.induct)
  case 1
  show ?case by (simp add: utf8_step_def in_range_def)
next
  case (2 x a)
  obtain k ok where step: "utf8_step x a = (k, ok)" by (cases "utf8_step x a")
  then have k: "1 \<le> k" "k \<le> Suc (length a)" using utf8_step_bound by auto
  then have "take k (x # a @ CHR 0x0A # b) = take k (x # a)"
      "drop (k - 1) (a @ CHR 0x0A # b) = drop (k - 1) a @ CHR 0x0A # b"
    by (cases k; simp)+
  moreover have "utf8_chunks (drop (k - 1) a @ CHR 0x0A # b) =
      utf8_chunks (drop (k - 1) a) @ ([CHR 0x0A], True) # utf8_chunks b"
    using "2.IH"[OF step[symmetric] refl] by simp
  ultimately show ?case by (simp add: step utf8_step_newline)
qed

lemma lossy_newline: "from_utf8_lossy (a @ CHR 0x0A # b) = from_utf8_lossy a @ CHR 0x0A # from_utf8_lossy b"
  by (simp add: from_utf8_lossy_def utf8_chunks_newline)

lemma lossy_Nil [simp]: "from_utf8_lossy [] = []"
  by (simp add: from_utf8_lossy_def)

text \<open>Decoding adds and removes no line feeds.\<close>

lemma utf8_step_no_newline:
  assumes "CHR 0x0A \<notin> set (x # a)"
  shows "CHR 0x0A \<notin> set (from_utf8_lossy (x # a))"
  using assms
proof (induction "x # a" arbitrary: x a rule: utf8_chunks.induct)
  case (2 x a)
  obtain k ok where step: "utf8_step x a = (k, ok)" by (cases "utf8_step x a")
  have "CHR 0x0A \<notin> set (from_utf8_lossy (drop (k - 1) a))"
  proof (cases "drop (k - 1) a")
    case (Cons y ys)
    moreover have "CHR 0x0A \<notin> set (drop (k - 1) a)" using "2.prems" by (auto dest: in_set_dropD)
    ultimately show ?thesis using "2.hyps"[OF step[symmetric] refl Cons] by (simp add: Cons)
  qed simp
  moreover have "CHR 0x0A \<notin> set (take k (x # a))" using "2.prems" by (auto dest: in_set_takeD)
  ultimately show ?case by (auto simp: from_utf8_lossy_def step)
qed

lemma lossy_no_newline: "CHR 0x0A \<notin> set a \<Longrightarrow> CHR 0x0A \<notin> set (from_utf8_lossy a)"
  using utf8_step_no_newline by (cases a) auto


lemma split_on_lossy: "split_on CHR 0x0A (from_utf8_lossy s) = map from_utf8_lossy (split_on CHR 0x0A s)"
proof (induction s rule: length_induct)
  case (1 s)
  show ?case
  proof (cases "CHR 0x0A \<in> set s")
    case True
    then obtain a b where s: "s = a @ CHR 0x0A # b" "CHR 0x0A \<notin> set a" using split_list_first by force
    have "split_on CHR 0x0A (from_utf8_lossy b) = map from_utf8_lossy (split_on CHR 0x0A b)"
      using 1 s(1) by simp
    then show ?thesis
      using s(2) by (simp add: s(1) lossy_newline split_on_append split_on_absent lossy_no_newline)
  qed (simp add: split_on_absent lossy_no_newline)
qed

lemma length_text_lines: "line_breaks s \<le> length (text_lines s)"
  by (simp add: text_lines_def line_breaks_def Let_def)

lemma line_breaks_newline: "CHR 0x0A \<notin> set a \<Longrightarrow> line_breaks (a @ CHR 0x0A # b) = Suc (line_breaks b)"
proof -
  assume "CHR 0x0A \<notin> set a"
  moreover have "0 < length (split_on CHR 0x0A b)" by simp
  ultimately show ?thesis by (simp add: line_breaks_def split_on_append split_on_absent)
qed

lemma line_breaks_lossy: "line_breaks (from_utf8_lossy s) = line_breaks s"
  by (simp add: line_breaks_def split_on_lossy)

lemma tail_lines_suffix:
  "wanted \<le> line_breaks b \<Longrightarrow> tail_lines (a @ CHR 0x0A # b) wanted = tail_lines b wanted"
  using length_text_lines[of b] by (simp add: tail_lines_def text_lines_newline)

lemma read_back_result:
  assumes "at = file_reads content" and "start \<le> length content"
    and "buffer = drop start content" and "length buffer \<le> max_bytes"
  shows "\<exists>start'. read_back at wanted max_bytes start buffer = Inr (start', drop start' content) \<and>
    start' \<le> length content \<and> length content - start' \<le> max_bytes \<and>
    (start' = 0 \<or> wanted < line_breaks (drop start' content) \<or> length content - start' = max_bytes)"
  using assms
proof (induction at wanted max_bytes start buffer rule: read_back.induct)
  case (1 at wanted max_bytes start buffer)
  show ?case
  proof (cases "0 < start \<and> line_breaks buffer \<le> wanted \<and> length buffer < max_bytes")
    case True
    define step where "step = min (min TAIL_CHUNK_BYTES start) (max_bytes - length buffer)"
    have step: "step \<le> start" "step \<le> max_bytes - length buffer" by (simp_all add: step_def)
    have chunk: "at (start - step) step = Inr (take step (drop (start - step) content))"
      using "1.prems"(1) by (simp add: file_reads_def)
    have "drop start content = drop step (drop (start - step) content)" using step by simp
    then have joined: "take step (drop (start - step) content) @ buffer = drop (start - step) content"
      using "1.prems"(3) by (metis append_take_drop_id)
    have "read_back at wanted max_bytes start buffer =
        read_back at wanted max_bytes (start - step) (drop (start - step) content)"
      using True by (subst read_back.simps) (simp add: Let_def step_def[symmetric] chunk joined)
    moreover have "length (drop (start - step) content) \<le> max_bytes"
      using "1.prems" step True by auto
    ultimately show ?thesis
      using "1.IH"[OF True refl step_def chunk "1.prems"(1) _ joined] "1.prems"(2) joined by simp
  next
    case False
    then have "read_back at wanted max_bytes start buffer = Inr (start, buffer)"
      by (subst read_back.simps) (rule if_not_P)
    with False "1.prems" show ?thesis by (intro exI[of _ start]) auto
  qed
qed

text \<open>
  Reading backwards gives the last lines of the whole file whenever the file fits the byte budget,
  or the last \<open>max_bytes\<close> bytes hold more line feeds than lines are wanted.
\<close>

lemma read_tail_is_tail:
  assumes "length content \<le> max_bytes \<or> wanted < line_breaks (drop (length content - max_bytes) content)"
  shows "read_tail path (Inr (length content)) (file_reads content) wanted max_bytes =
    Inr (tail_lines (from_utf8_lossy content) wanted)"
proof -
  obtain start where got: "read_back (file_reads content) wanted max_bytes (length content) [] = Inr (start, drop start content)"
      and start: "start \<le> length content" "length content - start \<le> max_bytes"
        "start = 0 \<or> wanted < line_breaks (drop start content) \<or> length content - start = max_bytes"
    using read_back_result[OF refl, where start = "length content" and buffer = "[]" and content = content]
    by auto
  have enough: "start = 0 \<or> wanted < line_breaks (drop start content)"
  proof (rule disjCI)
    assume few: "\<not> wanted < line_breaks (drop start content)"
    show "start = 0"
    proof (rule ccontr)
      assume "start \<noteq> 0"
      with start few have "start = length content - max_bytes" "\<not> length content \<le> max_bytes" by auto
      with assms few show False by simp
    qed
  qed
  have "tail_lines (tail_window start (from_utf8_lossy (drop start content))) wanted =
      tail_lines (from_utf8_lossy content) wanted"
  proof (cases "start = 0")
    case False
    with enough have more: "wanted < line_breaks (drop start content)" by simp
    then have "CHR 0x0A \<in> set (drop start content)"
      by (cases "CHR 0x0A \<in> set (drop start content)") (simp_all add: line_breaks_def split_on_absent)
    then obtain a b where cut: "drop start content = a @ CHR 0x0A # b" "CHR 0x0A \<notin> set a"
      using split_list_first by force
    have whole: "content = (take start content @ a) @ CHR 0x0A # b"
      using cut(1) append_take_drop_id[of start content] by simp
    have "wanted \<le> line_breaks (from_utf8_lossy b)"
      using more cut by (simp add: line_breaks_newline line_breaks_lossy)
    moreover have "from_utf8_lossy content = from_utf8_lossy (take start content @ a) @ CHR 0x0A # from_utf8_lossy b"
      by (subst whole) (rule lossy_newline)
    moreover have "tail_window start (from_utf8_lossy (drop start content)) = from_utf8_lossy b"
      using False cut(2) by (simp add: tail_window_def cut(1) lossy_newline split_once_at lossy_no_newline)
    ultimately show ?thesis by (simp add: tail_lines_suffix)
  qed (simp add: tail_window_def)
  then show ?thesis by (simp add: read_tail_def got)
qed

subsection \<open>Following a file\<close>

text \<open>
  The host at a poll: the size of the file that is open, the inode its path leads to and whether
  that can be opened, and what an open file holds. The read position of the follower's file is
  always its offset.
\<close>

record log_host =
  lh_content :: "nat \<Rightarrow> string"
  lh_path_inode :: "nat option"
  lh_reopens :: bool
  lh_read_fault :: "io_error option"

record log_follower =
  lf_path :: string
  lf_inode :: nat
  lf_offset :: nat
  lf_pending :: string
  lf_max_pending :: nat

definition start_at_end_if_exists ::
  "string \<Rightarrow> (io_error + nat \<times> nat) \<Rightarrow> nat \<Rightarrow> log_file_error + log_follower option" where
  "start_at_end_if_exists path opened max_pending =
     (case opened of
        Inl error \<Rightarrow> (if error = NotFound then Inr None else Inl (read_error path (io_error_text error)))
      | Inr (inode, finish) \<Rightarrow>
          Inr (Some \<lparr>lf_path = path, lf_inode = inode, lf_offset = finish, lf_pending = [],
                 lf_max_pending = max_pending\<rparr>))"

definition start_at_end ::
  "string \<Rightarrow> (io_error + nat \<times> nat) \<Rightarrow> nat \<Rightarrow> log_file_error + log_follower" where
  "start_at_end path opened max_pending =
     (case start_at_end_if_exists path opened max_pending of
        Inl error \<Rightarrow> Inl error
      | Inr None \<Rightarrow> Inl (read_error path ''the log file does not exist'')
      | Inr (Some follower) \<Rightarrow> Inr follower)"

definition reopen_if_rotated :: "log_host \<Rightarrow> nat \<Rightarrow> nat option" where
  "reopen_if_rotated H inode =
     (case lh_path_inode H of
        None \<Rightarrow> None
      | Some found \<Rightarrow> if found = inode then None else if lh_reopens H then Some found else None)"

definition resync :: "log_host \<Rightarrow> log_follower \<Rightarrow> log_follower" where
  "resync H f =
     (case reopen_if_rotated H (lf_inode f) of
        Some inode \<Rightarrow> f\<lparr>lf_inode := inode, lf_offset := 0, lf_pending := []\<rparr>
      | None \<Rightarrow>
          if length (lh_content H (lf_inode f)) < lf_offset f then f\<lparr>lf_offset := 0, lf_pending := []\<rparr>
          else f)"

function complete_lines :: "string \<Rightarrow> string list \<times> string" where
  "complete_lines pending =
     (case split_once [CHR 0x0A] pending of
        None \<Rightarrow> ([], pending)
      | Some (line, rest) \<Rightarrow> (let (lines, pending) = complete_lines rest in (from_utf8_lossy line # lines, pending)))"
  by pat_completeness auto
termination
  by (relation "measure length") (auto dest: split_once_length)

declare complete_lines.simps [simp del]

definition take_complete_lines :: "log_follower \<Rightarrow> string list \<times> log_follower" where
  "take_complete_lines f =
     (let (lines, pending) = complete_lines (lf_pending f) in
      if lf_max_pending f < length pending
      then (lines @ [from_utf8_lossy pending], f\<lparr>lf_pending := []\<rparr>)
      else (lines, f\<lparr>lf_pending := pending\<rparr>))"

definition poll_appended :: "log_host \<Rightarrow> log_follower \<Rightarrow> (log_file_error + string list) \<times> log_follower" where
  "poll_appended H f =
     (let f = resync H f;
          chunk = take (max (lf_max_pending f) 1) (drop (lf_offset f) (lh_content H (lf_inode f))) in
      case lh_read_fault H of
        Some error \<Rightarrow> (Inl (read_error (lf_path f) (io_error_text error)), f)
      | None \<Rightarrow>
          (let (lines, f) = take_complete_lines
             (f\<lparr>lf_offset := lf_offset f + length chunk, lf_pending := lf_pending f @ chunk\<rparr>) in
           (Inr lines, f)))"

lemma complete_lines_split:
  "complete_lines s = (map from_utf8_lossy (butlast (split_on CHR 0x0A s)), last (split_on CHR 0x0A s))"
proof (induction s rule: complete_lines.induct)
  case (1 s)
  show ?case
  proof (cases "CHR 0x0A \<in> set s")
    case True
    then obtain a b where s: "s = a @ CHR 0x0A # b" "CHR 0x0A \<notin> set a" using split_list_first by force
    then have cut: "split_once [CHR 0x0A] s = Some (a, b)" by (simp add: split_once_at)
    then have "complete_lines s = (let (lines, pending) = complete_lines b in (from_utf8_lossy a # lines, pending))"
      by (subst complete_lines.simps) simp
    then show ?thesis
      using s(2) "1.IH"[OF cut refl] by (simp add: s(1) split_on_append split_on_absent)
  next
    case False
    then have "split_once [CHR 0x0A] s = None" by (simp add: split_once_char)
    with False show ?thesis by (subst complete_lines.simps) (simp add: split_on_absent)
  qed
qed

text \<open>No poll keeps a line feed or more than the budget waiting.\<close>

definition follower_ok :: "log_follower \<Rightarrow> bool" where
  "follower_ok f \<longleftrightarrow> CHR 0x0A \<notin> set (lf_pending f) \<and> length (lf_pending f) \<le> lf_max_pending f"

lemma poll_keeps_ok: "follower_ok f \<Longrightarrow> follower_ok (snd (poll_appended H f))"
proof -
  assume ok: "follower_ok f"
  then have "follower_ok (resync H f)"
    by (auto simp: follower_ok_def resync_def split: option.splits)
  moreover have "follower_ok (snd (take_complete_lines g))" for g
    using split_parts_free[of "last (split_on CHR 0x0A (lf_pending g))" "CHR 0x0A" "lf_pending g"]
    by (auto simp: follower_ok_def take_complete_lines_def complete_lines_split Let_def)
  ultimately show ?thesis
    by (auto simp: poll_appended_def Let_def split: option.splits prod.splits) (metis snd_conv)
qed


text \<open>
  Polling a file that only grows, is not replaced and has no line longer than the budget delivers
  exactly the lines that were completed since the follower started, each once and in order.
\<close>

fun poll_each :: "log_host list \<Rightarrow> log_follower \<Rightarrow> (log_file_error + string list) \<times> log_follower" where
  "poll_each [] f = (Inr [], f)"
| "poll_each (H # Hs) f =
     (case poll_appended H f of
        (Inl error, f) \<Rightarrow> (Inl error, f)
      | (Inr lines, f) \<Rightarrow>
          (case poll_each Hs f of
             (Inl error, f) \<Rightarrow> (Inl error, f)
           | (Inr later, f) \<Rightarrow> (Inr (lines @ later), f)))"

definition steady :: "nat \<Rightarrow> string \<Rightarrow> log_host \<Rightarrow> bool" where
  "steady inode content H \<longleftrightarrow>
     lh_content H inode = content \<and> lh_read_fault H = None \<and> reopen_if_rotated H inode = None"

definition no_long_line :: "nat \<Rightarrow> string \<Rightarrow> bool" where
  "no_long_line limit s \<longleftrightarrow> (\<forall>run. sublist run s \<longrightarrow> CHR 0x0A \<notin> set run \<longrightarrow> length run \<le> limit)"

lemma last_split_short:
  assumes "no_long_line limit s" and "prefix seen s"
  shows "length (last (split_on CHR 0x0A seen)) \<le> limit"
proof -
  have "sublist (last (split_on CHR 0x0A seen)) seen"
    by (rule suffix_imp_sublist) (rule last_split_suffix)
  then have "sublist (last (split_on CHR 0x0A seen)) s"
    using assms(2) by (meson prefix_imp_sublist sublist_order.order_trans)
  moreover have "CHR 0x0A \<notin> set (last (split_on CHR 0x0A seen))"
    using split_parts_free last_in_set split_on_nonempty by blast
  ultimately show ?thesis using assms(1) by (simp add: no_long_line_def)
qed

lemma poll_steady:
  assumes "steady (lf_inode f) content H" and "prefix (before @ seen) content"
    and "lf_offset f = length (before @ seen)" and "lf_pending f = last (split_on CHR 0x0A seen)"
    and "no_long_line (lf_max_pending f) (drop (length before) content)"
  shows "\<exists>chunk. prefix (before @ seen @ chunk) content \<and>
    poll_appended H f =
      (Inr (map from_utf8_lossy (butlast (split_on CHR 0x0A (last (split_on CHR 0x0A seen) @ chunk)))),
       f\<lparr>lf_offset := length (before @ seen @ chunk), lf_pending := last (split_on CHR 0x0A (seen @ chunk))\<rparr>) \<and>
    (length content - lf_offset f \<le> lf_max_pending f \<longrightarrow> before @ seen @ chunk = content)"
proof -
  define chunk where "chunk = take (max (lf_max_pending f) 1) (drop (lf_offset f) content)"
  obtain rest where rest: "content = before @ seen @ rest" using assms(2) by (auto simp: prefix_def)
  have chunk: "chunk = take (max (lf_max_pending f) 1) rest" by (simp add: chunk_def assms(3) rest)
  have prefixes: "prefix (seen @ chunk) (drop (length before) content)" "prefix (before @ seen @ chunk) content"
    by (auto simp: chunk rest take_is_prefix)
  have still: "resync H f = f"
    using assms(1,3) by (simp add: resync_def steady_def rest)
  have parts: "last (split_on CHR 0x0A (last (split_on CHR 0x0A seen) @ chunk)) = last (split_on CHR 0x0A (seen @ chunk))"
    by (simp add: split_on_extend[of _ seen])
  have "length (last (split_on CHR 0x0A (seen @ chunk))) \<le> lf_max_pending f"
    using assms(5) prefixes(1) by (rule last_split_short)
  moreover have "poll_appended H f =
      (let (lines, g) = take_complete_lines
         (f\<lparr>lf_offset := lf_offset f + length chunk, lf_pending := lf_pending f @ chunk\<rparr>) in (Inr lines, g))"
    using assms(1) by (simp add: poll_appended_def still Let_def steady_def chunk_def)
  ultimately have "poll_appended H f =
      (Inr (map from_utf8_lossy (butlast (split_on CHR 0x0A (last (split_on CHR 0x0A seen) @ chunk)))),
       f\<lparr>lf_offset := length (before @ seen @ chunk), lf_pending := last (split_on CHR 0x0A (seen @ chunk))\<rparr>)"
    using assms(3,4) by (simp add: take_complete_lines_def complete_lines_split parts)
  moreover have "length content - lf_offset f \<le> lf_max_pending f \<longrightarrow> before @ seen @ chunk = content"
    by (auto simp: assms(3) rest chunk)
  ultimately show ?thesis using prefixes(2) by blast
qed

lemma follower_delivers:
  assumes "list_all2 (steady inode) contents Hs" and "lf_inode f = inode" and "sorted_wrt prefix (contents @ [final])"
    and "\<forall>content\<in>set contents. prefix (before @ seen) content" and "prefix (before @ seen) final"
    and "lf_offset f = length (before @ seen)" and "lf_pending f = last (split_on CHR 0x0A seen)"
    and "no_long_line (lf_max_pending f) (drop (length before) final)"
  shows "\<exists>chunk f'. prefix (before @ seen @ chunk) final \<and> lf_offset f' = length (before @ seen @ chunk) \<and>
    lf_pending f' = last (split_on CHR 0x0A (seen @ chunk)) \<and>
    poll_each Hs f =
      (Inr (map from_utf8_lossy (butlast (split_on CHR 0x0A (last (split_on CHR 0x0A seen) @ chunk)))), f')"
  using assms
proof (induction contents Hs arbitrary: f seen rule: list_all2_induct)
  case Nil
  have "split_on CHR 0x0A (last (split_on CHR 0x0A seen)) = [last (split_on CHR 0x0A seen)]"
    using split_parts_free[of "last (split_on CHR 0x0A seen)" "CHR 0x0A" seen] by (simp add: split_on_absent)
  then show ?case using Nil.prems by (intro exI[of _ "[]"] exI[of _ f]) simp
next
  case (Cons content contents H Hs)
  have grows: "prefix content final" "\<forall>c\<in>set contents. prefix content c"
    using Cons.prems(2) by auto
  have "no_long_line (lf_max_pending f) (drop (length before) content)"
  proof -
    have "sublist (drop (length before) content) (drop (length before) final)"
      using grows(1) by (auto simp: prefix_def)
    then show ?thesis using Cons.prems(7) sublist_order.order_trans by (auto simp: no_long_line_def)
  qed
  moreover have "prefix (before @ seen) content" using Cons.prems(3) by simp
  ultimately obtain chunk where chunk: "prefix (before @ seen @ chunk) content"
      "poll_appended H f =
        (Inr (map from_utf8_lossy (butlast (split_on CHR 0x0A (last (split_on CHR 0x0A seen) @ chunk)))),
         f\<lparr>lf_offset := length (before @ seen @ chunk), lf_pending := last (split_on CHR 0x0A (seen @ chunk))\<rparr>)"
    using poll_steady[OF _ _ Cons.prems(5,6)] Cons.hyps(1) Cons.prems(1) by blast
  define g where "g = f\<lparr>lf_offset := length (before @ seen @ chunk),
    lf_pending := last (split_on CHR 0x0A (seen @ chunk))\<rparr>"
  have step: "poll_appended H f =
      (Inr (map from_utf8_lossy (butlast (split_on CHR 0x0A (last (split_on CHR 0x0A seen) @ chunk)))), g)"
    unfolding g_def by (rule chunk(2))
  have "\<exists>more f'. prefix (before @ (seen @ chunk) @ more) final \<and>
      lf_offset f' = length (before @ (seen @ chunk) @ more) \<and>
      lf_pending f' = last (split_on CHR 0x0A ((seen @ chunk) @ more)) \<and>
      poll_each Hs g =
        (Inr (map from_utf8_lossy (butlast (split_on CHR 0x0A (last (split_on CHR 0x0A (seen @ chunk)) @ more)))), f')"
  proof (rule Cons.IH)
    show "sorted_wrt prefix (contents @ [final])" using Cons.prems(2) by simp
    show "\<forall>c\<in>set contents. prefix (before @ seen @ chunk) c" "prefix (before @ seen @ chunk) final"
      using grows chunk(1) by (auto intro: prefix_order.trans)
  qed (use Cons.prems in \<open>simp_all add: g_def\<close>)
  then obtain more f' where more: "prefix (before @ (seen @ chunk) @ more) final"
      "lf_offset f' = length (before @ (seen @ chunk) @ more)"
      "lf_pending f' = last (split_on CHR 0x0A ((seen @ chunk) @ more))"
      "poll_each Hs g =
        (Inr (map from_utf8_lossy (butlast (split_on CHR 0x0A (last (split_on CHR 0x0A (seen @ chunk)) @ more)))), f')"
    by blast
  have "last (split_on CHR 0x0A (last (split_on CHR 0x0A seen) @ chunk)) = last (split_on CHR 0x0A (seen @ chunk))"
    by (simp add: split_on_extend[of _ seen])
  then have joined: "butlast (split_on CHR 0x0A (last (split_on CHR 0x0A seen) @ chunk @ more)) =
      butlast (split_on CHR 0x0A (last (split_on CHR 0x0A seen) @ chunk)) @
      butlast (split_on CHR 0x0A (last (split_on CHR 0x0A (seen @ chunk)) @ more))"
    using split_on_extend[of "CHR 0x0A" "last (split_on CHR 0x0A seen) @ chunk" more]
    by (simp add: butlast_append)
  show ?case
    using more by (intro exI[of _ "chunk @ more"] exI[of _ f']) (simp add: step joined)
qed


subsection \<open>Rotation and clearing\<close>

definition BACKUP_SUFFIX :: string where
  "BACKUP_SUFFIX = ''.1''"

definition truncate_file :: "host_files \<Rightarrow> string \<Rightarrow> disk \<Rightarrow> (io_error + unit) \<times> disk" where
  "truncate_file E path d =
     (case fault_now E d of
        Some f \<Rightarrow> (Inl (OtherError (fault_reason f)), tick d)
      | None \<Rightarrow>
          (if dk_files d path = None then (Inl NotFound, tick d)
           else (Inr (), tick d\<lparr>dk_files := (dk_files d)(path := Some [])\<rparr>)))"

definition copy_file :: "host_files \<Rightarrow> string \<Rightarrow> string \<Rightarrow> disk \<Rightarrow> (io_error + unit) \<times> disk" where
  "copy_file E source destination d =
     (case dk_files d source of
        None \<Rightarrow> (Inl (case fault_now E d of Some f \<Rightarrow> OtherError (fault_reason f) | None \<Rightarrow> NotFound), tick d)
      | Some contents \<Rightarrow>
     (case fault_now E d of
        Some (Refused reason) \<Rightarrow> (Inl (OtherError reason), tick d)
      | Some (Torn rest reason) \<Rightarrow> (Inl (OtherError reason), tick (set_contents destination rest d))
      | None \<Rightarrow>
          (Inr (), tick (set_contents destination contents d)\<lparr>dk_modes := (dk_modes d)(destination := dk_modes d source)\<rparr>)))"

definition clear_log :: "host_files \<Rightarrow> string \<Rightarrow> disk \<Rightarrow> (log_file_error + unit) \<times> disk" where
  "clear_log E path d =
     (case truncate_file E path d of
        (Inl error, d) \<Rightarrow> (Inl (read_error path (io_error_text error)), d)
      | (Inr _, d) \<Rightarrow> (Inr (), d))"

text \<open>A directory entry whose name is not UTF-8 is \<open>None\<close>.\<close>

definition is_managed_log :: "string option \<Rightarrow> bool" where
  "is_managed_log name =
     (case name of
        None \<Rightarrow> False
      | Some shown \<Rightarrow> if ends_with STDOUT_SUFFIX shown then True else ends_with STDERR_SUFFIX shown)"

definition backup_path :: "string \<Rightarrow> string" where
  "backup_path path = with_suffix path BACKUP_SUFFIX"

definition rotate_if_oversized ::
  "host_files \<Rightarrow> string \<Rightarrow> nat \<Rightarrow> disk \<Rightarrow> (io_error + rotated_log option) \<times> disk" where
  "rotate_if_oversized E path max_bytes d =
     (case stat_file E path d of
        (Inl error, d) \<Rightarrow> (Inl error, d)
      | (Inr _, d) \<Rightarrow>
     (let bytes = length (the (dk_files d path)) in
      if bytes \<le> max_bytes then (Inr None, d)
      else
     (case copy_file E path (backup_path path) d of
        (Inl error, d) \<Rightarrow> (Inl error, d)
      | (Inr _, d) \<Rightarrow>
     (case truncate_file E path d of
        (Inl error, d) \<Rightarrow> (Inl error, d)
      | (Inr _, d) \<Rightarrow> (Inr (Some \<lparr>rl_path = path, rl_bytes = of_nat bytes\<rparr>), d)))))"

fun rotate_entries ::
  "host_files \<Rightarrow> string \<Rightarrow> nat \<Rightarrow> string option list \<Rightarrow> disk \<Rightarrow> rotated_log list \<times> disk" where
  "rotate_entries E logs_dir max_bytes [] d = ([], d)"
| "rotate_entries E logs_dir max_bytes (name # names) d =
     (if \<not> is_managed_log name then rotate_entries E logs_dir max_bytes names d
      else
        (case rotate_if_oversized E (path_join logs_dir (the name)) max_bytes d of
           (Inr (Some rotated), d) \<Rightarrow>
             (let (later, d) = rotate_entries E logs_dir max_bytes names d in (rotated # later, d))
         | (_, d) \<Rightarrow> rotate_entries E logs_dir max_bytes names d))"

text \<open>The entries are those the directory yields before it ends or fails.\<close>

definition copy_truncate_rotate ::
  "host_files \<Rightarrow> io_error + string option list \<Rightarrow> string \<Rightarrow> nat \<Rightarrow> disk \<Rightarrow>
     (log_rotate_error + rotated_log list) \<times> disk" where
  "copy_truncate_rotate E entries logs_dir max_bytes d =
     (case entries of
        Inl error \<Rightarrow> (Inl (Scan logs_dir (io_error_text error)), d)
      | Inr names \<Rightarrow> (let (rotated, d) = rotate_entries E logs_dir max_bytes names d in (Inr rotated, d)))"

lemma backup_differs: "backup_path path \<noteq> path"
  by (simp add: backup_path_def with_suffix_def BACKUP_SUFFIX_def)

text \<open>
  A rotation that succeeds leaves the whole old log in the backup and an empty log; one that fails
  leaves the log as it was; no other file changes.
\<close>

lemma rotation_keeps_the_log:
  assumes "rotate_if_oversized E path max_bytes d = (result, d')"
  shows "(case result of
      Inr (Some rotated) \<Rightarrow>
        dk_files d' path = Some [] \<and> dk_files d' (backup_path path) = dk_files d path \<and>
        (\<exists>content. dk_files d path = Some content \<and> max_bytes < length content)
    | Inr None \<Rightarrow> dk_files d' = dk_files d \<and> (\<exists>content. dk_files d path = Some content \<and> length content \<le> max_bytes)
    | Inl error \<Rightarrow> dk_files d' path = dk_files d path)"
    and "q \<notin> {path, backup_path path} \<Longrightarrow> dk_files d' q = dk_files d q"
  using assms backup_differs[of path]
  by (auto simp: rotate_if_oversized_def stat_file_def copy_file_def truncate_file_def set_contents_def tick_def
      Let_def split: prod.splits sum.splits option.splits if_splits io_fault.splits)

end
