(* ===== verification/Paths.thy ===== *)
theory Paths
  imports Programs Splitting
begin

text \<open>
  Where pm3 keeps its files (\<open>adapters/src/paths.rs\<close>): a declared root, else the XDG base directory,
  else a fallback under the home directory, and the files below the roots. Whether a directory
  exists is a parameter. On unix \<open>portable_path\<close> is the identity.
\<close>

definition SOCKET_FILE :: string where "SOCKET_FILE = ''pm3.sock''"
definition PID_FILE :: string where "PID_FILE = ''pm3.pid''"
definition LOCK_FILE :: string where "LOCK_FILE = ''pm3.lock''"
definition CONFIG_FILE :: string where "CONFIG_FILE = ''config.yaml''"
definition DUMP_FILE :: string where "DUMP_FILE = ''dump.yaml''"
definition DAEMON_LOG_FILE :: string where "DAEMON_LOG_FILE = ''pm3.log''"
definition LOGS_DIR :: string where "LOGS_DIR = ''logs''"
definition APPS_DIR :: string where "APPS_DIR = ''apps''"
definition BACKUPS_DIR :: string where "BACKUPS_DIR = ''install-backups''"
definition PM3_SUBDIR :: string where "PM3_SUBDIR = ''pm3''"
definition RUNTIME_SUBDIR :: string where "RUNTIME_SUBDIR = ''run''"
definition XDG_CONFIG_FALLBACK :: string where "XDG_CONFIG_FALLBACK = ''~/.config''"
definition XDG_STATE_FALLBACK :: string where "XDG_STATE_FALLBACK = ''~/.local/state''"
definition XDG_DATA_FALLBACK :: string where "XDG_DATA_FALLBACK = ''~/.local/share''"
definition RUNTIME_DIR_ROOT :: string where "RUNTIME_DIR_ROOT = ''/run/user''"
definition LONGEST_SOCKET_PATH :: nat where "LONGEST_SOCKET_PATH = 104 - 1"

text \<open>
  Two paths are equal when their components are: separators may be repeated or trail, and a
  component \<open>.\<close> counts only at the start of a relative path.
\<close>

definition path_parts :: "string \<Rightarrow> string list" where
  "path_parts path =
     (let counts = (\<lambda>part. part \<noteq> [] \<and> part \<noteq> ''.'') in
      if is_absolute_path path then ''/'' # filter counts (components path)
      else filter (\<lambda>part. part \<noteq> []) [hd (components path)] @ filter counts (tl (components path)))"

definition same_path :: "string \<Rightarrow> string \<Rightarrow> bool" where
  "same_path p q \<longleftrightarrow> path_parts p = path_parts q"

record pm3_roots =
  ro_config :: string
  ro_state :: string
  ro_runtime :: string
  ro_data :: string

definition roots_single :: "string \<Rightarrow> pm3_roots" where
  "roots_single root = \<lparr>ro_config = root, ro_state = root, ro_runtime = root, ro_data = root\<rparr>"

definition roots_split :: "string \<Rightarrow> string \<Rightarrow> string \<Rightarrow> string \<Rightarrow> pm3_roots" where
  "roots_split config state runtime data =
     \<lparr>ro_config = config, ro_state = state, ro_runtime = runtime, ro_data = data\<rparr>"

definition is_single :: "pm3_roots \<Rightarrow> bool" where
  "is_single roots \<longleftrightarrow>
     (if \<not> same_path (ro_config roots) (ro_state roots) then False
      else if \<not> same_path (ro_state roots) (ro_runtime roots) then False
      else same_path (ro_runtime roots) (ro_data roots))"

record pm3_paths =
  pa_root :: string
  pa_roots :: pm3_roots
  pa_socket :: string
  pa_pid_file :: string
  pa_lock_file :: string
  pa_config_file :: string
  pa_dump_file :: string
  pa_logs_dir :: string
  pa_daemon_log :: string
  pa_apps_dir :: string
  pa_backups_dir :: string

record runtime_sources =
  rs_declared :: "string option"
  rs_xdg :: "string option"
  rs_uid :: "u32 option"
  rs_state :: string
  rs_home :: "string option"
  rs_exists :: "string \<Rightarrow> bool"

datatype path_error =
    MissingHome string
  | NotAbsolutePath string
  | NamedHome string
  | SocketTooLong string nat nat

primrec path_error_text :: "path_error \<Rightarrow> string" where
  "path_error_text (MissingHome raw) =
     ''cannot resolve pm3.home '' @ quoted raw @ '': no HOME in the environment to expand '' @ quoted ''~''"
| "path_error_text (NotAbsolutePath raw) =
     ''cannot resolve pm3.home '' @ quoted raw @ '': must be absolute or start with '' @ quoted ''~''"
| "path_error_text (NamedHome raw) =
     ''cannot resolve pm3.home '' @ quoted raw @
     '': expanding another user'' @ [CHR 0x27] @ ''s home ('' @ quoted ''~name'' @ '') is not supported''"
| "path_error_text (SocketTooLong path len limit) =
     ''cannot accept the socket path '' @ quoted path @ '': '' @ show_nat len @
     '' characters exceeds the '' @ show_nat limit @ '' the operating system allows for a unix socket''"

definition resolve_paths :: "pm3_roots \<Rightarrow> pm3_paths" where
  "resolve_paths roots =
     \<lparr>pa_root = ro_state roots,
      pa_roots = roots,
      pa_socket = path_join (ro_runtime roots) SOCKET_FILE,
      pa_pid_file = path_join (ro_runtime roots) PID_FILE,
      pa_lock_file = path_join (ro_runtime roots) LOCK_FILE,
      pa_config_file = path_join (ro_config roots) CONFIG_FILE,
      pa_dump_file = path_join (ro_state roots) DUMP_FILE,
      pa_logs_dir = path_join (ro_state roots) LOGS_DIR,
      pa_daemon_log = path_join (ro_state roots) DAEMON_LOG_FILE,
      pa_apps_dir = (if is_single roots then ro_state roots else path_join (ro_state roots) APPS_DIR),
      pa_backups_dir = path_join (ro_data roots) BACKUPS_DIR\<rparr>"

definition expand_home :: "string \<Rightarrow> string option \<Rightarrow> path_error + string" where
  "expand_home raw home_env =
     (case strip_prefix ''~'' raw of
        Some rest \<Rightarrow>
          if rest \<noteq> [] \<and> \<not> starts_with ''/'' rest then Inl (NamedHome raw)
          else (case is_named home_env of
                  None \<Rightarrow> Inl (MissingHome raw)
                | Some home \<Rightarrow>
                    (let trimmed = trim_start_matches CHR ''/'' rest in
                     Inr (if trimmed = [] then home else path_join home trimmed)))
      | None \<Rightarrow> if is_absolute_path raw then Inr raw else Inl (NotAbsolutePath raw))"

definition resolve_xdg_root ::
  "string option \<Rightarrow> string option \<Rightarrow> string \<Rightarrow> string option \<Rightarrow> path_error + string" where
  "resolve_xdg_root declared xdg fallback home_env =
     (case is_named declared of
        Some root \<Rightarrow> expand_home root home_env
      | None \<Rightarrow>
          (let base = (case is_named xdg of Some base \<Rightarrow> base | None \<Rightarrow> fallback) in
           map_sum id (\<lambda>dir. path_join dir PM3_SUBDIR) (expand_home base home_env)))"

definition resolve_config_root :: "string option \<Rightarrow> string option \<Rightarrow> string option \<Rightarrow> path_error + string" where
  "resolve_config_root declared xdg home_env = resolve_xdg_root declared xdg XDG_CONFIG_FALLBACK home_env"

definition resolve_state_root :: "string option \<Rightarrow> string option \<Rightarrow> string option \<Rightarrow> path_error + string" where
  "resolve_state_root declared xdg home_env = resolve_xdg_root declared xdg XDG_STATE_FALLBACK home_env"

definition resolve_data_root :: "string option \<Rightarrow> string option \<Rightarrow> string option \<Rightarrow> path_error + string" where
  "resolve_data_root declared xdg home_env = resolve_xdg_root declared xdg XDG_DATA_FALLBACK home_env"

definition per_user_runtime_dir :: "u32 option \<Rightarrow> (string \<Rightarrow> bool) \<Rightarrow> string option" where
  "per_user_runtime_dir uid exists =
     do { owner \<leftarrow> uid;
          let base = path_join RUNTIME_DIR_ROOT (show_word owner);
          if exists base then Some (path_join base PM3_SUBDIR) else None }"

definition resolve_runtime_root :: "runtime_sources \<Rightarrow> path_error + string" where
  "resolve_runtime_root sources =
     (case is_named (rs_declared sources) of
        Some root \<Rightarrow> expand_home root (rs_home sources)
      | None \<Rightarrow>
     (case is_named (rs_xdg sources) of
        Some root \<Rightarrow> map_sum id (\<lambda>dir. path_join dir PM3_SUBDIR) (expand_home root (rs_home sources))
      | None \<Rightarrow>
     (case per_user_runtime_dir (rs_uid sources) (rs_exists sources) of
        Some owned \<Rightarrow> Inr owned
      | None \<Rightarrow> Inr (path_join (rs_state sources) RUNTIME_SUBDIR))))"

definition check_socket_length :: "string \<Rightarrow> path_error + unit" where
  "check_socket_length socket =
     (if LONGEST_SOCKET_PATH < length socket
      then Inl (SocketTooLong socket (length socket) LONGEST_SOCKET_PATH) else Inr ())"

definition default_config_path ::
  "string option \<Rightarrow> string option \<Rightarrow> string option \<Rightarrow> string option \<Rightarrow> path_error + string" where
  "default_config_path pm3_home_env pm3_config_env xdg_config_env home_env =
     (case is_named pm3_home_env of
        Some root \<Rightarrow> map_sum id (\<lambda>dir. path_join dir CONFIG_FILE) (expand_home root home_env)
      | None \<Rightarrow>
          map_sum id (\<lambda>dir. path_join dir CONFIG_FILE)
            (resolve_config_root pm3_config_env xdg_config_env home_env))"

subsection \<open>Roots are absolute\<close>

definition absolute_home :: "string option \<Rightarrow> bool" where
  "absolute_home home \<longleftrightarrow> (\<forall>h. is_named home = Some h \<longrightarrow> is_absolute_path h)"

lemma path_join_absolute: "is_absolute_path base \<Longrightarrow> is_absolute_path (path_join base rel)"
  by (auto simp: path_join_def is_absolute_path_def starts_with_iff)

lemma path_join_nonempty: "rel \<noteq> [] \<Longrightarrow> path_join base rel \<noteq> []"
  by (auto simp: path_join_def)

lemma expand_home_absolute:
  "expand_home raw home = Inr p \<Longrightarrow> absolute_home home \<Longrightarrow> is_absolute_path p"
  by (auto simp: expand_home_def absolute_home_def Let_def path_join_absolute split: option.splits if_splits)

lemma expand_home_total:
  "is_absolute_path raw \<or> raw = ''~'' \<or> starts_with ''~/'' raw \<Longrightarrow> is_named home \<noteq> None \<Longrightarrow>
    \<exists>p. expand_home raw home = Inr p"
  by (cases raw; cases "tl raw")
    (auto simp: expand_home_def strip_prefix_def starts_with_def is_absolute_path_def Let_def
      split: option.splits)

lemma resolve_xdg_root_absolute:
  "resolve_xdg_root declared xdg fallback home = Inr p \<Longrightarrow> absolute_home home \<Longrightarrow> is_absolute_path p"
  by (auto simp: resolve_xdg_root_def Let_def map_sum_Inr path_join_absolute dest: expand_home_absolute
      split: option.splits)

lemma resolve_runtime_root_absolute:
  assumes "resolve_runtime_root sources = Inr p" and "absolute_home (rs_home sources)"
    and "is_absolute_path (rs_state sources)"
  shows "is_absolute_path p"
proof -
  have "is_absolute_path RUNTIME_DIR_ROOT"
    by (simp add: RUNTIME_DIR_ROOT_def is_absolute_path_def starts_with_def)
  then have "per_user_runtime_dir uid exists = Some q \<Longrightarrow> is_absolute_path q" for uid exists q
    by (auto simp: per_user_runtime_dir_def Let_def path_join_absolute split: bind_splits if_splits)
  with assms show ?thesis
    by (auto simp: resolve_runtime_root_def map_sum_Inr path_join_absolute dest: expand_home_absolute
        split: option.splits)
qed

text \<open>The configuration file that is read by default is the one that the resolved roots name.\<close>

lemma default_config_path_of_roots:
  "is_named pm3_home = None \<Longrightarrow> resolve_config_root declared xdg home = Inr (ro_config roots) \<Longrightarrow>
    default_config_path pm3_home declared xdg home = Inr (pa_config_file (resolve_paths roots))"
  by (simp add: default_config_path_def resolve_paths_def)

lemma default_config_path_single:
  "is_named pm3_home = Some raw \<Longrightarrow> expand_home raw home = Inr root \<Longrightarrow>
    default_config_path pm3_home declared xdg home = Inr (pa_config_file (resolve_paths (roots_single root)))"
  by (simp add: default_config_path_def resolve_paths_def roots_single_def)

lemma resolved_paths_absolute:
  assumes "is_absolute_path (ro_config roots)" "is_absolute_path (ro_state roots)"
    "is_absolute_path (ro_runtime roots)" "is_absolute_path (ro_data roots)"
  shows "list_all is_absolute_path
    (map (\<lambda>f. f (resolve_paths roots))
      [pa_socket, pa_pid_file, pa_lock_file, pa_config_file, pa_dump_file, pa_logs_dir, pa_daemon_log,
       pa_apps_dir, pa_backups_dir])"
  using assms by (simp add: resolve_paths_def path_join_absolute)

end
