(* ===== verification/Presenter.thy ===== *)
theory Presenter
  imports Std_Text Alerts_Timers
begin

text \<open>
  What an operator reads (\<open>adapters/src/presenter\<close>, \<open>adapters/src/http/view_dto.rs\<close>): the table of
  services, the description of one, and the text of every reply. The rendering of an instant in the
  local time zone is the chrono library's and a parameter, as is the text of the zone's offset.
\<close>

record local_clock =
  lc_moment :: "u64 \<Rightarrow> string \<Rightarrow> string option"
  lc_offset :: string

subsection \<open>Views as they are sent\<close>

record env_display_dto =
  xd_key :: string
  xd_value :: string
  xd_scope :: string

definition env_display_dto_from :: "env_display \<Rightarrow> env_display_dto" where
  "env_display_dto_from shown =
     \<lparr>xd_key = ed_key shown, xd_value = ed_value shown, xd_scope = env_scope_as_str (ed_scope shown)\<rparr>"

record process_view_dto =
  vd_pm_id :: u32
  vd_name :: string
  vd_pid :: "u32 option"
  vd_status :: string
  vd_restart_time :: u32
  vd_unstable_restarts :: u32
  vd_max_restarts :: u32
  vd_autorestart :: bool
  vd_uptime_ms :: "u64 option"
  vd_next_fire_ms :: "u64 option"
  vd_schedule :: "string option"
  vd_sandbox_mode :: string
  vd_sandbox_read :: string
  vd_sandbox_network :: bool
  vd_env_origin :: string
  vd_env_declared :: nat
  vd_env_masked :: "env_display_dto list"
  vd_script :: string
  vd_args :: "string list"
  vd_cwd :: string
  vd_depends_on :: "string list"
  vd_writable_roots :: "string list"
  vd_rss_kib :: "u64 option"
  vd_cpu_tenths :: "u32 option"

definition process_view_dto_from :: "process_view \<Rightarrow> process_view_dto" where
  "process_view_dto_from v =
     \<lparr>vd_pm_id = pv_pm_id v, vd_name = pv_name v, vd_pid = pv_pid v,
      vd_status = status_as_str (pv_status v), vd_restart_time = pv_restart_time v,
      vd_unstable_restarts = pv_unstable_restarts v, vd_max_restarts = pv_max_restarts v,
      vd_autorestart = pv_autorestart v, vd_uptime_ms = pv_uptime_ms v, vd_next_fire_ms = pv_next_fire_ms v,
      vd_schedule = pv_schedule v, vd_sandbox_mode = pv_sandbox_mode v, vd_sandbox_read = pv_sandbox_read v,
      vd_sandbox_network = pv_sandbox_network v, vd_env_origin = env_origin_as_str (pv_env_origin v),
      vd_env_declared = pv_env_declared v, vd_env_masked = map env_display_dto_from (pv_env v),
      vd_script = pv_script v, vd_args = pv_args v, vd_cwd = pv_cwd v, vd_depends_on = pv_depends_on v,
      vd_writable_roots = pv_writable_roots v, vd_rss_kib = pv_rss_kib v, vd_cpu_tenths = pv_cpu_tenths v\<rparr>"

subsection \<open>Fields\<close>

definition MISSING :: string where
  "MISSING = ''-''"

definition CLOCK_FORMAT :: string where
  "CLOCK_FORMAT = [CHR 0x25] @ ''H:'' @ [CHR 0x25] @ ''M''"

definition STAMP_FORMAT :: string where
  "STAMP_FORMAT = ''%Y-%m-%d %H:%M:%S UTC%:z''"

definition KIB_PER_MIB :: u64 where
  "KIB_PER_MIB = 1024"

definition format_memory :: "u64 option \<Rightarrow> string" where
  "format_memory rss =
     (case rss of
        None \<Rightarrow> MISSING
      | Some kib \<Rightarrow>
          if KIB_PER_MIB \<le> kib then
            (let tenths = saturating_mul kib 10 div KIB_PER_MIB in
             show_word (tenths div 10) @ ''.'' @ show_word (tenths mod 10) @ ''M'')
          else show_word kib @ ''K'')"

definition format_cpu :: "u32 option \<Rightarrow> string" where
  "format_cpu tenths =
     (case tenths of
        None \<Rightarrow> MISSING
      | Some tenths \<Rightarrow> show_word (tenths div 10) @ ''.'' @ show_word (tenths mod 10) @ ''%'')"

definition format_pid :: "u32 option \<Rightarrow> string" where
  "format_pid pid = (case pid of None \<Rightarrow> MISSING | Some pid \<Rightarrow> show_word pid)"

definition format_uptime :: "u64 option \<Rightarrow> string" where
  "format_uptime uptime =
     (case uptime of
        None \<Rightarrow> MISSING
      | Some elapsed_ms \<Rightarrow>
     (let seconds = elapsed_ms div 1000; minutes = seconds div 60; hours = minutes div 60 in
      if seconds = 0 then show_word elapsed_ms @ ''ms''
      else if seconds < 60 then show_word seconds @ ''s''
      else if minutes < 60 then show_word minutes @ ''m''
      else if hours < 24 then show_word hours @ ''h''
      else show_word (hours div 24) @ ''d''))"

definition format_instant :: "local_clock \<Rightarrow> u64 option \<Rightarrow> string \<Rightarrow> string" where
  "format_instant C at_ms layout =
     (case at_ms of
        None \<Rightarrow> MISSING
      | Some at_ms \<Rightarrow>
          if 2 ^ 63 \<le> at_ms then MISSING
          else (case lc_moment C at_ms layout of None \<Rightarrow> MISSING | Some shown \<Rightarrow> shown))"

definition format_clock :: "local_clock \<Rightarrow> u64 option \<Rightarrow> string" where
  "format_clock C at_ms = format_instant C at_ms CLOCK_FORMAT"

definition format_stamp :: "local_clock \<Rightarrow> u64 option \<Rightarrow> string" where
  "format_stamp C at_ms = format_instant C at_ms STAMP_FORMAT"

definition format_sandbox :: "string \<Rightarrow> bool \<Rightarrow> string" where
  "format_sandbox mode network = (if network then mode @ ''+net'' else mode)"

definition counted_noun :: "nat \<Rightarrow> string" where
  "counted_noun declared = (if declared = 1 then ''value'' else ''values'')"

definition format_env_origin :: "env_origin \<Rightarrow> nat \<Rightarrow> string" where
  "format_env_origin origin declared =
     (case origin of
        Plain \<Rightarrow> env_origin_as_str Plain
      | Encrypted \<Rightarrow> env_origin_as_str Encrypted
      | Sealed \<Rightarrow> ''encrypted, not opened'') @
     '' ('' @ show_nat declared @ '' '' @ counted_noun declared @ '')''"

definition format_list :: "string list \<Rightarrow> string" where
  "format_list items = (if items = [] then MISSING else join '', '' items)"

definition pad :: "string \<Rightarrow> nat \<Rightarrow> string" where
  "pad cell width = pad_to width cell"

definition widest :: "nat list \<Rightarrow> nat" where
  "widest cells = foldr max cells 0"

definition format_restarts :: "u32 \<Rightarrow> string" where
  "format_restarts unstable = (if unstable = 0 then MISSING else show_word unstable)"

definition format_resources :: "u64 option \<Rightarrow> u32 option \<Rightarrow> string" where
  "format_resources rss tenths =
     (case rss of
        None \<Rightarrow> MISSING
      | Some rss \<Rightarrow> format_memory (Some rss) @ ''/'' @ format_cpu tenths)"

definition write_flag :: "string \<Rightarrow> string" where
  "write_flag mode =
     (if mode = sandbox_mode_as_str DangerFullAccess then ''F''
      else if mode = sandbox_mode_as_str WorkspaceWrite then ''W'' else ''-'')"

definition read_flag :: "string \<Rightarrow> string" where
  "read_flag read = (if read = read_scope_as_str Full then ''R'' else ''-'')"

definition network_flag :: "bool \<Rightarrow> string" where
  "network_flag network = (if network then ''N'' else ''-'')"

definition format_sandbox_flags :: "string \<Rightarrow> string \<Rightarrow> bool \<Rightarrow> string" where
  "format_sandbox_flags mode read network =
     write_flag mode @ ''/'' @ read_flag read @ ''/'' @ network_flag network"

subsection \<open>Notices\<close>

definition tripped :: "process_view_dto \<Rightarrow> bool" where
  "tripped v \<longleftrightarrow>
     (if vd_max_restarts v = 0 then False else vd_max_restarts v \<le> vd_unstable_restarts v)"

definition health_mark :: "process_view_dto \<Rightarrow> string option" where
  "health_mark v =
     (if vd_status v = status_as_str Errored \<and> tripped v
        then Some (''breaker:'' @ show_word (vd_unstable_restarts v))
      else if vd_status v = status_as_str Errored \<and> \<not> vd_autorestart v then Some ''noselfheal''
      else if 0 < vd_unstable_restarts v then Some (''flapping:'' @ show_word (vd_unstable_restarts v))
      else None)"

definition format_notice :: "process_view_dto \<Rightarrow> string" where
  "format_notice v =
     (let marks = (case health_mark v of None \<Rightarrow> [] | Some health \<Rightarrow> [health]) @
        (if vd_env_origin v = env_origin_as_str Sealed then [''env:sealed''] else []) in
      join '','' marks)"

definition local_offset_label :: "local_clock \<Rightarrow> string" where
  "local_offset_label C = ''('' @ lc_offset C @ '')''"

subsection \<open>The table\<close>

definition EMPTY_NOTICE :: string where
  "EMPTY_NOTICE = ''no apps are managed by pm3''"

datatype listing = Compact | FullListing

primrec listing_columns :: "listing \<Rightarrow> nat" where
  "listing_columns Compact = 9"
| "listing_columns FullListing = 10"

definition headers :: "local_clock \<Rightarrow> listing \<Rightarrow> string list" where
  "headers C listing =
     (let next_fire = ''next'' @ local_offset_label C; restarts = [CHR 0xE2, CHR 0x86, CHR 0xBA] in
      case listing of
        Compact \<Rightarrow> [''id'', ''name'', ''status'', restarts, ''uptime'', ''rss/cpu'', next_fire, ''W/R/N'', []]
      | FullListing \<Rightarrow>
          [''id'', ''name'', ''pid'', ''status'', restarts, ''uptime'', ''rss/cpu'', next_fire, ''W/R/N'', []])"

definition row_of :: "local_clock \<Rightarrow> process_view_dto \<Rightarrow> listing \<Rightarrow> string list" where
  "row_of C v listing =
     [show_word (vd_pm_id v), vd_name v] @
     (if listing = FullListing then [format_pid (vd_pid v)] else []) @
     [vd_status v, format_restarts (vd_unstable_restarts v), format_uptime (vd_uptime_ms v),
      format_resources (vd_rss_kib v) (vd_cpu_tenths v), format_clock C (vd_next_fire_ms v),
      format_sandbox_flags (vd_sandbox_mode v) (vd_sandbox_read v) (vd_sandbox_network v),
      format_notice v]"

fun widen :: "nat list \<Rightarrow> string list \<Rightarrow> nat list" where
  "widen (width # widths) (cell # cells) = max width (char_count cell) # widen widths cells"
| "widen widths cells = widths"

definition column_widths :: "string list list \<Rightarrow> nat \<Rightarrow> nat list" where
  "column_widths rows columns = foldl widen (replicate columns 0) rows"

definition padded_cells :: "string list \<Rightarrow> nat list \<Rightarrow> string list" where
  "padded_cells row widths = map (\<lambda>(cell, width). pad cell width) (zip row widths)"

definition join_row :: "string list \<Rightarrow> nat list \<Rightarrow> string" where
  "join_row row widths = trim_end (join '' '' (padded_cells row widths))"

definition render_table :: "local_clock \<Rightarrow> process_view_dto list \<Rightarrow> listing \<Rightarrow> string" where
  "render_table C views listing =
     (if views = [] then EMPTY_NOTICE
      else
        (let rows = headers C listing # map (\<lambda>v. row_of C v listing) (sort_key vd_name views);
             widths = column_widths rows (listing_columns listing) in
         join [CHR 0x0A] (map (\<lambda>row. join_row row widths) rows)))"

subsection \<open>The description of a service\<close>

definition render_rows :: "(string \<times> string) list \<Rightarrow> string" where
  "render_rows rows =
     (let width = widest (map (\<lambda>(label, val). char_count label) rows) in
      join [CHR 0x0A] (map (\<lambda>(label, val). pad label width @ ''  '' @ val) rows))"

definition env_line :: "env_display \<Rightarrow> nat \<Rightarrow> string" where
  "env_line entry width =
     ''env '' @ pad (ed_key entry) width @ ''  '' @ ed_value entry @ ''  ('' @
     env_scope_as_str (ed_scope entry) @ '')''"

definition render_env_block :: "env_display list \<Rightarrow> string" where
  "render_env_block shown =
     (if shown = [] then []
      else
        (let width = widest (map (\<lambda>entry. char_count (ed_key entry)) shown) in
         join [CHR 0x0A] (map (\<lambda>entry. env_line entry width) shown)))"

definition describe_rows :: "local_clock \<Rightarrow> process_view \<Rightarrow> (string \<times> string) list" where
  "describe_rows C v =
     [(''id'', show_word (pv_pm_id v)), (''name'', pv_name v), (''status'', status_as_str (pv_status v)),
      (''pid'', format_pid (pv_pid v)), (''uptime'', format_uptime (pv_uptime_ms v)),
      (''memory'', format_memory (pv_rss_kib v)), (''cpu'', format_cpu (pv_cpu_tenths v)),
      (''restarts'', show_word (pv_restart_time v)),
      (''unstable restarts'', show_word (pv_unstable_restarts v)),
      (''schedule'', case pv_schedule v of Some cron \<Rightarrow> cron | None \<Rightarrow> MISSING),
      (''next fire'', format_stamp C (pv_next_fire_ms v)), (''script'', pv_script v),
      (''args'', format_list (pv_args v)), (''cwd'', pv_cwd v),
      (''depends on'', format_list (pv_depends_on v)),
      (''sandbox'', format_sandbox (pv_sandbox_mode v) (pv_sandbox_network v)),
      (''writable roots'', format_list (pv_writable_roots v)),
      (''env'', format_env_origin (pv_env_origin v) (pv_env_declared v))]"

definition render_describe :: "local_clock \<Rightarrow> process_view \<Rightarrow> string" where
  "render_describe C v =
     (let fixed = render_rows (describe_rows C v); environment = render_env_block (pv_env v) in
      if environment = [] then fixed else fixed @ [CHR 0x0A] @ environment)"

subsection \<open>The daemon\<close>

definition DAEMON_NOT_RUNNING :: string where
  "DAEMON_NOT_RUNNING = ''the pm3 daemon is not running''"

definition render_daemon_gone :: "string option \<Rightarrow> string" where
  "render_daemon_gone stopped =
     (case stopped of
        None \<Rightarrow> DAEMON_NOT_RUNNING
      | Some services \<Rightarrow> services @ [CHR 0x0A] @ DAEMON_NOT_RUNNING)"

definition render_daemon_stopped :: "string option \<Rightarrow> u32 \<Rightarrow> string" where
  "render_daemon_stopped stopped pid =
     (let farewell = ''stopped the pm3 daemon (pid '' @ show_word pid @ '')'' in
      case stopped of
        None \<Rightarrow> farewell @ ''; managed services keep running''
      | Some services \<Rightarrow> services @ [CHR 0x0A] @ farewell)"

subsection \<open>Replies\<close>

definition NOTHING_STARTED :: string where "NOTHING_STARTED = ''no apps were started''"
definition NOTHING_TO_STOP :: string where "NOTHING_TO_STOP = ''no services were running''"

definition refused_marker :: "string \<Rightarrow> string" where
  "refused_marker reason = ''cannot start the rest of the batch: '' @ reason"

definition unsaved_marker :: "string \<Rightarrow> string" where
  "unsaved_marker reason = ''cannot record what pm3 just started: '' @ reason"

definition already_running_marker :: "string \<Rightarrow> string" where
  "already_running_marker name = name @ '' is already running''"

fun affected_service :: "supervision_reply \<Rightarrow> string option" where
  "affected_service (StoppedReply name) = Some name"
| "affected_service (RestartedReply name) = Some name"
| "affected_service (DeletedReply name) = Some name"
| "affected_service (ResetReply name) = Some name"
| "affected_service (SignalledReply name signal) = Some name"
| "affected_service reply = None"

fun deleted_names :: "supervision_reply \<Rightarrow> string list" where
  "deleted_names (DeletedAllReply names) = names"
| "deleted_names reply = []"

fun already_running_names :: "supervision_reply \<Rightarrow> string list" where
  "already_running_names (StartedReply outcomes refused reason unsaved) =
     map so_name (filter (\<lambda>outcome. so_kind outcome = AlreadyRunning) outcomes)"
| "already_running_names reply = []"

fun refused_names :: "supervision_reply \<Rightarrow> string list" where
  "refused_names (StartedReply outcomes refused reason unsaved) = refused"
| "refused_names reply = []"

fun unsaved_reason :: "supervision_reply \<Rightarrow> string option" where
  "unsaved_reason (StartedReply outcomes refused reason unsaved) = unsaved"
| "unsaved_reason reply = None"

definition describe_start :: "start_outcome \<Rightarrow> string" where
  "describe_start outcome =
     (let name = so_name outcome in
      (case so_kind outcome of
         Spawned \<Rightarrow> ''started '' @ name
       | AlreadyRunning \<Rightarrow> already_running_marker name
       | Adopted \<Rightarrow> ''reclaimed '' @ name
       | Scheduled \<Rightarrow> ''scheduled '' @ name
       | Deferred \<Rightarrow> ''queued '' @ name @ '' until its dependency becomes ready'') @
      '' (id '' @ show_word (so_pm_id outcome) @ '', pid '' @ format_pid (so_pid outcome) @ '')'')"

definition render_batch :: "string \<Rightarrow> string \<Rightarrow> string list \<Rightarrow> string" where
  "render_batch verb empty_text names = (if names = [] then empty_text else verb @ '' '' @ join '', '' names)"

definition render_started :: "start_outcome list \<Rightarrow> string option \<Rightarrow> string option \<Rightarrow> string" where
  "render_started outcomes reason unsaved =
     join [CHR 0x0A]
       ((if outcomes = [] then [NOTHING_STARTED] else map describe_start outcomes) @
        (case reason of None \<Rightarrow> [] | Some refused \<Rightarrow> [refused_marker refused]) @
        (case unsaved of None \<Rightarrow> [] | Some reason \<Rightarrow> [unsaved_marker reason]))"

primrec render_reply :: "local_clock \<Rightarrow> supervision_reply \<Rightarrow> string" where
  "render_reply C (StartedReply outcomes refused reason unsaved) = render_started outcomes reason unsaved"
| "render_reply C (ListedReply views) = render_table C (map process_view_dto_from views) Compact"
| "render_reply C (DescribedReply v) = render_describe C v"
| "render_reply C (StoppedReply name) = ''stopped '' @ name"
| "render_reply C (RestartedReply name) = ''restarted '' @ name"
| "render_reply C (DeletedReply name) = ''deleted '' @ name"
| "render_reply C (ResetReply name) = ''reset '' @ name"
| "render_reply C (SignalledReply name signal) = ''sent '' @ signal @ '' to '' @ name"
| "render_reply C (StoppedAllReply names) = render_batch ''stopped'' NOTHING_TO_STOP names"
| "render_reply C (RestartedAllReply names) = render_batch ''restarted'' ''no apps to restart'' names"
| "render_reply C (DeletedAllReply names) = render_batch ''deleted'' ''no apps to delete'' names"
| "render_reply C (ResetAllReply names) = render_batch ''reset'' ''no apps to reset'' names"


subsection \<open>Facts\<close>

text \<open>The table is wide enough for every cell, so padded columns have one width.\<close>

lemma length_widen [simp]: "length (widen widths cells) = length widths"
  by (induction widths cells rule: widen.induct) auto

lemma widen_grows: "k < length widths \<Longrightarrow> widths ! k \<le> widen widths cells ! k"
proof (induction widths cells arbitrary: k rule: widen.induct)
  case (1 width widths cell cells)
  then show ?case by (cases k) simp_all
qed simp_all

lemma widen_fits: "k < length widths \<Longrightarrow> k < length cells \<Longrightarrow> char_count (cells ! k) \<le> widen widths cells ! k"
proof (induction widths cells arbitrary: k rule: widen.induct)
  case (1 width widths cell cells)
  then show ?case by (cases k) auto
qed auto

lemma foldl_widen_length [simp]: "length (foldl widen widths rows) = length widths"
  by (induction rows arbitrary: widths) auto

lemma foldl_widen_grows: "k < length widths \<Longrightarrow> widths ! k \<le> foldl widen widths rows ! k"
proof (induction rows arbitrary: widths)
  case (Cons row rows)
  have "widths ! k \<le> widen widths row ! k" using Cons.prems by (rule widen_grows)
  also have "\<dots> \<le> foldl widen (widen widths row) rows ! k" using Cons.prems by (intro Cons.IH) simp
  finally show ?case by simp
qed simp

lemma foldl_widen_fits:
  "k < length widths \<Longrightarrow> row \<in> set rows \<Longrightarrow> k < length row \<Longrightarrow>
    char_count (row ! k) \<le> foldl widen widths rows ! k"
proof (induction rows arbitrary: widths)
  case (Cons first rows)
  show ?case
  proof (cases "row = first")
    case True
    have "char_count (row ! k) \<le> widen widths row ! k" using Cons.prems by (intro widen_fits) simp_all
    also have "\<dots> \<le> foldl widen (widen widths row) rows ! k" using Cons.prems by (intro foldl_widen_grows) simp
    finally show ?thesis by (simp add: True)
  next
    case False
    with Cons show ?thesis by simp
  qed
qed simp

lemma char_count_spaces: "char_count (cell @ replicate n CHR '' '') = char_count cell + n"
proof (induction n)
  case (Suc n)
  have "chars (s @ [CHR '' '']) = chars s @ [[CHR '' '']]" for s
  proof (induction s rule: chars.induct)
    case (2 c cs)
    show ?case
    proof (cases "dropWhile is_continuation cs = []")
      case True
      then have all: "x \<in> set cs \<Longrightarrow> is_continuation x" for x by (simp add: dropWhile_eq_Nil_conv)
      have whole: "takeWhile is_continuation cs = cs" using all by (simp only: takeWhile_eq_all_conv) simp
      have "\<not> is_continuation CHR '' ''" by (simp add: is_continuation_def)
      then show ?thesis
        using True takeWhile_append2[of cs is_continuation "[CHR '' '']", OF all]
          dropWhile_append2[of cs is_continuation "[CHR '' '']", OF all] by (simp add: whole)
    next
      case False
      then obtain x where "x \<in> set cs" "\<not> is_continuation x" by (auto simp: dropWhile_eq_Nil_conv)
      then show ?thesis
        using 2 takeWhile_append1[of x cs is_continuation "[CHR '' '']"]
          dropWhile_append1[of x cs is_continuation "[CHR '' '']"] by simp
    qed
  qed simp
  from this[of "cell @ replicate n CHR '' ''"] Suc show ?case
    by (simp add: char_count_def replicate_append_same[symmetric])
qed simp

lemma pad_width: "char_count (pad cell width) = max (char_count cell) width"
  by (simp add: pad_def pad_to_def char_count_spaces)

lemma row_columns: "length (row_of C v listing) = listing_columns listing"
    "length (headers C listing) = listing_columns listing"
  by (cases listing; simp add: row_of_def headers_def Let_def)+

lemma table_columns_aligned:
  assumes "row \<in> set rows" and "k < length row" and "length row = columns"
  shows "char_count (padded_cells row (column_widths rows columns) ! k) = column_widths rows columns ! k"
proof -
  have "char_count (row ! k) \<le> column_widths rows columns ! k"
    using foldl_widen_fits[of k "replicate columns 0" row rows] assms by (simp add: column_widths_def)
  moreover have "length (column_widths rows columns) = columns" by (simp add: column_widths_def)
  ultimately show ?thesis using assms by (simp add: padded_cells_def pad_width)
qed

text \<open>The memory shown is the tenth of a MiB below the measured one; no measured size overflows.\<close>

lemma format_memory_tenths:
  assumes "1024 \<le> unat kib" and "unat kib < 2 ^ 60"
  shows "format_memory (Some kib) =
    show_nat (unat kib * 10 div 1024 div 10) @ ''.'' @ show_nat (unat kib * 10 div 1024 mod 10) @ ''M''"
proof -
  have small: "unat kib * 10 < 2 ^ 64" using assms(2) by simp
  have "unat (saturating_mul kib 10) = unat kib * 10"
    using small unat_mult_lem[of kib 10] by (simp add: saturating_mul_def)
  moreover have "KIB_PER_MIB \<le> kib" using assms(1) by (simp add: KIB_PER_MIB_def word_le_nat_alt)
  ultimately show ?thesis
    by (simp add: format_memory_def Let_def show_word_def KIB_PER_MIB_def unat_div unat_mod)
qed

end
