(* ===== verification/Http_Interface.thy ===== *)
theory Http_Interface
  imports Presenter Splitting
begin

text \<open>
  The daemon's HTTP interface and the client's side of it (\<open>adapters/src/http\<close>,
  \<open>adapters/src/state.rs\<close>, \<open>frameworks/src/client/uds.rs\<close>): the path a command is sent to, the
  request it is read as, the envelope and status of the answer, and the bytes of a request and a
  response. JSON and the matching of routes are libraries: the writer and reader of a document are
  parameters, a route matches the segments of a path literally and a \<open>{selector}\<close> one segment.
\<close>

subsection \<open>Routes\<close>

definition REQUEST_ID_HEADER :: string where "REQUEST_ID_HEADER = ''x-request-id''"
definition HEALTH_PATH :: string where "HEALTH_PATH = ''/health''"
definition APPS_PATH :: string where "APPS_PATH = ''/apps''"
definition SERVICES_STOP_ALL_PATH :: string where "SERVICES_STOP_ALL_PATH = ''/services/stop-all''"
definition STOP_ACTION :: string where "STOP_ACTION = ''stop''"
definition RESTART_ACTION :: string where "RESTART_ACTION = ''restart''"
definition RESET_ACTION :: string where "RESET_ACTION = ''reset''"
definition SIGNAL_ACTION :: string where "SIGNAL_ACTION = ''signal''"

definition addressable :: "string \<Rightarrow> spec_error + string" where
  "addressable selector =
     (case selector_parse selector of
        All \<Rightarrow> Inr selector
      | Id i \<Rightarrow> Inr selector
      | Name name \<Rightarrow> map_sum id (\<lambda>_. selector) (validate_app_name name))"

definition app_path :: "string \<Rightarrow> spec_error + string" where
  "app_path selector = map_sum id (\<lambda>addressed. APPS_PATH @ ''/'' @ addressed) (addressable selector)"

definition app_action_path :: "string \<Rightarrow> string \<Rightarrow> spec_error + string" where
  "app_action_path selector verb =
     map_sum id (\<lambda>addressed. APPS_PATH @ ''/'' @ addressed @ ''/'' @ verb) (addressable selector)"

text \<open>
  The body of a request as the server's JSON reader gives it: a list of services or a signal; a
  request without the body its route needs is refused before a handler runs.
\<close>

datatype request_body = NoBody | StartBody "string list" | SignalBody string

datatype handled_request = Health | Dispatch supervision_request

text \<open>The handlers (\<open>controller.rs\<close>): what each sends to the daemon.\<close>

definition selector_of :: "string \<Rightarrow> app_selector" where
  "selector_of raw = selector_parse raw"

definition health_handler :: handled_request where
  "health_handler = Health"

definition start_handler :: "string list \<Rightarrow> handled_request" where
  "start_handler services = Dispatch (StartRequest services)"

definition list_handler :: handled_request where
  "list_handler = Dispatch ListRequest"

definition dispatch_selector :: "(app_selector \<Rightarrow> supervision_request) \<Rightarrow> string \<Rightarrow> handled_request" where
  "dispatch_selector request raw = Dispatch (request (selector_of raw))"

definition describe_handler :: "string \<Rightarrow> handled_request" where
  "describe_handler = dispatch_selector DescribeRequest"

definition stop_handler :: "string \<Rightarrow> handled_request" where
  "stop_handler = dispatch_selector StopRequest"

definition restart_handler :: "string \<Rightarrow> handled_request" where
  "restart_handler = dispatch_selector RestartRequest"

definition delete_handler :: "string \<Rightarrow> handled_request" where
  "delete_handler = dispatch_selector DeleteRequest"

definition reset_handler :: "string \<Rightarrow> handled_request" where
  "reset_handler = dispatch_selector ResetRequest"

definition signal_handler :: "string \<Rightarrow> string \<Rightarrow> handled_request" where
  "signal_handler raw signal = Dispatch (SignalRequest (selector_of raw) signal)"

definition stop_all_handler :: handled_request where
  "stop_all_handler = Dispatch StopAllRequest"

lemmas handler_defs [simp] =
  selector_of_def health_handler_def start_handler_def list_handler_def dispatch_selector_def
  describe_handler_def stop_handler_def restart_handler_def delete_handler_def reset_handler_def
  signal_handler_def stop_all_handler_def

definition route :: "string \<Rightarrow> string \<Rightarrow> request_body \<Rightarrow> handled_request option" where
  "route verb path body =
     (let segments = components path in
      if segments = components HEALTH_PATH then (if verb = ''GET'' then Some health_handler else None)
      else if segments = components APPS_PATH then
        (if verb = ''GET'' then Some list_handler
         else if verb = ''POST'' then
           (case body of StartBody services \<Rightarrow> Some (start_handler services) | _ \<Rightarrow> None)
         else None)
      else if segments = components SERVICES_STOP_ALL_PATH then
        (if verb = ''POST'' then Some stop_all_handler else None)
      else
        (case segments of
           [lead, apps, raw] \<Rightarrow>
             if [lead, apps] \<noteq> components APPS_PATH \<or> raw = [] then None
             else if verb = ''GET'' then Some (describe_handler raw)
             else if verb = ''DELETE'' then Some (delete_handler raw)
             else None
         | [lead, apps, raw, last_segment] \<Rightarrow>
             if [lead, apps] \<noteq> components APPS_PATH \<or> raw = [] \<or> verb \<noteq> ''POST'' then None
             else if last_segment = STOP_ACTION then Some (stop_handler raw)
             else if last_segment = RESTART_ACTION then Some (restart_handler raw)
             else if last_segment = RESET_ACTION then Some (reset_handler raw)
             else if last_segment = SIGNAL_ACTION then
               (case body of SignalBody signal \<Rightarrow> Some (signal_handler raw signal) | _ \<Rightarrow> None)
             else None
         | _ \<Rightarrow> None))"

subsection \<open>Answers\<close>

record reply_dto =
  re_report :: string
  re_service :: "string option"
  re_already_running :: "string list"
  re_refused :: "string list"
  re_unsaved :: "string option"
  re_deleted :: "string list"
  re_views :: "process_view_dto list"

definition reply_default :: reply_dto where
  "reply_default =
     \<lparr>re_report = [], re_service = None, re_already_running = [], re_refused = [], re_unsaved = None,
      re_deleted = [], re_views = []\<rparr>"

definition HEALTH_OK :: string where
  "HEALTH_OK = ''ok''"

datatype daemon_error = Unavailable | Dropped | DaemonFailed supervision_failure

primrec daemon_error_text :: "daemon_error \<Rightarrow> string" where
  "daemon_error_text Unavailable = ''cannot reach the pm3 daemon: it is no longer accepting commands''"
| "daemon_error_text Dropped = ''cannot read the pm3 daemon reply: the daemon dropped the request''"
| "daemon_error_text (DaemonFailed failure) =
     (case failure of
        UsecaseFailure e \<Rightarrow> usecase_error_text e
      | SpecFailure e \<Rightarrow> spec_resolve_error_text e)"

text \<open>What happens to a command: the queue may be closed, and the answer may never come.\<close>

definition daemon_send :: "bool \<Rightarrow> supervision_outcome option \<Rightarrow> daemon_error + supervision_reply" where
  "daemon_send accepted answer =
     (if \<not> accepted then Inl Unavailable
      else case answer of
        None \<Rightarrow> Inl Dropped
      | Some outcome \<Rightarrow> map_sum DaemonFailed id outcome)"

fun views_of :: "supervision_reply \<Rightarrow> process_view_dto list" where
  "views_of (ListedReply views) = map process_view_dto_from views"
| "views_of (DescribedReply v) = [process_view_dto_from v]"
| "views_of reply = []"

definition envelope :: "local_clock \<Rightarrow> supervision_reply \<Rightarrow> reply_dto" where
  "envelope C reply =
     \<lparr>re_report = render_reply C reply, re_service = affected_service reply,
      re_already_running = already_running_names reply, re_refused = refused_names reply,
      re_unsaved = unsaved_reason reply, re_deleted = deleted_names reply, re_views = views_of reply\<rparr>"

definition refusal :: "daemon_error \<Rightarrow> reply_dto" where
  "refusal error = reply_default\<lparr>re_report := daemon_error_text error\<rparr>"

definition OK_STATUS :: u16 where
  "OK_STATUS = 200"

fun usecase_status :: "usecase_error \<Rightarrow> u16" where
  "usecase_status (NotFound name) = 404"
| "usecase_status (NotRunning name) = 409"
| "usecase_status (StillDependedOn name dependents) = 409"
| "usecase_status (SpecErr e) = 400"
| "usecase_status (DependencyErr e) = 400"
| "usecase_status (PolicyErr e) = 400"
| "usecase_status (SandboxErr e) = 400"
| "usecase_status (InvalidSignal e) = 400"
| "usecase_status (LaunchErr e) = 500"
| "usecase_status (SignalErr e) = 500"
| "usecase_status (DumpErr e) = 500"
| "usecase_status (FingerprintErr e) = 500"

fun status_of :: "daemon_error \<Rightarrow> u16" where
  "status_of Unavailable = 503"
| "status_of Dropped = 503"
| "status_of (DaemonFailed (SpecFailure e)) = 400"
| "status_of (DaemonFailed (UsecaseFailure e)) = usecase_status e"

definition render_outcome :: "local_clock \<Rightarrow> daemon_error + supervision_reply \<Rightarrow> u16 \<times> reply_dto" where
  "render_outcome C outcome =
     (case outcome of
        Inr reply \<Rightarrow> (OK_STATUS, envelope C reply)
      | Inl error \<Rightarrow> (status_of error, refusal error))"

text \<open>\<open>json\<close> writes the envelope; a refusal is sent as plain text.\<close>

definition dispatch ::
  "local_clock \<Rightarrow> (reply_dto \<Rightarrow> string) \<Rightarrow> daemon_error + supervision_reply \<Rightarrow> u16 \<times> string" where
  "dispatch C json outcome =
     (let (status, body) = render_outcome C outcome in
      if status = OK_STATUS then (status, json body) else (status, re_report body))"

definition request_id_of :: "string option \<Rightarrow> u64 \<Rightarrow> string" where
  "request_id_of header sequence =
     (case header of
        Some shown \<Rightarrow> if shown \<noteq> [] then shown else show_word sequence
      | None \<Rightarrow> show_word sequence)"

subsection \<open>The client\<close>

record http_reply =
  hr_status :: u16
  hr_body :: string

datatype client_error =
    ConnectFailed string string
  | SendFailed string string
  | ReceiveFailed string string
  | Silent string
  | MalformedAnswer string
  | ClientStalled string u64

primrec client_error_text :: "client_error \<Rightarrow> string" where
  "client_error_text (ConnectFailed path reason) =
     ''cannot connect to the pm3 daemon socket '' @ quoted path @ '': '' @ reason"
| "client_error_text (SendFailed path reason) =
     ''cannot send the request to the pm3 daemon on '' @ quoted path @ '': '' @ reason"
| "client_error_text (ReceiveFailed path reason) =
     ''cannot read the pm3 daemon reply from '' @ quoted path @ '': '' @ reason"
| "client_error_text (Silent path) =
     ''cannot read the pm3 daemon reply from '' @ quoted path @ '': the daemon answered nothing''"
| "client_error_text (MalformedAnswer reason) = ''cannot read the pm3 daemon reply: '' @ reason"
| "client_error_text (ClientStalled path timeout_ms) =
     ''cannot get an answer from the pm3 daemon on '' @ quoted path @ '' within '' @ show_word timeout_ms @ '' ms''"

definition CRLF :: string where
  "CRLF = [CHR 0x0D, CHR 0x0A]"

definition HEADER_TERMINATOR :: string where
  "HEADER_TERMINATOR = CRLF @ CRLF"

definition http_request :: "string \<Rightarrow> string \<Rightarrow> string option \<Rightarrow> string \<Rightarrow> string" where
  "http_request verb path body request_id =
     (case body of
        None \<Rightarrow>
          verb @ '' '' @ path @ '' HTTP/1.1'' @ CRLF @ ''Host: localhost'' @ CRLF @
          REQUEST_ID_HEADER @ '': '' @ request_id @ CRLF @ ''Connection: close'' @ HEADER_TERMINATOR
      | Some payload \<Rightarrow>
          verb @ '' '' @ path @ '' HTTP/1.1'' @ CRLF @ ''Host: localhost'' @ CRLF @
          REQUEST_ID_HEADER @ '': '' @ request_id @ CRLF @ ''Connection: close'' @ CRLF @
          ''Content-Type: application/json'' @ CRLF @ ''Content-Length: '' @ show_nat (length payload) @
          HEADER_TERMINATOR @ payload)"

definition parse_status :: "string \<Rightarrow> u16 option" where
  "parse_status s = map_option of_nat (parse_uint 16 s)"

definition parse_http_response :: "string \<Rightarrow> client_error + http_reply" where
  "parse_http_response raw =
     (case split_once HEADER_TERMINATOR raw of
        None \<Rightarrow> Inl (MalformedAnswer ''the headers are not terminated by a blank line'')
      | Some (head, body) \<Rightarrow>
     (case text_lines head of
        [] \<Rightarrow> Inl (MalformedAnswer ''the status line is missing'')
      | status_line # _ \<Rightarrow>
     (case split_whitespace status_line of
        version # code # _ \<Rightarrow>
          (case parse_status code of
             None \<Rightarrow> Inl (MalformedAnswer (''the status code '' @ quoted code @ '' is not a number''))
           | Some status \<Rightarrow> Inr \<lparr>hr_status = status, hr_body = body\<rparr>)
      | _ \<Rightarrow> Inl (MalformedAnswer ''the status line carries no status code''))))"

text \<open>What a conversation gave: whether sending failed, what was received and whether that failed.\<close>

record conversation =
  cv_sent :: "string option"
  cv_raw :: string
  cv_received :: "string option"

definition converse :: "conversation \<Rightarrow> string \<Rightarrow> client_error + string" where
  "converse cv path =
     (if cv_raw cv \<noteq> [] then Inr (cv_raw cv)
      else case cv_sent cv of
        Some reason \<Rightarrow> Inl (SendFailed path reason)
      | None \<Rightarrow>
     (case cv_received cv of
        Some reason \<Rightarrow> Inl (ReceiveFailed path reason)
      | None \<Rightarrow> Inl (Silent path)))"

record uds_client =
  uc_socket :: string
  uc_timeout_ms :: u64

datatype talk_result = TalkStalled | ConnectRefused string | Talked conversation

text \<open>The host answers a request text on a socket.\<close>

definition exchange :: "uds_client \<Rightarrow> (string \<Rightarrow> talk_result) \<Rightarrow> string \<Rightarrow> client_error + string" where
  "exchange client talk request =
     (case talk request of
        TalkStalled \<Rightarrow> Inl (ClientStalled (uc_socket client) (uc_timeout_ms client))
      | ConnectRefused reason \<Rightarrow> Inl (ConnectFailed (uc_socket client) reason)
      | Talked cv \<Rightarrow> converse cv (uc_socket client))"

definition client_request ::
  "uds_client \<Rightarrow> (string \<Rightarrow> talk_result) \<Rightarrow> string \<Rightarrow> string \<Rightarrow> string option \<Rightarrow> string \<Rightarrow> client_error + http_reply"
where
  "client_request client talk verb path body request_id =
     (case exchange client talk (http_request verb path body request_id) of
        Inl error \<Rightarrow> Inl error
      | Inr raw \<Rightarrow> parse_http_response raw)"

definition daemon_is_healthy :: "uds_client \<Rightarrow> (string \<Rightarrow> talk_result) \<Rightarrow> string \<Rightarrow> bool" where
  "daemon_is_healthy client talk request_id \<longleftrightarrow>
     (case client_request client talk ''GET'' HEALTH_PATH None request_id of
        Inl error \<Rightarrow> False
      | Inr reply \<Rightarrow> hr_status reply = OK_STATUS)"

subsection \<open>A command reaches the service it names\<close>

lemma parsed_id_shape:
  assumes "parse_u32 s = Some i"
  shows "s \<noteq> [] \<and> CHR ''/'' \<notin> set s"
proof -
  have "is_digit CHR ''/'' = False" by (simp add: is_digit_def)
  with assms show ?thesis
    by (auto simp: parse_u32_def parse_uint_def Let_def list_all_iff split: list.splits if_splits)
qed

lemma addressable_segment:
  assumes "addressable selector = Inr addressed"
  shows "addressed = selector \<and> selector \<noteq> [] \<and> CHR ''/'' \<notin> set selector"
proof (cases "selector_parse selector")
  case All
  then have "selector = RESERVED_ALL_SELECTOR"
    by (auto simp: selector_parse_def split: if_splits option.splits)
  moreover have "addressed = selector" using assms by (simp add: addressable_def All)
  ultimately show ?thesis by (simp add: RESERVED_ALL_SELECTOR_def)
next
  case (Id i)
  then have "parse_u32 selector = Some i" by (auto simp: selector_parse_def split: if_splits option.splits)
  with assms parsed_id_shape show ?thesis by (auto simp: addressable_def Id)
next
  case (Name name)
  then have name: "name = selector" by (auto simp: selector_parse_def split: if_splits option.splits)
  have ok: "validate_app_name selector = Inr ()" "addressed = selector"
    using assms by (auto simp: addressable_def Name name split: sum.splits) (cases "validate_app_name selector"; simp)+
  then show ?thesis using validated_name_safe[OF ok(1)] by (auto simp: safe_file_name_def)
qed

lemma app_path_segments:
  assumes "app_path selector = Inr path"
  shows "components path = [[], ''apps'', selector]" and "selector \<noteq> []"
proof -
  obtain addressed where "addressable selector = Inr addressed" "path = APPS_PATH @ ''/'' @ addressed"
    using assms by (auto simp: app_path_def map_sum_Inr)
  with addressable_segment[OF this(1)]
  show "components path = [[], ''apps'', selector]" and "selector \<noteq> []"
    by (simp_all add: APPS_PATH_def split_on_absent)
qed

lemma app_action_path_segments:
  assumes "app_action_path selector verb = Inr path" and "CHR ''/'' \<notin> set verb"
  shows "components path = [[], ''apps'', selector, verb]" and "selector \<noteq> []"
proof -
  obtain addressed where "addressable selector = Inr addressed"
      "path = APPS_PATH @ ''/'' @ addressed @ ''/'' @ verb"
    using assms by (auto simp: app_action_path_def map_sum_Inr)
  with addressable_segment[OF this(1)] assms(2)
  show "components path = [[], ''apps'', selector, verb]" and "selector \<noteq> []"
    by (simp_all add: APPS_PATH_def split_on_append split_on_absent)
qed

lemmas path_texts = HEALTH_PATH_def APPS_PATH_def SERVICES_STOP_ALL_PATH_def STOP_ACTION_def
  RESTART_ACTION_def RESET_ACTION_def SIGNAL_ACTION_def

lemma plain_requests_arrive:
  "app_path selector = Inr path \<Longrightarrow>
    route ''GET'' path body = Some (Dispatch (DescribeRequest (selector_parse selector))) \<and>
    route ''DELETE'' path body = Some (Dispatch (DeleteRequest (selector_parse selector)))"
  by (simp add: route_def app_path_segments path_texts)

lemma action_requests_arrive:
  assumes "app_action_path selector verb = Inr path"
    and "verb \<in> {STOP_ACTION, RESTART_ACTION, RESET_ACTION}"
  shows "route ''POST'' path body =
    Some (Dispatch ((if verb = STOP_ACTION then StopRequest else if verb = RESTART_ACTION then RestartRequest
      else ResetRequest) (selector_parse selector)))"
proof -
  have "CHR ''/'' \<notin> set verb" using assms(2) by (auto simp: path_texts)
  note segments = app_action_path_segments[OF assms(1) this]
  show ?thesis using assms(2) by (auto simp: route_def segments path_texts)
qed

lemma signal_request_arrives:
  assumes "app_action_path selector SIGNAL_ACTION = Inr path"
  shows "route ''POST'' path (SignalBody signal) = Some (Dispatch (SignalRequest (selector_parse selector) signal))"
proof -
  have "CHR ''/'' \<notin> set SIGNAL_ACTION" by (simp add: path_texts)
  note segments = app_action_path_segments[OF assms this]
  show ?thesis by (simp add: route_def segments path_texts)
qed

text \<open>Only a refusal is answered with a status other than 200, so a client never mistakes one for a reply.\<close>

lemma status_of_refusal: "status_of error \<noteq> OK_STATUS"
  by (cases error rule: status_of.cases; (simp add: OK_STATUS_def)?)
    (rename_tac e, case_tac e; simp add: OK_STATUS_def)

lemma dispatch_status: "fst (dispatch C json outcome) = OK_STATUS \<longleftrightarrow> (\<exists>reply. outcome = Inr reply)"
  using status_of_refusal
  by (auto simp: dispatch_def render_outcome_def Let_def split: sum.splits prod.splits)

subsection \<open>Heads and bodies\<close>

lemma split_once_skip:
  "CHR 0x0D \<notin> set a \<Longrightarrow>
    split_once HEADER_TERMINATOR (a @ s) = map_option (\<lambda>(head, body). (a @ head, body)) (split_once HEADER_TERMINATOR s)"
proof (induction a)
  case (Cons c a)
  then have "c \<noteq> CHR 0x0D" by auto
  then have "\<not> starts_with HEADER_TERMINATOR (c # a @ s)"
    by (simp add: starts_with_def HEADER_TERMINATOR_def CRLF_def)
  with Cons show ?case by (cases "split_once HEADER_TERMINATOR s") auto
qed (cases "split_once HEADER_TERMINATOR s"; auto)

lemma split_once_crlf:
  assumes "s = c # rest" and "c \<noteq> CHR 0x0D"
  shows "split_once HEADER_TERMINATOR (CRLF @ s) =
    map_option (\<lambda>(head, body). (CRLF @ head, body)) (split_once HEADER_TERMINATOR s)"
  using assms by (cases "split_once HEADER_TERMINATOR s")
    (auto simp: CRLF_def starts_with_def HEADER_TERMINATOR_def)

lemma split_once_head:
  "lines \<noteq> [] \<Longrightarrow> \<forall>line\<in>set lines. line \<noteq> [] \<and> CHR 0x0D \<notin> set line \<Longrightarrow>
    split_once HEADER_TERMINATOR (join CRLF lines @ HEADER_TERMINATOR @ body) = Some (join CRLF lines, body)"
proof (induction lines rule: list_nonempty_induct)
  case (single line)
  have "split_once HEADER_TERMINATOR (HEADER_TERMINATOR @ body) = Some ([], body)"
    by (simp add: HEADER_TERMINATOR_def CRLF_def starts_with_def)
  with single show ?case by (simp add: split_once_skip)
next
  case (cons line lines)
  obtain second others where lines: "lines = second # others" using cons.hyps by (cases lines) auto
  obtain c rest where second: "second = c # rest" "c \<noteq> CHR 0x0D" using cons.prems lines by (cases second) auto
  have first: "join CRLF lines @ HEADER_TERMINATOR @ body = c # rest @
      (if others = [] then [] else CRLF @ join CRLF others) @ HEADER_TERMINATOR @ body"
    by (cases others) (simp_all add: lines second)
  have "split_once HEADER_TERMINATOR (CRLF @ join CRLF lines @ HEADER_TERMINATOR @ body) =
      Some (CRLF @ join CRLF lines, body)"
    using split_once_crlf[OF first second(2)] cons.IH cons.prems by simp
  moreover have "join CRLF (line # lines) = line @ CRLF @ join CRLF lines" by (simp add: lines)
  ultimately show ?case using cons.prems by (simp add: split_once_skip)
qed

text \<open>
  A response as the server writes it is read back: its status and the whole of its body, whatever
  the body holds.
\<close>

lemma split_words_at:
  "list_all is_graphic word \<Longrightarrow> w @ word \<noteq> [] \<Longrightarrow>
    split_words (map (\<lambda>c. [c]) (word @ CHR '' '' # s)) w = (w @ word) # split_words (map (\<lambda>c. [c]) s) []"
proof (induction word arbitrary: w)
  case Nil
  then show ?case by (simp add: is_whitespace_def whitespace_def)
next
  case (Cons c word)
  then have "\<not> is_whitespace [c]" by (intro graphic_not_whitespace) simp
  with Cons show ?case by simp
qed

lemma status_line_words:
  assumes "list_all is_graphic version" and "version \<noteq> []" and "list_all is_ascii reason"
  shows "\<exists>others. split_whitespace (version @ '' '' @ show_nat code @ '' '' @ reason) = version # show_nat code # others"
proof -
  have "list_all is_ascii (version @ '' '' @ show_nat code @ '' '' @ reason)"
    using assms graphic_ascii show_nat_graphic[of code] by (auto simp: is_ascii_def)
  then show ?thesis
    using split_words_at[OF assms(1), of "[]" "show_nat code @ CHR '' '' # reason"] assms(2)
      split_words_at[OF show_nat_graphic, of "[]" code reason]
    by (simp add: split_whitespace_def chars_ascii)
qed

lemma head_first_line:
  assumes "CHR 0x0A \<notin> set line" and "CHR 0x0D \<notin> set line" and "line \<noteq> []"
  shows "\<exists>rest. text_lines (join CRLF (line # lines)) = line # rest"
proof (cases lines)
  case Nil
  then show ?thesis using assms by (simp add: text_lines_def split_on_absent)
next
  case (Cons second others)
  have "join CRLF (line # lines) = (line @ [CHR 0x0D]) @ CHR 0x0A # join CRLF lines"
    by (simp add: Cons CRLF_def)
  moreover have "split_on CHR 0x0A (line @ [CHR 0x0D]) = [line @ [CHR 0x0D]]"
    using assms by (simp add: split_on_absent)
  ultimately show ?thesis by (simp only: text_lines_newline) (simp add: strip_cr_def)
qed

lemma response_is_read:
  assumes "list_all is_graphic version" and "version \<noteq> []"
    and "\<forall>c\<in>set reason. is_ascii c \<and> c \<noteq> CHR 0x0A \<and> c \<noteq> CHR 0x0D"
    and "\<forall>header\<in>set fields_sent. header \<noteq> [] \<and> CHR 0x0D \<notin> set header" and "code < 2 ^ 16"
  shows "parse_http_response
      (join CRLF ((version @ '' '' @ show_nat code @ '' '' @ reason) # fields_sent) @ HEADER_TERMINATOR @ body) =
    Inr \<lparr>hr_status = of_nat code, hr_body = body\<rparr>"
proof -
  define line where "line = version @ '' '' @ show_nat code @ '' '' @ reason"
  have graphic: "CHR 0x0A \<notin> set s \<and> CHR 0x0D \<notin> set s" if "list_all is_graphic s" for s
    using that by (auto simp: is_graphic_def list_all_iff)
  have "CHR 0x0A \<notin> set line \<and> CHR 0x0D \<notin> set line"
    using graphic[OF assms(1)] graphic[OF show_nat_graphic, of code] assms(3) by (auto simp: line_def)
  moreover have "line \<noteq> []" using assms(2) by (simp add: line_def)
  ultimately have line: "CHR 0x0A \<notin> set line" "CHR 0x0D \<notin> set line" "line \<noteq> []" by auto
  have "split_once HEADER_TERMINATOR (join CRLF (line # fields_sent) @ HEADER_TERMINATOR @ body) =
      Some (join CRLF (line # fields_sent), body)"
    using line assms(4) by (intro split_once_head) auto
  moreover obtain rest where "text_lines (join CRLF (line # fields_sent)) = line # rest"
    using head_first_line[OF line] by blast
  moreover obtain others where "split_whitespace line = version # show_nat code # others"
    using status_line_words[of version reason code] assms by (auto simp: line_def list_all_iff)
  moreover have "parse_status (show_nat code) = Some (of_nat code)"
    using assms(5) by (simp add: parse_status_def parse_uint_show_nat)
  ultimately show ?thesis unfolding line_def[symmetric] by (simp add: parse_http_response_def)
qed

text \<open>A request's head ends where its body begins, so the server reads the body that was sent.\<close>

lemma request_body_is_found:
  assumes "\<forall>part\<in>{verb, path, request_id}. CHR 0x0D \<notin> set part" and "path \<noteq> []"
  shows "\<exists>head. split_once HEADER_TERMINATOR (http_request verb path body request_id) =
    Some (head, case body of None \<Rightarrow> [] | Some payload \<Rightarrow> payload)"
proof -
  define lines where "lines = [verb @ '' '' @ path @ '' HTTP/1.1'', ''Host: localhost'',
      REQUEST_ID_HEADER @ '': '' @ request_id, ''Connection: close''] @
    (case body of None \<Rightarrow> [] | Some payload \<Rightarrow>
      [''Content-Type: application/json'', ''Content-Length: '' @ show_nat (length payload)])"
  have "http_request verb path body request_id =
      join CRLF lines @ HEADER_TERMINATOR @ (case body of None \<Rightarrow> [] | Some payload \<Rightarrow> payload)"
    by (simp add: http_request_def lines_def split: option.splits)
  moreover have "CHR 0x0D \<notin> set (show_nat n)" for n
    using show_nat_graphic[of n] by (auto simp: list_all_iff is_graphic_def)
  then have "\<forall>line\<in>set lines. line \<noteq> [] \<and> CHR 0x0D \<notin> set line"
    using assms by (auto simp: lines_def REQUEST_ID_HEADER_def split: option.splits)
  moreover have "lines \<noteq> []" by (simp add: lines_def)
  ultimately show ?thesis using split_once_head by metis
qed

end
