(* ===== verification/Unit_Files.thy ===== *)
theory Unit_Files
  imports Service_File Config Splitting
begin

text \<open>
  The files that make a service manager start the daemon (\<open>adapters/src/unit/spec.rs\<close>, \<open>escape.rs\<close>,
  \<open>systemd.rs\<close>, \<open>launchd.rs\<close>, \<open>schtasks.rs\<close>): what they say, how values are escaped in each of the
  three formats, and how the managers' answers are read.
\<close>

subsection \<open>The unit\<close>

datatype unit_kind = Launchd | Systemd | WinSchtasks

primrec unit_kind_as_str :: "unit_kind \<Rightarrow> string" where
  "unit_kind_as_str Launchd = ''launchd''"
| "unit_kind_as_str Systemd = ''systemd''"
| "unit_kind_as_str WinSchtasks = ''schtasks''"

primrec kind_unit_dir :: "unit_kind \<Rightarrow> string" where
  "kind_unit_dir Launchd = ''Library/LaunchAgents''"
| "kind_unit_dir Systemd = ''.config/systemd/user''"
| "kind_unit_dir WinSchtasks = ''.pm3/service''"

primrec unit_suffix :: "unit_kind \<Rightarrow> string" where
  "unit_suffix Launchd = ''plist''"
| "unit_suffix Systemd = ''service''"
| "unit_suffix WinSchtasks = ''xml''"

datatype linger_state = LingerEnabled | LingerUnknown

datatype unit_status = NotInstalled | InstalledNotRunning | UnitRunning

primrec unit_status_as_str :: "unit_status \<Rightarrow> string" where
  "unit_status_as_str NotInstalled = ''not installed''"
| "unit_status_as_str InstalledNotRunning = ''installed, not running''"
| "unit_status_as_str UnitRunning = ''running''"

definition DAEMON_SUBCOMMAND :: string where "DAEMON_SUBCOMMAND = ''daemon''"
definition CONFIG_FLAG :: string where "CONFIG_FLAG = ''--config''"

record unit_spec =
  us_kind :: unit_kind
  us_label :: string
  us_unit_dir :: string
  us_program :: string
  us_config_path :: string
  us_working_directory :: string
  us_log_path :: string
  us_search_path :: string
  us_home :: string
  us_account :: string
  us_pm3_env :: "(string \<times> string) list"
  us_restart_delay_secs :: u64
  us_restart_condition :: string
  us_umask :: u32
  us_max_tasks :: u64
  us_cpu_quota_percent :: u64
  us_wait_for_network :: bool

definition unit_name :: "unit_spec \<Rightarrow> string" where
  "unit_name spec = us_label spec @ ''.'' @ unit_suffix (us_kind spec)"

definition unit_path :: "unit_spec \<Rightarrow> string" where
  "unit_path spec = path_join (us_unit_dir spec) (unit_name spec)"

definition wrapper_name :: "unit_spec \<Rightarrow> string" where
  "wrapper_name spec = us_label spec @ ''-daemon.cmd''"

definition wrapper_path :: "unit_spec \<Rightarrow> string" where
  "wrapper_path spec = path_join (us_unit_dir spec) (wrapper_name spec)"

definition daemon_args :: "unit_spec \<Rightarrow> string list" where
  "daemon_args spec = [DAEMON_SUBCOMMAND, CONFIG_FLAG, us_config_path spec]"

definition environment_pairs :: "unit_spec \<Rightarrow> (string \<times> string) list" where
  "environment_pairs spec = (''HOME'', us_home spec) # (''PATH'', us_search_path spec) # us_pm3_env spec"

definition unit_dir_of :: "unit_kind \<Rightarrow> string \<Rightarrow> string" where
  "unit_dir_of kind home = path_join home (kind_unit_dir kind)"

text \<open>\<open>Vec::sort\<close> on pairs: by name, then by value.\<close>

definition pm3_variables :: "(string \<times> string) list \<Rightarrow> (string \<times> string) list" where
  "pm3_variables vars =
     sort_key fst (sort_key snd (filter (\<lambda>(name, val). starts_with ''PM3_'' name) vars))"

definition runtime_dir_of :: "string option \<Rightarrow> u32 option \<Rightarrow> string option" where
  "runtime_dir_of declared uid =
     (case is_named declared of
        Some dir \<Rightarrow> Some dir
      | None \<Rightarrow> map_option (\<lambda>owner. ''/run/user/'' @ show_word owner) uid)"

definition parse_linger_state :: "bool \<Rightarrow> string \<Rightarrow> linger_state" where
  "parse_linger_state exit_success stdout =
     (if exit_success \<and> trim stdout = ''yes'' then LingerEnabled else LingerUnknown)"

definition LAUNCHD_PID_KEY :: string where
  "LAUNCHD_PID_KEY = [CHR 0x22] @ ''PID'' @ [CHR 0x22]"

definition parse_run_state :: "unit_kind \<Rightarrow> bool \<Rightarrow> string \<Rightarrow> bool" where
  "parse_run_state kind exit_success stdout =
     (case kind of
        Launchd \<Rightarrow> if exit_success then contains LAUNCHD_PID_KEY stdout else False
      | Systemd \<Rightarrow> trim stdout = ''active''
      | WinSchtasks \<Rightarrow> if exit_success then contains ''Running'' stdout else False)"

fun launchd_pid_in :: "string list \<Rightarrow> u32 option" where
  "launchd_pid_in [] = None"
| "launchd_pid_in (line # lines) =
     (case split_once ''='' line of
        None \<Rightarrow> launchd_pid_in lines
      | Some (key, val) \<Rightarrow>
          if trim key \<noteq> LAUNCHD_PID_KEY then launchd_pid_in lines
          else parse_u32 (trim (trim_end_matches CHR '';'' (trim val))))"

definition parse_launchd_pid :: "string \<Rightarrow> u32 option" where
  "parse_launchd_pid stdout = launchd_pid_in (text_lines stdout)"

definition parse_main_pid :: "string \<Rightarrow> u32 option" where
  "parse_main_pid stdout =
     (case parse_u32 (trim stdout) of None \<Rightarrow> None | Some pid \<Rightarrow> if 0 < pid then Some pid else None)"

subsection \<open>Escaping\<close>

definition escape_xml_letter :: "string \<Rightarrow> string" where
  "escape_xml_letter letter =
     (if letter = ''&'' then ''&amp;''
      else if letter = ''<'' then ''&lt;''
      else if letter = ''>'' then ''&gt;''
      else if letter = [CHR 0x22] then ''&quot;''
      else if letter = [CHR 0x27] then ''&apos;''
      else letter)"

definition escape_xml :: "string \<Rightarrow> string" where
  "escape_xml raw = concat (map escape_xml_letter (chars raw))"

definition escape_value_letter :: "string \<Rightarrow> string" where
  "escape_value_letter letter =
     (if letter = [CHR 0x5C] then [CHR 0x5C, CHR 0x5C]
      else if letter = [CHR 0x22] then [CHR 0x5C, CHR 0x22]
      else if letter = ''%'' then ''%%''
      else letter)"

definition escape_value :: "string \<Rightarrow> string" where
  "escape_value raw = concat (map escape_value_letter (chars raw))"

definition escape_batch :: "string \<Rightarrow> string" where
  "escape_batch raw = replace_all ''%'' ''%%'' raw"

definition unlines :: "string list \<Rightarrow> string" where
  "unlines texts = concat (map (\<lambda>t. t @ [CHR 0x0A]) texts)"

subsection \<open>systemd\<close>

definition quote_token :: "string \<Rightarrow> string" where
  "quote_token raw = [CHR 0x22] @ escape_value raw @ [CHR 0x22]"

definition render_exec_start :: "unit_spec \<Rightarrow> string" where
  "render_exec_start spec = join '' '' (map quote_token (us_program spec # daemon_args spec))"

definition sd_variable :: "string \<times> string \<Rightarrow> string" where
  "sd_variable entry =
     ''Environment='' @ [CHR 0x22] @ escape_value (fst entry) @ ''='' @ escape_value (snd entry) @
     [CHR 0x22, CHR 0x0A]"

definition sd_environment :: "(string \<times> string) list \<Rightarrow> string" where
  "sd_environment vars = concat (map sd_variable vars)"

definition render_cpu_quota :: "u64 \<Rightarrow> string" where
  "render_cpu_quota percent =
     (if percent = 0 then [] else ''CPUQuota='' @ show_word percent @ ''%'' @ [CHR 0x0A])"

definition render_network_wait :: "bool \<Rightarrow> string" where
  "render_network_wait wait_for_network =
     (if wait_for_network then unlines [''Wants=network-online.target'', ''After=network-online.target''] else [])"

fun show_octal :: "nat \<Rightarrow> string" where
  "show_octal n =
     (if n < 8 then [char_of (48 + n)] else show_octal (n div 8) @ [char_of (48 + n mod 8)])"

declare show_octal.simps [simp del]

definition octal_four :: "u32 \<Rightarrow> string" where
  "octal_four bits = (let shown = show_octal (unat bits) in replicate (4 - length shown) CHR ''0'' @ shown)"

definition render_unit :: "unit_spec \<Rightarrow> string" where
  "render_unit spec =
     (let label = escape_value (us_label spec);
          working_directory = escape_value (us_working_directory spec);
          log_path = escape_value (us_log_path spec) in
     unlines [''[Unit]'',
       ''Description='' @ label,
       ''After=default.target'',
       render_network_wait (us_wait_for_network spec),
       ''[Service]'',
       ''Type=simple'',
       ''ExecStart='' @ render_exec_start spec,
       ''WorkingDirectory='' @ working_directory,
       ''Restart='' @ escape_value (us_restart_condition spec),
       ''RestartSec='' @ show_word (us_restart_delay_secs spec),
       ''KillMode=process'',
       ''UMask='' @ octal_four (us_umask spec),
       ''LimitCORE=0'',
       ''TasksMax='' @ show_word (us_max_tasks spec),
       render_cpu_quota (us_cpu_quota_percent spec) @ sd_environment (environment_pairs spec) @ ''StandardOutput=append:'' @ log_path,
       ''StandardError=append:'' @ log_path,
       [],
       ''[Install]'',
       ''WantedBy=default.target''])"

subsection \<open>launchd\<close>

definition PLIST_HEADER :: string where
  "PLIST_HEADER =
     unlines [''<?xml version='' @ [CHR 0x22] @ ''1.0'' @ [CHR 0x22] @ '' encoding='' @ [CHR 0x22] @ ''UTF-8'' @ [CHR 0x22] @ ''?>'',
       ''<!DOCTYPE plist PUBLIC '' @ [CHR 0x22] @ ''-//Apple//DTD PLIST 1.0//EN'' @ [CHR 0x22] @ '' '' @
       [CHR 0x22] @ ''http://www.apple.com/DTDs/PropertyList-1.0.dtd'' @ [CHR 0x22] @ ''>'',
       ''<plist version='' @ [CHR 0x22] @ ''1.0'' @ [CHR 0x22] @ ''>'']"

definition keep_alive_of :: "string \<Rightarrow> string" where
  "keep_alive_of restart_condition =
     (if restart_condition = ''on-failure''
      then unlines [''<dict>'', ''        <key>SuccessfulExit</key>'', ''        <false/>''] @ ''    </dict>''
      else ''<true/>'')"

definition ld_variable :: "string \<times> string \<Rightarrow> string" where
  "ld_variable entry =
     unlines [''        <key>'' @ escape_xml (fst entry) @ ''</key>'',
       ''        <string>'' @ escape_xml (snd entry) @ ''</string>'']"

definition ld_environment :: "(string \<times> string) list \<Rightarrow> string" where
  "ld_environment vars = concat (map ld_variable vars)"

definition render_argument :: "string \<Rightarrow> string" where
  "render_argument raw = unlines [''        <string>'' @ escape_xml raw @ ''</string>'']"

definition render_plist :: "unit_spec \<Rightarrow> string" where
  "render_plist spec =
     (let arguments = concat (map render_argument (daemon_args spec));
          program = render_argument (us_program spec);
          label = escape_xml (us_label spec);
          working_directory = escape_xml (us_working_directory spec);
          log_path = escape_xml (us_log_path spec);
          environment = ld_environment (environment_pairs spec) in
     (
     PLIST_HEADER @ unlines [''<dict>'',
       ''    <key>Label</key>'',
       ''    <string>'' @ label @ ''</string>'',
       ''    <key>ProgramArguments</key>'',
       ''    <array>''] @
     program @ arguments @
     unlines [''    </array>'',
       ''    <key>WorkingDirectory</key>'',
       ''    <string>'' @ working_directory @ ''</string>'',
       ''    <key>RunAtLoad</key>'',
       ''    <true/>'',
       ''    <key>KeepAlive</key>'',
       ''    '' @ keep_alive_of (us_restart_condition spec),
       ''    <key>ThrottleInterval</key>'',
       ''    <integer>'' @ show_word (us_restart_delay_secs spec) @ ''</integer>'',
       ''    <key>AbandonProcessGroup</key>'',
       ''    <true/>'',
       ''    <key>ProcessType</key>'',
       ''    <string>Interactive</string>'',
       ''    <key>Umask</key>'',
       ''    <integer>'' @ show_word (us_umask spec) @ ''</integer>'',
       ''    <key>HardResourceLimits</key>'',
       ''    <dict>'',
       ''        <key>NumberOfProcesses</key>'',
       ''        <integer>'' @ show_word (us_max_tasks spec) @ ''</integer>'',
       ''    </dict>'',
       ''    <key>StandardOutPath</key>'',
       ''    <string>'' @ log_path @ ''</string>'',
       ''    <key>StandardErrorPath</key>'',
       ''    <string>'' @ log_path @ ''</string>'',
       ''    <key>EnvironmentVariables</key>'',
       ''    <dict>''] @
     environment @
     unlines [''    </dict>'',
       ''</dict>'',
       ''</plist>'']))"

subsection \<open>Windows tasks\<close>

definition UTF16_DECLARATION :: string where
  "UTF16_DECLARATION =
     unlines [''<?xml version='' @ [CHR 0x22] @ ''1.0'' @ [CHR 0x22] @ '' encoding='' @ [CHR 0x22] @ ''UTF-16'' @ [CHR 0x22] @ ''?>'']"

definition TASK_OPENING :: string where
  "TASK_OPENING =
     unlines [''<Task version='' @ [CHR 0x22] @ ''1.2'' @ [CHR 0x22] @ '' xmlns='' @ [CHR 0x22] @
       ''http://schemas.microsoft.com/windows/2004/02/mit/task'' @ [CHR 0x22] @ ''>'']"

definition RESTART_COUNT :: nat where
  "RESTART_COUNT = 999"

definition render_task_xml :: "unit_spec \<Rightarrow> string" where
  "render_task_xml spec =
     (let label = escape_xml (us_label spec);
          account = escape_xml (us_account spec);
          wrapper = escape_xml (wrapper_path spec);
          working_directory = escape_xml (us_working_directory spec);
          interval = max (us_restart_delay_secs spec) 60 in
     UTF16_DECLARATION @ TASK_OPENING @ unlines [''  <RegistrationInfo>'',
       ''    <Description>'' @ label @ ''</Description>'',
       ''  </RegistrationInfo>'',
       ''  <Triggers>'',
       ''    <LogonTrigger>'',
       ''      <Enabled>true</Enabled>'',
       ''      <UserId>'' @ account @ ''</UserId>'',
       ''    </LogonTrigger>'',
       ''  </Triggers>'',
       ''  <Principals>'',
       ''    <Principal>'',
       ''      <UserId>'' @ account @ ''</UserId>'',
       ''      <LogonType>InteractiveToken</LogonType>'',
       ''      <RunLevel>LeastPrivilege</RunLevel>'',
       ''    </Principal>'',
       ''  </Principals>'',
       ''  <Settings>'',
       ''    <MultipleInstancesPolicy>IgnoreNew</MultipleInstancesPolicy>'',
       ''    <DisallowStartIfOnBatteries>false</DisallowStartIfOnBatteries>'',
       ''    <StopIfGoingOnBatteries>false</StopIfGoingOnBatteries>'',
       ''    <AllowHardTerminate>false</AllowHardTerminate>'',
       ''    <ExecutionTimeLimit>PT0S</ExecutionTimeLimit>'',
       ''    <RestartOnFailure>'',
       ''      <Interval>PT'' @ show_word interval @ ''S</Interval>'',
       ''      <Count>'' @ show_nat RESTART_COUNT @ ''</Count>'',
       ''    </RestartOnFailure>'',
       ''  </Settings>'',
       ''  <Actions>'',
       ''    <Exec>'',
       ''      <Command>'' @ wrapper @ ''</Command>'',
       ''      <WorkingDirectory>'' @ working_directory @ ''</WorkingDirectory>'',
       ''    </Exec>'',
       ''  </Actions>'',
       ''</Task>''])"

text \<open>The code point of a character, and its one or two units of UTF-16, low byte first.\<close>

definition scalar_of :: "string \<Rightarrow> nat" where
  "scalar_of letter =
     (case letter of
        [] \<Rightarrow> 0
      | [a] \<Rightarrow> of_char a
      | a # rest \<Rightarrow>
          foldl (\<lambda>v c. v * 64 + (of_char c - 128))
            (of_char a - (if length rest = 1 then 192 else if length rest = 2 then 224 else 240)) rest)"

definition utf16_units :: "nat \<Rightarrow> nat list" where
  "utf16_units v =
     (if v < 0x10000 then [v]
      else [0xD800 + (v - 0x10000) div 1024, 0xDC00 + (v - 0x10000) mod 1024])"

definition encode_for_disk :: "string \<Rightarrow> string" where
  "encode_for_disk contents =
     (if starts_with UTF16_DECLARATION contents
      then [CHR 0xFF, CHR 0xFE] @
        concat (map (\<lambda>w. [char_of (w mod 256), char_of (w div 256)])
          (concat (map (\<lambda>letter. utf16_units (scalar_of letter)) (chars contents))))
      else contents)"

definition render_assignment :: "string \<times> string \<Rightarrow> string" where
  "render_assignment entry =
     ''set '' @ [CHR 0x22] @ fst entry @ ''='' @ escape_batch (snd entry) @ [CHR 0x22, CHR 0x0D, CHR 0x0A]"

definition render_wrapper :: "unit_spec \<Rightarrow> string" where
  "render_wrapper spec =
     ''@echo off'' @ [CHR 0x0D, CHR 0x0A] @
     concat (map render_assignment (environment_pairs spec)) @
     [CHR 0x22] @ us_program spec @ [CHR 0x22] @ '' '' @ DAEMON_SUBCOMMAND @ '' '' @ CONFIG_FLAG @ '' '' @
     [CHR 0x22] @ us_config_path spec @ [CHR 0x22] @ '' >> '' @ [CHR 0x22] @ us_log_path spec @ [CHR 0x22] @
     '' 2>&1'' @ [CHR 0x0D, CHR 0x0A] @ ''exit /b 1'' @ [CHR 0x0D, CHR 0x0A]"

subsection \<open>Escaped values are read back\<close>

text \<open>
  How a quoted word of a systemd unit is read, up to the closing quote: a backslash takes the next
  character literally, a doubled percent sign is one, a single one would start a specifier.
\<close>

fun read_quoted :: "string \<Rightarrow> (string \<times> string) option" where
  "read_quoted [] = None"
| "read_quoted (c # rest) =
     (if c = CHR 0x22 then Some ([], rest)
      else if c = CHR 0x5C then
        (case rest of
           [] \<Rightarrow> None
         | d # rest \<Rightarrow> map_option (\<lambda>(val, rest). (d # val, rest)) (read_quoted rest))
      else if c = CHR ''%'' then
        (case rest of
           [] \<Rightarrow> None
         | d # rest \<Rightarrow> if d = CHR ''%'' then map_option (\<lambda>(val, rest). (d # val, rest)) (read_quoted rest) else None)
      else map_option (\<lambda>(val, rest). (c # val, rest)) (read_quoted rest))"

lemma read_quoted_plain:
  "\<forall>c\<in>set s. c \<noteq> CHR 0x22 \<and> c \<noteq> CHR 0x5C \<and> c \<noteq> CHR ''%'' \<Longrightarrow>
    read_quoted (s @ rest) = map_option (\<lambda>(val, rest). (s @ val, rest)) (read_quoted rest)"
proof (induction s)
  case (Cons c s)
  then show ?case by (cases "read_quoted rest") auto
qed (cases "read_quoted rest"; auto)

lemma wide_letter_bytes:
  "valid_letter l \<Longrightarrow> length l \<noteq> 1 \<Longrightarrow> c \<in> set l \<Longrightarrow> \<not> is_ascii c"
  by (erule valid_letter_cases)
    (auto simp: is_ascii_def is_continuation_def Let_def list_all_iff)

lemma read_quoted_letter:
  assumes "valid_letter l"
  shows "read_quoted (escape_value_letter l @ rest) = map_option (\<lambda>(val, rest). (l @ val, rest)) (read_quoted rest)"
proof (cases "l \<in> {[CHR 0x5C], [CHR 0x22], ''%''}")
  case True
  then show ?thesis by (cases "read_quoted rest") (auto simp: escape_value_letter_def)
next
  case False
  have "\<forall>c\<in>set l. c \<noteq> CHR 0x22 \<and> c \<noteq> CHR 0x5C \<and> c \<noteq> CHR ''%''"
  proof (cases "length l = 1")
    case True
    then obtain c where "l = [c]" by (cases l) auto
    with False show ?thesis by auto
  next
    case wide: False
    have "is_ascii CHR 0x22" "is_ascii CHR 0x5C" "is_ascii CHR ''%''" by (simp_all add: is_ascii_def)
    then show ?thesis using wide_letter_bytes[OF assms wide] by auto
  qed
  then show ?thesis using False read_quoted_plain[of l rest] by (simp add: escape_value_letter_def)
qed

lemma read_quoted_value:
  assumes "rust_text s"
  shows "read_quoted (escape_value s @ CHR 0x22 # rest) = Some (s, rest)"
proof -
  have "read_quoted (concat (map escape_value_letter ls) @ CHR 0x22 # rest) = Some (concat ls, rest)"
    if "list_all valid_letter ls" for ls
    using that by (induction ls) (auto simp: read_quoted_letter)
  then show ?thesis using assms by (simp add: escape_value_def rust_text_def)
qed

text \<open>The text of an XML element, up to the tag that follows it, with the five named entities.\<close>

definition xml_entities :: "(string \<times> string) list" where
  "xml_entities = [(''amp;'', ''&''), (''lt;'', ''<''), (''gt;'', ''>''), (''quot;'', [CHR 0x22]), (''apos;'', [CHR 0x27])]"

function read_xml_text :: "string \<Rightarrow> (string \<times> string) option" where
  "read_xml_text [] = None"
| "read_xml_text (c # rest) =
     (if c = CHR ''<'' then Some ([], c # rest)
      else if c = CHR ''&'' then
        (case find (\<lambda>(name, val). starts_with name rest) xml_entities of
           None \<Rightarrow> None
         | Some (name, val) \<Rightarrow> map_option (\<lambda>(t, rest). (val @ t, rest)) (read_xml_text (drop (length name) rest)))
      else map_option (\<lambda>(t, rest). (c # t, rest)) (read_xml_text rest))"
  by pat_completeness auto
termination
  by (relation "measure length") auto

lemma read_xml_plain:
  "\<forall>c\<in>set s. c \<noteq> CHR ''<'' \<and> c \<noteq> CHR ''&'' \<Longrightarrow>
    read_xml_text (s @ rest) = map_option (\<lambda>(t, rest). (s @ t, rest)) (read_xml_text rest)"
proof (induction s)
  case (Cons c s)
  then show ?case by (cases "read_xml_text rest") auto
qed (cases "read_xml_text rest"; auto)

lemma read_xml_letter:
  assumes "valid_letter l"
  shows "read_xml_text (escape_xml_letter l @ rest) = map_option (\<lambda>(t, rest). (l @ t, rest)) (read_xml_text rest)"
proof (cases "l \<in> {''&'', ''<'', ''>'', [CHR 0x22], [CHR 0x27]}")
  case True
  then show ?thesis
    by (cases "read_xml_text rest") (auto simp: escape_xml_letter_def xml_entities_def starts_with_def)
next
  case False
  have "\<forall>c\<in>set l. c \<noteq> CHR ''<'' \<and> c \<noteq> CHR ''&''"
  proof (cases "length l = 1")
    case True
    then obtain c where "l = [c]" by (cases l) auto
    with False show ?thesis by auto
  next
    case wide: False
    have "is_ascii CHR ''<''" "is_ascii CHR ''&''" by (simp_all add: is_ascii_def)
    then show ?thesis using wide_letter_bytes[OF assms wide] by auto
  qed
  then show ?thesis using False read_xml_plain[of l rest] by (simp add: escape_xml_letter_def)
qed

lemma read_xml_value:
  assumes "rust_text s"
  shows "read_xml_text (escape_xml s @ CHR ''<'' # rest) = Some (s, CHR ''<'' # rest)"
proof -
  have "read_xml_text (concat (map escape_xml_letter ls) @ CHR ''<'' # rest) = Some (concat ls, CHR ''<'' # rest)"
    if "list_all valid_letter ls" for ls
    using that by (induction ls) (auto simp: read_xml_letter)
  then show ?thesis using assms by (simp add: escape_xml_def rust_text_def)
qed

text \<open>A line feed in a variable's value is written as it is and so ends the line of the unit.\<close>

lemma line_feed_ends_the_variable:
  "text_lines (sd_variable (''PM3_NOTE'', ''a'' @ [CHR 0x0A] @ ''User=other'')) =
    [''Environment='' @ [CHR 0x22] @ ''PM3_NOTE=a'', ''User=other'' @ [CHR 0x22]]"
  by code_simp

end
