(* ===== verification/Unit_Plans.thy ===== *)
theory Unit_Plans
  imports Unit_Files Commands
begin

text \<open>
  Registering the daemon with the host's service manager (\<open>adapters/src/unit/command.rs\<close>,
  \<open>plan.rs\<close>, \<open>runner.rs\<close>, \<open>actions.rs\<close>): the commands of the managers, the plans that install and
  remove a unit, and their execution, which removes the files it created when a step fails. What
  a command answers is a parameter.
\<close>

subsection \<open>Commands of the managers\<close>

record unit_programs =
  up_launchctl :: string
  up_systemctl :: string
  up_loginctl :: string
  up_schtasks :: string
  up_runtime_dir :: "string option"
  up_uid :: "u32 option"

definition unit_programs_from_config :: "service_config \<Rightarrow> string option \<Rightarrow> u32 option \<Rightarrow> unit_programs" where
  "unit_programs_from_config service runtime_dir uid =
     \<lparr>up_launchctl = sv_launchctl_path service, up_systemctl = sv_systemctl_path service,
      up_loginctl = sv_loginctl_path service, up_schtasks = sv_schtasks_path service,
      up_runtime_dir = runtime_dir, up_uid = uid\<rparr>"

definition unit_command :: "string \<Rightarrow> string list \<Rightarrow> helper_command" where
  "unit_command program arguments = \<lparr>hc_program = program, hc_env = [], hc_args = arguments\<rparr>"

definition runtime_environment :: "unit_programs \<Rightarrow> (string \<times> string) list" where
  "runtime_environment programs =
     (case up_runtime_dir programs of None \<Rightarrow> [] | Some dir \<Rightarrow> [(''XDG_RUNTIME_DIR'', dir)])"

definition user_scoped :: "unit_programs \<Rightarrow> string list \<Rightarrow> helper_command" where
  "user_scoped programs arguments =
     (unit_command (up_systemctl programs) (''--user'' # arguments))\<lparr>hc_env := runtime_environment programs\<rparr>"

definition launchctl_load :: "unit_programs \<Rightarrow> string \<Rightarrow> helper_command" where
  "launchctl_load programs path = unit_command (up_launchctl programs) [''load'', ''-w'', path]"

definition launchctl_unload :: "unit_programs \<Rightarrow> string \<Rightarrow> helper_command" where
  "launchctl_unload programs path = unit_command (up_launchctl programs) [''unload'', ''-w'', path]"

definition launchctl_list :: "unit_programs \<Rightarrow> string \<Rightarrow> helper_command" where
  "launchctl_list programs label = unit_command (up_launchctl programs) [''list'', label]"

definition launchctl_kickstart :: "unit_programs \<Rightarrow> string \<Rightarrow> helper_command option" where
  "launchctl_kickstart programs label =
     map_option (\<lambda>uid. unit_command (up_launchctl programs) [''kickstart'', ''gui/'' @ show_word uid @ ''/'' @ label])
       (up_uid programs)"

definition systemctl_daemon_reload :: "unit_programs \<Rightarrow> helper_command" where
  "systemctl_daemon_reload programs = user_scoped programs [''daemon-reload'']"

definition systemctl_enable_now :: "unit_programs \<Rightarrow> string \<Rightarrow> helper_command" where
  "systemctl_enable_now programs name = user_scoped programs [''enable'', ''--now'', name]"

definition systemctl_disable_now :: "unit_programs \<Rightarrow> string \<Rightarrow> helper_command" where
  "systemctl_disable_now programs name = user_scoped programs [''disable'', ''--now'', name]"

definition systemctl_is_active :: "unit_programs \<Rightarrow> string \<Rightarrow> helper_command" where
  "systemctl_is_active programs name = user_scoped programs [''is-active'', name]"

definition systemctl_show_main_pid :: "unit_programs \<Rightarrow> string \<Rightarrow> helper_command" where
  "systemctl_show_main_pid programs name = user_scoped programs [''show'', ''-p'', ''MainPID'', ''--value'', name]"

definition loginctl_enable_linger :: "unit_programs \<Rightarrow> helper_command" where
  "loginctl_enable_linger programs = unit_command (up_loginctl programs) [''enable-linger'']"

definition loginctl_show_linger :: "unit_programs \<Rightarrow> helper_command option" where
  "loginctl_show_linger programs =
     map_option (\<lambda>uid. unit_command (up_loginctl programs) [''show-user'', show_word uid, ''-p'', ''Linger'', ''--value''])
       (up_uid programs)"

definition schtasks_create :: "unit_programs \<Rightarrow> string \<Rightarrow> string \<Rightarrow> helper_command" where
  "schtasks_create programs task xml_path =
     unit_command (up_schtasks programs) [''/Create'', ''/TN'', task, ''/XML'', xml_path, ''/F'']"

definition schtasks_run :: "unit_programs \<Rightarrow> string \<Rightarrow> helper_command" where
  "schtasks_run programs task = unit_command (up_schtasks programs) [''/Run'', ''/TN'', task]"

definition schtasks_end :: "unit_programs \<Rightarrow> string \<Rightarrow> helper_command" where
  "schtasks_end programs task = unit_command (up_schtasks programs) [''/End'', ''/TN'', task]"

definition schtasks_delete :: "unit_programs \<Rightarrow> string \<Rightarrow> helper_command" where
  "schtasks_delete programs task = unit_command (up_schtasks programs) [''/Delete'', ''/TN'', task, ''/F'']"

definition schtasks_query :: "unit_programs \<Rightarrow> string \<Rightarrow> helper_command" where
  "schtasks_query programs task =
     unit_command (up_schtasks programs) [''/Query'', ''/TN'', task, ''/V'', ''/FO'', ''LIST'']"

subsection \<open>Plans\<close>

datatype unit_step =
    WriteStep string string string                       \<comment> \<open>\<open>dir\<close>, \<open>path\<close>, \<open>contents\<close>\<close>
  | RemoveStep string
  | RunStep helper_command
  | TryRunStep helper_command

definition render_unit_contents :: "unit_spec \<Rightarrow> string" where
  "render_unit_contents spec =
     (case us_kind spec of
        Launchd \<Rightarrow> render_plist spec
      | Systemd \<Rightarrow> render_unit spec
      | WinSchtasks \<Rightarrow> render_task_xml spec)"

definition systemd_install_steps ::
  "unit_spec \<Rightarrow> unit_programs \<Rightarrow> unit_step \<Rightarrow> unit_step \<Rightarrow> linger_state \<Rightarrow> unit_step list" where
  "systemd_install_steps spec programs settle create linger =
     (let activate =
        [settle, create, RunStep (systemctl_daemon_reload programs),
         RunStep (systemctl_enable_now programs (unit_name spec))] in
      case linger of
        LingerEnabled \<Rightarrow> activate
      | LingerUnknown \<Rightarrow> activate @ [TryRunStep (loginctl_enable_linger programs)])"

definition install_plan :: "unit_spec \<Rightarrow> unit_programs \<Rightarrow> string \<Rightarrow> linger_state \<Rightarrow> unit_step list" where
  "install_plan spec programs config_contents linger =
     (let settle = WriteStep (us_working_directory spec) (us_config_path spec) config_contents;
          create = WriteStep (us_unit_dir spec) (unit_path spec) (render_unit_contents spec) in
      case us_kind spec of
        Launchd \<Rightarrow> [settle, create, RunStep (launchctl_load programs (unit_path spec))]
      | Systemd \<Rightarrow> systemd_install_steps spec programs settle create linger
      | WinSchtasks \<Rightarrow>
          [settle, create, WriteStep (us_unit_dir spec) (wrapper_path spec) (render_wrapper spec),
           RunStep (schtasks_create programs (us_label spec) (unit_path spec)),
           RunStep (schtasks_run programs (us_label spec))])"

definition uninstall_plan :: "unit_spec \<Rightarrow> unit_programs \<Rightarrow> unit_step list" where
  "uninstall_plan spec programs =
     (let remove = RemoveStep (unit_path spec) in
      case us_kind spec of
        Launchd \<Rightarrow> [TryRunStep (launchctl_unload programs (unit_path spec)), remove]
      | Systemd \<Rightarrow>
          [TryRunStep (systemctl_disable_now programs (unit_name spec)), remove,
           TryRunStep (systemctl_daemon_reload programs)]
      | WinSchtasks \<Rightarrow>
          [TryRunStep (schtasks_end programs (us_label spec)),
           TryRunStep (schtasks_delete programs (us_label spec)), remove, RemoveStep (wrapper_path spec)])"

definition status_command :: "unit_spec \<Rightarrow> unit_programs \<Rightarrow> helper_command" where
  "status_command spec programs =
     (case us_kind spec of
        Launchd \<Rightarrow> launchctl_list programs (us_label spec)
      | Systemd \<Rightarrow> systemctl_is_active programs (unit_name spec)
      | WinSchtasks \<Rightarrow> schtasks_query programs (us_label spec))"

definition supervised_pid_command :: "unit_spec \<Rightarrow> unit_programs \<Rightarrow> helper_command option" where
  "supervised_pid_command spec programs =
     (case us_kind spec of
        Launchd \<Rightarrow> Some (launchctl_list programs (us_label spec))
      | Systemd \<Rightarrow> Some (systemctl_show_main_pid programs (unit_name spec))
      | WinSchtasks \<Rightarrow> None)"

definition write_targets :: "unit_spec \<Rightarrow> string list" where
  "write_targets spec =
     [us_config_path spec, unit_path spec] @ (if us_kind spec = WinSchtasks then [wrapper_path spec] else [])"

subsection \<open>Execution\<close>

datatype unit_command_error =
    UnitSpawn string string
  | UnitFailed string string
  | UnitIo string string
  | UnitStalled string u64

primrec unit_command_error_text :: "unit_command_error \<Rightarrow> string" where
  "unit_command_error_text (UnitSpawn program reason) = ''cannot run '' @ quoted program @ '': '' @ reason"
| "unit_command_error_text (UnitFailed program reason) = ''cannot complete '' @ quoted program @ '': '' @ reason"
| "unit_command_error_text (UnitIo path reason) = ''cannot write '' @ quoted path @ '': '' @ reason"
| "unit_command_error_text (UnitStalled program timeout_ms) =
     ''cannot get an answer from '' @ quoted program @ '' within '' @ show_word timeout_ms @ '' ms''"

record host_units = host_files +
  hu_run :: "disk \<Rightarrow> helper_command \<Rightarrow> u64 \<Rightarrow> command_outcome"

record captured =
  ca_success :: bool
  ca_stdout :: string
  ca_stderr :: string
  ca_code :: int

definition captured_from_output :: "command_output \<Rightarrow> captured" where
  "captured_from_output out =
     \<lparr>ca_success = status_success (co_status out), ca_stdout = from_utf8_lossy (co_stdout out),
      ca_stderr = from_utf8_lossy (co_stderr out), ca_code = exit_code_of (co_status out)\<rparr>"

definition unit_io_error :: "string \<Rightarrow> io_error \<Rightarrow> unit_command_error" where
  "unit_io_error path error = UnitIo path (io_error_text error)"

text \<open>A command changes nothing on the disk that is modelled, but it is a call the host sees.\<close>

definition capture :: "host_units \<Rightarrow> helper_command \<Rightarrow> u64 \<Rightarrow> disk \<Rightarrow> (unit_command_error + captured) \<times> disk" where
  "capture H command timeout_ms d =
     (case hu_run H d command timeout_ms of
        CommandStalled \<Rightarrow> Inl (UnitStalled (hc_program command) timeout_ms)
      | SpawnFailed reason \<Rightarrow> Inl (UnitSpawn (hc_program command) reason)
      | CommandFinished out \<Rightarrow> Inr (captured_from_output out),
      tick d)"

definition run_command :: "host_units \<Rightarrow> helper_command \<Rightarrow> u64 \<Rightarrow> disk \<Rightarrow> (unit_command_error + unit) \<times> disk" where
  "run_command H command timeout_ms d =
     (case capture H command timeout_ms d of
        (Inl error, d) \<Rightarrow> (Inl error, d)
      | (Inr answer, d) \<Rightarrow>
          (if ca_success answer then Inr ()
           else Inl (UnitFailed (hc_program command) (describe_refusal (ca_stderr answer) (ca_code answer))), d))"

definition tolerate :: "host_units \<Rightarrow> helper_command \<Rightarrow> u64 \<Rightarrow> disk \<Rightarrow> string option \<times> disk" where
  "tolerate H command timeout_ms d =
     (case run_command H command timeout_ms d of
        (Inl error, d) \<Rightarrow> (Some (unit_command_error_text error), d)
      | (Inr _, d) \<Rightarrow> (None, d))"

definition write_file ::
  "host_files \<Rightarrow> string \<Rightarrow> string \<Rightarrow> string \<Rightarrow> disk \<Rightarrow> (unit_command_error + unit) \<times> disk" where
  "write_file E dir path contents d =
     (case create_dir_all E dir d of
        (Inl error, d) \<Rightarrow> (Inl (unit_io_error dir error), d)
      | (Inr _, d) \<Rightarrow>
     (case write_private E path (encode_for_disk contents) d of
        (Inl error, d) \<Rightarrow> (Inl (unit_io_error path error), d)
      | (Inr _, d) \<Rightarrow> (Inr (), d)))"

definition remove_path :: "host_files \<Rightarrow> string \<Rightarrow> disk \<Rightarrow> (unit_command_error + unit) \<times> disk" where
  "remove_path E path d =
     (case remove_file E path d of
        (Inl error, d) \<Rightarrow> (Inl (unit_io_error path error), d)
      | (Inr _, d) \<Rightarrow> (Inr (), d))"

primrec run_step ::
  "host_units \<Rightarrow> u64 \<Rightarrow> unit_step \<Rightarrow> disk \<Rightarrow> (unit_command_error + string option) \<times> disk" where
  "run_step H timeout_ms (WriteStep dir path contents) d =
     apfst (map_sum id (\<lambda>_. None)) (write_file (host_files.truncate H) dir path contents d)"
| "run_step H timeout_ms (RemoveStep path) d =
     apfst (map_sum id (\<lambda>_. None)) (remove_path (host_files.truncate H) path d)"
| "run_step H timeout_ms (RunStep command) d =
     apfst (map_sum id (\<lambda>_. None)) (run_command H command timeout_ms d)"
| "run_step H timeout_ms (TryRunStep command) d = apfst Inr (tolerate H command timeout_ms d)"

definition about_to_create ::
  "host_files \<Rightarrow> unit_step \<Rightarrow> disk \<Rightarrow> (unit_command_error + string option) \<times> disk" where
  "about_to_create E step d =
     (case step of
        WriteStep dir path contents \<Rightarrow>
          (case stat_file E path d of
             (Inl error, d) \<Rightarrow> (if error = Disk.NotFound then Inr (Some path) else Inl (unit_io_error path error), d)
           | (Inr _, d) \<Rightarrow> (Inr None, d))
      | _ \<Rightarrow> (Inr None, d))"

definition roll_back :: "host_files \<Rightarrow> string list \<Rightarrow> disk \<Rightarrow> disk" where
  "roll_back E created d = foldl (\<lambda>d path. snd (remove_file E path d)) d (rev created)"

fun execute_steps ::
  "host_units \<Rightarrow> u64 \<Rightarrow> unit_step list \<Rightarrow> string list \<Rightarrow> string list \<Rightarrow> disk \<Rightarrow>
     (unit_command_error + string list) \<times> disk" where
  "execute_steps H timeout_ms [] created skipped d = (Inr skipped, d)"
| "execute_steps H timeout_ms (step # steps) created skipped d =
     (case about_to_create (host_files.truncate H) step d of
        (Inl error, d) \<Rightarrow> (Inl error, roll_back (host_files.truncate H) created d)
      | (Inr pending, d) \<Rightarrow>
     (let created = created @ (case pending of None \<Rightarrow> [] | Some path \<Rightarrow> [path]) in
      case run_step H timeout_ms step d of
        (Inl error, d) \<Rightarrow> (Inl error, roll_back (host_files.truncate H) created d)
      | (Inr None, d) \<Rightarrow> execute_steps H timeout_ms steps created skipped d
      | (Inr (Some note), d) \<Rightarrow> execute_steps H timeout_ms steps created (skipped @ [note]) d))"

definition execute_plan ::
  "host_units \<Rightarrow> unit_step list \<Rightarrow> u64 \<Rightarrow> disk \<Rightarrow> (unit_command_error + string list) \<times> disk" where
  "execute_plan H steps timeout_ms d = execute_steps H timeout_ms steps [] [] d"

definition query_linger :: "host_units \<Rightarrow> unit_programs \<Rightarrow> u64 \<Rightarrow> disk \<Rightarrow> linger_state \<times> disk" where
  "query_linger H programs timeout_ms d =
     (case loginctl_show_linger programs of
        None \<Rightarrow> (LingerUnknown, d)
      | Some query \<Rightarrow>
          (case capture H query timeout_ms d of
             (Inl error, d) \<Rightarrow> (LingerUnknown, d)
           | (Inr answer, d) \<Rightarrow> (parse_linger_state (ca_success answer) (ca_stdout answer), d)))"

definition linger_state_of :: "host_units \<Rightarrow> unit_kind \<Rightarrow> unit_programs \<Rightarrow> u64 \<Rightarrow> disk \<Rightarrow> linger_state \<times> disk" where
  "linger_state_of H kind programs timeout_ms d =
     (case kind of Systemd \<Rightarrow> query_linger H programs timeout_ms d | _ \<Rightarrow> (LingerUnknown, d))"

definition is_file :: "host_files \<Rightarrow> string \<Rightarrow> disk \<Rightarrow> bool \<times> disk" where
  "is_file E path d =
     (case stat_file E path d of (Inl error, d) \<Rightarrow> (False, d) | (Inr _, d) \<Rightarrow> (True, d))"

definition query_status ::
  "host_units \<Rightarrow> unit_spec \<Rightarrow> unit_programs \<Rightarrow> u64 \<Rightarrow> disk \<Rightarrow> (unit_command_error + unit_status) \<times> disk" where
  "query_status H spec programs timeout_ms d =
     (case is_file (host_files.truncate H) (unit_path spec) d of
        (False, d) \<Rightarrow> (Inr NotInstalled, d)
      | (True, d) \<Rightarrow>
     (case capture H (status_command spec programs) timeout_ms d of
        (Inl error, d) \<Rightarrow> (Inl error, d)
      | (Inr answer, d) \<Rightarrow>
          (Inr (if parse_run_state (us_kind spec) (ca_success answer) (ca_stdout answer)
                then UnitRunning else InstalledNotRunning), d)))"

definition query_supervised_pid ::
  "host_units \<Rightarrow> unit_spec \<Rightarrow> unit_programs \<Rightarrow> u64 \<Rightarrow> u32 option \<Rightarrow> disk \<Rightarrow>
     (unit_command_error + u32 option) \<times> disk" where
  "query_supervised_pid H spec programs timeout_ms filed d =
     (case supervised_pid_command spec programs of
        None \<Rightarrow> (Inr filed, d)
      | Some command \<Rightarrow>
     (case capture H command timeout_ms d of
        (Inl error, d) \<Rightarrow> (Inl error, d)
      | (Inr answer, d) \<Rightarrow>
          (Inr (if \<not> ca_success answer then None
                else if us_kind spec = Launchd then parse_launchd_pid (ca_stdout answer)
                else parse_main_pid (ca_stdout answer)), d)))"

definition hand_back_to_manager ::
  "host_units \<Rightarrow> unit_spec \<Rightarrow> unit_programs \<Rightarrow> u64 \<Rightarrow> disk \<Rightarrow> (unit_command_error + bool) \<times> disk" where
  "hand_back_to_manager H spec programs timeout_ms d =
     (case launchctl_kickstart programs (us_label spec) of
        None \<Rightarrow> (Inr False, d)
      | Some kickstart \<Rightarrow>
     (case run_command H kickstart timeout_ms d of
        (Inl error, d) \<Rightarrow> (Inl error, d)
      | (Inr _, d) \<Rightarrow> (Inr True, d)))"

subsection \<open>Actions\<close>

definition NOTHING_INSTALLED :: string where
  "NOTHING_INSTALLED = ''no pm3 service is installed''"

definition render_skipped :: "string list \<Rightarrow> string" where
  "render_skipped skipped = (if skipped = [] then [] else [CHR 0x0A] @ ''skipped: '' @ join ''; '' skipped)"

primrec render_step :: "unit_step \<Rightarrow> string" where
  "render_step (WriteStep dir path contents) = ''write '' @ path @ [CHR 0x0A] @ contents"
| "render_step (RemoveStep path) = ''remove '' @ path"
| "render_step (RunStep command) = ''run '' @ hc_program command @ '' '' @ join '' '' (hc_args command)"
| "render_step (TryRunStep command) = ''try '' @ hc_program command @ '' '' @ join '' '' (hc_args command)"

definition render_plan :: "unit_step list \<Rightarrow> string" where
  "render_plan steps = join [CHR 0x0A] (map render_step steps)"

definition install_unit ::
  "host_units \<Rightarrow> unit_spec \<Rightarrow> unit_programs \<Rightarrow> string \<Rightarrow> bool \<Rightarrow> u64 \<Rightarrow> disk \<Rightarrow>
     (unit_command_error + string) \<times> disk" where
  "install_unit H spec programs config_contents dry_run timeout_ms d =
     (case linger_state_of H (us_kind spec) programs timeout_ms d of
        (linger, d) \<Rightarrow>
     (let steps = install_plan spec programs config_contents linger in
      if dry_run then (Inr (render_plan steps), d)
      else
     (case execute_plan H steps timeout_ms d of
        (Inl error, d) \<Rightarrow> (Inl error, d)
      | (Inr skipped, d) \<Rightarrow>
          (Inr (''installed '' @ us_label spec @ '' as a '' @ unit_kind_as_str (us_kind spec) @ '' service'' @
             [CHR 0x0A] @ us_config_path spec @ [CHR 0x0A] @ unit_path spec @ render_skipped skipped), d))))"

definition uninstall_unit ::
  "host_units \<Rightarrow> unit_spec \<Rightarrow> unit_programs \<Rightarrow> bool \<Rightarrow> u64 \<Rightarrow> disk \<Rightarrow> (unit_command_error + string) \<times> disk" where
  "uninstall_unit H spec programs dry_run timeout_ms d =
     (let steps = uninstall_plan spec programs in
      if dry_run then (Inr (render_plan steps), d)
      else
     (case is_file (host_files.truncate H) (unit_path spec) d of
        (False, d) \<Rightarrow> (Inr NOTHING_INSTALLED, d)
      | (True, d) \<Rightarrow>
     (case execute_plan H steps timeout_ms d of
        (Inl error, d) \<Rightarrow> (Inl error, d)
      | (Inr skipped, d) \<Rightarrow> (Inr (''uninstalled '' @ us_label spec @ render_skipped skipped), d))))"

definition status_report ::
  "host_units \<Rightarrow> unit_spec \<Rightarrow> unit_programs \<Rightarrow> u64 \<Rightarrow> disk \<Rightarrow> (unit_command_error + string) \<times> disk" where
  "status_report H spec programs timeout_ms d =
     (case query_status H spec programs timeout_ms d of
        (Inl error, d) \<Rightarrow> (Inl error, d)
      | (Inr status, d) \<Rightarrow>
          (Inr (us_label spec @ '' ('' @ unit_kind_as_str (us_kind spec) @ '' service): '' @
             unit_status_as_str status @ [CHR 0x0A] @ unit_path spec), d))"


subsection \<open>A failed plan leaves no file behind\<close>

lemma capture_files [simp]: "dk_files (snd (capture H command timeout_ms d)) = dk_files d"
  by (simp add: capture_def)

lemma run_command_files [simp]: "dk_files (snd (run_command H command timeout_ms d)) = dk_files d"
  using capture_files[of H command timeout_ms d]
  by (auto simp: run_command_def simp del: capture_files split: prod.splits sum.splits)

lemma tolerate_files [simp]: "dk_files (snd (tolerate H command timeout_ms d)) = dk_files d"
  using run_command_files[of H command timeout_ms d]
  by (auto simp: tolerate_def simp del: run_command_files split: prod.splits sum.splits)

lemma roll_back_calm:
  assumes "no_faults E"
  shows "dk_files (roll_back E created d) p = (if p \<in> set created then None else dk_files d p)"
proof -
  have "dk_files (foldl (\<lambda>d path. snd (remove_file E path d)) d ps) p = (if p \<in> set ps then None else dk_files d p)"
    for ps
    by (induction ps arbitrary: d) (auto simp: remove_file_calm assms)
  from this[of "rev created"] show ?thesis by (simp add: roll_back_def)
qed

lemma write_file_calm:
  "no_faults E \<Longrightarrow> fst (write_file E dir path contents d) = Inr () \<and>
    dk_files (snd (write_file E dir path contents d)) = (dk_files d)(path := Some (encode_for_disk contents))"
  by (simp add: write_file_def create_dir_all_def write_private_def set_contents_def tick_def)

text \<open>The file a step writes and the one it removes.\<close>

primrec step_writes :: "unit_step \<Rightarrow> string set" where
  "step_writes (WriteStep dir path contents) = {path}"
| "step_writes (RemoveStep path) = {}"
| "step_writes (RunStep command) = {}"
| "step_writes (TryRunStep command) = {}"

primrec step_removes :: "unit_step \<Rightarrow> string set" where
  "step_removes (WriteStep dir path contents) = {}"
| "step_removes (RemoveStep path) = {path}"
| "step_removes (RunStep command) = {}"
| "step_removes (TryRunStep command) = {}"

lemma about_to_create_calm:
  assumes "no_faults E"
  shows "\<exists>d'. about_to_create E step d =
      (Inr (case step of WriteStep dir path contents \<Rightarrow> if dk_files d path = None then Some path else None | _ \<Rightarrow> None), d') \<and>
    dk_files d' = dk_files d"
  using assms stat_file_calm[OF assms]
  by (cases step) (auto simp: about_to_create_def stat_file_def)

lemma run_step_frame:
  assumes "no_faults (host_files.truncate H)" and "p \<notin> step_writes step" and "step_removes step = {}"
  shows "dk_files (snd (run_step H timeout_ms step d)) p = dk_files d p"
  using assms write_file_calm[OF assms(1)] by (cases step) auto

lemma execute_steps_calm:
  assumes "no_faults (host_files.truncate H)" and "\<forall>step\<in>set steps. step_removes step = {}"
    and "execute_steps H timeout_ms steps created skipped d = (Inl error, d')"
  shows "(p \<in> set created \<or> dk_files d p = None \<longrightarrow> dk_files d' p = None) \<and>
    (p \<notin> set created \<and> (\<forall>step\<in>set steps. p \<notin> step_writes step) \<longrightarrow> dk_files d' p = dk_files d p)"
  using assms(2,3)
proof (induction steps arbitrary: created skipped d)
  case (Cons step steps)
  obtain d1 where d1: "about_to_create (host_files.truncate H) step d =
      (Inr (case step of WriteStep dir path contents \<Rightarrow> if dk_files d path = None then Some path else None | _ \<Rightarrow> None), d1)"
      "dk_files d1 = dk_files d"
    using about_to_create_calm[OF assms(1)] by blast
  define more where "more = created @
    (case (case step of WriteStep dir path contents \<Rightarrow> if dk_files d path = None then Some path else None | _ \<Rightarrow> None)
     of None \<Rightarrow> [] | Some path \<Rightarrow> [path])"
  have more: "set more = set created \<union> {q \<in> step_writes step. dk_files d q = None}"
    by (cases step) (auto simp: more_def)
  obtain outcome d2 where ran: "run_step H timeout_ms step d1 = (outcome, d2)" by (cases "run_step H timeout_ms step d1")
  have frame: "q \<notin> step_writes step \<Longrightarrow> dk_files d2 q = dk_files d q" for q
    using run_step_frame[OF assms(1), of q step timeout_ms d1] Cons.prems(1) by (simp add: ran d1(2))
  have absent: "q \<notin> set more \<Longrightarrow> dk_files d q = None \<Longrightarrow> dk_files d2 q = None" for q
    using frame[of q] more by auto
  have steps: "execute_steps H timeout_ms (step # steps) created skipped d =
      (case (outcome, d2) of
        (Inl error, d) \<Rightarrow> (Inl error, roll_back (host_files.truncate H) more d)
      | (Inr None, d) \<Rightarrow> execute_steps H timeout_ms steps more skipped d
      | (Inr (Some note), d) \<Rightarrow> execute_steps H timeout_ms steps more (skipped @ [note]) d)"
    using d1(1) ran by (auto simp: Let_def more_def split: sum.split option.split)
  show ?case
  proof (cases outcome)
    case (Inl failed)
    then have "d' = roll_back (host_files.truncate H) more d2" using Cons.prems(2) steps by simp
    then show ?thesis using absent frame more by (auto simp: roll_back_calm[OF assms(1)])
  next
    case (Inr answer)
    then obtain remarks where "execute_steps H timeout_ms steps more remarks d2 = (Inl error, d')"
      using Cons.prems(2) steps by (cases answer) auto
    with Cons.IH[of more remarks d2] Cons.prems(1)
    have gone: "p \<in> set more \<or> dk_files d2 p = None \<Longrightarrow> dk_files d' p = None"
      and kept: "p \<notin> set more \<Longrightarrow> \<forall>step\<in>set steps. p \<notin> step_writes step \<Longrightarrow> dk_files d' p = dk_files d2 p"
      by simp_all
    have listed: "p \<in> set created \<Longrightarrow> p \<in> set more" by (simp add: more)
    have later: "dk_files d' p = None" if absent_or_created: "p \<in> set created \<or> dk_files d p = None"
    proof (cases "p \<in> set more")
      case False
      with absent_or_created listed have "dk_files d p = None" by auto
      from absent[OF False this] gone show ?thesis by simp
    qed (simp add: gone)
    have untouched: "dk_files d' p = dk_files d p"
      if "p \<notin> set created" and "\<forall>step\<in>set (step # steps). p \<notin> step_writes step"
      using that kept frame[of p] by (simp add: more)
    from later untouched show ?thesis by (intro conjI impI) simp_all
  qed
qed simp

lemma install_plan_removes_nothing: "step \<in> set (install_plan spec programs contents linger) \<Longrightarrow> step_removes step = {}"
  by (cases linger; cases "us_kind spec") (auto simp: install_plan_def systemd_install_steps_def Let_def)

lemma install_plan_writes:
  "(\<Union>step\<in>set (install_plan spec programs contents linger). step_writes step) = set (write_targets spec)"
  by (cases linger; cases "us_kind spec") (auto simp: install_plan_def systemd_install_steps_def write_targets_def Let_def)

lemma linger_state_files: "dk_files (snd (linger_state_of H kind programs timeout_ms d)) = dk_files d"
proof -
  have "dk_files (snd (query_linger H programs timeout_ms d)) = dk_files d"
    using capture_files[of H _ timeout_ms d]
    by (auto simp: query_linger_def simp del: capture_files split: option.splits prod.splits sum.splits) (metis snd_conv)+
  then show ?thesis by (cases kind) (simp_all add: linger_state_of_def)
qed

lemma failed_install_leaves_no_file:
  assumes "no_faults (host_files.truncate H)"
    and "install_unit H spec programs contents dry_run timeout_ms d = (Inl error, d')"
  shows "dk_files d p = None \<Longrightarrow> dk_files d' p = None"
    and "p \<notin> set (write_targets spec) \<Longrightarrow> dk_files d' p = dk_files d p"
proof -
  obtain linger d1 where linger: "linger_state_of H (us_kind spec) programs timeout_ms d = (linger, d1)"
    by (cases "linger_state_of H (us_kind spec) programs timeout_ms d")
  then have d1: "dk_files d1 = dk_files d" using linger_state_files by (metis snd_conv)
  have "execute_steps H timeout_ms (install_plan spec programs contents linger) [] [] d1 = (Inl error, d')"
    using assms(2) by (auto simp: install_unit_def linger Let_def execute_plan_def split: if_splits prod.splits sum.splits)
  note frame = execute_steps_calm[OF assms(1) _ this, of p]
  show "dk_files d p = None \<Longrightarrow> dk_files d' p = None"
    and "p \<notin> set (write_targets spec) \<Longrightarrow> dk_files d' p = dk_files d p"
    using frame install_plan_removes_nothing install_plan_writes[of spec programs contents linger]
    by (auto simp: d1)
qed

text \<open>The unit is written before the manager is told of it, and taken from it before it is removed.\<close>

lemma install_writes_first:
  "\<exists>writes commands. install_plan spec programs contents linger = writes @ commands \<and>
    map step_writes writes = map (\<lambda>path. {path}) (write_targets spec) \<and>
    (\<forall>step\<in>set commands. step_writes step = {}) \<and> commands \<noteq> []"
  by (cases "us_kind spec"; cases linger;
      rule exI[of _ "take (length (write_targets spec)) (install_plan spec programs contents linger)"];
      rule exI[of _ "drop (length (write_targets spec)) (install_plan spec programs contents linger)"];
      simp add: install_plan_def systemd_install_steps_def write_targets_def Let_def)

end
