(* ===== verification/Install_Files.thy ===== *)
theory Install_Files
  imports Log_Files State_File
begin

text \<open>
  Replacing the installed binary (\<open>adapters/src/install\<close>): where it goes, the backup of what is there
  and the swap by way of a staged copy. On unix no binary is retired first.
\<close>

subsection \<open>Paths and directories\<close>

text \<open>
  \<open>Path::parent\<close> and \<open>Path::file_name\<close>: separators and components \<open>.\<close> at the end of a path do not
  count.
\<close>

fun strip_tail :: "string \<Rightarrow> string" where
  "strip_tail (a # b # reversed) =
     (if a = CHR ''/'' then strip_tail (b # reversed)
      else if a = CHR ''.'' \<and> b = CHR ''/'' then strip_tail (b # reversed)
      else a # b # reversed)"
| "strip_tail reversed = reversed"

definition trimmed_path :: "string \<Rightarrow> string" where
  "trimmed_path path = rev (strip_tail (rev path))"

definition path_parent :: "string \<Rightarrow> string option" where
  "path_parent path =
     (let whole = trimmed_path path in
      if whole = [] \<or> whole = ''/'' then None
      else Some (trimmed_path (fst (file_name_at whole))))"

definition path_file_name :: "string \<Rightarrow> string option" where
  "path_file_name path =
     (let leaf = snd (file_name_at (trimmed_path path)) in
      if leaf = [] \<or> leaf = ''.'' \<or> leaf = ''..'' then None else Some leaf)"

definition set_dir_mode :: "host_files \<Rightarrow> string \<Rightarrow> nat \<Rightarrow> disk \<Rightarrow> (io_error + unit) \<times> disk" where
  "set_dir_mode E path mode d =
     (case fault_now E d of
        Some f \<Rightarrow> (Inl (OtherError (fault_reason f)), tick d)
      | None \<Rightarrow>
          (if path \<in> set (dk_dirs d) then (Inr (), tick d\<lparr>dk_modes := (dk_modes d)(path := mode)\<rparr>)
           else (Inl Disk.NotFound, tick d)))"

subsection \<open>Errors\<close>

datatype install_error =
    DestinationHome
  | BackupDirectory string string
  | BackupFailed string string
  | ReplaceFailed string string

primrec install_error_text :: "install_error \<Rightarrow> string" where
  "install_error_text DestinationHome = ''cannot resolve the install destination: no HOME in the environment''"
| "install_error_text (BackupDirectory path reason) =
     ''cannot prepare the backup directory '' @ quoted path @ '': '' @ reason"
| "install_error_text (BackupFailed path reason) = ''cannot back up '' @ quoted path @ '': '' @ reason"
| "install_error_text (ReplaceFailed path reason) = ''cannot replace '' @ quoted path @ '': '' @ reason"

definition backup_directory_error :: "string \<Rightarrow> io_error \<Rightarrow> install_error" where
  "backup_directory_error path error = BackupDirectory path (io_error_text error)"

definition backup_io :: "string \<Rightarrow> io_error \<Rightarrow> install_error" where
  "backup_io path error = BackupFailed path (io_error_text error)"

definition replace_io :: "string \<Rightarrow> io_error \<Rightarrow> install_error" where
  "replace_io path error = ReplaceFailed path (io_error_text error)"

subsection \<open>Names\<close>

definition DEFAULT_DESTINATION :: string where "DEFAULT_DESTINATION = ''.local/bin/pm3''"
definition UNKNOWN_VERSION :: string where "UNKNOWN_VERSION = ''unknown''"
definition INCOMING_SUFFIX :: string where "INCOMING_SUFFIX = ''.incoming''"

definition destination_of :: "string option \<Rightarrow> string option \<Rightarrow> install_error + string" where
  "destination_of declared home_env =
     (case is_named declared of
        Some path \<Rightarrow> Inr path
      | None \<Rightarrow>
          (case home_env of
             None \<Rightarrow> Inl DestinationHome
           | Some home \<Rightarrow> Inr (path_join home DEFAULT_DESTINATION)))"

definition backup_root :: "string option \<Rightarrow> string \<Rightarrow> string" where
  "backup_root declared backups_dir =
     (case is_named declared of Some path \<Rightarrow> path | None \<Rightarrow> backups_dir)"

definition is_usable :: "string \<Rightarrow> bool" where
  "is_usable version \<longleftrightarrow> (if version = [] then False else list_all is_name_letter (chars version))"

definition backup_name :: "string option \<Rightarrow> string" where
  "backup_name version =
     (case version of
        Some version \<Rightarrow> if is_usable version then version else UNKNOWN_VERSION
      | None \<Rightarrow> UNKNOWN_VERSION)"

definition parse_version_output :: "string \<Rightarrow> string option" where
  "parse_version_output stdout =
     (case rev (split_whitespace stdout) of
        [] \<Rightarrow> None
      | word # _ \<Rightarrow> if is_usable word then Some word else None)"

definition binary_version :: "(helper_command \<Rightarrow> u64 \<Rightarrow> command_outcome) \<Rightarrow> string \<Rightarrow> u64 \<Rightarrow> string option" where
  "binary_version run path timeout_ms =
     (case run \<lparr>hc_program = path, hc_env = [], hc_args = [''--version'']\<rparr> timeout_ms of
        CommandFinished out \<Rightarrow>
          if \<not> status_success (co_status out) then None
          else parse_version_output (from_utf8_lossy (co_stdout out))
      | _ \<Rightarrow> None)"

subsection \<open>Backing up\<close>

definition prepare_dir :: "host_files \<Rightarrow> string \<Rightarrow> disk \<Rightarrow> (install_error + unit) \<times> disk" where
  "prepare_dir E path d =
     (case create_dir_all E path d of
        (Inl error, d) \<Rightarrow> (Inl (backup_directory_error path error), d)
      | (Inr _, d) \<Rightarrow>
     (case set_dir_mode E path OWNER_ONLY_DIR d of
        (Inl error, d) \<Rightarrow> (Inl (backup_directory_error path error), d)
      | (Inr _, d) \<Rightarrow> (Inr (), d)))"

definition copy_into :: "host_files \<Rightarrow> string \<Rightarrow> string \<Rightarrow> disk \<Rightarrow> (install_error + unit) \<times> disk" where
  "copy_into E path dir d =
     (case stat_file E path d of
        (Inl error, d) \<Rightarrow> (if error = Disk.NotFound then Inr () else Inl (backup_io path error), d)
      | (Inr _, d) \<Rightarrow>
     (case path_file_name path of
        None \<Rightarrow> (Inl (BackupFailed path ''has no file name''), d)
      | Some name \<Rightarrow>
     (case copy_file E path (path_join dir name) d of
        (Inl error, d) \<Rightarrow> (Inl (backup_io path error), d)
      | (Inr _, d) \<Rightarrow>
     (case set_mode E (path_join dir name) OWNER_ONLY_FILE d of
        (Inl error, d) \<Rightarrow> (Inl (backup_io (path_join dir name) error), d)
      | (Inr _, d) \<Rightarrow> (Inr (), d)))))"

fun copy_all_into :: "host_files \<Rightarrow> string list \<Rightarrow> string \<Rightarrow> disk \<Rightarrow> (install_error + unit) \<times> disk" where
  "copy_all_into E [] dir d = (Inr (), d)"
| "copy_all_into E (path # paths) dir d =
     (case copy_into E path dir d of
        (Inl error, d) \<Rightarrow> (Inl error, d)
      | (Inr _, d) \<Rightarrow> copy_all_into E paths dir d)"

definition back_up :: "host_files \<Rightarrow> string list \<Rightarrow> string \<Rightarrow> string \<Rightarrow> disk \<Rightarrow> (install_error + string) \<times> disk" where
  "back_up E paths root stamp d =
     (let dir = path_join root stamp in
      case prepare_dir E root d of
        (Inl error, d) \<Rightarrow> (Inl error, d)
      | (Inr _, d) \<Rightarrow>
     (case prepare_dir E dir d of
        (Inl error, d) \<Rightarrow> (Inl error, d)
      | (Inr _, d) \<Rightarrow>
     (case copy_all_into E paths dir d of
        (Inl error, d) \<Rightarrow> (Inl error, d)
      | (Inr _, d) \<Rightarrow> (Inr dir, d))))"

subsection \<open>Replacing the binary\<close>

definition occupied_by_directory :: "host_files \<Rightarrow> string \<Rightarrow> disk \<Rightarrow> bool \<times> disk" where
  "occupied_by_directory E path d =
     (case fault_now E d of None \<Rightarrow> path \<in> set (dk_dirs d) | Some f \<Rightarrow> False, tick d)"

definition binary_matches :: "host_files \<Rightarrow> string \<Rightarrow> string \<Rightarrow> disk \<Rightarrow> (install_error + bool) \<times> disk" where
  "binary_matches E source destination d =
     (case read_to_string E source d of
        (Inl error, d) \<Rightarrow> (Inl (replace_io source error), d)
      | (Inr incoming, d) \<Rightarrow>
     (case read_to_string E destination d of
        (Inr installed, d) \<Rightarrow> (Inr (incoming = installed), d)
      | (Inl error, d) \<Rightarrow>
          if error = Disk.NotFound then (Inr False, d)
          else
            (case occupied_by_directory E destination d of
               (True, d) \<Rightarrow> (Inr False, d)
             | (False, d) \<Rightarrow> (Inl (replace_io destination error), d))))"

definition staged_path :: "string \<Rightarrow> string" where
  "staged_path destination = with_suffix destination INCOMING_SUFFIX"

definition replace_binary :: "host_files \<Rightarrow> string \<Rightarrow> string \<Rightarrow> disk \<Rightarrow> (install_error + unit) \<times> disk" where
  "replace_binary E source destination d =
     (case (case path_parent destination of
              None \<Rightarrow> (Inr (), d)
            | Some parent \<Rightarrow> apfst (map_sum (replace_io parent) id) (create_dir_all E parent d)) of
        (Inl error, d) \<Rightarrow> (Inl error, d)
      | (Inr _, d) \<Rightarrow>
     (case copy_file E source (staged_path destination) d of
        (Inl error, d) \<Rightarrow> (Inl (replace_io source error), d)
      | (Inr _, d) \<Rightarrow>
     (case rename_file E (staged_path destination) destination d of
        (Inl error, d) \<Rightarrow> (Inl (replace_io destination error), d)
      | (Inr _, d) \<Rightarrow> (Inr (), d))))"

subsection \<open>The installed binary is never torn\<close>

lemma set_dir_mode_files [simp]: "dk_files (snd (set_dir_mode E path mode d)) = dk_files d"
  by (auto simp: set_dir_mode_def tick_def split: option.splits)

lemma copy_file_result:
  assumes "copy_file E source destination d = (r, d')"
  shows "(\<forall>q. q \<noteq> destination \<longrightarrow> dk_files d' q = dk_files d q) \<and>
    (r = Inr () \<longrightarrow> dk_files d source \<noteq> None \<and> dk_files d' destination = dk_files d source)"
  using assms
  by (auto simp: copy_file_def set_contents_def tick_def split: option.splits io_fault.splits)

lemma staged_differs: "staged_path destination \<noteq> destination"
  by (simp add: staged_path_def with_suffix_def INCOMING_SUFFIX_def)

text \<open>
  Whatever fails, the destination holds the old binary or the whole new one, and a replacement that
  reports success has put the new one there.
\<close>

lemma replace_binary_result:
  assumes "replace_binary E source destination d = (r, d')" and "source \<noteq> staged_path destination"
  shows "(\<exists>e. r = Inl e \<and> dk_files d' destination = dk_files d destination) \<or>
    (r = Inr () \<and> dk_files d source \<noteq> None \<and> dk_files d' destination = dk_files d source)"
    and "q \<noteq> destination \<Longrightarrow> q \<noteq> staged_path destination \<Longrightarrow> dk_files d' q = dk_files d q"
proof -
  define made where "made = (case path_parent destination of
              None \<Rightarrow> (Inr (), d)
            | Some parent \<Rightarrow> apfst (map_sum (replace_io parent) id) (create_dir_all E parent d))"
  obtain r0 d0 where first: "made = (r0, d0)" by (cases made)
  have "dk_files (snd made) = dk_files d" by (simp add: made_def split: option.split)
  then have d0: "dk_files d0 = dk_files d" by (simp add: first)
  obtain r1 d1 where copied: "copy_file E source (staged_path destination) d0 = (r1, d1)"
    by (cases "copy_file E source (staged_path destination) d0")
  obtain r2 d2 where moved: "rename_file E (staged_path destination) destination d1 = (r2, d2)"
    by (cases "rename_file E (staged_path destination) destination d1")
  note copy = copy_file_result[OF copied] and move = rename_file_result[OF moved]
  note unfolded = assms(1)[unfolded replace_binary_def made_def[symmetric] first]
  show "(\<exists>e. r = Inl e \<and> dk_files d' destination = dk_files d destination) \<or>
      (r = Inr () \<and> dk_files d source \<noteq> None \<and> dk_files d' destination = dk_files d source)"
    using unfolded copy move staged_differs[of destination] assms(2) d0
    by (cases r0; cases r1; cases r2) (auto simp: copied moved)
  show "dk_files d' q = dk_files d q" if "q \<noteq> destination" "q \<noteq> staged_path destination"
    using unfolded copy move that d0
    by (cases r0; cases r1; cases r2) (auto simp: copied moved)
qed

text \<open>A calm backup holds a copy of each file that exists, and changes nothing outside its directory.\<close>

lemma copy_into_calm:
  assumes "no_faults E" and "path_file_name path = Some name"
  shows "\<exists>d'. copy_into E path dir d = (Inr (), d') \<and> dk_dirs d' = dk_dirs d \<and>
    dk_files d' = (if dk_files d path = None then dk_files d
                   else (dk_files d)(path_join dir name := dk_files d path))"
  using assms
  by (auto simp: copy_into_def stat_file_def copy_file_def set_mode_def set_contents_def tick_def)

lemma binary_version_usable: "binary_version run path timeout_ms = Some v \<Longrightarrow> is_usable v"
  by (auto simp: binary_version_def parse_version_output_def split: command_outcome.splits if_splits list.splits)

lemma usable_is_one_component:
  assumes "is_usable v"
  shows "CHR ''/'' \<notin> set v \<and> v \<noteq> []"
proof -
  have letters: "\<forall>letter\<in>set (chars v). is_name_letter letter" and "v \<noteq> []"
    using assms by (auto simp: is_usable_def list_all_iff split: if_splits)
  moreover have "CHR ''/'' \<notin> set letter" if "letter \<in> set (chars v)" for letter
    using that letters name_letter_char[of letter] by auto
  then have "CHR ''/'' \<notin> set (concat (chars v))" unfolding set_concat by blast
  ultimately show ?thesis by simp
qed

text \<open>A backup goes to a component below the backup root; a version \<open>..\<close> is one, too.\<close>

lemma backup_name_component: "CHR ''/'' \<notin> set (backup_name version) \<and> backup_name version \<noteq> []"
  using usable_is_one_component by (auto simp: backup_name_def UNKNOWN_VERSION_def split: option.split)

lemma parent_directory_is_usable: "backup_name (Some ''..'') = ''..''"
  by code_simp

end
