(* ===== verification/Daemon_Socket.thy ===== *)
theory Daemon_Socket
  imports Disk Port_Types
begin

text \<open>
  The daemon's socket and how it stops serving (\<open>frameworks/src/daemon/socket.rs\<close>,
  \<open>frameworks/src/signal.rs\<close>, \<open>frameworks/src/server.rs\<close>), on unix. The path of the socket leads to
  nothing, to a socket with or without a listener, or to something else; what the system calls
  refuse is a parameter.
\<close>

subsection \<open>Binding\<close>

datatype socket_error =
    SocketCleanup string string
  | SocketBind string string
  | SocketPermissions string string

primrec socket_error_text :: "socket_error \<Rightarrow> string" where
  "socket_error_text (SocketCleanup path reason) =
     ''cannot remove the stale pm3 socket '' @ quoted path @ '': '' @ reason"
| "socket_error_text (SocketBind path reason) =
     ''cannot bind the pm3 socket '' @ quoted path @ '': '' @ reason"
| "socket_error_text (SocketPermissions path reason) =
     ''cannot restrict the pm3 socket '' @ quoted path @ '' to its owner: '' @ reason"

definition OWNER_ONLY_SOCKET :: nat where
  "OWNER_ONLY_SOCKET = SWEEP_PROOF_FILE"

text \<open>What the path leads to; \<open>SocketNode True\<close> is a socket that a process listens on.\<close>

datatype path_node = PlainNode | SocketNode bool

record socket_place =
  so_node :: "path_node option"
  so_mode :: nat

record socket_faults =
  sf_connect :: "string option"
  sf_remove :: "string option"
  sf_bind :: "string option"
  sf_permissions :: "string option"
  sf_owner :: "u32 option"

text \<open>A listener remembers the user that owns its socket.\<close>

datatype bind_outcome = Bound "u32 option" | SocketTaken

datatype io_kind = ConnectionRefused | NotFoundKind | OtherIo

definition vacated :: "io_kind \<Rightarrow> bool" where
  "vacated kind \<longleftrightarrow> (case kind of ConnectionRefused \<Rightarrow> True | NotFoundKind \<Rightarrow> True | OtherIo \<Rightarrow> False)"

definition is_socket :: "path_node option \<Rightarrow> bool" where
  "is_socket node \<longleftrightarrow> (case node of Some (SocketNode live) \<Rightarrow> True | _ \<Rightarrow> False)"

text \<open>Connecting reaches the listener, is refused, finds nothing or fails otherwise.\<close>

definition connect_uds :: "socket_faults \<Rightarrow> path_node option \<Rightarrow> (io_kind \<times> string) + unit" where
  "connect_uds F node =
     (case sf_connect F of
        Some reason \<Rightarrow> Inl (OtherIo, reason)
      | None \<Rightarrow>
          (case node of
             Some (SocketNode live) \<Rightarrow> if live then Inr () else Inl (ConnectionRefused, ''Connection refused (os error 111)'')
           | Some PlainNode \<Rightarrow> Inl (ConnectionRefused, ''Connection refused (os error 111)'')
           | None \<Rightarrow> Inl (NotFoundKind, ''No such file or directory (os error 2)'')))"

definition socket_is_held :: "socket_faults \<Rightarrow> string \<Rightarrow> path_node option \<Rightarrow> socket_error + bool" where
  "socket_is_held F path node =
     (if \<not> is_socket node then Inr False
      else case connect_uds F node of
        Inr _ \<Rightarrow> Inr True
      | Inl (kind, reason) \<Rightarrow> if vacated kind then Inr False else Inl (SocketBind path reason))"

definition socket_owner_of :: "socket_faults \<Rightarrow> u32 option" where
  "socket_owner_of F = sf_owner F"

definition restrict_socket :: "socket_faults \<Rightarrow> string \<Rightarrow> socket_place \<Rightarrow> (socket_error + unit) \<times> socket_place" where
  "restrict_socket F path s =
     (case sf_permissions F of
        Some reason \<Rightarrow> (Inl (SocketPermissions path reason), s)
      | None \<Rightarrow> (Inr (), s\<lparr>so_mode := OWNER_ONLY_SOCKET\<rparr>))"

text \<open>A listener that is dropped leaves its socket behind with nobody listening.\<close>

definition bind_listener :: "socket_faults \<Rightarrow> string \<Rightarrow> socket_place \<Rightarrow> (socket_error + bind_outcome) \<times> socket_place" where
  "bind_listener F path s =
     (case sf_bind F of
        Some reason \<Rightarrow> (Inl (SocketBind path reason), s)
      | None \<Rightarrow>
     (let owner = socket_owner_of F in
      case restrict_socket F path (s\<lparr>so_node := Some (SocketNode True)\<rparr>) of
        (Inl error, s) \<Rightarrow> (Inl error, s\<lparr>so_node := Some (SocketNode False)\<rparr>)
      | (Inr _, s) \<Rightarrow> (Inr (Bound owner), s)))"

definition bind_uds :: "socket_faults \<Rightarrow> string \<Rightarrow> socket_place \<Rightarrow> (socket_error + bind_outcome) \<times> socket_place" where
  "bind_uds F path s =
     (if so_node s = None then bind_listener F path s
      else case socket_is_held F path (so_node s) of
        Inl error \<Rightarrow> (Inl error, s)
      | Inr True \<Rightarrow> (Inr SocketTaken, s)
      | Inr False \<Rightarrow>
     (case sf_remove F of
        Some reason \<Rightarrow> (Inl (SocketCleanup path reason), s)
      | None \<Rightarrow> bind_listener F path (s\<lparr>so_node := None\<rparr>)))"

subsection \<open>Admitting peers\<close>

definition admits :: "u32 option \<Rightarrow> u32 option \<Rightarrow> bool" where
  "admits peer owner \<longleftrightarrow>
     (case (peer, owner) of (Some peer, Some owner) \<Rightarrow> peer = owner | _ \<Rightarrow> True)"

text \<open>The first of the connecting peers that is admitted, and those still waiting; the rest are dropped.\<close>

fun accept_peer :: "u32 option \<Rightarrow> u32 option list \<Rightarrow> (u32 option \<times> u32 option list) option" where
  "accept_peer owner [] = None"
| "accept_peer owner (peer # peers) =
     (if admits peer owner then Some (peer, peers) else accept_peer owner peers)"

subsection \<open>Signals and draining\<close>

datatype shutdown_signal = SigInterrupt | SigTerminate

datatype signal_register_error = SignalRegister string string

primrec signal_register_error_text :: "signal_register_error \<Rightarrow> string" where
  "signal_register_error_text (SignalRegister signal reason) =
     ''cannot register the '' @ signal @ '' handler: '' @ reason"

definition register_signals :: "(shutdown_signal \<Rightarrow> string option) \<Rightarrow> signal_register_error + unit" where
  "register_signals refused =
     (case refused SigInterrupt of
        Some reason \<Rightarrow> Inl (SignalRegister ''SIGINT'' reason)
      | None \<Rightarrow>
     (case refused SigTerminate of
        Some reason \<Rightarrow> Inl (SignalRegister ''SIGTERM'' reason)
      | None \<Rightarrow> Inr ()))"

text \<open>The signals left when the wait returns; \<open>None\<close> while it goes on.\<close>

fun wait_for_shutdown :: "shutdown_signal list \<Rightarrow> shutdown_signal list option" where
  "wait_for_shutdown [] = None"
| "wait_for_shutdown (SigInterrupt # signals) = wait_for_shutdown signals"
| "wait_for_shutdown (SigTerminate # signals) = Some signals"

datatype server_error = ServeFailed string

primrec server_error_text :: "server_error \<Rightarrow> string" where
  "server_error_text (ServeFailed reason) = ''cannot serve requests: '' @ reason"

text \<open>
  Serving ends by itself before a shutdown is asked for, or within the time that is left to drain, or
  is cut off.
\<close>

datatype serve_end = EndedFirst "string option" | DrainedInTime "string option" | DrainElapsed

definition drain :: "serve_end \<Rightarrow> server_error + unit" where
  "drain finish =
     (case finish of
        EndedFirst result \<Rightarrow> (case result of None \<Rightarrow> Inr () | Some reason \<Rightarrow> Inl (ServeFailed reason))
      | DrainedInTime result \<Rightarrow> (case result of None \<Rightarrow> Inr () | Some reason \<Rightarrow> Inl (ServeFailed reason))
      | DrainElapsed \<Rightarrow> Inr ())"

subsection \<open>One listener per socket\<close>

text \<open>A socket that a daemon listens on is left alone; a bound one is the owner's only.\<close>

lemma bind_keeps_a_live_socket:
  "so_node s = Some (SocketNode True) \<Longrightarrow> bind_uds F path s = (r, s') \<Longrightarrow>
    s' = s \<and> (r = Inr SocketTaken \<or> (\<exists>reason. sf_connect F = Some reason \<and> r = Inl (SocketBind path reason)))"
  by (auto simp: bind_uds_def socket_is_held_def is_socket_def connect_uds_def vacated_def split: option.splits)

lemma bound_socket_is_private:
  "bind_uds F path s = (Inr (Bound owner), s') \<Longrightarrow>
    so_node s' = Some (SocketNode True) \<and> so_mode s' = OWNER_ONLY_SOCKET \<and> owner = sf_owner F \<and>
    so_node s \<noteq> Some (SocketNode True)"
  by (auto simp: bind_uds_def bind_listener_def restrict_socket_def socket_is_held_def is_socket_def
      connect_uds_def vacated_def socket_owner_of_def Let_def
      split: if_splits sum.splits bool.splits option.splits path_node.splits)

lemma stale_socket_is_replaced:
  "so_node s \<noteq> Some (SocketNode True) \<Longrightarrow>
    sf_connect F = None \<Longrightarrow> sf_remove F = None \<Longrightarrow> sf_bind F = None \<Longrightarrow> sf_permissions F = None \<Longrightarrow>
    fst (bind_uds F path s) = Inr (Bound (sf_owner F))"
  by (cases "so_node s"; cases "the (so_node s)")
    (auto simp: bind_uds_def bind_listener_def restrict_socket_def socket_is_held_def is_socket_def
      connect_uds_def vacated_def socket_owner_of_def)

lemma accepted_peer:
  "accept_peer owner peers = Some (peer, later) \<Longrightarrow>
    (\<exists>dropped. peers = dropped @ peer # later \<and> (\<forall>q\<in>set dropped. \<not> admits q owner)) \<and> admits peer owner"
proof (induction peers)
  case (Cons q peers)
  show ?case
  proof (cases "admits q owner")
    case False
    with Cons obtain dropped where "peers = dropped @ peer # later" "\<forall>q\<in>set dropped. \<not> admits q owner"
        "admits peer owner" by auto
    with False have "q # peers = (q # dropped) @ peer # later \<and> (\<forall>q\<in>set (q # dropped). \<not> admits q owner)"
      by simp
    with \<open>admits peer owner\<close> show ?thesis by blast
  next
    case True
    with Cons.prems have "q = peer \<and> peers = later" by simp
    with True show ?thesis by (intro conjI exI[of _ "[]"]) simp_all
  qed
qed simp

text \<open>An interrupt never stops the daemon, a termination does.\<close>

lemma wait_for_shutdown_iff:
  "wait_for_shutdown signals = Some later \<longleftrightarrow>
    (\<exists>n. signals = replicate n SigInterrupt @ SigTerminate # later)"
proof (induction signals rule: wait_for_shutdown.induct)
  case (2 signals)
  have "(\<exists>n. SigInterrupt # signals = replicate n SigInterrupt @ SigTerminate # later) \<longleftrightarrow>
      (\<exists>n. signals = replicate n SigInterrupt @ SigTerminate # later)"
  proof
    assume "\<exists>n. SigInterrupt # signals = replicate n SigInterrupt @ SigTerminate # later"
    then obtain n where "SigInterrupt # signals = replicate n SigInterrupt @ SigTerminate # later" by blast
    then show "\<exists>n. signals = replicate n SigInterrupt @ SigTerminate # later" by (cases n) auto
  next
    assume "\<exists>n. signals = replicate n SigInterrupt @ SigTerminate # later"
    then obtain n where "signals = replicate n SigInterrupt @ SigTerminate # later" by blast
    then have "SigInterrupt # signals = replicate (Suc n) SigInterrupt @ SigTerminate # later" by simp
    then show "\<exists>n. SigInterrupt # signals = replicate n SigInterrupt @ SigTerminate # later" by blast
  qed
  with 2 show ?case by simp
next
  case (3 signals)
  have "SigTerminate # signals = replicate n SigInterrupt @ SigTerminate # later \<Longrightarrow> n = 0" for n
    by (cases n) auto
  then show ?case by (auto intro: exI[of _ "0::nat"])
qed simp

end
