(* ===== verification/Host_Layout.thy ===== *)
theory Host_Layout
  imports Paths Unit_Plans Install_Files Daemon_Socket Http_Interface Service_Store
begin

text \<open>
  The errors of the command line (\<open>frameworks/src/lib.rs\<close>) and the layout of pm3's directories
  (\<open>frameworks/src/layout.rs\<close>): which roots the environment and the configuration name, the
  directories pm3 owns, the pid file and the files that a daemon leaves behind, on unix.
\<close>

subsection \<open>Errors\<close>

record reply_decode_error =
  rd_reason :: string

definition reply_decode_error_text :: "reply_decode_error \<Rightarrow> string" where
  "reply_decode_error_text e = ''cannot decode the pm3 daemon reply: '' @ rd_reason e"

datatype pm3_error =
    FeAdapter adapter_error
  | FePath path_error
  | FeLog log_file_error
  | FeLogClear log_file_error
  | FeServer server_error
  | FeSocket socket_error
  | FeClient client_error
  | FeService unit_command_error
  | FeServiceFile service_error
  | FeInstall install_error
  | FeDump dump_error
  | InstallTakeover u64 string
  | InstallLost string
  | FeSignal signal_error
  | FeSignalRegister signal_register_error
  | FeCron cron_error
  | FeSpec spec_error
  | Takeover string
  | GlobalEnvironment string
  | ServiceProgram string
  | ServiceConfig string string
  | ServiceHome
  | InlineUsage string
  | LayoutFailed string string
  | AppsFile string string
  | DaemonSpawn string
  | DaemonUnready string u64
  | RefusedAnswer u16 string
  | PartialStart string string
  | UnsavedStart string
  | DaemonPidUnknown string
  | Undecodable reply_decode_error
  | DaemonLingering u32 string u64

text \<open>The dash in the message of a failed takeover is the three bytes of U+2014.\<close>

definition EM_DASH :: string where
  "EM_DASH = [CHR 0xE2, CHR 0x80, CHR 0x94]"

primrec pm3_error_text :: "pm3_error \<Rightarrow> string" where
  "pm3_error_text (FeAdapter e) = adapter_error_text e"
| "pm3_error_text (FePath e) = path_error_text e"
| "pm3_error_text (FeLog e) = read_error_text e"
| "pm3_error_text (FeLogClear e) = clear_error_text e"
| "pm3_error_text (FeServer e) = server_error_text e"
| "pm3_error_text (FeSocket e) = socket_error_text e"
| "pm3_error_text (FeClient e) = client_error_text e"
| "pm3_error_text (FeService e) = unit_command_error_text e"
| "pm3_error_text (FeServiceFile e) = service_error_text e"
| "pm3_error_text (FeInstall e) = install_error_text e"
| "pm3_error_text (FeDump e) = dump_error_text e"
| "pm3_error_text (InstallTakeover timeout_ms backup) =
     ''the pm3 service did not come under the service manager'' @ [CHR 0x27] @ ''s supervision within '' @
     show_word timeout_ms @ '' ms; the previous install is backed up in '' @ quoted backup @ '' '' @ EM_DASH @
     '' restore the binary, unit and config from there, then run `pm3 startup --force`''"
| "pm3_error_text (InstallLost report) =
     ''not every managed service came back after the install:'' @ [CHR 0x0A] @ report"
| "pm3_error_text (FeSignal e) = signal_error_text e"
| "pm3_error_text (FeSignalRegister e) = signal_register_error_text e"
| "pm3_error_text (FeCron e) = cron_error_text e"
| "pm3_error_text (FeSpec e) = spec_error_text e"
| "pm3_error_text (Takeover reason) =
     ''cannot take over the apps the previous daemon left running: '' @ reason @
     ''; the daemon refuses to start rather than evict them''"
| "pm3_error_text (GlobalEnvironment reason) =
     ''cannot read the shared environment every app inherits: '' @ reason @
     ''; the daemon refuses to start rather than run every service without it''"
| "pm3_error_text (ServiceProgram reason) = ''cannot determine the pm3 binary path: '' @ reason"
| "pm3_error_text (ServiceConfig path reason) =
     ''cannot resolve the config path '' @ quoted path @ '': '' @ reason"
| "pm3_error_text ServiceHome = ''cannot locate the service directory: no HOME in the environment''"
| "pm3_error_text (InlineUsage reason) = ''cannot start: '' @ reason"
| "pm3_error_text (LayoutFailed path reason) = ''cannot prepare the pm3 home '' @ quoted path @ '': '' @ reason"
| "pm3_error_text (AppsFile path reason) = ''cannot resolve the apps file '' @ quoted path @ '': '' @ reason"
| "pm3_error_text (DaemonSpawn reason) = ''cannot spawn the pm3 daemon: '' @ reason"
| "pm3_error_text (DaemonUnready path timeout_ms) =
     ''cannot reach the pm3 daemon on '' @ quoted path @ '' within '' @ show_word timeout_ms @ '' ms''"
| "pm3_error_text (RefusedAnswer status body) =
     ''cannot complete the request: the pm3 daemon answered status '' @ show_word status @ '': '' @ body"
| "pm3_error_text (PartialStart refused report) = ''cannot start '' @ refused @ '':'' @ [CHR 0x0A] @ report"
| "pm3_error_text (UnsavedStart report) = ''cannot record what pm3 just started:'' @ [CHR 0x0A] @ report"
| "pm3_error_text (DaemonPidUnknown path) = ''cannot read the pm3 daemon pid from '' @ quoted path"
| "pm3_error_text (Undecodable e) = reply_decode_error_text e"
| "pm3_error_text (DaemonLingering i path timeout_ms) =
     ''cannot confirm the pm3 daemon (pid '' @ show_word i @ '') stopped: '' @ quoted path @
     '' is still there after '' @ show_word timeout_ms @ '' ms''"

subsection \<open>The host of the command line\<close>

text \<open>
  What a pm3 process meets beyond the files and helper programs: the owner of a path, the directories,
  its own pid and binary, the configuration reader, the daemon that answers on the socket, the
  processes it spawns, the age of a file, whether a path is there at the \<open>n\<close>-th look, the
  entries of a directory (a name that is not UTF-8 is \<open>None\<close>), log files that are followed, the
  time in ms a wait has taken at its \<open>k\<close>-th look, the default configuration, the local time and the
  JSON and YAML writers. Answers may depend on the disk, whose call counter orders them in time.
\<close>

record host_client = host_dump +
  ho_vars :: "(string \<times> string) list"
  ho_owner :: "disk \<Rightarrow> string \<Rightarrow> u32 option"
  ho_is_dir :: "disk \<Rightarrow> string \<Rightarrow> bool"
  ho_unresolved :: "string \<Rightarrow> string"
  ho_pid :: u32
  ho_exe :: "string + string"
  ho_config :: "string \<Rightarrow> string + app_config"
  ho_talk :: "disk \<Rightarrow> string \<Rightarrow> talk_result"
  ho_request_id :: "disk \<Rightarrow> string"
  ho_spawn :: "disk \<Rightarrow> helper_command \<Rightarrow> string option"
  ho_age :: "disk \<Rightarrow> string \<Rightarrow> nat option"
  ho_reply :: "string \<Rightarrow> string + reply_dto"
  ho_start_body :: "string list \<Rightarrow> string"
  ho_signal_body :: "string \<Rightarrow> string"
  ho_present :: "disk \<Rightarrow> string \<Rightarrow> nat \<Rightarrow> bool"
  ho_entries :: "disk \<Rightarrow> string \<Rightarrow> string option list option"
  ho_log_open :: "disk \<Rightarrow> string \<Rightarrow> io_error + nat \<times> nat"
  ho_log :: "disk \<Rightarrow> string \<Rightarrow> log_host"
  ho_elapsed :: "disk \<Rightarrow> nat \<Rightarrow> nat"
  ho_default_config :: string
  ho_clock :: local_clock
  ho_json_list :: "process_view_dto list \<Rightarrow> string"
  ho_json_one :: "process_view_dto option \<Rightarrow> string"
  ho_config_yaml :: "app_config \<Rightarrow> string"

definition env_var :: "'a host_client_scheme \<Rightarrow> string \<Rightarrow> string option" where
  "env_var H name = (case hs_env H name of VarFound found \<Rightarrow> Some found | _ \<Rightarrow> None)"

definition host_home :: "'a host_client_scheme \<Rightarrow> string option" where
  "host_home H = env_var H ''HOME''"

definition host_pm3_home :: "'a host_client_scheme \<Rightarrow> string option" where
  "host_pm3_home H = env_var H ''PM3_HOME''"

definition host_pm3_state_dir :: "'a host_client_scheme \<Rightarrow> string option" where
  "host_pm3_state_dir H = env_var H ''PM3_STATE_DIR''"

definition host_pm3_runtime_dir :: "'a host_client_scheme \<Rightarrow> string option" where
  "host_pm3_runtime_dir H = env_var H ''PM3_RUNTIME_DIR''"

definition host_pm3_data_dir :: "'a host_client_scheme \<Rightarrow> string option" where
  "host_pm3_data_dir H = env_var H ''PM3_DATA_DIR''"

definition host_pm3_config_dir :: "'a host_client_scheme \<Rightarrow> string option" where
  "host_pm3_config_dir H = env_var H ''PM3_CONFIG_DIR''"

definition host_install_destination :: "'a host_client_scheme \<Rightarrow> string option" where
  "host_install_destination H = env_var H ''PM3_INSTALL_PATH''"

definition host_install_backups :: "'a host_client_scheme \<Rightarrow> string option" where
  "host_install_backups H = env_var H ''PM3_INSTALL_BACKUPS''"

definition host_account :: "'a host_client_scheme \<Rightarrow> string option" where
  "host_account H = env_var H ''USERNAME''"

definition host_pm3_env :: "'a host_client_scheme \<Rightarrow> (string \<times> string) list" where
  "host_pm3_env H = pm3_variables (ho_vars H)"

definition xdg_config_env :: "'a host_client_scheme \<Rightarrow> string option" where
  "xdg_config_env H = is_named (env_var H ''XDG_CONFIG_HOME'')"

definition xdg_state_env :: "'a host_client_scheme \<Rightarrow> string option" where
  "xdg_state_env H = is_named (env_var H ''XDG_STATE_HOME'')"

definition xdg_data_env :: "'a host_client_scheme \<Rightarrow> string option" where
  "xdg_data_env H = is_named (env_var H ''XDG_DATA_HOME'')"

definition xdg_runtime_env :: "'a host_client_scheme \<Rightarrow> string option" where
  "xdg_runtime_env H = is_named (env_var H ''XDG_RUNTIME_DIR'')"

definition OWN_PROCESS_DIR :: string where
  "OWN_PROCESS_DIR = ''/proc/self''"

definition host_uid :: "'a host_client_scheme \<Rightarrow> string option \<Rightarrow> disk \<Rightarrow> u32 option" where
  "host_uid H home_env d =
     (case ho_owner H d OWN_PROCESS_DIR of
        Some owner \<Rightarrow> Some owner
      | None \<Rightarrow> (case home_env of None \<Rightarrow> None | Some home \<Rightarrow> ho_owner H d home))"

definition host_runtime_dir :: "'a host_client_scheme \<Rightarrow> string option \<Rightarrow> disk \<Rightarrow> string option" where
  "host_runtime_dir H home_env d = runtime_dir_of (env_var H ''XDG_RUNTIME_DIR'') (host_uid H home_env d)"

subsection \<open>Roots\<close>

record root_sources =
  rt_pm3_home :: "string option"
  rt_config :: "string option"
  rt_state :: "string option"
  rt_runtime :: "string option"
  rt_data :: "string option"
  rt_xdg_config :: "string option"
  rt_xdg_state :: "string option"
  rt_xdg_runtime :: "string option"
  rt_xdg_data :: "string option"
  rt_home :: "string option"
  rt_uid :: "u32 option"
  rt_exists :: "string \<Rightarrow> bool"

definition named_text :: "string \<Rightarrow> string option" where
  "named_text val = (if val = [] then None else Some val)"

definition overriding :: "string option \<Rightarrow> string \<Rightarrow> string option" where
  "overriding declared configured =
     (case named_text (case declared of None \<Rightarrow> [] | Some given \<Rightarrow> given) of
        Some given \<Rightarrow> Some given
      | None \<Rightarrow> named_text configured)"

definition roots_from :: "pm3_config \<Rightarrow> root_sources \<Rightarrow> path_error + pm3_roots" where
  "roots_from pm3 sources =
     (case overriding (rt_pm3_home sources) (pm3_home pm3) of
        Some root \<Rightarrow> map_sum id roots_single (expand_home root (rt_home sources))
      | None \<Rightarrow>
     (case resolve_state_root (overriding (rt_state sources) (pm3_state_dir pm3)) (rt_xdg_state sources)
         (rt_home sources) of
        Inl e \<Rightarrow> Inl e
      | Inr state \<Rightarrow>
     (case resolve_runtime_root
         \<lparr>rs_declared = overriding (rt_runtime sources) (pm3_runtime_dir pm3), rs_xdg = rt_xdg_runtime sources,
          rs_uid = rt_uid sources, rs_state = state, rs_home = rt_home sources, rs_exists = rt_exists sources\<rparr> of
        Inl e \<Rightarrow> Inl e
      | Inr runtime \<Rightarrow>
     (case resolve_config_root (rt_config sources) (rt_xdg_config sources) (rt_home sources) of
        Inl e \<Rightarrow> Inl e
      | Inr config \<Rightarrow>
     (case resolve_data_root (overriding (rt_data sources) (pm3_data_dir pm3)) (rt_xdg_data sources)
         (rt_home sources) of
        Inl e \<Rightarrow> Inl e
      | Inr data \<Rightarrow> Inr (roots_split config state runtime data))))))"

definition sources_of :: "'a host_client_scheme \<Rightarrow> string option \<Rightarrow> disk \<Rightarrow> root_sources" where
  "sources_of H home_env d =
     \<lparr>rt_pm3_home = host_pm3_home H, rt_config = host_pm3_config_dir H, rt_state = host_pm3_state_dir H,
      rt_runtime = host_pm3_runtime_dir H, rt_data = host_pm3_data_dir H, rt_xdg_config = xdg_config_env H,
      rt_xdg_state = xdg_state_env H, rt_xdg_runtime = xdg_runtime_env H, rt_xdg_data = xdg_data_env H,
      rt_home = home_env, rt_uid = host_uid H home_env d, rt_exists = ho_is_dir H d\<rparr>"

definition resolve_roots :: "'a host_client_scheme \<Rightarrow> pm3_config \<Rightarrow> string option \<Rightarrow> disk \<Rightarrow> path_error + pm3_roots" where
  "resolve_roots H pm3 home_env d = roots_from pm3 (sources_of H home_env d)"

record pm3_places =
  pl_paths :: pm3_paths
  pl_cfg_dir :: string

definition resolve_places :: "'a host_client_scheme \<Rightarrow> pm3_config \<Rightarrow> string option \<Rightarrow> disk \<Rightarrow> path_error + pm3_places" where
  "resolve_places H pm3 home_env d =
     (case resolve_roots H pm3 home_env d of
        Inl e \<Rightarrow> Inl e
      | Inr roots \<Rightarrow>
     (case (case named_text (pm3_cfg_dir pm3) of
              Some declared \<Rightarrow> expand_home declared home_env
            | None \<Rightarrow> Inr (ro_config roots)) of
        Inl e \<Rightarrow> Inl e
      | Inr cfg_dir \<Rightarrow>
     (case check_socket_length (pa_socket (resolve_paths roots)) of
        Inl e \<Rightarrow> Inl e
      | Inr _ \<Rightarrow> Inr \<lparr>pl_paths = resolve_paths roots, pl_cfg_dir = cfg_dir\<rparr>)))"

definition canonicalize_path ::
  "'a host_client_scheme \<Rightarrow> string \<Rightarrow> (string \<Rightarrow> pm3_error) \<Rightarrow> disk \<Rightarrow> (pm3_error + string) \<times> disk" where
  "canonicalize_path H path wrap d =
     (case hf_canonical (hs_files H) d path of
        None \<Rightarrow> Inl (wrap (ho_unresolved H path))
      | Some resolved \<Rightarrow> Inr resolved,
      tick d)"

subsection \<open>Directories\<close>

definition layout_error :: "string \<Rightarrow> io_error \<Rightarrow> pm3_error" where
  "layout_error path error = LayoutFailed path (io_error_text error)"

text \<open>Of neighbours that are the same path the first is kept.\<close>

fun dedup_paths :: "string list \<Rightarrow> string list" where
  "dedup_paths (p # q # paths) =
     (if same_path p q then dedup_paths (p # paths) else p # dedup_paths (q # paths))"
| "dedup_paths paths = paths"

definition owned_directories :: "pm3_paths \<Rightarrow> string \<Rightarrow> string list" where
  "owned_directories paths cfg_dir =
     dedup_paths
       [ro_state (pa_roots paths), ro_config (pa_roots paths), ro_runtime (pa_roots paths),
        ro_data (pa_roots paths), pa_logs_dir paths, pa_apps_dir paths, cfg_dir]"

definition restrict_to_owner :: "host_files \<Rightarrow> string \<Rightarrow> disk \<Rightarrow> disk" where
  "restrict_to_owner E path d = snd (set_dir_mode E path OWNER_ONLY_DIR d)"

definition prepare_directory :: "host_files \<Rightarrow> string \<Rightarrow> disk \<Rightarrow> (pm3_error + unit) \<times> disk" where
  "prepare_directory E path d =
     (case create_dir_all E path d of
        (Inl error, d) \<Rightarrow> (Inl (layout_error path error), d)
      | (Inr _, d) \<Rightarrow> (Inr (), restrict_to_owner E path d))"

fun prepare_directories :: "host_files \<Rightarrow> string list \<Rightarrow> disk \<Rightarrow> (pm3_error + unit) \<times> disk" where
  "prepare_directories E [] d = (Inr (), d)"
| "prepare_directories E (path # paths) d =
     (case prepare_directory E path d of
        (Inl error, d) \<Rightarrow> (Inl error, d)
      | (Inr _, d) \<Rightarrow> prepare_directories E paths d)"

definition ensure_layout :: "host_files \<Rightarrow> pm3_paths \<Rightarrow> string \<Rightarrow> disk \<Rightarrow> (pm3_error + unit) \<times> disk" where
  "ensure_layout E paths cfg_dir d = prepare_directories E (owned_directories paths cfg_dir) d"

subsection \<open>Runtime files\<close>

definition write_pid_file :: "'a host_client_scheme \<Rightarrow> pm3_paths \<Rightarrow> disk \<Rightarrow> (pm3_error + unit) \<times> disk" where
  "write_pid_file H paths d =
     (case write_sweep_proof (hs_files H) (pa_pid_file paths) (show_word (ho_pid H)) d of
        (Inl error, d) \<Rightarrow> (Inl (layout_error (pa_pid_file paths) error), d)
      | (Inr _, d) \<Rightarrow> (Inr (), d))"

definition read_pid_file :: "host_files \<Rightarrow> pm3_paths \<Rightarrow> disk \<Rightarrow> u32 option \<times> disk" where
  "read_pid_file E paths d =
     (case read_to_string E (pa_pid_file paths) d of
        (Inl error, d) \<Rightarrow> (None, d)
      | (Inr raw, d) \<Rightarrow> (parse_u32 (trim raw), d))"

definition remove_runtime_file :: "host_files \<Rightarrow> string \<Rightarrow> disk \<Rightarrow> disk" where
  "remove_runtime_file E path d = snd (remove_if_present E path d)"

definition clear_runtime_files :: "host_files \<Rightarrow> pm3_paths \<Rightarrow> disk \<Rightarrow> disk" where
  "clear_runtime_files E paths d =
     remove_runtime_file E (pa_socket paths) (remove_runtime_file E (pa_pid_file paths) d)"

subsection \<open>Every place is absolute\<close>

lemma map_sum_Inr_iff: "map_sum f g x = Inr y \<longleftrightarrow> (\<exists>a. x = Inr a \<and> y = g a)"
  by (cases x) auto

definition roots_absolute :: "pm3_roots \<Rightarrow> bool" where
  "roots_absolute roots \<longleftrightarrow>
     is_absolute_path (ro_config roots) \<and> is_absolute_path (ro_state roots) \<and>
     is_absolute_path (ro_runtime roots) \<and> is_absolute_path (ro_data roots)"

lemma roots_from_absolute:
  assumes "roots_from pm3 sources = Inr roots" and home: "absolute_home (rt_home sources)"
  shows "roots_absolute roots"
proof (cases "overriding (rt_pm3_home sources) (pm3_home pm3)")
  case (Some root)
  with assms show ?thesis
    by (auto simp: roots_from_def map_sum_Inr_iff roots_single_def roots_absolute_def dest: expand_home_absolute)
next
  case None
  with assms(1) obtain config state runtime data sources' where resolved:
    "resolve_state_root (overriding (rt_state sources) (pm3_state_dir pm3)) (rt_xdg_state sources)
       (rt_home sources) = Inr state"
    "resolve_runtime_root sources' = Inr runtime" "rs_home sources' = rt_home sources" "rs_state sources' = state"
    "resolve_config_root (rt_config sources) (rt_xdg_config sources) (rt_home sources) = Inr config"
    "resolve_data_root (overriding (rt_data sources) (pm3_data_dir pm3)) (rt_xdg_data sources)
       (rt_home sources) = Inr data"
    "roots = roots_split config state runtime data"
    by (auto simp: roots_from_def split: sum.splits)
  note absolute = resolve_xdg_root_absolute[OF _ home]
  have "is_absolute_path state" "is_absolute_path config" "is_absolute_path data"
    using resolved(1,5,6) absolute
    by (auto simp: resolve_state_root_def resolve_config_root_def resolve_data_root_def)
  with resolve_runtime_root_absolute[OF resolved(2)] resolved(3,4,7) home show ?thesis
    by (simp add: roots_absolute_def roots_split_def)
qed

lemma resolve_places_absolute:
  assumes "resolve_places H pm3 home d = Inr places" and "absolute_home home"
  shows "roots_absolute (pa_roots (pl_paths places)) \<and> is_absolute_path (pl_cfg_dir places) \<and>
    list_all is_absolute_path
      (map (\<lambda>f. f (pl_paths places))
        [pa_socket, pa_pid_file, pa_lock_file, pa_config_file, pa_dump_file, pa_logs_dir, pa_daemon_log,
         pa_apps_dir, pa_backups_dir]) \<and>
    length (pa_socket (pl_paths places)) \<le> LONGEST_SOCKET_PATH"
proof -
  obtain roots cfg_dir where found: "resolve_roots H pm3 home d = Inr roots"
      "(case named_text (pm3_cfg_dir pm3) of
          Some declared \<Rightarrow> expand_home declared home | None \<Rightarrow> Inr (ro_config roots)) = Inr cfg_dir"
      "check_socket_length (pa_socket (resolve_paths roots)) = Inr ()"
      "places = \<lparr>pl_paths = resolve_paths roots, pl_cfg_dir = cfg_dir\<rparr>"
    using assms(1) by (auto simp: resolve_places_def split: sum.splits)
  have roots: "roots_absolute roots"
    using roots_from_absolute found(1) assms(2) by (simp add: resolve_roots_def sources_of_def)
  then have "is_absolute_path cfg_dir"
    using found(2) assms(2) by (auto simp: roots_absolute_def split: option.splits dest: expand_home_absolute)
  moreover have "length (pa_socket (resolve_paths roots)) \<le> LONGEST_SOCKET_PATH"
    using found(3) by (simp add: check_socket_length_def split: if_splits)
  moreover have "pa_roots (resolve_paths roots) = roots" by (simp add: resolve_paths_def)
  ultimately show ?thesis
    using roots resolved_paths_absolute[of roots] by (simp only: found(4) pm3_places.simps) (simp add: roots_absolute_def)
qed

subsection \<open>The directories pm3 owns\<close>

lemma prepare_directory_calm:
  assumes "no_faults E"
  obtains d' where "prepare_directory E path d = (Inr (), d')" "dk_files d' = dk_files d"
    "set (dk_dirs d') = insert path (set (dk_dirs d))" "dk_modes d' = (dk_modes d)(path := OWNER_ONLY_DIR)"
  using assms
  by (simp add: prepare_directory_def create_dir_all_def restrict_to_owner_def set_dir_mode_def tick_def)

lemma prepare_directories_calm:
  "no_faults E \<Longrightarrow> \<exists>d'. prepare_directories E paths d = (Inr (), d') \<and> dk_files d' = dk_files d \<and>
    set (dk_dirs d') = set paths \<union> set (dk_dirs d) \<and>
    dk_modes d' = (\<lambda>p. if p \<in> set paths then OWNER_ONLY_DIR else dk_modes d p)"
proof (induction paths arbitrary: d)
  case (Cons path paths)
  obtain d1 where d1: "prepare_directory E path d = (Inr (), d1)" "dk_files d1 = dk_files d"
      "set (dk_dirs d1) = insert path (set (dk_dirs d))" "dk_modes d1 = (dk_modes d)(path := OWNER_ONLY_DIR)"
    using prepare_directory_calm[OF Cons.prems] .
  with Cons.IH[OF Cons.prems, of d1] show ?case by (auto simp: fun_eq_iff)
qed auto

lemma dedup_paths_covers: "p \<in> set paths \<Longrightarrow> \<exists>q\<in>set (dedup_paths paths). same_path q p"
proof (induction paths arbitrary: p rule: dedup_paths.induct)
  case (1 r q paths p)
  show ?case
  proof (cases "same_path r q")
    case True
    then have kept: "dedup_paths (r # q # paths) = dedup_paths (r # paths)" by simp
    have "\<exists>s\<in>set (dedup_paths (r # paths)). same_path s (if p = q then r else p)"
      using 1(1)[OF True, of "if p = q then r else p"] 1(3) by auto
    with True show ?thesis unfolding kept by (auto simp: same_path_def split: if_splits)
  next
    case False
    with 1 show ?thesis by (auto simp: same_path_def)
  qed
qed (auto simp: same_path_def)

text \<open>
  A calm start leaves every owned directory in place, closed to other users, and touches no file.
\<close>

lemma ensure_layout_calm:
  assumes "no_faults E"
  obtains d' where "ensure_layout E paths cfg_dir d = (Inr (), d')" "dk_files d' = dk_files d"
    "\<And>p. p \<in> set [ro_state (pa_roots paths), ro_config (pa_roots paths), ro_runtime (pa_roots paths),
          ro_data (pa_roots paths), pa_logs_dir paths, pa_apps_dir paths, cfg_dir] \<Longrightarrow>
        \<exists>q\<in>set (dk_dirs d'). same_path q p \<and> dk_modes d' q = OWNER_ONLY_DIR"
proof -
  obtain d' where d': "ensure_layout E paths cfg_dir d = (Inr (), d')" "dk_files d' = dk_files d"
      "set (dk_dirs d') = set (owned_directories paths cfg_dir) \<union> set (dk_dirs d)"
      "dk_modes d' = (\<lambda>p. if p \<in> set (owned_directories paths cfg_dir) then OWNER_ONLY_DIR else dk_modes d p)"
    using prepare_directories_calm[OF assms] unfolding ensure_layout_def by blast
  from that[OF d'(1,2)] show thesis
    using dedup_paths_covers d'(3,4) unfolding owned_directories_def by (metis (no_types, lifting) UnI1)
qed

subsection \<open>The pid file\<close>

lemma read_pid_after_write:
  assumes "no_faults (hs_files H)"
  shows "fst (read_pid_file (hs_files H) paths (snd (write_pid_file H paths d))) = Some (ho_pid H)"
proof -
  have "trim (show_word (ho_pid H)) = show_word (ho_pid H)"
    by (simp add: trim_graphic show_nat_graphic show_word_def)
  with assms parse_u32_show_word show ?thesis
    by (simp add: write_pid_file_def write_sweep_proof_def write_private_def set_mode_def set_contents_def
        tick_def read_pid_file_def read_to_string_def)
qed

lemma cleared_runtime_files:
  assumes "no_faults E"
  shows "dk_files (clear_runtime_files E paths d) = (dk_files d)(pa_pid_file paths := None, pa_socket paths := None)"
proof -
  have "dk_files (remove_runtime_file E path d) = (dk_files d)(path := None)" for path d
    using assms by (auto simp: remove_runtime_file_def remove_if_present_def remove_file_def tick_def)
  then show ?thesis by (simp add: clear_runtime_files_def)
qed

end
