(* ===== verification/Start_Lock.thy ===== *)
theory Start_Lock
  imports Host_Layout
begin

text \<open>
  Starting the daemon on demand (\<open>frameworks/src/daemon/bootstrap.rs\<close>): the client that takes the
  start lock spawns the daemon, the others wait for it to answer. The second part runs any number of
  clients against one lock file, one system call at a time.
\<close>

subsection \<open>One client\<close>

record daemon_launch =
  dl_paths :: pm3_paths
  dl_config_path :: string
  dl_program :: string
  dl_attempts :: u32
  dl_interval_ms :: u64
  dl_request_timeout_ms :: u64

definition try_u32 :: "u64 \<Rightarrow> u32 option" where
  "try_u32 w = (if unat w < 2 ^ 32 then Some (ucast w) else None)"

definition launch_from_config :: "pm3_paths \<Rightarrow> string \<Rightarrow> string \<Rightarrow> pm3_config \<Rightarrow> daemon_launch" where
  "launch_from_config paths config_path program pm3 =
     (let interval_ms = max (pm3_daemon_poll_interval_ms pm3) 1;
          attempts = (case try_u32 (pm3_start_timeout_ms pm3 div interval_ms) of None \<Rightarrow> -1 | Some n \<Rightarrow> n) in
      \<lparr>dl_paths = paths, dl_config_path = config_path, dl_program = program, dl_attempts = max attempts 1,
       dl_interval_ms = interval_ms, dl_request_timeout_ms = pm3_request_timeout_ms pm3\<rparr>)"

definition budget_ms :: "daemon_launch \<Rightarrow> u64" where
  "budget_ms boot = saturating_mul (ucast (dl_attempts boot)) (dl_interval_ms boot)"

definition launch_client :: "daemon_launch \<Rightarrow> uds_client" where
  "launch_client boot =
     \<lparr>uc_socket = pa_socket (dl_paths boot), uc_timeout_ms = dl_request_timeout_ms boot\<rparr>"

definition healthy_now :: "'a host_client_scheme \<Rightarrow> uds_client \<Rightarrow> disk \<Rightarrow> bool \<times> disk" where
  "healthy_now H client d = (daemon_is_healthy client (ho_talk H d) (ho_request_id H d), tick d)"

definition take_lock :: "host_files \<Rightarrow> string \<Rightarrow> disk \<Rightarrow> bool \<times> disk" where
  "take_lock E path d =
     (case fault_now E d of
        Some f \<Rightarrow> (False, tick d)
      | None \<Rightarrow>
          (if dk_files d path = None then (True, tick (set_contents path [] d)) else (False, tick d)))"

text \<open>The age of a file in nanoseconds, unless it is not there or lies in the future.\<close>

definition lock_age :: "'a host_client_scheme \<Rightarrow> string \<Rightarrow> disk \<Rightarrow> nat option \<times> disk" where
  "lock_age H path d =
     (case stat_file (hs_files H) path d of
        (Inl error, d') \<Rightarrow> (None, d')
      | (Inr _, d') \<Rightarrow> (ho_age H d path, d'))"

definition is_abandoned :: "'a host_client_scheme \<Rightarrow> string \<Rightarrow> u64 \<Rightarrow> disk \<Rightarrow> bool \<times> disk" where
  "is_abandoned H path stale_after_ms d =
     (case lock_age H path d of
        (None, d) \<Rightarrow> (False, d)
      | (Some age, d) \<Rightarrow> (unat stale_after_ms * 1000000 < age, d))"

definition release_lock :: "'a host_client_scheme \<Rightarrow> string \<Rightarrow> disk \<Rightarrow> disk" where
  "release_lock H path d = remove_runtime_file (hs_files H) path d"

definition claim_lock :: "'a host_client_scheme \<Rightarrow> string \<Rightarrow> u64 \<Rightarrow> disk \<Rightarrow> bool \<times> disk" where
  "claim_lock H path stale_after_ms d =
     (case take_lock (hs_files H) path d of
        (True, d) \<Rightarrow> (True, d)
      | (False, d) \<Rightarrow>
     (case is_abandoned H path stale_after_ms d of
        (False, d) \<Rightarrow> (False, d)
      | (True, d) \<Rightarrow> take_lock (hs_files H) path (release_lock H path d)))"

definition append_private :: "host_files \<Rightarrow> string \<Rightarrow> disk \<Rightarrow> (io_error + unit) \<times> disk" where
  "append_private E path d =
     (case fault_now E d of
        Some f \<Rightarrow> (Inl (OtherError (fault_reason f)), tick d)
      | None \<Rightarrow> (Inr (), tick (if dk_files d path = None then set_contents path [] d else d)))"

definition spawn_daemon :: "'a host_client_scheme \<Rightarrow> daemon_launch \<Rightarrow> disk \<Rightarrow> (pm3_error + unit) \<times> disk" where
  "spawn_daemon H boot d =
     (case append_private (hs_files H) (pa_daemon_log (dl_paths boot)) d of
        (Inl error, d) \<Rightarrow> (Inl (layout_error (pa_daemon_log (dl_paths boot)) error), d)
      | (Inr _, d) \<Rightarrow>
     (case ho_spawn H d \<lparr>hc_program = dl_program boot, hc_env = [],
          hc_args = [DAEMON_SUBCOMMAND, CONFIG_FLAG, dl_config_path boot]\<rparr> of
        Some reason \<Rightarrow> (Inl (DaemonSpawn reason), tick d)
      | None \<Rightarrow> (Inr (), tick d)))"

fun await_ready :: "'a host_client_scheme \<Rightarrow> uds_client \<Rightarrow> nat \<Rightarrow> disk \<Rightarrow> bool \<times> disk" where
  "await_ready H client 0 d = (False, d)"
| "await_ready H client (Suc n) d =
     (case healthy_now H client d of
        (True, d) \<Rightarrow> (True, d)
      | (False, d) \<Rightarrow> await_ready H client n d)"

definition wait_until_ready :: "'a host_client_scheme \<Rightarrow> uds_client \<Rightarrow> daemon_launch \<Rightarrow> disk \<Rightarrow> (pm3_error + unit) \<times> disk" where
  "wait_until_ready H client boot d =
     (case await_ready H client (unat (dl_attempts boot)) d of
        (True, d) \<Rightarrow> (Inr (), d)
      | (False, d) \<Rightarrow> (Inl (DaemonUnready (pa_socket (dl_paths boot)) (budget_ms boot)), d))"

definition ensure_daemon_running :: "'a host_client_scheme \<Rightarrow> daemon_launch \<Rightarrow> disk \<Rightarrow> (pm3_error + unit) \<times> disk" where
  "ensure_daemon_running H boot d =
     (let client = launch_client boot in
      case healthy_now H client d of
        (True, d) \<Rightarrow> (Inr (), d)
      | (False, d) \<Rightarrow>
     (case claim_lock H (pa_lock_file (dl_paths boot)) (budget_ms boot) d of
        (False, d) \<Rightarrow> wait_until_ready H client boot d
      | (True, d) \<Rightarrow>
          (let (settled, d) =
             (case spawn_daemon H boot d of
                (Inr _, d) \<Rightarrow> wait_until_ready H client boot d
              | (Inl error, d) \<Rightarrow> (Inl error, d)) in
           (settled, release_lock H (pa_lock_file (dl_paths boot)) d))))"

subsection \<open>What a client achieves\<close>

text \<open>The client asks at least once and never plans to wait longer than the timeout, if that covers one interval.\<close>

lemma launch_budget:
  assumes made: "boot = launch_from_config paths config_path program pm3"
  shows "1 \<le> dl_attempts boot" and "1 \<le> dl_interval_ms boot"
    and "unat (budget_ms boot) = unat (dl_attempts boot) * unat (dl_interval_ms boot)"
    and "unat (budget_ms boot) \<le> max (unat (pm3_start_timeout_ms pm3)) (unat (dl_interval_ms boot))"
proof -
  define interval where "interval = dl_interval_ms boot"
  define steps where "steps = pm3_start_timeout_ms pm3 div interval"
  have interval: "interval = max (pm3_daemon_poll_interval_ms pm3) 1"
    and attempts: "dl_attempts boot = max (case try_u32 steps of None \<Rightarrow> -1 | Some n \<Rightarrow> n) 1"
    unfolding steps_def interval_def made launch_from_config_def Let_def by simp_all
  show positive: "1 \<le> dl_attempts boot" "1 \<le> dl_interval_ms boot"
    using interval attempts by (simp_all add: interval_def)
  have one_max: "unat (max w 1) = max (unat w) 1" for w :: u32
    by (simp add: max_def word_le_nat_alt)
  have chosen: "unat (case try_u32 steps of None \<Rightarrow> -1 | Some n \<Rightarrow> n) \<le> unat steps"
  proof (cases "unat steps < 2 ^ 32")
    case True
    then show ?thesis by (simp add: try_u32_def unsigned_ucast_eq take_bit_nat_less_eq_self)
  next
    case False
    have "unat (-1 :: u32) < 2 ^ 32" by (rule order.strict_trans2[OF unsigned_less]) simp
    with False show ?thesis by (simp add: try_u32_def)
  qed
  then have bound: "unat (dl_attempts boot) \<le> max (unat steps) 1"
    unfolding attempts one_max by (rule max.mono) simp
  have "unat steps * unat interval \<le> unat (pm3_start_timeout_ms pm3)"
    by (simp add: steps_def unat_div div_times_less_eq_dividend)
  then have product: "unat (dl_attempts boot) * unat interval \<le> max (unat (pm3_start_timeout_ms pm3)) (unat interval)"
  proof (cases "1 \<le> unat steps")
    case True
    then have "unat (dl_attempts boot) * unat interval \<le> unat steps * unat interval"
      using bound by (intro mult_right_mono) auto
    also note \<open>unat steps * unat interval \<le> unat (pm3_start_timeout_ms pm3)\<close>
    finally show ?thesis by (rule max.coboundedI1)
  next
    case False
    then have "unat (dl_attempts boot) * unat interval \<le> 1 * unat interval"
      using bound by (intro mult_right_mono) auto
    then show ?thesis by (simp add: le_max_iff_disj)
  qed
  have "unat (pm3_start_timeout_ms pm3) < 2 ^ 64" "unat interval < 2 ^ 64"
    by (rule order.strict_trans2[OF unsigned_less], simp)+
  with product have fits: "unat (dl_attempts boot) * unat interval < 2 ^ 64" by simp
  have "unat (dl_attempts boot) < 2 ^ 64" by (rule order.strict_trans[OF unsigned_less]) simp
  then have widened: "unat (ucast (dl_attempts boot) :: u64) = unat (dl_attempts boot)"
    by (simp add: unsigned_ucast_eq take_bit_nat_eq_self)
  from fits show exact: "unat (budget_ms boot) = unat (dl_attempts boot) * unat (dl_interval_ms boot)"
    by (simp add: budget_ms_def saturating_mul_def widened interval_def unat_mult_lem[THEN iffD1])
  show "unat (budget_ms boot) \<le> max (unat (pm3_start_timeout_ms pm3)) (unat (dl_interval_ms boot))"
    using product unfolding exact interval_def .
qed

text \<open>Success means that the daemon has answered; the lock that was taken is given back.\<close>

lemma healthy_now_result: "healthy_now H client d = (True, d') \<Longrightarrow> fst (healthy_now H client d)" by simp

lemma await_ready_sound: "await_ready H client n d = (True, d') \<Longrightarrow> \<exists>d. fst (healthy_now H client d)"
  by (induction n arbitrary: d) (auto split: prod.splits bool.splits dest: healthy_now_result)

lemma ensure_daemon_running_sound:
  assumes "ensure_daemon_running H boot d = (Inr (), d')"
  shows "\<exists>d. fst (healthy_now H (launch_client boot) d)"
  using assms
  by (auto simp: ensure_daemon_running_def wait_until_ready_def Let_def
      dest: healthy_now_result await_ready_sound split: prod.splits bool.splits sum.splits)

lemma healthy_now_files [simp]: "dk_files (snd (healthy_now H client d)) = dk_files d"
  by (simp add: healthy_now_def)

lemma await_ready_files [simp]: "dk_files (snd (await_ready H client n d)) = dk_files d"
proof (induction n arbitrary: d)
  case (Suc n)
  obtain up d1 where look: "healthy_now H client d = (up, d1)" by (cases "healthy_now H client d")
  then have "dk_files d1 = dk_files d" using healthy_now_files by (metis snd_conv)
  with Suc show ?case by (cases up) (simp_all add: look)
qed simp

lemma wait_until_ready_files [simp]: "dk_files (snd (wait_until_ready H client boot d)) = dk_files d"
  using await_ready_files[of H client "unat (dl_attempts boot)" d]
  by (auto simp: wait_until_ready_def simp del: await_ready_files split: prod.splits bool.splits)

lemma release_lock_calm:
  "no_faults (hs_files H) \<Longrightarrow> dk_files (release_lock H path d) = (dk_files d)(path := None)"
  by (auto simp: release_lock_def remove_runtime_file_def remove_if_present_def remove_file_def tick_def)

lemma take_lock_calm:
  assumes "no_faults E"
  obtains d' where "take_lock E path d = (dk_files d path = None, d')"
    "dk_files d' = (if dk_files d path = None then (dk_files d)(path := Some []) else dk_files d)"
  using assms by (intro that[of "snd (take_lock E path d)"]) (auto simp: take_lock_def set_contents_def tick_def)

lemma ensure_daemon_running_releases:
  assumes calm: "no_faults (hs_files H)" and free: "dk_files d (pa_lock_file (dl_paths boot)) = None"
    and ran: "ensure_daemon_running H boot d = (r, d')"
  shows "dk_files d' (pa_lock_file (dl_paths boot)) = None"
proof -
  obtain up d1 where look: "healthy_now H (launch_client boot) d = (up, d1)"
    by (cases "healthy_now H (launch_client boot) d")
  then have d1: "dk_files d1 = dk_files d" using healthy_now_files by (metis snd_conv)
  show ?thesis
  proof (cases up)
    case True
    with ran look d1 free show ?thesis by (simp add: ensure_daemon_running_def)
  next
    case False
    obtain d2 where "take_lock (hs_files H) (pa_lock_file (dl_paths boot)) d1 = (True, d2)"
      using take_lock_calm[OF calm, of "pa_lock_file (dl_paths boot)" d1] free d1 by auto
    then have "claim_lock H (pa_lock_file (dl_paths boot)) (budget_ms boot) d1 = (True, d2)"
      by (simp add: claim_lock_def)
    with ran look False show ?thesis
      by (auto simp: ensure_daemon_running_def Let_def release_lock_calm[OF calm] split: prod.splits)
  qed
qed

subsection \<open>Many clients, one lock file\<close>

text \<open>
  Each client goes through the system calls of \<open>claim_lock\<close>; in between the others go on. The lock
  file remembers who created it and whether it has outlived the budget; a client that holds the lock
  releases whatever lock file is there when it is done, or dies and leaves it.
\<close>

datatype lock_pc = Claiming | Judging | Clearing | Retaking | Spawning | Yielded

record lock_race =
  lr_lock :: "nat option"
  lr_stale :: bool
  lr_pc :: "nat \<Rightarrow> lock_pc"

definition lock_step :: "nat \<Rightarrow> lock_race \<Rightarrow> lock_race" where
  "lock_step i s =
     (let taken = s\<lparr>lr_lock := Some i, lr_stale := False, lr_pc := (lr_pc s)(i := Spawning)\<rparr>;
          goes = (\<lambda>pc. s\<lparr>lr_pc := (lr_pc s)(i := pc)\<rparr>) in
      case lr_pc s i of
        Claiming \<Rightarrow> (if lr_lock s = None then taken else goes Judging)
      | Judging \<Rightarrow> (if lr_lock s \<noteq> None \<and> lr_stale s then goes Clearing else goes Yielded)
      | Clearing \<Rightarrow> s\<lparr>lr_lock := None, lr_stale := False, lr_pc := (lr_pc s)(i := Retaking)\<rparr>
      | Retaking \<Rightarrow> (if lr_lock s = None then taken else goes Yielded)
      | Spawning \<Rightarrow> s\<lparr>lr_lock := None, lr_stale := False, lr_pc := (lr_pc s)(i := Yielded)\<rparr>
      | Yielded \<Rightarrow> s)"

definition lock_free :: lock_race where
  "lock_free = \<lparr>lr_lock = None, lr_stale = False, lr_pc = \<lambda>i. Claiming\<rparr>"

inductive lock_run :: "bool \<Rightarrow> lock_race \<Rightarrow> bool" for ageing :: bool where
  start: "lock_run ageing lock_free"
| step: "lock_run ageing s \<Longrightarrow> lock_run ageing (lock_step i s)"
| dies: "lock_run ageing s \<Longrightarrow> lr_pc s i = Spawning \<Longrightarrow> lock_run ageing (s\<lparr>lr_pc := (lr_pc s)(i := Yielded)\<rparr>)"
| ages: "lock_run ageing s \<Longrightarrow> ageing \<Longrightarrow> lr_lock s \<noteq> None \<Longrightarrow> lock_run ageing (s\<lparr>lr_stale := True\<rparr>)"

text \<open>As long as no lock outlives the budget, at most one client at a time spawns a daemon.\<close>

definition lock_ok :: "lock_race \<Rightarrow> bool" where
  "lock_ok s \<longleftrightarrow>
     \<not> lr_stale s \<and> (\<forall>i. lr_pc s i \<noteq> Clearing \<and> lr_pc s i \<noteq> Retaking) \<and>
     (\<forall>i. lr_pc s i = Spawning \<longrightarrow> lr_lock s = Some i)"

lemma lock_ok_unique: "lock_ok s \<Longrightarrow> lr_pc s i = Spawning \<Longrightarrow> lr_pc s j = Spawning \<Longrightarrow> i = j"
  unfolding lock_ok_def by (metis option.inject)

lemma lock_step_ok: "lock_ok s \<Longrightarrow> lock_ok (lock_step i s)"
proof (cases "lr_pc s i = Spawning")
  case True
  assume ok: "lock_ok s"
  then have "lr_pc s j \<noteq> Spawning" if "j \<noteq> i" for j using lock_ok_unique True that by blast
  with ok True show ?thesis by (simp add: lock_ok_def lock_step_def Let_def)
next
  case False
  assume "lock_ok s"
  with False show ?thesis by (cases "lr_pc s i") (auto simp: lock_ok_def lock_step_def Let_def)
qed

lemma lock_run_ok: "lock_run False s \<Longrightarrow> lock_ok s"
proof (induction rule: lock_run.induct)
  case start
  then show ?case by (simp add: lock_ok_def lock_free_def)
next
  case (step s i)
  then show ?case by (simp add: lock_step_ok)
next
  case (dies s i)
  then have "lr_pc s j \<noteq> Spawning" if "j \<noteq> i" for j using lock_ok_unique that by blast
  with dies show ?case by (simp add: lock_ok_def)
qed simp

lemma one_spawner: "lock_run False s \<Longrightarrow> lr_pc s i = Spawning \<Longrightarrow> lr_pc s j = Spawning \<Longrightarrow> i = j"
  using lock_ok_unique lock_run_ok by blast

text \<open>
  Over an abandoned lock two clients can both come to hold it: the second removes the lock that the
  first has just taken.
\<close>

lemma two_spawners: "\<exists>s. lock_run True s \<and> lr_pc s 1 = Spawning \<and> lr_pc s 2 = Spawning"
proof -
  define left where "left = lock_step 0 lock_free"
  have "lock_run True left" unfolding left_def by (intro lock_run.step lock_run.start)
  moreover have "lr_pc left 0 = Spawning" "lr_lock left = Some 0"
    by (simp_all add: left_def lock_step_def lock_free_def)
  ultimately have old: "lock_run True (left\<lparr>lr_pc := (lr_pc left)(0 := Yielded), lr_stale := True\<rparr>)"
    using lock_run.ages[OF lock_run.dies[of True left 0]] by simp
  define abandoned where "abandoned = left\<lparr>lr_pc := (lr_pc left)(0 := Yielded), lr_stale := True\<rparr>"
  define s where "s = foldl (\<lambda>s i. lock_step i s) abandoned [1, 2, 1, 2, 1, 1, 2, 2]"
  have "lock_run True (foldl (\<lambda>s i. lock_step i s) s is)" if "lock_run True s" for s "is"
    using that by (induction "is" arbitrary: s) (simp_all add: lock_run.step)
  from this[OF old] have "lock_run True s" unfolding s_def abandoned_def .
  moreover have "lr_pc s 1 = Spawning \<and> lr_pc s 2 = Spawning"
    by (simp add: s_def abandoned_def left_def lock_step_def lock_free_def Let_def)
  ultimately show ?thesis by blast
qed

text \<open>A client that is not disturbed ends up where \<open>claim_lock\<close> says.\<close>

definition race_of :: "'a host_client_scheme \<Rightarrow> string \<Rightarrow> u64 \<Rightarrow> disk \<Rightarrow> lock_race" where
  "race_of H path stale_after_ms d =
     \<lparr>lr_lock = (if dk_files d path = None then None else Some 0),
      lr_stale = (dk_files d path \<noteq> None \<and> fst (is_abandoned H path stale_after_ms (tick d))),
      lr_pc = \<lambda>i. Claiming\<rparr>"

lemma claim_lock_alone:
  fixes i :: nat
  assumes calm: "no_faults (hs_files H)" and claimed: "claim_lock H path stale_after_ms d = (holds, d')"
  defines "alone \<equiv> (lock_step i ^^ 4) (race_of H path stale_after_ms d)"
  shows "dk_files d path \<noteq> None \<Longrightarrow> holds \<longleftrightarrow> lr_pc alone i = Spawning"
    and "dk_files d path = None \<Longrightarrow> holds \<and> lr_pc (lock_step i (race_of H path stale_after_ms d)) i = Spawning"
proof -
  have four: "(lock_step i ^^ 4) s = lock_step i (lock_step i (lock_step i (lock_step i s)))" for s
    by (simp add: eval_nat_numeral)
  show "holds \<longleftrightarrow> lr_pc alone i = Spawning" if present: "dk_files d path \<noteq> None"
  proof -
    have first: "take_lock (hs_files H) path d = (False, tick d)"
      using present calm by (simp add: take_lock_def)
    obtain old d2 where judged: "is_abandoned H path stale_after_ms (tick d) = (old, d2)"
      by (cases "is_abandoned H path stale_after_ms (tick d)")
    have "holds = old"
    proof (cases old)
      case True
      have "dk_files (release_lock H path d2) path = None" by (simp add: release_lock_calm[OF calm])
      then have "fst (take_lock (hs_files H) path (release_lock H path d2))"
        using calm by (simp add: take_lock_def)
      then show ?thesis using claimed True by (simp add: claim_lock_def first judged)
    qed (use claimed in \<open>simp add: claim_lock_def first judged\<close>)
    moreover have "lr_pc alone i = Spawning \<longleftrightarrow> old"
    proof -
      define at where "at lock stale pc = \<lparr>lr_lock = lock, lr_stale = stale, lr_pc = (\<lambda>i. Claiming)(i := pc)\<rparr>"
        for lock stale pc
      have "race_of H path stale_after_ms d = at (Some 0) old Claiming"
        using present judged by (auto simp: race_of_def at_def)
      moreover have "lock_step i (at (Some 0) old Claiming) = at (Some 0) old Judging"
        "lock_step i (at (Some 0) True Judging) = at (Some 0) True Clearing"
        "lock_step i (at (Some 0) True Clearing) = at None False Retaking"
        "lock_step i (at None False Retaking) = at (Some i) False Spawning"
        "lock_step i (at (Some 0) False Judging) = at (Some 0) False Yielded"
        "lock_step i (at (Some 0) False Yielded) = at (Some 0) False Yielded"
        by (simp_all add: lock_step_def at_def)
      ultimately have "alone = (if old then at (Some i) False Spawning else at (Some 0) False Yielded)"
        unfolding alone_def four by (cases old) simp_all
      then show ?thesis by (simp add: at_def)
    qed
    ultimately show ?thesis by simp
  qed
  show "holds \<and> lr_pc (lock_step i (race_of H path stale_after_ms d)) i = Spawning" if "dk_files d path = None"
    using that claimed calm by (simp add: claim_lock_def take_lock_def lock_step_def race_of_def)
qed

end
