(* ===== verification/Client_Commands.thy ===== *)
theory Client_Commands
  imports Start_Lock Host_Processes Watching
begin

text \<open>
  The commands of the client (\<open>frameworks/src/commands.rs\<close>, \<open>start_command.rs\<close>, \<open>prompt.rs\<close>): opening a
  session, asking the daemon, and starting, deleting and shutting down with what they change on the
  disk. Telemetry is not modelled.
\<close>

subsection \<open>Sessions\<close>

record client_start_report =
  st_response :: string
  st_changed :: "string list"
  st_already_running :: "string list"

record session =
  se_config :: app_config
  se_config_path :: string
  se_paths :: pm3_paths
  se_cfg_dir :: string

definition session_context :: "session \<Rightarrow> string option \<Rightarrow> service_context" where
  "session_context s home =
     \<lparr>sx_cfg_dir = se_cfg_dir s, sx_search_path = pm3_search_path (cfg_pm3 (se_config s)), sx_home = home\<rparr>"

definition open_session :: "'a host_client_scheme \<Rightarrow> string \<Rightarrow> disk \<Rightarrow> (pm3_error + session) \<times> disk" where
  "open_session H config_path d =
     (case load_config_file (hs_files H) (hs_env H) (ho_config H) config_path d of
        (Inl e, d) \<Rightarrow> (Inl (FeAdapter e), d)
      | (Inr loaded, d) \<Rightarrow>
     (case resolve_places H (cfg_pm3 (ld_config loaded)) (host_home H) d of
        Inl e \<Rightarrow> (Inl (FePath e), d)
      | Inr places \<Rightarrow>
          (Inr \<lparr>se_config = ld_config loaded, se_config_path = config_path, se_paths = pl_paths places,
             se_cfg_dir = pl_cfg_dir places\<rparr>, d)))"

definition prepared_session :: "'a host_client_scheme \<Rightarrow> string \<Rightarrow> disk \<Rightarrow> (pm3_error + session) \<times> disk" where
  "prepared_session H config_path d =
     (case open_session H config_path d of
        (Inl e, d) \<Rightarrow> (Inl e, d)
      | (Inr s, d) \<Rightarrow>
     (case ensure_layout (hs_files H) (se_paths s) (se_cfg_dir s) d of
        (Inl e, d) \<Rightarrow> (Inl e, d)
      | (Inr _, d) \<Rightarrow> (Inr s, d)))"

definition session_client :: "session \<Rightarrow> uds_client" where
  "session_client s =
     \<lparr>uc_socket = pa_socket (se_paths s), uc_timeout_ms = pm3_request_timeout_ms (cfg_pm3 (se_config s))\<rparr>"

subsection \<open>Asking the daemon\<close>

definition decode_reply :: "'a host_client_scheme \<Rightarrow> string \<Rightarrow> reply_decode_error + reply_dto" where
  "decode_reply H body = map_sum (\<lambda>reason. \<lparr>rd_reason = reason\<rparr>) id (ho_reply H body)"

definition ask_with ::
  "'a host_client_scheme \<Rightarrow> session \<Rightarrow> string \<Rightarrow> string \<Rightarrow> string option \<Rightarrow> string + string \<Rightarrow> disk \<Rightarrow>
     (pm3_error + reply_dto) \<times> disk" where
  "ask_with H s verb path body binary d =
     (case binary of
        Inl reason \<Rightarrow> (Inl (ServiceProgram reason), d)
      | Inr program \<Rightarrow>
     (case ensure_daemon_running H
         (launch_from_config (se_paths s) (se_config_path s) program (cfg_pm3 (se_config s))) d of
        (Inl e, d) \<Rightarrow> (Inl e, d)
      | (Inr _, d) \<Rightarrow>
     (case client_request (session_client s) (ho_talk H d) verb path body (ho_request_id H d) of
        Inl e \<Rightarrow> (Inl (FeClient e), tick d)
      | Inr reply \<Rightarrow>
          (if hr_status reply \<noteq> OK_STATUS then Inl (RefusedAnswer (hr_status reply) (hr_body reply))
           else map_sum Undecodable id (decode_reply H (hr_body reply)), tick d))))"

definition ask ::
  "'a host_client_scheme \<Rightarrow> session \<Rightarrow> string \<Rightarrow> string \<Rightarrow> string option \<Rightarrow> disk \<Rightarrow> (pm3_error + reply_dto) \<times> disk"
where
  "ask H s verb path body d = ask_with H s verb path body (ho_exe H) d"

definition ask_report ::
  "'a host_client_scheme \<Rightarrow> session \<Rightarrow> string \<Rightarrow> string \<Rightarrow> string option \<Rightarrow> disk \<Rightarrow> (pm3_error + string) \<times> disk"
where
  "ask_report H s verb path body d = apfst (map_sum id re_report) (ask H s verb path body d)"

subsection \<open>Starting\<close>

definition request_never_landed :: "pm3_error \<Rightarrow> bool" where
  "request_never_landed error \<longleftrightarrow>
     (case error of
        FeClient (ConnectFailed path reason) \<Rightarrow> True
      | ServiceProgram reason \<Rightarrow> True
      | DaemonSpawn reason \<Rightarrow> True
      | DaemonUnready path timeout_ms \<Rightarrow> True
      | RefusedAnswer status body \<Rightarrow> True
      | _ \<Rightarrow> False)"

definition finish_start ::
  "host_files \<Rightarrow> pm3_error + reply_dto \<Rightarrow> string list \<Rightarrow> service_undo \<Rightarrow> disk \<Rightarrow> (pm3_error + client_start_report) \<times> disk"
where
  "finish_start E asked changed undo d =
     (case asked of
        Inl error \<Rightarrow> (Inl error, if request_never_landed error then undo_run E undo d else d)
      | Inr reply \<Rightarrow>
          (case settle_start (re_refused reply) (re_unsaved reply) of
             Partial refused \<Rightarrow>
               (Inl (PartialStart (join '', '' refused) (re_report reply)), undo_run_for E refused undo d)
           | Unsaved \<Rightarrow> (Inl (UnsavedStart (re_report reply)), d)
           | Committed \<Rightarrow>
               (Inr \<lparr>st_response = re_report reply, st_changed = changed,
                  st_already_running = re_already_running reply\<rparr>, d)))"

definition canonical_apps_file :: "'a host_client_scheme \<Rightarrow> string \<Rightarrow> disk \<Rightarrow> (pm3_error + string) \<times> disk" where
  "canonical_apps_file H apps_file d = canonicalize_path H apps_file (\<lambda>reason. AppsFile apps_file reason) d"

definition client_start_apps ::
  "'a host_client_scheme \<Rightarrow> string \<Rightarrow> string \<Rightarrow> bool \<Rightarrow> disk \<Rightarrow> (pm3_error + client_start_report) \<times> disk" where
  "client_start_apps H config_path apps_file force d =
     (case prepared_session H config_path d of
        (Inl e, d) \<Rightarrow> (Inl e, d)
      | (Inr s, d) \<Rightarrow>
     (case canonical_apps_file H apps_file d of
        (Inl e, d) \<Rightarrow> (Inl e, d)
      | (Inr resolved, d) \<Rightarrow>
     (case split_apps_file (host_specs.truncate H) (session_context s (host_home H)) resolved force d of
        (Inl e, d) \<Rightarrow> (Inl (FeServiceFile e), d)
      | (Inr split, d) \<Rightarrow>
     (case ask H s ''POST'' APPS_PATH (Some (ho_start_body H (sa_names split))) d of
        (asked, d) \<Rightarrow> finish_start (hs_files H) asked (sa_changed split) (sa_undo split) d))))"

definition start_inline ::
  "'a host_client_scheme \<Rightarrow> string \<Rightarrow> inline_start \<Rightarrow> bool \<Rightarrow> disk \<Rightarrow> (pm3_error + client_start_report) \<times> disk" where
  "start_inline H config_path request force d =
     (case prepared_session H config_path d of
        (Inl e, d) \<Rightarrow> (Inl e, d)
      | (Inr s, d) \<Rightarrow>
     (case prepare_inline (host_specs.truncate H) (session_context s (host_home H)) request force d of
        (Inl e, d) \<Rightarrow> (Inl (FeServiceFile e), d)
      | (Inr prepared, d) \<Rightarrow>
     (case ask H s ''POST'' APPS_PATH (Some (ho_start_body H [is_name request])) d of
        (asked, d) \<Rightarrow>
          finish_start (hs_files H) asked
            (if ps_reconciled prepared = Stale then [is_name request] else []) (ps_undo prepared) d)))"

subsection \<open>The other commands\<close>

definition client_list_apps :: "'a host_client_scheme \<Rightarrow> string \<Rightarrow> bool \<Rightarrow> bool \<Rightarrow> disk \<Rightarrow> (pm3_error + string) \<times> disk" where
  "client_list_apps H config_path json full d =
     (case prepared_session H config_path d of
        (Inl e, d) \<Rightarrow> (Inl e, d)
      | (Inr s, d) \<Rightarrow>
     (case ask H s ''GET'' APPS_PATH None d of
        (Inl e, d) \<Rightarrow> (Inl e, d)
      | (Inr reply, d) \<Rightarrow>
          (Inr (if json then ho_json_list H (re_views reply)
                else if full then render_table (ho_clock H) (re_views reply) FullListing
                else re_report reply), d)))"

definition client_describe_app :: "'a host_client_scheme \<Rightarrow> string \<Rightarrow> string \<Rightarrow> bool \<Rightarrow> disk \<Rightarrow> (pm3_error + string) \<times> disk" where
  "client_describe_app H config_path selector json d =
     (case app_path selector of
        Inl e \<Rightarrow> (Inl (FeSpec e), d)
      | Inr path \<Rightarrow>
     (case prepared_session H config_path d of
        (Inl e, d) \<Rightarrow> (Inl e, d)
      | (Inr s, d) \<Rightarrow>
     (case ask H s ''GET'' path None d of
        (Inl e, d) \<Rightarrow> (Inl e, d)
      | (Inr reply, d) \<Rightarrow>
          (Inr (if json then ho_json_one H (case re_views reply of [] \<Rightarrow> None | v # _ \<Rightarrow> Some v)
                else re_report reply), d))))"

definition act_on_app :: "'a host_client_scheme \<Rightarrow> string \<Rightarrow> string \<Rightarrow> string \<Rightarrow> disk \<Rightarrow> (pm3_error + string) \<times> disk" where
  "act_on_app H config_path selector verb d =
     (case app_action_path selector verb of
        Inl e \<Rightarrow> (Inl (FeSpec e), d)
      | Inr path \<Rightarrow>
     (case prepared_session H config_path d of
        (Inl e, d) \<Rightarrow> (Inl e, d)
      | (Inr s, d) \<Rightarrow> ask_report H s ''POST'' path None d))"

definition client_signal_app :: "'a host_client_scheme \<Rightarrow> string \<Rightarrow> string \<Rightarrow> string \<Rightarrow> disk \<Rightarrow> (pm3_error + string) \<times> disk" where
  "client_signal_app H config_path selector signal d =
     (case app_action_path selector SIGNAL_ACTION of
        Inl e \<Rightarrow> (Inl (FeSpec e), d)
      | Inr path \<Rightarrow>
     (case prepared_session H config_path d of
        (Inl e, d) \<Rightarrow> (Inl e, d)
      | (Inr s, d) \<Rightarrow> ask_report H s ''POST'' path (Some (ho_signal_body H signal)) d))"

definition client_delete_app :: "'a host_client_scheme \<Rightarrow> string \<Rightarrow> string \<Rightarrow> disk \<Rightarrow> (pm3_error + string) \<times> disk" where
  "client_delete_app H config_path selector d =
     (case app_path selector of
        Inl e \<Rightarrow> (Inl (FeSpec e), d)
      | Inr path \<Rightarrow>
     (case prepared_session H config_path d of
        (Inl e, d) \<Rightarrow> (Inl e, d)
      | (Inr s, d) \<Rightarrow>
     (case ask H s ''DELETE'' path None d of
        (Inl e, d) \<Rightarrow> (Inl e, d)
      | (Inr deleted, d) \<Rightarrow>
          (Inr (re_report deleted),
           foldl (\<lambda>d name. forget_service (hs_files H) (se_cfg_dir s) name d) d
             (case re_service deleted of Some name \<Rightarrow> [name] | None \<Rightarrow> re_deleted deleted)))))"

definition STOP_SIGNAL_TERM :: string where
  "STOP_SIGNAL_TERM = ''TERM''"

definition report_gone_daemon ::
  "'a host_client_scheme \<Rightarrow> uds_client \<Rightarrow> pm3_paths \<Rightarrow> string option \<Rightarrow> disk \<Rightarrow> (pm3_error + string) \<times> disk" where
  "report_gone_daemon H client paths stopped d =
     (case healthy_now H client d of
        (True, d) \<Rightarrow> (Inl (DaemonPidUnknown (pa_pid_file paths)), d)
      | (False, d) \<Rightarrow> (Inr (render_daemon_gone stopped), d))"

definition terminate_daemon :: "'a host_client_scheme \<Rightarrow> pm3_config \<Rightarrow> u32 \<Rightarrow> disk \<Rightarrow> (signal_error + unit) \<times> disk" where
  "terminate_daemon H pm3 i d =
     (let (outcome, commands) =
        kill_terminate (with_stop_signal STOP_SIGNAL_TERM (pm3_command_timeout_ms pm3))
          (\<lambda>n. hs_run H (d\<lparr>dk_calls := dk_calls d + n\<rparr>)) i ProcessGroup in
      (outcome, d\<lparr>dk_calls := dk_calls d + length commands\<rparr>))"

definition shutdown_daemon :: "'a host_client_scheme \<Rightarrow> string \<Rightarrow> bool \<Rightarrow> disk \<Rightarrow> (pm3_error + string) \<times> disk" where
  "shutdown_daemon H config_path with_services d =
     (case prepared_session H config_path d of
        (Inl e, d) \<Rightarrow> (Inl e, d)
      | (Inr s, d) \<Rightarrow>
     (let pm3 = cfg_pm3 (se_config s); client = session_client s in
      case healthy_now H client d of
        (False, d) \<Rightarrow> (Inr DAEMON_NOT_RUNNING, d)
      | (True, d) \<Rightarrow>
     (case (if with_services then apfst (map_sum id Some) (ask_report H s ''POST'' SERVICES_STOP_ALL_PATH None d)
            else (Inr None, d)) of
        (Inl e, d) \<Rightarrow> (Inl e, d)
      | (Inr stopped, d) \<Rightarrow>
     (case read_pid_file (hs_files H) (se_paths s) d of
        (None, d) \<Rightarrow> report_gone_daemon H client (se_paths s) stopped d
      | (Some i, d) \<Rightarrow>
     (case terminate_daemon H pm3 i d of
        (Inl e, d) \<Rightarrow> (Inl (FeSignal e), d)
      | (Inr _, d) \<Rightarrow>
          (if wait_until_released (ho_present H d (pa_socket (se_paths s)))
                (pm3_start_timeout_ms pm3) (pm3_daemon_poll_interval_ms pm3)
           then Inr (render_daemon_stopped stopped i)
           else Inl (DaemonLingering i (pa_socket (se_paths s)) (pm3_start_timeout_ms pm3)), tick d))))))"

subsection \<open>The start command\<close>

text \<open>What \<open>start\<close> was given on the command line (\<open>cli.rs\<close>).\<close>

record start_args =
  ga_name :: "string option"
  ga_cwd :: "string option"
  ga_cron :: "string option"
  ga_no_autorestart :: bool
  ga_network :: bool
  ga_writable_dirs :: "string list"
  ga_readable_dirs :: "string list"
  ga_max_memory :: "string option"
  ga_ready_exec :: "string list"
  ga_ready_tcp :: "string option"
  ga_listen_timeout_ms :: "u64 option"
  ga_stop_exit_codes :: "int list"
  ga_force :: bool
  ga_target :: "string list"

definition MISSING_COMMAND :: string where
  "MISSING_COMMAND = ''--name needs a program to run after it''"

definition AMBIGUOUS_TARGET :: string where
  "AMBIGUOUS_TARGET =
     ''without --name, start takes exactly one apps file; pm3 options must come before the program''"

definition inline_request :: "start_args \<Rightarrow> string \<Rightarrow> string \<Rightarrow> string list \<Rightarrow> inline_start" where
  "inline_request a name program rest =
     \<lparr>is_name = name, is_program = program, is_args = rest, is_cwd = ga_cwd a, is_cron = ga_cron a,
      is_autorestart = (if ga_no_autorestart a then Some False else None), is_network = ga_network a,
      is_writable_dirs = ga_writable_dirs a, is_readable_dirs = ga_readable_dirs a,
      is_max_memory = ga_max_memory a, is_ready_exec = ga_ready_exec a, is_ready_tcp = ga_ready_tcp a,
      is_listen_timeout_ms = ga_listen_timeout_ms a, is_stop_exit_codes = ga_stop_exit_codes a\<rparr>"

definition stale_running :: "string list \<Rightarrow> string list \<Rightarrow> string list" where
  "stale_running changed already_running = filter (List.member already_running) changed"

text \<open>The terminal: what is still to be read and what has been written.\<close>

record terminal =
  tm_input :: string
  tm_output :: string

definition ascii_lower :: "char \<Rightarrow> char" where
  "ascii_lower c = (let b = of_char c :: nat in if 65 \<le> b \<and> b \<le> 90 then char_of (b + 32) else c)"

definition read_line :: "string \<Rightarrow> string \<times> string" where
  "read_line input =
     (let line = takeWhile (\<lambda>c. c \<noteq> CHR 0x0A) input in
      case drop (length line) input of [] \<Rightarrow> (line, []) | c # rest \<Rightarrow> (line @ [c], rest))"

definition confirm_restart :: "string \<Rightarrow> terminal \<Rightarrow> bool \<times> terminal" where
  "confirm_restart name t =
     (let (answer, rest) = read_line (tm_input t);
          shown = ''config changed for '' @ quoted name @ ''; restart to apply? [y/N] '' @
            (if ends_with [CHR 0x0A] answer then [] else [CHR 0x0A]);
          word = map ascii_lower (trim answer) in
      (word = ''y'' \<or> word = ''yes'', \<lparr>tm_input = rest, tm_output = tm_output t @ shown\<rparr>))"

definition keep_old_config_hint :: "string \<Rightarrow> string" where
  "keep_old_config_hint name =
     quoted name @ '' keeps running with the previous config; run '' @ quoted (''pm3 restart '' @ name) @
     '' to apply the new one''"

fun offer_each ::
  "'a host_client_scheme \<Rightarrow> string \<Rightarrow> string list \<Rightarrow> terminal \<Rightarrow> disk \<Rightarrow>
     (pm3_error + string list) \<times> terminal \<times> disk" where
  "offer_each H config [] t d = (Inr [], t, d)"
| "offer_each H config (name # names) t d =
     (case confirm_restart name t of
        (True, t) \<Rightarrow>
          (case act_on_app H config name RESTART_ACTION d of
             (Inl e, d) \<Rightarrow> (Inl e, t, d)
           | (Inr line, d) \<Rightarrow> apfst (map_sum id ((#) line)) (offer_each H config names t d))
      | (False, t) \<Rightarrow>
          apfst (map_sum id ((#) (keep_old_config_hint name))) (offer_each H config names t d))"

definition offer_restarts ::
  "'a host_client_scheme \<Rightarrow> string \<Rightarrow> client_start_report \<Rightarrow> terminal \<Rightarrow> disk \<Rightarrow>
     (pm3_error + string option) \<times> terminal \<times> disk" where
  "offer_restarts H config report t d =
     apfst (map_sum id (\<lambda>lines. if lines = [] then None else Some (join [CHR 0x0A] lines)))
       (offer_each H config (stale_running (st_changed report) (st_already_running report)) t d)"

definition emit :: "string \<Rightarrow> terminal \<Rightarrow> terminal" where
  "emit line t = t\<lparr>tm_output := tm_output t @ line @ [CHR 0x0A]\<rparr>"

definition run_start ::
  "'a host_client_scheme \<Rightarrow> string \<Rightarrow> start_args \<Rightarrow> terminal \<Rightarrow> disk \<Rightarrow>
     (pm3_error + string option) \<times> terminal \<times> disk" where
  "run_start H config a t d =
     (case (case ga_name a of
              None \<Rightarrow>
                (case ga_target a of
                   [apps_file] \<Rightarrow> client_start_apps H config apps_file (ga_force a) d
                 | _ \<Rightarrow> (Inl (InlineUsage AMBIGUOUS_TARGET), d))
            | Some name \<Rightarrow>
                (case (case ga_cron a of
                         None \<Rightarrow> Inr () | Some cron \<Rightarrow> validate_cron (hs_cron H) (hs_rng H d) name cron) of
                   Inl e \<Rightarrow> (Inl (FeCron e), d)
                 | Inr _ \<Rightarrow>
                     (case ga_target a of
                        [] \<Rightarrow> (Inl (InlineUsage MISSING_COMMAND), d)
                      | program # rest \<Rightarrow> start_inline H config (inline_request a name program rest) (ga_force a) d))) of
        (Inl e, d) \<Rightarrow> (Inl e, t, d)
      | (Inr report, d) \<Rightarrow> offer_restarts H config report (emit (st_response report) t) d)"

subsection \<open>What asking the daemon does to the disk\<close>

text \<open>The files that starting a daemon may write: its lock and its log.\<close>

definition boot_files :: "pm3_paths \<Rightarrow> string set" where
  "boot_files paths = {pa_lock_file paths, pa_daemon_log paths}"

definition same_outside :: "string set \<Rightarrow> disk \<Rightarrow> disk \<Rightarrow> bool" where
  "same_outside S d d' \<longleftrightarrow> (\<forall>p. p \<notin> S \<longrightarrow> dk_files d' p = dk_files d p)"

lemma same_outside_trans: "same_outside S d d1 \<Longrightarrow> same_outside S d1 d' \<Longrightarrow> same_outside S d d'"
  by (simp add: same_outside_def)

lemma same_outside_files: "dk_files d' = dk_files d \<Longrightarrow> same_outside S d d'"
  by (simp add: same_outside_def)

lemma take_lock_frame: "path \<in> S \<Longrightarrow> same_outside S d (snd (take_lock E path d))"
  by (auto simp: same_outside_def take_lock_def set_contents_def split: option.split)

lemma release_lock_frame: "path \<in> S \<Longrightarrow> same_outside S d (release_lock H path d)"
  by (auto simp: same_outside_def release_lock_def remove_runtime_file_def intro!: remove_if_present_other)

lemma is_abandoned_files [simp]: "dk_files (snd (is_abandoned H path stale_after_ms d)) = dk_files d"
proof -
  have "dk_files (snd (lock_age H path d)) = dk_files d"
    using reads_keep_files(2)[of "hs_files H" path d]
    by (auto simp: lock_age_def simp del: reads_keep_files split: prod.splits sum.splits)
  then show ?thesis by (auto simp: is_abandoned_def split: prod.splits option.splits)
qed

lemma claim_lock_frame:
  assumes "path \<in> S"
  shows "same_outside S d (snd (claim_lock H path stale_after_ms d))"
proof -
  obtain first d1 where took: "take_lock (hs_files H) path d = (first, d1)"
    by (cases "take_lock (hs_files H) path d")
  obtain old d2 where judged: "is_abandoned H path stale_after_ms d1 = (old, d2)"
    by (cases "is_abandoned H path stale_after_ms d1")
  have one: "same_outside S d d1" using take_lock_frame[OF assms, of d "hs_files H"] took by simp
  have "same_outside S d1 d2"
    using is_abandoned_files[of H path stale_after_ms d1] judged by (intro same_outside_files) simp
  with one have two: "same_outside S d d2" by (rule same_outside_trans)
  have three: "same_outside S d (snd (take_lock (hs_files H) path (release_lock H path d2)))"
    by (rule same_outside_trans[OF same_outside_trans[OF two release_lock_frame[OF assms, of _ H]]
          take_lock_frame[OF assms]])
  show ?thesis using one two three by (cases first; cases old) (simp_all add: claim_lock_def took judged)
qed

lemma spawn_daemon_frame:
  "pa_daemon_log (dl_paths boot) \<in> S \<Longrightarrow> same_outside S d (snd (spawn_daemon H boot d))"
  by (auto simp: same_outside_def spawn_daemon_def append_private_def set_contents_def tick_def split: option.split)

lemma ensure_daemon_running_frame:
  "same_outside (boot_files (dl_paths boot)) d (snd (ensure_daemon_running H boot d))"
proof -
  let ?S = "boot_files (dl_paths boot)" and ?lock = "pa_lock_file (dl_paths boot)"
  have lock: "?lock \<in> ?S" and log: "pa_daemon_log (dl_paths boot) \<in> ?S" by (simp_all add: boot_files_def)
  obtain up d1 where look: "healthy_now H (launch_client boot) d = (up, d1)"
    by (cases "healthy_now H (launch_client boot) d")
  have d1: "same_outside ?S d d1" using healthy_now_files[of H "launch_client boot" d] look
    by (intro same_outside_files) simp
  obtain held d2 where claimed: "claim_lock H ?lock (budget_ms boot) d1 = (held, d2)"
    by (cases "claim_lock H ?lock (budget_ms boot) d1")
  have d2: "same_outside ?S d1 d2" using claim_lock_frame[OF lock] claimed by (metis snd_conv)
  obtain r d3 where spawned: "spawn_daemon H boot d2 = (r, d3)" by (cases "spawn_daemon H boot d2")
  have d3: "same_outside ?S d2 d3" using spawn_daemon_frame[OF log] spawned by (metis snd_conv)
  have waits: "same_outside ?S x (snd (wait_until_ready H (launch_client boot) boot x))" for x
    by (simp add: same_outside_files)
  have released: "same_outside ?S x (release_lock H ?lock x)" for x by (rule release_lock_frame[OF lock])
  show ?thesis
  proof (cases up)
    case True
    with d1 show ?thesis by (simp add: ensure_daemon_running_def look)
  next
    case False
    note step = ensure_daemon_running_def[of H boot d, unfolded Let_def look prod.case]
    show ?thesis
    proof (cases held)
      case True
      obtain w d4 where waited: "wait_until_ready H (launch_client boot) boot d3 = (w, d4)"
        by (cases "wait_until_ready H (launch_client boot) boot d3")
      have d4: "same_outside ?S d2 d4" using same_outside_trans[OF d3] waits[of d3] waited by simp
      have "same_outside ?S d2 (release_lock H ?lock d4)" "same_outside ?S d2 (release_lock H ?lock d3)"
        by (rule same_outside_trans[OF d4 released], rule same_outside_trans[OF d3 released])
      then have "same_outside ?S d2 (snd (ensure_daemon_running H boot d))"
        using False True by (cases r) (simp_all add: step claimed spawned waited)
      with same_outside_trans[OF d1 d2] show ?thesis by (rule same_outside_trans)
    next
      case no: False
      have "same_outside ?S d2 (snd (ensure_daemon_running H boot d))"
        using False no waits[of d2] by (simp add: step claimed)
      with same_outside_trans[OF d1 d2] show ?thesis by (rule same_outside_trans)
    qed
  qed
qed

lemma ask_frame: "same_outside (boot_files (se_paths s)) d (snd (ask H s verb path body d))"
proof (cases "ho_exe H")
  case (Inr program)
  let ?boot = "launch_from_config (se_paths s) (se_config_path s) program (cfg_pm3 (se_config s))"
  have paths: "dl_paths ?boot = se_paths s" by (simp add: launch_from_config_def Let_def)
  obtain r d1 where ran: "ensure_daemon_running H ?boot d = (r, d1)" by (cases "ensure_daemon_running H ?boot d")
  have "same_outside (boot_files (se_paths s)) d d1"
    using ensure_daemon_running_frame[of ?boot d H] by (simp add: paths ran)
  then show ?thesis
    by (auto simp: ask_def ask_with_def Inr ran same_outside_def split: sum.split)
qed (simp add: ask_def ask_with_def same_outside_def)

subsection \<open>A start that did not happen leaves no service file\<close>

lemma write_service_file_undo:
  "write_service_file E service path contents force undo d = (r, undo', d') \<Longrightarrow>
    us_path ` set undo' \<subseteq> insert path (us_path ` set undo)"
  by (auto simp: write_service_file_def remember_def split: prod.splits sum.splits reconciled.splits)

lemma split_entries_undo_paths:
  "split_entries E ctx force entries split d = (Inr s, d') \<Longrightarrow>
    us_path ` set (sa_undo s) \<subseteq>
      us_path ` set (sa_undo split) \<union> {p. \<exists>name. service_file_of (sx_cfg_dir ctx) name = Inr p}"
proof (induction entries arbitrary: split d)
  case (Cons entry entries)
  obtain path where path: "service_file_of (sx_cfg_dir ctx) (ae_name entry) = Inr path"
    using Cons.prems by (auto split: sum.splits)
  define contents where "contents = encode_service_file (fold_entry entry (sx_home ctx))"
  obtain r1 undo1 d1 where wrote:
      "write_service_file E (ae_name entry) path contents force (sa_undo split) d = (r1, undo1, d1)"
    using prod_cases3 by blast
  note step = Cons.prems[unfolded split_entries.simps path sum.case Let_def contents_def[symmetric] wrote prod.case]
  obtain split1 where rest: "split_entries E ctx force entries split1 d1 = (Inr s, d')" "sa_undo split1 = undo1"
  proof (cases r1)
    case (Inr done1)
    show thesis
    proof (cases done1)
      case Unchanged
      with step Inr that show thesis by simp
    next
      case Stale
      with step Inr that show thesis by simp
    qed
  qed (use step in simp)
  show ?case using Cons.IH[OF rest(1)] write_service_file_undo[OF wrote] rest(2) path by blast
qed simp

lemma split_apps_file_undoes:
  assumes calm: "no_faults (hs_files H)" and ran: "split_apps_file H ctx apps_file force d = (Inr s, d')"
  shows "undoes (sa_undo s) (dk_files d) (dk_files d')"
    and "us_path ` set (sa_undo s) \<subseteq> {p. \<exists>name. service_file_of (sx_cfg_dir ctx) name = Inr p}"
proof -
  obtain a d1 where load: "load_apps_file H apps_file d = (a, d1)" by (cases "load_apps_file H apps_file d")
  have files: "dk_files d1 = dk_files d"
    using load reads_keep_files(1)[of "hs_files H" apps_file d]
    by (cases "read_to_string (hs_files H) apps_file d")
      (auto simp: load_apps_file_def read_substituted_def split: sum.splits)
  obtain apps where apps: "a = Inr apps" using ran load by (cases a) (simp_all add: split_apps_file_def)
  have run: "split_entries (hs_files H) ctx force apps \<lparr>sa_names = [], sa_changed = [], sa_undo = []\<rparr> d1 = (Inr s, d')"
    using ran load apps by (simp add: split_apps_file_def)
  have names: "distinct (map ae_name apps)"
    using load apps parse_apps_file_ok(2) by (auto simp: load_apps_file_def split: prod.splits sum.splits)
  have "undoes [] (dk_files d) (dk_files d1)" by (simp add: undoes_def files)
  with split_entries_calm[OF calm run, of "dk_files d"] names
  show "undoes (sa_undo s) (dk_files d) (dk_files d')" by simp
  show "us_path ` set (sa_undo s) \<subseteq> {p. \<exists>name. service_file_of (sx_cfg_dir ctx) name = Inr p}"
    using split_entries_undo_paths[OF run] by simp
qed

lemma last_path_join: "rel \<noteq> [] \<Longrightarrow> last (path_join base rel) = last rel"
  by (auto simp: path_join_def)

lemma service_file_not_boot:
  assumes "service_file_of cfg_dir name = Inr p"
  shows "p \<notin> boot_files (resolve_paths roots)"
proof -
  have "last p = CHR ''l''" using sidecar_of_service(2)[OF assms] by (simp add: last_path_join)
  moreover have "last q \<noteq> CHR ''l''" if "q \<in> boot_files (resolve_paths roots)" for q
    using that by (auto simp: boot_files_def resolve_paths_def last_path_join LOCK_FILE_def DAEMON_LOG_FILE_def)
  ultimately show ?thesis by blast
qed

lemma undo_after_frame:
  assumes calm: "no_faults E" and undoes: "undoes undo f (dk_files d)" and frame: "same_outside S d d1"
    and disjoint: "us_path ` set undo \<inter> S = {}" and p: "p \<notin> S"
  shows "dk_files (undo_run E undo d1) p = f p"
proof -
  have kept: "dk_files d1 (us_path step) = dk_files d (us_path step)" "us_path step \<notin> S" if "step \<in> set undo" for step
    using that frame disjoint by (auto simp: same_outside_def)
  have "undoes undo (\<lambda>q. if q \<in> S then dk_files d1 q else f q) (dk_files d1)"
    using undoes frame kept by (auto simp: undoes_def same_outside_def)
  from undo_run_restores[OF calm this] p show ?thesis by simp
qed

lemma load_config_file_files: "dk_files (snd (load_config_file E process_env read_yaml path d)) = dk_files d"
  using reads_keep_files(1)[of E path d]
  by (auto simp: load_config_file_def load_config_def simp del: reads_keep_files split: prod.splits sum.splits)

lemma open_session_result:
  assumes "open_session H config_path d = (Inr s, d')"
  shows "dk_files d' = dk_files d" and "\<exists>roots. se_paths s = resolve_paths roots"
  using assms load_config_file_files[of "hs_files H" "hs_env H" "ho_config H" config_path d]
  by (auto simp: open_session_def resolve_places_def split: prod.splits sum.splits)

lemma prepared_session_calm:
  assumes calm: "no_faults (hs_files H)" and ran: "prepared_session H config_path d = (Inr s, d')"
  shows "dk_files d' = dk_files d" and "\<exists>roots. se_paths s = resolve_paths roots"
proof -
  obtain d1 where opened: "open_session H config_path d = (Inr s, d1)"
    using ran by (auto simp: prepared_session_def split: prod.splits sum.splits)
  note session = open_session_result[OF opened]
  obtain d2 where "ensure_layout (hs_files H) (se_paths s) (se_cfg_dir s) d1 = (Inr (), d2)" "dk_files d2 = dk_files d1"
    using ensure_layout_calm[OF calm, of "se_paths s" "se_cfg_dir s" d1] by blast
  then show "dk_files d' = dk_files d" "\<exists>roots. se_paths s = resolve_paths roots"
    using ran session by (simp_all add: prepared_session_def opened)
qed

lemma truncated_files [simp]: "hs_files (host_specs.truncate H) = hs_files H"
  by (simp add: host_specs.truncate_def)

text \<open>
  On a calm disk a start whose request never reached the daemon, or was refused by it, changes no file
  but the lock and the log of the daemon it tried to start.
\<close>

lemma unlanded_start_leaves_files:
  assumes calm: "no_faults (hs_files H)"
    and ran: "client_start_apps H config_path apps_file force d = (Inl error, d')"
    and unlanded: "request_never_landed error"
  obtains s d1 where "prepared_session H config_path d = (Inr s, d1)" "same_outside (boot_files (se_paths s)) d d'"
proof -
  obtain s d1 where prepared: "prepared_session H config_path d = (Inr s, d1)"
  proof (cases "prepared_session H config_path d")
    case (Pair a d1)
    show thesis
    proof (cases a)
      case (Inl e)
      have "\<not> request_never_landed e"
        using Pair Inl ensure_layout_calm[OF calm]
        by (auto simp: prepared_session_def open_session_def request_never_landed_def
            split: prod.splits sum.splits) (metis Inl_Inr_False Pair_inject)
      with ran unlanded Pair Inl show thesis by (simp add: client_start_apps_def)
    qed (use that Pair in simp)
  qed
  obtain roots where roots: "se_paths s = resolve_paths roots" and d1: "dk_files d1 = dk_files d"
    using prepared_session_calm[OF calm prepared] by blast
  let ?ctx = "session_context s (host_home H)" and ?S = "boot_files (se_paths s)"
  obtain resolved d2 where canonical: "canonical_apps_file H apps_file d1 = (Inr resolved, d2)"
    using ran unlanded
    by (cases "canonical_apps_file H apps_file d1")
      (auto simp: client_start_apps_def prepared canonical_apps_file_def canonicalize_path_def request_never_landed_def
        split: option.splits)
  have d2: "dk_files d2 = dk_files d1"
    using canonical by (auto simp: canonical_apps_file_def canonicalize_path_def split: option.splits)
  obtain sp d3 where split: "split_apps_file (host_specs.truncate H) ?ctx resolved force d2 = (Inr sp, d3)"
    using ran unlanded
    by (cases "split_apps_file (host_specs.truncate H) ?ctx resolved force d2")
      (auto simp: client_start_apps_def prepared canonical request_never_landed_def split: sum.splits)
  have undo: "undoes (sa_undo sp) (dk_files d2) (dk_files d3)"
      "us_path ` set (sa_undo sp) \<subseteq> {p. \<exists>name. service_file_of (se_cfg_dir s) name = Inr p}"
    using split_apps_file_undoes[OF _ split] calm by (simp_all add: session_context_def)
  obtain asked d4 where asked: "ask H s ''POST'' APPS_PATH (Some (ho_start_body H (sa_names sp))) d3 = (asked, d4)"
    by (cases "ask H s ''POST'' APPS_PATH (Some (ho_start_body H (sa_names sp))) d3")
  have frame: "same_outside ?S d3 d4" using ask_frame asked by (metis snd_conv)
  have "us_path ` set (sa_undo sp) \<inter> ?S = {}"
    using undo(2) service_file_not_boot[of "se_cfg_dir s"] unfolding roots by blast
  note restored = undo_after_frame[OF calm undo(1) frame this]
  have "d' = undo_run (hs_files H) (sa_undo sp) d4"
    using ran unlanded
    by (auto simp: client_start_apps_def prepared canonical split asked finish_start_def request_never_landed_def
        split: sum.splits start_settlement.splits)
  with restored d1 d2 have "same_outside ?S d d'" by (simp add: same_outside_def)
  with prepared show thesis by (rule that)
qed

text \<open>After a partial start only the files of the refused services are put back.\<close>

lemma undo_run_for_filter:
  "undo_run_for E services undo d = undo_run E (filter (\<lambda>step. List.member services (us_service step)) undo) d"
proof -
  have "foldl (\<lambda>d step. if List.member services (us_service step) then undo_apply E step d else d) d undo =
      foldl (\<lambda>d step. undo_apply E step d) d (filter (\<lambda>step. List.member services (us_service step)) undo)"
    by (induction undo arbitrary: d) simp_all
  then show ?thesis by (simp add: undo_run_for_def undo_run_def)
qed

lemma partial_start_files:
  assumes calm: "no_faults E" and undoes: "undoes undo f (dk_files d)" and refused: "re_refused reply \<noteq> []"
    and finish: "finish_start E (Inr reply) changed undo d = (r, d')"
  shows "r = Inl (PartialStart (join '', '' (re_refused reply)) (re_report reply))"
    and "dk_files d' p =
      (if \<exists>step\<in>set undo. us_path step = p \<and> us_service step \<in> set (re_refused reply) then f p else dk_files d p)"
proof -
  let ?mine = "filter (\<lambda>step. List.member (re_refused reply) (us_service step)) undo"
  have d': "d' = undo_run E ?mine d" and r: "r = Inl (PartialStart (join '', '' (re_refused reply)) (re_report reply))"
    using finish refused by (simp_all add: finish_start_def settle_start_def undo_run_for_filter)
  let ?g = "\<lambda>q. if q \<in> us_path ` set ?mine then f q else dk_files d q"
  have "distinct (map us_path ?mine)" using undoes by (simp add: undoes_def distinct_map_filter)
  then have "undoes ?mine ?g (dk_files d)" using undoes by (auto simp: undoes_def)
  from undo_run_restores[OF calm this] show "dk_files d' p =
      (if \<exists>step\<in>set undo. us_path step = p \<and> us_service step \<in> set (re_refused reply) then f p else dk_files d p)"
    by (auto simp: d')
  show "r = Inl (PartialStart (join '', '' (re_refused reply)) (re_report reply))" by (rule r)
qed

text \<open>
  A start lock or log that cannot be opened is reported as a failed layout, which does not count as a
  request that never landed: the service files of that start stay.
\<close>

lemma unopened_log_keeps_files:
  "spawn_daemon H boot d = (Inl (LayoutFailed path reason), d') \<Longrightarrow>
    finish_start E (Inl (LayoutFailed path reason)) changed undo d' = (Inl (LayoutFailed path reason), d')"
  by (simp add: finish_start_def request_never_landed_def)

subsection \<open>Deleting and restarting\<close>

definition forgotten_files :: "string \<Rightarrow> string list \<Rightarrow> string set" where
  "forgotten_files cfg_dir names =
     {p. \<exists>name\<in>set names. \<exists>path. service_file_of cfg_dir name = Inr path \<and>
        p \<in> {path, with_extension path ''env'', with_extension path ''enc.yaml''}}"

lemma forget_all_files:
  assumes "no_faults E"
  shows "dk_files (foldl (\<lambda>d name. forget_service E cfg_dir name d) d names) p =
    (if p \<in> forgotten_files cfg_dir names then None else dk_files d p)"
proof (induction names arbitrary: d)
  case (Cons name names)
  have all: "forgotten_files cfg_dir (name # names) = forgotten_files cfg_dir names \<union>
      (case service_file_of cfg_dir name of
         Inl e \<Rightarrow> {} | Inr path \<Rightarrow> {path, with_extension path ''env'', with_extension path ''enc.yaml''})"
    by (auto simp: forgotten_files_def split: sum.split)
  show ?case
  proof (cases "service_file_of cfg_dir name")
    case (Inl e)
    then have "forget_service E cfg_dir name d = d" by (simp add: forget_service_def)
    with Cons[of d] Inl all show ?thesis by simp
  next
    case (Inr path)
    then show ?thesis
      using Cons[of "forget_service E cfg_dir name d"] by (simp add: all forget_files[OF assms Inr])
  qed
qed (simp add: forgotten_files_def)

lemma delete_forgets:
  assumes calm: "no_faults (hs_files H)" and ran: "client_delete_app H config_path selector d = (Inr report, d')"
  obtains s reply d1 d2 path where "app_path selector = Inr path" "prepared_session H config_path d = (Inr s, d1)"
    "ask H s ''DELETE'' path None d1 = (Inr reply, d2)" "report = re_report reply"
    "\<And>p. dk_files d' p =
       (if p \<in> forgotten_files (se_cfg_dir s)
            (case re_service reply of Some name \<Rightarrow> [name] | None \<Rightarrow> re_deleted reply)
        then None else dk_files d2 p)"
proof -
  obtain s reply d1 d2 path where steps: "app_path selector = Inr path"
      "prepared_session H config_path d = (Inr s, d1)" "ask H s ''DELETE'' path None d1 = (Inr reply, d2)"
    using ran by (auto simp: client_delete_app_def split: sum.splits prod.splits)
  with ran have result: "report = re_report reply"
      "d' = foldl (\<lambda>d name. forget_service (hs_files H) (se_cfg_dir s) name d) d2
         (case re_service reply of Some name \<Rightarrow> [name] | None \<Rightarrow> re_deleted reply)"
    by (simp_all add: client_delete_app_def)
  show thesis by (rule that[OF steps result(1)]) (simp only: result(2) forget_all_files[OF calm])
qed

text \<open>A command for a selector that could reach another path is refused before anything is touched.\<close>

lemma unaddressable_touches_nothing:
  "addressable selector = Inl e \<Longrightarrow>
    client_describe_app H config_path selector json d = (Inl (FeSpec e), d) \<and>
    act_on_app H config_path selector verb d = (Inl (FeSpec e), d) \<and>
    client_signal_app H config_path selector signal d = (Inl (FeSpec e), d) \<and>
    client_delete_app H config_path selector d = (Inl (FeSpec e), d)"
  by (simp add: client_describe_app_def act_on_app_def client_signal_app_def client_delete_app_def app_path_def app_action_path_def)

text \<open>Only services that were running with an older declaration are offered a restart.\<close>

lemma nothing_offered:
  "set (st_changed report) \<inter> set (st_already_running report) = {} \<Longrightarrow>
    offer_restarts H config report t d = (Inr None, t, d)"
proof -
  assume "set (st_changed report) \<inter> set (st_already_running report) = {}"
  then have "stale_running (st_changed report) (st_already_running report) = []"
    by (auto simp: stale_running_def filter_empty_conv)
  then show ?thesis by (simp add: offer_restarts_def)
qed

end
