(* ===== verification/Log_Command.thy ===== *)
theory Log_Command
  imports Client_Commands
begin

text \<open>
  The command that shows, follows and clears service logs (\<open>frameworks/src/logs.rs\<close>): which files a
  request names, how their lines are labelled and put together, and which failures are fatal.
\<close>

subsection \<open>Requests and targets\<close>

datatype log_action = ShowLogs | ClearLogs

record log_request =
  lq_names :: "string list"
  lq_lines :: "nat option"
  lq_err :: bool
  lq_all :: bool
  lq_follow :: bool
  lq_action :: log_action
  lq_polls :: u32

record log_target =
  lt_name :: string
  lt_stream :: log_stream
  lt_path :: string
  lt_prefix :: string

definition FOLLOW_FOREVER :: u32 where
  "FOLLOW_FOREVER = -1"

definition service_name_of :: "string option \<Rightarrow> string option" where
  "service_name_of file_name =
     (case file_name of
        None \<Rightarrow> None
      | Some shown \<Rightarrow>
     (case strip_suffix (''.'' @ SERVICE_FILE_SUFFIX) shown of
        None \<Rightarrow> None
      | Some stem \<Rightarrow> (case validate_app_name stem of Inl e \<Rightarrow> None | Inr _ \<Rightarrow> Some stem)))"

definition declared_service_names :: "'a host_client_scheme \<Rightarrow> string \<Rightarrow> disk \<Rightarrow> string list" where
  "declared_service_names H cfg_dir d =
     (case ho_entries H d cfg_dir of
        None \<Rightarrow> []
      | Some entries \<Rightarrow> sort (List.map_filter service_name_of entries))"

fun validate_all_names :: "string list \<Rightarrow> pm3_error + string list" where
  "validate_all_names [] = Inr []"
| "validate_all_names (name # names) =
     (case validate_app_name name of
        Inl e \<Rightarrow> Inl (FeSpec e)
      | Inr _ \<Rightarrow> map_sum id ((#) name) (validate_all_names names))"

definition resolve_names :: "'a host_client_scheme \<Rightarrow> session \<Rightarrow> string list \<Rightarrow> disk \<Rightarrow> pm3_error + string list" where
  "resolve_names H s names d =
     (if names = [] then Inr (declared_service_names H (se_cfg_dir s) d) else validate_all_names names)"

definition streams_of :: "bool \<Rightarrow> bool \<Rightarrow> log_stream list" where
  "streams_of err all = (if all then [Stdout, Stderr] else if err then [Stderr] else [Stdout])"

primrec stream_tag :: "log_stream \<Rightarrow> string" where
  "stream_tag Stdout = ''out''"
| "stream_tag Stderr = ''err''"

definition prefix_of :: "string \<Rightarrow> log_stream \<Rightarrow> bool \<Rightarrow> bool \<Rightarrow> string" where
  "prefix_of name stream verbatim all =
     (if verbatim then []
      else if all then name @ '' ['' @ stream_tag stream @ ''] | ''
      else name @ '' | '')"

definition resolve_targets ::
  "'a host_client_scheme \<Rightarrow> session \<Rightarrow> string list \<Rightarrow> bool \<Rightarrow> bool \<Rightarrow> disk \<Rightarrow> pm3_error + log_target list" where
  "resolve_targets H s names err all d =
     (case resolve_names H s names d of
        Inl e \<Rightarrow> Inl e
      | Inr names \<Rightarrow>
          (let verbatim = (if all then False else length names = 1) in
           Inr (concat (map (\<lambda>name. map (\<lambda>stream.
               \<lparr>lt_name = name, lt_stream = stream, lt_path = log_path (pa_logs_dir (se_paths s)) name stream,
                lt_prefix = prefix_of name stream verbatim all\<rparr>) (streams_of err all)) names))))"

definition log_tail_lines :: "pm3_config \<Rightarrow> nat" where
  "log_tail_lines pm3 = unat (pm3_log_tail_lines pm3)"

subsection \<open>Reading\<close>

text \<open>A log is read from the disk as it is at the call.\<close>

definition read_log_tail :: "host_files \<Rightarrow> string \<Rightarrow> nat \<Rightarrow> u64 \<Rightarrow> disk \<Rightarrow> (log_file_error + string list) \<times> disk" where
  "read_log_tail E path wanted max_bytes d =
     (case fault_now E d of
        Some f \<Rightarrow> Inl (read_error path (fault_reason f))
      | None \<Rightarrow>
          (case dk_files d path of
             None \<Rightarrow> read_tail path (Inl Disk.NotFound) (file_reads []) wanted (unat max_bytes)
           | Some content \<Rightarrow> read_tail path (Inr (length content)) (file_reads content) wanted (unat max_bytes)),
      tick d)"

definition append_line :: "string \<Rightarrow> string \<Rightarrow> string" where
  "append_line shown_so_far line = (if shown_so_far \<noteq> [] then shown_so_far @ [CHR 0x0A] else shown_so_far) @ line"

definition append_lines :: "string \<Rightarrow> log_target \<Rightarrow> string list \<Rightarrow> string" where
  "append_lines shown_so_far destination lines = foldl (\<lambda>out line. append_line out (lt_prefix destination @ line)) shown_so_far lines"

fun read_tails ::
  "host_files \<Rightarrow> log_target list \<Rightarrow> nat \<Rightarrow> u64 \<Rightarrow> bool \<Rightarrow> string \<Rightarrow> disk \<Rightarrow> (pm3_error + string) \<times> disk" where
  "read_tails E [] wanted max_bytes strict shown_so_far d = (Inr shown_so_far, d)"
| "read_tails E (t # ts) wanted max_bytes strict shown_so_far d =
     (case read_log_tail E (lt_path t) wanted max_bytes d of
        (Inr lines, d) \<Rightarrow> read_tails E ts wanted max_bytes strict (append_lines shown_so_far t lines) d
      | (Inl error, d) \<Rightarrow>
          if strict then (Inl (FeLog error), d) else read_tails E ts wanted max_bytes strict shown_so_far d)"

definition append_cleared :: "string \<Rightarrow> string \<Rightarrow> string" where
  "append_cleared shown_so_far path = (if shown_so_far \<noteq> [] then shown_so_far @ [CHR 0x0A] else shown_so_far) @ ''cleared '' @ path"

fun clear_targets :: "host_files \<Rightarrow> log_target list \<Rightarrow> bool \<Rightarrow> string \<Rightarrow> disk \<Rightarrow> (pm3_error + string) \<times> disk" where
  "clear_targets E [] strict shown_so_far d = (Inr shown_so_far, d)"
| "clear_targets E (t # ts) strict shown_so_far d =
     (case clear_log E (lt_path t) d of
        (Inr _, d) \<Rightarrow> clear_targets E ts strict (append_cleared shown_so_far (lt_path t)) d
      | (Inl error, d) \<Rightarrow>
          if strict then (Inl (FeLogClear error), d) else clear_targets E ts strict shown_so_far d)"

subsection \<open>Following\<close>

record active_follower =
  af_prefix :: string
  af_follower :: log_follower

fun open_followers ::
  "'a host_client_scheme \<Rightarrow> log_target list \<Rightarrow> bool \<Rightarrow> u64 \<Rightarrow> disk \<Rightarrow> (pm3_error + active_follower list) \<times> disk" where
  "open_followers H [] strict max_pending d = (Inr [], d)"
| "open_followers H (t # ts) strict max_pending d =
     (case (if strict then map_sum id Some (start_at_end (lt_path t) (ho_log_open H d (lt_path t)) (unat max_pending))
            else start_at_end_if_exists (lt_path t) (ho_log_open H d (lt_path t)) (unat max_pending)) of
        Inl error \<Rightarrow> (Inl (FeLog error), tick d)
      | Inr None \<Rightarrow> open_followers H ts strict max_pending (tick d)
      | Inr (Some follower) \<Rightarrow>
          apfst (map_sum id ((#) \<lparr>af_prefix = lt_prefix t, af_follower = follower\<rparr>))
            (open_followers H ts strict max_pending (tick d)))"

text \<open>One round over the followers: the lines it emits, and the followers after it.\<close>

fun poll_round ::
  "'a host_client_scheme \<Rightarrow> active_follower list \<Rightarrow> terminal \<Rightarrow> disk \<Rightarrow>
     (pm3_error + active_follower list) \<times> terminal \<times> disk" where
  "poll_round H [] t d = (Inr [], t, d)"
| "poll_round H (active # later) t d =
     (case poll_appended (ho_log H d (lf_path (af_follower active))) (af_follower active) of
        (Inl error, f) \<Rightarrow> (Inl (FeLog error), t, tick d)
      | (Inr lines, f) \<Rightarrow>
          (let t = foldl (\<lambda>t line. emit (af_prefix active @ line) t) t lines in
           apfst (map_sum id ((#) (active\<lparr>af_follower := f\<rparr>))) (poll_round H later t (tick d))))"

fun follow_rounds ::
  "'a host_client_scheme \<Rightarrow> nat \<Rightarrow> active_follower list \<Rightarrow> terminal \<Rightarrow> disk \<Rightarrow> (pm3_error + unit) \<times> terminal \<times> disk" where
  "follow_rounds H 0 followers t d = (Inr (), t, d)"
| "follow_rounds H (Suc n) followers t d =
     (case poll_round H followers t d of
        (Inl e, t, d) \<Rightarrow> (Inl e, t, d)
      | (Inr followers, t, d) \<Rightarrow> follow_rounds H n followers t d)"

definition follow_targets ::
  "'a host_client_scheme \<Rightarrow> session \<Rightarrow> log_target list \<Rightarrow> bool \<Rightarrow> u32 \<Rightarrow> terminal \<Rightarrow> disk \<Rightarrow>
     (pm3_error + unit) \<times> terminal \<times> disk" where
  "follow_targets H s targets strict polls t d =
     (case open_followers H targets strict (pm3_log_read_max_bytes (cfg_pm3 (se_config s))) d of
        (Inl e, d) \<Rightarrow> (Inl e, t, d)
      | (Inr followers, d) \<Rightarrow> follow_rounds H (unat polls) followers t d)"

definition run_logs ::
  "'a host_client_scheme \<Rightarrow> string \<Rightarrow> log_request \<Rightarrow> terminal \<Rightarrow> disk \<Rightarrow>
     (pm3_error + string option) \<times> terminal \<times> disk" where
  "run_logs H config q t d =
     (case open_session H config d of
        (Inl e, d) \<Rightarrow> (Inl e, t, d)
      | (Inr s, d) \<Rightarrow>
     (case resolve_targets H s (lq_names q) (lq_err q) (lq_all q) d of
        Inl e \<Rightarrow> (Inl e, t, d)
      | Inr targets \<Rightarrow>
     (let strict = (if lq_all q then False else length targets = 1) in
      if lq_action q = ClearLogs then
        (case clear_targets (hs_files H) targets strict [] d of
           (Inl e, d) \<Rightarrow> (Inl e, t, d)
         | (Inr cleared, d) \<Rightarrow> (Inr (Some cleared), t, d))
      else
     (let pm3 = cfg_pm3 (se_config s);
          wanted = (case lq_lines q of Some n \<Rightarrow> n | None \<Rightarrow> log_tail_lines pm3) in
      case read_tails (hs_files H) targets wanted (pm3_log_read_max_bytes pm3) strict [] d of
        (Inl e, d) \<Rightarrow> (Inl e, t, d)
      | (Inr shown, d) \<Rightarrow>
     (if \<not> lq_follow q then (Inr (Some shown), t, d)
      else
     (case follow_targets H s targets strict (lq_polls q) (emit shown t) d of
        (Inl e, t, d) \<Rightarrow> (Inl e, t, d)
      | (Inr _, t, d) \<Rightarrow> (Inr None, t, d)))))))"

subsection \<open>What is shown\<close>

text \<open>
  The lines are joined by line feeds, but as long as nothing has been written none is put in: empty
  lines at the start of the first log shown are lost.
\<close>

lemma append_lines_join:
  "foldl append_line shown_so_far lines =
    (if shown_so_far = [] then join [CHR 0x0A] (dropWhile (\<lambda>l. l = []) lines) else join [CHR 0x0A] (shown_so_far # lines))"
proof (induction lines arbitrary: shown_so_far)
  case (Cons line lines)
  have "join [CHR 0x0A] ((a @ [CHR 0x0A] @ b) # ls) = join [CHR 0x0A] (a # b # ls)" for a b ls
    by (cases ls) simp_all
  with Cons show ?case by (auto simp: append_line_def)
qed simp

lemma leading_blank_line_is_lost:
  "append_lines [] (t\<lparr>lt_prefix := []\<rparr>) [[], ''a''] = ''a''"
  by (simp add: append_lines_def append_line_def)

definition labelled_tail :: "disk \<Rightarrow> nat \<Rightarrow> log_target \<Rightarrow> string list" where
  "labelled_tail d wanted t =
     (case dk_files d (lt_path t) of
        None \<Rightarrow> []
      | Some content \<Rightarrow> map ((@) (lt_prefix t)) (tail_lines (from_utf8_lossy content) wanted))"

text \<open>
  Several logs are read without an error, those that are missing being left out, and what is shown are
  the last lines of each, labelled, in the order of the targets.
\<close>

lemma read_tails_calm:
  assumes calm: "no_faults E"
    and small: "\<forall>t\<in>set ts. \<forall>content. dk_files d (lt_path t) = Some content \<longrightarrow> length content \<le> unat max_bytes"
  shows "\<exists>d'. read_tails E ts wanted max_bytes False shown_so_far d =
      (Inr (foldl append_line shown_so_far (concat (map (labelled_tail d wanted) ts))), d') \<and> dk_files d' = dk_files d"
  using small
proof (induction ts arbitrary: shown_so_far d)
  case (Cons t ts)
  have same: "labelled_tail (tick d) wanted = labelled_tail d wanted"
    by (simp add: labelled_tail_def fun_eq_iff)
  have rest: "\<exists>d'. read_tails E ts wanted max_bytes False out (tick d) =
      (Inr (foldl append_line out (concat (map (labelled_tail d wanted) ts))), d') \<and> dk_files d' = dk_files d" for out
    using Cons.IH[of "tick d" out] Cons.prems by (simp add: same)
  show ?case
  proof (cases "dk_files d (lt_path t)")
    case None
    then have "labelled_tail d wanted t = []" by (simp add: labelled_tail_def)
    with None show ?thesis using rest[of shown_so_far] by (simp add: read_log_tail_def calm read_tail_def)
  next
    case (Some content)
    then have "read_log_tail E (lt_path t) wanted max_bytes d =
        (Inr (tail_lines (from_utf8_lossy content) wanted), tick d)"
      using Cons.prems by (simp add: read_log_tail_def calm read_tail_is_tail)
    moreover have "foldl append_line shown_so_far (map ((@) (lt_prefix t)) ls) = append_lines shown_so_far t ls" for ls shown_so_far
      by (induction ls arbitrary: shown_so_far) (simp_all add: append_lines_def)
    moreover have "labelled_tail d wanted t = map ((@) (lt_prefix t)) (tail_lines (from_utf8_lossy content) wanted)"
      using Some by (simp add: labelled_tail_def)
    ultimately show ?thesis
      using rest[of "append_lines shown_so_far t (tail_lines (from_utf8_lossy content) wanted)"] by simp
  qed
qed simp

text \<open>One name without \<open>--all\<close> is shown verbatim and its failures are errors; labels tell apart all others.\<close>

lemma labels_tell_apart:
  assumes "resolve_targets H s names err all d = Inr ts" and "t \<in> set ts" and "length ts \<noteq> 1"
  shows "lt_prefix t \<noteq> [] \<and> prefix (lt_name t) (lt_prefix t)"
proof -
  obtain ns where ns: "ts = concat (map (\<lambda>name. map (\<lambda>stream.
      \<lparr>lt_name = name, lt_stream = stream, lt_path = log_path (pa_logs_dir (se_paths s)) name stream,
       lt_prefix = prefix_of name stream (if all then False else length ns = 1) all\<rparr>) (streams_of err all)) ns)"
    using assms(1) by (auto simp: resolve_targets_def Let_def split: sum.splits)
  have "\<not> (if all then False else length ns = 1)"
  proof
    assume single: "if all then False else length ns = 1"
    then obtain n where "ns = [n]" "\<not> all" by (auto simp: length_Suc_conv split: if_splits)
    with assms(3) ns show False by (cases err) (simp_all add: streams_of_def)
  qed
  with assms(2) show ?thesis unfolding ns by (auto simp: prefix_of_def split: if_splits)
qed

text \<open>Every target is a log of a service with a valid name in the log directory.\<close>

lemma validate_all_names_ok:
  "validate_all_names names = Inr checked \<Longrightarrow> checked = names \<and> (\<forall>n\<in>set names. validate_app_name n = Inr ())"
  by (induction names arbitrary: checked) (auto simp: map_sum_Inr_iff split: sum.splits)

lemma service_name_of_valid: "service_name_of entry = Some name \<Longrightarrow> validate_app_name name = Inr ()"
  by (auto simp: service_name_of_def split: option.splits sum.splits)

lemma declared_names_valid: "name \<in> set (declared_service_names H cfg_dir d) \<Longrightarrow> validate_app_name name = Inr ()"
proof -
  assume "name \<in> set (declared_service_names H cfg_dir d)"
  then obtain entry where "service_name_of entry = Some name"
    by (auto simp del: not_None_eq simp: declared_service_names_def List.map_filter_def split: option.splits)
  then show ?thesis by (rule service_name_of_valid)
qed

lemma targets_are_service_logs:
  assumes "resolve_targets H s names err all d = Inr ts" and "t \<in> set ts"
  shows "validate_app_name (lt_name t) = Inr () \<and>
    lt_path t = log_path (pa_logs_dir (se_paths s)) (lt_name t) (lt_stream t)"
proof -
  have "\<forall>n\<in>set ns. validate_app_name n = Inr ()" if "resolve_names H s names d = Inr ns" for ns
    using that validate_all_names_ok[of names ns] declared_names_valid
    by (auto simp: resolve_names_def split: if_splits)
  with assms show ?thesis by (auto simp: resolve_targets_def Let_def split: sum.splits)
qed

end
