(* ===== verification/Service_Install.thy ===== *)
theory Service_Install
  imports Client_Commands
begin

text \<open>
  Registering and installing pm3 (\<open>frameworks/src/service.rs\<close>, \<open>frameworks/src/install.rs\<close>): the unit
  that is built from the configuration, and the installation that backs up, swaps the binary,
  restarts the daemon under the service manager and compares what it supervises before and after.
\<close>

subsection \<open>The service session\<close>

record unit_context =
  ux_programs :: "unit_programs option"
  ux_kind :: unit_kind
  ux_home :: "string option"
  ux_pm3_env :: "(string \<times> string) list"
  ux_runtime_dir :: "string option"
  ux_uid :: "u32 option"
  ux_account :: "string option"
  ux_binary :: "string + string"

record service_session =
  sn_paths :: pm3_paths
  sn_cfg_dir :: string
  sn_spec :: unit_spec
  sn_source :: string
  sn_programs :: unit_programs
  sn_command_timeout_ms :: u64
  sn_start_timeout_ms :: u64
  sn_request_timeout_ms :: u64
  sn_poll_interval_ms :: u64

datatype service_action = StatusAction | InstallAction bool bool | UninstallAction bool

definition OWNER_ONLY_UMASK :: u32 where
  "OWNER_ONLY_UMASK = 0x3F"

definition ROOT_VARIABLES :: "string list" where
  "ROOT_VARIABLES = [''PM3_CONFIG_DIR'', ''PM3_STATE_DIR'', ''PM3_RUNTIME_DIR'', ''PM3_DATA_DIR'']"

definition HOST_SERVICE_KIND :: unit_kind where
  "HOST_SERVICE_KIND = Systemd"

definition root_variables :: "pm3_paths \<Rightarrow> (string \<times> string) list" where
  "root_variables paths =
     zip ROOT_VARIABLES
       [ro_config (pa_roots paths), ro_state (pa_roots paths), ro_runtime (pa_roots paths), ro_data (pa_roots paths)]"

definition resolved_roots_env :: "(string \<times> string) list \<Rightarrow> pm3_paths \<Rightarrow> (string \<times> string) list" where
  "resolved_roots_env inherited paths =
     filter (\<lambda>(name, val). \<not> List.member ROOT_VARIABLES name) inherited @ root_variables paths"

definition build_spec :: "app_config \<Rightarrow> pm3_paths \<Rightarrow> unit_context \<Rightarrow> pm3_error + unit_spec" where
  "build_spec config paths ctx =
     (case ux_home ctx of
        None \<Rightarrow> Inl ServiceHome
      | Some home \<Rightarrow>
     (case ux_binary ctx of
        Inl reason \<Rightarrow> Inl (ServiceProgram reason)
      | Inr program \<Rightarrow>
     (let pm3 = cfg_pm3 config; service = pm3_service pm3 in
      Inr \<lparr>us_kind = ux_kind ctx, us_label = sv_label service, us_unit_dir = unit_dir_of (ux_kind ctx) home,
        us_program = program, us_config_path = pa_config_file paths, us_working_directory = pa_root paths,
        us_log_path = pa_daemon_log paths, us_search_path = pm3_search_path pm3, us_home = home,
        us_account = (case ux_account ctx of None \<Rightarrow> [] | Some account \<Rightarrow> account),
        us_pm3_env = pm3_variables (resolved_roots_env (ux_pm3_env ctx) paths),
        us_restart_delay_secs = sv_restart_delay_secs service,
        us_restart_condition = sv_restart_condition service, us_umask = OWNER_ONLY_UMASK,
        us_max_tasks = sv_max_tasks service, us_cpu_quota_percent = sv_cpu_quota_percent service,
        us_wait_for_network = sv_wait_for_network service\<rparr>)))"

definition canonical_config_path :: "'a host_client_scheme \<Rightarrow> string \<Rightarrow> disk \<Rightarrow> (pm3_error + string) \<times> disk" where
  "canonical_config_path H config_path d =
     canonicalize_path H config_path (\<lambda>reason. ServiceConfig config_path reason) d"

definition open_service_session ::
  "'a host_client_scheme \<Rightarrow> string \<Rightarrow> unit_context \<Rightarrow> disk \<Rightarrow> (pm3_error + service_session) \<times> disk" where
  "open_service_session H config_path ctx d =
     (case canonical_config_path H config_path d of
        (Inl e, d) \<Rightarrow> (Inl e, d)
      | (Inr absolute, d) \<Rightarrow>
     (case load_config_file (hs_files H) (hs_env H) (ho_config H) absolute d of
        (Inl e, d) \<Rightarrow> (Inl (FeAdapter e), d)
      | (Inr loaded, d) \<Rightarrow>
     (let pm3 = cfg_pm3 (ld_config loaded) in
      case resolve_places H pm3 (ux_home ctx) d of
        Inl e \<Rightarrow> (Inl (FePath e), d)
      | Inr places \<Rightarrow>
     (case build_spec (ld_config loaded) (pl_paths places) ctx of
        Inl e \<Rightarrow> (Inl e, d)
      | Inr spec \<Rightarrow>
          (Inr \<lparr>sn_paths = pl_paths places, sn_cfg_dir = pl_cfg_dir places, sn_spec = spec,
             sn_source = ld_source loaded,
             sn_programs = unit_programs_from_config (pm3_service pm3) (ux_runtime_dir ctx) (ux_uid ctx),
             sn_command_timeout_ms = pm3_command_timeout_ms pm3, sn_start_timeout_ms = pm3_start_timeout_ms pm3,
             sn_request_timeout_ms = pm3_request_timeout_ms pm3,
             sn_poll_interval_ms = pm3_daemon_poll_interval_ms pm3\<rparr>, d)))))"

text \<open>The host as the execution of a plan sees it.\<close>

definition units_host :: "'a host_client_scheme \<Rightarrow> host_units" where
  "units_host H = host_files.extend (hs_files H) \<lparr>hu_run = hs_run H\<rparr>"

definition install_service ::
  "'a host_client_scheme \<Rightarrow> service_session \<Rightarrow> unit_programs \<Rightarrow> bool \<Rightarrow> bool \<Rightarrow> disk \<Rightarrow> (pm3_error + string) \<times> disk"
where
  "install_service H s programs dry_run force d =
     (case (if dry_run then (Inr (), d)
            else
              (case ensure_layout (hs_files H) (sn_paths s) (sn_cfg_dir s) d of
                 (Inl e, d) \<Rightarrow> (Inl e, d)
               | (Inr _, d) \<Rightarrow>
                   apfst (map_sum FeServiceFile (\<lambda>_. ()))
                     (reconcile (hs_files H) (us_config_path (sn_spec s)) (sn_source s) force d))) of
        (Inl e, d) \<Rightarrow> (Inl e, d)
      | (Inr _, d) \<Rightarrow>
          apfst (map_sum FeService id)
            (install_unit (units_host H) (sn_spec s) programs (sn_source s) dry_run (sn_command_timeout_ms s) d))"

definition dispatch_service ::
  "'a host_client_scheme \<Rightarrow> string \<Rightarrow> service_action \<Rightarrow> unit_context \<Rightarrow> disk \<Rightarrow> (pm3_error + string) \<times> disk" where
  "dispatch_service H config_path wanted ctx d =
     (case open_service_session H config_path ctx d of
        (Inl e, d) \<Rightarrow> (Inl e, d)
      | (Inr s, d) \<Rightarrow>
     (let programs = (case ux_programs ctx of None \<Rightarrow> sn_programs s | Some given \<Rightarrow> given);
          timeout_ms = sn_command_timeout_ms s in
      case wanted of
        StatusAction \<Rightarrow>
          apfst (map_sum FeService id) (status_report (units_host H) (sn_spec s) programs timeout_ms d)
      | InstallAction dry_run force \<Rightarrow> install_service H s programs dry_run force d
      | UninstallAction dry_run \<Rightarrow>
          apfst (map_sum FeService id) (uninstall_unit (units_host H) (sn_spec s) programs dry_run timeout_ms d)))"

definition host_unit_context :: "'a host_client_scheme \<Rightarrow> disk \<Rightarrow> unit_context" where
  "host_unit_context H d =
     \<lparr>ux_programs = None, ux_kind = HOST_SERVICE_KIND, ux_home = host_home H, ux_pm3_env = host_pm3_env H,
      ux_runtime_dir = host_runtime_dir H (host_home H) d, ux_uid = host_uid H (host_home H) d,
      ux_account = host_account H, ux_binary = ho_exe H\<rparr>"

definition run_service :: "'a host_client_scheme \<Rightarrow> string \<Rightarrow> service_action \<Rightarrow> disk \<Rightarrow> (pm3_error + string) \<times> disk" where
  "run_service H config_path wanted d = dispatch_service H config_path wanted (host_unit_context H d) d"

subsection \<open>Preparing an installation\<close>

record install_context =
  ix_home :: "string option"
  ix_destination :: "string option"
  ix_backups :: "string option"
  ix_pm3_env :: "(string \<times> string) list"
  ix_runtime_dir :: "string option"
  ix_uid :: "u32 option"
  ix_account :: "string option"
  ix_exe :: "string + string"
  ix_kind :: unit_kind
  ix_programs :: "unit_programs option"

definition path_exists :: "host_files \<Rightarrow> string \<Rightarrow> disk \<Rightarrow> bool \<times> disk" where
  "path_exists E path d =
     ((case fault_now E d of
         Some _ \<Rightarrow> False
       | None \<Rightarrow> dk_files d path \<noteq> None \<or> path \<in> set (dk_dirs d)), tick d)"

definition seed_config :: "'a host_client_scheme \<Rightarrow> string \<Rightarrow> disk \<Rightarrow> (pm3_error + string option) \<times> disk" where
  "seed_config H path d =
     (if \<not> is_absolute_path path then (Inr None, d)
      else
     (case path_exists (hs_files H) path d of
        (True, d) \<Rightarrow> (Inr None, d)
      | (False, d) \<Rightarrow>
     (case prepare_directory (hs_files H) (case path_parent path of None \<Rightarrow> path | Some parent \<Rightarrow> parent) d of
        (Inl e, d) \<Rightarrow> (Inl e, d)
      | (Inr _, d) \<Rightarrow>
     (case write_private (hs_files H) path (ho_default_config H) d of
        (Inl error, d) \<Rightarrow> (Inl (layout_error path error), d)
      | (Inr _, d) \<Rightarrow> (Inr (Some path), d)))))"

definition resolve_source :: "string option \<Rightarrow> install_context \<Rightarrow> pm3_error + string" where
  "resolve_source source ix =
     (case source of
        Some path \<Rightarrow> Inr path
      | None \<Rightarrow> map_sum ServiceProgram id (ix_exe ix))"

definition install_unit_context :: "install_context \<Rightarrow> string \<Rightarrow> unit_context" where
  "install_unit_context ix destination =
     \<lparr>ux_programs = ix_programs ix, ux_kind = ix_kind ix, ux_home = ix_home ix, ux_pm3_env = ix_pm3_env ix,
      ux_runtime_dir = ix_runtime_dir ix, ux_uid = ix_uid ix, ux_account = ix_account ix,
      ux_binary = Inr destination\<rparr>"

text \<open>The binary is kept when it is the installed one; otherwise the old one is backed up before the swap.\<close>

definition swap_binary ::
  "host_files \<Rightarrow> string \<Rightarrow> string \<Rightarrow> string \<Rightarrow> string \<Rightarrow> terminal \<Rightarrow> disk \<Rightarrow> (pm3_error + unit) \<times> terminal \<times> disk" where
  "swap_binary E source destination root stamp t d =
     (case binary_matches E source destination d of
        (Inl e, d) \<Rightarrow> (Inl (FeInstall e), t, d)
      | (Inr True, d) \<Rightarrow> (Inr (), emit (''binary unchanged, kept '' @ destination) t, d)
      | (Inr False, d) \<Rightarrow>
     (case back_up E [destination] root stamp d of
        (Inl e, d) \<Rightarrow> (Inl (FeInstall e), t, d)
      | (Inr _, d) \<Rightarrow>
     (case replace_binary E source destination d of
        (Inl e, d) \<Rightarrow> (Inl (FeInstall e), t, d)
      | (Inr _, d) \<Rightarrow> (Inr (), t, d))))"

subsection \<open>Waiting for the service manager\<close>

definition takeover_satisfied :: "unit_status \<Rightarrow> u32 option \<Rightarrow> u32 option \<Rightarrow> bool \<Rightarrow> bool" where
  "takeover_satisfied status supervised filed healthy =
     (if status \<noteq> UnitRunning then False
      else if \<not> healthy then False
      else if supervised = None then False
      else supervised = filed)"

definition supervised_pid_of ::
  "'a host_client_scheme \<Rightarrow> service_session \<Rightarrow> unit_programs \<Rightarrow> u32 option \<Rightarrow> disk \<Rightarrow> (pm3_error + u32 option) \<times> disk"
where
  "supervised_pid_of H s programs filed d =
     apfst (map_sum FeService id)
       (query_supervised_pid (units_host H) (sn_spec s) programs (sn_command_timeout_ms s) filed d)"

definition takeover_state ::
  "'a host_client_scheme \<Rightarrow> service_session \<Rightarrow> unit_programs \<Rightarrow> disk \<Rightarrow> (pm3_error + bool) \<times> disk" where
  "takeover_state H s programs d =
     (case query_status (units_host H) (sn_spec s) programs (sn_command_timeout_ms s) d of
        (Inl e, d) \<Rightarrow> (Inl (FeService e), d)
      | (Inr status, d) \<Rightarrow>
     (case read_pid_file (hs_files H) (sn_paths s) d of
        (filed, d) \<Rightarrow>
     (case healthy_now H \<lparr>uc_socket = pa_socket (sn_paths s), uc_timeout_ms = sn_request_timeout_ms s\<rparr> d of
        (healthy, d) \<Rightarrow>
     (case supervised_pid_of H s programs filed d of
        (Inl e, d) \<Rightarrow> (Inl e, d)
      | (Inr supervised, d) \<Rightarrow> (Inr (takeover_satisfied status supervised filed healthy), d)))))"

text \<open>
  \<open>ho_elapsed H started k\<close> is the time since the wait began, after its \<open>k\<close>-th sleep. The interval is at
  least a millisecond whatever is configured, and a sleep is never shorter than it was asked to be.
\<close>

definition clock_advances :: "'a host_client_scheme \<Rightarrow> bool" where
  "clock_advances H \<longleftrightarrow> (\<forall>started k. ho_elapsed H started k < ho_elapsed H started (Suc k))"

partial_function (option) supervise_loop ::
  "'a host_client_scheme \<Rightarrow> service_session \<Rightarrow> unit_programs \<Rightarrow> disk \<Rightarrow> nat \<Rightarrow> disk \<Rightarrow>
     ((pm3_error + bool) \<times> disk) option"
where
  "supervise_loop H s programs started k d =
     (case takeover_state H s programs d of
        (Inl e, d) \<Rightarrow> Some (Inl e, d)
      | (Inr supervised, d) \<Rightarrow>
          if supervised then Some (Inr True, d)
          else if unat (sn_start_timeout_ms s) \<le> ho_elapsed H started k then Some (Inr False, d)
          else supervise_loop H s programs started (Suc k) d)"

definition wait_until_supervised ::
  "'a host_client_scheme \<Rightarrow> service_session \<Rightarrow> unit_programs \<Rightarrow> disk \<Rightarrow> ((pm3_error + bool) \<times> disk) option" where
  "wait_until_supervised H s programs d = supervise_loop H s programs d 0 d"

definition wait_for_takeover ::
  "'a host_client_scheme \<Rightarrow> service_session \<Rightarrow> unit_programs \<Rightarrow> string \<Rightarrow> terminal \<Rightarrow> disk \<Rightarrow>
     ((pm3_error + unit) \<times> terminal \<times> disk) option"
where
  "wait_for_takeover H s programs backup t d = do {
     (supervised, d) \<leftarrow>
       (case us_kind (sn_spec s) of
          Launchd \<Rightarrow> do {
            (first, d) \<leftarrow> wait_until_supervised H s programs d;
            (case first of
               Inl e \<Rightarrow> Some (Inl e, d)
             | Inr True \<Rightarrow> Some (Inr True, d)
             | Inr False \<Rightarrow>
                 (case hand_back_to_manager (units_host H) (sn_spec s) programs (sn_command_timeout_ms s) d of
                    (Inl e, d) \<Rightarrow> Some (Inl (FeService e), d)
                  | (Inr _, d) \<Rightarrow> wait_until_supervised H s programs d))
          }
        | _ \<Rightarrow> wait_until_supervised H s programs d);
     Some
       (case supervised of
          Inl e \<Rightarrow> (Inl e, t, d)
        | Inr False \<Rightarrow> (Inl (InstallTakeover (sn_start_timeout_ms s) backup), t, d)
        | Inr True \<Rightarrow>
            (Inr (),
             emit (''service '' @ us_label (sn_spec s) @ '' ('' @ unit_kind_as_str (us_kind (sn_spec s)) @
               '') is running'') t, d))
   }"

subsection \<open>The installation\<close>

text \<open>Up to the swap: what the old daemon supervised, the session and the backups.\<close>

record installing =
  in_session :: service_session
  in_context :: unit_context
  in_before :: "service_snapshot list"
  in_backup :: string

definition swap_in ::
  "'a host_client_scheme \<Rightarrow> string \<Rightarrow> string option \<Rightarrow> install_context \<Rightarrow> terminal \<Rightarrow> disk \<Rightarrow>
     (pm3_error + installing) \<times> terminal \<times> disk"
where
  "swap_in H config_path source ix t d =
     (case resolve_source source ix of
        Inl e \<Rightarrow> (Inl e, t, d)
      | Inr source \<Rightarrow>
     (case seed_config H config_path d of
        (Inl e, d) \<Rightarrow> (Inl e, t, d)
      | (Inr seeded, d) \<Rightarrow>
     (let t = (case seeded of None \<Rightarrow> t | Some path \<Rightarrow> emit (''created default config '' @ path) t) in
      case destination_of (ix_destination ix) (ix_home ix) of
        Inl e \<Rightarrow> (Inl (FeInstall e), t, d)
      | Inr destination \<Rightarrow>
     (let ctx = install_unit_context ix destination in
      case open_service_session H config_path ctx d of
        (Inl e, d) \<Rightarrow> (Inl e, t, d)
      | (Inr s, d) \<Rightarrow>
     (case dump_snapshot (host_dump.truncate H) (pa_dump_file (sn_paths s)) d of
        (Inl e, d) \<Rightarrow> (Inl (FeDump e), t, d)
      | (Inr before, d) \<Rightarrow>
     (let root = backup_root (ix_backups ix) (pa_backups_dir (sn_paths s));
          stamp = backup_name (binary_version (hs_run H d) destination (sn_command_timeout_ms s)) in
      case swap_binary (hs_files H) source destination root stamp t (tick d) of
        (Inl e, t, d) \<Rightarrow> (Inl e, t, d)
      | (Inr _, t, d) \<Rightarrow>
     (case back_up (hs_files H) (write_targets (sn_spec s)) root stamp d of
        (Inl e, d) \<Rightarrow> (Inl (FeInstall e), t, d)
      | (Inr backup, d) \<Rightarrow>
          (Inr \<lparr>in_session = s, in_context = ctx, in_before = before, in_backup = backup\<rparr>,
           emit (''backed up '' @ backup) t, d))))))))"

text \<open>The old unit is removed, the old daemon stopped and the new unit installed.\<close>

definition register_again ::
  "'a host_client_scheme \<Rightarrow> string \<Rightarrow> unit_context \<Rightarrow> terminal \<Rightarrow> disk \<Rightarrow> (pm3_error + unit) \<times> terminal \<times> disk" where
  "register_again H config_path ctx t d =
     (case dispatch_service H config_path (UninstallAction False) ctx d of
        (Inl e, d) \<Rightarrow> (Inl e, t, d)
      | (Inr removed, d) \<Rightarrow>
     (let t = emit removed t in
      case shutdown_daemon H config_path False d of
        (Inl e, d) \<Rightarrow> (Inl e, t, d)
      | (Inr stopped, d) \<Rightarrow>
     (let t = emit stopped t in
      case dispatch_service H config_path (InstallAction False True) ctx d of
        (Inl e, d) \<Rightarrow> (Inl e, t, d)
      | (Inr installed, d) \<Rightarrow> (Inr (), emit installed t, d))))"

definition report_handover ::
  "'a host_client_scheme \<Rightarrow> installing \<Rightarrow> terminal \<Rightarrow> disk \<Rightarrow> (pm3_error + unit) \<times> terminal \<times> disk" where
  "report_handover H i t d =
     (case dump_snapshot (host_dump.truncate H) (pa_dump_file (sn_paths (in_session i))) d of
        (Inl e, d) \<Rightarrow> (Inl (FeDump e), t, d)
      | (Inr later, d) \<Rightarrow>
     (let comparison = compare_handover (in_before i) later;
          description = describe_handover comparison;
          t = emit description t in
      if hc_lost comparison = [] then (Inr (), t, d) else (Inl (InstallLost description), t, d)))"

definition run_install ::
  "'a host_client_scheme \<Rightarrow> string \<Rightarrow> string option \<Rightarrow> install_context \<Rightarrow> terminal \<Rightarrow> disk \<Rightarrow>
     ((pm3_error + unit) \<times> terminal \<times> disk) option"
where
  "run_install H config_path source ix t d =
     (case swap_in H config_path source ix t d of
        (Inl e, t, d) \<Rightarrow> Some (Inl e, t, d)
      | (Inr i, t, d) \<Rightarrow>
     (case register_again H config_path (in_context i) t d of
        (Inl e, t, d) \<Rightarrow> Some (Inl e, t, d)
      | (Inr _, t, d) \<Rightarrow> do {
          (taken, t, d) \<leftarrow>
            wait_for_takeover H (in_session i)
              (case ix_programs ix of None \<Rightarrow> sn_programs (in_session i) | Some given \<Rightarrow> given) (in_backup i) t d;
          Some (case taken of Inl e \<Rightarrow> (Inl e, t, d) | Inr _ \<Rightarrow> report_handover H i t d)
        }))"

definition host_install_context :: "'a host_client_scheme \<Rightarrow> disk \<Rightarrow> install_context" where
  "host_install_context H d =
     \<lparr>ix_home = host_home H, ix_destination = host_install_destination H, ix_backups = host_install_backups H,
      ix_pm3_env = host_pm3_env H, ix_runtime_dir = host_runtime_dir H (host_home H) d,
      ix_uid = host_uid H (host_home H) d, ix_account = host_account H, ix_exe = ho_exe H,
      ix_kind = HOST_SERVICE_KIND, ix_programs = None\<rparr>"

definition install_here ::
  "'a host_client_scheme \<Rightarrow> string \<Rightarrow> string option \<Rightarrow> terminal \<Rightarrow> disk \<Rightarrow>
     ((pm3_error + unit) \<times> terminal \<times> disk) option" where
  "install_here H config_path source t d = run_install H config_path source (host_install_context H d) t d"

subsection \<open>Root variables\<close>

text \<open>The unit carries each root exactly once, with the root that was resolved, whatever it inherited.\<close>

lemma unit_root_variables:
  assumes "name \<in> set ROOT_VARIABLES"
  shows "filter (\<lambda>(n, v). n = name) (resolved_roots_env inherited paths) =
    filter (\<lambda>(n, v). n = name) (root_variables paths)"
    and "length (filter (\<lambda>(n, v). n = name) (resolved_roots_env inherited paths)) = 1"
proof -
  have "filter (\<lambda>(n, v). n = name) (filter (\<lambda>(name, val). \<not> List.member ROOT_VARIABLES name) inherited) = []"
    using assms by (auto simp: filter_empty_conv)
  then show same: "filter (\<lambda>(n, v). n = name) (resolved_roots_env inherited paths) =
      filter (\<lambda>(n, v). n = name) (root_variables paths)"
    by (simp add: resolved_roots_env_def)
  show "length (filter (\<lambda>(n, v). n = name) (resolved_roots_env inherited paths)) = 1"
    using assms unfolding same by (auto simp: root_variables_def ROOT_VARIABLES_def)
qed

subsection \<open>The wait ends, and believes the manager only with evidence\<close>

lemma takeover_satisfied_iff:
  "takeover_satisfied status supervised filed healthy \<longleftrightarrow>
    status = UnitRunning \<and> healthy \<and> (\<exists>i. supervised = Some i \<and> filed = Some i)"
  by (auto simp: takeover_satisfied_def)

lemma supervise_loop_returns:
  assumes "clock_advances H"
  shows "\<exists>r. supervise_loop H s programs started k d = Some r"
proof (induction "unat (sn_start_timeout_ms s) - ho_elapsed H started k" arbitrary: k d rule: less_induct)
  case less
  show ?case
  proof (cases "unat (sn_start_timeout_ms s) \<le> ho_elapsed H started k")
    case True
    then show ?thesis
      by (subst supervise_loop.simps) (auto split: prod.split sum.split)
  next
    case False
    have "ho_elapsed H started k < ho_elapsed H started (Suc k)"
      using assms by (simp add: clock_advances_def)
    then have "\<exists>r. supervise_loop H s programs started (Suc k) d' = Some r" for d'
      using False less.hyps[of "Suc k"] by simp
    then show ?thesis
      using False by (subst supervise_loop.simps) (auto split: prod.split sum.split)
  qed
qed

lemma wait_for_takeover_returns:
  assumes "clock_advances H"
  shows "\<exists>r. wait_for_takeover H s programs backup t d = Some r"
proof -
  have waits: "\<exists>r d'. wait_until_supervised H s programs d = Some (r, d')" for d
    using supervise_loop_returns[OF assms, of s programs d 0 d] by (auto simp: wait_until_supervised_def)
  obtain r1 d1 where first: "wait_until_supervised H s programs d = Some (r1, d1)" using waits by blast
  obtain r2 d2 where handed: "hand_back_to_manager (units_host H) (sn_spec s) programs (sn_command_timeout_ms s) d1 = (r2, d2)"
    by force
  obtain r3 d3 where second: "wait_until_supervised H s programs d2 = Some (r3, d3)" using waits by blast
  show ?thesis
    by (auto simp: wait_for_takeover_def first handed second split: unit_kind.split sum.split bool.split)
qed

text \<open>A wait that succeeds ended with a state of the host in which the manager ran the daemon that answers.\<close>

lemma supervise_loop_sound:
  assumes "supervise_loop H s programs started k d = Some r" and "fst r = Inr True"
  shows "\<exists>seen. takeover_state H s programs seen = (Inr True, snd r)"
  using assms
proof (induction rule: supervise_loop.raw_induct[rotated, consumes 1, case_names 1])
  case (1 loop H s programs started k d r)
  obtain q d1 where seen: "takeover_state H s programs d = (q, d1)" by fastforce
  have body: "(case q of
        Inl e \<Rightarrow> Some (Inl e, d1)
      | Inr supervised \<Rightarrow>
          if supervised then Some (Inr True, d1)
          else if unat (sn_start_timeout_ms s) \<le> ho_elapsed H started k then Some (Inr False, d1)
          else loop H s programs started (Suc k) d1) = Some r"
    using 1(2) seen by (simp split: sum.split_asm if_split_asm)
  show ?case
  proof (cases "q = Inr False")
    case True
    then have "\<not> unat (sn_start_timeout_ms s) \<le> ho_elapsed H started k"
      and "loop H s programs started (Suc k) d1 = Some r"
      using body 1(3) by (auto split: if_splits)
    then show ?thesis using 1(1)[of H s programs started "Suc k" d1 r] 1(3) by blast
  next
    case False
    then have "r = (q, d1)" using body by (cases q) auto
    then show ?thesis using 1(3) seen by auto
  qed
qed

subsection \<open>The swap keeps the old binary\<close>

lemma binary_matches_result:
  assumes "binary_matches E source destination d = (r, d1)"
  shows "dk_files d1 = dk_files d" and "r = Inr True \<Longrightarrow> dk_files d destination = dk_files d source"
proof -
  obtain r1 e1 where one: "read_to_string E source d = (r1, e1)" by fastforce
  obtain r2 e2 where two: "read_to_string E destination e1 = (r2, e2)" by fastforce
  have same: "dk_files e1 = dk_files d" "dk_files e2 = dk_files d"
    using reads_keep_files(1)[of E source d] reads_keep_files(1)[of E destination e1] one two by simp_all
  moreover obtain r3 e3 where three: "occupied_by_directory E destination e2 = (r3, e3)" by fastforce
  moreover have "dk_files e3 = dk_files e2"
    using three by (auto simp: occupied_by_directory_def tick_def split: option.splits)
  ultimately show "dk_files d1 = dk_files d"
    using assms one two by (auto simp: binary_matches_def split: sum.splits if_splits prod.splits bool.splits)
  assume "r = Inr True"
  then obtain content where "r1 = Inr content" and "r2 = Inr content"
    using assms one two by (auto simp: binary_matches_def split: sum.splits if_splits prod.splits bool.splits)
  then show "dk_files d destination = dk_files d source"
    using one two same by (auto simp: read_to_string_def split: option.splits)
qed

lemma prepare_dir_files: "dk_files (snd (prepare_dir E path d)) = dk_files d"
  by (auto simp: prepare_dir_def create_dir_all_def set_dir_mode_def tick_def split: option.splits sum.splits prod.splits)

lemma back_up_one:
  assumes calm: "no_faults E" and name: "path_file_name path = Some name"
    and backed: "back_up E [path] root stamp d = (Inr dir, d')"
  shows "dir = path_join root stamp \<and>
    dk_files d' = (if dk_files d path = None then dk_files d
                   else (dk_files d)(path_join dir name := dk_files d path))"
proof -
  let ?dir = "path_join root stamp"
  obtain r1 d1 where one: "prepare_dir E root d = (r1, d1)" by fastforce
  obtain r2 d2 where two: "prepare_dir E ?dir d1 = (r2, d2)" by fastforce
  have same: "dk_files d2 = dk_files d"
    using prepare_dir_files[of E root d] prepare_dir_files[of E ?dir d1] one two by simp
  obtain d3 where three: "copy_into E path ?dir d2 = (Inr (), d3)"
    and files: "dk_files d3 = (if dk_files d2 path = None then dk_files d2
                   else (dk_files d2)(path_join ?dir name := dk_files d2 path))"
    using copy_into_calm[OF calm name, of ?dir d2] by blast
  have "dir = ?dir \<and> d' = d3"
    using backed one two three by (cases r1; cases r2) (auto simp: back_up_def Let_def)
  then show ?thesis using files same by simp
qed

text \<open>
  A swap that succeeds has put the new binary in place, and a different binary that was there is in the
  backup.
\<close>

lemma swap_binary_ok:
  assumes calm: "no_faults E" and name: "path_file_name destination = Some name"
    and kept: "kept = path_join (path_join root stamp) name"
    and apart: "kept \<noteq> source" "kept \<noteq> destination" "kept \<noteq> staged_path destination"
      "source \<noteq> staged_path destination"
    and swapped: "swap_binary E source destination root stamp t d = (Inr u, t', d')"
  shows "dk_files d' destination = dk_files d source"
    and "dk_files d destination \<noteq> None \<Longrightarrow> dk_files d destination \<noteq> dk_files d source \<Longrightarrow>
      dk_files d' kept = dk_files d destination"
proof -
  obtain r1 d1 where one: "binary_matches E source destination d = (r1, d1)" by fastforce
  note matched = binary_matches_result[OF one]
  obtain r2 d2 where two: "back_up E [destination] root stamp d1 = (r2, d2)" by fastforce
  obtain r3 d3 where three: "replace_binary E source destination d2 = (r3, d3)" by fastforce
  have "dk_files d' destination = dk_files d source \<and>
    (dk_files d destination \<noteq> None \<longrightarrow> dk_files d destination \<noteq> dk_files d source \<longrightarrow>
      dk_files d' kept = dk_files d destination)"
  proof (cases "r1 = Inr True")
    case True
    then have "d' = d1" using swapped one by (simp add: swap_binary_def)
    then show ?thesis using matched True by simp
  next
    case False
    then obtain dir where r2: "r2 = Inr dir" and r3: "r3 = Inr ()" and d3: "d' = d3" and "r1 = Inr False"
      using swapped one two three by (cases r1; cases r2; cases r3) (auto simp: swap_binary_def)
    have saved: "dk_files d2 = (if dk_files d destination = None then dk_files d
        else (dk_files d)(kept := dk_files d destination))"
      using back_up_one[OF calm name, of root stamp d1 dir d2] two r2 matched(1) kept by simp
    have "dk_files d3 destination = dk_files d2 source"
      using replace_binary_result(1)[OF three apart(4)] r3 by auto
    moreover have "dk_files d3 kept = dk_files d2 kept"
      using replace_binary_result(2)[OF three apart(4)] apart by blast
    ultimately show ?thesis using saved d3 apart by auto
  qed
  then show "dk_files d' destination = dk_files d source"
    and "dk_files d destination \<noteq> None \<Longrightarrow> dk_files d destination \<noteq> dk_files d source \<Longrightarrow>
      dk_files d' kept = dk_files d destination" by blast+
qed

subsection \<open>Results\<close>

lemma run_install_parts:
  assumes "run_install H config_path source ix t d = Some (Inr u, t', d')"
  obtains i t1 d1 t2 d2 programs t3 d3
  where "swap_in H config_path source ix t d = (Inr i, t1, d1)"
    and "register_again H config_path (in_context i) t1 d1 = (Inr (), t2, d2)"
    and "wait_for_takeover H (in_session i) programs (in_backup i) t2 d2 = Some (Inr (), t3, d3)"
    and "report_handover H i t3 d3 = (Inr u, t', d')"
proof -
  obtain r1 t1 d1 where one: "swap_in H config_path source ix t d = (r1, t1, d1)" by (metis prod_cases3)
  then obtain i where i: "r1 = Inr i" using assms by (cases r1) (simp_all add: run_install_def)
  obtain r2 t2 d2 where two: "register_again H config_path (in_context i) t1 d1 = (r2, t2, d2)"
    by (metis prod_cases3)
  then have r2: "r2 = Inr ()" using assms one i by (cases r2) (simp_all add: run_install_def)
  define programs where
    "programs = (case ix_programs ix of None \<Rightarrow> sn_programs (in_session i) | Some given \<Rightarrow> given)"
  obtain r3 t3 d3 where three: "wait_for_takeover H (in_session i) programs (in_backup i) t2 d2 = Some (r3, t3, d3)"
    using assms one two i r2
    by (cases "wait_for_takeover H (in_session i) programs (in_backup i) t2 d2")
       (auto simp: run_install_def programs_def)
  then have r3: "r3 = Inr ()" and "report_handover H i t3 d3 = (Inr u, t', d')"
    using assms one two i r2 by (cases r3; simp add: run_install_def programs_def)+
  with that one two three i r2 show ?thesis by blast
qed

lemma report_handover_ok:
  assumes "report_handover H i t d = (Inr u, t', d')"
  shows "\<exists>later d1. dump_snapshot (host_dump.truncate H) (pa_dump_file (sn_paths (in_session i))) d = (Inr later, d1) \<and>
    (\<forall>row\<in>set (in_before i). change_of later row \<noteq> ChangedLost)"
  using assms
  by (auto simp: report_handover_def compare_handover_spec filter_empty_conv Let_def
      split: prod.splits sum.splits if_splits)

lemma run_install_returns:
  assumes "clock_advances H"
  shows "\<exists>r. run_install H config_path source ix t d = Some r"
proof -
  obtain r1 t1 d1 where one: "swap_in H config_path source ix t d = (r1, t1, d1)" by (metis prod_cases3)
  show ?thesis
  proof (cases r1)
    case (Inr i)
    obtain r2 t2 d2 where two: "register_again H config_path (in_context i) t1 d1 = (r2, t2, d2)"
      by (metis prod_cases3)
    define programs where
      "programs = (case ix_programs ix of None \<Rightarrow> sn_programs (in_session i) | Some given \<Rightarrow> given)"
    obtain r3 t3 d3 where "wait_for_takeover H (in_session i) programs (in_backup i) t2 d2 = Some (r3, t3, d3)"
      using wait_for_takeover_returns[OF assms] by (metis prod_cases3)
    then show ?thesis
      using one two Inr by (cases r2) (simp_all add: run_install_def programs_def del: split_paired_Ex)
  qed (use one in \<open>simp add: run_install_def del: split_paired_Ex\<close>)
qed

end
