(* ===== verification/Command_Line.thy ===== *)
theory Command_Line
  imports Log_Command Service_Install
begin

text \<open>
  The command line (\<open>frameworks/src/cli.rs\<close>, \<open>main.rs\<close>): the commands as clap delivers them, what each of
  them runs, what is printed and the exit code. Parsing the arguments and the text of a shell completion
  are clap's; the daemon in the foreground is \<open>Daemon_Run\<close> and stands here as a parameter.
\<close>

subsection \<open>Commands\<close>

record logs_args =
  la_lines :: "nat option"
  la_nostream :: bool
  la_err :: bool
  la_all :: bool
  la_clear :: bool
  la_names :: "string list"

datatype config_command = CheckCommand | ShowCommand

datatype cli_command =
    StartCommand start_args
  | StopCommand string
  | RestartCommand string
  | DeleteCommand string
  | ResetCommand string
  | SendSignalCommand string string
  | DescribeCommand string bool
  | ListCommand bool bool
  | LogsCommand logs_args
  | ConfigCommand config_command
  | StartupCommand bool bool bool
  | UnstartupCommand bool
  | InstallCommand "string option"
  | ShutdownCommand bool
  | DaemonCommand
  | CompletionCommand string
  | SleepCommand u64

record cli =
  cl_config :: string
  cl_command :: cli_command

definition default_config :: "string option \<Rightarrow> string option \<Rightarrow> string option \<Rightarrow> string option \<Rightarrow> string" where
  "default_config pm3_home_env pm3_config_env xdg_env home_env =
     (case default_config_path pm3_home_env pm3_config_env xdg_env home_env of
        Inl unresolved \<Rightarrow> CONFIG_FILE
      | Inr path \<Rightarrow> path)"

definition host_default_config :: "'a host_client_scheme \<Rightarrow> string" where
  "host_default_config H =
     default_config (host_pm3_home H) (host_pm3_config_dir H) (xdg_config_env H) (host_home H)"

subsection \<open>Running a command\<close>

definition logs_request_of :: "logs_args \<Rightarrow> log_request" where
  "logs_request_of a =
     \<lparr>lq_names = la_names a, lq_lines = la_lines a, lq_err = la_err a, lq_all = la_all a,
      lq_follow = (\<not> la_nostream a), lq_action = (if la_clear a then ClearLogs else ShowLogs),
      lq_polls = FOLLOW_FOREVER\<rparr>"

definition run_auto_start ::
  "'a host_client_scheme \<Rightarrow> string \<Rightarrow> bool \<Rightarrow> bool \<Rightarrow> bool \<Rightarrow> disk \<Rightarrow> (pm3_error + string) \<times> disk" where
  "run_auto_start H config dry_run force status d =
     run_service H config (if status then StatusAction else InstallAction dry_run force) d"

definition run_config ::
  "'a host_client_scheme \<Rightarrow> string \<Rightarrow> config_command \<Rightarrow> disk \<Rightarrow> (pm3_error + string) \<times> disk" where
  "run_config H config command d =
     apfst (map_sum FeAdapter id)
       (case command of
          CheckCommand \<Rightarrow> check_config (hs_files H) (hs_env H) (ho_config H) config d
        | ShowCommand \<Rightarrow> show_config (hs_files H) (hs_env H) (ho_config H) (ho_config_yaml H) config d)"

text \<open>A command that answers with one text; one that prints nothing of its own.\<close>

definition answer ::
  "(pm3_error + string) \<times> disk \<Rightarrow> terminal \<Rightarrow> ((pm3_error + string option) \<times> terminal \<times> disk) option" where
  "answer r t = (case r of (result, d) \<Rightarrow> Some (map_sum id Some result, t, d))"

definition execute ::
  "'a host_client_scheme \<Rightarrow> (string \<Rightarrow> disk \<Rightarrow> (pm3_error + unit) \<times> disk) \<Rightarrow> (string \<Rightarrow> string) \<Rightarrow> cli \<Rightarrow>
     terminal \<Rightarrow> disk \<Rightarrow> ((pm3_error + string option) \<times> terminal \<times> disk) option"
where
  "execute H foreground completion invoked t d =
     (let config = cl_config invoked in
      case cl_command invoked of
        StartCommand a \<Rightarrow> Some (run_start H config a t d)
      | StopCommand selector \<Rightarrow> answer (act_on_app H config selector STOP_ACTION d) t
      | RestartCommand selector \<Rightarrow> answer (act_on_app H config selector RESTART_ACTION d) t
      | DeleteCommand selector \<Rightarrow> answer (client_delete_app H config selector d) t
      | ResetCommand selector \<Rightarrow> answer (act_on_app H config selector RESET_ACTION d) t
      | SendSignalCommand signal selector \<Rightarrow> answer (client_signal_app H config selector signal d) t
      | DescribeCommand selector json \<Rightarrow> answer (client_describe_app H config selector json d) t
      | ListCommand json full \<Rightarrow> answer (client_list_apps H config json full d) t
      | LogsCommand a \<Rightarrow> Some (run_logs H config (logs_request_of a) t d)
      | ConfigCommand command \<Rightarrow> answer (run_config H config command d) t
      | StartupCommand dry_run force status \<Rightarrow> answer (run_auto_start H config dry_run force status d) t
      | UnstartupCommand dry_run \<Rightarrow> answer (run_service H config (UninstallAction dry_run) d) t
      | InstallCommand source \<Rightarrow>
          do { (result, t, d) \<leftarrow> install_here H config source t d;
               Some (map_sum id (\<lambda>_. None) result, t, d) }
      | ShutdownCommand with_services \<Rightarrow> answer (shutdown_daemon H config with_services d) t
      | DaemonCommand \<Rightarrow> (case foreground config d of (result, d) \<Rightarrow> Some (map_sum id (\<lambda>_. None) result, t, d))
      | CompletionCommand shell \<Rightarrow> Some (Inr None, t\<lparr>tm_output := tm_output t @ completion shell\<rparr>, d)
      | SleepCommand ms \<Rightarrow> Some (Inr None, t, d))"

definition dispatch_command ::
  "'a host_client_scheme \<Rightarrow> (string \<Rightarrow> disk \<Rightarrow> (pm3_error + unit) \<times> disk) \<Rightarrow> (string \<Rightarrow> string) \<Rightarrow> cli \<Rightarrow>
     terminal \<Rightarrow> disk \<Rightarrow> ((pm3_error + unit) \<times> terminal \<times> disk) option"
where
  "dispatch_command H foreground completion invoked t d =
     do { (printed, t, d) \<leftarrow> execute H foreground completion invoked t d;
          Some (case printed of
             Inl e \<Rightarrow> (Inl e, t, d)
           | Inr None \<Rightarrow> (Inr (), t, d)
           | Inr (Some shown) \<Rightarrow> (Inr (), emit shown t, d)) }"

text \<open>The exit code and what goes to standard error.\<close>

definition report_outcome :: "pm3_error + unit \<Rightarrow> nat \<times> string" where
  "report_outcome outcome =
     (case outcome of
        Inr _ \<Rightarrow> (0, [])
      | Inl error \<Rightarrow> (1, pm3_error_text error @ [CHR 0x0A]))"

definition main_command ::
  "'a host_client_scheme \<Rightarrow> (string \<Rightarrow> disk \<Rightarrow> (pm3_error + unit) \<times> disk) \<Rightarrow> (string \<Rightarrow> string) \<Rightarrow> cli \<Rightarrow>
     terminal \<Rightarrow> disk \<Rightarrow> ((nat \<times> string) \<times> terminal \<times> disk) option"
where
  "main_command H foreground completion invoked t d =
     do { (outcome, t, d) \<leftarrow> dispatch_command H foreground completion invoked t d;
          Some (report_outcome outcome, t, d) }"

subsection \<open>Every command returns\<close>

lemma execute_returns:
  assumes "clock_advances H"
  shows "\<exists>r. execute H foreground completion invoked t d = Some r"
proof -
  have installed: "\<exists>r t' d'. install_here H config source t d = Some (r, t', d')" for config source
    using run_install_returns[OF assms] unfolding install_here_def by (metis prod_cases3)
  show ?thesis
  proof (cases "cl_command invoked")
    case (InstallCommand source)
    with installed[of "cl_config invoked" source] show ?thesis by (auto simp: execute_def)
  qed (simp_all add: execute_def answer_def del: split_paired_Ex split: prod.split)
qed

lemma main_command_returns:
  assumes "clock_advances H"
  shows "\<exists>code shown t' d'. main_command H foreground completion invoked t d = Some ((code, shown), t', d')"
  using execute_returns[OF assms, of foreground completion invoked t d]
  by (auto simp: main_command_def dispatch_command_def split: prod.splits)

text \<open>The exit code tells a failure, and only a failure writes to standard error.\<close>

lemma report_outcome_iff:
  "fst (report_outcome outcome) = 0 \<longleftrightarrow> (\<exists>u. outcome = Inr u)"
  "snd (report_outcome outcome) = [] \<longleftrightarrow> (\<exists>u. outcome = Inr u)"
  by (auto simp: report_outcome_def split: sum.split)

text \<open>
  Without a configuration named on the command line, the client and the unit of the daemon read the same
  file: the one below the root that \<open>PM3_HOME\<close>, \<open>PM3_CONFIG_DIR\<close>, XDG and the home directory give.
\<close>

lemma default_config_is_the_daemons:
  assumes resolved: "roots_from pm3 sources = Inr roots"
    and home: "overriding (rt_pm3_home sources) (Config.pm3_home pm3) = None" "is_named (rt_pm3_home sources) = None"
  shows "default_config (rt_pm3_home sources) (rt_config sources) (rt_xdg_config sources) (rt_home sources)
    = pa_config_file (resolve_paths roots)"
proof -
  have "resolve_config_root (rt_config sources) (rt_xdg_config sources) (rt_home sources) = Inr (ro_config roots)"
    using resolved home(1)
    by (simp add: roots_from_def roots_split_def split: sum.split_asm) auto
  from default_config_path_of_roots[OF home(2) this] show ?thesis by (simp add: default_config_def)
qed

end
