(* ===== verification/Notifications.thy ===== *)
theory Notifications
  imports Config Commands Programs Alerts_Timers Sandbox_Wrap
begin

text \<open>
  What the daemon asks of the desktop and of the platform: the text of a notification and the command
  that shows it (\<open>adapters/src/notify\<close>, \<open>frameworks/src/notifier.rs\<close>), the sandbox program that is found
  (\<open>adapters/src/sandbox/backend.rs\<close>, \<open>frameworks/src/sandbox_probe.rs\<close>) and, on macOS, the trampoline a
  process is launched through (\<open>frameworks/src/disclaim.rs\<close>; the spawn call itself is foreign code).
\<close>

subsection \<open>The text of an alert\<close>

definition NAME_PLACEHOLDER :: string where "NAME_PLACEHOLDER = ''{name}''"
definition CODE_PLACEHOLDER :: string where "CODE_PLACEHOLDER = ''{code}''"
definition DOWNSTREAM_PLACEHOLDER :: string where "DOWNSTREAM_PLACEHOLDER = ''{downstream}''"

definition alert_body :: "notify_messages \<Rightarrow> alert_kind \<Rightarrow> string" where
  "alert_body messages kind =
     (case kind of
        Exited (Code code) \<Rightarrow> replace_all CODE_PLACEHOLDER (show_int code) (nm_exited_code messages)
      | Exited _ \<Rightarrow> nm_exited_signal messages
      | ReadyFailed downstream \<Rightarrow>
          if downstream = [] then nm_ready_failed messages
          else replace_all DOWNSTREAM_PLACEHOLDER (join '', '' downstream) (nm_ready_failed_downstream messages)
      | LivenessKilled \<Rightarrow> nm_liveness_killed messages
      | MemoryKilled \<Rightarrow> nm_memory_killed messages
      | LaunchFailed \<Rightarrow> nm_launch_failed messages)"

definition render_alert :: "notify_config \<Rightarrow> alert \<Rightarrow> string \<times> string" where
  "render_alert config a =
     (replace_all NAME_PLACEHOLDER (al_name a) (nc_title config), alert_body (nc_messages config) (al_kind a))"

subsection \<open>The command that shows it\<close>

datatype notify_backend = Osascript | NotifySend

definition OSASCRIPT_SCRIPT :: "string list" where
  "OSASCRIPT_SCRIPT =
     [''-e'', ''on run argv'',
      ''-e'', ''display notification (item 2 of argv) with title (item 1 of argv)'',
      ''-e'', ''end run'']"

definition notify_argv :: "notify_backend \<Rightarrow> string \<Rightarrow> string \<Rightarrow> string list" where
  "notify_argv backend title body =
     (case backend of Osascript \<Rightarrow> OSASCRIPT_SCRIPT | NotifySend \<Rightarrow> []) @ [title, body]"

definition notify_program :: "notify_backend \<Rightarrow> notify_config \<Rightarrow> string" where
  "notify_program backend config =
     (case backend of
        Osascript \<Rightarrow> nc_osascript_program config
      | NotifySend \<Rightarrow> nc_notify_send_program config)"

record desktop_notifier =
  dn_backends :: "notify_backend list"
  dn_config :: notify_config
  dn_timeout_ms :: u64
  dn_search_path :: string

definition notifier_new :: "notify_config \<Rightarrow> notify_backend list \<Rightarrow> u64 \<Rightarrow> string \<Rightarrow> desktop_notifier" where
  "notifier_new config preferred timeout_ms search_path =
     \<lparr>dn_backends = (if nc_enabled config then preferred else []), dn_config = config,
      dn_timeout_ms = timeout_ms, dn_search_path = search_path\<rparr>"

definition PREFERRED_NOTIFIERS :: "notify_backend list" where
  "PREFERRED_NOTIFIERS = [NotifySend]"

definition desktop_notifier_of :: "pm3_config \<Rightarrow> desktop_notifier" where
  "desktop_notifier_of config =
     notifier_new (pm3_notify config) PREFERRED_NOTIFIERS (pm3_command_timeout_ms config) (pm3_search_path config)"

text \<open>
  A notification that is not shown is only logged. \<open>Inl\<close> is the reason in the log, \<open>Inr\<close> says that the
  program ended well; with it comes the command that was run, if one was.
\<close>

definition notify_send ::
  "(string \<Rightarrow> bool) \<Rightarrow> (helper_command \<Rightarrow> u64 \<Rightarrow> command_outcome) \<Rightarrow> desktop_notifier \<Rightarrow> notify_backend \<Rightarrow>
     string \<Rightarrow> string \<Rightarrow> (string + unit) \<times> helper_command option" where
  "notify_send is_executable run N backend title body =
     (case resolve_with is_executable (notify_program backend (dn_config N)) (Some (dn_search_path N)) of
        None \<Rightarrow> (Inl ''cannot find the program on pm3.search_path'', None)
      | Some resolved \<Rightarrow>
          (let command = \<lparr>hc_program = resolved, hc_env = [], hc_args = notify_argv backend title body\<rparr> in
           (case run command (dn_timeout_ms N) of
              CommandFinished out \<Rightarrow>
                if status_success (co_status out) then Inr () else Inl (from_utf8_lossy (co_stderr out))
            | CommandStalled \<Rightarrow> Inl ''the program timed out''
            | SpawnFailed reason \<Rightarrow> Inl reason,
            Some command)))"

definition notify_alert ::
  "(string \<Rightarrow> bool) \<Rightarrow> (helper_command \<Rightarrow> u64 \<Rightarrow> command_outcome) \<Rightarrow> desktop_notifier \<Rightarrow> alert \<Rightarrow>
     ((string + unit) \<times> helper_command option) list" where
  "notify_alert is_executable run N a =
     (let (title, body) = render_alert (dn_config N) a in
      map (\<lambda>backend. notify_send is_executable run N backend title body) (dn_backends N))"

text \<open>
  What an operator configures and what a service is called never becomes part of the script: the title
  and the body are the last two arguments, each one argument, and nothing runs when notifications are off.
\<close>

lemma notification_is_two_arguments:
  assumes "(r, Some command) \<in> set (notify_alert is_executable run N a)"
  shows "\<exists>backend\<in>set (dn_backends N).
    is_executable (hc_program command) \<and>
    hc_args command = (if backend = Osascript then OSASCRIPT_SCRIPT else []) @
      [fst (render_alert (dn_config N) a), snd (render_alert (dn_config N) a)]"
proof -
  obtain title body where rendered: "render_alert (dn_config N) a = (title, body)" by fastforce
  then obtain backend where "backend \<in> set (dn_backends N)"
    and sent: "notify_send is_executable run N backend title body = (r, Some command)"
    using assms by (auto simp: notify_alert_def)
  moreover have "is_executable (hc_program command)" "hc_args command = notify_argv backend title body"
    using sent by (auto simp: notify_send_def Let_def resolve_with_def find_Some_iff
        split: option.splits if_splits)
  ultimately show ?thesis
    using rendered by (intro bexI[of _ backend]) (auto simp: notify_argv_def split: notify_backend.split)
qed

lemma disabled_notifier_is_silent:
  "\<not> nc_enabled config \<Longrightarrow> notify_alert is_executable run (notifier_new config preferred timeout_ms search_path) a = []"
  by (simp add: notify_alert_def notifier_new_def split: prod.split)

subsection \<open>The sandbox of the host\<close>

record sandbox_program_set =
  bp_seatbelt :: string
  bp_bwrap :: string

definition sandbox_programs_from_config :: "sandbox_config \<Rightarrow> sandbox_program_set" where
  "sandbox_programs_from_config config =
     \<lparr>bp_seatbelt = sc_seatbelt_program config, bp_bwrap = sc_bwrap_program config\<rparr>"

definition sandbox_program :: "sandbox_program_set \<Rightarrow> sandbox_backend \<Rightarrow> string" where
  "sandbox_program programs backend =
     (case backend of Seatbelt \<Rightarrow> bp_seatbelt programs | Bwrap \<Rightarrow> bp_bwrap programs)"

definition backend_resolve ::
  "(string \<Rightarrow> bool) \<Rightarrow> sandbox_backend \<Rightarrow> sandbox_program_set \<Rightarrow> string option \<Rightarrow> host_sandbox option" where
  "backend_resolve is_executable backend programs search_path =
     map_option (\<lambda>program. \<lparr>hs_backend = backend, hs_program = program\<rparr>)
       (resolve_with is_executable (sandbox_program programs backend) search_path)"

definition PREFERRED_BACKENDS :: "sandbox_backend list" where
  "PREFERRED_BACKENDS = [Bwrap]"

fun find_map :: "('a \<Rightarrow> 'b option) \<Rightarrow> 'a list \<Rightarrow> 'b option" where
  "find_map f [] = None"
| "find_map f (x # xs) = (case f x of Some y \<Rightarrow> Some y | None \<Rightarrow> find_map f xs)"

definition probe_backend :: "(sandbox_backend \<Rightarrow> host_sandbox option) \<Rightarrow> host_sandbox option" where
  "probe_backend resolve = find_map resolve PREFERRED_BACKENDS"

definition detect_host_backend ::
  "(string \<Rightarrow> bool) \<Rightarrow> sandbox_program_set \<Rightarrow> string \<Rightarrow> host_sandbox option" where
  "detect_host_backend is_executable programs search_path =
     probe_backend (\<lambda>backend. backend_resolve is_executable backend programs (Some search_path))"

text \<open>Without a usable backend a confined service does not start at all.\<close>

lemma no_backend_refuses:
  assumes "detect_host_backend is_executable programs search_path = None"
    and "\<not> is_unconfined (sb_mode policy)"
  shows "sandbox_wrap texts (detect_host_backend is_executable programs search_path) roots app policy program arguments
    = Inl (NoBackend app)"
  using assms by (simp add: sandbox_wrap_def)

lemma detected_backend:
  assumes "detect_host_backend is_executable programs search_path = Some host"
  shows "hs_backend host = Bwrap \<and> is_executable (hs_program host)"
  using assms
  by (auto simp: detect_host_backend_def probe_backend_def PREFERRED_BACKENDS_def backend_resolve_def
      resolve_with_def find_Some_iff split: option.splits if_splits)

subsection \<open>The trampoline of macOS\<close>

record spawn_traits =
  st_disclaim :: int
  st_process_type :: int
  st_qos_clamp :: u64

definition TRAMPOLINE_SUBCOMMAND :: string where "TRAMPOLINE_SUBCOMMAND = ''__disclaim''"
definition DISCLAIM :: int where "DISCLAIM = 1"
definition KEEP_RESPONSIBLE :: int where "KEEP_RESPONSIBLE = 0"
definition NO_CLAMP :: u64 where "NO_CLAMP = 0"
definition CLAMP_UTILITY :: u64 where "CLAMP_UTILITY = 1"
definition DAEMON_STANDARD :: int where "DAEMON_STANDARD = 0x300"
definition DAEMON_INTERACTIVE :: int where "DAEMON_INTERACTIVE = 0x400"
definition DAEMON_BACKGROUND :: int where "DAEMON_BACKGROUND = 0x500"

definition spawn_traits_of :: "bool \<Rightarrow> priority \<Rightarrow> spawn_traits" where
  "spawn_traits_of own priority =
     (let (process_type, qos_clamp) =
        (case priority of
           Background \<Rightarrow> (DAEMON_BACKGROUND, NO_CLAMP)
         | Standard \<Rightarrow> (DAEMON_STANDARD, CLAMP_UTILITY)
         | Interactive \<Rightarrow> (DAEMON_INTERACTIVE, NO_CLAMP)) in
      \<lparr>st_disclaim = (if own then DISCLAIM else KEEP_RESPONSIBLE),
       st_process_type = process_type, st_qos_clamp = qos_clamp\<rparr>)"

definition trampoline_wrap :: "(string \<Rightarrow> bool) \<Rightarrow> string \<Rightarrow> launch_spec \<Rightarrow> launch_error + launch_spec" where
  "trampoline_wrap is_executable executable spec =
     (if resolve_with is_executable (ls_program spec) None = None
      then Inl (Spawn (ls_name spec) (quoted (ls_program spec) @ '' is not an executable file''))
      else
       (let traits = spawn_traits_of (ls_self_responsible spec) (ls_priority spec) in
        Inr (spec\<lparr>ls_program := executable,
          ls_args := [TRAMPOLINE_SUBCOMMAND, ''--disclaim'', show_int (st_disclaim traits),
            ''--process-type'', show_int (st_process_type traits),
            ''--qos-clamp'', show_word (st_qos_clamp traits), ''--'', ls_program spec] @ ls_args spec\<rparr>)))"

text \<open>The trampoline is told the program and its arguments unchanged, behind the separator.\<close>

lemma trampoline_keeps_the_command:
  assumes "trampoline_wrap is_executable executable spec = Inr wrapped"
  shows "\<exists>head. ls_args wrapped = head @ ''--'' # ls_program spec # ls_args spec \<and> ''--'' \<notin> set head"
    and "ls_env wrapped = ls_env spec" and "ls_cwd wrapped = ls_cwd spec"
    and "stdout_path wrapped = stdout_path spec" and "stderr_path wrapped = stderr_path spec"
    and "is_absolute_path (ls_program spec) \<and> is_executable (ls_program spec)"
proof -
  let ?traits = "spawn_traits_of (ls_self_responsible spec) (ls_priority spec)"
  have no_dash: "c \<noteq> CHR ''-''" if "c \<in> set (show_nat n)" for c n
    using that show_nat_digits[of n] by (auto simp: is_digit_def list_all_iff)
  have "show_nat n \<noteq> ''-''" "show_nat n \<noteq> ''--''" for n
    using no_dash[of "CHR ''-''" n] by auto
  then have "show_int i \<noteq> ''--''" "show_word w \<noteq> ''--''" for i and w :: u64
    by (simp_all add: show_int_def show_word_def)
  then have "''--'' \<noteq> show_int i" "''--'' \<noteq> show_word w" for i and w :: u64
    by metis+
  then show "\<exists>head. ls_args wrapped = head @ ''--'' # ls_program spec # ls_args spec \<and> ''--'' \<notin> set head"
    using assms
    by (intro exI[of _ "[TRAMPOLINE_SUBCOMMAND, ''--disclaim'', show_int (st_disclaim ?traits),
            ''--process-type'', show_int (st_process_type ?traits),
            ''--qos-clamp'', show_word (st_qos_clamp ?traits)]"])
       (auto simp: trampoline_wrap_def Let_def TRAMPOLINE_SUBCOMMAND_def split: if_splits)
  show "ls_env wrapped = ls_env spec" "ls_cwd wrapped = ls_cwd spec"
    "stdout_path wrapped = stdout_path spec" "stderr_path wrapped = stderr_path spec"
    using assms by (auto simp: trampoline_wrap_def Let_def split: if_splits)
  show "is_absolute_path (ls_program spec) \<and> is_executable (ls_program spec)"
    using assms by (auto simp: trampoline_wrap_def resolve_with_def split: if_splits)
qed

end
