(* ===== verification/Daemon_Ports.thy ===== *)
theory Daemon_Ports
  imports Notifications State_File Host_Processes Watching Log_Files Schedules Host_Layout Daemon
begin

text \<open>
  The daemon put together: the ports of the use cases backed by the adapters
  (\<open>frameworks/src/daemon/ports.rs\<close>). The host is a record of what it answers after each
  history; the laws the use cases ask of their ports are proved of it.
\<close>

subsection \<open>The host of a daemon\<close>

record ('cron, 'time, 'naive) daemon_host = host_client +
  dh_disk :: "history \<Rightarrow> disk"
  dh_clock_ms :: "history \<Rightarrow> nat"
  dh_tracked :: "history \<Rightarrow> tracked"
  dh_append_fails :: "history \<Rightarrow> string \<Rightarrow> string option"
  dh_start :: "history \<Rightarrow> process_command \<Rightarrow> string + u32"
  dh_run :: "history \<Rightarrow> nat \<Rightarrow> runner"
  dh_elapsed :: "history \<Rightarrow> nat \<Rightarrow> nat"
  dh_sha256 :: "string \<Rightarrow> string"
  dh_logs :: "history \<Rightarrow> io_error + string option list"
  dh_executable :: "history \<Rightarrow> string \<Rightarrow> bool"
  dh_probe_run :: "history \<Rightarrow> string \<Rightarrow> string list \<Rightarrow> probe_run"
  dh_connects :: "history \<Rightarrow> string \<Rightarrow> u16 \<Rightarrow> bool"
  dh_seatbelt :: seatbelt_texts
  dh_calendar :: "('cron, 'time, 'naive) calendar"
  dh_seeded :: "u64 \<Rightarrow> generator"
  dh_resumed :: "history \<Rightarrow> nat"

text \<open>The clock of the system, as milliseconds of 64 bits.\<close>

definition system_now_ms :: "nat \<Rightarrow> u64" where
  "system_now_ms since_epoch = (if since_epoch < 2 ^ 64 then of_nat since_epoch else -1)"

definition sha256_digest :: "(string \<Rightarrow> string) \<Rightarrow> string \<Rightarrow> string" where
  "sha256_digest sha256 contents = hex_text (sha256 contents)"

definition sha256_file_digest ::
  "host_files \<Rightarrow> (string \<Rightarrow> string) \<Rightarrow> string \<Rightarrow> disk \<Rightarrow> (fingerprint_error + string) \<times> disk" where
  "sha256_file_digest E sha256 path d =
     (case read_to_string E path d of
        (Inl e, d) \<Rightarrow> (Inl (ReadProgram path (io_error_text e)), d)
      | (Inr bytes, d) \<Rightarrow> (Inr (hex_text (sha256 bytes)), d))"

subsection \<open>The ports of the daemon\<close>

record daemon_ports =
  dp_signaler :: kill_signaler
  dp_backend :: "host_sandbox option"
  dp_minimal_read_roots :: "string list"
  dp_store :: yaml_dump_store
  dp_probe :: ps_process_probe
  dp_cadence :: poll_cadence
  dp_search_path :: string
  dp_notifier :: desktop_notifier

definition daemon_ports_new :: "string \<Rightarrow> spec_source \<Rightarrow> host_sandbox option \<Rightarrow> daemon_ports" where
  "daemon_ports_new dump_file specs backend =
     (let config = ss_config specs in
      \<lparr>dp_signaler = with_stop_signal (pm3_stop_signal config) (pm3_command_timeout_ms config),
       dp_backend = backend, dp_minimal_read_roots = sc_minimal_read_roots (pm3_sandbox config),
       dp_store = \<lparr>yd_path = dump_file, yd_specs = specs\<rparr>,
       dp_probe = probe_with_timeout (pm3_command_timeout_ms config) (pm3_daemon_poll_interval_ms config),
       dp_cadence = \<lparr>pd_interval_ms = pm3_daemon_poll_interval_ms config,
         pd_max_interval_ms = pm3_daemon_poll_max_interval_ms config\<rparr>,
       dp_search_path = pm3_search_path config, dp_notifier = desktop_notifier_of config\<rparr>)"

text \<open>
  Each port is the operation of its adapter. A poll of the host's processes that would never return is
  read as its last answer; \<open>polls_return\<close> shows that it does return. The search for a fire that panics
  is read as no fire: the schedule was checked when the declaration was.
\<close>

definition port_spawn ::
  "('c, 't, 'n, 'z) daemon_host_scheme \<Rightarrow> history \<Rightarrow> launch_spec \<Rightarrow> launch_error + launched_process" where
  "port_spawn H h spec = fst (launcher_spawn (dh_append_fails H h) (dh_start H h) spec (dh_tracked H h))"

definition port_wait_gone ::
  "('c, 't, 'n, 'z) daemon_host_scheme \<Rightarrow> daemon_ports \<Rightarrow> history \<Rightarrow> u32 \<Rightarrow> u64 \<Rightarrow> liveness" where
  "port_wait_gone H D h i timeout_ms =
     (case probe_wait_gone (dp_probe D) (dh_run H h) (dh_elapsed H h) i timeout_ms of
        Some l \<Rightarrow> l | None \<Rightarrow> Unreadable)"

definition port_wait_group_gone ::
  "('c, 't, 'n, 'z) daemon_host_scheme \<Rightarrow> daemon_ports \<Rightarrow> history \<Rightarrow> u32 \<Rightarrow> u64 \<Rightarrow> bool" where
  "port_wait_group_gone H D h pgid timeout_ms =
     (case probe_wait_group_gone (dp_probe D) (dh_run H h) (dh_elapsed H h) pgid timeout_ms of
        Some vacant \<Rightarrow> vacant | None \<Rightarrow> False)"

definition port_load ::
  "('c, 't, 'n, 'z) daemon_host_scheme \<Rightarrow> daemon_ports \<Rightarrow> history \<Rightarrow> dump_error + dump_contents" where
  "port_load H D h = fst (store_load (host_dump.truncate H) (dp_store D) (dh_disk H h))"

definition port_next_fire ::
  "('c, 't, 'n, 'z) daemon_host_scheme \<Rightarrow> string \<Rightarrow> string \<Rightarrow> u64 \<Rightarrow> u64 option" where
  "port_next_fire H app cron after_ms =
     (case next_fire_ms (dh_calendar H) (dh_seeded H) app cron after_ms of Some found \<Rightarrow> found | None \<Rightarrow> None)"

definition ports_of :: "('c, 't, 'n, 'z) daemon_host_scheme \<Rightarrow> daemon_ports \<Rightarrow> ports" where
  "ports_of H D =
     \<lparr>p_now = \<lambda>h. system_now_ms (dh_clock_ms H h),
      p_spawn = port_spawn H,
      p_tracked = \<lambda>h. launcher_tracked_pids (dh_tracked H h),
      p_terminate = \<lambda>h i scope. fst (kill_terminate (dp_signaler D) (dh_run H h) i scope),
      p_force_kill = \<lambda>h i scope. fst (kill_force (dp_signaler D) (dh_run H h) i scope),
      p_deliver = \<lambda>h signal i scope. fst (kill_deliver (dp_signaler D) (dh_run H h) signal i scope),
      p_load = port_load H D,
      p_save = \<lambda>h records boot. fst (store_save (host_dump.truncate H) (dp_store D) records boot (dh_disk H h)),
      p_identity = \<lambda>h i. probe_identity (dp_probe D) (dh_run H h 0) i,
      p_identities = \<lambda>h pids. probe_identities (dp_probe D) (dh_run H h 0) pids,
      p_wait_gone = port_wait_gone H D,
      p_wait_group_gone = port_wait_group_gone H D,
      p_memory = \<lambda>h pids. probe_resident_memory (dp_probe D) (dh_run H h 0) pids,
      p_usage = \<lambda>h pids. probe_resource_usage (dp_probe D) (dh_run H h 0) pids,
      p_file_digest = \<lambda>h path. fst (sha256_file_digest (hs_files H) (dh_sha256 H) path (dh_disk H h)),
      p_rotate = \<lambda>h logs_dir max_bytes.
        fst (copy_truncate_rotate (hs_files H) (dh_logs H h) logs_dir (unat max_bytes) (dh_disk H h)),
      p_check = \<lambda>h probe.
        prober_check_ready (dh_executable H h) (dh_probe_run H h) (dh_connects H h) (dp_search_path D) probe,
      p_wrap = \<lambda>h. sandbox_wrap (dh_seatbelt H) (dp_backend D) (dp_minimal_read_roots D),
      p_digest = sha256_digest (dh_sha256 H),
      p_next_fire = \<lambda>h. port_next_fire H,
      p_schedule = dh_resumed H\<rparr>"

definition resolver_of :: "('c, 't, 'n, 'z) daemon_host_scheme \<Rightarrow> daemon_ports \<Rightarrow> resolver" where
  "resolver_of H D =
     (\<lambda>h name. fst (source_prepare (host_secrets.truncate H) (yd_specs (dp_store D)) name (dh_disk H h)))"

definition ports_notify ::
  "('c, 't, 'n, 'z) daemon_host_scheme \<Rightarrow> daemon_ports \<Rightarrow> history \<Rightarrow> alert \<Rightarrow>
     ((string + unit) \<times> helper_command option) list" where
  "ports_notify H D h a = notify_alert (dh_executable H h) (dh_run H h 0) (dp_notifier D) a"

subsection \<open>The laws of the ports\<close>

text \<open>A state file that names every service once, as the daemon writes it.\<close>

definition single_entries :: "('c, 't, 'n, 'z) daemon_host_scheme \<Rightarrow> bool" where
  "single_entries H \<longleftrightarrow>
     (\<forall>raw doc. hs_read_dump H raw = Inr doc \<longrightarrow> distinct (map dt_name (dd_services doc)))"

text \<open>The clock of a wait advances at least by what is slept.\<close>

definition waits_advance :: "('c, 't, 'n, 'z) daemon_host_scheme \<Rightarrow> daemon_ports \<Rightarrow> bool" where
  "waits_advance H D \<longleftrightarrow>
     (\<forall>h budget. clock_ok (dh_elapsed H h) budget (unat (probe_step (dp_probe D))))"

lemma polls_return:
  assumes "waits_advance H D"
  shows "\<exists>l. probe_wait_gone (dp_probe D) (dh_run H h) (dh_elapsed H h) i timeout_ms = Some l"
    and "\<exists>vacant. probe_wait_group_gone (dp_probe D) (dh_run H h) (dh_elapsed H h) i timeout_ms = Some vacant"
proof -
  have clock: "clock_ok (dh_elapsed H h) (unat timeout_ms) (unat (probe_step (dp_probe D)))"
    using assms by (simp add: waits_advance_def)
  show "\<exists>l. probe_wait_gone (dp_probe D) (dh_run H h) (dh_elapsed H h) i timeout_ms = Some l"
    unfolding probe_wait_gone_def wait_gone_with_def by (rule ps.polls_end[OF clock])
  show "\<exists>vacant. probe_wait_group_gone (dp_probe D) (dh_run H h) (dh_elapsed H h) i timeout_ms = Some vacant"
    unfolding probe_wait_group_gone_def by (rule ps.group_wait_ends[OF clock])
qed

text \<open>What is rejoined carries the name of its entry.\<close>

lemma rejoin_names:
  assumes "rejoin H Y state d = (Inr (RejoinedRecord r), d')"
  shows "record_name r = dt_name state \<and> app_name (pr_spec r) = record_name r"
  using assms resolve_service_name
  by (auto simp: rejoin_def dest!: decode_state_consistent split: sum.splits prod.splits apps_file_error.splits)

lemma collect_names:
  assumes "rejoin_all H Y states d = (outcomes, d')" and "collect_rejoined outcomes start = Inr contents"
  shows "\<exists>found. dc_records contents = dc_records start @ found \<and>
    (\<exists>kept. subseq kept states \<and> map record_name found = map dt_name kept) \<and>
    (\<forall>r\<in>set found. app_name (pr_spec r) = record_name r)"
  using assms
proof (induction states arbitrary: d d' outcomes start)
  case Nil
  then show ?case by auto
next
  case (Cons state states)
  obtain x d1 where first: "rejoin H Y state d = (x, d1)" by fastforce
  obtain rest d2 where rest: "rejoin_all H Y states d1 = (rest, d2)" by fastforce
  have outcomes: "outcomes = x # rest" using Cons.prems(1) first rest by simp
  then obtain found where x: "x = Inr found" using Cons.prems(2) by (cases x) auto
  show ?case
  proof (cases found)
    case (RejoinedRecord r)
    then have "collect_rejoined rest (start\<lparr>dc_records := dc_records start @ [r]\<rparr>) = Inr contents"
      using Cons.prems(2) outcomes x by simp
    from Cons.IH[OF rest this] obtain more_found kept where
        "dc_records contents = (dc_records start @ [r]) @ more_found" "subseq kept states"
        "map record_name more_found = map dt_name kept"
        "\<forall>r\<in>set more_found. app_name (pr_spec r) = record_name r"
      by auto
    then show ?thesis
      using rejoin_names[of H Y state d r d1] first x RejoinedRecord
      by (intro exI[of _ "r # more_found"] conjI exI[of _ "state # kept"]) auto
  next
    case (RejoinedStranded orphan)
    then have "collect_rejoined rest (start\<lparr>dc_stranded := dc_stranded start @ [orphan]\<rparr>) = Inr contents"
      using Cons.prems(2) outcomes x by simp
    from Cons.IH[OF rest this] show ?thesis by (auto intro: subseq_Cons')
  qed
qed

lemma read_document_found:
  assumes "read_document H path d = (Inr (Some doc), d')"
  shows "\<exists>raw. hs_read_dump H raw = Inr doc"
proof -
  obtain r d1 where read: "read_optional (hs_files H) path d = (r, d1)" by fastforce
  show ?thesis
  proof (cases r)
    case (Inr found)
    then obtain raw where "found = Some raw"
      using assms read by (cases found) (auto simp: read_document_def)
    then have "hs_read_dump H raw = Inr doc"
      using assms read Inr by (simp add: read_document_def split: sum.splits)
    then show ?thesis ..
  qed (use assms read in \<open>simp add: read_document_def\<close>)
qed

lemma ports_of_loads_ok:
  assumes "single_entries H"
  shows "loads_ok (ports_of H D)"
proof -
  have "dump_ok contents" if load: "port_load H D h = Inr contents" for h contents
  proof -
    let ?H = "host_dump.truncate H" and ?Y = "dp_store D"
    obtain r d where read: "read_document ?H (yd_path ?Y) (dh_disk H h) = (r, d)" by fastforce
    show ?thesis
    proof (cases r)
      case (Inl e)
      then show ?thesis using load read by (simp add: port_load_def store_load_def)
    next
      case (Inr found)
      show ?thesis
      proof (cases found)
        case None
        then have "contents = no_contents" using load read Inr by (simp add: port_load_def store_load_def)
        then show ?thesis by (simp add: dump_ok_def no_contents_def)
      next
        case (Some doc)
        obtain outcomes d1 where all: "rejoin_all ?H ?Y (dd_services doc) d = (outcomes, d1)" by fastforce
        then have "collect_rejoined outcomes (no_contents\<lparr>dc_boot := dd_boot doc\<rparr>) = Inr contents"
          using load read Inr Some by (simp add: port_load_def store_load_def)
        from collect_names[OF all this] obtain found kept where
            records: "dc_records contents = found" "subseq kept (dd_services doc)"
            "map record_name found = map dt_name kept" "\<forall>r\<in>set found. app_name (pr_spec r) = record_name r"
          by (auto simp: no_contents_def)
        have "distinct (map dt_name (dd_services doc))"
          using read_document_found[of ?H "yd_path ?Y" "dh_disk H h" doc d] read Inr Some assms
          by (auto simp: single_entries_def host_dump.defs)
        then have "distinct (map dt_name kept)"
          using subseq_map[OF records(2), of dt_name] by (auto simp: subseq_conv_nths intro: distinct_nthsI)
        then show ?thesis using records by (simp add: dump_ok_def)
      qed
    qed
  qed
  then show ?thesis by (simp add: loads_ok_def ports_of_def)
qed

lemma resolver_of_ok: "resolver_ok (resolver_of H D)"
  unfolding resolver_of_def by (rule source_resolver_ok)

text \<open>
  The daemon of the adapters never panics: for every host whose state files name a service once, every
  state it reaches satisfies the invariant of the supervisor and serves its next event.
\<close>

locale adapter_host =
  fixes H :: "('c, 't, 'n, 'z) daemon_host_scheme" and D :: daemon_ports
  assumes entries: "single_entries H"

sublocale adapter_host \<subseteq> supervised_host "ports_of H D" "resolver_of H D"
  by unfold_locales (simp_all add: ports_of_loads_ok[OF entries] resolver_of_ok)

lemma assembled_daemon_ok:
  assumes "single_entries H" and "reachable (ports_of H D) (resolver_of H D) w"
  shows "daemon_ok (w_daemon w) \<and> (\<exists>w'. serve (ports_of H D) (resolver_of H D) w = Some w')"
  by (rule supervised_host.next_event_is_served[OF supervised_host.intro
      [OF ports_of_loads_ok[OF assms(1)] resolver_of_ok] assms(2)])

end
