(* ===== verification/Daemon_Run.thy ===== *)
theory Daemon_Run
  imports Daemon_Ports Client_Commands
begin

text \<open>
  The run of a daemon (\<open>frameworks/src/daemon/service.rs\<close>): from the configuration through the layout,
  the shared environment, the socket and the pid file to the event loop, and the removal of the runtime
  files when it ends. The socket is a \<open>socket_place\<close> beside the disk. Telemetry, the limit on open files
  and the banner only report.
\<close>

subsection \<open>Before the loop\<close>

definition daemon_config_of :: "pm3_config \<Rightarrow> daemon_config" where
  "daemon_config_of config =
     \<lparr>cfg_daemon_poll_interval_ms = pm3_daemon_poll_interval_ms config,
      cfg_kill_timeout_ms = pm3_kill_timeout_ms config, cfg_ready_timeout_ms = pm3_ready_timeout_ms config,
      cfg_ready_poll_interval_ms = pm3_ready_poll_interval_ms config,
      cfg_notify_cooldown_ms = nc_cooldown_ms (pm3_notify config),
      cfg_memory_poll_interval_ms = pm3_memory_poll_interval_ms config,
      cfg_liveness_poll_interval_ms = pm3_liveness_poll_interval_ms config,
      cfg_liveness_failure_threshold = pm3_liveness_failure_threshold config,
      cfg_log_rotate_max_bytes = pm3_log_rotate_max_bytes config,
      cfg_log_rotate_interval_ms = pm3_log_rotate_interval_ms config\<rparr>"

definition TMPDIR_VARIABLE :: string where
  "TMPDIR_VARIABLE = ''TMPDIR''"

definition unreadable_global_env :: "apps_file_error \<Rightarrow> pm3_error" where
  "unreadable_global_env error = GlobalEnvironment (apps_file_error_text error)"

definition daemon_specs ::
  "'a host_client_scheme \<Rightarrow> app_config \<Rightarrow> pm3_places \<Rightarrow> env_value list \<Rightarrow> spec_source" where
  "daemon_specs H config places global_env =
     (let paths = pl_paths places in
      \<lparr>ss_cfg_dir = pl_cfg_dir places, ss_config = cfg_pm3 config, ss_home_dir = pa_root paths,
       ss_apps_dir = pa_apps_dir paths, ss_state_dir = ro_state (pa_roots paths),
       ss_runtime_dir = ro_runtime (pa_roots paths), ss_data_dir = ro_data (pa_roots paths),
       ss_host_home = host_home H, ss_logs_dir = pa_logs_dir paths, ss_tmp_dir = env_var H TMPDIR_VARIABLE,
       ss_global_env = global_env, ss_decryptor_env = decryptor_env global_env\<rparr>)"

text \<open>What a daemon holds once it is bound: its declarations, its paths and the owner of its socket.\<close>

record bound_daemon =
  bd_specs :: spec_source
  bd_paths :: pm3_paths
  bd_owner :: "u32 option"

definition enter_daemon ::
  "'a host_client_scheme \<Rightarrow> socket_faults \<Rightarrow> app_config \<Rightarrow> pm3_places \<Rightarrow> env_value list \<Rightarrow> disk \<Rightarrow> socket_place \<Rightarrow>
     (pm3_error + bound_daemon option) \<times> disk \<times> socket_place" where
  "enter_daemon H F config places global_env d s =
     (case bind_uds F (pa_socket (pl_paths places)) s of
        (Inl e, s) \<Rightarrow> (Inl (FeSocket e), d, s)
      | (Inr SocketTaken, s) \<Rightarrow> (Inr None, d, s)
      | (Inr (Bound owner), s) \<Rightarrow>
     (case write_pid_file H (pl_paths places) d of
        (Inl e, d) \<Rightarrow> (Inl e, d, s\<lparr>so_node := Some (SocketNode False)\<rparr>)
      | (Inr _, d) \<Rightarrow>
          (Inr (Some \<lparr>bd_specs = daemon_specs H config places global_env, bd_paths = pl_paths places,
             bd_owner = owner\<rparr>), d, s)))"

definition prepare_daemon ::
  "'a host_client_scheme \<Rightarrow> socket_faults \<Rightarrow> string \<Rightarrow> disk \<Rightarrow> socket_place \<Rightarrow>
     (pm3_error + bound_daemon option) \<times> disk \<times> socket_place" where
  "prepare_daemon H F config_path d s =
     (case load_config_file (hs_files H) (hs_env H) (ho_config H) config_path d of
        (Inl e, d) \<Rightarrow> (Inl (FeAdapter e), d, s)
      | (Inr loaded, d) \<Rightarrow>
     (let config = ld_config loaded; pm3 = cfg_pm3 config; home = host_home H in
      case resolve_places H pm3 home d of
        Inl e \<Rightarrow> (Inl (FePath e), d, s)
      | Inr places \<Rightarrow>
     (case ensure_layout (hs_files H) (pl_paths places) (pl_cfg_dir places) d of
        (Inl e, d) \<Rightarrow> (Inl e, d, s)
      | (Inr _, d) \<Rightarrow>
     (case load_global_env (host_secrets.truncate H) pm3 (ro_config (pa_roots (pl_paths places))) home d of
        (Inl e, d) \<Rightarrow> (Inl (unreadable_global_env e), d, s)
      | (Inr global_env, d) \<Rightarrow> enter_daemon H F config places global_env d s))))"

subsection \<open>The loop and after it\<close>

text \<open>
  The supervised loop: the saved services are taken over first; then the router serves until the drain
  ends. A daemon that cannot take over refuses to start.
\<close>

definition serve_supervised ::
  "('c, 't, 'n, 'z) daemon_host_scheme \<Rightarrow> bound_daemon \<Rightarrow> serve_end \<Rightarrow> (pm3_error + unit) option" where
  "serve_supervised H b finish =
     (let specs = bd_specs b; config = ss_config specs;
          backend = detect_host_backend (dh_executable H []) (sandbox_programs_from_config (pm3_sandbox config))
            (pm3_search_path config);
          D = daemon_ports_new (pa_dump_file (bd_paths b)) specs backend in
      do { started \<leftarrow> boot (ports_of H D) (ss_logs_dir specs) (daemon_config_of config) [];
           Some (case started of
              Inl e \<Rightarrow> Inl (Takeover (usecase_error_text e))
            | Inr _ \<Rightarrow> map_sum FeServer id (drain finish)) })"

definition clear_socket :: "host_files \<Rightarrow> pm3_paths \<Rightarrow> disk \<Rightarrow> socket_place \<Rightarrow> socket_place" where
  "clear_socket E paths d s =
     (case fault_now E (remove_runtime_file E (pa_pid_file paths) d) of
        None \<Rightarrow> s\<lparr>so_node := None\<rparr>
      | Some _ \<Rightarrow> s\<lparr>so_node := Some (SocketNode False)\<rparr>)"

text \<open>\<open>served\<close> is the end of the loop with the disk it leaves.\<close>

definition run_daemon_with_shutdown ::
  "'a host_client_scheme \<Rightarrow> socket_faults \<Rightarrow> (bound_daemon \<Rightarrow> disk \<Rightarrow> (pm3_error + unit) \<times> disk) \<Rightarrow> string \<Rightarrow>
     disk \<Rightarrow> socket_place \<Rightarrow> (pm3_error + unit) \<times> disk \<times> socket_place" where
  "run_daemon_with_shutdown H F served config_path d s =
     (case prepare_daemon H F config_path d s of
        (Inl e, d, s) \<Rightarrow> (Inl e, d, s)
      | (Inr None, d, s) \<Rightarrow> (Inr (), d, s)
      | (Inr (Some b), d, s) \<Rightarrow>
     (case served b d of
        (result, d) \<Rightarrow>
          (result, clear_runtime_files (hs_files H) (bd_paths b) d, clear_socket (hs_files H) (bd_paths b) d s)))"

definition run_daemon ::
  "'a host_client_scheme \<Rightarrow> socket_faults \<Rightarrow> (shutdown_signal \<Rightarrow> string option) \<Rightarrow>
     (bound_daemon \<Rightarrow> disk \<Rightarrow> (pm3_error + unit) \<times> disk) \<Rightarrow> string \<Rightarrow> disk \<Rightarrow> socket_place \<Rightarrow>
     (pm3_error + unit) \<times> disk \<times> socket_place" where
  "run_daemon H F refused served config_path d s =
     (case register_signals refused of
        Inl e \<Rightarrow> (Inl (FeSignalRegister e), d, s)
      | Inr _ \<Rightarrow> run_daemon_with_shutdown H F served config_path d s)"

subsection \<open>One daemon per socket\<close>

text \<open>A second daemon leaves the socket and every file of the first as they are, and never serves.\<close>

lemma enter_daemon_yields:
  assumes "so_node s = Some (SocketNode True)"
    and "enter_daemon H F config places global_env d s = (r, d', s')"
  shows "s' = s \<and> d' = d \<and> (r = Inr None \<or> (\<exists>e. r = Inl (FeSocket e)))"
proof -
  obtain r1 s1 where bound: "bind_uds F (pa_socket (pl_paths places)) s = (r1, s1)" by fastforce
  from bind_keeps_a_live_socket[OF assms(1) bound]
  show ?thesis using assms(2) bound by (auto simp: enter_daemon_def)
qed

text \<open>Nothing before the socket writes a file: directories are made and modes set, no more.\<close>

lemma load_global_env_files: "dk_files (snd (load_global_env H config root home d)) = dk_files d"
proof -
  have plain: "dk_files (snd (plain_values H stem home d)) = dk_files d" for stem
    using load_env_file_files[of "hs_files H" "with_extension stem ENV_FILE_SUFFIX" home d]
    by (auto simp: plain_values_def split: prod.split sum.split)
  show ?thesis
    using plain[of "path_join root GLOBAL_ENV_STEM"] open_secrets_files[of H config "path_join root GLOBAL_ENV_STEM" home]
    by (auto simp: load_global_env_def Let_def split: prod.splits sum.splits) (metis snd_conv)+
qed

lemma ensure_layout_files: "dk_files (snd (ensure_layout E paths cfg_dir d)) = dk_files d"
proof -
  have one: "dk_files (snd (prepare_directory E path d)) = dk_files d" for path d
    by (auto simp: prepare_directory_def restrict_to_owner_def create_dir_all_def tick_def
        split: option.splits prod.splits sum.splits)
  have "dk_files (snd (prepare_directories E dirs d)) = dk_files d" for dirs
  proof (induction dirs arbitrary: d)
    case (Cons dir dirs)
    obtain r d1 where first: "prepare_directory E dir d = (r, d1)" by fastforce
    then show ?case using one[of dir d] Cons[of d1] by (cases r) simp_all
  qed simp
  then show ?thesis by (simp add: ensure_layout_def)
qed

lemma second_daemon_changes_nothing:
  assumes live: "so_node s = Some (SocketNode True)"
    and ran: "run_daemon_with_shutdown H F served config_path d s = (r, d', s')"
  shows "s' = s \<and> dk_files d' = dk_files d \<and>
    run_daemon_with_shutdown H F served' config_path d s = (r, d', s')"
proof -
  obtain r1 d1 s1 where prepared: "prepare_daemon H F config_path d s = (r1, d1, s1)" by (metis prod_cases3)
  have "s1 = s \<and> dk_files d1 = dk_files d \<and> (\<nexists>b. r1 = Inr (Some b))"
  proof -
    obtain loaded d2 where config: "load_config_file (hs_files H) (hs_env H) (ho_config H) config_path d = (loaded, d2)"
      by fastforce
    then have d2: "dk_files d2 = dk_files d" using load_config_file_files by (metis snd_conv)
    show ?thesis
    proof (cases loaded)
      case (Inr l)
      let ?pm3 = "cfg_pm3 (ld_config l)" and ?home = "host_home H"
      show ?thesis
      proof (cases "resolve_places H ?pm3 ?home d2")
        case (Inr places)
        obtain r3 d3 where layout: "ensure_layout (hs_files H) (pl_paths places) (pl_cfg_dir places) d2 = (r3, d3)"
          by fastforce
        then have d3: "dk_files d3 = dk_files d" using ensure_layout_files d2 by (metis snd_conv)
        obtain r4 d4 where shared: "load_global_env (host_secrets.truncate H) ?pm3
            (ro_config (pa_roots (pl_paths places))) ?home d3 = (r4, d4)" by fastforce
        then have d4: "dk_files d4 = dk_files d" using load_global_env_files d3 by (metis snd_conv)
        note steps = prepared config \<open>loaded = Inr l\<close> Inr layout shared
        show ?thesis
        proof (cases r3)
          case (Inr u)
          show ?thesis
          proof (cases r4)
            case (Inr global_env)
            obtain r5 d5 s5 where entered: "enter_daemon H F (ld_config l) places global_env d4 s = (r5, d5, s5)"
              by (metis prod_cases3)
            then have "(r1, d1, s1) = (r5, d5, s5)"
              using steps \<open>r3 = Inr u\<close> Inr by (simp add: prepare_daemon_def Let_def)
            then show ?thesis using enter_daemon_yields[OF live entered] d4 by auto
          qed (use steps \<open>r3 = Inr u\<close> d4 in \<open>auto simp: prepare_daemon_def Let_def\<close>)
        qed (use steps d3 in \<open>auto simp: prepare_daemon_def Let_def\<close>)
      qed (use prepared config \<open>loaded = Inr l\<close> d2 in \<open>auto simp: prepare_daemon_def Let_def\<close>)
    qed (use prepared config d2 in \<open>auto simp: prepare_daemon_def\<close>)
  qed
  then show ?thesis
    using ran prepared by (cases r1) (auto simp: run_daemon_with_shutdown_def split: option.splits)
qed

text \<open>A daemon that got in holds a private socket that nobody else listened on, and its pid is on file.\<close>

lemma enter_daemon_bound:
  assumes calm: "no_faults (hs_files H)"
    and entered: "enter_daemon H F config places global_env d s = (Inr (Some b), d', s')"
  shows "so_node s \<noteq> Some (SocketNode True) \<and> so_node s' = Some (SocketNode True) \<and> so_mode s' = OWNER_ONLY_SOCKET"
    and "bd_paths b = pl_paths places"
    and "fst (read_pid_file (hs_files H) (bd_paths b) d') = Some (ho_pid H)"
proof -
  obtain r1 s1 where bound: "bind_uds F (pa_socket (pl_paths places)) s = (r1, s1)" by fastforce
  then obtain owner where r1: "r1 = Inr (Bound owner)"
    using entered by (cases r1) (auto simp: enter_daemon_def split: bind_outcome.splits)
  obtain r2 d2 where wrote: "write_pid_file H (pl_paths places) d = (r2, d2)" by fastforce
  have parts: "s' = s1" "d' = d2" "bd_paths b = pl_paths places"
    using entered bound r1 wrote by (auto simp: enter_daemon_def split: sum.splits)
  show "so_node s \<noteq> Some (SocketNode True) \<and> so_node s' = Some (SocketNode True) \<and> so_mode s' = OWNER_ONLY_SOCKET"
    using bound_socket_is_private[OF bound[unfolded r1]] parts by blast
  show "bd_paths b = pl_paths places" by (rule parts)
  show "fst (read_pid_file (hs_files H) (bd_paths b) d') = Some (ho_pid H)"
    using read_pid_after_write[OF calm, of "pl_paths places" d] parts wrote by simp
qed

text \<open>
  However the loop ends, the pid file and the socket are gone afterwards; a run that found a living
  daemon removes nothing.
\<close>

lemma run_clears_what_it_made:
  assumes calm: "no_faults (hs_files H)"
    and entered: "prepare_daemon H F config_path d s = (Inr (Some b), d1, s1)"
    and served: "served b d1 = (result, d2)"
    and ran: "run_daemon_with_shutdown H F served config_path d s = (r, d', s')"
  shows "r = result \<and> so_node s' = None \<and>
    dk_files d' = (dk_files d2)(pa_pid_file (bd_paths b) := None, pa_socket (bd_paths b) := None)"
  using ran entered served cleared_runtime_files[OF calm, of "bd_paths b" d2] no_faults_now[OF calm]
  by (auto simp: run_daemon_with_shutdown_def clear_socket_def)

lemma run_beside_a_living_daemon:
  assumes "prepare_daemon H F config_path d s = (Inr None, d1, s1)"
    and "run_daemon_with_shutdown H F served config_path d s = (r, d', s')"
  shows "r = Inr () \<and> d' = d1 \<and> s' = s1"
  using assms by (simp add: run_daemon_with_shutdown_def)

subsection \<open>Taking over always ends\<close>

lemma boot_enters:
  assumes "loads_ok P" and "p_load P h = Inr contents"
  shows "\<exists>w. boot P logs_dir c h = Some (Inr w)"
proof -
  obtain x where x: "boot P logs_dir c h = Some x"
    using boot_returns[OF assms(1), of logs_dir c h] by (auto simp: returns_iff)
  show ?thesis
  proof (cases x)
    case (Inl e)
    then have False
      using x assms(2)
      by (auto simp: boot_def resurrect_saved_apps_def resurrect_saved_def resurrect_def load_dump_def Let_def
          split: bind_splits prod.splits sum.splits if_splits)
    then show ?thesis ..
  qed (use x in simp)
qed

lemma serve_supervised_returns:
  assumes "single_entries H"
  shows "\<exists>r. serve_supervised H b finish = Some r"
proof -
  have "\<exists>x. boot (ports_of H D) logs_dir c h = Some x" for D logs_dir c h
    using boot_returns[OF ports_of_loads_ok[OF assms, of D], of logs_dir c h] by (auto simp: returns_iff)
  then show ?thesis by (simp add: serve_supervised_def Let_def bind_eq_Some_conv)
qed

end
