(* ===== verification/Windows_Processes.thy ===== *)
theory Windows_Processes
  imports Host_Processes
begin

text \<open>
  The windows variants of asking about processes and ending them (\<open>adapters/src/process/win_probe.rs\<close> and
  the windows half of \<open>kill_signaler.rs\<close> and \<open>tokio_launcher.rs\<close>). What \<open>sysinfo\<close> reads of the processes
  is a parameter: a snapshot per question. A process tree is found by climbing from every process to its
  parent a bounded number of times, which is shown to be the tree that the parents span even where the
  parents form a cycle.
\<close>

subsection \<open>Snapshots\<close>

record win_row =
  wr_parent :: "u32 option"
  wr_memory :: u64
  wr_cpu_ms :: u64
  wr_run_s :: u64

text \<open>A hash map is the list of its entries in the order it is iterated.\<close>

type_synonym win_rows = "(u32 \<times> win_row) list"

text \<open>
  \<open>ws_ran\<close> tells whether the blocking task ended well, \<open>ws_start\<close> when a process was started,
  \<open>ws_rows\<close> what is known of every process.
\<close>

record win_snapshot =
  ws_ran :: bool
  ws_start :: "u32 \<Rightarrow> u64 option"
  ws_rows :: win_rows

definition BYTES_PER_KIB :: u64 where "BYTES_PER_KIB = 1024"

record win_process_probe =
  wp_poll_interval_ms :: u64

definition win_probe_with_timeout :: "u64 \<Rightarrow> u64 \<Rightarrow> win_process_probe" where
  "win_probe_with_timeout timeout_ms poll_interval_ms = \<lparr>wp_poll_interval_ms = poll_interval_ms\<rparr>"

definition win_probe_step :: "win_process_probe \<Rightarrow> u64" where
  "win_probe_step P = max (wp_poll_interval_ms P) 1"

definition off_the_runtime :: "win_snapshot \<Rightarrow> 'a \<Rightarrow> (win_snapshot \<Rightarrow> 'a) \<Rightarrow> 'a" where
  "off_the_runtime s otherwise job = (if ws_ran s then job s else otherwise)"

definition win_liveness_of :: "u64 option \<Rightarrow> liveness" where
  "win_liveness_of started = (case started of None \<Rightarrow> Gone | Some at \<Rightarrow> Alive (show_word at))"

definition read_identities :: "u32 list \<Rightarrow> win_snapshot \<Rightarrow> (u32 \<times> liveness) list" where
  "read_identities pids s = map (\<lambda>i. (i, win_liveness_of (ws_start s i))) pids"

subsection \<open>Trees of processes\<close>

fun climbs_to :: "win_rows \<Rightarrow> nat \<Rightarrow> u32 \<Rightarrow> u32 \<Rightarrow> bool" where
  "climbs_to rows 0 current root = False"
| "climbs_to rows (Suc tries) current root =
     (if current = root then True
      else case Option.bind (map_of rows current) wr_parent of
        None \<Rightarrow> False
      | Some parent \<Rightarrow> climbs_to rows tries parent root)"

definition descends_from :: "win_rows \<Rightarrow> u32 \<Rightarrow> u32 \<Rightarrow> bool" where
  "descends_from rows i root = climbs_to rows (length rows + 1) i root"

definition cpu_tenths_of :: "win_row \<Rightarrow> u64" where
  "cpu_tenths_of row = wr_cpu_ms row div max (wr_run_s row) 1"

definition add_win_row :: "u64 \<times> u64 \<Rightarrow> u32 \<times> win_row \<Rightarrow> u64 \<times> u64" where
  "add_win_row totals entry =
     (saturating_add (fst totals) (wr_memory (snd entry) div BYTES_PER_KIB),
      saturating_add (snd totals) (cpu_tenths_of (snd entry)))"

definition tree_sample :: "win_rows \<Rightarrow> u32 \<Rightarrow> resource_sample" where
  "tree_sample rows root =
     (let (rss, cpu) = foldl add_win_row (0, 0) (filter (\<lambda>entry. descends_from rows (fst entry) root) rows) in
      \<lparr>rss_kib = rss, cpu_tenths = (if unat cpu < 2 ^ 32 then ucast cpu else - 1)\<rparr>)"

definition tree_samples :: "win_rows \<Rightarrow> u32 list \<Rightarrow> samples" where
  "tree_samples rows roots =
     foldl (\<lambda>m root. btree_insert root (tree_sample rows root) m) []
       (filter (\<lambda>root. map_of rows root \<noteq> None) roots)"

definition read_samples :: "u32 list \<Rightarrow> win_snapshot \<Rightarrow> samples" where
  "read_samples pids s = tree_samples (ws_rows s) pids"

definition read_tree_members :: "u32 list \<Rightarrow> win_snapshot \<Rightarrow> nat" where
  "read_tree_members roots s =
     sum_list (map (\<lambda>root. length (filter (\<lambda>entry. descends_from (ws_rows s) (fst entry) root) (ws_rows s))) roots)"

subsection \<open>The probe\<close>

definition win_identities :: "win_snapshot \<Rightarrow> u32 list \<Rightarrow> (u32 \<times> liveness) list" where
  "win_identities s pids = off_the_runtime s [] (read_identities pids)"

definition win_identity :: "win_snapshot \<Rightarrow> u32 \<Rightarrow> liveness" where
  "win_identity s i = identity_of_one (win_identities s) i"

definition win_resource_usage :: "win_snapshot \<Rightarrow> u32 list \<Rightarrow> samples" where
  "win_resource_usage s pids = off_the_runtime s [] (read_samples pids)"

definition win_resident_memory :: "win_snapshot \<Rightarrow> u32 list \<Rightarrow> (u32 \<times> u64) list" where
  "win_resident_memory s pids = map (\<lambda>(i, sample). (i, rss_kib sample)) (win_resource_usage s pids)"

text \<open>The answers to the checks of a wait come from successive snapshots.\<close>

definition win_wait_group_gone ::
  "win_process_probe \<Rightarrow> (nat \<Rightarrow> win_snapshot) \<Rightarrow> (nat \<Rightarrow> nat) \<Rightarrow> u32 \<Rightarrow> u64 \<Rightarrow> bool option" where
  "win_wait_group_gone P seen clock pgid timeout_ms =
     poll_until clock
       (\<lambda>k. if off_the_runtime (seen k) 0 (read_tree_members [pgid]) = 0 then Break True else Continue False)
       (unat timeout_ms) (unat (win_probe_step P)) 0"

definition win_wait_gone ::
  "win_process_probe \<Rightarrow> (nat \<Rightarrow> win_snapshot) \<Rightarrow> (nat \<Rightarrow> nat) \<Rightarrow> u32 \<Rightarrow> u64 \<Rightarrow> liveness option" where
  "win_wait_gone P seen clock i timeout_ms =
     wait_gone_with clock (\<lambda>k. win_identity (seen k) i) (unat timeout_ms) (unat (win_probe_step P))"

subsection \<open>Ending processes\<close>

definition win_signal_arguments :: "u32 \<Rightarrow> string list" where
  "win_signal_arguments i = [''/PID'', show_word i, ''/T'', ''/F'']"

definition win_with_stop_signal :: "string \<Rightarrow> u64 \<Rightarrow> string \<Rightarrow> kill_signaler" where
  "win_with_stop_signal stop_signal timeout_ms taskkill_path =
     \<lparr>ks_program = taskkill_path, ks_stop_signal = stop_signal, ks_timeout_ms = timeout_ms\<rparr>"

definition win_signal_command :: "kill_signaler \<Rightarrow> u32 \<Rightarrow> helper_command" where
  "win_signal_command K i = \<lparr>hc_program = ks_program K, hc_env = [], hc_args = win_signal_arguments i\<rparr>"

definition ends_the_tree :: "kill_signaler \<Rightarrow> string \<Rightarrow> u32 \<Rightarrow> signal_error + unit" where
  "ends_the_tree K signal i =
     (if signal = FORCE_SIGNAL then Inr ()
      else if signal = ks_stop_signal K then Inr ()
      else Inl (Delivery i (''windows has no SIG'' @ signal @ '': only '' @ ks_stop_signal K @ '' and '' @
        FORCE_SIGNAL @ '' end the process tree'')))"

definition win_signal :: "kill_signaler \<Rightarrow> runner \<Rightarrow> u32 \<Rightarrow> signal_error + unit" where
  "win_signal K run i =
     (case run (win_signal_command K i) (ks_timeout_ms K) of
        CommandStalled \<Rightarrow>
          Inl (Delivery i (ks_program K @ '' did not answer within '' @ show_word (ks_timeout_ms K) @ ''ms''))
      | SpawnFailed error \<Rightarrow> Inl (Delivery i error)
      | CommandFinished answer \<Rightarrow>
          if status_success (co_status answer) then Inr ()
          else Inl (Delivery i
            (describe_refusal (from_utf8_lossy (co_stderr answer)) (exit_code_of (co_status answer)))))"

definition win_deliver ::
  "kill_signaler \<Rightarrow> runner \<Rightarrow> string \<Rightarrow> u32 \<Rightarrow> (signal_error + unit) \<times> helper_command list" where
  "win_deliver K run signal i =
     (if \<not> is_signalable i then (Inl (Delivery i ''pid is outside the safe range''), [])
      else case ends_the_tree K signal i of
        Inl e \<Rightarrow> (Inl e, [])
      | Inr _ \<Rightarrow> (win_signal K run i, [win_signal_command K i]))"

text \<open>What a child gets of the host's environment although its own is cleared.\<close>

definition WINDOWS_SYSTEM_VARIABLES :: "string list" where
  "WINDOWS_SYSTEM_VARIABLES = [''SystemRoot'', ''windir'', ''SystemDrive'']"

definition windows_system_env :: "(string \<Rightarrow> string option) \<Rightarrow> (string \<times> string) list" where
  "windows_system_env host =
     filter_map (\<lambda>name. map_option (\<lambda>val. (name, val)) (host name)) WINDOWS_SYSTEM_VARIABLES"

subsection \<open>The bounded climb finds the whole tree\<close>

definition parent_relation :: "win_rows \<Rightarrow> (u32 \<times> u32) set" where
  "parent_relation rows = {(child, parent). Option.bind (map_of rows child) wr_parent = Some parent}"

lemma climbs_to_iff: "climbs_to rows tries i root \<longleftrightarrow> (\<exists>k<tries. (i, root) \<in> parent_relation rows ^^ k)"
proof (induction rows tries i root rule: climbs_to.induct)
  case (2 rows tries current root)
  show ?case
  proof (cases "current = root")
    case True
    then show ?thesis by (auto intro!: exI[of _ 0])
  next
    case False
    have steps: "(\<exists>k<Suc tries. (current, root) \<in> parent_relation rows ^^ k) \<longleftrightarrow>
        (\<exists>parent. (current, parent) \<in> parent_relation rows \<and> (\<exists>k<tries. (parent, root) \<in> parent_relation rows ^^ k))"
      (is "?far \<longleftrightarrow> ?near")
    proof
      assume ?far
      then obtain k where k: "k < Suc tries" "(current, root) \<in> parent_relation rows ^^ k" by blast
      with False obtain k' where "k = Suc k'" by (cases k) auto
      with k relpow_Suc_D2 show ?near by (metis Suc_less_eq)
    next
      assume ?near
      then show ?far using relpow_Suc_I2 by (metis Suc_less_eq)
    qed
    show ?thesis
    proof (cases "Option.bind (map_of rows current) wr_parent")
      case None
      then show ?thesis using False unfolding steps by (simp add: parent_relation_def)
    next
      case (Some parent)
      then show ?thesis using False "2.IH"[OF False Some] unfolding steps by (simp add: parent_relation_def)
    qed
  qed
qed simp

lemma finite_parent_relation: "finite (parent_relation rows) \<and> card (parent_relation rows) \<le> length rows"
proof -
  let ?key = "\<lambda>child. (child, the (Option.bind (map_of rows child) wr_parent))"
  have "parent_relation rows \<subseteq> ?key ` set (map fst rows)"
    by (force simp: parent_relation_def bind_eq_Some_conv dest: map_of_SomeD)
  then have "finite (parent_relation rows)" "card (parent_relation rows) \<le> card (?key ` set (map fst rows))"
    by (meson finite_imageI finite_set finite_subset card_mono)+
  moreover have "card (?key ` set (map fst rows)) \<le> length rows"
    using card_image_le[of "set (map fst rows)" ?key] card_length[of "map fst rows"] by simp
  ultimately show ?thesis by linarith
qed

lemma descends_from_iff: "descends_from rows i root \<longleftrightarrow> (i, root) \<in> (parent_relation rows)\<^sup>*"
proof
  assume "descends_from rows i root"
  then show "(i, root) \<in> (parent_relation rows)\<^sup>*"
    unfolding descends_from_def climbs_to_iff using relpow_imp_rtrancl by blast
next
  assume "(i, root) \<in> (parent_relation rows)\<^sup>*"
  then obtain k where "k \<le> card (parent_relation rows)" "(i, root) \<in> parent_relation rows ^^ k"
    using rtrancl_finite_eq_relpow finite_parent_relation[of rows] by blast
  with finite_parent_relation[of rows] have "k < length rows + 1" by linarith
  then show "descends_from rows i root"
    unfolding descends_from_def climbs_to_iff using \<open>(i, root) \<in> parent_relation rows ^^ k\<close> by blast
qed

text \<open>Every process is in its own tree, and a tree holds whatever the tree of a member holds.\<close>

lemma descends_from_order:
  "descends_from rows i i"
  "descends_from rows i j \<Longrightarrow> descends_from rows j root \<Longrightarrow> descends_from rows i root"
  by (auto simp: descends_from_iff)

subsection \<open>Sums over a tree\<close>

lemma min_absorbed: "min c (min a c + b) = min c (a + b :: nat)"
  by linarith

lemma foldl_win_rows:
  "unat (fst (foldl add_win_row totals entries)) =
     min (2 ^ 64 - 1) (unat (fst totals) + sum_list (map (\<lambda>e. unat (wr_memory (snd e) div BYTES_PER_KIB)) entries)) \<and>
   unat (snd (foldl add_win_row totals entries)) =
     min (2 ^ 64 - 1) (unat (snd totals) + sum_list (map (\<lambda>e. unat (cpu_tenths_of (snd e))) entries))"
proof (induction entries arbitrary: totals)
  case Nil
  show ?case
    using unsigned_less[of "fst totals", where 'a = nat] unsigned_less[of "snd totals", where 'a = nat] by simp
next
  case (Cons entry entries)
  show ?case
    using Cons[of "add_win_row totals entry"]
    by (simp add: add_win_row_def unat_saturating_add min_absorbed add.assoc del: foldl_Cons min_def) simp
qed

text \<open>The memory of a tree is that of its members, at most what 64 bits hold.\<close>

lemma tree_sample_memory:
  "unat (rss_kib (tree_sample rows root)) = min (2 ^ 64 - 1)
     (sum_list (map (\<lambda>e. unat (wr_memory (snd e) div BYTES_PER_KIB))
       (filter (\<lambda>e. (fst e, root) \<in> (parent_relation rows)\<^sup>*) rows)))"
  using foldl_win_rows[of "(0, 0)" "filter (\<lambda>e. descends_from rows (fst e) root) rows"]
  by (simp add: tree_sample_def case_prod_beta Let_def descends_from_iff)

text \<open>Without a member a tree is empty, and so it is taken to be when the question could not be asked.\<close>

lemma no_members_iff:
  "read_tree_members [root] s = 0 \<longleftrightarrow>
     (\<forall>i\<in>set (map fst (ws_rows s)). (i, root) \<notin> (parent_relation (ws_rows s))\<^sup>*)"
  by (auto simp: read_tree_members_def descends_from_iff filter_empty_conv)

lemma unasked_group_is_gone:
  "\<not> ws_ran (seen 0) \<Longrightarrow> win_wait_group_gone P seen clock pgid timeout_ms = Some True"
  by (simp add: win_wait_group_gone_def off_the_runtime_def poll_until.simps)

lemma unasked_process_is_unreadable: "\<not> ws_ran s \<Longrightarrow> win_identity s i = Unreadable"
  by (simp add: win_identity_def identity_of_one_def win_identities_def off_the_runtime_def)

text \<open>The probe of windows keeps the interface, and so its waits end as those of unix do.\<close>

interpretation win: process_probe win_identities win_resource_usage
  "\<lambda>s pgid. if off_the_runtime s 0 (read_tree_members [pgid]) = 0 then Break True else Continue False"
  "unat (win_probe_step P)" for P
proof
  fix i l s pids assume "(i, l) \<in> set (win_identities s pids)"
  then show "i \<in> set pids"
    by (auto simp: win_identities_def off_the_runtime_def read_identities_def split: if_splits)
next
  fix i sample s pids assume "(i, sample) \<in> set (win_resource_usage s pids)"
  then have "i \<in> fst ` set (win_resource_usage s pids)" by force
  moreover have "fst ` set (foldl (\<lambda>m root. btree_insert root (f root) m) m roots) \<subseteq> fst ` set m \<union> set roots"
    for f :: "u32 \<Rightarrow> resource_sample" and m roots
    using folded_keys[of "\<lambda>root. Some (f root)" m roots] by simp
  from this[of "tree_sample (ws_rows s)" "[]"] have "fst ` set (win_resource_usage s pids) \<subseteq> set pids"
    by (fastforce simp: win_resource_usage_def off_the_runtime_def read_samples_def tree_samples_def)
  ultimately show "i \<in> set pids" by blast
next
  show "0 < unat (win_probe_step P)"
    using max.cobounded2[of 1 "wp_poll_interval_ms P"] by (simp add: win_probe_step_def word_le_nat_alt)
qed

lemma win_wait_group_gone_returns:
  assumes "clock_ok clock (unat timeout_ms) (unat (win_probe_step P))"
  shows "\<exists>r. win_wait_group_gone P seen clock pgid timeout_ms = Some r"
  unfolding win_wait_group_gone_def by (rule win.group_wait_ends[OF assms])

lemma win_wait_gone_tells:
  assumes "clock_ok clock (unat timeout_ms) (unat (win_probe_step P))"
  obtains n where "win_wait_gone P seen clock i timeout_ms = Some (win_identity (seen n) i)"
    and "win_identity (seen n) i = Gone \<or> unat timeout_ms \<le> clock n"
  unfolding win_wait_gone_def win_identity_def using win.wait_gone_tells[OF assms] by metis

text \<open>Only the stop signal and the forced one end a tree, and nothing but \<open>taskkill\<close> on that pid is run.\<close>

lemma win_deliver_runs:
  "snd (win_deliver K run signal i) =
    (if is_signalable i \<and> (signal = FORCE_SIGNAL \<or> signal = ks_stop_signal K) then [win_signal_command K i] else [])"
  by (simp add: win_deliver_def ends_the_tree_def)

end
