(* ===== verification/Windows_Host.thy ===== *)
theory Windows_Host
  imports Host_Layout Daemon_Socket Install_Files
begin

text \<open>
  The windows variants of the host (the \<open>cfg(windows)\<close> items of \<open>frameworks/src/layout.rs\<close>,
  \<open>daemon/socket.rs\<close>, \<open>client/uds.rs\<close>, \<open>commands.rs\<close> and \<open>signal.rs\<close>, of \<open>adapters/src/paths.rs\<close> and
  \<open>install/store.rs\<close>, and of \<open>entities/src/sandbox/roots.rs\<close>). The daemon listens on a named pipe whose name
  is hashed from its socket's path and a secret in a file beside it, so that the owner of the file is the
  one who can name the pipe. The hasher and the random numbers are parameters, and so are the pipes that
  refuse to be made or are busy. Paths have forward slashes, as pm3 writes them on every host.
\<close>

subsection \<open>Paths\<close>

definition BACKSLASH :: char where "BACKSLASH = CHR 0x5C"

definition VERBATIM_PREFIX :: string where
  "VERBATIM_PREFIX = [BACKSLASH, BACKSLASH, CHR ''?'', BACKSLASH]"

definition win_portable_path :: "string \<Rightarrow> string" where
  "win_portable_path path = replace_all [BACKSLASH] ''/'' path"

definition win_portable_real_path :: "string \<Rightarrow> string" where
  "win_portable_real_path resolved =
     win_portable_path (case strip_prefix VERBATIM_PREFIX resolved of Some rest \<Rightarrow> rest | None \<Rightarrow> resolved)"

definition is_drive_letter :: "char \<Rightarrow> bool" where
  "is_drive_letter c \<longleftrightarrow> (let b = of_char c :: nat in 65 \<le> b \<and> b \<le> 90 \<or> 97 \<le> b \<and> b \<le> 122)"

definition win_is_absolute_path :: "string \<Rightarrow> bool" where
  "win_is_absolute_path path \<longleftrightarrow>
     (if starts_with ''/'' path then True
      else case path of drive # colon # slash # rest \<Rightarrow> colon = CHR '':'' \<and> slash = CHR ''/'' \<and> is_drive_letter drive
        | _ \<Rightarrow> False)"

definition host_profile_home :: "(string \<Rightarrow> string option) \<Rightarrow> string option" where
  "host_profile_home host =
     (case host ''USERPROFILE'' of
        Some profile \<Rightarrow> Some profile
      | None \<Rightarrow> do { drive \<leftarrow> host ''HOMEDRIVE''; path \<leftarrow> host ''HOMEPATH''; Some (drive @ path) })"

definition win_home_of :: "(string \<Rightarrow> string option) \<Rightarrow> string option \<Rightarrow> string option" where
  "win_home_of host home = (case home of Some found \<Rightarrow> Some found | None \<Rightarrow> host_profile_home host)"

subsection \<open>The secret of the pipe\<close>

definition PIPE_SECRET_FILE :: string where "PIPE_SECRET_FILE = ''pipe.secret''"
definition PIPE_SECRET_LEN :: nat where "PIPE_SECRET_LEN = 32"

definition is_hex_digit :: "char \<Rightarrow> bool" where
  "is_hex_digit c \<longleftrightarrow>
     (let b = of_char c :: nat in 48 \<le> b \<and> b \<le> 57 \<or> 65 \<le> b \<and> b \<le> 70 \<or> 97 \<le> b \<and> b \<le> 102)"

definition is_pipe_secret :: "string \<Rightarrow> bool" where
  "is_pipe_secret secret \<longleftrightarrow> (if length secret \<noteq> PIPE_SECRET_LEN then False else list_all is_hex_digit secret)"

definition nibble_char :: "nat \<Rightarrow> char" where
  "nibble_char n = (if n < 10 then char_of (48 + n) else char_of (87 + n))"

definition hex16 :: "u64 \<Rightarrow> string" where
  "hex16 w = map (\<lambda>k. nibble_char (unat w div 16 ^ k mod 16)) (rev [0..<16])"

definition generate_pipe_secret :: "u64 \<times> u64 \<Rightarrow> string" where
  "generate_pipe_secret numbers = hex16 (fst numbers) @ hex16 (snd numbers)"

definition pipe_name_of :: "(string \<Rightarrow> string \<Rightarrow> u64) \<Rightarrow> string \<Rightarrow> string \<Rightarrow> string" where
  "pipe_name_of hash socket secret =
     [BACKSLASH, BACKSLASH, CHR ''.'', BACKSLASH] @ ''pipe'' @ [BACKSLASH] @ ''pm3-'' @ hex16 (hash socket secret)"

definition beside :: "string \<Rightarrow> string \<Rightarrow> string" where
  "beside socket name = (case path_parent socket of None \<Rightarrow> name | Some parent \<Rightarrow> path_join parent name)"

definition read_pipe_secret :: "host_files \<Rightarrow> string \<Rightarrow> disk \<Rightarrow> (pm3_error + string option) \<times> disk" where
  "read_pipe_secret E path d =
     (case read_to_string E path d of
        (Inr raw, d) \<Rightarrow>
          (let secret = trim raw in
           if is_pipe_secret secret then (Inr (Some secret), d)
           else case remove_file E path d of
             (Inl error, d) \<Rightarrow> (Inl (layout_error path error), d)
           | (Inr _, d) \<Rightarrow> (Inr None, d))
      | (Inl error, d) \<Rightarrow> (if error = Disk.NotFound then Inr None else Inl (layout_error path error), d))"

text \<open>\<open>None\<close> is the error that the file is there already.\<close>

definition create_secret_file :: "host_files \<Rightarrow> string \<Rightarrow> string \<Rightarrow> disk \<Rightarrow> (io_error option + unit) \<times> disk" where
  "create_secret_file E path secret d =
     (case fault_now E d of
        Some f \<Rightarrow> (Inl (Some (OtherError (fault_reason f))), tick d)
      | None \<Rightarrow>
     (if dk_files d path \<noteq> None then (Inl None, tick d)
      else case write_private E path secret (tick (set_contents path [] d)) of
        (Inl error, d) \<Rightarrow> (Inl (Some error), d)
      | (Inr _, d) \<Rightarrow> (Inr (), d)))"

definition create_pipe_secret :: "host_files \<Rightarrow> u64 \<times> u64 \<Rightarrow> string \<Rightarrow> disk \<Rightarrow> (pm3_error + string) \<times> disk" where
  "create_pipe_secret E numbers path d =
     (let secret = generate_pipe_secret numbers in
      case create_secret_file E path secret d of
        (Inr _, d) \<Rightarrow> (Inr secret, d)
      | (Inl (Some error), d) \<Rightarrow> (Inl (layout_error path error), d)
      | (Inl None, d) \<Rightarrow>
          (case read_pipe_secret E path d of
             (Inl e, d) \<Rightarrow> (Inl e, d)
           | (Inr winner, d) \<Rightarrow> (Inr (case winner of Some found \<Rightarrow> found | None \<Rightarrow> secret), d)))"

definition pipe_secret :: "host_files \<Rightarrow> u64 \<times> u64 \<Rightarrow> string \<Rightarrow> disk \<Rightarrow> (pm3_error + string) \<times> disk" where
  "pipe_secret E numbers socket d =
     (let path = beside socket PIPE_SECRET_FILE in
      case read_pipe_secret E path d of
        (Inl e, d) \<Rightarrow> (Inl e, d)
      | (Inr (Some secret), d) \<Rightarrow> (Inr secret, d)
      | (Inr None, d) \<Rightarrow> create_pipe_secret E numbers path d)"

subsection \<open>The pipe\<close>

record pipe_space =
  pn_held :: "string list"
  pn_busy :: "string \<Rightarrow> bool"
  pn_refused :: "string \<Rightarrow> string option"

datatype pipe_outcome = PipeBound string | PipeTaken

text \<open>The first instance of a pipe is made only while there is no other.\<close>

definition create_first_instance :: "string \<Rightarrow> pipe_space \<Rightarrow> string + pipe_space" where
  "create_first_instance name pipes =
     (case pn_refused pipes name of
        Some reason \<Rightarrow> Inl reason
      | None \<Rightarrow>
          if List.member (pn_held pipes) name then Inl ''Access is denied. (os error 5)''
          else Inr (pipes\<lparr>pn_held := name # pn_held pipes\<rparr>))"

definition pipe_is_held :: "string \<Rightarrow> pipe_space \<Rightarrow> bool" where
  "pipe_is_held name pipes \<longleftrightarrow> List.member (pn_held pipes) name \<and> \<not> pn_busy pipes name"

definition mark_bound :: "host_files \<Rightarrow> string \<Rightarrow> disk \<Rightarrow> disk" where
  "mark_bound E path d =
     (case remove_if_present E path d of
        (Inl error, d) \<Rightarrow> d
      | (Inr _, d) \<Rightarrow> snd (write_private E path [] d))"

definition bind_pipe ::
  "host_files \<Rightarrow> (string \<Rightarrow> string \<Rightarrow> u64) \<Rightarrow> u64 \<times> u64 \<Rightarrow> string \<Rightarrow> disk \<Rightarrow> pipe_space \<Rightarrow>
     (socket_error + pipe_outcome) \<times> disk \<times> pipe_space" where
  "bind_pipe E hash numbers path d pipes =
     (case pipe_secret E numbers path d of
        (Inl e, d) \<Rightarrow> (Inl (SocketBind path (pm3_error_text e)), d, pipes)
      | (Inr secret, d) \<Rightarrow>
     (let name = pipe_name_of hash path secret in
      case create_first_instance name pipes of
        Inr pipes \<Rightarrow> (Inr (PipeBound name), mark_bound E path d, pipes)
      | Inl reason \<Rightarrow>
          (if pipe_is_held name pipes then Inr PipeTaken else Inl (SocketBind path reason), d, pipes)))"

text \<open>
  The instance that is pending is offered first, later ones are made anew. An attempt is what making an
  instance and waiting for its client came to; the attempts left when a client connected.
\<close>

fun accept_pipe :: "bool \<Rightarrow> (string option \<times> string option) list \<Rightarrow> (string option \<times> string option) list option" where
  "accept_pipe pending [] = None"
| "accept_pipe pending ((refused, dropped) # attempts) =
     (if pending \<or> refused = None
      then (case dropped of None \<Rightarrow> Some attempts | Some reason \<Rightarrow> accept_pipe False attempts)
      else accept_pipe False attempts)"

definition connect_pipe ::
  "host_files \<Rightarrow> (string \<Rightarrow> string \<Rightarrow> u64) \<Rightarrow> u64 \<times> u64 \<Rightarrow> string \<Rightarrow> disk \<Rightarrow> pipe_space \<Rightarrow>
     (client_error + string) \<times> disk" where
  "connect_pipe E hash numbers socket d pipes =
     (case pipe_secret E numbers socket d of
        (Inl e, d) \<Rightarrow> (Inl (ConnectFailed socket (pm3_error_text e)), d)
      | (Inr secret, d) \<Rightarrow>
          (let name = pipe_name_of hash socket secret in
           if pipe_is_held name pipes then Inr name
           else Inl (ConnectFailed socket ''The system cannot find the file specified. (os error 2)''), d))"

subsection \<open>Waiting for the daemon to let go\<close>

lemma wait_grows: "unat (waited :: u64) < unat (budget :: u64) \<Longrightarrow> unat waited < unat (saturating_add waited (max poll 1))"
proof -
  assume "unat waited < unat budget"
  moreover have "unat budget \<le> 2 ^ 64 - 1" using unsigned_less[of budget, where 'a = nat] by simp
  moreover have "(1 :: u64) \<le> max poll 1" by simp
  then have "1 \<le> unat (max poll 1)" by (simp add: word_le_nat_alt)
  ultimately show ?thesis by (simp add: unat_saturating_add)
qed

text \<open>\<open>healthy k\<close> is the answer to the \<open>k\<close>-th question; the number of sleeps comes back as well.\<close>

function win_released :: "(nat \<Rightarrow> bool) \<Rightarrow> u64 \<Rightarrow> u64 \<Rightarrow> u64 \<Rightarrow> nat \<Rightarrow> bool \<times> nat" where
  "win_released healthy budget_ms poll_interval_ms waited_ms k =
     (if \<not> healthy k then (True, k)
      else if budget_ms \<le> waited_ms then (False, k)
      else win_released healthy budget_ms poll_interval_ms
        (saturating_add waited_ms (max poll_interval_ms 1)) (Suc k))"
  by pat_completeness auto
termination
  by (relation "measure (\<lambda>(healthy, budget_ms, poll, waited_ms, k). unat budget_ms - unat waited_ms)")
    (auto simp: word_le_nat_alt not_le wait_grows intro!: diff_less_mono2)

declare win_released.simps [simp del]

definition win_daemon_released ::
  "(nat \<Rightarrow> bool) \<Rightarrow> host_files \<Rightarrow> pm3_paths \<Rightarrow> u64 \<Rightarrow> u64 \<Rightarrow> disk \<Rightarrow> bool \<times> disk" where
  "win_daemon_released healthy E paths budget_ms poll_interval_ms d =
     (if fst (win_released healthy budget_ms poll_interval_ms 0 0) then (True, clear_runtime_files E paths d)
      else (False, d))"

subsection \<open>Events of the console\<close>

datatype console_event = CtrlC | CtrlShutdown

definition register_console :: "(console_event \<Rightarrow> string option) \<Rightarrow> signal_register_error + unit" where
  "register_console refused =
     (case refused CtrlC of
        Some reason \<Rightarrow> Inl (SignalRegister ''CTRL_C'' reason)
      | None \<Rightarrow>
     (case refused CtrlShutdown of
        Some reason \<Rightarrow> Inl (SignalRegister ''CTRL_SHUTDOWN'' reason)
      | None \<Rightarrow> Inr ()))"

fun wait_for_console :: "console_event list \<Rightarrow> console_event list option" where
  "wait_for_console [] = None"
| "wait_for_console (CtrlC # events) = wait_for_console events"
| "wait_for_console (CtrlShutdown # events) = Some events"

subsection \<open>Replacing a running binary\<close>

definition RETIRED_SUFFIX :: string where "RETIRED_SUFFIX = ''.retired''"

definition retired_path :: "string \<Rightarrow> string" where
  "retired_path destination = with_suffix destination RETIRED_SUFFIX"

definition retire_current :: "host_files \<Rightarrow> string \<Rightarrow> disk \<Rightarrow> (install_error + unit) \<times> disk" where
  "retire_current E destination d =
     (case remove_if_present E (retired_path destination) d of
        (Inl error, d) \<Rightarrow> (Inl (replace_io (retired_path destination) error), d)
      | (Inr _, d) \<Rightarrow>
     (case stat_file E destination d of
        (Inr _, d) \<Rightarrow> apfst (map_sum (replace_io destination) id) (rename_file E destination (retired_path destination) d)
      | (Inl error, d) \<Rightarrow> (if error = Disk.NotFound then Inr () else Inl (replace_io destination error), d)))"

definition win_replace_binary :: "host_files \<Rightarrow> string \<Rightarrow> string \<Rightarrow> disk \<Rightarrow> (install_error + unit) \<times> disk" where
  "win_replace_binary E source destination d =
     (case (case path_parent destination of
              None \<Rightarrow> (Inr (), d)
            | Some parent \<Rightarrow> apfst (map_sum (replace_io parent) id) (create_dir_all E parent d)) of
        (Inl error, d) \<Rightarrow> (Inl error, d)
      | (Inr _, d) \<Rightarrow>
     (case copy_file E source (staged_path destination) d of
        (Inl error, d) \<Rightarrow> (Inl (replace_io source error), d)
      | (Inr _, d) \<Rightarrow>
     (case retire_current E destination d of
        (Inl error, d) \<Rightarrow> (Inl error, d)
      | (Inr _, d) \<Rightarrow>
     (case rename_file E (staged_path destination) destination d of
        (Inl error, d) \<Rightarrow> (Inl (replace_io destination error), d)
      | (Inr _, d) \<Rightarrow> (Inr (), d)))))"

subsection \<open>Secrets\<close>

lemma nibble_char_is_hex: "n < 16 \<Longrightarrow> is_hex_digit (nibble_char n)"
  by (auto simp: is_hex_digit_def nibble_char_def Let_def)

lemma hex_digit_graphic: "is_hex_digit c \<Longrightarrow> is_graphic c"
  by (auto simp: is_hex_digit_def is_graphic_def is_ascii_def Let_def)

lemma generated_secret_is_valid: "is_pipe_secret (generate_pipe_secret numbers)"
  by (auto simp: is_pipe_secret_def generate_pipe_secret_def hex16_def PIPE_SECRET_LEN_def list_all_iff
      intro!: nibble_char_is_hex)

lemma secret_survives_trimming: "is_pipe_secret secret \<Longrightarrow> trim secret = secret"
  using hex_digit_graphic by (intro trim_graphic) (auto simp: is_pipe_secret_def list_all_iff split: if_splits)

text \<open>Asking for the secret settles it: it is valid, on the disk, and the same for whoever asks next.\<close>

lemma read_pipe_secret_calm:
  assumes "no_faults E"
  shows "read_pipe_secret E path d =
    (case dk_files d path of
       None \<Rightarrow> (Inr None, tick d)
     | Some raw \<Rightarrow>
         if is_pipe_secret (trim raw) then (Inr (Some (trim raw)), tick d)
         else (Inr None, tick (tick d)\<lparr>dk_files := (dk_files d)(path := None)\<rparr>))"
  using assms
  by (auto simp: read_pipe_secret_def read_to_string_def remove_file_def Let_def tick_def split: option.split)

lemma pipe_secret_settles:
  assumes calm: "no_faults E" and path: "path = beside socket PIPE_SECRET_FILE"
  obtains secret d' raw where "pipe_secret E numbers socket d = (Inr secret, d')" "is_pipe_secret secret"
    "dk_files d' path = Some raw" "trim raw = secret" "\<And>q. q \<noteq> path \<Longrightarrow> dk_files d' q = dk_files d q"
proof -
  let ?new = "generate_pipe_secret numbers"
  have made: "\<exists>d'. create_pipe_secret E numbers path d1 = (Inr ?new, d') \<and> dk_files d' path = Some ?new \<and>
      (\<forall>q. q \<noteq> path \<longrightarrow> dk_files d' q = dk_files d1 q)" if "dk_files d1 path = None" for d1
    using that calm
    by (simp add: create_pipe_secret_def create_secret_file_def write_private_def set_contents_def tick_def Let_def)
  show thesis
  proof (cases "\<exists>raw. dk_files d path = Some raw \<and> is_pipe_secret (trim raw)")
    case True
    then obtain raw where "dk_files d path = Some raw" "is_pipe_secret (trim raw)" by blast
    with that[of "trim raw" "tick d" raw] show thesis
      using path by (simp add: pipe_secret_def read_pipe_secret_calm[OF calm] Let_def tick_def)
  next
    case False
    then obtain d1 where read: "read_pipe_secret E path d = (Inr None, d1)" and d1: "dk_files d1 path = None"
        "\<And>q. q \<noteq> path \<Longrightarrow> dk_files d1 q = dk_files d q"
      by (cases "dk_files d path") (auto simp: read_pipe_secret_calm[OF calm] tick_def)
    obtain d' where d': "create_pipe_secret E numbers path d1 = (Inr ?new, d')" "dk_files d' path = Some ?new"
        "\<forall>q. q \<noteq> path \<longrightarrow> dk_files d' q = dk_files d1 q"
      using made[OF d1(1)] by blast
    then have "pipe_secret E numbers socket d = (Inr ?new, d')"
      using read path by (simp add: pipe_secret_def Let_def)
    then show thesis
      using that[of ?new d' ?new] d' d1 generated_secret_is_valid secret_survives_trimming by auto
  qed
qed

lemma pipe_secret_again:
  assumes calm: "no_faults E" and "dk_files d (beside socket PIPE_SECRET_FILE) = Some raw"
    and "is_pipe_secret (trim raw)"
  shows "pipe_secret E numbers socket d = (Inr (trim raw), tick d)"
  using assms by (simp add: pipe_secret_def read_pipe_secret_calm[OF calm] Let_def)

text \<open>
  Whoever binds the pipe first keeps it: a second daemon on the same socket finds it taken, and a client
  finds it there.
\<close>

lemma mark_bound_files:
  "no_faults E \<Longrightarrow> dk_files (mark_bound E path d) = (dk_files d)(path := Some [])"
  by (auto simp: mark_bound_def remove_if_present_def remove_file_def write_private_def set_contents_def tick_def
      split: prod.split)

lemma bound_pipe_is_found:
  assumes calm: "no_faults E" and bound: "bind_pipe E hash numbers socket d pipes = (Inr (PipeBound name), d', pipes')"
    and apart: "beside socket PIPE_SECRET_FILE \<noteq> socket" and free: "\<not> pn_busy pipes' name"
  shows "bind_pipe E hash others socket d' pipes' = (Inr PipeTaken, tick d', pipes') \<or>
      (\<exists>reason. pn_refused pipes' name = Some reason)"
    and "connect_pipe E hash others socket d' pipes' = (Inr name, tick d')"
proof -
  obtain secret d1 raw where asked: "pipe_secret E numbers socket d = (Inr secret, d1)" "is_pipe_secret secret"
      "dk_files d1 (beside socket PIPE_SECRET_FILE) = Some raw" "trim raw = secret"
    by (rule pipe_secret_settles[OF calm refl, where numbers = numbers and d = d and socket = socket])
  then have name: "name = pipe_name_of hash socket secret" and d': "d' = mark_bound E socket d1"
      and held: "List.member (pn_held pipes') name"
    using bound by (auto simp: bind_pipe_def create_first_instance_def Let_def split: sum.splits option.splits if_splits)
  have "dk_files d' (beside socket PIPE_SECRET_FILE) = Some raw"
    using asked(3) apart by (simp add: d' mark_bound_files[OF calm])
  from pipe_secret_again[OF calm this] asked(2,4)
  have again: "pipe_secret E others socket d' = (Inr secret, tick d')" by simp
  show "bind_pipe E hash others socket d' pipes' = (Inr PipeTaken, tick d', pipes') \<or>
      (\<exists>reason. pn_refused pipes' name = Some reason)"
    using again held free name
    by (auto simp: bind_pipe_def create_first_instance_def pipe_is_held_def Let_def split: option.split)
  show "connect_pipe E hash others socket d' pipes' = (Inr name, tick d')"
    using again held free name by (simp add: connect_pipe_def pipe_is_held_def Let_def)
qed

subsection \<open>The race for the secret\<close>

text \<open>
  Creating the secret file and writing the secret are two steps of \<open>create_secret_file\<close>. A starter that
  reads in between sees an empty file, takes it for no secret and removes it. The state is who made the
  file and whether it was written to; each starter \<open>i\<close> has drawn a secret of its own.
\<close>

datatype secret_pc = Reading | Creating | Writing | Rereading | Named nat

record secret_race =
  sr_file :: "(nat \<times> bool) option"
  sr_pc :: "nat \<Rightarrow> secret_pc"

definition secret_step :: "nat \<Rightarrow> secret_race \<Rightarrow> secret_race" where
  "secret_step i s =
     (let goes = (\<lambda>pc s. s\<lparr>sr_pc := (sr_pc s)(i := pc)\<rparr>) in
      case sr_pc s i of
        Reading \<Rightarrow>
          (case sr_file s of
             None \<Rightarrow> goes Creating s
           | Some (j, written) \<Rightarrow> if written then goes (Named j) s else goes Creating (s\<lparr>sr_file := None\<rparr>))
      | Creating \<Rightarrow>
          (if sr_file s = None then goes Writing (s\<lparr>sr_file := Some (i, False)\<rparr>) else goes Rereading s)
      | Writing \<Rightarrow> goes (Named i) (if sr_file s = Some (i, False) then s\<lparr>sr_file := Some (i, True)\<rparr> else s)
      | Rereading \<Rightarrow>
          (case sr_file s of
             None \<Rightarrow> goes (Named i) s
           | Some (j, written) \<Rightarrow> if written then goes (Named j) s else goes (Named i) (s\<lparr>sr_file := None\<rparr>))
      | Named j \<Rightarrow> s)"

definition secret_unknown :: secret_race where
  "secret_unknown = \<lparr>sr_file = None, sr_pc = \<lambda>i. Reading\<rparr>"

text \<open>\<open>whole\<close> lets nobody in between the two steps of the one that creates the file.\<close>

inductive secret_run :: "bool \<Rightarrow> secret_race \<Rightarrow> bool" for whole :: bool where
  unknown: "secret_run whole secret_unknown"
| step: "secret_run whole s \<Longrightarrow> (whole \<Longrightarrow> \<forall>j. sr_pc s j = Writing \<longrightarrow> j = i) \<Longrightarrow> secret_run whole (secret_step i s)"

definition secret_ok :: "secret_race \<Rightarrow> bool" where
  "secret_ok s \<longleftrightarrow>
     (\<forall>i. sr_pc s i = Writing \<longrightarrow> sr_file s = Some (i, False)) \<and>
     (\<forall>j. sr_file s = Some (j, False) \<longrightarrow> sr_pc s j = Writing) \<and>
     (\<forall>i j. sr_pc s i = Named j \<longrightarrow> sr_file s = Some (j, True)) \<and>
     (\<forall>i. sr_pc s i = Rereading \<longrightarrow> sr_file s \<noteq> None)"

lemma secret_okI:
  assumes "\<And>i. sr_pc s i = Writing \<Longrightarrow> sr_file s = Some (i, False)"
    and "\<And>j. sr_file s = Some (j, False) \<Longrightarrow> sr_pc s j = Writing"
    and "\<And>i j. sr_pc s i = Named j \<Longrightarrow> sr_file s = Some (j, True)"
    and "\<And>i. sr_pc s i = Rereading \<Longrightarrow> sr_file s \<noteq> None"
  shows "secret_ok s"
  using assms unfolding secret_ok_def by blast

lemma secret_okD:
  assumes "secret_ok s"
  shows "sr_pc s i = Writing \<Longrightarrow> sr_file s = Some (i, False)"
    and "sr_file s = Some (j, False) \<Longrightarrow> sr_pc s j = Writing"
    and "sr_pc s i = Named j \<Longrightarrow> sr_file s = Some (j, True)"
    and "sr_pc s i = Rereading \<Longrightarrow> sr_file s \<noteq> None"
  using assms unfolding secret_ok_def by blast+

lemma secret_step_ok:
  assumes ok: "secret_ok s" and alone: "\<And>j. sr_pc s j = Writing \<Longrightarrow> j = i"
  shows "secret_ok (secret_step i s)"
proof (cases "sr_pc s i = Writing")
  case True
  then have made: "sr_file s = Some (i, False)" by (rule secret_okD(1)[OF ok])
  then have nobody: "sr_pc s j \<noteq> Named k" for j k using secret_okD(3)[OF ok, of j k] by auto
  have "sr_pc s j \<noteq> Writing" if "j \<noteq> i" for j using alone that by blast
  with True made nobody show ?thesis
    by (intro secret_okI) (auto simp: secret_step_def Let_def split: if_splits)
next
  case False
  then have nobody: "sr_pc s j \<noteq> Writing" for j using alone by blast
  show ?thesis
  proof (cases "sr_file s")
    case None
    then have "sr_pc s j \<noteq> Named k" "sr_pc s j \<noteq> Rereading" for j k
      using secret_okD(3,4)[OF ok, of j] by auto
    with nobody None show ?thesis
      by (cases "sr_pc s i") (auto simp: secret_step_def Let_def intro!: secret_okI split: if_splits)
  next
    case (Some maker)
    obtain j written where maker: "maker = (j, written)" by fastforce
    then have written using nobody[of j] secret_okD(2)[OF ok, of j] Some by (cases written) auto
    then have settled: "sr_file s = Some (j, True)" using Some maker by simp
    then have named: "k = j" if "sr_pc s i' = Named k" for i' k using secret_okD(3)[OF ok that] by simp
    show ?thesis
      using nobody settled
      by (cases "sr_pc s i") (auto simp: secret_step_def Let_def intro!: secret_okI split: if_splits dest: named)
  qed
qed

lemma secret_run_ok: "secret_run True s \<Longrightarrow> secret_ok s"
proof (induction rule: secret_run.induct)
  case unknown
  show ?case by (rule secret_okI) (simp_all add: secret_unknown_def)
next
  case (step s i)
  then show ?case by (simp add: secret_step_ok)
qed

text \<open>Were the file created whole, all starters would come to the same name.\<close>

lemma one_secret: "secret_run True s \<Longrightarrow> sr_pc s i = Named j \<Longrightarrow> sr_pc s i' = Named j' \<Longrightarrow> j = j'"
  using secret_okD(3)[OF secret_run_ok] by (metis Pair_inject option.inject)

text \<open>As it is, two starters can name two different pipes, so that both bind theirs.\<close>

lemma two_secrets: "\<exists>s. secret_run False s \<and> sr_pc s 1 = Named 1 \<and> sr_pc s 2 = Named 2"
proof -
  let ?s = "foldl (\<lambda>s i. secret_step i s) secret_unknown [1, 1, 2, 2, 2, 1]"
  have "secret_run False (foldl (\<lambda>s i. secret_step i s) secret_unknown turns)" for turns
    by (induction turns rule: rev_induct) (auto intro: secret_run.intros)
  moreover have "sr_pc ?s 1 = Named 1" "sr_pc ?s 2 = Named 2"
    by (simp_all add: secret_step_def secret_unknown_def Let_def)
  ultimately show ?thesis by blast
qed

subsection \<open>The wait is bounded\<close>

lemma win_released_result:
  assumes "win_released healthy budget poll waited k = (released, n)"
  shows "k \<le> n \<and> (\<forall>i. k \<le> i \<and> i < n \<longrightarrow> healthy i) \<and> (released \<longleftrightarrow> \<not> healthy n) \<and>
    (n = k \<or> (n - Suc k) * unat (max poll 1) < unat budget - unat waited)"
  using assms
proof (induction healthy budget poll waited k rule: win_released.induct)
  case (1 healthy budget poll waited k)
  show ?case
  proof (cases "healthy k \<and> \<not> budget \<le> waited")
    case True
    let ?next = "saturating_add waited (max poll 1)" and ?step = "unat (max poll 1)"
    have "win_released healthy budget poll ?next (Suc k) = (released, n)"
      using "1.prems" True by (simp add: win_released.simps[of healthy budget poll waited k])
    with "1.IH" True have rest: "Suc k \<le> n" "\<forall>i. Suc k \<le> i \<and> i < n \<longrightarrow> healthy i" "released \<longleftrightarrow> \<not> healthy n"
        "n = Suc k \<or> (n - Suc (Suc k)) * ?step < unat budget - unat ?next"
      by auto
    have less: "unat waited < unat budget" using True by (simp add: word_le_nat_alt)
    have "(n - Suc k) * ?step < unat budget - unat waited"
    proof (cases "n = Suc k")
      case False
      then obtain m where m: "n - Suc k = Suc m" "n - Suc (Suc k) = m" using rest(1) by (cases "n - Suc k") auto
      have "m * ?step < unat budget - unat ?next" using rest(4) False m by simp
      then have "m * ?step + ?step < unat budget - unat waited"
        using unsigned_less[of budget, where 'a = nat] by (simp add: unat_saturating_add)
      then show ?thesis using m by simp
    qed (use less in simp)
    moreover have "healthy i" if "k \<le> i" "i < n" for i using that True rest(2) by (cases "i = k") auto
    ultimately show ?thesis using rest by simp
  next
    case False
    then show ?thesis
      using "1.prems" by (auto simp: win_released.simps[of healthy budget poll waited k] split: if_splits)
  qed
qed

subsection \<open>The swap of a running binary\<close>

lemma retire_current_files:
  assumes calm: "no_faults E" and present: "dk_files d destination = Some old"
    and apart: "retired_path destination \<noteq> destination"
  shows "\<exists>d'. retire_current E destination d = (Inr (), d') \<and>
    dk_files d' = (dk_files d)(destination := None, retired_path destination := Some old)"
  using assms
  by (auto simp: retire_current_def remove_if_present_def remove_file_def stat_file_def rename_file_def tick_def fun_eq_iff)

text \<open>
  The binary is away between the two renames: when the second fails, nothing is at the destination and
  the old binary only under its retired name.
\<close>

definition second_rename_fails :: host_files where
  "second_rename_fails = calm_files\<lparr>hf_fault := \<lambda>n. if n = 5 then Some (Refused ''sharing violation'') else None\<rparr>"

lemma failed_swap_leaves_no_binary:
  "\<exists>e d'. win_replace_binary second_rename_fails ''/new'' ''/bin/pm3''
      (empty_disk\<lparr>dk_files := [''/new'' \<mapsto> ''b'', ''/bin/pm3'' \<mapsto> ''a'']\<rparr>) = (Inl e, d') \<and>
    dk_files d' ''/bin/pm3'' = None \<and> dk_files d' (retired_path ''/bin/pm3'') = Some ''a''"
proof -
  let ?swap = "win_replace_binary second_rename_fails ''/new'' ''/bin/pm3''
      (empty_disk\<lparr>dk_files := [''/new'' \<mapsto> ''b'', ''/bin/pm3'' \<mapsto> ''a'']\<rparr>)"
  have "case ?swap of (r, d') \<Rightarrow> Sum_Type.isl r \<and> dk_files d' ''/bin/pm3'' = None \<and>
      dk_files d' (retired_path ''/bin/pm3'') = Some ''a''"
    by code_simp
  then show ?thesis by (cases ?swap; cases "fst ?swap") auto
qed

end
