(* ===== verification/Shipped_Host.thy ===== *)
theory Shipped_Host
  imports Daemon_Run Command_Line
begin

text \<open>
  A concrete host: the configuration that pm3 ships (\<open>src/config.yaml\<close>, its placeholders at their
  defaults) on a calm machine with an empty disk but for the configuration and one file of services. It is what the
  theorems about whole commands and whole daemons are tried on.
\<close>

subsection \<open>The shipped configuration\<close>

definition shipped_pm3 :: pm3_config where
  "shipped_pm3 =
     \<lparr>pm3_home = [], pm3_cfg_dir = [], pm3_state_dir = [], pm3_runtime_dir = [], pm3_data_dir = [],
      pm3_search_path = ''/opt/homebrew/bin:/usr/local/bin:/usr/bin:/bin:/usr/sbin:/sbin'',
      pm3_stop_signal = ''TERM'', pm3_kill_timeout_ms = 1600, pm3_start_timeout_ms = 5000,
      pm3_drain_timeout_secs = 5, pm3_request_timeout_ms = 30000, pm3_command_timeout_ms = 5000,
      pm3_daemon_poll_interval_ms = 50, pm3_daemon_poll_max_interval_ms = 1000,
      pm3_memory_poll_interval_ms = 30000, pm3_liveness_poll_interval_ms = 30000,
      pm3_liveness_failure_threshold = 3, pm3_log_follow_interval_ms = 200, pm3_log_tail_lines = 20,
      pm3_log_read_max_bytes = 4194304, pm3_log_rotate_max_bytes = 0, pm3_log_rotate_interval_ms = 60000,
      pm3_ready_timeout_ms = 30000, pm3_ready_poll_interval_ms = 200, pm3_daemon_channel_depth = 32,
      pm3_request_body_limit_bytes = 131072, pm3_sops_identity_file = [], pm3_sops_program = ''sops'',
      pm3_sops_timeout_ms = 30000,
      pm3_restart = \<lparr>rc_autorestart = True, rc_min_uptime_ms = 1000, rc_max_restarts = 15,
        rc_restart_delay_ms = 0, rc_max_restart_delay_ms = 15000\<rparr>,
      pm3_sandbox = \<lparr>sc_mode = ''workspace-write'', sc_read = ''minimal'', sc_network = False,
        sc_seatbelt_program = ''/usr/bin/sandbox-exec'', sc_bwrap_program = ''bwrap'',
        sc_minimal_read_roots = [''/bin'', ''/sbin'', ''/usr'', ''/etc'', ''/lib'', ''/lib64'', ''/opt/homebrew'',
          ''/nix/store'', ''/run/current-system/sw''],
        sc_forbidden_writable_roots = [''/'', ''/bin'', ''/boot'', ''/dev'', ''/etc'', ''/lib'', ''/proc'', ''/sbin'',
          ''/sys'', ''/usr'', ''/var'']\<rparr>,
      pm3_service = \<lparr>sv_label = ''com.enjoypi.pm3'', sv_restart_delay_secs = 2,
        sv_restart_condition = ''always'', sv_max_tasks = 4096, sv_cpu_quota_percent = 0,
        sv_wait_for_network = False, sv_launchctl_path = ''/bin/launchctl'',
        sv_systemctl_path = ''/usr/bin/systemctl'', sv_loginctl_path = ''/usr/bin/loginctl'',
        sv_schtasks_path = ''schtasks'', sv_taskkill_path = ''taskkill''\<rparr>,
      pm3_notify = notify_config_default\<rparr>"

definition shipped_config :: app_config where
  "shipped_config =
     \<lparr>cfg_pm3 = shipped_pm3,
      cfg_telemetry = \<lparr>tl_service_name = ''pm3'', tl_log_level = ''info'', tl_log_format = ''json''\<rparr>\<rparr>"

lemma shipped_config_is_accepted: "validate_config shipped_config = Inr ()"
  by code_simp

subsection \<open>A machine\<close>

definition web_entry :: app_entry where
  "web_entry =
     inline_entry \<lparr>is_name = ''web'', is_program = ''/usr/bin/web'', is_args = [''--port'', ''80''], is_cwd = None,
       is_cron = None, is_autorestart = None, is_network = True, is_writable_dirs = [], is_readable_dirs = [],
       is_max_memory = None, is_ready_exec = [], is_ready_tcp = None, is_listen_timeout_ms = None,
       is_stop_exit_codes = []\<rparr> None"

definition CONFIG_PATH :: string where "CONFIG_PATH = ''/etc/pm3.yaml''"
definition APPS_PATH_ON_DISK :: string where "APPS_PATH_ON_DISK = ''/srv/apps.yaml''"

definition machine_disk :: disk where
  "machine_disk = empty_disk\<lparr>dk_files := [CONFIG_PATH \<mapsto> ''config'', APPS_PATH_ON_DISK \<mapsto> ''apps'']\<rparr>"

text \<open>
  The machine runs every command well, cannot spawn a daemon since the executable was removed under it,
  and nobody listens.
\<close>

definition machine :: "(unit, unit, unit) daemon_host" where
  "machine =
     \<lparr>hs_files = calm_files,
      hs_env = (\<lambda>name. if name = ''HOME'' then VarFound ''/home/me'' else VarNotPresent),
      hs_yaml_apps = (\<lambda>yaml. Inr [web_entry]),
      hs_yaml_service = (\<lambda>yaml. Inr web_entry),
      hs_is_file = (\<lambda>d path. dk_files d path \<noteq> None),
      hs_rng = (\<lambda>d n low high. low),
      hs_cron = (\<lambda>expr. Inr ()),
      hs_run = (\<lambda>d command timeout_ms.
        CommandFinished \<lparr>co_status = Some 0, co_stdout = [], co_stderr = []\<rparr>),
      hs_read_dump = (\<lambda>raw. Inl ''not a state file''),
      hs_write_dump = (\<lambda>doc. ''state''),
      ho_vars = [],
      ho_owner = (\<lambda>d path. Some 1000),
      ho_is_dir = (\<lambda>d path. path \<in> set (dk_dirs d)),
      ho_unresolved = (\<lambda>path. ''no such file''),
      ho_pid = 4711,
      ho_exe = Inl ''the executable is gone'',
      ho_config = (\<lambda>yaml. Inr shipped_config),
      ho_talk = (\<lambda>d request. ConnectRefused ''connection refused''),
      ho_request_id = (\<lambda>d. ''1''),
      ho_spawn = (\<lambda>d command. Some ''no such file''),
      ho_age = (\<lambda>d path. None),
      ho_reply = (\<lambda>body. Inl ''not a reply''),
      ho_start_body = (\<lambda>names. ''start''),
      ho_signal_body = (\<lambda>signal. signal),
      ho_present = (\<lambda>d path k. False),
      ho_entries = (\<lambda>d path. Some []),
      ho_log_open = (\<lambda>d path. Inl Disk.NotFound),
      ho_log = (\<lambda>d path. \<lparr>lh_content = (\<lambda>inode. []), lh_path_inode = None, lh_reopens = False, lh_read_fault = None\<rparr>),
      ho_elapsed = (\<lambda>started k. 50 * k),
      ho_default_config = ''config'',
      ho_clock = \<lparr>lc_moment = (\<lambda>ms format. None), lc_offset = ''+0000''\<rparr>,
      ho_json_list = (\<lambda>views. ''[]''),
      ho_json_one = (\<lambda>view. ''null''),
      ho_config_yaml = (\<lambda>config. ''config''),
      dh_disk = (\<lambda>h. machine_disk),
      dh_clock_ms = (\<lambda>h. 1000 * length h),
      dh_tracked = (\<lambda>h. \<lparr>tk_children = [], tk_live = []\<rparr>),
      dh_append_fails = (\<lambda>h path. None),
      dh_start = (\<lambda>h command. Inr 42),
      dh_run = (\<lambda>h n command timeout_ms.
        CommandFinished \<lparr>co_status = Some 0, co_stdout = [], co_stderr = []\<rparr>),
      dh_elapsed = (\<lambda>h k. 50 * k),
      dh_sha256 = (\<lambda>contents. contents),
      dh_logs = (\<lambda>h. Inr []),
      dh_executable = (\<lambda>h path. True),
      dh_probe_run = (\<lambda>h program arguments. ProbeExited (Some 0)),
      dh_connects = (\<lambda>h host port. True),
      dh_seatbelt = \<lparr>base_policy = [], full_read_policy = [], minimal_read_policy = [], network_policy = []\<rparr>,
      dh_calendar = \<lparr>cal_parse = (\<lambda>text. Inr ()), cal_next = (\<lambda>cron moment inclusive. None),
        cal_local = (\<lambda>moment. ()), cal_start_of = (\<lambda>w naive. ()), cal_end_of = (\<lambda>w naive. None),
        cal_earliest = (\<lambda>naive. None), cal_next_second = (\<lambda>moment. ()), cal_from_ms = (\<lambda>ms. None),
        cal_to_ms = (\<lambda>moment. 0), cal_stamp = (\<lambda>naive. 0)\<rparr>,
      dh_seeded = (\<lambda>seed n low high. low),
      dh_resumed = (\<lambda>h. 0)\<rparr>"

lemma machine_calm: "no_faults (hs_files machine)"
  by (simp add: machine_def calm_files_no_faults)

lemma machine_clock: "clock_advances machine"
  by (simp add: machine_def clock_advances_def)

lemma machine_entries: "single_entries machine"
  by (simp add: machine_def single_entries_def)

interpretation shipped: adapter_host machine D for D :: daemon_ports
  by unfold_locales (rule machine_entries)

subsection \<open>A session on the machine\<close>

lemma plain_text_stays: "substitute_env_vars host ''config'' = Inr ''config''"
    "substitute_env_vars host ''apps'' = Inr ''apps''"
  by (simp_all add: substitute_env_vars_def substitute_plain no_dollar_plain)

lemma machine_config: "load_config_file (hs_files machine) (hs_env machine) (ho_config machine) CONFIG_PATH machine_disk =
    (Inr \<lparr>ld_source = ''config'', ld_config = shipped_config\<rparr>, tick machine_disk)"
proof -
  have "load_config (hs_files machine) CONFIG_PATH machine_disk = (Inr ''config'', tick machine_disk)"
    by (simp add: load_config_def read_to_string_def machine_def calm_files_def fault_now_def machine_disk_def
        empty_disk_def CONFIG_PATH_def APPS_PATH_ON_DISK_def)
  moreover have "parse_config (ho_config machine) ''config'' = Inr shipped_config"
    by (simp add: parse_config_def machine_def)
  ultimately show ?thesis by (simp add: load_config_file_def plain_text_stays shipped_config_is_accepted)
qed

lemma machine_places:
  obtains places where "resolve_places machine shipped_pm3 (host_home machine) (tick machine_disk) = Inr places"
    "pl_cfg_dir places = ''/home/me/.config/pm3''"
proof -
  let ?sources = "\<lparr>rt_pm3_home = None, rt_config = None, rt_state = None, rt_runtime = None, rt_data = None,
    rt_xdg_config = None, rt_xdg_state = None, rt_xdg_runtime = None, rt_xdg_data = None,
    rt_home = Some ''/home/me'', rt_uid = Some 1000, rt_exists = \<lambda>path. False\<rparr>"
  let ?roots = "\<lparr>ro_config = ''/home/me/.config/pm3'', ro_state = ''/home/me/.local/state/pm3'',
    ro_runtime = ''/home/me/.local/state/pm3/run'', ro_data = ''/home/me/.local/share/pm3''\<rparr>"
  have found: "hs_env machine name = (if name = ''HOME'' then VarFound ''/home/me'' else VarNotPresent)" for name
    by (simp add: machine_def)
  have env: "env_var machine name = (if name = ''HOME'' then Some ''/home/me'' else None)" for name
    by (simp add: env_var_def found)
  have owner: "ho_owner machine d path = Some 1000" "ho_is_dir machine d path \<longleftrightarrow> path \<in> set (dk_dirs d)" for d path
    by (simp_all add: machine_def)
  have pm3: "pm3_home shipped_pm3 = []" "pm3_state_dir shipped_pm3 = []" "pm3_runtime_dir shipped_pm3 = []"
      "pm3_data_dir shipped_pm3 = []" "pm3_cfg_dir shipped_pm3 = []"
    by (simp_all add: shipped_pm3_def)
  have sources: "sources_of machine (host_home machine) (tick machine_disk) = ?sources"
    by (simp add: sources_of_def host_home_def host_pm3_home_def host_pm3_config_dir_def host_pm3_state_dir_def
        host_pm3_runtime_dir_def host_pm3_data_dir_def xdg_config_env_def xdg_state_env_def xdg_runtime_env_def
        xdg_data_env_def env is_named_def host_uid_def owner fun_eq_iff machine_disk_def empty_disk_def tick_def)
  have "resolve_state_root None None (Some ''/home/me'') = Inr (ro_state ?roots)"
      "resolve_config_root None None (Some ''/home/me'') = Inr (ro_config ?roots)"
      "resolve_data_root None None (Some ''/home/me'') = Inr (ro_data ?roots)"
      "resolve_runtime_root \<lparr>rs_declared = None, rs_xdg = None, rs_uid = Some 1000, rs_state = ro_state ?roots,
        rs_home = Some ''/home/me'', rs_exists = \<lambda>path. False\<rparr> = Inr (ro_runtime ?roots)"
    by code_simp+
  then have roots: "resolve_roots machine shipped_pm3 (host_home machine) (tick machine_disk) = Inr ?roots"
    by (simp add: resolve_roots_def sources roots_from_def pm3 overriding_def named_text_def roots_split_def)
  have "check_socket_length (pa_socket (resolve_paths ?roots)) = Inr ()" by code_simp
  with that show thesis by (simp add: resolve_places_def roots pm3 named_text_def)
qed

lemma machine_session:
  obtains s d where "prepared_session machine CONFIG_PATH machine_disk = (Inr s, d)" "se_config s = shipped_config"
    "se_cfg_dir s = ''/home/me/.config/pm3''" "dk_files d = dk_files machine_disk"
proof -
  obtain places where places: "resolve_places machine shipped_pm3 (host_home machine) (tick machine_disk) = Inr places"
      "pl_cfg_dir places = ''/home/me/.config/pm3''"
    by (rule machine_places)
  obtain d where layout: "ensure_layout (hs_files machine) (pl_paths places) (pl_cfg_dir places) (tick machine_disk) = (Inr (), d)"
    using ensure_layout_calm[OF machine_calm] by metis
  have pm3: "cfg_pm3 shipped_config = shipped_pm3" by (simp add: shipped_config_def)
  obtain s where ran: "prepared_session machine CONFIG_PATH machine_disk = (Inr s, d)"
      "se_config s = shipped_config" "se_cfg_dir s = pl_cfg_dir places"
    using that layout places(1) by (simp add: prepared_session_def open_session_def machine_config pm3)
  with that places(2) prepared_session_calm(1)[OF machine_calm ran(1)] show thesis by simp
qed
text \<open>The one declaration of the file of services is split off into a file of its own.\<close>

lemma machine_splits:
  assumes files: "dk_files d = dk_files machine_disk"
    and dir: "sx_cfg_dir ctx = ''/home/me/.config/pm3''"
  obtains sp d' where "split_apps_file (host_specs.truncate machine) ctx APPS_PATH_ON_DISK False d = (Inr sp, d')"
    "sa_names sp = [''web'']" "sa_changed sp = [''web'']"
proof -
  let ?H = "host_specs.truncate machine"
  have H: "hs_files machine = calm_files" "hs_env ?H = hs_env machine" "hs_yaml_apps ?H yaml = Inr [web_entry]" for yaml
    by (simp_all add: machine_def host_specs.truncate_def)
  have apps: "dk_files machine_disk APPS_PATH_ON_DISK = Some ''apps''"
    by (simp add: machine_disk_def APPS_PATH_ON_DISK_def CONFIG_PATH_def)
  have name: "ae_name web_entry = ''web''" "check_declared_names [web_entry] = Inr ()" by code_simp+
  have "case service_file_of ''/home/me/.config/pm3'' ''web'' of
      Inl e \<Rightarrow> False | Inr path \<Rightarrow> path \<noteq> APPS_PATH_ON_DISK \<and> path \<noteq> CONFIG_PATH"
    by code_simp
  then obtain path where path: "service_file_of ''/home/me/.config/pm3'' ''web'' = Inr path"
      "path \<noteq> APPS_PATH_ON_DISK" "path \<noteq> CONFIG_PATH"
    by (cases "service_file_of ''/home/me/.config/pm3'' ''web''") auto
  have new: "dk_files d path = None" using files path by (simp add: machine_disk_def empty_disk_def)
  have calm: "fault_now calm_files x = None" for x by (simp add: fault_now_def calm_files_def)
  have loaded: "load_apps_file ?H APPS_PATH_ON_DISK d = (Inr [web_entry], tick d)"
    using files apps
    by (simp add: load_apps_file_def read_substituted_def read_to_string_def H calm plain_text_stays
        parse_apps_file_def name(2))
  show thesis
    using that new path(1) dir
    by (simp add: split_apps_file_def loaded H name(1) write_service_file_def read_existing_def
        read_optional_def read_to_string_def calm reconcile_contents_def write_private_def tick_def Let_def)
qed

text \<open>A start on the machine fails, because there is nothing to spawn the daemon from.\<close>

lemma machine_start_fails:
  obtains d' where "client_start_apps machine CONFIG_PATH APPS_PATH_ON_DISK False machine_disk =
    (Inl (ServiceProgram ''the executable is gone''), d')"
proof -
  obtain s d1 where s: "prepared_session machine CONFIG_PATH machine_disk = (Inr s, d1)"
      "se_cfg_dir s = ''/home/me/.config/pm3''" "dk_files d1 = dk_files machine_disk"
    by (rule machine_session)
  have dir: "sx_cfg_dir (session_context s home) = ''/home/me/.config/pm3''" for home
    using s(2) by (simp add: session_context_def)
  have canonical: "canonical_apps_file machine APPS_PATH_ON_DISK d1 = (Inr APPS_PATH_ON_DISK, tick d1)"
    by (simp add: canonical_apps_file_def canonicalize_path_def machine_def calm_files_def)
  obtain sp d2 where split: "split_apps_file (host_specs.truncate machine) (session_context s (host_home machine))
      APPS_PATH_ON_DISK False (tick d1) = (Inr sp, d2)"
    using machine_splits[OF _ dir, of "tick d1"] s(3) by (metis reads_keep_files(4))
  have "ho_exe machine = Inl ''the executable is gone''" by (simp add: machine_def)
  with that show thesis
    by (simp add: client_start_apps_def s(1) canonical split ask_def ask_with_def finish_start_def)
qed

text \<open>There is no state file yet, so a daemon on the machine starts with nothing to take over.\<close>

lemma machine_loads:
  assumes "yd_path (dp_store D) = ''/state''"
  shows "p_load (ports_of machine D) h = Inr no_contents"
  using assms
  by (simp add: ports_of_def port_load_def store_load_def read_document_def machine_def host_dump.truncate_def
      read_optional_def read_to_string_def machine_disk_def empty_disk_def calm_files_def fault_now_def
      CONFIG_PATH_def APPS_PATH_ON_DISK_def)

subsection \<open>A service that resolves\<close>

definition web_source :: spec_source where
  "web_source =
     \<lparr>ss_cfg_dir = ''/cfg'', ss_config = shipped_pm3, ss_home_dir = ''/home/me'', ss_apps_dir = ''/apps'',
      ss_state_dir = ''/state'', ss_runtime_dir = ''/run/pm3'', ss_data_dir = ''/data'',
      ss_host_home = Some ''/home/me'', ss_logs_dir = ''/logs'', ss_tmp_dir = None, ss_global_env = [],
      ss_decryptor_env = []\<rparr>"

definition web_spec :: app_spec where
  "web_spec =
     \<lparr>app_name = ''web'', script = ''/usr/bin/web'', args = [''--port'', ''80''], cwd = ''/apps/web'',
      env = [\<lparr>ev_key = ''HOME'', ev_value = ''/home/me'', ev_scope = Injected\<rparr>], env_origin = Plain,
      autorestart = True, min_uptime_ms = 1000, max_restarts = 15, restart_delay_ms = 0,
      max_restart_delay_ms = 15000, schedule = None, depends_on = [], max_memory_kib = None,
      ready_probe = None, liveness_probe = None, listen_timeout_ms = None, stop_exit_codes = [],
      self_responsible = False, app_priority = Background,
      sandbox =
        \<lparr>sb_mode = WorkspaceWrite, sb_read = Minimal, sb_network = True, writable_roots = [],
         readable_roots = [], derived_readable_roots = [], derived_roots = [''/apps/web'', ''/logs''],
         unreadable_roots = [''/home/me'', ''/cfg'', ''/state'', ''/run/pm3'', ''/data'']\<rparr>\<rparr>"

definition web_record :: process_record where
  "web_record =
     \<lparr>pr_spec = web_spec,
      pr_runtime = (runtime_new 1 ''web'' 0)\<lparr>rt_status := Online, rt_pid := Some 42, started_at_ms := Some 0,
        rt_identity := Some \<lparr>token = ''token'', launch_digest = ''digest'', binary_digest = ''binary''\<rparr>\<rparr>\<rparr>"

definition dump_host :: host_dump where
  "dump_host =
     (host_dump.truncate machine)\<lparr>hs_is_file := \<lambda>d path. True,
        hs_read_dump := \<lambda>raw. Inr (encode_states [web_record] (Some ''boot''))\<rparr>"

lemma dump_host_secrets:
  "host_secrets.truncate dump_host =
     \<lparr>hs_files = calm_files, hs_env = (\<lambda>name. if name = ''HOME'' then VarFound ''/home/me'' else VarNotPresent),
      hs_yaml_apps = (\<lambda>yaml. Inr [web_entry]), hs_yaml_service = (\<lambda>yaml. Inr web_entry),
      hs_is_file = (\<lambda>d path. True), hs_rng = (\<lambda>d n low high. low), hs_cron = (\<lambda>expr. Inr ()),
      hs_run = (\<lambda>d command timeout_ms.
        CommandFinished \<lparr>co_status = Some 0, co_stdout = [], co_stderr = []\<rparr>)\<rparr>"
  by (simp add: dump_host_def machine_def host_dump.truncate_def host_secrets.truncate_def)

text \<open>What the resolver makes of the service depends on nothing but the files on the disk.\<close>

lemma web_resolves:
  assumes "dk_files d = [''/cfg/web.yaml'' \<mapsto> ''web'', ''/state.yaml'' \<mapsto> ''state'']"
  shows "fst (resolve_service (host_secrets.truncate dump_host) web_source ''web'' d) = Inr web_spec"
proof (cases d)
  case (fields files modes dirs calls)
  have "fst (resolve_service (host_secrets.truncate dump_host) web_source ''web''
      \<lparr>dk_files = [''/cfg/web.yaml'' \<mapsto> ''web'', ''/state.yaml'' \<mapsto> ''state''], dk_modes = modes,
       dk_dirs = dirs, dk_calls = calls\<rparr>) = Inr web_spec"
    unfolding web_spec_def dump_host_secrets by code_simp
  with assms fields show ?thesis by simp
qed

end
