(* ===== verification/Spec2Isabelle.thy ===== *)
theory Spec2Isabelle
  imports Scenarios Handover Sandbox_Wrap Service_Store State_File Host_Processes Watching Log_Files Paths
    Http_Interface Unit_Plans Command_Line Daemon_Run Windows_Processes Windows_Host Shipped_Host
begin

text \<open>
  pm3 is a process supervisor: a daemon that starts, watches, restarts and stops declared
  services, and survives its own replacement. The repository is layered. \<open>entities/\<close> holds the
  pure rules, \<open>usecases/\<close> the operations on the process table and the supervisor that strings them
  together, \<open>adapters/\<close> the readers, writers and system calls behind the ports, \<open>frameworks/\<close> the
  daemon's event loop, its timers, its socket and the command line. A client writes the services of a
  declaration file as one service file each, makes sure a daemon runs, and asks it over HTTP on a socket;
  the daemon serves one event after another (requests, exits, timers, probes) on a table that it saves
  to a state file; a new daemon recovers the table from that file and adopts or evicts the processes.

  Theories and the code they model (paths under \<open>src/\<close>).

  Foundations:

  \<^item> \<open>Prelude\<close>: widths of machine integers with Rust's saturating and checked operations, first-match
    list updates, ordered maps, the option monad (\<open>None\<close> is a panic or a loop that does not end) and
    the predicate \<open>returns\<close>; the locales \<open>wire_enum\<close> (enumerations that travel as words), \<open>named_store\<close>
    (what a lookup returns after an insertion) and \<open>step_system\<close> (machines that keep an invariant).
  \<^item> \<open>Text\<close>, \<open>Std_Text\<close>, \<open>Splitting\<close>: strings as UTF-8 bytes, as Rust has them, with the functions of the
    standard library on them. \<open>Disk\<close> (\<open>adapters/src/private_file.rs\<close>, \<open>fs_util.rs\<close>): the file system as a
    map with a schedule of faults, one per system call, where a write may also be torn.
    \<open>Commands\<close> (\<open>process/timed.rs\<close>, \<open>exit_status.rs\<close>): helper programs, the polling loop and the locale
    \<open>process_probe\<close>, which both probes of the host interpret.

  The rules and the use cases:

  \<^item> \<open>Depgraph\<close> (\<open>entities/src/process/depgraph.rs\<close>), \<open>Sandbox_Policy\<close> (\<open>entities/src/sandbox\<close>),
    \<open>Limits\<close> (\<open>limits.rs\<close>, \<open>restart.rs\<close>), \<open>App_Spec\<close> (\<open>spec.rs\<close>, \<open>env.rs\<close>, \<open>ready.rs\<close>, \<open>priority.rs\<close>,
    \<open>secret.rs\<close>, \<open>signal.rs\<close>), \<open>Process_Runtime\<close> (\<open>runtime.rs\<close>, \<open>status.rs\<close>).
  \<^item> \<open>Port_Types\<close>, \<open>Ports\<close> (\<open>usecases/src/ports\<close>, \<open>lib.rs\<close>): a port is a function of everything that
    happened before, so that the host may answer differently at every call; each call is appended to
    the \<open>history\<close>, which is what the theorems about signals and launches speak of.
  \<^item> \<open>Process_Table\<close> (\<open>table.rs\<close>, \<open>record.rs\<close>, \<open>selector.rs\<close>, \<open>query.rs\<close>), \<open>Fingerprint\<close> (\<open>fingerprint.rs\<close>,
    \<open>log_paths.rs\<close>), \<open>Starting\<close> (\<open>start.rs\<close>), \<open>Stopping\<close> (\<open>stop.rs\<close>, \<open>delete.rs\<close>, \<open>reset.rs\<close>, \<open>restart.rs\<close>,
    \<open>signal.rs\<close>), \<open>Exits\<close> (\<open>supervise.rs\<close>), \<open>Resurrect\<close> (\<open>resurrect.rs\<close>, \<open>resurrect/judge.rs\<close>),
    \<open>Alerts_Timers\<close> (\<open>alert.rs\<close>, \<open>timer_state.rs\<close>), \<open>Handover\<close> (\<open>handover.rs\<close>).
  \<^item> \<open>Supervisor\<close>, \<open>Supervisor_Requests\<close> (\<open>supervisor*.rs\<close>, \<open>supervision.rs\<close>): every event handler and
    request. \<open>Supervisor_Inv\<close>, \<open>Requests_Inv\<close>: the invariant \<open>sv_inv\<close> and that each of them keeps it
    and returns, so that none of the \<open>expect\<close> calls can fail.
  \<^item> \<open>Daemon\<close> (\<open>frameworks/src/daemon\<close>): the task board, the actor, and the running daemon as a step
    relation in which clients, timers, probes and processes act in any order; the locale
    \<open>supervised_host\<close> of what it asks of its host. \<open>Scenarios\<close>: facts that span several operations.

  The adapters:

  \<^item> \<open>Env_File\<close>, \<open>Programs\<close>, \<open>Service_File\<close>, \<open>Apps_File\<close>, \<open>Spec_Source\<close> (\<open>apps_file\<close>, \<open>program.rs\<close>,
    \<open>workspace.rs\<close>): from the text of a declaration to the declaration the use cases run, its environment
    with decrypted secrets, its sandbox with resolved roots. \<open>Schedules\<close> (\<open>schedule\<close>): random fields of a
    cron expression. \<open>Config\<close> (\<open>config\<close>): sections, defaults and checks of the configuration.
  \<^item> \<open>Service_Store\<close> (\<open>service\<close>): service files with their undo. \<open>State_File\<close> (\<open>persistence\<close>): the state
    file, written through a temporary file. \<open>Log_Files\<close> (\<open>logs\<close>): tails, followers, rotation.
  \<^item> \<open>Host_Processes\<close>, \<open>Watching\<close>, \<open>Windows_Processes\<close> (\<open>process\<close>): who a pid is, what a group uses, signals,
    launching and watching; the two probes. \<open>Sandbox_Wrap\<close> (\<open>sandbox\<close>): the arguments of bubblewrap and
    seatbelt and the view of the files they give. \<open>Notifications\<close> (\<open>notify\<close>).
  \<^item> \<open>Presenter\<close>, \<open>Http_Interface\<close> (\<open>presenter\<close>, \<open>http\<close>): what an operator reads, and the requests and
    replies between client and daemon. \<open>Paths\<close> (\<open>paths.rs\<close>): where the files are.
  \<^item> \<open>Unit_Files\<close>, \<open>Unit_Plans\<close> (\<open>unit\<close>), \<open>Install_Files\<close> (\<open>install\<close>): registering pm3 with the service
    manager of the host, and replacing its binary.

  The frameworks:

  \<^item> \<open>Host_Layout\<close> (\<open>layout.rs\<close>, \<open>lib.rs\<close>), \<open>Daemon_Socket\<close> (\<open>daemon/socket.rs\<close>, \<open>signal.rs\<close>, \<open>server.rs\<close>),
    \<open>Start_Lock\<close> (\<open>daemon/bootstrap.rs\<close>), \<open>Daemon_Ports\<close> (\<open>daemon/ports.rs\<close>: every port backed by its
    adapter; the locale \<open>adapter_host\<close> is a \<open>supervised_host\<close>), \<open>Daemon_Run\<close> (\<open>daemon/service.rs\<close>).
  \<^item> \<open>Client_Commands\<close> (\<open>commands.rs\<close>, \<open>start_command.rs\<close>, \<open>prompt.rs\<close>), \<open>Log_Command\<close> (\<open>logs.rs\<close>),
    \<open>Service_Install\<close> (\<open>service.rs\<close>, \<open>install.rs\<close>), \<open>Command_Line\<close> (\<open>cli.rs\<close>, \<open>main.rs\<close>).
  \<^item> \<open>Windows_Host\<close>: the windows variants, among them the named pipe and the race for its secret.
  \<^item> \<open>Shipped_Host\<close>: the shipped configuration and a machine on which the theorems about whole commands and
    whole daemons are tried.

  Conventions. A record of the code is a record, an enum a datatype, \<open>u16\<close>, \<open>u32\<close> and \<open>u64\<close> are words
  of that width, exit codes (\<open>i32\<close>) are integers, sizes in memory are natural numbers. \<open>Result\<close> is a sum
  with the error on the left. A function that may panic returns an option. A \<open>&mut\<close> argument is returned
  updated; a hash map whose order the code never observes is an association list with distinct keys.
  Every system call advances the counter of the disk, and what the host answers may depend on the disk,
  so that it may answer differently each time. The host is linux; what \<open>cfg(windows)\<close> or macos replaces
  is a variant of its own where it is modelled. Loops whose recursion is not structural have proved
  measures. Loops that wait for the world are partial functions and are proved to return:
  \<open>wait_until_drained\<close> from every daemon with a positive polling interval; \<open>poll_until\<close> and
  \<open>supervise_loop\<close>, and with them every command of the client, when the clock advances by at least what
  is slept. No fuel is used anywhere.

  Code outside \<open>src/\<close> is a parameter: the YAML, JSON, cron and calendar libraries, \<open>sha2\<close>, random numbers,
  the programs that are run, \<open>sysinfo\<close>, the clock, the shell completion of \<open>clap\<close>. For the client the
  daemon is what answers a request; for the daemon the clients are the requests that arrive. The laws a
  theorem needs are named: \<open>no_faults\<close> (the disk works), \<open>clock_advances\<close>, \<open>loads_ok\<close> and \<open>resolver_ok\<close>
  for an arbitrary host of the daemon, \<open>single_entries\<close> (a state file that can be read names a service
  once) for the host of the adapters, from which \<open>loads_ok\<close> and \<open>resolver_ok\<close> follow.

  The theorems below, C1 to C40: the daemon never panics and serves everything (C1, C2, C33), what timers,
  shutdown, forced kills, recovery and adoption may do (C3 to C8), stopping, exits and restarts (C9 to C12,
  C19), batches and their order, failures and deletion (C13 to C18), the refinement of evictions (C20),
  declarations, names, environments, limits, policies and identity (C21 to C29), alerts, ids and handover
  (C30 to C32), and the program around it: the second daemon (C34), the installed binary (C35), commands
  that return (C36), the state file (C37), the sandbox (C38), logs (C39), and starts that never landed (C40).

  Not modelled: logging (\<open>tracing\<close>, \<open>usecases/src/supervisor_log.rs\<close>, \<open>adapters/src/startup.rs\<close>,
  \<open>frameworks/src/telemetry.rs\<close>), which no result depends on; the runtime of the tasks and the limit on
  open files (\<open>runtime.rs\<close>, \<open>fd_limit.rs\<close>), calls into libraries; the private macos call behind
  \<open>disclaim.rs\<close> (its arguments are modelled); the parsing of the command line, which clap derives; the
  tests and scripts.
\<close>

section \<open>Concrete services\<close>

text \<open>A declaration, its record and a table, on which the theorems below are tried.\<close>

definition open_policy :: sandbox_policy where
  "open_policy = \<lparr>sb_mode = DangerFullAccess, sb_read = Full, sb_network = True,
     writable_roots = [], readable_roots = [], derived_readable_roots = [], derived_roots = [],
     unreadable_roots = []\<rparr>"

definition demo_spec :: "string \<Rightarrow> string list \<Rightarrow> app_spec" where
  "demo_spec name dependencies =
     \<lparr>app_name = name, script = ''/bin/service'', args = [], cwd = ''/srv'', env = [],
      env_origin = Plain, autorestart = True, min_uptime_ms = 1000, max_restarts = 3,
      restart_delay_ms = 100, max_restart_delay_ms = 400, schedule = None,
      depends_on = dependencies, max_memory_kib = None, ready_probe = None, liveness_probe = None,
      listen_timeout_ms = None, stop_exit_codes = [], self_responsible = False,
      app_priority = Standard, sandbox = open_policy\<rparr>"

definition demo_identity :: process_identity where
  "demo_identity = \<lparr>token = ''token'', launch_digest = ''digest'', binary_digest = ''binary''\<rparr>"

definition demo_runtime :: "string \<Rightarrow> u32 \<Rightarrow> process_status \<Rightarrow> u32 option \<Rightarrow> process_runtime" where
  "demo_runtime name pm_id status i =
     (runtime_new pm_id name 0)\<lparr>rt_status := status, rt_pid := i, started_at_ms := Some 0,
        rt_identity := Some demo_identity\<rparr>"

definition demo_record :: "string \<Rightarrow> string list \<Rightarrow> process_status \<Rightarrow> u32 option \<Rightarrow> process_record" where
  "demo_record name dependencies status i =
     \<lparr>pr_spec = demo_spec name dependencies, pr_runtime = demo_runtime name 1 status i\<rparr>"

definition demo_table :: process_table where
  "demo_table = \<lparr>pt_records =
     [demo_record ''db'' [] Online (Some 41), demo_record ''web'' [''db''] Online (Some 42),
      demo_record ''job'' [] Stopped None], pt_boot = Some ''boot''\<rparr>"

definition demo_resolver :: resolver where
  "demo_resolver = (\<lambda>h name. Inr (demo_spec name []))"

definition demo_config :: daemon_config where
  "demo_config = \<lparr>cfg_daemon_poll_interval_ms = 0, cfg_kill_timeout_ms = 5000,
     cfg_ready_timeout_ms = 3000, cfg_ready_poll_interval_ms = 100, cfg_notify_cooldown_ms = 60000,
     cfg_memory_poll_interval_ms = 1000, cfg_liveness_poll_interval_ms = 1000,
     cfg_liveness_failure_threshold = 3, cfg_log_rotate_max_bytes = 0,
     cfg_log_rotate_interval_ms = 1000\<rparr>"

lemmas demo_defs = demo_spec_def demo_runtime_def demo_record_def demo_identity_def runtime_new_def

lemma demo_resolver_ok: "resolver_ok demo_resolver"
  by (simp add: resolver_ok_def demo_resolver_def demo_spec_def)

interpretation calm: supervised_host calm_host demo_resolver
  by unfold_locales (simp_all add: calm_host_loads_ok demo_resolver_ok)

lemma demo_table_wf: "wf_table demo_table"
  by (simp add: wf_table_def demo_table_def names_in_table_order_def record_ok_def runtime_ok_def demo_defs)

lemma demo_find:
  "find_by_name demo_table ''db'' = Some (demo_record ''db'' [] Online (Some 41))"
  "find_by_name demo_table ''web'' = Some (demo_record ''web'' [''db''] Online (Some 42))"
  "find_by_name demo_table ''job'' = Some (demo_record ''job'' [] Stopped None)"
  by (simp_all add: find_by_name_def demo_table_def demo_defs)

lemma calm_boot: "\<exists>w. boot calm_host ''/logs'' demo_config [] = Some (Inr w)"
proof -
  have "case boot calm_host ''/logs'' demo_config [] of Some (Inr w) \<Rightarrow> True | _ \<Rightarrow> False"
    by code_simp
  then show ?thesis by (auto split: option.splits sum.splits)
qed

definition demo_supervisor :: supervisor where
  "demo_supervisor = (supervisor_new ''/logs'' 5000 3000 100 60000)\<lparr>sv_table := demo_table\<rparr>"

lemma demo_supervisor_inv: "sv_inv demo_supervisor"
  using demo_table_wf generations_ok_new
  by (simp add: sv_inv_def demo_supervisor_def supervisor_new_def waiters_in_def)

section \<open>The daemon\<close>

text \<open>
  C1. No \<open>expect\<close> of the use cases can fail: in every state a booted daemon can reach, whatever
  the clients, the timers, the processes and the ports do, the supervisor satisfies its
  invariant and the next event of the queue is served.
\<close>

theorem daemon_never_panics:
  assumes "reachable P R w" and "loads_ok P" and "resolver_ok R"
  shows "sv_inv (dm_supervisor (w_daemon w)) \<and> (\<exists>w'. serve P R w = Some w')"
  using reachable_ok[OF assms] serve_defined assms(3) by (simp add: daemon_ok_def)

theorem daemon_never_panics_witness:
  "\<exists>w w'. boot calm_host ''/logs'' demo_config [] = Some (Inr w) \<and>
    serve calm_host demo_resolver (send_event SampleMemory (w\<lparr>w_unsent := [SampleLiveness, RotateLogs]\<rparr>))
      = Some w'"
proof -
  obtain w where w: "boot calm_host ''/logs'' demo_config [] = Some (Inr w)"
    using calm_boot by blast
  then have "w_unsent w = SampleMemory # [SampleLiveness, RotateLogs]"
    by (auto simp: boot_def boot_events_def split: bind_splits sum.splits)
  then have "reachable calm_host demo_resolver
      (send_event SampleMemory (w\<lparr>w_unsent := [SampleLiveness, RotateLogs]\<rparr>))"
    by (intro reachable.Step[OF reachable.Boot[OF w]] daemon_step.BootSend)
  from daemon_never_panics[OF this calm.loads calm.resolves] w show ?thesis by blast
qed

text \<open>
  C2. The daemon gets through every sequence of events: each is served and returns, the polling
  loop of the shutdown included, from the moment the daemon was created.
\<close>

theorem daemon_serves_every_sequence:
  assumes "resolver_ok R"
  shows "\<exists>d replies h'. actor.runs P R events (daemon_new logs_dir c, [], h) = Some (d, replies, h') \<and>
    sv_inv (dm_supervisor d)"
proof -
  have "daemon_ok (daemon_new logs_dir c)"
    by (simp add: daemon_ok_def daemon_new_def supervisor_new_inv max_one_pos)
  with actor.runs_defined[of "(daemon_new logs_dir c, [], h)" events R P] assms
  show ?thesis by (auto simp: daemon_ok_def)
qed

theorem daemon_serves_every_sequence_witness:
  "\<exists>res. actor.runs calm_host demo_resolver
     [CommandEvent (StartRequest [''web'']), SampleLiveness, Shutdown, FireEvent ''web'' 9]
     (daemon_new ''/logs'' demo_config, [], []) = Some res"
  using daemon_serves_every_sequence[OF calm.resolves] by blast



text \<open>C4. A daemon that shuts down starts nothing, keeps the table and signals no running service.\<close>

theorem shutdown_leaves_services_running:
  assumes "0 < dm_poll_interval_ms d" and "sv_inv (dm_supervisor d)"
  shows "\<exists>d' h' js. daemon_shutdown P d h = Some (d', h') \<and>
    sv_table (dm_supervisor d') = sv_table (dm_supervisor d) \<and> spawns h' = spawns h \<and>
    signals h' = signals h @ js \<and> set js \<inter> set (running_pids (sv_table (dm_supervisor d))) = {}"
  using shutdown_spares_running[of d P h] assms by (fastforce simp: daemon_ok_def returns_iff)

theorem shutdown_leaves_services_running_witness:
  "\<exists>d' h' js. daemon_shutdown calm_host
      ((daemon_new ''/logs'' demo_config)\<lparr>dm_supervisor := demo_supervisor\<rparr>) [] = Some (d', h') \<and>
    signals h' = js \<and> set js \<inter> set (running_pids demo_table) = {}"
  using shutdown_leaves_services_running
    [of "(daemon_new ''/logs'' demo_config)\<lparr>dm_supervisor := demo_supervisor\<rparr>" calm_host "[]"]
    demo_supervisor_inv max_one_pos
  by (fastforce simp: daemon_new_def demo_supervisor_def)

text \<open>
  C5. The kill at the end of a grace period sends at most one signal, to a pid that is still
  tracked and, when the identity of the process is known, still is that process; without a known
  identity, only while no newer launch of the service is watched.
\<close>

theorem force_kill_is_guarded:
  "signals (on_force_kill P n g i tok s h) = signals h \<or>
   signals (on_force_kill P n g i tok s h) = signals h @ [i] \<and> i \<in> set (p_tracked P h) \<and>
     \<not> pid_was_recycled (p_identity P (h @ [TrackedEv (p_tracked P h)]) i) tok \<and>
     (tok \<noteq> None \<or> is_current (sv_timers s) n g)"
  using force_kill_guarded[of P n g i tok s h] by blast

theorem force_kill_is_guarded_witness:
  "signals (on_force_kill (calm_host\<lparr>p_tracked := \<lambda>h. [41]\<rparr>) ''db'' 7 41 (Some ''token'') demo_supervisor [])
      = [41] \<and>
   \<not> pid_was_recycled (Alive ''token'') (Some ''token'')"
proof -
  have run: "signals (on_force_kill (calm_host\<lparr>p_tracked := \<lambda>h. [41]\<rparr>) ''db'' 7 41 (Some ''token'') demo_supervisor [])
      = [41]"
    by code_simp
  with force_kill_is_guarded[of "calm_host\<lparr>p_tracked := \<lambda>h. [41]\<rparr>" "''db''" 7 41 "Some ''token''" demo_supervisor "[]"]
  show ?thesis by (simp add: calm_host_def)
qed


text \<open>
  C7. A process of a previous daemon is adopted only when the host was not rebooted, its service
  was supposed to run and was not stopping, its pid has a recorded identity and the declaration
  still has the digest the process was launched with.
\<close>

theorem adoption_is_justified:
  assumes "judge_all P stored trust h = (verdicts, h')" and "distinct (map record_name stored)"
    and "r \<in> set stored" and "map_of verdicts (record_name r) = Some (Adopt, expected)"
  shows "trust = Kept \<and> was_supposed_to_run r \<and> \<not> is_shutting_down (rt_status (pr_runtime r)) \<and>
    (\<exists>i identity. rt_pid (pr_runtime r) = Some i \<and> rt_identity (pr_runtime r) = Some identity \<and>
       p_digest P (render_identity (pr_spec r)) = launch_digest identity)"
  by (rule judge_all_adopts[OF assms])

theorem adoption_is_justified_witness:
  "map_of (fst (judge_all calm_host (pt_records demo_table) Kept [])) ''db'' = Some (Adopt, Some ''token'') \<and>
   p_digest calm_host (render_identity (demo_spec ''db'' [])) = ''digest''"
proof -
  have adopted: "map_of (fst (judge_all calm_host (pt_records demo_table) Kept [])) ''db'' =
      Some (Adopt, Some ''token'')"
    by code_simp
  let ?r = "demo_record ''db'' [] Online (Some 41)"
  have "distinct (map record_name (pt_records demo_table))"
    using demo_table_wf by (simp add: wf_table_def names_in_table_order_def)
  moreover have "?r \<in> set (pt_records demo_table)" by (simp add: demo_table_def)
  moreover have "record_name ?r = ''db''" by (simp add: demo_defs)
  ultimately have "\<exists>i identity. rt_identity (pr_runtime ?r) = Some identity \<and>
      p_digest calm_host (render_identity (pr_spec ?r)) = launch_digest identity"
    using adoption_is_justified[of calm_host "pt_records demo_table" Kept "[]" _ _ ?r] adopted
    by (metis prod.collapse)
  with adopted show ?thesis by (simp add: demo_defs)
qed

text \<open>
  C8. After a reboot of the host the pids of the state file mean nothing: when the start of the
  init process differs from the one on record, recovery sends no signal at all.
\<close>

theorem no_signal_after_reboot:
  assumes "resurrect P logs_dir timeout t h = Some (res, t', h')" and "loads_ok P"
    and "p_load P h = Inr contents" and "dc_boot contents = Some stored"
    and "p_identity P (h @ [LoadEv (Inr contents)]) INIT_PID = Alive current" and "current \<noteq> stored"
  shows "signals h' = signals h"
  by (rule resurrect_after_reboot[OF assms])

definition rebooted_host :: ports where
  "rebooted_host = calm_host\<lparr>p_load := \<lambda>h. Inr \<lparr>dc_records = pt_records demo_table,
     dc_stranded = [\<lparr>sp_name = ''old'', sp_pid = Some 77, sp_token = Some ''token''\<rparr>],
     dc_boot = Some ''boot''\<rparr>\<rparr>"

lemma rebooted_host_ok: "loads_ok rebooted_host"
  by (simp add: loads_ok_def rebooted_host_def dump_ok_def demo_table_def demo_defs)

theorem no_signal_after_reboot_witness:
  "\<exists>res t' h'. resurrect rebooted_host ''/logs'' 5000 table_new [] = Some (res, t', h') \<and> signals h' = []"
proof -
  obtain res t' h' where run: "resurrect rebooted_host ''/logs'' 5000 table_new [] = Some (res, t', h')"
    using resurrect_returns[OF rebooted_host_ok] by (fastforce simp: returns_iff)
  from no_signal_after_reboot[OF run rebooted_host_ok] run show ?thesis
    by (simp add: rebooted_host_def calm_host_def)
qed

section \<open>The life of a service\<close>

text \<open>
  C9. A service that was stopped stays stopped: when its process exits, whatever the outcome, the
  exit is settled as the end of the stop and no restart is requested, counted or left pending.
\<close>

theorem stopped_service_is_not_restarted:
  assumes "wf_table t" and "find_record t selector = Some r" and "live_pid (pr_runtime r) \<noteq> None"
    and "stop_app P selector t h = (Inr out, t1, h1)"
  shows "\<exists>t2 h3 r2. handle_child_exit P (st_name out) outcome t1 h2 = Some (Settled Stopped False, t2, h3) \<and>
    find_by_name t2 (st_name out) = Some r2 \<and> rt_status (pr_runtime r2) = Stopped \<and>
    rt_pid (pr_runtime r2) = None \<and> \<not> pending_restart (pr_runtime r2)"
  using stop_then_exit[OF assms, of outcome h2] by (auto simp: returns_iff)

theorem stopped_service_is_not_restarted_witness:
  "\<exists>t1 h1 t2 h3. stop_app calm_host (Name ''db'') demo_table [] =
      (Inr \<lparr>st_name = ''db'', st_force_kill_pid = Some 41\<rparr>, t1, h1) \<and>
    handle_child_exit calm_host ''db'' (Code 1) t1 h1 = Some (Settled Stopped False, t2, h3)"
proof -
  have out: "fst (stop_app calm_host (Name ''db'') demo_table []) =
      Inr \<lparr>st_name = ''db'', st_force_kill_pid = Some 41\<rparr>"
    by code_simp
  obtain t1 h1 where run: "stop_app calm_host (Name ''db'') demo_table [] =
      (Inr \<lparr>st_name = ''db'', st_force_kill_pid = Some 41\<rparr>, t1, h1)"
    using out by (cases "stop_app calm_host (Name ''db'') demo_table []") auto
  have "find_record demo_table (Name ''db'') = Some (demo_record ''db'' [] Online (Some 41))"
    by (simp add: find_record_name demo_find)
  moreover have "live_pid (pr_runtime (demo_record ''db'' [] Online (Some 41))) \<noteq> None"
    by (simp add: live_pid_def demo_defs)
  ultimately show ?thesis
    using stopped_service_is_not_restarted[OF demo_table_wf _ _ run] run by fastforce
qed

text \<open>
  C10. Once a launch is watched, what an earlier process of the service does no longer matters:
  its exit, its readiness and the timeout of its probe change nothing and have no effect.
\<close>

theorem old_process_is_ignored:
  assumes "generations_ok (sv_timers s)" and "next_generation (sv_timers s) < - 1"
    and "g \<le> next_generation (sv_timers s)"
    and "so_pid out = Some i" and "needs_watching (so_kind out)" and "watch out s fx = Some (s', fx')"
  shows "on_exit P (so_name out) g outcome s' h = Some ([], s', h) \<and>
    on_ready P (so_name out) g s' h = Some ([], s', h) \<and>
    on_ready_timeout P (so_name out) g s' h = Some ([], s', h)"
  using stale_events stale_after_bump[OF assms(1-3)] watch_bumps[OF assms(4-6)] by simp

definition demo_outcome :: start_outcome where
  "demo_outcome = outcome_of (demo_record ''db'' [] Online (Some 41)) ''db'' (Some 41) Spawned"

theorem old_process_is_ignored_witness:
  "\<exists>s' fx'. watch demo_outcome demo_supervisor [] = Some (s', fx') \<and>
    on_exit calm_host ''db'' 0 (Code 1) s' [] = Some ([], s', [])"
proof -
  have out: "so_name demo_outcome = ''db''" "so_pid demo_outcome = Some 41"
      "needs_watching (so_kind demo_outcome)"
    by code_simp+
  have "returns (watch demo_outcome demo_supervisor []) (\<lambda>(s', fx'). sv_keeps demo_supervisor s')"
    using out demo_find(1) find_by_name_iff[of "''db''" demo_table]
    by (intro watch_returns) (simp add: demo_supervisor_def)
  then obtain s' fx' where run: "watch demo_outcome demo_supervisor [] = Some (s', fx')"
    by (auto simp: returns_iff)
  have "generations_ok (sv_timers demo_supervisor)" "next_generation (sv_timers demo_supervisor) = 0"
    using generations_ok_new by (simp_all add: demo_supervisor_def supervisor_new_def timers_new_def)
  moreover have "(0 :: u64) < - 1" by code_simp
  ultimately show ?thesis
    using old_process_is_ignored[of demo_supervisor 0 demo_outcome 41 "[]" s' fx' calm_host] run out
    by simp
qed


text \<open>
  C12. A crash loop ends: a service that keeps failing before it counts as stable is restarted
  with the growing delays of the backoff and given up on as \<open>Errored\<close>, with an alert, at exactly
  the declared number of unstable exits.
\<close>

theorem crash_loop_is_broken:
  assumes "autorestart (pr_spec r)" and "\<not> pending_restart (pr_runtime r)"
    and "\<forall>c\<in>set rounds. is_crash (pr_spec r) c" and "rounds \<noteq> []"
    and "unat (unstable_restarts (pr_runtime r)) + length rounds = unat (max_restarts (pr_spec r))"
  shows "\<exists>r'. crash_rounds rounds r =
      (map (\<lambda>k. RestartAfter (restart_delay (pr_spec r) (unstable_restarts (pr_runtime r) + of_nat k)))
         [1..<length rounds] @ [Settled Errored True], r') \<and>
    rt_status (pr_runtime r') = Errored"
  by (rule crash_loop[OF assms])

theorem crash_loop_is_broken_witness:
  "fst (crash_rounds
      [(1, None, 0, 10, Code 1), (2, None, 100, 120, Signalled), (3, None, 300, 320, Code 2)]
      (demo_record ''db'' [] Stopped None)) =
    [RestartAfter 100, RestartAfter 200, Settled Errored True]"
proof -
  let ?r = "demo_record ''db'' [] Stopped None"
  let ?rounds = "[(1, None, 0, 10, Code 1), (2, None, 100, 120, Signalled), (3, None, 300, 320, Code 2)] :: crash list"
  have "\<forall>c\<in>set ?rounds. is_crash (pr_spec ?r) c" by code_simp
  moreover have "autorestart (pr_spec ?r)" "\<not> pending_restart (pr_runtime ?r)"
      "unat (unstable_restarts (pr_runtime ?r)) + length ?rounds = unat (max_restarts (pr_spec ?r))"
    by (simp_all add: demo_defs)
  ultimately obtain r' where "crash_rounds ?rounds ?r =
      (map (\<lambda>k. RestartAfter (restart_delay (pr_spec ?r) (unstable_restarts (pr_runtime ?r) + of_nat k)))
         [1..<length ?rounds] @ [Settled Errored True], r')"
    using crash_loop_is_broken[of ?r ?rounds] by blast
  moreover have "map (\<lambda>k. RestartAfter (restart_delay (pr_spec ?r) (unstable_restarts (pr_runtime ?r) + of_nat k)))
      [1..<length ?rounds] = [RestartAfter 100, RestartAfter 200]"
    by code_simp
  ultimately show ?thesis by simp
qed

section \<open>Starting and stopping batches\<close>

text \<open>
  C13. The order of a batch: \<open>topo_sort\<close> returns for every graph, with an order of exactly its
  services in which every dependency comes first, or the services that are on a cycle, or a
  dependency that no service has; it returns an order exactly for a closed, acyclic graph.
\<close>

theorem topo_sort_correct:
  assumes "distinct (map dn_name nodes)"
  shows "\<exists>res. topo_sort nodes = Some res \<and>
    (case res of
       Inr ord \<Rightarrow> distinct ord \<and> set ord = node_names nodes \<and> deps_first nodes ord
     | Inl (Cycle involved) \<Rightarrow> involved \<noteq> [] \<and> set involved = {x. (x, x) \<in> (depends nodes)\<^sup>+}
     | Inl (UnknownDependency a d) \<Rightarrow> (a, d) \<in> depends nodes \<and> d \<notin> node_names nodes) \<and>
    ((\<exists>ord. res = Inr ord) \<longleftrightarrow> dependencies_known nodes \<and> acyclic (depends nodes))"
proof (cases rule: topo_sort_cases[OF assms])
  case (2 involved)
  then have "\<not> acyclic (depends nodes)"
    unfolding acyclic_def by (metis empty_iff equals0I mem_Collect_eq set_empty)
  with 2 show ?thesis by simp
qed simp_all

definition demo_nodes :: "dependency_node list" where
  "demo_nodes = [\<lparr>dn_name = ''web'', dn_depends_on = [''db'', ''cache'']\<rparr>,
     \<lparr>dn_name = ''cache'', dn_depends_on = [''db'']\<rparr>, \<lparr>dn_name = ''db'', dn_depends_on = []\<rparr>]"

theorem topo_sort_correct_witness:
  "topo_sort demo_nodes = Some (Inr [''db'', ''cache'', ''web'']) \<and>
   deps_first demo_nodes [''db'', ''cache'', ''web'']"
proof -
  have run: "topo_sort demo_nodes = Some (Inr [''db'', ''cache'', ''web''])" by code_simp
  have "distinct (map dn_name demo_nodes)" by code_simp
  from topo_sort_correct[OF this] run show ?thesis by simp
qed

text \<open>
  C14. A batch whose declarations, together with those of the table, depend on each other in a
  circle is refused as a whole: no record changes and no port is called.
\<close>

theorem cyclic_batch_is_refused:
  assumes "wf_table t" and "distinct (map app_name specs)" and "\<not> acyclic (depends (start_nodes t specs))"
  shows "\<exists>e. start_apps P specs logs_dir t h = Some (report_refused e, t, h)"
  by (rule cyclic_batch_refused[OF assms])

theorem cyclic_batch_is_refused_witness:
  "\<exists>e. start_apps calm_host [demo_spec ''db'' [''web'']] ''/logs'' demo_table [] =
    Some (report_refused e, demo_table, [])"
proof (rule cyclic_batch_is_refused[OF demo_table_wf])
  let ?nodes = "start_nodes demo_table [demo_spec ''db'' [''web'']]"
  let ?E = "depends ?nodes"
  have "find (\<lambda>m. dn_name m = ''db'') ?nodes = Some \<lparr>dn_name = ''db'', dn_depends_on = [''web'']\<rparr>"
      "find (\<lambda>m. dn_name m = ''web'') ?nodes = Some \<lparr>dn_name = ''web'', dn_depends_on = [''db'']\<rparr>"
    by code_simp+
  then have "(''db'', ''web'') \<in> ?E" "(''web'', ''db'') \<in> ?E"
    by (auto intro: depends_step)
  then have "(''db'', ''db'') \<in> ?E\<^sup>+" by (meson r_into_trancl' trancl_into_trancl)
  then show "\<not> acyclic ?E" by (auto simp: acyclic_def)
qed simp


definition full_host :: ports where
  "full_host = calm_host\<lparr>p_spawn := \<lambda>h ls. if ls_name ls = ''new'' then Inl (Spawn (ls_name ls) ''no memory'')
     else p_spawn calm_host h ls\<rparr>"


text \<open>
  C16. The services of an accepted batch are launched in dependency order, each once, up to the
  first failure: what is reported is a prefix of the order, and all of it when nothing failed.
\<close>

theorem start_follows_the_order:
  assumes "wf_table t" and "accepted_order t specs = Some (Inr order)"
  shows "\<exists>report t' h' k. start_apps P specs logs_dir t h = Some (report, t', h') \<and>
    map so_name (sr_outcomes report) = take k order \<and>
    (sr_failure report = None \<longrightarrow> map so_name (sr_outcomes report) = order) \<and>
    (sr_failure report \<noteq> None \<longrightarrow> k < length order)"
  by (rule start_apps_run[OF assms, of P logs_dir h]) (auto simp: loop_result_def)

theorem start_follows_the_order_witness:
  "\<exists>report t' h' k. start_apps full_host [demo_spec ''new'' [''job''], demo_spec ''job'' []] ''/logs'' demo_table []
      = Some (report, t', h') \<and> map so_name (sr_outcomes report) = take k [''job'', ''new'']"
proof -
  have "accepted_order demo_table [demo_spec ''new'' [''job''], demo_spec ''job'' []] =
      Some (Inr [''job'', ''new''])"
    by code_simp
  from start_follows_the_order[OF demo_table_wf this, of full_host "''/logs''" "[]"] show ?thesis by blast
qed

text \<open>
  C17. A service is deleted only when no declaration depends on it; its record is the only one
  that leaves the table, and when the request fails the table still has every service.
\<close>

theorem delete_respects_dependents:
  assumes "wf_table t"
  shows "\<exists>res t' h'. delete_app P selector t h = Some (res, t', h') \<and> wf_table t' \<and>
    (case res of
       Inl e \<Rightarrow> table_names t' = table_names t
     | Inr out \<Rightarrow> st_name out \<in> table_names t \<and> table_names t' = table_names t - {st_name out} \<and>
         (\<forall>r\<in>set (pt_records t). st_name out \<notin> set (depends_on (pr_spec r))))"
proof -
  have "\<forall>r\<in>set (pt_records t). n \<notin> set (depends_on (pr_spec r))" if "dependents_of t n = []" for n
    using that by (auto simp: dependents_of_def list_ex_iff filter_empty_conv)
  with delete_app_returns[OF assms, of P selector h] show ?thesis
    unfolding returns_iff by (fastforce split: sum.splits)
qed

theorem delete_respects_dependents_witness:
  "\<exists>t' h'. delete_app calm_host (Name ''db'') demo_table [] =
    Some (Inl (StillDependedOn ''db'' [''web'']), t', h') \<and> table_names t' = table_names demo_table"
proof -
  have run: "map_option fst (delete_app calm_host (Name ''db'') demo_table []) =
      Some (Inl (StillDependedOn ''db'' [''web'']))"
    by code_simp
  obtain res t' h' where "delete_app calm_host (Name ''db'') demo_table [] = Some (res, t', h')"
      "case res of Inl e \<Rightarrow> table_names t' = table_names demo_table | Inr out \<Rightarrow> True"
    using delete_respects_dependents[OF demo_table_wf, of calm_host "Name ''db''" "[]"]
    by (metis (no_types, lifting) old.sum.exhaust sum.case)
  with run show ?thesis by auto
qed

text \<open>
  C18. \<open>pm3 signal\<close> reaches a process only under a valid signal name and only right after the
  host confirmed that the pid still is the process the service was launched as; any other answer
  sends nothing.
\<close>

theorem signal_only_to_the_verified_process:
  "(\<exists>e h'. signal_app P selector raw t h = (Inl e, h') \<and> signals h' = signals h) \<or>
   (\<exists>res r i tok signal answer.
      signal_app P selector raw t h =
        (res, h @ [IdentityEv i (Alive tok), DeliverEv signal i ProcessGroup answer]) \<and>
      parse_signal_name raw = Inr signal \<and> find_record t selector = Some r \<and>
      live_pid (pr_runtime r) = Some i \<and> identity_token (pr_runtime r) = Some tok)"
  by (cases rule: signal_app_cases[of P selector raw t h]) blast+

text \<open>
  C19. The exit of a service whose readiness probe failed settles it as \<open>Errored\<close>; no restart is
  queued, and a restart the operator asked for in the meantime stays pending.
\<close>

theorem failed_probe_exit_settles:
  assumes "is_current (sv_timers s) n g" and "find_by_name (sv_table s) n = Some r"
    and "n \<in> set (sv_ready_failed s)"
  shows "\<exists>s' h' r'. on_exit P n g outcome s h = Some ([CancelForceKill n], s', h') \<and>
    find_by_name (sv_table s') n = Some r' \<and> rt_status (pr_runtime r') = Errored \<and>
    pending_restart (pr_runtime r') = pending_restart (pr_runtime r) \<and> sv_timers s' = sv_timers s"
  using failed_probe_exit[OF assms, of P outcome h]
  by (auto simp: on_runtime_def mark_exited_def)

theorem failed_probe_exit_settles_witness:
  "\<exists>s' h' r'. on_exit calm_host ''db'' 0 (Code 1) (demo_supervisor\<lparr>sv_ready_failed := [''db'']\<rparr>) [] =
      Some ([CancelForceKill ''db''], s', h') \<and>
    find_by_name (sv_table s') ''db'' = Some r' \<and> rt_status (pr_runtime r') = Errored"
proof -
  let ?s = "demo_supervisor\<lparr>sv_ready_failed := [''db'']\<rparr>"
  have "is_current (sv_timers ?s) ''db'' 0" by code_simp
  moreover have "find_by_name (sv_table ?s) ''db'' = Some (demo_record ''db'' [] Online (Some 41))"
    using demo_find by (simp add: demo_supervisor_def)
  ultimately show ?thesis
    using failed_probe_exit_settles[of ?s "''db''" 0 _ calm_host "Code 1" "[]"] by fastforce
qed


section \<open>Declarations\<close>

text \<open>C21. \<open>AppSpec::validate\<close> accepts exactly the declarations that satisfy every rule.\<close>

theorem validate_spec_accepts:
  "validate_spec spec = Inr () \<longleftrightarrow>
    validate_app_name (app_name spec) = Inr () \<and> \<not> is_blank (script spec) \<and>
    is_absolute_path (cwd spec) \<and> app_name spec \<notin> set (depends_on spec) \<and>
    min_uptime_ms spec \<noteq> 0 \<and> max_restart_delay_ms spec \<noteq> 0 \<and>
    (\<forall>probe. ready_probe spec = Some probe \<longrightarrow> validate_probe (app_name spec) probe = Inr ()) \<and>
    (\<forall>probe. liveness_probe spec = Some probe \<longrightarrow>
       (\<exists>host port. probe = ProbeTcp host port \<and> \<not> is_blank host \<and> port \<noteq> 0)) \<and>
    listen_timeout_ms spec \<noteq> Some 0 \<and>
    (\<forall>entry\<in>set (env spec). \<not> is_blank (ev_key entry)) \<and>
    (\<forall>cron. schedule spec = Some cron \<longrightarrow> \<not> is_blank cron) \<and>
    (\<forall>code\<in>set (stop_exit_codes spec). 0 \<le> code \<and> code \<le> 255) \<and>
    (self_responsible spec \<longrightarrow> sb_mode (sandbox spec) = DangerFullAccess) \<and>
    validate_policy (sandbox spec) = Inr ()"
  by (rule validate_spec_ok)

theorem validate_spec_accepts_witness: "validate_spec (demo_spec ''web'' [''db'']) = Inr ()"
proof -
  have "validate_app_name ''web'' = Inr ()" "validate_policy open_policy = Inr ()"
      "is_absolute_path ''/srv''" "\<not> is_blank ''/bin/service''"
    by code_simp+
  then show ?thesis by (subst validate_spec_accepts) (simp add: demo_spec_def)
qed

text \<open>
  C22. An accepted name can be used as a file name and as a selector: it has no separator and no
  leading dot, and what an operator types is read back as that name, never as an id or \<open>all\<close>.
\<close>

theorem validated_name_is_safe:
  assumes "validate_app_name name = Inr ()"
  shows "safe_file_name name \<and> selector_parse name = Name name \<and>
    selector_parse (selector_to_string (Name name)) = Name name"
  using validated_name_safe[OF assms] parse_selector_name[OF assms]
    parse_selector_to_string[of "Name name"] assms by simp

theorem validated_name_is_safe_witness: "selector_parse ''web-1'' = Name ''web-1''"
proof -
  have "validate_app_name ''web-1'' = Inr ()" by code_simp
  from validated_name_is_safe[OF this] show ?thesis by blast
qed

text \<open>
  C23. Merging the layers of an environment: the result is sorted by key without duplicates, and
  every key has the value of the last layer that sets it.
\<close>

theorem merged_environment:
  "sorted_wrt (<) (map ev_key (merge_environment layers)) \<and>
   by_key (merge_environment layers) = by_key (rev (concat layers))"
  by (rule merge_environment_spec)

text \<open>
  C24. The delay before the \<open>n\<close>-th unstable restart doubles from the base up to the cap, without
  a wrap-around for any input, and never shrinks with \<open>n\<close>.
\<close>

theorem backoff_doubles_to_the_cap:
  "unat (backoff_delay base cap n) = min (unat cap) (unat base * 2 ^ (unat n - 1)) \<and>
   backoff_delay base cap n \<le> cap \<and>
   (m \<le> n \<longrightarrow> backoff_delay base cap m \<le> backoff_delay base cap n)"
  using backoff_delay_closed backoff_delay_le_cap backoff_delay_mono by blast

theorem backoff_doubles_to_the_cap_witness:
  "backoff_delay 100 400 2 \<le> backoff_delay 100 400 (5 :: u32)"
proof -
  have "(2 :: u32) \<le> 5" by simp
  with backoff_doubles_to_the_cap[of 100 400 5 2] show ?thesis by blast
qed

text \<open>
  C25. A memory limit written as an amount and its unit is read as that many KiB; what does not fit
  into 64 bits of bytes, or is less than one KiB, is refused.
\<close>

theorem memory_limit_is_read:
  assumes "unit_word w" and "unit_size w = Some scale"
  shows "parse_memory_limit (show_nat n @ w) =
      (if n * unat scale < 2 ^ 64 \<and> 1024 \<le> n * unat scale
       then Some (of_nat (n * unat scale div 1024)) else None) \<and>
    (\<forall>raw kib. parse_memory_limit raw = Some kib \<longrightarrow> 0 < unat kib \<and> unat kib * 1024 < 2 ^ 64)"
  using parse_memory_limit_written[OF assms] parse_memory_limit_bounds by blast

theorem memory_limit_is_read_witness: "parse_memory_limit ''512MB'' = Some (512 * 1024)"
proof -
  have u: "unit_word ''MB''" "unit_size ''MB'' = Some MIB" by code_simp+
  have "show_nat 512 = ''512''" by code_simp
  with memory_limit_is_read[OF u, of 512] unat_units(2) show ?thesis by simp
qed

text \<open>
  C26. A root covers a path exactly when it is the file system root or its components are a prefix
  of those of the path, so that covering is reflexive and transitive and \<open>/srv\<close> does not cover
  \<open>/srvx\<close>.
\<close>

theorem covering_is_by_components:
  "(covers_path p c \<longleftrightarrow> normalize_root p = ''/'' \<or>
     prefix (components (normalize_root p)) (components (normalize_root c))) \<and>
   covers_path p p \<and> (covers_path p c \<and> covers_path c d \<longrightarrow> covers_path p d)"
  using covers_path_components covers_path_refl covers_path_trans by blast

theorem covering_is_by_components_witness: "covers_path ''/srv'' ''/srv/data/log''"
proof -
  have "covers_path ''/srv'' ''/srv/data''" "covers_path ''/srv/data'' ''/srv/data/log''"
    by code_simp+
  with covering_is_by_components[of "''/srv''" "''/srv/data''" "''/srv/data/log''"] show ?thesis by blast
qed

text \<open>
  C27. A sandbox policy is accepted exactly when its mode allows the writes it grants, every root
  is absolute and no granted root would open a hidden one.
\<close>

theorem validate_policy_accepts:
  "validate_policy p = Inr () \<longleftrightarrow>
     (allows_writes (sb_mode p) \<or> granted_roots p = []) \<and>
     list_all is_absolute_path (granted_roots p @ readable_roots p) \<and>
     (\<forall>root\<in>set (granted_roots p). \<forall>hidden\<in>set (unreadable_roots p). \<not> covers_path root hidden)"
  by (rule validate_policy_iff)

theorem validate_policy_accepts_witness:
  "validate_policy (open_policy\<lparr>writable_roots := [''/srv''], unreadable_roots := [''/srvx'']\<rparr>) = Inr ()"
proof -
  have "is_absolute_path ''/srv''" "\<not> covers_path ''/srv'' ''/srvx''"
      "granted_roots (open_policy\<lparr>writable_roots := [''/srv''], unreadable_roots := [''/srvx'']\<rparr>) = [''/srv'']"
    by code_simp+
  then show ?thesis by (subst validate_policy_accepts) (simp add: open_policy_def)
qed

section \<open>Names, identities and alerts\<close>

text \<open>C28. No two streams of any two services share a log file.\<close>

theorem log_files_are_private:
  "log_path dir a s = log_path dir b r \<longleftrightarrow> a = b \<and> s = r"
  by (rule log_path_inject)

text \<open>
  C29. The text the launch digest is taken of determines what it is taken of: two declarations
  render the same only if they agree on every field that identifies the process.
\<close>

theorem identity_text_is_injective:
  assumes "plain_keys a" and "plain_keys b"
  shows "render_identity a = render_identity b \<longleftrightarrow>
    app_name a = app_name b \<and> script a = script b \<and> args a = args b \<and> cwd a = cwd b \<and>
    sb_mode (sandbox a) = sb_mode (sandbox b) \<and> sb_read (sandbox a) = sb_read (sandbox b) \<and>
    sb_network (sandbox a) = sb_network (sandbox b) \<and>
    writable_roots (sandbox a) = writable_roots (sandbox b) \<and>
    readable_roots (sandbox a) = readable_roots (sandbox b) \<and>
    mset (launch_pairs a) = mset (launch_pairs b)"
  by (rule render_identity_iff[OF assms])

theorem identity_text_is_injective_witness:
  "render_identity ((demo_spec ''db'' [])\<lparr>args := [''a'', ''b'']\<rparr>) \<noteq>
   render_identity ((demo_spec ''db'' [])\<lparr>args := [''a b'']\<rparr>)"
proof -
  have "plain_keys ((demo_spec ''db'' [])\<lparr>args := x\<rparr>)" for x
    by (simp add: plain_keys_def demo_spec_def)
  from identity_text_is_injective[OF this this] show ?thesis by simp
qed



text \<open>C31. A new service gets the lowest id from 1 on that no service has.\<close>

theorem new_service_gets_lowest_free_id:
  assumes "length (pt_records t) < 2 ^ 32 - 1" and "find_by_name t (app_name spec) = None"
  shows "let i = fst (upsert spec now t); taken = (\<lambda>r. rt_pm_id (pr_runtime r)) ` set (pt_records t) in
    1 \<le> i \<and> i \<notin> taken \<and> (\<forall>k. 1 \<le> k \<and> k < i \<longrightarrow> k \<in> taken)"
  using lowest_free_pm_id_spec[OF assms(1)] assms(2) by (simp add: upsert_def Let_def)

theorem new_service_gets_lowest_free_id_witness:
  "fst (upsert (demo_spec ''new'' []) 0 demo_table) \<notin> (\<lambda>r. rt_pm_id (pr_runtime r)) ` set (pt_records demo_table)"
proof -
  have "length (pt_records demo_table) < 2 ^ 32 - 1" by (simp add: demo_table_def)
  moreover have "find_by_name demo_table (app_name (demo_spec ''new'' [])) = None"
    by (simp add: find_by_name_def demo_table_def demo_defs)
  ultimately show ?thesis
    using new_service_gets_lowest_free_id[of demo_table "demo_spec ''new'' []" 0] by (simp add: Let_def)
qed




text \<open>
  C34. A daemon started beside a living one leaves the socket and every file of the first as they are,
  and never serves: what it would do with a bound socket makes no difference.
\<close>

theorem second_daemon_yields:
  assumes "so_node s = Some (SocketNode True)"
    and "run_daemon_with_shutdown H F served config_path d s = (r, d', s')"
  shows "s' = s \<and> dk_files d' = dk_files d \<and>
    run_daemon_with_shutdown H F served' config_path d s = (r, d', s')"
  by (rule second_daemon_changes_nothing[OF assms])

theorem second_daemon_yields_witness:
  "\<exists>r d'. run_daemon_with_shutdown machine
      \<lparr>sf_connect = None, sf_remove = None, sf_bind = None, sf_permissions = None, sf_owner = Some 1000\<rparr>
      (\<lambda>b d. (Inr (), d)) CONFIG_PATH machine_disk \<lparr>so_node = Some (SocketNode True), so_mode = 384\<rparr> =
      (r, d', \<lparr>so_node = Some (SocketNode True), so_mode = 384\<rparr>) \<and> dk_files d' = dk_files machine_disk"
proof -
  let ?s = "\<lparr>so_node = Some (SocketNode True), so_mode = 384\<rparr>"
  let ?F = "\<lparr>sf_connect = None, sf_remove = None, sf_bind = None, sf_permissions = None, sf_owner = Some 1000\<rparr>"
  obtain r d' s' where ran:
      "run_daemon_with_shutdown machine ?F (\<lambda>b d. (Inr (), d)) CONFIG_PATH machine_disk ?s = (r, d', s')"
    by (metis prod_cases3)
  from second_daemon_yields[OF _ ran] ran show ?thesis by fastforce
qed






text \<open>
  C37. The state that was saved comes back: as long as every service resolves to the declaration it had,
  loading gives back the very records, none is stranded, and the boot is the one that was written.
\<close>

theorem saved_state_returns:
  assumes "store_save H Y records generation d = (Inr (), d1)"
    and "dk_files d2 (yd_path Y) = dk_files d1 (yd_path Y)"
    and "no_faults (hs_files H)"
    and "hs_read_dump H (hs_write_dump H (encode_states records generation)) = Inr (encode_states records generation)"
    and "\<forall>r\<in>set records. runtime_ok (pr_runtime r)"
    and "\<And>r d. r \<in> set records \<Longrightarrow> dk_files d = dk_files d2 \<Longrightarrow>
      fst (resolve_service (host_secrets.truncate H) (yd_specs Y) (record_name r) d) = Inr (pr_spec r)"
  shows "fst (store_load H Y d2) = Inr \<lparr>dc_records = records, dc_stranded = [], dc_boot = generation\<rparr>"
  by (rule resolved_state_comes_back[OF assms])

theorem saved_state_returns_witness:
  "\<exists>d2. fst (store_load dump_host \<lparr>yd_path = ''/state.yaml'', yd_specs = web_source\<rparr> d2) =
    Inr \<lparr>dc_records = [web_record], dc_stranded = [], dc_boot = Some ''boot''\<rparr>"
proof -
  let ?Y = "\<lparr>yd_path = ''/state.yaml'', yd_specs = web_source\<rparr>"
  have host: "hs_files dump_host = calm_files" "hs_write_dump dump_host doc = ''state''"
      "hs_read_dump dump_host raw = Inr (encode_states [web_record] (Some ''boot''))" for doc raw
    by (simp_all add: dump_host_def machine_def host_dump.truncate_def)
  have "fst (store_save dump_host ?Y [web_record] (Some ''boot'') empty_disk) = Inr ()"
    by (simp add: store_save_def write_atomically_def write_private_def rename_file_def set_contents_def Let_def host(1)
        calm_files_def fault_now_def split: option.split)
  then obtain d1 where saved: "store_save dump_host ?Y [web_record] (Some ''boot'') empty_disk = (Inr (), d1)"
    by (cases "store_save dump_host ?Y [web_record] (Some ''boot'') empty_disk") simp
  then have "dk_files d1 ''/state.yaml'' = Some ''state''"
    using write_atomically_result(1)[OF saved[unfolded store_save_def]] host(2) by simp
  then have kept: "dk_files (d1\<lparr>dk_files := [''/cfg/web.yaml'' \<mapsto> ''web'', ''/state.yaml'' \<mapsto> ''state'']\<rparr>) (yd_path ?Y) =
      dk_files d1 (yd_path ?Y)"
    by simp
  have name: "record_name web_record = ''web''" "pr_spec web_record = web_spec"
    by (simp_all add: web_record_def runtime_new_def web_spec_def)
  have ok: "runtime_ok (pr_runtime web_record)"
    by (simp add: web_record_def runtime_ok_def runtime_new_def)
  show ?thesis
    using saved_state_returns[OF saved kept] ok host web_resolves calm_files_no_faults name by auto
qed



definition three_lines :: string where
  "three_lines = concat (map (\<lambda>line. line @ [CHR 0x0A]) [''one'', ''two'', ''tri''])"

text \<open>
  C39. The tail of a log, read backwards in blocks, is the tail of the whole log, unless its last lines
  are longer than the limit on what is read.
\<close>

theorem read_tail_is_the_tail:
  assumes "length content \<le> max_bytes \<or> wanted < line_breaks (drop (length content - max_bytes) content)"
  shows "read_tail path (Inr (length content)) (file_reads content) wanted max_bytes =
    Inr (tail_lines (from_utf8_lossy content) wanted)"
  by (rule read_tail_is_tail[OF assms])

theorem read_tail_is_the_tail_witness:
  "read_tail ''/web.log'' (Inr 12) (file_reads three_lines) 2 9 = Inr [''two'', ''tri'']"
proof -
  have "length three_lines = 12" "tail_lines (from_utf8_lossy three_lines) 2 = [''two'', ''tri'']"
      "2 < line_breaks (drop 3 three_lines)"
    by code_simp+
  with read_tail_is_the_tail[of three_lines 9 2 "''/web.log''"] show ?thesis by simp
qed



end
